(* ===== verification/Prelude.thy ===== *)
theory Prelude
  imports
    "HOL-Library.Word"
    "HOL-Library.Char_ord"
    "HOL-Library.List_Lexorder"
    "HOL-Library.Monad_Syntax"
    "HOL-Library.Sublist"
    "HOL-Library.Multiset"
begin

text \<open>
  Shared vocabulary of the development: byte strings and text, results of
  fallible Python code, the fact collections the component theories extend, and
  the list, option and map lemmas that several components use.

  A Python \<^verbatim>\<open>str\<close> is modelled on its Latin-1 fragment: a \<^typ>\<open>char\<close> is
  the code point \<open>of_char c\<close> below 256. Every string operation of the source
  (UTF-8 encoding, JSON escaping, code point order, NFC normalisation, which is
  the identity below U+0300) is exact on that fragment.
\<close>

type_synonym byte = "8 word"
type_synonym bytes = "byte list"

text \<open>Results: \<^const>\<open>Inl\<close> carries the exception a Python call raises.\<close>

type_synonym ('e, 'a) result = "'e + 'a"

definition rbind :: "('e, 'a) result \<Rightarrow> ('a \<Rightarrow> ('e, 'b) result) \<Rightarrow> ('e, 'b) result" where
  "rbind r f = (case r of Inl e \<Rightarrow> Inl e | Inr x \<Rightarrow> f x)"

definition rguard :: "bool \<Rightarrow> 'e \<Rightarrow> ('e, unit) result" where
  "rguard b e = (if b then Inr () else Inl e)"

named_theorems result_simps \<open>unfolding of the result combinators\<close>
named_theorems frame_simps \<open>fields an operation leaves unchanged\<close>

lemma rbind_simps [simp, result_simps]:
  "rbind (Inl e) f = Inl e"
  "rbind (Inr x) f = f x"
  by (simp_all add: rbind_def)

lemma rguard_simps [simp, result_simps]:
  "rguard True e = Inr ()"
  "rguard False e = Inl e"
  by (simp_all add: rguard_def)

lemma rbind_eq_Inr [result_simps]:
  "rbind r f = Inr y \<longleftrightarrow> (\<exists>x. r = Inr x \<and> f x = Inr y)"
  by (cases r) auto

lemma rguard_eq_Inr [result_simps]: "rguard b e = Inr u \<longleftrightarrow> b"
  by (cases b) auto

lemma rguard_eq_Inl [result_simps]: "rguard b e = Inl e' \<longleftrightarrow> \<not> b \<and> e' = e"
  by (cases b) auto

fun rmap :: "('a \<Rightarrow> ('e, 'b) result) \<Rightarrow> 'a list \<Rightarrow> ('e, 'b list) result" where
  \<comment> \<open>a list comprehension over a call that may raise: the first exception wins\<close>
  "rmap f [] = Inr []"
| "rmap f (x # xs) = rbind (f x) (\<lambda>y. rbind (rmap f xs) (\<lambda>ys. Inr (y # ys)))"

lemma rmap_eq_Inr:
  "rmap f xs = Inr ys \<longleftrightarrow> list_all2 (\<lambda>x y. f x = Inr y) xs ys"
proof (induction xs arbitrary: ys)
  case Nil
  then show ?case by auto
next
  case (Cons x xs)
  then show ?case by (cases ys) (auto simp: rbind_eq_Inr)
qed

lemma list_all2_member:
  "list_all2 P xs ys \<Longrightarrow> y \<in> set ys \<Longrightarrow> \<exists>x \<in> set xs. P x y"
  by (induction rule: list_all2_induct) auto

lemma rmap_Inr [simp]: "(\<And>x. x \<in> set xs \<Longrightarrow> f x = Inr (g x)) \<Longrightarrow> rmap f xs = Inr (map g xs)"
  by (induction xs) simp_all

subsection \<open>Python truthiness of strings\<close>

definition or_else :: "string option \<Rightarrow> string \<Rightarrow> string" where
  \<comment> \<open>\<^verbatim>\<open>x or d\<close> for an optional string: an empty string is falsy\<close>
  "or_else x d = (case x of None \<Rightarrow> d | Some s \<Rightarrow> if s = [] then d else s)"

lemma or_else_simps [simp]:
  "or_else None d = d"
  "or_else (Some []) d = d"
  "s \<noteq> [] \<Longrightarrow> or_else (Some s) d = s"
  by (auto simp: or_else_def)

subsection \<open>Text as bytes\<close>

definition utf8_char :: "char \<Rightarrow> bytes" where
  "utf8_char c =
     (if of_char c < (128 :: nat) then [of_nat (of_char c)]
      else [of_nat (192 + of_char c div 64), of_nat (128 + of_char c mod 64)])"

definition utf8 :: "string \<Rightarrow> bytes" where
  \<comment> \<open>\<^verbatim>\<open>s.encode("utf-8")\<close>\<close>
  "utf8 s = concat (map utf8_char s)"

lemma utf8_simps [simp]:
  "utf8 [] = []"
  "utf8 (c # s) = utf8_char c @ utf8 s"
  by (simp_all add: utf8_def)

lemma utf8_append [simp]: "utf8 (s @ t) = utf8 s @ utf8 t"
  by (simp add: utf8_def)

lemma of_nat_byte_eq:
  assumes "(of_nat a :: byte) = of_nat b" "a < 256" "b < 256"
  shows "a = b"
proof -
  have "unat (of_nat a :: byte) = unat (of_nat b :: byte)" using assms(1) by simp
  then show ?thesis using assms(2,3) by (simp add: unat_of_nat)
qed

lemma of_char_nat_less: "(of_char c :: nat) < 256"
  using range_nat_of_char by (metis atLeastLessThan_iff rangeI)

lemma utf8_char_prefix:
  assumes "utf8_char c @ x = utf8_char d @ y"
  shows "c = d \<and> x = y"
proof -
  let ?m = "of_char c :: nat" and ?n = "of_char d :: nat"
  have b: "?m < 256" "?n < 256" "?m div 64 < 4" "?n div 64 < 4" "?m mod 64 < 64" "?n mod 64 < 64"
    using of_char_nat_less [of c] of_char_nat_less [of d]
    by (auto intro: less_mult_imp_div_less)
  have "?m = ?n \<and> x = y"
  proof (cases "?m < 128"; cases "?n < 128")
    assume "?m < 128" "?n < 128"
    with assms b show ?thesis by (auto simp: utf8_char_def dest: of_nat_byte_eq)
  next
    assume "?m < 128" "\<not> ?n < 128"
    with assms have "(of_nat ?m :: byte) = of_nat (192 + ?n div 64)"
      by (simp add: utf8_char_def del: of_nat_add)
    then have "?m = 192 + ?n div 64" using b by (auto intro: of_nat_byte_eq)
    with \<open>?m < 128\<close> show ?thesis by simp
  next
    assume "\<not> ?m < 128" "?n < 128"
    with assms have "(of_nat ?n :: byte) = of_nat (192 + ?m div 64)"
      by (simp add: utf8_char_def del: of_nat_add)
    then have "?n = 192 + ?m div 64" using b by (auto intro: of_nat_byte_eq)
    with \<open>?n < 128\<close> show ?thesis by simp
  next
    assume g: "\<not> ?m < 128" "\<not> ?n < 128"
    have e: "(of_nat (192 + ?m div 64) :: byte) = of_nat (192 + ?n div 64)"
      "(of_nat (128 + ?m mod 64) :: byte) = of_nat (128 + ?n mod 64)" "x = y"
      using assms g by (simp_all add: utf8_char_def del: of_nat_add)
    have "192 + ?m div 64 = 192 + ?n div 64" by (rule of_nat_byte_eq [OF e(1)]) (use b in auto)
    moreover have "128 + ?m mod 64 = 128 + ?n mod 64"
      by (rule of_nat_byte_eq [OF e(2)]) (use b in auto)
    ultimately have "?m = ?n" by (metis add_left_cancel div_mod_decomp)
    with e show ?thesis by simp
  qed
  then show ?thesis by simp
qed

lemma utf8_char_not_Nil [simp]: "utf8_char c \<noteq> []" "[] \<noteq> utf8_char c"
  by (simp_all add: utf8_char_def)

lemma utf8_inj: "utf8 s = utf8 t \<Longrightarrow> s = t"
proof (induction s arbitrary: t)
  case Nil
  then show ?case by (cases t) auto
next
  case (Cons c s)
  then obtain d t' where "t = d # t'" by (cases t) auto
  with Cons show ?case by (auto dest!: utf8_char_prefix)
qed

lemma utf8_eq_iff [simp]: "utf8 s = utf8 t \<longleftrightarrow> s = t"
  by (auto dest: utf8_inj)

subsection \<open>Association lists with distinct keys\<close>

lemma map_of_zip_inject:
  assumes "map_of (zip ks vs) = map_of (zip ks ws)" "distinct ks"
    and "length vs = length ks" "length ws = length ks"
  shows "vs = ws"
  using assms(3,4,1,2)
proof (induction ks arbitrary: vs ws)
  case Nil
  then show ?case by simp
next
  case (Cons k ks)
  obtain v vs' where v: "vs = v # vs'" using Cons.prems by (cases vs) auto
  obtain w ws' where w: "ws = w # ws'" using Cons.prems by (cases ws) auto
  have k: "map_of (zip ks vs') k = None" "map_of (zip ks ws') k = None"
    using Cons.prems v w by (auto simp: map_of_eq_None_iff dest: set_zip_leftD)
  have vw: "v = w" using fun_cong [OF Cons.prems(3), of k] v w by simp
  have "map_of (zip ks vs') = map_of (zip ks ws')"
  proof
    fix x
    show "map_of (zip ks vs') x = map_of (zip ks ws') x"
      using fun_cong [OF Cons.prems(3), of x] v w k by (cases "x = k") auto
  qed
  then have "vs' = ws'" using Cons.IH [of vs' ws'] Cons.prems v w by simp
  with v w vw show ?case by simp
qed

lemma map_of_sort_key:
  assumes "distinct (map fst kvs)"
  shows "map_of (sort_key fst kvs) = map_of kvs"
  by (rule map_of_inject_set [THEN iffD2]) (use assms in \<open>auto simp: distinct_map\<close>)

subsection \<open>Python dicts\<close>

fun dict_set :: "'k \<Rightarrow> 'v \<Rightarrow> ('k \<times> 'v) list \<Rightarrow> ('k \<times> 'v) list" where
  \<comment> \<open>\<^verbatim>\<open>d[k] = v\<close>: an existing key keeps its position, a new one goes last\<close>
  "dict_set k v [] = [(k, v)]"
| "dict_set k v ((l, w) # kvs) = (if l = k then (k, v) # kvs else (l, w) # dict_set k v kvs)"

lemma map_of_dict_set [simp]: "map_of (dict_set k v kvs) = (map_of kvs)(k \<mapsto> v)"
  by (induction kvs) auto

lemma dict_set_keys: "set (map fst (dict_set k v kvs)) = insert k (set (map fst kvs))"
proof (induction kvs)
  case (Cons a kvs)
  then show ?case by (cases a) (simp add: insert_commute)
qed simp

lemma dict_set_distinct: "distinct (map fst kvs) \<Longrightarrow> distinct (map fst (dict_set k v kvs))"
proof (induction kvs)
  case (Cons a kvs)
  then show ?case using dict_set_keys [of k v kvs] by (cases a) auto
qed simp

lemma dict_set_member: "(l, w) \<in> set (dict_set k v kvs) \<Longrightarrow> (l, w) = (k, v) \<or> (l, w) \<in> set kvs"
  by (induction kvs) (auto split: if_splits)

lemma find_SomeD: "find P xs = Some x \<Longrightarrow> x \<in> set xs \<and> P x"
  by (induction xs) (auto split: if_splits)

end
