(* ===== verification/Json.thy ===== *)
theory Json
  imports Prelude
begin

text \<open>
  JSON values and the deterministic encoders the source hashes with:
  \<^verbatim>\<open>json.dumps(..., sort_keys=True)\<close> in the compact UTF-8 form of
  \<^verbatim>\<open>storage/binding_m2.py::_canonical_json\<close> (and its mirrors in freshness, policy,
  authority graph, namespace and invariants), the compact ASCII form of
  \<^verbatim>\<open>storage/store.py::_params_json\<close>, and the spaced ASCII form of
  \<^verbatim>\<open>storage/binding.py::canonical_json\<close>. The main result is that each encoder is
  injective up to the order of object keys, so that two different committed bodies
  are always two different byte strings under the hash.
\<close>

subsection \<open>Values\<close>

definition is_digit :: "char \<Rightarrow> bool" where
  "is_digit c \<longleftrightarrow> 48 \<le> (of_char c :: nat) \<and> of_char c \<le> (57 :: nat)"

definition num_char :: "char \<Rightarrow> bool" where
  "num_char c \<longleftrightarrow> is_digit c \<or> c \<in> set ''+-.e''"

definition float_lit :: "string \<Rightarrow> bool" where
  \<comment> \<open>the shape of \<^verbatim>\<open>repr(x)\<close> for a finite float: never the shape of an integer\<close>
  "float_lit s \<longleftrightarrow> s \<noteq> [] \<and> list_all num_char s \<and> (hd s = CHR ''-'' \<or> is_digit (hd s)) \<and>
     list_ex (\<lambda>c. c = CHR ''.'' \<or> c = CHR ''e'') s"

typedef pyfloat = "{s. float_lit s}"
  morphisms float_repr Abs_pyfloat
  by (rule exI [of _ "''0.0''"]) (simp add: float_lit_def num_char_def is_digit_def)

setup_lifting type_definition_pyfloat

lift_definition float_zero :: pyfloat is "''0.0''"
  by (simp add: float_lit_def num_char_def is_digit_def)

instantiation pyfloat :: equal
begin

lift_definition equal_pyfloat :: "pyfloat \<Rightarrow> pyfloat \<Rightarrow> bool" is "(=)" .

instance
  by standard (transfer, simp)

end

datatype json =
    JNull
  | JBool bool
  | JInt int
  | JFloat pyfloat
  | JStr string
  | JList "json list"
  | JObj "(string \<times> json) list"

fun is_obj :: "json \<Rightarrow> bool" where
  "is_obj (JObj _) = True"
| "is_obj _ = False"

fun obj_fields :: "json \<Rightarrow> (string \<times> json) list" where
  "obj_fields (JObj kvs) = kvs"
| "obj_fields _ = []"

definition jopt :: "string option \<Rightarrow> json" where
  \<comment> \<open>an \<^verbatim>\<open>Optional[str]\<close> column\<close>
  "jopt x = (case x of None \<Rightarrow> JNull | Some s \<Rightarrow> JStr s)"

lemma jopt_inject [simp]: "jopt x = jopt y \<longleftrightarrow> x = y"
  by (auto simp: jopt_def split: option.splits)

subsection \<open>Decimal integers\<close>

fun show_nat :: "nat \<Rightarrow> string" where
  "show_nat n = (if n < 10 then [char_of (48 + n)] else show_nat (n div 10) @ [char_of (48 + n mod 10)])"

declare show_nat.simps [simp del]

definition show_int :: "int \<Rightarrow> string" where
  "show_int i = (if i < 0 then CHR ''-'' # show_nat (nat (- i)) else show_nat (nat i))"

definition num_val :: "string \<Rightarrow> nat" where
  "num_val s = foldl (\<lambda>a c. 10 * a + (of_char c - 48)) 0 s"

lemma num_val_show_nat [simp]: "num_val (show_nat n) = n"
proof (induction n rule: show_nat.induct)
  case (1 n)
  show ?case
  proof (cases "n < 10")
    case True
    then show ?thesis by (subst show_nat.simps) (simp add: num_val_def)
  next
    case False
    then have "num_val (show_nat (n div 10)) = n div 10" using 1 by simp
    moreover have "n mod 10 < 10" by simp
    ultimately show ?thesis using False
      by (subst show_nat.simps) (simp add: num_val_def)
  qed
qed

lemma show_nat_inject [simp]: "show_nat m = show_nat n \<longleftrightarrow> m = n"
  by (metis num_val_show_nat)

lemma show_nat_not_Nil [simp]: "show_nat n \<noteq> []"
  by (subst show_nat.simps) simp

lemma is_digit_char_of [simp]: "n < 10 \<Longrightarrow> is_digit (char_of (48 + n :: nat))"
  by (simp add: is_digit_def)

lemma show_nat_digits: "list_all is_digit (show_nat n)"
proof (induction n rule: show_nat.induct)
  case (1 n)
  then show ?case
    by (cases "n < 10") (simp_all add: show_nat.simps [of n])
qed

lemma show_nat_hd: "is_digit (hd (show_nat n))"
  using show_nat_digits [of n] by (cases "show_nat n") auto

lemma minus_not_digit [simp]: "\<not> is_digit (CHR ''-'')"
  by (simp add: is_digit_def)

lemma show_int_inject [simp]: "show_int i = show_int j \<longleftrightarrow> i = j"
proof
  assume e: "show_int i = show_int j"
  have nm: "CHR ''-'' # s \<noteq> show_nat n" for s n
    using show_nat_hd [of n] by (cases "show_nat n") auto
  from e nm nm [symmetric] show "i = j"
    by (auto simp: show_int_def split: if_splits)
qed simp

lemma show_int_chars: "list_all num_char (show_int i)"
  using show_nat_digits [of "nat i"] show_nat_digits [of "nat (- i)"]
  by (auto simp: show_int_def num_char_def list_all_iff)

lemma show_int_hd: "hd (show_int i) = CHR ''-'' \<or> is_digit (hd (show_int i))"
  by (simp add: show_int_def show_nat_hd)

lemma show_int_not_Nil [simp]: "show_int i \<noteq> []"
  by (simp add: show_int_def)

lemma show_int_no_point: "\<not> list_ex (\<lambda>c. c = CHR ''.'' \<or> c = CHR ''e'') (show_int i)"
  using show_nat_digits [of "nat i"] show_nat_digits [of "nat (- i)"]
  by (auto simp: show_int_def list_ex_iff list_all_iff is_digit_def)

subsection \<open>String escapes\<close>

definition hex_digit :: "nat \<Rightarrow> char" where
  "hex_digit n = (if n < 10 then char_of (48 + n) else char_of (87 + n))"

lemma of_char_hex_digit:
  "n < 16 \<Longrightarrow> of_char (hex_digit n) = (if n < 10 then 48 + n else 87 + n)"
  by (simp add: hex_digit_def)

lemma hex_digit_inject: "m < 16 \<Longrightarrow> n < 16 \<Longrightarrow> hex_digit m = hex_digit n \<longleftrightarrow> m = n"
proof
  assume b: "m < 16" "n < 16" and "hex_digit m = hex_digit n"
  then have "(of_char (hex_digit m) :: nat) = of_char (hex_digit n)" by simp
  with b show "m = n" by (simp add: of_char_hex_digit split: if_splits)
qed simp

definition needs_u :: "bool \<Rightarrow> char \<Rightarrow> bool" where
  "needs_u ascii c \<longleftrightarrow> of_char c < (32 :: nat) \<or> (ascii \<and> of_char c > (126 :: nat))"

definition esc_char :: "bool \<Rightarrow> char \<Rightarrow> string" where
  "esc_char ascii c =
     (if c = CHR 0x22 then [CHR 0x5C, CHR 0x22]
      else if c = CHR 0x5C then [CHR 0x5C, CHR 0x5C]
      else if c = CHR 0x0A then [CHR 0x5C, CHR ''n'']
      else if c = CHR 0x0D then [CHR 0x5C, CHR ''r'']
      else if c = CHR 0x09 then [CHR 0x5C, CHR ''t'']
      else if c = CHR 0x0C then [CHR 0x5C, CHR ''f'']
      else if c = CHR 0x08 then [CHR 0x5C, CHR ''b'']
      else if needs_u ascii c
        then [CHR 0x5C, CHR ''u'', CHR ''0'', CHR ''0'',
              hex_digit (of_char c div 16), hex_digit (of_char c mod 16)]
      else [c])"

lemma u_escape_inject:
  assumes "hex_digit (of_char c div 16) = hex_digit (of_char d div 16)"
    and "hex_digit (of_char c mod 16) = hex_digit (of_char d mod 16)"
  shows "c = d"
proof -
  let ?m = "of_char c :: nat" and ?n = "of_char d :: nat"
  have "?m div 16 < 16" "?n div 16 < 16"
    using of_char_nat_less [of c] of_char_nat_less [of d] by (auto intro: less_mult_imp_div_less)
  then have "?m div 16 = ?n div 16" using assms(1) by (simp add: hex_digit_inject)
  moreover have "?m mod 16 = ?n mod 16" using assms(2) by (simp add: hex_digit_inject)
  ultimately have "?m = ?n" by (metis div_mod_decomp)
  then show ?thesis by simp
qed

lemma esc_char_prefix: "esc_char a c @ x = esc_char a d @ y \<Longrightarrow> c = d \<and> x = y"
  by (auto simp: esc_char_def dest: u_escape_inject split: if_splits)

lemma esc_char_hd: "\<exists>e es. esc_char a c = e # es \<and> e \<noteq> CHR 0x22"
  by (auto simp: esc_char_def)

definition esc_string :: "bool \<Rightarrow> string \<Rightarrow> string" where
  "esc_string a s = concat (map (esc_char a) s)"

definition quote_string :: "bool \<Rightarrow> string \<Rightarrow> string" where
  "quote_string a s = CHR 0x22 # esc_string a s @ [CHR 0x22]"

lemma esc_string_prefix:
  "esc_string a s @ CHR 0x22 # x = esc_string a t @ CHR 0x22 # y \<Longrightarrow> s = t \<and> x = y"
proof (induction s arbitrary: t)
  case Nil
  show ?case
  proof (cases t)
    case Nil
    with \<open>esc_string a [] @ _ = _\<close> show ?thesis by (simp add: esc_string_def)
  next
    case (Cons d t')
    obtain e es where "esc_char a d = e # es" "e \<noteq> CHR 0x22" using esc_char_hd by blast
    with \<open>esc_string a [] @ _ = _\<close> Cons show ?thesis by (simp add: esc_string_def)
  qed
next
  case (Cons c s)
  show ?case
  proof (cases t)
    case Nil
    obtain e es where "esc_char a c = e # es" "e \<noteq> CHR 0x22" using esc_char_hd by blast
    with Cons.prems Nil show ?thesis by (simp add: esc_string_def)
  next
    case (Cons d t')
    with Cons.prems have
      "esc_char a c @ (esc_string a s @ CHR 0x22 # x) = esc_char a d @ (esc_string a t' @ CHR 0x22 # y)"
      by (simp add: esc_string_def)
    then have "c = d" "esc_string a s @ CHR 0x22 # x = esc_string a t' @ CHR 0x22 # y"
      by (auto dest: esc_char_prefix)
    with Cons.IH Cons show ?thesis by blast
  qed
qed

lemma quote_string_prefix:
  "quote_string a s @ x = quote_string a t @ y \<Longrightarrow> s = t \<and> x = y"
  by (auto simp: quote_string_def dest: esc_string_prefix)

subsection \<open>Printing\<close>

record style =
  spaced :: bool  \<comment> \<open>default separators (a space after comma and colon) or the compact ones\<close>
  ascii :: bool   \<comment> \<open>\<^verbatim>\<open>ensure_ascii\<close>\<close>

definition comma :: "style \<Rightarrow> string" where
  "comma st = (if spaced st then '', '' else '','')"

definition colon :: "style \<Rightarrow> string" where
  "colon st = (if spaced st then '': '' else '':'')"

fun print_json :: "style \<Rightarrow> json \<Rightarrow> string"
  and print_items :: "style \<Rightarrow> json list \<Rightarrow> string"
  and print_fields :: "style \<Rightarrow> (string \<times> json) list \<Rightarrow> string" where
  "print_json st JNull = ''null''"
| "print_json st (JBool b) = (if b then ''true'' else ''false'')"
| "print_json st (JInt i) = show_int i"
| "print_json st (JFloat x) = float_repr x"
| "print_json st (JStr s) = quote_string (ascii st) s"
| "print_json st (JList []) = ''[]''"
| "print_json st (JList (x # xs)) = ''['' @ print_json st x @ print_items st xs"
| "print_json st (JObj []) = ''{}''"
| "print_json st (JObj ((k, v) # kvs)) =
     ''{'' @ quote_string (ascii st) k @ colon st @ print_json st v @ print_fields st kvs"
| "print_items st [] = '']''"
| "print_items st (x # xs) = comma st @ print_json st x @ print_items st xs"
| "print_fields st [] = ''}''"
| "print_fields st ((k, v) # kvs) =
     comma st @ quote_string (ascii st) k @ colon st @ print_json st v @ print_fields st kvs"

definition delim :: "string \<Rightarrow> bool" where
  \<comment> \<open>what may follow a value: nothing, or a closing or separating character\<close>
  "delim r \<longleftrightarrow> (case r of [] \<Rightarrow> True | c # _ \<Rightarrow> c \<in> set '',]}'')"

lemma delim_simps [simp]:
  "delim []" "delim (comma st @ r)" "delim (CHR '']'' # r)" "delim (CHR ''}'' # r)"
  by (simp_all add: delim_def comma_def)

lemma delim_items [simp]: "delim (print_items st xs @ r)"
  by (cases xs) simp_all

lemma delim_fields [simp]: "delim (print_fields st kvs @ r)"
  by (cases kvs rule: list.exhaust) (auto simp: split: prod.splits)

lemma float_repr_lit: "float_lit (float_repr x)"
  using float_repr [of x] by simp

lemma takeWhile_number:
  assumes "list_all num_char n" "delim r"
  shows "takeWhile num_char (n @ r) = n"
proof -
  have "takeWhile num_char r = []"
    using assms(2) by (cases r) (auto simp: delim_def num_char_def is_digit_def)
  with assms(1) show ?thesis by (simp add: takeWhile_append list_all_iff)
qed

lemma number_prefix:
  assumes "m @ r = n @ s" "list_all num_char m" "list_all num_char n" "delim r" "delim s"
  shows "m = n \<and> r = s"
  by (metis assms takeWhile_number same_append_eq)

definition num_lit :: "json \<Rightarrow> string option" where
  "num_lit x = (case x of JInt i \<Rightarrow> Some (show_int i) | JFloat f \<Rightarrow> Some (float_repr f) | _ \<Rightarrow> None)"

lemma num_lit_inject: "num_lit x = Some n \<Longrightarrow> num_lit y = Some n \<Longrightarrow> x = y"
  using float_repr_lit show_int_no_point
  by (auto simp: num_lit_def float_lit_def float_repr_inject split: json.splits) metis+

lemma num_lit_print: "num_lit x = Some n \<Longrightarrow> print_json st x = n"
  by (auto simp: num_lit_def split: json.splits)

lemma num_lit_chars: "num_lit x = Some n \<Longrightarrow> list_all num_char n"
  using show_int_chars float_repr_lit by (auto simp: num_lit_def float_lit_def split: json.splits)

lemma num_lit_hd: "num_lit x = Some n \<Longrightarrow> n \<noteq> [] \<and> (hd n = CHR ''-'' \<or> is_digit (hd n))"
  using show_int_hd float_repr_lit by (auto simp: num_lit_def float_lit_def split: json.splits)

fun json_tag :: "json \<Rightarrow> char" where
  \<comment> \<open>the first character of the text decides the kind of the value\<close>
  "json_tag JNull = CHR ''n''"
| "json_tag (JBool b) = (if b then CHR ''t'' else CHR ''f'')"
| "json_tag (JStr s) = CHR 0x22"
| "json_tag (JList xs) = CHR ''[''"
| "json_tag (JObj kvs) = CHR ''{''"
| "json_tag _ = CHR ''0''"

lemma print_json_Cons:
  "num_lit x = None \<Longrightarrow> \<exists>r. print_json st x = json_tag x # r"
  by (cases "(st, x)" rule: print_json.cases) (auto simp: num_lit_def quote_string_def)

lemma num_lit_print_hd:
  assumes "num_lit x = Some n"
  obtains c r where "print_json st x = c # r" "c = CHR ''-'' \<or> is_digit c"
  using num_lit_hd [OF assms] num_lit_print [OF assms, of st] by (cases n) auto

lemma print_kind:
  assumes "print_json st x @ r = print_json st y @ s" "num_lit x = None"
  shows "num_lit y = None \<and> json_tag y = json_tag x"
proof -
  obtain q where q: "print_json st x = json_tag x # q" using print_json_Cons assms(2) by blast
  show ?thesis
  proof (cases "num_lit y")
    case None
    then obtain q' where "print_json st y = json_tag y # q'" using print_json_Cons by blast
    with q assms(1) None show ?thesis by simp
  next
    case (Some n)
    then obtain c q' where "print_json st y = c # q'" "c = CHR ''-'' \<or> is_digit c"
      using num_lit_print_hd by blast
    with q assms have "json_tag x = CHR ''-'' \<or> is_digit (json_tag x)" by simp
    with assms(2) show ?thesis by (cases x) (auto simp: num_lit_def is_digit_def)
  qed
qed

lemma number_print_prefix:
  assumes "print_json st x @ r = print_json st y @ s" "num_lit x = Some n" "delim r" "delim s"
  shows "x = y \<and> r = s"
proof (cases "num_lit y")
  case None
  then show ?thesis using print_kind [OF assms(1) [symmetric]] assms(2) by simp
next
  case (Some m)
  have "n @ r = m @ s" using assms(1) num_lit_print [OF assms(2)] num_lit_print [OF Some] by simp
  then have "n = m \<and> r = s" using number_prefix num_lit_chars assms(2-4) Some by blast
  then show ?thesis using num_lit_inject assms(2) Some by blast
qed

lemma comma_append [simp]:
  "comma st @ x = comma st @ y \<longleftrightarrow> x = y" "comma st @ x \<noteq> CHR '']'' # y" "comma st @ x \<noteq> CHR ''}'' # y"
  "CHR '']'' # y \<noteq> comma st @ x" "CHR ''}'' # y \<noteq> comma st @ x"
  by (auto simp: comma_def)

lemma field_prefix:
  assumes "quote_string a k @ colon st @ x = quote_string a l @ colon st @ y"
  shows "k = l \<and> x = y"
  using quote_string_prefix [OF assms] by (simp add: colon_def split: if_splits)

lemma quote_hd [simp]:
  "quote_string a k @ x \<noteq> CHR ''}'' # y" "CHR ''}'' # y \<noteq> quote_string a k @ x"
  by (simp_all add: quote_string_def)

lemma print_hd_not_close:
  "print_json st x @ r \<noteq> CHR '']'' # s" 
proof (cases "num_lit x")
  case None
  then obtain q where "print_json st x = json_tag x # q" using print_json_Cons by blast
  then show ?thesis by (cases x) auto
next
  case (Some n)
  then obtain c q' where "print_json st x = c # q'" "c = CHR ''-'' \<or> is_digit c"
    using num_lit_print_hd by blast
  then show ?thesis by (auto simp: is_digit_def)
qed

lemma print_hd_neq [simp]:
  "print_json st x @ r \<noteq> CHR '']'' # s" "CHR '']'' # s \<noteq> print_json st x @ r"
  using print_hd_not_close [of st x r s] by metis+

lemma same_kind:
  assumes "print_json st x @ r = print_json st y @ s"
  shows "x = JNull \<Longrightarrow> y = JNull" "x = JBool b \<Longrightarrow> y = JBool b" "x = JStr t \<Longrightarrow> \<exists>u. y = JStr u"
    "x = JList xs \<Longrightarrow> \<exists>ys. y = JList ys" "x = JObj kvs \<Longrightarrow> \<exists>lws. y = JObj lws"
  using print_kind [OF assms] by (cases y; simp add: num_lit_def split: if_splits)+

lemma print_prefix:
  "print_json st x @ r = print_json st y @ s \<Longrightarrow> delim r \<Longrightarrow> delim s \<Longrightarrow> x = y \<and> r = s"
  "print_items st xs @ r = print_items st ys @ s \<Longrightarrow> xs = ys \<and> r = s"
  "print_fields st kvs @ r = print_fields st lws @ s \<Longrightarrow> kvs = lws \<and> r = s"
proof (induction st x and st xs and st kvs arbitrary: y r s and ys r s and lws r s
    rule: print_json_print_items_print_fields.induct)
  case (1 st)
  then show ?case using same_kind(1) [OF 1(1)] by simp
next
  case (2 st b)
  then show ?case using same_kind(2) [OF 2(1)] by simp
next
  case (3 st i)
  show ?case by (rule number_print_prefix [OF 3(1) _ 3(2,3)]) (simp add: num_lit_def)
next
  case (4 st f)
  show ?case by (rule number_print_prefix [OF 4(1) _ 4(2,3)]) (simp add: num_lit_def)
next
  case (5 st t)
  then obtain u where u: "y = JStr u" using same_kind(3) [OF 5(1)] by blast
  with 5(1) have "quote_string (ascii st) t @ r = quote_string (ascii st) u @ s" by simp
  from quote_string_prefix [OF this] u show ?case by simp
next
  case (6 st)
  then obtain ys where "y = JList ys" using same_kind(4) [OF 6(1)] by blast
  with 6(1) show ?case by (cases ys) simp_all
next
  case (7 st x xs)
  then obtain ys where y: "y = JList ys"
    using same_kind(4) [OF 7(3)] by blast
  show ?case
  proof (cases ys)
    case Nil
    with y 7(3) show ?thesis by simp
  next
    case (Cons z zs)
    with y 7(3) have e: "print_json st x @ (print_items st xs @ r) = print_json st z @ (print_items st zs @ s)"
      by simp
    from 7(1) [OF e] 7(2) [of r zs s] y Cons show ?thesis by simp
  qed
next
  case (8 st)
  then obtain ys where "y = JObj ys" using same_kind(5) [OF 8(1)] by blast
  with 8(1) show ?case by (cases "(st, y)" rule: print_json.cases) simp_all
next
  case (9 st k v kvs)
  then obtain ys where y: "y = JObj ys"
    using same_kind(5) [OF 9(3)] by blast
  show ?case
  proof (cases ys)
    case Nil
    with y 9(3) show ?thesis by simp
  next
    case (Cons z zs)
    obtain l w where z: "z = (l, w)" by (cases z)
    with y Cons 9(3) have "quote_string (ascii st) k @ colon st @ (print_json st v @ (print_fields st kvs @ r)) =
        quote_string (ascii st) l @ colon st @ (print_json st w @ (print_fields st zs @ s))" by simp
    from field_prefix [OF this] have e: "k = l"
      "print_json st v @ (print_fields st kvs @ r) = print_json st w @ (print_fields st zs @ s)" by auto
    from 9(1) [OF e(2)] 9(2) [of r zs s] y Cons z e(1) show ?thesis by simp
  qed
next
  case (10 st)
  then show ?case by (cases ys) simp_all
next
  case (11 st x xs)
  show ?case
  proof (cases ys)
    case Nil
    with 11(3) show ?thesis by simp
  next
    case (Cons z zs)
    with 11(3) have e: "print_json st x @ (print_items st xs @ r) = print_json st z @ (print_items st zs @ s)"
      by simp
    from 11(1) [OF e] 11(2) [of r zs s] Cons show ?thesis by simp
  qed
next
  case (12 st)
  then show ?case by (cases "(st, lws)" rule: print_fields.cases) simp_all
next
  case (13 st k v kvs)
  show ?case
  proof (cases lws)
    case Nil
    with 13(3) show ?thesis by simp
  next
    case (Cons z zs)
    obtain l w where z: "z = (l, w)" by (cases z)
    with Cons 13(3) have "quote_string (ascii st) k @ colon st @ (print_json st v @ (print_fields st kvs @ r)) =
        quote_string (ascii st) l @ colon st @ (print_json st w @ (print_fields st zs @ s))" by simp
    from field_prefix [OF this] have e: "k = l"
      "print_json st v @ (print_fields st kvs @ r) = print_json st w @ (print_fields st zs @ s)" by auto
    from 13(1) [OF e(2)] 13(2) [of r zs s] Cons z e(1) show ?thesis by simp
  qed
qed

lemma print_json_inject [simp]: "print_json st x = print_json st y \<longleftrightarrow> x = y"
  using print_prefix(1) [of st x "[]" y "[]"] by auto

subsection \<open>Key order\<close>

lemma size_field: "(k, v) \<in> set kvs \<Longrightarrow> size v < Suc (size_list (size_prod (\<lambda>_. 0) size) kvs)"
  by (induction kvs) auto

function norm_json :: "json \<Rightarrow> json" where
  \<comment> \<open>\<^verbatim>\<open>sort_keys=True\<close>: every object is printed with its keys in code point order\<close>
  "norm_json (JList xs) = JList (map norm_json xs)"
| "norm_json (JObj kvs) = JObj (sort_key fst (map (\<lambda>(k, v). (k, norm_json v)) kvs))"
| "norm_json JNull = JNull"
| "norm_json (JBool b) = JBool b"
| "norm_json (JInt i) = JInt i"
| "norm_json (JFloat f) = JFloat f"
| "norm_json (JStr s) = JStr s"
  by pat_completeness auto

termination
  by (relation "measure size") (auto simp: size_field less_Suc_eq_le size_list_estimation')

definition dumps :: "style \<Rightarrow> json \<Rightarrow> string" where
  "dumps st x = print_json st (norm_json x)"

definition compact_utf8 :: style where "compact_utf8 = \<lparr>spaced = False, ascii = False\<rparr>"
definition compact_ascii :: style where "compact_ascii = \<lparr>spaced = False, ascii = True\<rparr>"
definition spaced_ascii :: style where "spaced_ascii = \<lparr>spaced = True, ascii = True\<rparr>"

lemma dumps_eq_iff: "dumps st x = dumps st y \<longleftrightarrow> norm_json x = norm_json y"
  by (simp add: dumps_def)

lemma utf8_dumps_eq_iff: "utf8 (dumps st x) = utf8 (dumps st y) \<longleftrightarrow> norm_json x = norm_json y"
  by (simp add: dumps_eq_iff)

lemma norm_jopt [simp]: "norm_json (jopt x) = jopt x"
  by (simp add: jopt_def split: option.splits)

definition atomic :: "json \<Rightarrow> bool" where
  "atomic x \<longleftrightarrow> (case x of JList _ \<Rightarrow> False | JObj _ \<Rightarrow> False | _ \<Rightarrow> True)"

lemma atomic_simps [simp]:
  "atomic JNull" "atomic (JBool b)" "atomic (JInt i)" "atomic (JFloat f)" "atomic (JStr s)"
  "\<not> atomic (JList xs)" "\<not> atomic (JObj kvs)" "atomic (jopt x)"
  by (simp_all add: atomic_def jopt_def split: option.splits)

lemma norm_atomic [simp]: "atomic x \<Longrightarrow> norm_json x = x"
  by (cases x) simp_all

lemma norm_eq_atomic: "norm_json y = norm_json x \<Longrightarrow> atomic x \<Longrightarrow> y = x"
  by (cases y; cases x) simp_all

lemma map_of_map_snd: "map_of (map (\<lambda>(k, v). (k, f v)) kvs) = map_option f \<circ> map_of kvs"
  by (induction kvs) auto

lemma norm_obj_lookup:
  assumes "norm_json (JObj kvs) = norm_json (JObj lws)"
    and "distinct (map fst kvs)" "distinct (map fst lws)"
  shows "map_option norm_json (map_of kvs k) = map_option norm_json (map_of lws k)"
proof -
  let ?n = "map (\<lambda>(k, v). (k, norm_json v))"
  have d: "map fst (?n xs) = map fst xs" for xs by (induction xs) auto
  have "sort_key fst (?n kvs) = sort_key fst (?n lws)" using assms(1) by simp
  then have "map_of (?n kvs) = map_of (?n lws)"
    using map_of_sort_key [of "?n kvs"] map_of_sort_key [of "?n lws"] assms(2,3) d by metis
  then show ?thesis by (metis map_of_map_snd comp_apply)
qed

lemma norm_zip_inject:
  assumes "norm_json (JObj (zip ks vs)) = norm_json (JObj (zip ks ws))"
    and "distinct ks" "length vs = length ks" "length ws = length ks"
  shows "map norm_json vs = map norm_json ws"
proof -
  have "map_option norm_json \<circ> map_of (zip ks vs) = map_option norm_json \<circ> map_of (zip ks ws)"
    using norm_obj_lookup [OF assms(1)] assms(2-4) by auto
  then have "map_of (zip ks (map norm_json vs)) = map_of (zip ks (map norm_json ws))"
    by (simp add: map_of_map_snd [symmetric] zip_map2)
  then show ?thesis by (rule map_of_zip_inject) (use assms in auto)
qed

subsection \<open>Python values and their JSON form\<close>

datatype pyexc = TypeError | ValueError | KeyError | AttributeError | RecursionError | NonCanonical

datatype pyval =
    PNone
  | PBool bool
  | PInt int
  | PFloat pyfloat
  | PNonFinite      \<comment> \<open>\<^verbatim>\<open>nan\<close>, \<^verbatim>\<open>inf\<close> or \<^verbatim>\<open>-inf\<close>\<close>
  | PStr string
  | PList "pyval list"
  | PTuple "pyval list"
  | PDict "(string \<times> pyval) list"
  | PObject         \<comment> \<open>any object \<^verbatim>\<open>json\<close> cannot serialise\<close>

fun to_json :: "pyval \<Rightarrow> (pyexc, json) result"
  and to_json_list :: "pyval list \<Rightarrow> (pyexc, json list) result"
  and to_json_fields :: "(string \<times> pyval) list \<Rightarrow> (pyexc, (string \<times> json) list) result" where
  "to_json PNone = Inr JNull"
| "to_json (PBool b) = Inr (JBool b)"
| "to_json (PInt i) = Inr (JInt i)"
| "to_json (PFloat f) = Inr (JFloat f)"
| "to_json PNonFinite = Inl ValueError"
| "to_json (PStr s) = Inr (JStr s)"
| "to_json (PList xs) = rbind (to_json_list xs) (\<lambda>ys. Inr (JList ys))"
| "to_json (PTuple xs) = rbind (to_json_list xs) (\<lambda>ys. Inr (JList ys))"
| "to_json (PDict kvs) = rbind (to_json_fields kvs) (\<lambda>ys. Inr (JObj ys))"
| "to_json PObject = Inl TypeError"
| "to_json_list [] = Inr []"
| "to_json_list (x # xs) = rbind (to_json x) (\<lambda>y. rbind (to_json_list xs) (\<lambda>ys. Inr (y # ys)))"
| "to_json_fields [] = Inr []"
| "to_json_fields ((k, v) # kvs) =
     rbind (to_json v) (\<lambda>y. rbind (to_json_fields kvs) (\<lambda>ys. Inr ((k, y) # ys)))"

fun of_json :: "json \<Rightarrow> pyval"
  and of_json_list :: "json list \<Rightarrow> pyval list"
  and of_json_fields :: "(string \<times> json) list \<Rightarrow> (string \<times> pyval) list" where
  \<comment> \<open>a value read back from a JSON column\<close>
  "of_json JNull = PNone"
| "of_json (JBool b) = PBool b"
| "of_json (JInt i) = PInt i"
| "of_json (JFloat f) = PFloat f"
| "of_json (JStr s) = PStr s"
| "of_json (JList xs) = PList (of_json_list xs)"
| "of_json (JObj kvs) = PDict (of_json_fields kvs)"
| "of_json_list [] = []"
| "of_json_list (x # xs) = of_json x # of_json_list xs"
| "of_json_fields [] = []"
| "of_json_fields ((k, v) # kvs) = (k, of_json v) # of_json_fields kvs"

lemma to_json_of_json [simp]:
  "to_json (of_json x) = Inr x"
  "to_json_list (of_json_list xs) = Inr xs"
  "to_json_fields (of_json_fields kvs) = Inr kvs"
  by (induction x and xs and kvs rule: of_json_of_json_list_of_json_fields.induct) simp_all

fun py_is_str :: "pyval \<Rightarrow> bool" where
  "py_is_str (PStr _) = True"
| "py_is_str _ = False"

fun py_is_list :: "pyval \<Rightarrow> bool" where
  "py_is_list (PList _) = True"
| "py_is_list _ = False"

fun py_is_dict :: "pyval \<Rightarrow> bool" where
  "py_is_dict (PDict _) = True"
| "py_is_dict _ = False"

definition canonical_json_py :: "pyval \<Rightarrow> (pyexc, bytes) result" where
  \<comment> \<open>compact, UTF-8, sorted keys, non-finite floats rejected\<close>
  "canonical_json_py v = rbind (to_json v) (\<lambda>x. Inr (utf8 (dumps compact_utf8 x)))"

definition canon :: "json \<Rightarrow> bytes" where
  "canon x = utf8 (dumps compact_utf8 x)"

lemma canonical_json_of_json [simp]: "canonical_json_py (of_json x) = Inr (canon x)"
  by (simp add: canonical_json_py_def canon_def)

lemma canon_eq_iff: "canon x = canon y \<longleftrightarrow> norm_json x = norm_json y"
  by (simp add: canon_def dumps_eq_iff)

end
