(* ===== verification/Sha.thy ===== *)
theory Sha
  imports Json
begin

text \<open>
  The two hash functions of Python's \<^verbatim>\<open>hashlib\<close> that the source calls: SHA-256
  (every commitment of the receipt store, warrants, intents, keys) and SHA-512
  (inside Ed25519), as FIPS 180-4 defines them on machine words, and the
  hexadecimal form of \<^verbatim>\<open>bytes.hex()\<close> and \<^verbatim>\<open>bytes.fromhex()\<close>. No collision
  resistance is assumed anywhere: results that rest on it name the two byte strings
  that would have to collide.
\<close>

unbundle bit_operations_syntax

subsection \<open>Words and bytes\<close>

definition be_bytes :: "nat \<Rightarrow> nat \<Rightarrow> bytes" where
  \<comment> \<open>\<^verbatim>\<open>n.to_bytes(k, "big")\<close>\<close>
  "be_bytes k n = map (\<lambda>i. of_nat (n div 256 ^ (k - Suc i))) [0..<k]"

definition be_nat :: "bytes \<Rightarrow> nat" where
  "be_nat bs = foldl (\<lambda>a b. 256 * a + unat b) 0 bs"

fun chunks :: "nat \<Rightarrow> nat \<Rightarrow> 'a list \<Rightarrow> 'a list list" where
  \<comment> \<open>\<open>chunks k n xs\<close>: the first \<open>k\<close> blocks of \<open>n\<close> elements\<close>
  "chunks 0 n xs = []"
| "chunks (Suc k) n xs = take n xs # chunks k n (drop n xs)"

definition pad_message :: "nat \<Rightarrow> bytes \<Rightarrow> bytes" where
  \<comment> \<open>\<open>blk\<close> bytes a block, the last \<open>blk div 8\<close> of them for the bit length\<close>
  "pad_message blk m =
     (let lb = blk div 8; n = length m;
          z = (2 * blk - 1 - lb - n mod blk) mod blk
      in m @ [0x80] @ replicate z 0 @ be_bytes lb (8 * n))"

subsection \<open>Round constants\<close>

type_synonym w32 = "32 word"
type_synonym w64 = "64 word"

definition floor_root :: "nat \<Rightarrow> nat \<Rightarrow> nat" where
  \<comment> \<open>the integer part of the \<open>k\<close>-th root, bit by bit\<close>
  "floor_root k n = fold (\<lambda>i r. if (r + 2 ^ i) ^ k \<le> n then r + 2 ^ i else r) (rev [0..<72]) 0"

definition root_frac :: "nat \<Rightarrow> nat \<Rightarrow> w64" where
  \<comment> \<open>the first 64 bits of the fractional part of the \<open>k\<close>-th root of \<open>p\<close>\<close>
  "root_frac k p = of_nat (floor_root k (p * 2 ^ (64 * k)))"

definition small_primes :: "nat list" where
  \<comment> \<open>the first eighty primes\<close>
  "small_primes = filter (\<lambda>n. list_all (\<lambda>d. n mod d \<noteq> 0) [2..<n]) [2..<410]"

definition sha512_k :: "w64 list" where
  "sha512_k = map (root_frac 3) small_primes"

definition sha512_iv :: "w64 list" where
  "sha512_iv = map (root_frac 2) [2, 3, 5, 7, 11, 13, 17, 19]"

definition sha256_k :: "w32 list" where
  "sha256_k = map (\<lambda>w. ucast (drop_bit 32 w)) (take 64 sha512_k)"

definition sha256_iv :: "w32 list" where
  "sha256_iv = map (\<lambda>w. ucast (drop_bit 32 w)) sha512_iv"

subsection \<open>SHA-256\<close>

fun sha256_schedule :: "nat \<Rightarrow> w32 list \<Rightarrow> w32 list" where
  \<comment> \<open>the message schedule, newest word first\<close>
  "sha256_schedule 0 w = w"
| "sha256_schedule (Suc n) w =
     (let x = w ! 14; y = w ! 1;
          s0 = word_rotr 7 x XOR word_rotr 18 x XOR drop_bit 3 x;
          s1 = word_rotr 17 y XOR word_rotr 19 y XOR drop_bit 10 y
      in sha256_schedule n ((w ! 15 + s0 + w ! 6 + s1) # w))"

fun sha256_round :: "w32 list \<Rightarrow> w32 \<times> w32 \<Rightarrow> w32 list" where
  "sha256_round [a, b, c, d, e, f, g, h] (k, w) =
     (let s1 = word_rotr 6 e XOR word_rotr 11 e XOR word_rotr 25 e;
          ch = (e AND f) XOR (NOT e AND g);
          t1 = h + s1 + ch + k + w;
          s0 = word_rotr 2 a XOR word_rotr 13 a XOR word_rotr 22 a;
          maj = (a AND b) XOR (a AND c) XOR (b AND c);
          t2 = s0 + maj
      in [t1 + t2, a, b, c, d + t1, e, f, g])"
| "sha256_round st kw = st"

definition sha256_block :: "w32 list \<Rightarrow> bytes \<Rightarrow> w32 list" where
  "sha256_block h blk =
     (let w = rev (sha256_schedule 48 (rev (map (\<lambda>b. of_nat (be_nat b)) (chunks 16 4 blk))));
          s = foldl sha256_round h (zip sha256_k w)
      in map2 (+) h s)"

definition sha256 :: "bytes \<Rightarrow> bytes" where
  "sha256 m =
     (let p = pad_message 64 m
      in concat (map (\<lambda>w. be_bytes 4 (unat w))
           (foldl sha256_block sha256_iv (chunks (length p div 64) 64 p))))"

subsection \<open>SHA-512\<close>

fun sha512_schedule :: "nat \<Rightarrow> w64 list \<Rightarrow> w64 list" where
  "sha512_schedule 0 w = w"
| "sha512_schedule (Suc n) w =
     (let x = w ! 14; y = w ! 1;
          s0 = word_rotr 1 x XOR word_rotr 8 x XOR drop_bit 7 x;
          s1 = word_rotr 19 y XOR word_rotr 61 y XOR drop_bit 6 y
      in sha512_schedule n ((w ! 15 + s0 + w ! 6 + s1) # w))"

fun sha512_round :: "w64 list \<Rightarrow> w64 \<times> w64 \<Rightarrow> w64 list" where
  "sha512_round [a, b, c, d, e, f, g, h] (k, w) =
     (let s1 = word_rotr 14 e XOR word_rotr 18 e XOR word_rotr 41 e;
          ch = (e AND f) XOR (NOT e AND g);
          t1 = h + s1 + ch + k + w;
          s0 = word_rotr 28 a XOR word_rotr 34 a XOR word_rotr 39 a;
          maj = (a AND b) XOR (a AND c) XOR (b AND c);
          t2 = s0 + maj
      in [t1 + t2, a, b, c, d + t1, e, f, g])"
| "sha512_round st kw = st"

definition sha512_block :: "w64 list \<Rightarrow> bytes \<Rightarrow> w64 list" where
  "sha512_block h blk =
     (let w = rev (sha512_schedule 64 (rev (map (\<lambda>b. of_nat (be_nat b)) (chunks 16 8 blk))));
          s = foldl sha512_round h (zip sha512_k w)
      in map2 (+) h s)"

definition sha512 :: "bytes \<Rightarrow> bytes" where
  "sha512 m =
     (let p = pad_message 128 m
      in concat (map (\<lambda>w. be_bytes 8 (unat w))
           (foldl sha512_block sha512_iv (chunks (length p div 128) 128 p))))"

subsection \<open>Digest sizes\<close>

lemma length_be_bytes [simp]: "length (be_bytes k n) = k"
  by (simp add: be_bytes_def)

lemma length_sha256_round [simp]: "length st = 8 \<Longrightarrow> length (sha256_round st kw) = 8"
  by (induction st kw rule: sha256_round.induct) (simp_all add: Let_def)

lemma length_sha512_round [simp]: "length st = 8 \<Longrightarrow> length (sha512_round st kw) = 8"
  by (induction st kw rule: sha512_round.induct) (simp_all add: Let_def)

lemma length_foldl_8:
  assumes "\<And>st x. length st = 8 \<Longrightarrow> length (f st x) = (8 :: nat)" "length st = 8"
  shows "length (foldl f st xs) = 8"
  using assms(2) by (induction xs arbitrary: st) (simp_all add: assms(1))

lemma length_sha256_block [simp]: "length h = 8 \<Longrightarrow> length (sha256_block h b) = 8"
  by (simp add: sha256_block_def Let_def length_foldl_8)

lemma length_sha512_block [simp]: "length h = 8 \<Longrightarrow> length (sha512_block h b) = 8"
  by (simp add: sha512_block_def Let_def length_foldl_8)

lemma length_concat_const: "(\<And>x. length (f x) = k) \<Longrightarrow> length (concat (map f xs)) = k * length xs"
  by (induction xs) simp_all

lemma length_sha256 [simp]: "length (sha256 m) = 32"
  by (simp add: sha256_def Let_def length_concat_const [where k = 4] length_foldl_8 sha256_iv_def sha512_iv_def)

lemma length_sha512 [simp]: "length (sha512 m) = 64"
  by (simp add: sha512_def Let_def length_concat_const [where k = 8] length_foldl_8 sha512_iv_def)

lemma sha256_neq_Nil [simp]: "sha256 m \<noteq> []" "[] \<noteq> sha256 m"
  by (metis length_sha256 list.size(3) zero_neq_numeral)+

subsection \<open>Collisions\<close>

definition collide :: "bytes \<Rightarrow> bytes \<Rightarrow> bool" where
  \<comment> \<open>two different byte strings with the same SHA-256 digest\<close>
  "collide x y \<longleftrightarrow> x \<noteq> y \<and> sha256 x = sha256 y"

lemma sha256_eq_cases: "sha256 x = sha256 y \<Longrightarrow> x = y \<or> collide x y"
  by (simp add: collide_def)

definition collision_between :: "bytes list \<Rightarrow> bytes list \<Rightarrow> bool" where
  \<comment> \<open>a collision between two explicit finite lists of hash inputs\<close>
  "collision_between xs ys \<longleftrightarrow> (\<exists>x \<in> set xs. \<exists>y \<in> set ys. collide x y)"

lemma collision_betweenI [intro]:
  "x \<in> set xs \<Longrightarrow> y \<in> set ys \<Longrightarrow> collide x y \<Longrightarrow> collision_between xs ys"
  by (auto simp: collision_between_def)

lemma collision_between_mono:
  "collision_between xs ys \<Longrightarrow> set xs \<subseteq> set xs' \<Longrightarrow> set ys \<subseteq> set ys' \<Longrightarrow> collision_between xs' ys'"
  by (auto simp: collision_between_def)

lemma collision_lift [intro]:
  "collision_between xs ys \<Longrightarrow> collision_between (xs @ xs') (ys @ ys')"
  "collision_between xs ys \<Longrightarrow> collision_between (xs' @ xs) (ys' @ ys)"
  "collision_between xs ys \<Longrightarrow> collision_between (x # xs) (y # ys)"
  by (auto simp: collision_between_def)

subsection \<open>Hexadecimal text\<close>

definition hex_byte :: "byte \<Rightarrow> string" where
  "hex_byte b = [hex_digit (unat b div 16), hex_digit (unat b mod 16)]"

definition to_hex :: "bytes \<Rightarrow> string" where
  \<comment> \<open>\<^verbatim>\<open>b.hex()\<close>\<close>
  "to_hex bs = concat (map hex_byte bs)"

definition hex_val :: "char \<Rightarrow> nat option" where
  "hex_val c = (let n = of_char c in
     if 48 \<le> n \<and> n \<le> 57 then Some (n - 48)
     else if 97 \<le> n \<and> n \<le> 102 then Some (n - 87)
     else if 65 \<le> n \<and> n \<le> 70 then Some (n - 55)
     else None)"

definition is_space :: "char \<Rightarrow> bool" where
  \<comment> \<open>ASCII white space, which \<^verbatim>\<open>bytes.fromhex\<close> skips between bytes\<close>
  "is_space c \<longleftrightarrow> c \<in> {CHR '' '', CHR 0x09, CHR 0x0A, CHR 0x0B, CHR 0x0C, CHR 0x0D}"

fun fromhex :: "string \<Rightarrow> bytes option" where
  "fromhex [] = Some []"
| "fromhex [c] = (if is_space c then Some [] else None)"
| "fromhex (c # d # s) =
     (if is_space c then fromhex (d # s)
      else case (hex_val c, hex_val d) of
        (Some h, Some l) \<Rightarrow> map_option (\<lambda>bs. of_nat (16 * h + l) # bs) (fromhex s)
      | _ \<Rightarrow> None)"

lemma to_hex_simps [simp]:
  "to_hex [] = []" "to_hex (b # bs) = hex_byte b @ to_hex bs" "to_hex (a @ bs) = to_hex a @ to_hex bs"
  by (simp_all add: to_hex_def)

lemma unat_byte_less: "unat (b :: byte) < 256"
  using unsigned_less [of b] by simp

lemma hex_val_digit [simp]: "n < 16 \<Longrightarrow> hex_val (hex_digit n) = Some n"
  by (auto simp: hex_val_def of_char_hex_digit Let_def)

lemma hex_digit_not_space [simp]: "n < 16 \<Longrightarrow> \<not> is_space (hex_digit n)"
proof
  assume "n < 16" "is_space (hex_digit n)"
  then have "(of_char (hex_digit n) :: nat) \<in> {32, 9, 10, 11, 12, 13}"
    by (auto simp: is_space_def)
  with \<open>n < 16\<close> show False by (auto simp: of_char_hex_digit split: if_splits)
qed

lemma fromhex_to_hex [simp]: "fromhex (to_hex bs) = Some bs"
proof (induction bs)
  case (Cons b bs)
  have "unat b div 16 < 16" "unat b mod 16 < 16" using unat_byte_less [of b] by auto
  with Cons show ?case by (simp add: hex_byte_def)
qed simp

lemma to_hex_inject [simp]: "to_hex a = to_hex b \<longleftrightarrow> a = b"
  by (metis fromhex_to_hex option.inject)

lemma length_to_hex [simp]: "length (to_hex bs) = 2 * length bs"
  by (simp add: to_hex_def length_concat_const [where k = 2] hex_byte_def)

lemma to_hex_eq_Nil [simp]: "to_hex bs = [] \<longleftrightarrow> bs = []" "[] = to_hex bs \<longleftrightarrow> bs = []"
  by (cases bs; simp add: hex_byte_def)+

end
