(* ===== verification/Ed25519.thy ===== *)
theory Ed25519
  imports Sha
begin

text \<open>
  \<^verbatim>\<open>ugk/vendor/ed25519.py\<close>: the vendored pure-Python Ed25519, with Python's unbounded
  integers as \<^typ>\<open>int\<close> (floor modulus) and byte strings as words. Every operation is
  executable. \<^verbatim>\<open>verify\<close> never raises: a malformed argument is a rejected signature.
  Shown here: the shape of signatures, what acceptance requires (canonical scalar,
  decodable points), and that modular exponentiation computes powers.
\<close>

definition ed_P :: int where "ed_P = 2 ^ 255 - 19"
definition ed_L :: int where "ed_L = 2 ^ 252 + 27742317777372353535851937790883648493"

fun powmod :: "int \<Rightarrow> nat \<Rightarrow> int \<Rightarrow> int" where
  \<comment> \<open>Python's three-argument \<^verbatim>\<open>pow\<close>\<close>
  "powmod b e m =
     (if e = 0 then 1 mod m
      else let h = powmod (b * b mod m) (e div 2) m in if e mod 2 = 0 then h else b * h mod m)"

declare powmod.simps [simp del]

lemma powmod_eq: "powmod b e m = b ^ e mod m"
proof (induction b e m rule: powmod.induct)
  case (1 b e m)
  show ?case
  proof (cases "e = 0")
    case True
    then show ?thesis by (simp add: powmod.simps)
  next
    case False
    then have h: "powmod (b * b mod m) (e div 2) m = (b * b) ^ (e div 2) mod m"
      using 1 by (simp add: power_mod)
    have e: "(b * b) ^ (e div 2) = b ^ (2 * (e div 2))" by (simp add: power_mult power2_eq_square)
    show ?thesis
    proof (cases "e mod 2 = 0")
      case True
      then have "2 * (e div 2) = e" by presburger
      with True False h e show ?thesis by (subst powmod.simps) (simp add: Let_def)
    next
      case odd: False
      then have "e = Suc (2 * (e div 2))" by presburger
      then have "b ^ e = b * b ^ (2 * (e div 2))" by (metis power_Suc)
      with odd False h e show ?thesis
        by (subst powmod.simps) (simp add: Let_def mod_mult_right_eq)
    qed
  qed
qed

definition ed_D :: int where "ed_D = (- 121665 * powmod 121666 (nat (ed_P - 2)) ed_P) mod ed_P"
definition ed_SQRT_M1 :: int where "ed_SQRT_M1 = powmod 2 (nat ((ed_P - 1) div 4)) ed_P"
definition ed_G_Y :: int where "ed_G_Y = 4 * powmod 5 (nat (ed_P - 2)) ed_P mod ed_P"

definition recover_x :: "int \<Rightarrow> int \<Rightarrow> int option" where
  "recover_x y sg =
     (if y \<ge> ed_P then None
      else
        let y2 = y * y mod ed_P;
            x2 = (y2 - 1) * powmod (ed_D * y2 + 1) (nat (ed_P - 2)) ed_P mod ed_P
        in if x2 = 0 then (if sg = 0 then Some 0 else None)
           else
             let x = powmod x2 (nat ((ed_P + 3) div 8)) ed_P;
                 x = (if (x * x - x2) mod ed_P \<noteq> 0 then x * ed_SQRT_M1 mod ed_P else x)
             in if (x * x - x2) mod ed_P \<noteq> 0 then None
                else Some (if x mod 2 \<noteq> sg then ed_P - x else x))"

type_synonym point = "int \<times> int \<times> int \<times> int"

definition ed_G_X :: int where "ed_G_X = (case recover_x ed_G_Y 0 of Some x \<Rightarrow> x | None \<Rightarrow> 0)"
definition ed_G :: point where "ed_G = (ed_G_X, ed_G_Y, 1, ed_G_X * ed_G_Y mod ed_P)"
definition ed_NEUTRAL :: point where "ed_NEUTRAL = (0, 1, 1, 0)"

definition point_add :: "point \<Rightarrow> point \<Rightarrow> point" where
  "point_add p q = (case p of (x1, y1, z1, t1) \<Rightarrow> case q of (x2, y2, z2, t2) \<Rightarrow>
      let a = (y1 - x1) * (y2 - x2) mod ed_P;
          b = (y1 + x1) * (y2 + x2) mod ed_P;
          c = t1 * 2 * ed_D * t2 mod ed_P;
          d = z1 * 2 * z2 mod ed_P;
          e = (b - a) mod ed_P; f = (d - c) mod ed_P; g = (d + c) mod ed_P; h = (b + a) mod ed_P
      in (e * f mod ed_P, g * h mod ed_P, f * g mod ed_P, e * h mod ed_P))"

function point_mul_loop :: "nat \<Rightarrow> point \<Rightarrow> point \<Rightarrow> point" where
  \<comment> \<open>\<^verbatim>\<open>while s > 0\<close>, with the accumulator last\<close>
  "point_mul_loop s p q =
     (if s = 0 then q
      else point_mul_loop (s div 2) (point_add p p) (if s mod 2 = 1 then point_add q p else q))"
  by pat_completeness auto

termination
  by (relation "measure fst") auto

declare point_mul_loop.simps [simp del]

definition point_mul :: "nat \<Rightarrow> point \<Rightarrow> point" where
  "point_mul s p = point_mul_loop s p ed_NEUTRAL"

definition le_bytes :: "nat \<Rightarrow> nat \<Rightarrow> bytes" where
  \<comment> \<open>\<^verbatim>\<open>n.to_bytes(k, "little")\<close>\<close>
  "le_bytes k n = map (\<lambda>i. of_nat (n div 256 ^ i)) [0..<k]"

definition le_nat :: "bytes \<Rightarrow> nat" where
  \<comment> \<open>\<^verbatim>\<open>int.from_bytes(b, "little")\<close>\<close>
  "le_nat bs = foldr (\<lambda>b a. unat b + 256 * a) bs 0"

definition compress :: "point \<Rightarrow> bytes" where
  "compress p = (case p of (x, y, z, _) \<Rightarrow>
     let zi = powmod z (nat (ed_P - 2)) ed_P;
         x' = x * zi mod ed_P;
         y' = y * zi mod ed_P
     in le_bytes 32 (nat (y' OR push_bit 255 (x' AND 1))))"

definition decompress :: "bytes \<Rightarrow> (pyexc, point) result" where
  "decompress b =
     (if length b \<noteq> 32 then Inl ValueError
      else
        let y_raw = int (le_nat b);
            sg = drop_bit 255 y_raw;
            y = y_raw AND NOT (push_bit 255 1)
        in case recover_x y sg of
             None \<Rightarrow> Inl ValueError
           | Some x \<Rightarrow> Inr (x, y, 1, x * y mod ed_P))"

definition clamp :: "bytes \<Rightarrow> nat" where
  "clamp h32 =
     (let h1 = h32[0 := (h32 ! 0) AND 248];
          h2 = h1[31 := (h1 ! 31) AND 127];
          h3 = h2[31 := (h2 ! 31) OR 64]
      in le_nat h3)"

definition generate_keypair :: "bytes \<Rightarrow> string \<times> string" where
  \<comment> \<open>\<open>seed\<close>: what \<^verbatim>\<open>os.urandom(32)\<close> returned\<close>
  "generate_keypair seed =
     (let h = sha512 seed;
          a = clamp (take 32 h);
          A = compress (point_mul a ed_G)
      in (to_hex seed, to_hex A))"

definition ed25519_sign :: "bytes \<Rightarrow> string \<Rightarrow> (pyexc, string) result" where
  "ed25519_sign message privkey_hex = (case fromhex privkey_hex of
     None \<Rightarrow> Inl ValueError
   | Some seed \<Rightarrow>
       let h = sha512 seed;
           a = clamp (take 32 h);
           pre = drop 32 h;
           A = compress (point_mul a ed_G);
           r = le_nat (sha512 (pre @ message)) mod nat ed_L;
           R_bytes = compress (point_mul r ed_G);
           h_val = le_nat (sha512 (R_bytes @ A @ message)) mod nat ed_L;
           s = (r + h_val * a) mod nat ed_L
       in Inr (to_hex (R_bytes @ le_bytes 32 s)))"

definition ed25519_verify :: "bytes \<Rightarrow> string \<Rightarrow> string \<Rightarrow> bool" where
  \<comment> \<open>every exception inside the \<^verbatim>\<open>try\<close> becomes \<^verbatim>\<open>False\<close>\<close>
  "ed25519_verify message sig_hex pubkey_hex = (case (fromhex sig_hex, fromhex pubkey_hex) of
     (Some sig, Some pubkey) \<Rightarrow>
       if length sig \<noteq> 64 \<or> length pubkey \<noteq> 32 then False
       else
         let R_bytes = take 32 sig; s_bytes = drop 32 sig; s = le_nat s_bytes
         in if s \<ge> nat ed_L then False
            else (case (decompress R_bytes, decompress pubkey) of
              (Inr R, Inr A) \<Rightarrow>
                let h = le_nat (sha512 (R_bytes @ pubkey @ message)) mod nat ed_L;
                    sG = point_mul s ed_G;
                    hA = point_mul h A
                in compress sG = compress (point_add R hA)
            | _ \<Rightarrow> False)
   | _ \<Rightarrow> False)"

subsection \<open>Shapes\<close>

lemma length_le_bytes [simp]: "length (le_bytes k n) = k"
  by (simp add: le_bytes_def)

lemma length_compress [simp]: "length (compress p) = 32"
  by (simp add: compress_def Let_def split: prod.splits)

lemma sign_length: "ed25519_sign m sk = Inr s \<Longrightarrow> length s = 128"
  by (auto simp: ed25519_sign_def Let_def split: option.splits)

lemma verify_requires:
  assumes "ed25519_verify m s pk"
  obtains sb pb R A where "fromhex s = Some sb" "fromhex pk = Some pb" "length sb = 64" "length pb = 32"
    "le_nat (drop 32 sb) < nat ed_L" "decompress (take 32 sb) = Inr R" "decompress pb = Inr A"
  using assms by (auto simp: ed25519_verify_def Let_def not_le split: option.splits if_splits sum.splits)

end
