(* ===== verification/Binding_M2.thy ===== *)
theory Binding_M2
  imports Sha
begin

text \<open>
  \<^verbatim>\<open>ugk/storage/binding_m2.py\<close>: the canonicalisations \<open>c_s\<close>, \<open>c_c\<close>, \<open>c_m\<close>, \<open>c_j\<close> of a
  receipt's four commitments, the domain-separated hashes over them, the Merkle root
  \<open>H_r\<close> with its inclusion proofs, the commitment minimality gate and the freshness
  boundary check; with the constitutional tables of \<^verbatim>\<open>ugk/invariants.py\<close> the gate reads.

  Results: inclusion proofs verify (completeness), a well-shaped proof that verifies
  shows membership or names a SHA-256 collision (soundness), \<open>H_r\<close> does not depend on
  the order its leaves are given in and binds every leaf, and the minimality gate
  decides exactly its specification, whatever the iteration order of the set.
\<close>

subsection \<open>Constants\<close>

definition DS_S :: bytes where "DS_S = utf8 ''UGK-CIS-c_s-v1''"
definition DS_C :: bytes where "DS_C = utf8 ''UGK-CIS-c_c-v1''"
definition DS_M :: bytes where "DS_M = utf8 ''UGK-CIS-c_m-v1''"
definition DS_J :: bytes where "DS_J = utf8 ''UGK-CIS-c_j-v1''"
definition DS_R :: bytes where "DS_R = utf8 ''UGK-RECEIPT-ROOT-v1''"
definition DS_LEAF :: bytes where "DS_LEAF = utf8 ''UGK-MERKLE-LEAF-v1''"
definition DS_NODE :: bytes where "DS_NODE = utf8 ''UGK-MERKLE-NODE-v1''"
definition DS_SINGLELEAF :: bytes where "DS_SINGLELEAF = utf8 ''UGK-MERKLE-SINGLE-v1''"

definition ID_C_S :: string where "ID_C_S = ''c_s.v1''"
definition ID_C_C :: string where "ID_C_C = ''c_c.v1''"
definition ID_C_M :: string where "ID_C_M = ''c_m.v1+sigma_0''"
definition ID_C_J :: string where "ID_C_J = ''c_j.v1''"
definition ID_ROOT :: string where "ID_ROOT = ''root.v1''"

definition TAG_H_S :: int where "TAG_H_S = 1"
definition TAG_H_C :: int where "TAG_H_C = 2"
definition TAG_H_M :: int where "TAG_H_M = 3"
definition TAG_H_J :: int where "TAG_H_J = 4"
definition TAG_ID_P :: int where "TAG_ID_P = 5"
definition TAG_ID_SIGMA :: int where "TAG_ID_SIGMA = 6"
definition TAG_ID_PHI :: int where "TAG_ID_PHI = 7"

lemmas tag_defs = TAG_H_S_def TAG_H_C_def TAG_H_M_def TAG_H_J_def
  TAG_ID_P_def TAG_ID_SIGMA_def TAG_ID_PHI_def

definition SIGMA_0 :: json where
  "SIGMA_0 = JObj
    [(''L'', JStr ''governed-operation-declarations''),
     (''T'', JStr ''intent-warrant-capability theory''),
     (''R'', JStr ''UGK normalization rule set''),
     (''v'', JStr ''0.1.0''),
     (''r_star'', JStr ''deterministic-reduction-v1''),
     (''B'', JStr ''UGK normalization bound''),
     (''imports'', JList [])]"

definition ID_SIGMA_0 :: string where
  "ID_SIGMA_0 = to_hex (sha256 (canon SIGMA_0))"

definition PHI_0 :: json where
  "PHI_0 = JObj
    [(''phase_code'', JStr ''ugk-0.1.0''),
     (''regime_id'', JStr ID_SIGMA_0),
     (''v'', JStr ''0.1.0''),
     (''description'', JStr ''UGK v0.1.0 canonical operating phase''),
     (''imports'', JList [])]"

definition ID_PHI_0 :: string where
  "ID_PHI_0 = to_hex (sha256 (canon PHI_0))"

definition CANONICALIZATION_DOMAINS :: "string \<rightharpoonup> string set" where
  "CANONICALIZATION_DOMAINS = map_of
    [(''H_s'', {''op'', ''inputs''}),
     (''H_c'', {''authority_chain'', ''policy_id'', ''capabilities'', ''warrant_basis'',
                ''parent_H_r'', ''freshness''}),
     (''H_m'', {''intent'', ''intent_ref'', ''legend_hash'', ''semantic_lineage'',
                ''semantic_regime_id''}),
     (''H_j'', {''phase_code'', ''mosaic_root'', ''session_id'', ''authority_key''}),
     (''id_P'', {''policy_id''}),
     (''id_Sigma'', {''semantic_regime_id''}),
     (''id_Phi'', {''phase_code''})]"

definition PRINCIPLED_REDUNDANCY_REGISTRY :: "string \<rightharpoonup> string \<times> string" where
  "PRINCIPLED_REDUNDANCY_REGISTRY = map_of
    [(''id_P'', (''H_c'', ''chain-link-cache-self-describing-identity'')),
     (''id_Sigma'', (''H_m'', ''chain-link-cache-self-describing-identity'')),
     (''id_Phi'', (''H_j'', ''chain-link-cache-self-describing-identity''))]"

subsection \<open>Canonicalisations\<close>

definition noncanonical :: "(pyexc, 'a) result \<Rightarrow> (pyexc, 'a) result" where
  \<comment> \<open>\<^verbatim>\<open>except (ValueError, TypeError) as e: raise NonCanonical\<close>\<close>
  "noncanonical r = (case r of
     Inl TypeError \<Rightarrow> Inl NonCanonical
   | Inl ValueError \<Rightarrow> Inl NonCanonical
   | _ \<Rightarrow> r)"

lemma noncanonical_Inr [simp]: "noncanonical (Inr x) = Inr x"
  by (simp add: noncanonical_def)

definition length_prefix_be :: "int \<Rightarrow> (pyexc, bytes) result" where
  "length_prefix_be n =
     (if n < 0 \<or> n > 0xFFFFFFFF then Inl ValueError else Inr (be_bytes 4 (nat n)))"

definition c_s :: "pyval \<Rightarrow> pyval \<Rightarrow> (pyexc, bytes) result" where
  "c_s op_name inputs =
     (if \<not> py_is_str op_name then Inl NonCanonical
      else if \<not> py_is_dict inputs then Inl NonCanonical
      else noncanonical (canonical_json_py (PDict [(''op'', op_name), (''inputs'', inputs)])))"

definition c_c :: "pyval \<Rightarrow> pyval \<Rightarrow> pyval \<Rightarrow> pyval \<Rightarrow> pyval \<Rightarrow> pyval \<Rightarrow> (pyexc, bytes) result" where
  "c_c authority_chain policy_id capabilities warrant_basis parent_H_r freshness =
     (if \<not> py_is_list authority_chain then Inl NonCanonical
      else rbind (canonical_json_py authority_chain) (\<lambda>ac.
        let G_c_root = to_hex (sha256 ac) in
        noncanonical (canonical_json_py (PDict
          [(''G_c_root'', PStr G_c_root),
           (''policy_id'', policy_id),
           (''capabilities'', capabilities),
           (''warrant_basis'', warrant_basis),
           (''parent'', parent_H_r),
           (''freshness'', freshness)]))))"

definition c_m :: "pyval \<Rightarrow> pyval \<Rightarrow> pyval \<Rightarrow> pyval \<Rightarrow> (pyexc, bytes) result" where
  "c_m intent intent_ref legend_hash semantic_lineage =
     noncanonical (canonical_json_py (PDict
       [(''intent'', intent),
        (''intent_ref'', intent_ref),
        (''legend_hash'', legend_hash),
        (''semantic_lineage'', semantic_lineage)]))"

definition c_j :: "pyval \<Rightarrow> pyval \<Rightarrow> pyval \<Rightarrow> pyval \<Rightarrow> (pyexc, bytes) result" where
  "c_j phase_code mosaic_root session_id authority_key =
     noncanonical (rbind (canonical_json_py (PDict
         [(''phase_code'', phase_code), (''mosaic_root'', mosaic_root), (''session_id'', session_id)]))
       (\<lambda>b. let id_phi = to_hex (sha256 (utf8 ''UGK-PHI-v1'' @ b)) in
         canonical_json_py (PDict [(''phi'', PStr id_phi), (''authority_key'', authority_key)])))"

subsection \<open>Commitment hashes\<close>

definition H_s :: "pyval \<Rightarrow> pyval \<Rightarrow> (pyexc, bytes) result" where
  "H_s op_name inputs =
     rbind (c_s op_name inputs) (\<lambda>c. Inr (sha256 (DS_S @ utf8 ID_C_S @ c)))"

definition H_c :: "pyval \<Rightarrow> pyval \<Rightarrow> pyval \<Rightarrow> pyval \<Rightarrow> pyval \<Rightarrow> pyval \<Rightarrow> (pyexc, bytes) result" where
  "H_c authority_chain policy_id capabilities warrant_basis parent_H_r freshness =
     rbind (c_c authority_chain policy_id capabilities warrant_basis parent_H_r freshness)
       (\<lambda>c. Inr (sha256 (DS_C @ utf8 ID_C_C @ c)))"

definition H_m :: "pyval \<Rightarrow> pyval \<Rightarrow> pyval \<Rightarrow> pyval \<Rightarrow> string \<Rightarrow> (pyexc, bytes) result" where
  "H_m intent intent_ref legend_hash semantic_lineage semantic_regime_id =
     rbind (c_m intent intent_ref legend_hash semantic_lineage)
       (\<lambda>c. Inr (sha256 (DS_M @ utf8 ID_C_M @ c @ utf8 semantic_regime_id)))"

definition H_j :: "pyval \<Rightarrow> pyval \<Rightarrow> pyval \<Rightarrow> pyval \<Rightarrow> (pyexc, bytes) result" where
  "H_j phase_code mosaic_root session_id authority_key =
     rbind (c_j phase_code mosaic_root session_id authority_key)
       (\<lambda>c. Inr (sha256 (DS_J @ utf8 ID_C_J @ c)))"

definition H_id_P :: "string \<Rightarrow> bytes" where
  "H_id_P policy_id = sha256 (utf8 ''UGK-id_P-v1'' @ utf8 policy_id)"

definition H_id_Sigma :: "string \<Rightarrow> bytes" where
  "H_id_Sigma semantic_regime_id = sha256 (utf8 ''UGK-id_Sigma-v1'' @ utf8 semantic_regime_id)"

definition H_id_Phi :: "string \<Rightarrow> bytes" where
  "H_id_Phi phase_code = sha256 (utf8 ''UGK-id_Phi-v1'' @ utf8 phase_code)"

subsection \<open>Merkle tree\<close>

definition leaf_encoding :: "int \<Rightarrow> bytes \<Rightarrow> (pyexc, bytes) result" where
  "leaf_encoding type_tag h_i =
     (if \<not> (1 \<le> type_tag \<and> type_tag \<le> 0xFF) then Inl ValueError
      else if length h_i \<noteq> 32 then Inl ValueError
      else rbind (length_prefix_be (int (length h_i)))
        (\<lambda>lp. Inr (DS_LEAF @ [of_int type_tag] @ lp @ h_i)))"

definition node_hash :: "bytes \<Rightarrow> bytes \<Rightarrow> bytes" where
  "node_hash left right = sha256 (DS_NODE @ left @ right)"

fun pair_up :: "bytes list \<Rightarrow> bytes list" where
  \<comment> \<open>one level of the tree; an odd last node is paired with itself\<close>
  "pair_up [] = []"
| "pair_up [x] = [node_hash x x]"
| "pair_up (x # y # xs) = node_hash x y # pair_up xs"

lemma length_pair_up: "length (pair_up ns) = (length ns + 1) div 2"
  by (induction ns rule: pair_up.induct) auto

function merkle_level :: "bytes list \<Rightarrow> (pyexc, bytes) result" where
  "merkle_level nodes =
     (if nodes = [] then Inl RecursionError
      else if length nodes = 1 then Inr (hd nodes)
      else merkle_level (pair_up nodes))"
  by pat_completeness auto

termination
proof (relation "measure length", simp)
  fix nodes :: "bytes list"
  assume "nodes \<noteq> []" "length nodes \<noteq> 1"
  then have "length nodes \<ge> 2" by (cases nodes) (auto simp: Suc_le_eq)
  then show "(pair_up nodes, nodes) \<in> measure length" by (simp add: length_pair_up)
qed

declare merkle_level.simps [simp del]

definition merkle_root_v1 :: "bytes list \<Rightarrow> (pyexc, bytes) result" where
  "merkle_root_v1 leaves =
     (if length leaves = 0 then Inl ValueError
      else if length leaves = 1 then Inr (sha256 (DS_SINGLELEAF @ hd leaves))
      else merkle_level leaves)"

datatype side = SideL | SideR

definition find_tag :: "int \<Rightarrow> (int \<times> bytes) list \<Rightarrow> nat option" where
  \<comment> \<open>index of the first leaf with that tag\<close>
  "find_tag t ls = (let i = length (takeWhile (\<lambda>l. fst l \<noteq> t) ls) in
     if i < length ls then Some i else None)"

function build_path :: "bytes list \<Rightarrow> nat \<Rightarrow> (bytes \<times> side) list" where
  \<comment> \<open>the \<^verbatim>\<open>while len(nodes) > 1\<close> loop\<close>
  "build_path nodes idx =
     (if length nodes \<le> 1 then []
      else
        let sibling_idx = (if idx mod 2 = 0 then idx + 1 else idx - 1);
            sibling_idx' = (if sibling_idx \<ge> length nodes then idx else sibling_idx);
            sibling = nodes ! sibling_idx';
            sd = (if idx mod 2 = 0 then SideR else SideL)
        in (sibling, sd) # build_path (pair_up nodes) (idx div 2))"
  by pat_completeness auto

termination
  by (relation "measure (length \<circ> fst)") (auto simp: length_pair_up)

declare build_path.simps [simp del]

definition build_inclusion_proof ::
  "(int \<times> bytes) list \<Rightarrow> int \<Rightarrow> (pyexc, bytes \<times> (bytes \<times> side) list) result" where
  "build_inclusion_proof leaves target_tag =
     (let sorted_leaves = sort_key fst leaves in
      rbind (rmap (\<lambda>(tag, h_i). leaf_encoding tag h_i) sorted_leaves) (\<lambda>encoded.
        case find_tag target_tag sorted_leaves of
          None \<Rightarrow> Inl ValueError
        | Some target_idx \<Rightarrow> Inr (encoded ! target_idx, build_path encoded target_idx)))"

fun fold_path :: "bytes \<Rightarrow> (bytes \<times> side) list \<Rightarrow> bytes" where
  "fold_path current [] = current"
| "fold_path current ((sibling, sd) # path) =
     fold_path (if sd = SideL then node_hash sibling current else node_hash current sibling) path"

definition verify_inclusion_proof :: "bytes \<Rightarrow> bytes \<Rightarrow> (bytes \<times> side) list \<Rightarrow> bool" where
  "verify_inclusion_proof h_r target_leaf_encoded path =
     (if path = []
      then sha256 (DS_R @ utf8 ID_ROOT @ sha256 (DS_SINGLELEAF @ target_leaf_encoded)) = h_r
      else sha256 (DS_R @ utf8 ID_ROOT @ fold_path target_leaf_encoded path) = h_r)"

definition compute_H_r :: "(int \<times> bytes) list \<Rightarrow> (pyexc, bytes) result" where
  "compute_H_r leaves =
     (let sorted_leaves = sort_key fst leaves;
          tags_present = set (map fst sorted_leaves);
          required = {TAG_H_S, TAG_H_C, TAG_H_M}
      in
      if \<not> required \<subseteq> tags_present then Inl ValueError
      else if card tags_present \<noteq> length sorted_leaves then Inl ValueError
      else rbind (rmap (\<lambda>(tag, h_i). leaf_encoding tag h_i) sorted_leaves) (\<lambda>encoded.
        rbind (merkle_root_v1 encoded) (\<lambda>root.
          Inr (sha256 (DS_R @ utf8 ID_ROOT @ root)))))"

subsection \<open>Commitment minimality gate\<close>

datatype minimality_reason =
    UnknownLeaves "string list"
  | Recoverable string string

fun minimality_inner :: "(string \<rightharpoonup> string set) \<Rightarrow> (string \<rightharpoonup> string \<times> string) \<Rightarrow> string \<Rightarrow>
    string list \<Rightarrow> minimality_reason option" where
  \<comment> \<open>the loop over \<open>L_j\<close>\<close>
  "minimality_inner doms registry L_i [] = None"
| "minimality_inner doms registry L_i (L_j # rest) =
     (if L_i = L_j then minimality_inner doms registry L_i rest
      else if the (doms L_i) \<subseteq> the (doms L_j) then
        (case registry L_i of
           Some (expected_carrier, threat_class) \<Rightarrow>
             if L_j = expected_carrier then minimality_inner doms registry L_i rest
             else Some (Recoverable L_i L_j)
         | None \<Rightarrow> Some (Recoverable L_i L_j))
      else minimality_inner doms registry L_i rest)"

fun minimality_outer :: "(string \<rightharpoonup> string set) \<Rightarrow> (string \<rightharpoonup> string \<times> string) \<Rightarrow> string list \<Rightarrow>
    string list \<Rightarrow> minimality_reason option" where
  \<comment> \<open>the loop over \<open>L_i\<close>\<close>
  "minimality_outer doms registry present [] = None"
| "minimality_outer doms registry present (L_i # rest) =
     (case minimality_inner doms registry L_i present of
        Some r \<Rightarrow> Some r
      | None \<Rightarrow> minimality_outer doms registry present rest)"

definition commitment_minimality_gate ::
  "string list \<Rightarrow> (string \<rightharpoonup> string set) option \<Rightarrow> (string \<rightharpoonup> string \<times> string) option \<Rightarrow>
   bool \<times> minimality_reason option" where
  \<comment> \<open>\<open>present_leaves\<close>: the elements of the set in its iteration order\<close>
  "commitment_minimality_gate present_leaves domains registry =
     (let doms = (case domains of None \<Rightarrow> CANONICALIZATION_DOMAINS | Some d \<Rightarrow> d);
          reg = (case registry of None \<Rightarrow> PRINCIPLED_REDUNDANCY_REGISTRY | Some r \<Rightarrow> r);
          unknown = filter (\<lambda>l. doms l = None) present_leaves
      in if unknown \<noteq> [] then (False, Some (UnknownLeaves (sort unknown)))
         else case minimality_outer doms reg present_leaves present_leaves of
           Some r \<Rightarrow> (False, Some r)
         | None \<Rightarrow> (True, None))"

subsection \<open>Freshness boundary\<close>

record freshness_dict =
  fd_phase_code :: string
  fd_valid_from :: int
  fd_valid_until :: int

datatype freshness_error = PhaseMismatch | NotYetAdmissible | ExpiredEdge

definition freshness_check :: "freshness_dict \<Rightarrow> int \<Rightarrow> string \<Rightarrow> bool \<times> freshness_error option" where
  "freshness_check claim current_epoch current_phase_code =
     (if fd_phase_code claim \<noteq> current_phase_code then (False, Some PhaseMismatch)
      else if current_epoch < fd_valid_from claim then (False, Some NotYetAdmissible)
      else if current_epoch > fd_valid_until claim then (False, Some ExpiredEdge)
      else (True, None))"

subsection \<open>Shapes and hash inputs\<close>

fun level_inputs :: "bytes list \<Rightarrow> bytes list" where
  "level_inputs [] = []"
| "level_inputs [x] = [DS_NODE @ x @ x]"
| "level_inputs (x # y # xs) = (DS_NODE @ x @ y) # level_inputs xs"

function tree_inputs :: "bytes list \<Rightarrow> bytes list" where
  \<comment> \<open>every byte string hashed between a list of nodes and their root\<close>
  "tree_inputs nodes = (if length nodes \<le> 1 then [] else level_inputs nodes @ tree_inputs (pair_up nodes))"
  by pat_completeness auto

termination
  by (relation "measure length") (auto simp: length_pair_up)

declare tree_inputs.simps [simp del]

fun path_inputs :: "bytes \<Rightarrow> (bytes \<times> side) list \<Rightarrow> bytes list" where
  \<comment> \<open>every byte string hashed while a proof path is folded\<close>
  "path_inputs current [] = []"
| "path_inputs current ((sibling, sd) # path) =
     (let i = (if sd = SideL then DS_NODE @ sibling @ current else DS_NODE @ current @ sibling)
      in i # path_inputs (sha256 i) path)"

fun merkle_height :: "nat \<Rightarrow> nat" where
  "merkle_height n = (if n \<le> 1 then 0 else Suc (merkle_height ((n + 1) div 2)))"

declare merkle_height.simps [simp del]

fun path_shape :: "nat \<Rightarrow> (bytes \<times> side) list \<Rightarrow> bool" where
  \<comment> \<open>the sibling lengths a genuine proof has: leaf size first, digests above\<close>
  "path_shape k [] = True"
| "path_shape k ((sibling, sd) # path) = (length sibling = k \<and> path_shape 32 path)"

lemma length_node_hash [simp]: "length (node_hash l r) = 32"
  by (simp add: node_hash_def)

lemma pair_up_inputs: "pair_up ns = map sha256 (level_inputs ns)"
  by (induction ns rule: pair_up.induct) (simp_all add: node_hash_def)

lemma length_level_inputs: "length (level_inputs ns) = (length ns + 1) div 2"
  using length_pair_up [of ns] by (simp add: pair_up_inputs)

lemma level_inputs_members:
  "i \<in> set (level_inputs ns) \<Longrightarrow> \<exists>l \<in> set ns. \<exists>r \<in> set ns. i = DS_NODE @ l @ r"
  by (induction ns rule: level_inputs.induct) auto

lemma pair_up_lengths: "list_all (\<lambda>x. length x = 32) (pair_up ns)"
  by (induction ns rule: pair_up.induct) simp_all

lemma merkle_level_single [simp]: "merkle_level [x] = Inr x"
  by (simp add: merkle_level.simps)

lemma merkle_level_step: "1 < length ns \<Longrightarrow> merkle_level ns = merkle_level (pair_up ns)"
  by (subst merkle_level.simps) auto

lemma tree_inputs_step:
  "1 < length ns \<Longrightarrow> tree_inputs ns = level_inputs ns @ tree_inputs (pair_up ns)"
  by (subst tree_inputs.simps) auto

lemma merkle_level_Inr: "ns \<noteq> [] \<Longrightarrow> \<exists>r. merkle_level ns = Inr r"
proof (induction ns rule: merkle_level.induct)
  case (1 ns)
  show ?case
  proof (cases "length ns = 1")
    case True
    then show ?thesis using 1 by (subst merkle_level.simps) auto
  next
    case False
    then have "1 < length ns" using 1(2) by (cases ns) auto
    moreover from this have "pair_up ns \<noteq> []" using length_pair_up [of ns] by auto
    ultimately show ?thesis using 1 False by (simp add: merkle_level_step)
  qed
qed

lemma merkle_level_length:
  "merkle_level ns = Inr r \<Longrightarrow> list_all (\<lambda>x. length x = k) ns \<Longrightarrow>
   length r = (if length ns = 1 then k else 32)"
proof (induction ns arbitrary: k rule: merkle_level.induct)
  case (1 ns)
  show ?case
  proof (cases "length ns = 1")
    case True
    then show ?thesis using 1(2,3) by (cases ns) auto
  next
    case False
    with 1(2) have n: "ns \<noteq> []" by (auto simp: merkle_level.simps)
    then have "1 < length ns" using False by (cases ns) auto
    with 1 False n show ?thesis using pair_up_lengths [of ns] by (force simp: merkle_level_step)
  qed
qed

subsection \<open>Inclusion proofs\<close>

lemma pair_up_nth:
  assumes "i < length ns"
  shows "pair_up ns ! (i div 2) =
    (if i mod 2 = 0 then node_hash (ns ! i) (if i + 1 < length ns then ns ! (i + 1) else ns ! i)
     else node_hash (ns ! (i - 1)) (ns ! i))"
  using assms
proof (induction ns arbitrary: i rule: pair_up.induct)
  case (3 x y xs)
  show ?case
  proof (cases "i < 2")
    case True
    then have "i = 0 \<or> i = 1" by auto
    then show ?thesis by auto
  next
    case False
    then obtain j where j: "i = j + 2" by (metis le_add_diff_inverse2 not_less)
    with 3 have "j < length xs" by simp
    with 3(1) [of j] j show ?thesis by (auto simp: nth_Cons' )
  qed
qed auto

lemma build_path_folds:
  "idx < length nodes \<Longrightarrow> merkle_level nodes = Inr (fold_path (nodes ! idx) (build_path nodes idx))"
proof (induction nodes idx rule: build_path.induct)
  case (1 nodes idx)
  show ?case
  proof (cases "length nodes \<le> 1")
    case True
    then have "length nodes = 1" "idx = 0" using 1(2) by auto
    then show ?thesis by (cases nodes) (auto simp: build_path.simps)
  next
    case False
    have i: "idx div 2 < length (pair_up nodes)" using 1(2) by (auto simp: length_pair_up)
    from 1(1) [OF False refl refl refl refl i] False have IH:
      "merkle_level nodes = Inr (fold_path (pair_up nodes ! (idx div 2)) (build_path (pair_up nodes) (idx div 2)))"
      by (simp add: merkle_level_step)
    show ?thesis unfolding IH using False 1(2)
      by (subst (2) build_path.simps) (auto simp: Let_def pair_up_nth)
  qed
qed

lemma build_path_nonempty: "1 < length nodes \<Longrightarrow> build_path nodes idx \<noteq> []"
  by (subst build_path.simps) (simp add: Let_def)

lemma find_tag_Some:
  "t \<in> fst ` set ls \<Longrightarrow> \<exists>i. find_tag t ls = Some i \<and> i < length ls \<and> fst (ls ! i) = t"
proof -
  assume "t \<in> fst ` set ls"
  then have "length (takeWhile (\<lambda>l. fst l \<noteq> t) ls) < length ls"
    by (metis (mono_tags, lifting) imageE length_takeWhile_le nat_less_le takeWhile_eq_all_conv takeWhile_eq_take take_all)
  then show ?thesis using nth_length_takeWhile [of "\<lambda>l. fst l \<noteq> t" ls]
    by (auto simp: find_tag_def Let_def)
qed

lemma card_set_3: "{TAG_H_S, TAG_H_C, TAG_H_M} \<subseteq> set (map fst ls) \<Longrightarrow> 3 \<le> length ls"
proof -
  assume a: "{TAG_H_S, TAG_H_C, TAG_H_M} \<subseteq> set (map fst ls)"
  have "card {TAG_H_S, TAG_H_C, TAG_H_M} = 3" by (simp add: tag_defs)
  then show ?thesis using card_mono [OF _ a] card_length [of "map fst ls"] by simp
qed

lemma compute_H_r_Inr:
  assumes "compute_H_r leaves = Inr h"
  obtains enc root where "rmap (\<lambda>(tag, h_i). leaf_encoding tag h_i) (sort_key fst leaves) = Inr enc"
    "merkle_level enc = Inr root" "h = sha256 (DS_R @ utf8 ID_ROOT @ root)"
    "length enc = length leaves" "3 \<le> length leaves" "distinct (map fst leaves)"
proof -
  let ?s = "sort_key fst leaves"
  from assms have r: "{TAG_H_S, TAG_H_C, TAG_H_M} \<subseteq> set (map fst ?s)" and
    d: "card (set (map fst ?s)) = length ?s"
    by (auto simp: compute_H_r_def Let_def split: if_splits)
  from assms r d obtain enc root where e: "rmap (\<lambda>(tag, h_i). leaf_encoding tag h_i) ?s = Inr enc"
    "merkle_root_v1 enc = Inr root" "h = sha256 (DS_R @ utf8 ID_ROOT @ root)"
    by (auto simp: compute_H_r_def Let_def rbind_eq_Inr split: if_splits)
  have "3 \<le> length ?s" using card_set_3 [OF r] by simp
  moreover have le: "length enc = length leaves" using e(1) by (auto simp: rmap_eq_Inr dest: list_all2_lengthD)
  ultimately have "merkle_level enc = Inr root" using e(2) by (auto simp: merkle_root_v1_def split: if_splits)
  moreover have "distinct (map fst leaves)"
    using d card_distinct [of "map fst leaves"] by simp
  ultimately show ?thesis using that e le \<open>3 \<le> length ?s\<close> by simp
qed

lemma leaf_encoding_Inr:
  "leaf_encoding t h = Inr e \<longleftrightarrow>
     1 \<le> t \<and> t \<le> 255 \<and> length h = 32 \<and> e = DS_LEAF @ [of_int t] @ be_bytes 4 32 @ h"
  by (auto simp: leaf_encoding_def length_prefix_be_def)

lemma leaf_encoding_inject:
  assumes "leaf_encoding t h = Inr e" "leaf_encoding t' h' = Inr e"
  shows "t = t' \<and> h = h'"
proof -
  from assms have w: "(of_int t :: byte) = of_int t'" and "h = h'"
    and b: "1 \<le> t" "t \<le> 255" "1 \<le> t'" "t' \<le> 255"
    by (auto simp: leaf_encoding_Inr)
  have "(of_nat (nat t) :: byte) = of_nat (nat t')" using w b by simp
  then have "nat t = nat t'" by (rule of_nat_byte_eq) (use b in auto)
  with b \<open>h = h'\<close> show ?thesis by simp
qed

lemma length_leaf_encoding: "leaf_encoding t h = Inr e \<Longrightarrow> length e = 55"
  by (auto simp: leaf_encoding_Inr DS_LEAF_def utf8_char_def)

lemma encoded_member:
  assumes "rmap (\<lambda>(tag, h_i). leaf_encoding tag h_i) ls = Inr enc" "e \<in> set enc"
  shows "\<exists>(t, h) \<in> set ls. leaf_encoding t h = Inr e"
proof -
  have "list_all2 (\<lambda>x y. (case x of (tag, h_i) \<Rightarrow> leaf_encoding tag h_i) = Inr y) ls enc"
    using assms(1) by (simp add: rmap_eq_Inr)
  from list_all2_member [OF this assms(2)] show ?thesis by auto
qed

lemma encoded_lengths:
  assumes "rmap (\<lambda>(tag, h_i). leaf_encoding tag h_i) ls = Inr enc"
  shows "list_all (\<lambda>e. length e = 55) enc"
  using encoded_member [OF assms] length_leaf_encoding by (fastforce simp: list_all_iff)

text \<open>inclusion proof complete. Completeness of selective disclosure: whenever a receipt root
  \<open>H_r\<close> is computed from a set of leaves and a leaf with the asked tag is among them,
  \<open>build_inclusion_proof\<close> returns the encoding of that leaf and a path that
  \<open>verify_inclusion_proof\<close> accepts against \<open>H_r\<close>, for every number of leaves (odd levels with
  their duplicated last node included).\<close>

theorem inclusion_proof_complete:
  assumes "compute_H_r leaves = Inr h" "(t, h_i) \<in> set leaves"
  shows "\<exists>enc path. build_inclusion_proof leaves t = Inr (enc, path) \<and>
    leaf_encoding t h_i = Inr enc \<and> verify_inclusion_proof h enc path"
proof -
  let ?s = "sort_key fst leaves"
  obtain encs root where e: "rmap (\<lambda>(tag, h_i). leaf_encoding tag h_i) ?s = Inr encs"
    "merkle_level encs = Inr root" "h = sha256 (DS_R @ utf8 ID_ROOT @ root)"
    "length encs = length leaves" "3 \<le> length leaves" "distinct (map fst leaves)"
    using compute_H_r_Inr [OF assms(1)] by blast
  obtain i where i: "find_tag t ?s = Some i" "i < length ?s" "fst (?s ! i) = t"
    using find_tag_Some [of t ?s] assms(2) by (auto simp: image_iff Bex_def)
  have "?s ! i \<in> set leaves" using i(2) nth_mem [of i ?s] by simp
  then have si: "?s ! i = (t, h_i)" using i(3) assms(2) e(6)
    by (metis distinct_map inj_onD prod.collapse fst_conv)
  have le: "leaf_encoding t h_i = Inr (encs ! i)"
    using e(1) i(2) si by (auto simp: rmap_eq_Inr list_all2_conv_all_nth)
  have "root = fold_path (encs ! i) (build_path encs i)"
    using build_path_folds [of i encs] e i by simp
  moreover have "build_path encs i \<noteq> []" using build_path_nonempty e by simp
  ultimately have "verify_inclusion_proof h (encs ! i) (build_path encs i)"
    using e(3) by (simp add: verify_inclusion_proof_def)
  then show ?thesis using e(1) i le by (simp add: build_inclusion_proof_def Let_def)
qed

lemma compute_H_r_ok:
  assumes "{TAG_H_S, TAG_H_C, TAG_H_M} \<subseteq> fst ` set ls" "distinct (map fst ls)"
    and "\<forall>(t, h) \<in> set ls. 1 \<le> t \<and> t \<le> 255 \<and> length h = 32"
  shows "\<exists>h. compute_H_r ls = Inr h"
proof -
  let ?g = "\<lambda>(t, h). DS_LEAF @ [of_int t] @ be_bytes 4 32 @ h"
  have e: "rmap (\<lambda>(tag, h_i). leaf_encoding tag h_i) (sort_key fst ls) = Inr (map ?g (sort_key fst ls))"
    by (rule rmap_Inr) (use assms(3) in \<open>auto simp: leaf_encoding_Inr\<close>)
  have n: "3 \<le> length ls" using card_set_3 assms(1) by simp
  have ne: "map ?g (sort_key fst ls) \<noteq> []" using n length_sort [of fst ls] by fastforce
  have "\<exists>r. merkle_root_v1 (map ?g (sort_key fst ls)) = Inr r"
    using merkle_level_Inr [OF ne] n by (auto simp: merkle_root_v1_def)
  moreover have "card (set (map fst (sort_key fst ls))) = length (sort_key fst ls)"
    using distinct_card [OF assms(2)] by simp
  moreover have "{TAG_H_S, TAG_H_C, TAG_H_M} \<subseteq> set (map fst (sort_key fst ls))"
    using assms(1) by simp
  ultimately show ?thesis using e unfolding compute_H_r_def Let_def by auto
qed

definition sample_leaves :: "(int \<times> bytes) list" where
  "sample_leaves = [(3, replicate 32 7), (1, replicate 32 0), (2, replicate 32 1)]"

lemma sample_leaves_root: "\<exists>h. compute_H_r sample_leaves = Inr h"
  by (rule compute_H_r_ok) (simp_all add: sample_leaves_def tag_defs)

theorem inclusion_proof_complete_witness:
  "\<exists>h enc path. compute_H_r sample_leaves = Inr h \<and>
    build_inclusion_proof sample_leaves 2 = Inr (enc, path) \<and>
    leaf_encoding 2 (replicate 32 1) = Inr enc \<and> verify_inclusion_proof h enc path"
proof -
  obtain h where h: "compute_H_r sample_leaves = Inr h" using sample_leaves_root by blast
  have "(2, replicate 32 1) \<in> set sample_leaves" by (simp add: sample_leaves_def)
  from inclusion_proof_complete [OF h this] h show ?thesis by blast
qed

lemma path_sound:
  assumes "merkle_level ns = Inr r" "fold_path t path = r" "length path = merkle_height (length ns)"
    and "list_all (\<lambda>x. length x = k) ns" "length t = k" "path_shape k path"
  shows "t \<in> set ns \<or> collision_between (path_inputs t path) (tree_inputs ns)"
  using assms
proof (induction ns arbitrary: t path k rule: merkle_level.induct)
  case (1 ns)
  from 1(2) have ne: "ns \<noteq> []" by (auto simp: merkle_level.simps)
  show ?case
  proof (cases "length ns = 1")
    case True
    with 1 show ?thesis by (cases ns) (auto simp: merkle_height.simps)
  next
    case False
    then have g: "1 < length ns" using ne by (cases ns) auto
    then obtain s sd p where p: "path = (s, sd) # p"
      using 1(4) merkle_height.simps [of "length ns"] by (cases path) auto
    define i where "i = (if sd = SideL then DS_NODE @ s @ t else DS_NODE @ t @ s)"
    have fp: "fold_path t path = fold_path (sha256 i) p" using p by (simp add: i_def node_hash_def)
    have pi: "path_inputs t path = i # path_inputs (sha256 i) p" using p by (simp add: i_def Let_def)
    have ti: "tree_inputs ns = level_inputs ns @ tree_inputs (pair_up ns)" using g by (rule tree_inputs_step)
    have lp: "length p = merkle_height (length (pair_up ns))"
      using 1(4) p g merkle_height.simps [of "length ns"] by (simp add: length_pair_up)
    have "sha256 i \<in> set (pair_up ns) \<or> collision_between (path_inputs (sha256 i) p) (tree_inputs (pair_up ns))"
    proof (rule 1(1) [OF ne False _ _ lp pair_up_lengths])
      show "merkle_level (pair_up ns) = Inr r" using 1(2) merkle_level_step [OF g] by simp
      show "fold_path (sha256 i) p = r" using 1(3) fp by simp
      show "path_shape 32 p" using 1(7) p by simp
    qed simp
    then show ?thesis
    proof
      assume "sha256 i \<in> set (pair_up ns)"
      then obtain j where j: "j \<in> set (level_inputs ns)" "sha256 i = sha256 j"
        by (auto simp: pair_up_inputs)
      then obtain l r where lr: "l \<in> set ns" "r \<in> set ns" "j = DS_NODE @ l @ r"
        using level_inputs_members by blast
      show ?thesis
      proof (cases "i = j")
        case True
        have "length l = k" "length r = k" "length s = k" "length t = k"
          using lr 1(5-7) p by (auto simp: list_all_iff)
        with True lr show ?thesis by (auto simp: i_def split: if_splits)
      next
        case False
        then show ?thesis using j pi ti by (auto simp: collide_def)
      qed
    next
      assume "collision_between (path_inputs (sha256 i) p) (tree_inputs (pair_up ns))"
      then have "collision_between (path_inputs t path) (tree_inputs ns)"
        by (rule collision_between_mono) (auto simp: pi ti)
      then show ?thesis ..
    qed
  qed
qed

definition root_inputs :: "bytes list \<Rightarrow> bytes list" where
  \<comment> \<open>every byte string hashed on the way from the encoded leaves to \<open>H_r\<close>\<close>
  "root_inputs enc = (case merkle_level enc of Inl _ \<Rightarrow> [] | Inr root \<Rightarrow> [DS_R @ utf8 ID_ROOT @ root]) @ tree_inputs enc"

definition encoded_leaves :: "(int \<times> bytes) list \<Rightarrow> bytes list" where
  "encoded_leaves leaves =
     (case rmap (\<lambda>(tag, h_i). leaf_encoding tag h_i) (sort_key fst leaves) of Inl _ \<Rightarrow> [] | Inr e \<Rightarrow> e)"

text \<open>inclusion proof sound. Soundness of selective disclosure: if a verifier accepts a proof
  whose target has the size of a leaf encoding and whose siblings have the sizes a genuine path of
  that tree height has, then the target is the encoding of one of the committed leaves, or one of the
  finitely many byte strings the verifier hashed collides under SHA-256 with one of those hashed when
  \<open>H_r\<close> was computed.\<close>

theorem inclusion_proof_sound:
  assumes "compute_H_r leaves = Inr h" "verify_inclusion_proof h target path"
    and "length target = 55" "path_shape 55 path" "length path = merkle_height (length leaves)"
  shows "(\<exists>(t, h_i) \<in> set leaves. leaf_encoding t h_i = Inr target) \<or>
    collision_between ((DS_R @ utf8 ID_ROOT @ fold_path target path) # path_inputs target path)
      (root_inputs (encoded_leaves leaves))"
proof -
  obtain encs root where e: "rmap (\<lambda>(tag, h_i). leaf_encoding tag h_i) (sort_key fst leaves) = Inr encs"
    "merkle_level encs = Inr root" "h = sha256 (DS_R @ utf8 ID_ROOT @ root)"
    "length encs = length leaves" "3 \<le> length leaves" "distinct (map fst leaves)"
    using compute_H_r_Inr [OF assms(1)] by blast
  have el: "encoded_leaves leaves = encs" using e(1) by (simp add: encoded_leaves_def)
  have ri: "root_inputs encs = (DS_R @ utf8 ID_ROOT @ root) # tree_inputs encs"
    using e(2) by (simp add: root_inputs_def)
  have "path \<noteq> []" using assms(5) e(5) by (auto simp: merkle_height.simps)
  then have hv: "sha256 (DS_R @ utf8 ID_ROOT @ fold_path target path) = sha256 (DS_R @ utf8 ID_ROOT @ root)"
    using assms(2) e(3) by (simp add: verify_inclusion_proof_def)
  show ?thesis
  proof (cases "fold_path target path = root")
    case True
    then have "target \<in> set encs \<or> collision_between (path_inputs target path) (tree_inputs encs)"
      using path_sound [OF e(2) True] assms(3-5) e(4) encoded_lengths [OF e(1)] by simp
    then show ?thesis
    proof
      assume "target \<in> set encs"
      then show ?thesis using encoded_member [OF e(1)] by auto
    next
      assume "collision_between (path_inputs target path) (tree_inputs encs)"
      then have "collision_between ((DS_R @ utf8 ID_ROOT @ fold_path target path) # path_inputs target path)
        (root_inputs (encoded_leaves leaves))"
        by (rule collision_between_mono) (auto simp: el ri)
      then show ?thesis ..
    qed
  next
    case False
    then have "collide (DS_R @ utf8 ID_ROOT @ fold_path target path) (DS_R @ utf8 ID_ROOT @ root)"
      using hv by (simp add: collide_def)
    then show ?thesis unfolding el ri by (meson collision_betweenI list.set_intros(1))
  qed
qed

lemma length_build_path: "length (build_path ns i) = merkle_height (length ns)"
proof (induction ns i rule: build_path.induct)
  case (1 ns i)
  then show ?case
    by (subst build_path.simps, subst merkle_height.simps) (simp add: Let_def length_pair_up)
qed

lemma build_path_shape:
  "i < length ns \<Longrightarrow> list_all (\<lambda>x. length x = k) ns \<Longrightarrow> path_shape k (build_path ns i)"
proof (induction ns i arbitrary: k rule: build_path.induct)
  case (1 ns i)
  show ?case
  proof (cases "length ns \<le> 1")
    case True
    then show ?thesis by (simp add: build_path.simps)
  next
    case False
    have "path_shape 32 (build_path (pair_up ns) (i div 2))"
      using 1(1) [OF False refl refl refl refl _ pair_up_lengths] 1(2) by (simp add: length_pair_up)
    then show ?thesis using False 1(2,3)
      by (subst build_path.simps) (auto simp: Let_def list_all_length)
  qed
qed

theorem inclusion_proof_sound_witness:
  "\<exists>h target path. compute_H_r sample_leaves = Inr h \<and> verify_inclusion_proof h target path \<and>
    ((\<exists>(t, h_i) \<in> set sample_leaves. leaf_encoding t h_i = Inr target) \<or>
     collision_between ((DS_R @ utf8 ID_ROOT @ fold_path target path) # path_inputs target path)
      (root_inputs (encoded_leaves sample_leaves)))"
proof -
  obtain h where h: "compute_H_r sample_leaves = Inr h" using sample_leaves_root by blast
  obtain encs root where e: "rmap (\<lambda>(tag, h_i). leaf_encoding tag h_i) (sort_key fst sample_leaves) = Inr encs"
    "merkle_level encs = Inr root" "h = sha256 (DS_R @ utf8 ID_ROOT @ root)"
    "length encs = length sample_leaves" "3 \<le> length sample_leaves"
    using compute_H_r_Inr [OF h] by blast
  have i: "0 < length encs" using e(4,5) by linarith
  have l: "list_all (\<lambda>x. length x = 55) encs" by (rule encoded_lengths [OF e(1)])
  have v: "verify_inclusion_proof h (encs ! 0) (build_path encs 0)"
    using build_path_folds [OF i] build_path_nonempty [of encs 0] e by (simp add: verify_inclusion_proof_def)
  have "length (encs ! 0) = 55" using i l by (simp add: list_all_length)
  from inclusion_proof_sound [OF h v this build_path_shape [OF i l]] length_build_path [of encs 0] e(4)
  have "(\<exists>(t, h_i) \<in> set sample_leaves. leaf_encoding t h_i = Inr (encs ! 0)) \<or>
     collision_between ((DS_R @ utf8 ID_ROOT @ fold_path (encs ! 0) (build_path encs 0)) #
       path_inputs (encs ! 0) (build_path encs 0)) (root_inputs (encoded_leaves sample_leaves))" by simp
  with h v show ?thesis by blast
qed

subsection \<open>The receipt root binds its leaves\<close>

lemma level_inputs_inject:
  "length ns = length ms \<Longrightarrow> list_all (\<lambda>x. length x = k) ns \<Longrightarrow> list_all (\<lambda>x. length x = k) ms \<Longrightarrow>
   level_inputs ns = level_inputs ms \<Longrightarrow> ns = ms"
proof (induction ns arbitrary: ms rule: level_inputs.induct)
  case (2 x)
  then show ?case by (cases ms) auto
next
  case (3 x y xs)
  then obtain u v us where "ms = u # v # us" by (metis length_Suc_conv list.size(4) add_Suc_right)
  with 3 show ?case by auto
qed simp

lemma map_sha256_cases:
  assumes "map sha256 xs = map sha256 ys"
  shows "xs = ys \<or> collision_between xs ys"
proof (rule disjCI)
  assume n: "\<not> collision_between xs ys"
  have l: "length xs = length ys" using map_eq_imp_length_eq [OF assms] .
  show "xs = ys"
  proof (rule nth_equalityI [OF l])
    fix i
    assume i: "i < length xs"
    then have "sha256 (xs ! i) = sha256 (ys ! i)" using assms l by (metis nth_map)
    moreover have "xs ! i \<in> set xs" "ys ! i \<in> set ys" using i l by auto
    ultimately show "xs ! i = ys ! i" using n by (auto simp: collide_def collision_between_def)
  qed
qed

lemma merkle_level_inject:
  assumes "length ns = length ms" "list_all (\<lambda>x. length x = k) ns" "list_all (\<lambda>x. length x = k) ms"
    and "merkle_level ns = Inr r" "merkle_level ms = Inr r"
  shows "ns = ms \<or> collision_between (tree_inputs ns) (tree_inputs ms)"
  using assms
proof (induction ns arbitrary: ms k rule: merkle_level.induct)
  case (1 ns)
  from 1(5) have ne: "ns \<noteq> []" by (auto simp: merkle_level.simps)
  show ?case
  proof (cases "length ns = 1")
    case True
    then obtain x y where "ns = [x]" "ms = [y]" using 1(2) by (metis length_0_conv length_Suc_conv One_nat_def)
    with 1(5,6) show ?thesis by simp
  next
    case False
    then have g: "1 < length ns" "1 < length ms" using ne 1(2) by (cases ns; auto)+
    have t: "tree_inputs ns = level_inputs ns @ tree_inputs (pair_up ns)"
      "tree_inputs ms = level_inputs ms @ tree_inputs (pair_up ms)" using g by (auto intro: tree_inputs_step)
    have "pair_up ns = pair_up ms \<or> collision_between (tree_inputs (pair_up ns)) (tree_inputs (pair_up ms))"
      by (rule 1(1) [OF ne False _ pair_up_lengths pair_up_lengths])
        (use 1(2,5,6) g in \<open>simp_all add: length_pair_up flip: merkle_level_step\<close>)
    then show ?thesis
    proof
      assume "pair_up ns = pair_up ms"
      then have "level_inputs ns = level_inputs ms \<or> collision_between (level_inputs ns) (level_inputs ms)"
        unfolding pair_up_inputs by (rule map_sha256_cases)
      then show ?thesis using level_inputs_inject [OF 1(2-4)] unfolding t by blast
    qed (auto simp: t)
  qed
qed

lemma encoded_inject:
  "rmap (\<lambda>(tag, h_i). leaf_encoding tag h_i) ls = Inr enc \<Longrightarrow>
   rmap (\<lambda>(tag, h_i). leaf_encoding tag h_i) ms = Inr enc \<Longrightarrow> ls = ms"
proof (induction ls arbitrary: enc ms)
  case Nil
  then show ?case by (auto simp: rmap_eq_Inr)
next
  case (Cons l ls)
  then obtain e es where e: "enc = e # es" by (auto simp: rbind_eq_Inr)
  with Cons.prems(2) obtain m ms' where m: "ms = m # ms'" by (cases ms) auto
  from Cons.prems e m have "leaf_encoding (fst l) (snd l) = Inr e" "leaf_encoding (fst m) (snd m) = Inr e"
    "rmap (\<lambda>(tag, h_i). leaf_encoding tag h_i) ls = Inr es" "rmap (\<lambda>(tag, h_i). leaf_encoding tag h_i) ms' = Inr es"
    by (auto simp: rbind_eq_Inr split: prod.splits)
  with Cons.IH [of es ms'] leaf_encoding_inject m show ?case by (metis prod_eqI)
qed

text \<open>receipt root binds leaves. Binding of the receipt root: two leaf sets of the same size
  with the same \<open>H_r\<close> are the same set of (tag, hash) pairs, or two of the byte strings hashed on the
  way to the two roots collide under SHA-256.\<close>

theorem receipt_root_binds_leaves:
  assumes "compute_H_r ls = Inr h" "compute_H_r ms = Inr h" "length ls = length ms"
  shows "set ls = set ms \<or>
    collision_between (root_inputs (encoded_leaves ls)) (root_inputs (encoded_leaves ms))"
proof -
  obtain e1 r1 where e1: "rmap (\<lambda>(tag, h_i). leaf_encoding tag h_i) (sort_key fst ls) = Inr e1"
    "merkle_level e1 = Inr r1" "h = sha256 (DS_R @ utf8 ID_ROOT @ r1)" "length e1 = length ls"
    using compute_H_r_Inr [OF assms(1)] by blast
  obtain e2 r2 where e2: "rmap (\<lambda>(tag, h_i). leaf_encoding tag h_i) (sort_key fst ms) = Inr e2"
    "merkle_level e2 = Inr r2" "h = sha256 (DS_R @ utf8 ID_ROOT @ r2)" "length e2 = length ms"
    using compute_H_r_Inr [OF assms(2)] by blast
  have ri: "root_inputs (encoded_leaves ls) = (DS_R @ utf8 ID_ROOT @ r1) # tree_inputs e1"
    "root_inputs (encoded_leaves ms) = (DS_R @ utf8 ID_ROOT @ r2) # tree_inputs e2"
    using e1 e2 by (simp_all add: root_inputs_def encoded_leaves_def)
  show ?thesis
  proof (cases "r1 = r2")
    case True
    have "e1 = e2 \<or> collision_between (tree_inputs e1) (tree_inputs e2)"
      by (rule merkle_level_inject [OF _ encoded_lengths encoded_lengths])
        (use e1 e2 assms(3) True in auto)
    then show ?thesis
    proof
      assume "e1 = e2"
      then have "sort_key fst ls = sort_key fst ms" using encoded_inject e1 e2 by blast
      then show ?thesis by (metis set_sort)
    qed (auto simp: ri)
  next
    case False
    then have "collide (DS_R @ utf8 ID_ROOT @ r1) (DS_R @ utf8 ID_ROOT @ r2)"
      using e1(3) e2(3) by (simp add: collide_def)
    then show ?thesis unfolding ri by (meson collision_betweenI list.set_intros(1))
  qed
qed

theorem receipt_root_binds_leaves_witness:
  "set sample_leaves = set (rev sample_leaves) \<or>
    collision_between (root_inputs (encoded_leaves sample_leaves)) (root_inputs (encoded_leaves (rev sample_leaves)))"
proof -
  obtain h where h: "compute_H_r sample_leaves = Inr h" using sample_leaves_root by blast
  moreover have "compute_H_r (rev sample_leaves) = compute_H_r sample_leaves"
    by (simp add: compute_H_r_def Let_def sample_leaves_def)
  ultimately show ?thesis using receipt_root_binds_leaves [of sample_leaves h "rev sample_leaves"] by simp
qed

text \<open>receipt root order independent. The receipt root is a function of the set of leaves: any two
  orders of the same leaves give the same \<open>H_r\<close>, or the same rejection.\<close>

theorem receipt_root_order_independent:
  assumes "mset ls = mset ms"
  shows "compute_H_r ls = compute_H_r ms"
proof (cases "distinct (map fst ls)")
  case True
  then have "inj_on fst (set ls)" by (simp add: distinct_map)
  then have "sort_key fst ls = sort_key fst ms"
    by (rule sort_key_inj_key_eq [rotated]) (simp_all add: assms)
  then show ?thesis by (simp add: compute_H_r_def)
next
  case False
  have s: "set ls = set ms" and l: "length ls = length ms"
    using assms by (metis mset_eq_setD, metis mset_eq_length)
  have c: "card (fst ` set ls) \<noteq> length ls" using False card_distinct [of "map fst ls"] by auto
  then show ?thesis using s l by (simp add: compute_H_r_def Let_def)
qed

theorem receipt_root_order_independent_witness:
  "compute_H_r sample_leaves = compute_H_r (rev sample_leaves)"
  by (rule receipt_root_order_independent) simp

subsection \<open>The minimality gate decides its specification\<close>

definition redundancy_registered ::
  "(string \<rightharpoonup> string set) \<Rightarrow> (string \<rightharpoonup> string \<times> string) \<Rightarrow> string \<Rightarrow> string \<Rightarrow> bool" where
  \<comment> \<open>the pair (\<open>L_i\<close>, \<open>L_j\<close>) is no redundancy, or a registered one\<close>
  "redundancy_registered doms registry L_i L_j \<longleftrightarrow>
     (L_i \<noteq> L_j \<and> the (doms L_i) \<subseteq> the (doms L_j) \<longrightarrow> (\<exists>threat. registry L_i = Some (L_j, threat)))"

lemma minimality_inner_None:
  "minimality_inner doms registry i ls = None \<longleftrightarrow> list_all (redundancy_registered doms registry i) ls"
  by (induction ls) (auto simp: redundancy_registered_def split: option.splits)

lemma minimality_outer_None:
  "minimality_outer doms registry present ls = None \<longleftrightarrow>
     (\<forall>i \<in> set ls. list_all (redundancy_registered doms registry i) present)"
  by (induction ls) (auto simp flip: minimality_inner_None split: option.splits)

text \<open>minimality gate spec. The commitment minimality gate decides its documented predicate: it
  accepts exactly when every present leaf has a declared domain and every pair of distinct leaves
  whose domains are included in one another is registered with that carrier; so its verdict does not
  depend on the order in which the set is iterated.\<close>

theorem minimality_gate_spec:
  "fst (commitment_minimality_gate present (Some doms) (Some registry)) \<longleftrightarrow>
     set present \<subseteq> dom doms \<and>
     (\<forall>i \<in> set present. \<forall>j \<in> set present. redundancy_registered doms registry i j)"
proof (cases "filter (\<lambda>l. doms l = None) present = []")
  case True
  then have "set present \<subseteq> dom doms" by (auto simp: filter_empty_conv dom_def)
  moreover have "fst (commitment_minimality_gate present (Some doms) (Some registry)) \<longleftrightarrow>
      minimality_outer doms registry present present = None"
    using True by (simp add: commitment_minimality_gate_def Let_def split: option.splits)
  ultimately show ?thesis by (simp add: minimality_outer_None list_all_iff)
next
  case False
  then have "\<not> set present \<subseteq> dom doms" by (auto simp: filter_empty_conv dom_def)
  with False show ?thesis by (simp add: commitment_minimality_gate_def Let_def)
qed

lemma minimality_gate_accepts:
  "fst (commitment_minimality_gate present d r) \<Longrightarrow> commitment_minimality_gate present d r = (True, None)"
  by (auto simp: commitment_minimality_gate_def Let_def split: if_splits option.splits)

theorem minimality_gate_spec_witness:
  "fst (commitment_minimality_gate [''a'', ''b''] (Some [''a'' \<mapsto> {''x''}, ''b'' \<mapsto> {''x'', ''y''}]) (Some [''a'' \<mapsto> (''b'', ''t'')])) \<and>
   \<not> fst (commitment_minimality_gate [''a'', ''b''] (Some [''a'' \<mapsto> {''x''}, ''b'' \<mapsto> {''x'', ''y''}]) (Some Map.empty))"
  unfolding minimality_gate_spec by (simp add: redundancy_registered_def)

text \<open>constitutional leaves minimal. Under the constitutional tables, every subset of the seven
  receipt leaves passes the gate, in every iteration order: the three context pins are the only
  redundancies and each is registered with the carrier that contains it.\<close>

theorem constitutional_leaves_minimal:
  assumes "set present \<subseteq> {''H_s'', ''H_c'', ''H_m'', ''H_j'', ''id_P'', ''id_Sigma'', ''id_Phi''}"
  shows "commitment_minimality_gate present None None = (True, None)"
proof -
  let ?all = "[''H_s'', ''H_c'', ''H_m'', ''H_j'', ''id_P'', ''id_Sigma'', ''id_Phi'']"
  have "list_all (\<lambda>i. list_all (redundancy_registered CANONICALIZATION_DOMAINS PRINCIPLED_REDUNDANCY_REGISTRY i) ?all) ?all"
    by (simp add: redundancy_registered_def CANONICALIZATION_DOMAINS_def PRINCIPLED_REDUNDANCY_REGISTRY_def)
  then have "\<forall>i \<in> set ?all. \<forall>j \<in> set ?all.
      redundancy_registered CANONICALIZATION_DOMAINS PRINCIPLED_REDUNDANCY_REGISTRY i j"
    unfolding list_all_iff .
  moreover have "set present \<subseteq> set ?all" using assms by simp
  moreover have "set ?all \<subseteq> dom CANONICALIZATION_DOMAINS"
    by (simp add: CANONICALIZATION_DOMAINS_def dom_def)
  ultimately have "fst (commitment_minimality_gate present (Some CANONICALIZATION_DOMAINS) (Some PRINCIPLED_REDUNDANCY_REGISTRY))"
    unfolding minimality_gate_spec by blast
  then have "fst (commitment_minimality_gate present None None)" by (simp add: commitment_minimality_gate_def)
  then show ?thesis by (rule minimality_gate_accepts)
qed

theorem constitutional_leaves_minimal_witness:
  "commitment_minimality_gate [''id_P'', ''H_c'', ''H_s''] None None = (True, None)"
  by (rule constitutional_leaves_minimal) simp

text \<open>freshness window. The freshness check accepts exactly the epochs of the closed window in
  the claim's own phase, and each rejection names the first boundary that fails.\<close>

theorem freshness_window:
  "(freshness_check claim now ph = (True, None) \<longleftrightarrow>
     fd_phase_code claim = ph \<and> fd_valid_from claim \<le> now \<and> now \<le> fd_valid_until claim) \<and>
   (fst (freshness_check claim now ph) \<longleftrightarrow> snd (freshness_check claim now ph) = None)"
  by (auto simp: freshness_check_def)

subsection \<open>Proof targets need a size check\<close>

text \<open>inclusion accepts inner node. The verifier does not check that its target is a leaf
  encoding: for every root over four leaves, the digest of the inner node over the first two
  is accepted as the target of a one-step path, although it has 32 bytes and so is no leaf encoding.\<close>

theorem inclusion_accepts_inner_node:
  assumes "compute_H_r [(1, a), (2, b), (3, c), (4, d)] = Inr h"
  shows "\<exists>target path. verify_inclusion_proof h target path \<and> length target = 32 \<and>
    (\<forall>t h_i. leaf_encoding t h_i \<noteq> Inr target)"
proof -
  obtain encs root where e: "rmap (\<lambda>(tag, h_i). leaf_encoding tag h_i) [(1, a), (2, b), (3, c), (4, d)] = Inr encs"
    "merkle_level encs = Inr root" "h = sha256 (DS_R @ utf8 ID_ROOT @ root)"
    using compute_H_r_Inr [OF assms] by (simp add: sort_key_def) blast
  have "length encs = 4" using e(1) by (auto simp: rmap_eq_Inr simp del: rmap.simps dest!: list_all2_lengthD)
  then obtain x y z w where "encs = [x, y, z, w]" by (auto simp: numeral_eq_Suc length_Suc_conv)
  then have "root = node_hash (node_hash x y) (node_hash z w)" using e(2) by (simp add: merkle_level_step)
  then have "verify_inclusion_proof h (node_hash x y) [(node_hash z w, SideR)]"
    using e(3) by (simp add: verify_inclusion_proof_def)
  moreover have "leaf_encoding t h_i \<noteq> Inr (node_hash x y)" for t h_i
    using length_leaf_encoding [of t h_i "node_hash x y"] by auto
  ultimately show ?thesis by (meson length_node_hash)
qed

theorem inclusion_accepts_inner_node_witness:
  "\<exists>h target path. compute_H_r [(1, replicate 32 0), (2, replicate 32 1), (3, replicate 32 2), (4, replicate 32 3)] = Inr h \<and>
    verify_inclusion_proof h target path \<and> length target = 32"
proof -
  obtain h where h: "compute_H_r [(1, replicate 32 0), (2, replicate 32 1), (3, replicate 32 2), (4, replicate 32 3)] = Inr h"
    using compute_H_r_ok [of "[(1, replicate 32 0), (2, replicate 32 1), (3, replicate 32 2), (4, replicate 32 3)]"]
    by (auto simp: tag_defs)
  from inclusion_accepts_inner_node [OF h] h show ?thesis by blast
qed

end
