(* ===== verification/Artifacts.thy ===== *)
theory Artifacts
  imports Ed25519 Binding_M2
begin

text \<open>
  The signed and hashed governance artifacts a receipt commits to:
  \<^verbatim>\<open>ugk/freshness.py\<close> (epoch issuance and retirement, freshness claims),
  \<^verbatim>\<open>ugk/governance/policy.py\<close> (policies and the per-jurisdiction cache),
  \<^verbatim>\<open>ugk/authority/authority_keys.py\<close> (key identifiers), \<^verbatim>\<open>ugk/lineage.py\<close> and
  \<^verbatim>\<open>ugk/namespace.py\<close>. Two interfaces are stated as locales: \<open>content_addressed\<close> (an
  identifier that is the hash of an injective encoding) and \<open>lazy_cache\<close> (a lookup that
  derives a value once and then repeats it), each interpreted on the artifacts.
\<close>

subsection \<open>Objects with a fixed set of keys\<close>

lemma canon_obj_inject:
  assumes "canon (JObj (zip ks vs)) = canon (JObj (zip ks ws))"
    and "distinct ks" "length vs = length ks" "length ws = length ks"
  shows "map norm_json vs = map norm_json ws"
  using assms by (simp only: canon_eq_iff) (rule norm_zip_inject)

definition jstrs :: "string list \<Rightarrow> json" where
  "jstrs xs = JList (map JStr xs)"

lemma norm_jstrs [simp]: "norm_json (jstrs xs) = jstrs xs"
  by (simp add: jstrs_def)

lemma jstrs_inject [simp]: "jstrs xs = jstrs ys \<longleftrightarrow> xs = ys"
  by (auto simp: jstrs_def inj_map_eq_map inj_def)

subsection \<open>Content-addressed artifacts\<close>

locale content_addressed =
  fixes enc :: "'a \<Rightarrow> bytes" and ident :: "'a \<Rightarrow> string"
  assumes ident_hash: "ident x = to_hex (sha256 (enc x))"
    and enc_inject: "enc x = enc y \<Longrightarrow> x = y"
begin

lemma ident_binds: "ident x = ident y \<Longrightarrow> x = y \<or> collide (enc x) (enc y)"
  using enc_inject by (auto simp: ident_hash dest: sha256_eq_cases)

lemma length_ident: "length (ident x) = 64"
  by (simp add: ident_hash)

lemma tamper_changes_ident: "x \<noteq> y \<Longrightarrow> \<not> collide (enc x) (enc y) \<Longrightarrow> ident x \<noteq> ident y"
  using ident_binds by blast

end

subsection \<open>Lazily filled caches\<close>

locale lazy_cache =
  fixes lookup :: "'c \<Rightarrow> string \<Rightarrow> (pyexc, 'v \<times> 'c) result"
    and get :: "'c \<Rightarrow> string \<Rightarrow> 'v option"
    and derive :: "string \<Rightarrow> 'v"
  assumes hit: "get c k = Some v \<Longrightarrow> lookup c k = Inr (v, c)"
    and miss: "get c k = None \<Longrightarrow> \<exists>c'. lookup c k = Inr (derive k, c') \<and> get c' = (get c)(k \<mapsto> derive k)"
begin

definition value_of :: "'c \<Rightarrow> string \<Rightarrow> 'v" where
  "value_of c k = (case get c k of Some v \<Rightarrow> v | None \<Rightarrow> derive k)"

lemma lookup_value: "\<exists>c'. lookup c k = Inr (value_of c k, c') \<and> value_of c' = value_of c"
proof (cases "get c k")
  case None
  then obtain c' where "lookup c k = Inr (derive k, c')" "get c' = (get c)(k \<mapsto> derive k)"
    using miss by blast
  then show ?thesis using None by (auto simp: value_of_def fun_eq_iff)
next
  case (Some v)
  then show ?thesis using hit [OF Some] by (auto simp: value_of_def)
qed

fun lookups :: "'c \<Rightarrow> string list \<Rightarrow> (pyexc, 'c) result" where
  "lookups c [] = Inr c"
| "lookups c (k # ks) = rbind (lookup c k) (\<lambda>(_, c'). lookups c' ks)"

lemma lookups_value: "\<exists>c'. lookups c ks = Inr c' \<and> value_of c' = value_of c"
proof (induction ks arbitrary: c)
  case (Cons k ks)
  obtain c1 where c1: "lookup c k = Inr (value_of c k, c1)" "value_of c1 = value_of c"
    using lookup_value by blast
  with Cons [of c1] show ?case by auto
qed simp

lemma lookup_stable:
  "lookups c ks = Inr c' \<Longrightarrow> \<exists>c'' c3. lookup c' k = Inr (value_of c k, c'') \<and> lookup c k = Inr (value_of c k, c3)"
  using lookups_value [of c ks] lookup_value [of c' k] lookup_value [of c k] by auto

end

subsection \<open>Epoch issuance and retirement\<close>

record epoch_issuance =
  ei_phase_id :: string
  ei_epoch_counter :: int
  ei_valid_from :: int
  ei_valid_until :: int
  ei_issuer_key_id :: string
  ei_signature :: string

definition issuance_payload :: "string \<Rightarrow> int \<Rightarrow> int \<Rightarrow> int \<Rightarrow> string \<Rightarrow> bytes" where
  "issuance_payload phase_id epoch_counter valid_from valid_until issuer_key_id = canon (JObj
     [(''phase_id'', JStr phase_id),
      (''epoch_counter'', JInt epoch_counter),
      (''valid_from'', JInt valid_from),
      (''valid_until'', JInt valid_until),
      (''issuer_key_id'', JStr issuer_key_id)])"

definition ei_unsigned_payload :: "epoch_issuance \<Rightarrow> bytes" where
  "ei_unsigned_payload ei = issuance_payload (ei_phase_id ei) (ei_epoch_counter ei)
     (ei_valid_from ei) (ei_valid_until ei) (ei_issuer_key_id ei)"

definition ei_asdict :: "epoch_issuance \<Rightarrow> json" where
  "ei_asdict ei = JObj
     [(''phase_id'', JStr (ei_phase_id ei)),
      (''epoch_counter'', JInt (ei_epoch_counter ei)),
      (''valid_from'', JInt (ei_valid_from ei)),
      (''valid_until'', JInt (ei_valid_until ei)),
      (''issuer_key_id'', JStr (ei_issuer_key_id ei)),
      (''signature'', JStr (ei_signature ei))]"

definition id_epoch_issuance :: "epoch_issuance \<Rightarrow> string" where
  "id_epoch_issuance ei = to_hex (sha256 (canon (ei_asdict ei)))"

definition sign_epoch_issuance ::
  "string \<Rightarrow> int \<Rightarrow> int \<Rightarrow> int \<Rightarrow> string \<Rightarrow> string \<Rightarrow> (pyexc, epoch_issuance) result" where
  "sign_epoch_issuance phase_id epoch_counter valid_from valid_until issuer_key_id signer_privkey_hex =
     rbind (ed25519_sign
         (issuance_payload phase_id epoch_counter valid_from valid_until issuer_key_id) signer_privkey_hex)
       (\<lambda>sig. Inr \<lparr>ei_phase_id = phase_id, ei_epoch_counter = epoch_counter, ei_valid_from = valid_from,
          ei_valid_until = valid_until, ei_issuer_key_id = issuer_key_id, ei_signature = sig\<rparr>)"

datatype error_code =
    PhaseMismatchCode | NotYetAdmissibleCode | ExpiredEdgeCode | IssuerMismatch | SignatureInvalid
  | NoCanonicalPath | CapabilityEscalation | NamespaceNonMember

definition signature_verdict :: "bool \<Rightarrow> bool \<times> error_code option" where
  "signature_verdict ok = (ok, if ok then None else Some SignatureInvalid)"

definition verify_epoch_issuance :: "epoch_issuance \<Rightarrow> string \<Rightarrow> bool \<times> error_code option" where
  "verify_epoch_issuance ei governor_pubkey_hex =
     (if ei_issuer_key_id ei \<noteq> governor_pubkey_hex then (False, Some IssuerMismatch)
      else signature_verdict (ed25519_verify (ei_unsigned_payload ei) (ei_signature ei) governor_pubkey_hex))"

record epoch_retirement =
  er_phase_id :: string
  er_retired_epoch :: int
  er_retirement_time :: int
  er_issuer_key_id :: string
  er_signature :: string

definition retirement_payload :: "string \<Rightarrow> int \<Rightarrow> int \<Rightarrow> string \<Rightarrow> bytes" where
  "retirement_payload phase_id retired_epoch retirement_time issuer_key_id = canon (JObj
     [(''phase_id'', JStr phase_id),
      (''retired_epoch'', JInt retired_epoch),
      (''retirement_time'', JInt retirement_time),
      (''issuer_key_id'', JStr issuer_key_id)])"

definition er_unsigned_payload :: "epoch_retirement \<Rightarrow> bytes" where
  "er_unsigned_payload er = retirement_payload (er_phase_id er) (er_retired_epoch er)
     (er_retirement_time er) (er_issuer_key_id er)"

definition er_asdict :: "epoch_retirement \<Rightarrow> json" where
  "er_asdict er = JObj
     [(''phase_id'', JStr (er_phase_id er)),
      (''retired_epoch'', JInt (er_retired_epoch er)),
      (''retirement_time'', JInt (er_retirement_time er)),
      (''issuer_key_id'', JStr (er_issuer_key_id er)),
      (''signature'', JStr (er_signature er))]"

definition id_epoch_retirement :: "epoch_retirement \<Rightarrow> string" where
  "id_epoch_retirement er = to_hex (sha256 (canon (er_asdict er)))"

definition sign_epoch_retirement ::
  "string \<Rightarrow> int \<Rightarrow> int \<Rightarrow> string \<Rightarrow> string \<Rightarrow> (pyexc, epoch_retirement) result" where
  "sign_epoch_retirement phase_id retired_epoch retirement_time issuer_key_id signer_privkey_hex =
     rbind (ed25519_sign
         (retirement_payload phase_id retired_epoch retirement_time issuer_key_id) signer_privkey_hex)
       (\<lambda>sig. Inr \<lparr>er_phase_id = phase_id, er_retired_epoch = retired_epoch,
          er_retirement_time = retirement_time, er_issuer_key_id = issuer_key_id, er_signature = sig\<rparr>)"

definition verify_epoch_retirement :: "epoch_retirement \<Rightarrow> string \<Rightarrow> bool \<times> error_code option" where
  "verify_epoch_retirement er governor_pubkey_hex =
     (if er_issuer_key_id er \<noteq> governor_pubkey_hex then (False, Some IssuerMismatch)
      else signature_verdict (ed25519_verify (er_unsigned_payload er) (er_signature er) governor_pubkey_hex))"

subsection \<open>Freshness claims\<close>

record freshness_claim =
  fc_phase_code :: string
  fc_epoch_counter :: int
  fc_valid_from :: int
  fc_valid_until :: int
  fc_window_sig :: string
  fc_issuer_key_id :: string

definition build_freshness_claim_from_epoch :: "epoch_issuance \<Rightarrow> freshness_claim" where
  "build_freshness_claim_from_epoch ei =
     \<lparr>fc_phase_code = ei_phase_id ei, fc_epoch_counter = ei_epoch_counter ei,
      fc_valid_from = ei_valid_from ei, fc_valid_until = ei_valid_until ei,
      fc_window_sig = ei_signature ei, fc_issuer_key_id = ei_issuer_key_id ei\<rparr>"

definition claim_dict :: "freshness_claim \<Rightarrow> json" where
  "claim_dict fc = JObj
     [(''phase_code'', JStr (fc_phase_code fc)),
      (''epoch_counter'', JInt (fc_epoch_counter fc)),
      (''valid_from'', JInt (fc_valid_from fc)),
      (''valid_until'', JInt (fc_valid_until fc)),
      (''window_sig'', JStr (fc_window_sig fc)),
      (''issuer_key_id'', JStr (fc_issuer_key_id fc))]"

definition verify_freshness_claim ::
  "freshness_claim \<Rightarrow> int \<Rightarrow> string \<Rightarrow> string \<Rightarrow> bool \<times> error_code option" where
  "verify_freshness_claim fc current_epoch current_phase_id governor_pubkey_hex =
     (if fc_phase_code fc \<noteq> current_phase_id then (False, Some PhaseMismatchCode)
      else if current_epoch < fc_valid_from fc then (False, Some NotYetAdmissibleCode)
      else if current_epoch > fc_valid_until fc then (False, Some ExpiredEdgeCode)
      else if fc_issuer_key_id fc \<noteq> governor_pubkey_hex then (False, Some IssuerMismatch)
      else signature_verdict (ed25519_verify
        (issuance_payload (fc_phase_code fc) (fc_epoch_counter fc) (fc_valid_from fc)
          (fc_valid_until fc) (fc_issuer_key_id fc)) (fc_window_sig fc) governor_pubkey_hex))"

definition DEFAULT_TEST_PRIVKEY_HEX :: string where
  "DEFAULT_TEST_PRIVKEY_HEX = ''78bb6a76a7b369ce5e4e0d607c9add1f407f9a501e3985eddafe772b21e056e1''"

definition DEFAULT_TEST_PUBKEY_HEX :: string where
  "DEFAULT_TEST_PUBKEY_HEX = ''eb4bba3338cd3e2f4483ed4311e1fa24f7b86f2a0070b5b695534e13b85bc040''"

definition default_epoch :: "string \<Rightarrow> (pyexc, epoch_issuance) result" where
  "default_epoch phase_id = sign_epoch_issuance phase_id 0 0 (2 ^ 63 - 1)
     DEFAULT_TEST_PUBKEY_HEX DEFAULT_TEST_PRIVKEY_HEX"

subsection \<open>Policies\<close>

record policy =
  pol_subjects :: "string list"
  pol_decision_rules :: "string list"
  pol_version :: string
  pol_issuer_key_id :: string
  pol_signature :: string

definition policy_payload :: "string list \<Rightarrow> string list \<Rightarrow> string \<Rightarrow> string \<Rightarrow> bytes" where
  "policy_payload subjects decision_rules version issuer_key_id = canon (JObj
     [(''subjects'', jstrs subjects),
      (''decision_rules'', jstrs decision_rules),
      (''version'', JStr version),
      (''issuer_key_id'', JStr issuer_key_id)])"

definition pol_unsigned_payload :: "policy \<Rightarrow> bytes" where
  "pol_unsigned_payload p =
     policy_payload (pol_subjects p) (pol_decision_rules p) (pol_version p) (pol_issuer_key_id p)"

definition pol_to_canonical_dict :: "policy \<Rightarrow> json" where
  "pol_to_canonical_dict p = JObj
     [(''subjects'', jstrs (pol_subjects p)),
      (''decision_rules'', jstrs (pol_decision_rules p)),
      (''version'', JStr (pol_version p)),
      (''issuer_key_id'', JStr (pol_issuer_key_id p)),
      (''signature'', JStr (pol_signature p))]"

definition id_policy :: "policy \<Rightarrow> string" where
  "id_policy p = to_hex (sha256 (canon (pol_to_canonical_dict p)))"

definition sign_policy ::
  "string list \<Rightarrow> string list \<Rightarrow> string \<Rightarrow> string \<Rightarrow> string \<Rightarrow> (pyexc, policy) result" where
  "sign_policy subjects decision_rules version issuer_key_id signer_privkey_hex =
     rbind (ed25519_sign (policy_payload subjects decision_rules version issuer_key_id) signer_privkey_hex)
       (\<lambda>sig. Inr \<lparr>pol_subjects = subjects, pol_decision_rules = decision_rules, pol_version = version,
          pol_issuer_key_id = issuer_key_id, pol_signature = sig\<rparr>)"

definition verify_policy :: "policy \<Rightarrow> string \<Rightarrow> bool \<times> error_code option" where
  "verify_policy p governor_pubkey_hex =
     (if pol_issuer_key_id p \<noteq> governor_pubkey_hex then (False, Some IssuerMismatch)
      else signature_verdict (ed25519_verify (pol_unsigned_payload p) (pol_signature p) governor_pubkey_hex))"

type_synonym policy_cache = "string \<rightharpoonup> policy"

definition default_policy_for :: "string \<Rightarrow> (pyexc, policy) result" where
  "default_policy_for jurisdiction =
     sign_policy [''jurisdiction:'' @ jurisdiction] [''default-allow''] ''v1''
       DEFAULT_TEST_PUBKEY_HEX DEFAULT_TEST_PRIVKEY_HEX"

definition lookup_policy :: "policy_cache \<Rightarrow> string \<Rightarrow> (pyexc, policy \<times> policy_cache) result" where
  "lookup_policy cache jurisdiction = (case cache jurisdiction of
     Some p \<Rightarrow> Inr (p, cache)
   | None \<Rightarrow> rbind (default_policy_for jurisdiction) (\<lambda>p. Inr (p, cache(jurisdiction \<mapsto> p))))"

definition lookup_policy_id :: "policy_cache \<Rightarrow> string \<Rightarrow> (pyexc, string \<times> policy_cache) result" where
  "lookup_policy_id cache jurisdiction =
     rbind (lookup_policy cache jurisdiction) (\<lambda>(p, c). Inr (id_policy p, c))"

definition register_policy :: "policy_cache \<Rightarrow> string \<Rightarrow> policy \<Rightarrow> policy_cache" where
  "register_policy cache jurisdiction p = cache(jurisdiction \<mapsto> p)"

definition clear_policy_cache :: "policy_cache \<Rightarrow> policy_cache" where
  "clear_policy_cache cache = Map.empty"

subsection \<open>Authority key identifiers\<close>

definition AUTHORITY_KEY_ID_DS :: bytes where
  "AUTHORITY_KEY_ID_DS = utf8 ''UGK-authority-key-id-v1''"

type_synonym key_cache = "string \<rightharpoonup> string"

definition derive_authority_key_id :: "string \<Rightarrow> string" where
  "derive_authority_key_id authority_name = to_hex (sha256 (AUTHORITY_KEY_ID_DS @ utf8 authority_name))"

definition lookup_authority_key :: "key_cache \<Rightarrow> string \<Rightarrow> string \<times> key_cache" where
  "lookup_authority_key cache authority_name = (case cache authority_name of
     Some k \<Rightarrow> (k, cache)
   | None \<Rightarrow> let k = derive_authority_key_id authority_name in (k, cache(authority_name \<mapsto> k)))"

definition register_authority_key :: "key_cache \<Rightarrow> string \<Rightarrow> string \<Rightarrow> key_cache" where
  "register_authority_key cache authority_name key_id = cache(authority_name \<mapsto> key_id)"

definition clear_authority_key_cache :: "key_cache \<Rightarrow> key_cache" where
  "clear_authority_key_cache cache = Map.empty"

definition get_registered_authority_key :: "key_cache \<Rightarrow> string \<Rightarrow> string option" where
  "get_registered_authority_key cache authority_name = cache authority_name"

subsection \<open>Semantic lineage\<close>

record lineage_edge =
  le_parent_h_m :: string
  le_parent_intent_ref :: string
  le_edge_position :: int

definition lineage_to_canonical_dict :: "lineage_edge \<Rightarrow> json" where
  "lineage_to_canonical_dict e = JObj
     [(''parent_h_m'', JStr (le_parent_h_m e)),
      (''parent_intent_ref'', JStr (le_parent_intent_ref e)),
      (''edge_position'', JInt (le_edge_position e))]"

definition build_lineage :: "string option \<Rightarrow> string option \<Rightarrow> lineage_edge list" where
  "build_lineage parent_h_m parent_intent_ref = (case parent_h_m of
     None \<Rightarrow> []
   | Some h \<Rightarrow> [\<lparr>le_parent_h_m = h, le_parent_intent_ref = or_else parent_intent_ref [], le_edge_position = 0\<rparr>])"

definition lineage_as_dicts :: "lineage_edge list \<Rightarrow> json" where
  "lineage_as_dicts lineage = JList (map lineage_to_canonical_dict lineage)"

subsection \<open>Namespace\<close>

definition NAMESPACE_PHI_0 :: "string list" where
  "NAMESPACE_PHI_0 =
     [''op:policy_evaluate'', ''op:audit'', ''op:attest'', ''op:bind'', ''op:evaluate'',
      ''authority:Governor'', ''phase:phi_0'']"

definition compute_mosaic_root :: "string list \<Rightarrow> string" where
  "compute_mosaic_root namespace =
     (let sorted_names = sort (remdups namespace) in to_hex (sha256 (canon (jstrs sorted_names))))"

definition MOSAIC_ROOT_PHI_0 :: string where
  "MOSAIC_ROOT_PHI_0 = compute_mosaic_root NAMESPACE_PHI_0"

definition is_member :: "string \<Rightarrow> string list option \<Rightarrow> bool" where
  "is_member name_key namespace =
     (name_key \<in> set (case namespace of None \<Rightarrow> NAMESPACE_PHI_0 | Some ns \<Rightarrow> ns))"

fun all_members :: "string list \<Rightarrow> string list \<Rightarrow> bool \<times> error_code option" where
  \<comment> \<open>the loop of \<open>validate_name_keys\<close>\<close>
  "all_members ns [] = (True, None)"
| "all_members ns (key # keys) =
     (if key \<notin> set ns then (False, Some NamespaceNonMember) else all_members ns keys)"

definition validate_name_keys :: "string list \<Rightarrow> string list option \<Rightarrow> bool \<times> error_code option" where
  "validate_name_keys name_keys namespace =
     all_members (case namespace of None \<Rightarrow> NAMESPACE_PHI_0 | Some ns \<Rightarrow> ns) name_keys"

subsection \<open>Identities of the artifacts\<close>

lemma ei_asdict_inject: "canon (ei_asdict x) = canon (ei_asdict y) \<Longrightarrow> x = y"
  using canon_obj_inject [of "[''phase_id'', ''epoch_counter'', ''valid_from'', ''valid_until'', ''issuer_key_id'', ''signature'']"
      "[JStr (ei_phase_id x), JInt (ei_epoch_counter x), JInt (ei_valid_from x), JInt (ei_valid_until x), JStr (ei_issuer_key_id x), JStr (ei_signature x)]"
      "[JStr (ei_phase_id y), JInt (ei_epoch_counter y), JInt (ei_valid_from y), JInt (ei_valid_until y), JStr (ei_issuer_key_id y), JStr (ei_signature y)]"]
  by (simp add: ei_asdict_def)

lemma er_asdict_inject: "canon (er_asdict x) = canon (er_asdict y) \<Longrightarrow> x = y"
  using canon_obj_inject [of "[''phase_id'', ''retired_epoch'', ''retirement_time'', ''issuer_key_id'', ''signature'']"
      "[JStr (er_phase_id x), JInt (er_retired_epoch x), JInt (er_retirement_time x), JStr (er_issuer_key_id x), JStr (er_signature x)]"
      "[JStr (er_phase_id y), JInt (er_retired_epoch y), JInt (er_retirement_time y), JStr (er_issuer_key_id y), JStr (er_signature y)]"]
  by (simp add: er_asdict_def)

lemma pol_dict_inject: "canon (pol_to_canonical_dict x) = canon (pol_to_canonical_dict y) \<Longrightarrow> x = y"
  using canon_obj_inject [of "[''subjects'', ''decision_rules'', ''version'', ''issuer_key_id'', ''signature'']"
      "[jstrs (pol_subjects x), jstrs (pol_decision_rules x), JStr (pol_version x), JStr (pol_issuer_key_id x), JStr (pol_signature x)]"
      "[jstrs (pol_subjects y), jstrs (pol_decision_rules y), JStr (pol_version y), JStr (pol_issuer_key_id y), JStr (pol_signature y)]"]
  by (simp add: pol_to_canonical_dict_def)

interpretation epoch_id: content_addressed "\<lambda>ei. canon (ei_asdict ei)" id_epoch_issuance
  by unfold_locales (auto simp: id_epoch_issuance_def dest: ei_asdict_inject)

interpretation retirement_id: content_addressed "\<lambda>er. canon (er_asdict er)" id_epoch_retirement
  by unfold_locales (auto simp: id_epoch_retirement_def dest: er_asdict_inject)

interpretation policy_id: content_addressed "\<lambda>p. canon (pol_to_canonical_dict p)" id_policy
  by unfold_locales (auto simp: id_policy_def dest: pol_dict_inject)

interpretation key_id: content_addressed "\<lambda>n. AUTHORITY_KEY_ID_DS @ utf8 n" derive_authority_key_id
  by unfold_locales (auto simp: derive_authority_key_id_def)

subsection \<open>Default signatures\<close>

lemma default_key_parses: "\<exists>seed. fromhex DEFAULT_TEST_PRIVKEY_HEX = Some seed"
  by (simp add: DEFAULT_TEST_PRIVKEY_HEX_def is_space_def hex_val_def Let_def)

lemma sign_default_ok: "\<exists>s. ed25519_sign m DEFAULT_TEST_PRIVKEY_HEX = Inr s"
  using default_key_parses by (auto simp: ed25519_sign_def Let_def)

definition default_policy :: "string \<Rightarrow> policy" where
  "default_policy j = (case default_policy_for j of Inr p \<Rightarrow> p | Inl _ \<Rightarrow>
     \<lparr>pol_subjects = [], pol_decision_rules = [], pol_version = [], pol_issuer_key_id = [], pol_signature = []\<rparr>)"

lemma default_policy_for_ok: "default_policy_for j = Inr (default_policy j)"
  using sign_default_ok by (auto simp: default_policy_def default_policy_for_def sign_policy_def rbind_def split: sum.splits)
    (metis sum.distinct(1))

interpretation policies: lazy_cache lookup_policy "\<lambda>c. c" default_policy
  by unfold_locales (auto simp: lookup_policy_def default_policy_for_ok)

interpretation keys: lazy_cache "\<lambda>c k. Inr (lookup_authority_key c k)" "\<lambda>c. c" derive_authority_key_id
  by unfold_locales (auto simp: lookup_authority_key_def Let_def)

text \<open>policy lookup stable. Policy lookup is deterministic: whatever other jurisdictions are
  looked up in between (each of which signs and caches a default policy on first use), the policy of
  a jurisdiction stays the one it had, so the \<open>policy_id\<close> committed in receipts does not depend on
  the order of lookups.\<close>

theorem policy_lookup_stable:
  assumes "policies.lookups cache others = Inr cache'"
  shows "\<exists>p c1 c2. lookup_policy cache j = Inr (p, c1) \<and> lookup_policy cache' j = Inr (p, c2)"
  using policies.lookup_stable [OF assms] by blast

theorem policy_lookup_stable_witness:
  "\<exists>cache' p c1 c2. policies.lookups Map.empty [''eu'', ''us''] = Inr cache' \<and>
    lookup_policy Map.empty ''eu'' = Inr (p, c1) \<and> lookup_policy cache' ''eu'' = Inr (p, c2)"
proof -
  obtain c' where "policies.lookups Map.empty [''eu'', ''us''] = Inr c'"
    using policies.lookups_value by blast
  with policy_lookup_stable [OF this, of "''eu''"] show ?thesis by blast
qed

text \<open>policy identity binds. The identity of a policy binds its whole content: two policies with
  the same \<open>id_policy\<close> are equal in every field, or their canonical encodings are a SHA-256
  collision.\<close>

theorem policy_identity_binds:
  assumes "id_policy p = id_policy q"
  shows "p = q \<or> collide (canon (pol_to_canonical_dict p)) (canon (pol_to_canonical_dict q))"
  by (rule policy_id.ident_binds [OF assms])

theorem policy_identity_binds_witness:
  "default_policy ''eu'' = default_policy ''eu'' \<or>
   collide (canon (pol_to_canonical_dict (default_policy ''eu''))) (canon (pol_to_canonical_dict (default_policy ''eu'')))"
  by (rule policy_identity_binds) simp

text \<open>freshness claim refines epoch. Verifying the freshness claim built from an epoch issuance is
  verifying the issuance itself plus the window: it succeeds exactly when the phase is the current one,
  the current epoch lies in the closed window, and the issuance's own Governor signature verifies; so
  no field of the issuance is lost in the claim.\<close>

theorem freshness_claim_refines_epoch:
  "verify_freshness_claim (build_freshness_claim_from_epoch ei) now ph pub = (True, None) \<longleftrightarrow>
     ei_phase_id ei = ph \<and> ei_valid_from ei \<le> now \<and> now \<le> ei_valid_until ei \<and>
     verify_epoch_issuance ei pub = (True, None)"
  by (auto simp: verify_freshness_claim_def build_freshness_claim_from_epoch_def verify_epoch_issuance_def
      ei_unsigned_payload_def)

subsection \<open>Namespace commitment\<close>

lemma validate_all: "validate_name_keys keys (Some ns) = (True, None) \<longleftrightarrow> set keys \<subseteq> set ns"
proof -
  have "all_members ns keys = (True, None) \<longleftrightarrow> set keys \<subseteq> set ns" by (induction keys) auto
  then show ?thesis by (simp add: validate_name_keys_def)
qed

text \<open>mosaic root binds namespace. The mosaic root is a commitment to the namespace as a set:
  listings of the same names in any order and with repetitions have the same root, and two
  namespaces with the same root have the same members or exhibit a SHA-256 collision.\<close>

theorem mosaic_root_binds_namespace:
  "(set ns = set ms \<longrightarrow> compute_mosaic_root ns = compute_mosaic_root ms) \<and>
   (compute_mosaic_root ns = compute_mosaic_root ms \<longrightarrow> set ns = set ms \<or>
     collide (canon (jstrs (sort (remdups ns)))) (canon (jstrs (sort (remdups ms)))))"
proof (intro conjI impI)
  assume "set ns = set ms"
  then have "sort (remdups ns) = sort (remdups ms)"
    by (intro sorted_distinct_set_unique) auto
  then show "compute_mosaic_root ns = compute_mosaic_root ms" by (simp add: compute_mosaic_root_def)
next
  assume "compute_mosaic_root ns = compute_mosaic_root ms"
  then have "canon (jstrs (sort (remdups ns))) = canon (jstrs (sort (remdups ms))) \<or>
      collide (canon (jstrs (sort (remdups ns)))) (canon (jstrs (sort (remdups ms))))"
    by (simp add: compute_mosaic_root_def Let_def sha256_eq_cases)
  then show "set ns = set ms \<or> collide (canon (jstrs (sort (remdups ns)))) (canon (jstrs (sort (remdups ms))))"
    by (auto simp: canon_eq_iff) (metis set_remdups set_sort)+
qed

theorem mosaic_root_binds_namespace_witness:
  "compute_mosaic_root [''b'', ''a'', ''b''] = compute_mosaic_root [''a'', ''b'']"
  using mosaic_root_binds_namespace [of "[''b'', ''a'', ''b'']" "[''a'', ''b'']"] by auto

end
