(* ===== verification/Legend.thy ===== *)
theory Legend
  imports Artifacts
begin

text \<open>
  \<^verbatim>\<open>ugk/storage/binding.py\<close>: the canonical projection vocabulary (the LEGEND table, its
  lookups and hash), the field compression maps and the expansion that reading a row applies,
  and the identity hierarchy (content hash, MosaicID, dimension id, session identity).
  Compression followed by expansion gives every value back, except for values that are
  themselves the decimal text of a legend identifier.
\<close>

subsection \<open>Hashing\<close>

definition canonical_json :: "json \<Rightarrow> bytes" where
  \<comment> \<open>default separators, ASCII only\<close>
  "canonical_json x = utf8 (dumps spaced_ascii x)"

lemma canonical_json_eq_iff: "canonical_json x = canonical_json y \<longleftrightarrow> norm_json x = norm_json y"
  by (simp add: canonical_json_def dumps_eq_iff)

definition digest :: "bytes \<Rightarrow> string \<Rightarrow> (pyexc, string) result" where
  "digest data algorithm_id =
     (if algorithm_id = ''sha256'' then Inr (to_hex (sha256 data)) else Inl ValueError)"

definition content_hash :: "string \<Rightarrow> string \<Rightarrow> (pyexc, string) result" where
  "content_hash data algorithm_id = digest (utf8 data) algorithm_id"

definition commit_bytes :: "bytes \<Rightarrow> string \<Rightarrow> (pyexc, string) result" where
  "commit_bytes canonical_bytes algorithm_id = digest canonical_bytes algorithm_id"

definition state_hash :: "string \<Rightarrow> string \<Rightarrow> string \<Rightarrow> (pyexc, string) result" where
  "state_hash op_name inputs_repr algorithm_id = digest (utf8 (op_name @ ''|'' @ inputs_repr)) algorithm_id"

definition SEP :: bytes where
  \<comment> \<open>the UTF-8 bytes of U+2016\<close>
  "SEP = [0xE2, 0x80, 0x96]"

fun join_sep :: "string list \<Rightarrow> bytes" where
  "join_sep [] = []"
| "join_sep [s] = utf8 s"
| "join_sep (s # ss) = utf8 s @ SEP @ join_sep ss"

record chc_envelope =
  \<comment> \<open>the arguments of \<^verbatim>\<open>dm_s03\<close> after \<^verbatim>\<open>str\<close>\<close>
  ce_state_hash :: string
  ce_parent :: string
  ce_intent :: string
  ce_authority :: string
  ce_jurisdiction :: string
  ce_confidence :: string
  ce_session_id :: string
  ce_agent_id :: string
  ce_ts :: string
  ce_law_hash :: string
  ce_legend_hash :: string
  ce_intent_ref :: string

definition dm_s03 :: "chc_envelope \<Rightarrow> string \<Rightarrow> (pyexc, string) result" where
  "dm_s03 e algorithm_id =
     digest (join_sep (map (\<lambda>f. f e) [ce_state_hash, ce_parent, ce_intent, ce_authority, ce_jurisdiction, ce_confidence,
         ce_session_id, ce_agent_id, ce_ts]
       @ filter (\<lambda>f. f \<noteq> []) [ce_law_hash e, ce_legend_hash e, ce_intent_ref e])) algorithm_id"

subsection \<open>Identity hierarchy\<close>

definition mosaic_id :: "string \<Rightarrow> string \<Rightarrow> (pyexc, string) result" where
  "mosaic_id governor_pubkey algorithm_id = digest (utf8 governor_pubkey) algorithm_id"

definition canonical_dkn :: "string \<Rightarrow> string \<Rightarrow> string \<Rightarrow> (pyexc, string) result" where
  "canonical_dkn phase_code governor_pubkey algorithm_id =
     digest (utf8 phase_code @ SEP @ utf8 governor_pubkey) algorithm_id"

record session_identity =
  si_mosaic_root :: string
  si_phase_code :: string
  si_session_id :: string
  si_session_dkn :: string
  si_lineage :: "string \<times> string"

definition spawn_session_identity ::
  "string \<Rightarrow> string \<Rightarrow> string option \<Rightarrow> string \<Rightarrow> string \<Rightarrow> (pyexc, session_identity) result" where
  \<comment> \<open>\<open>fresh\<close>: the text of the UUID that \<^verbatim>\<open>uuid.uuid4()\<close> would return\<close>
  "spawn_session_identity governor_pubkey phase_code session_id algorithm_id fresh =
     rbind (mosaic_id governor_pubkey algorithm_id) (\<lambda>root.
       let sid = or_else session_id fresh in
       rbind (digest (utf8 (root @ '':'' @ phase_code @ '':'' @ sid)) algorithm_id) (\<lambda>dkn.
         Inr \<lparr>si_mosaic_root = root, si_phase_code = phase_code, si_session_id = sid,
              si_session_dkn = dkn, si_lineage = (root, dkn)\<rparr>))"

subsection \<open>The legend\<close>

record legend_entry =
  csil_id :: int
  slug :: string
  render :: string
  tier :: string

definition legend_entry :: "int \<Rightarrow> string \<Rightarrow> string \<Rightarrow> string \<Rightarrow> legend_entry" where
  "legend_entry i s r t = \<lparr>csil_id = i, slug = s, render = r, tier = t\<rparr>"

definition LEGEND_ENTRIES :: "legend_entry list" where
  "LEGEND_ENTRIES =
    [legend_entry 1001 ''inv-ul-g-01'' ''UL-G-01'' ''invariant'',
     legend_entry 1002 ''inv-ul-s-01'' ''UL-S-01'' ''invariant'',
     legend_entry 1003 ''inv-ul-s-02'' ''UL-S-02'' ''invariant'',
     legend_entry 1004 ''inv-ul-s-03'' ''UL-S-03'' ''invariant'',
     legend_entry 1005 ''inv-ul-s-04'' ''UL-S-04'' ''invariant'',
     legend_entry 1006 ''inv-gk-s-01'' ''GK-S-01'' ''invariant'',
     legend_entry 1007 ''inv-gk-s-02'' ''GK-S-02'' ''invariant'',
     legend_entry 1008 ''inv-cm-gs-01'' ''CM-GS-01'' ''invariant'',
     legend_entry 1009 ''inv-cm-gs-02'' ''CM-GS-02'' ''invariant'',
     legend_entry 1010 ''inv-cm-op-01'' ''CM-OP-01'' ''invariant'',
     legend_entry 1011 ''inv-chc-s-01'' ''CHC-S-01'' ''invariant'',
     legend_entry 1012 ''inv-chc-s-02'' ''CHC-S-02'' ''invariant'',
     legend_entry 1013 ''inv-chc-s-03'' ''CHC-S-03'' ''invariant'',
     legend_entry 1014 ''inv-dm-s-01'' ''DM-S-01'' ''invariant'',
     legend_entry 1015 ''inv-dm-s-03'' ''DM-S-03'' ''invariant'',
     legend_entry 1016 ''inv-cr-s-01'' ''CR-S-01'' ''invariant'',
     legend_entry 1017 ''inv-cr-s-02'' ''CR-S-02'' ''invariant'',
     legend_entry 1018 ''inv-esa-s-01'' ''ESA-S-01'' ''invariant'',
     legend_entry 1019 ''inv-eh-s-01'' ''EH-S-01'' ''invariant'',
     legend_entry 1020 ''inv-eh-s-02'' ''EH-S-02'' ''invariant'',
     legend_entry 1021 ''inv-adv-s-01'' ''ADV-S-01'' ''invariant'',
     legend_entry 1022 ''inv-cm-dim-01'' ''CM-DIM-01'' ''invariant'',
     legend_entry 1023 ''inv-ctr-s-07'' ''CTR-S-07'' ''invariant'',
     legend_entry 1024 ''inv-ctr-s-01'' ''CTR-S-01'' ''invariant'',
     legend_entry 1025 ''inv-srsa-s-01'' ''SRSA-S-01'' ''invariant'',
     legend_entry 1026 ''inv-ul-l-01'' ''UL-L-01'' ''invariant'',
     legend_entry 1027 ''inv-legend-s-01'' ''LEGEND-S-01'' ''invariant'',
     legend_entry 1028 ''inv-legend-s-02'' ''LEGEND-S-02'' ''invariant'',
     legend_entry 1029 ''inv-legend-s-03'' ''LEGEND-S-03'' ''invariant'',
     legend_entry 1030 ''inv-legend-s-04'' ''LEGEND-S-04'' ''invariant'',
     legend_entry 1031 ''inv-dw-s-01'' ''DW-S-01'' ''invariant'',
     legend_entry 1032 ''inv-dw-s-02'' ''DW-S-02'' ''invariant'',
     legend_entry 2001 ''dim-cm-gs-01'' ''CM-GS-01'' ''dimension'',
     legend_entry 2002 ''dim-cm-op-01'' ''CM-OP-01'' ''dimension'',
     legend_entry 2003 ''dim-cm-dm-01'' ''CM-DM-01'' ''dimension'',
     legend_entry 2004 ''dim-cm-dep-01'' ''CM-DEP-01'' ''dimension'',
     legend_entry 2005 ''dim-cm-fm-01'' ''CM-FM-01'' ''dimension'',
     legend_entry 2006 ''dim-cm-st-01'' ''CM-ST-01'' ''dimension'',
     legend_entry 2007 ''dim-cm-br-01'' ''CM-BR-01'' ''dimension'',
     legend_entry 2008 ''dim-cm-sn-01'' ''CM-SN-01'' ''dimension'',
     legend_entry 2009 ''dim-cm-cr-01'' ''CM-CR-01'' ''dimension'',
     legend_entry 2010 ''dim-cm-gk-01'' ''CM-GK-01'' ''dimension'',
     legend_entry 2011 ''dim-cm-vs-01'' ''CM-VS-01'' ''dimension'',
     legend_entry 2012 ''dim-cm-ic-01'' ''CM-IC-01'' ''dimension'',
     legend_entry 3001 ''op-session-open'' ''session_open'' ''op'',
     legend_entry 3002 ''op-session-close'' ''session_close'' ''op'',
     legend_entry 3003 ''op-crp-evidence'' ''crp_evidence'' ''op'',
     legend_entry 3004 ''op-test-checkpoint'' ''test_checkpoint'' ''op'',
     legend_entry 3005 ''op-gate-admit'' ''gate_admit'' ''op'',
     legend_entry 3006 ''op-gate-refuse'' ''gate_refuse'' ''op'',
     legend_entry 3007 ''op-legend-seal'' ''legend_seal'' ''op'',
     legend_entry 3008 ''op-session-summary'' ''session_summary'' ''op'',
     legend_entry 4001 ''intent-orient'' ''orient'' ''vocab'',
     legend_entry 4002 ''intent-synthesize'' ''synthesize'' ''vocab'',
     legend_entry 4003 ''intent-verify'' ''verify'' ''vocab'',
     legend_entry 4004 ''intent-claim'' ''claim'' ''vocab'',
     legend_entry 4005 ''intent-transform'' ''transform'' ''vocab'',
     legend_entry 4006 ''intent-conform'' ''conform'' ''vocab'',
     legend_entry 4007 ''intent-annotate'' ''annotate'' ''vocab'',
     legend_entry 4008 ''intent-observe'' ''observe'' ''vocab'',
     legend_entry 4009 ''intent-resolve'' ''resolve'' ''vocab'',
     legend_entry 4010 ''intent-propose'' ''propose'' ''vocab'',
     legend_entry 4011 ''intent-evaluate'' ''evaluate'' ''vocab'',
     legend_entry 4012 ''intent-classify'' ''classify'' ''vocab'',
     legend_entry 4013 ''intent-derive'' ''derive'' ''vocab'',
     legend_entry 4014 ''intent-compare'' ''compare'' ''vocab'',
     legend_entry 4015 ''intent-define'' ''define'' ''vocab'',
     legend_entry 4016 ''intent-infer'' ''infer'' ''vocab'',
     legend_entry 4017 ''intent-enumerate'' ''enumerate'' ''vocab'',
     legend_entry 4018 ''meta-effective-authority'' ''effective_authority'' ''vocab'',
     legend_entry 4019 ''meta-latent-authority'' ''latent_authority'' ''vocab'',
     legend_entry 4020 ''meta-enabler-orientation'' ''enabler_orientation'' ''vocab'',
     legend_entry 4021 ''meta-phi-scalar'' ''phi_scalar'' ''vocab'',
     legend_entry 4022 ''meta-authority-model'' ''authority_model'' ''vocab'',
     legend_entry 4023 ''meta-constitutive-gate'' ''constitutive_gate'' ''vocab'',
     legend_entry 4024 ''meta-ceremonial-gate'' ''ceremonial_gate'' ''vocab'',
     legend_entry 4025 ''meta-probe-result'' ''constitutive_probe_result'' ''vocab'',
     legend_entry 4026 ''meta-posture-claim'' ''posture_claim'' ''vocab'',
     legend_entry 4027 ''meta-governance-posture'' ''governance_posture'' ''vocab'',
     legend_entry 4028 ''meta-posture-vector'' ''posture_vector'' ''vocab'',
     legend_entry 6001 ''csil-layer'' ''CSIL'' ''meta'',
     legend_entry 6002 ''gti-resolver'' ''GTI'' ''meta'',
     legend_entry 6003 ''csil-coordinate'' ''csil_coordinate'' ''meta'',
     legend_entry 6004 ''coordinate-shadowing'' ''coordinate_shadowing'' ''meta'',
     legend_entry 6005 ''semantic-topology'' ''semantic_topology'' ''meta'',
     legend_entry 6006 ''leg-ex-marker'' ''LEG-EX'' ''meta'',
     legend_entry 4101 ''juris-session'' ''session'' ''vocab'',
     legend_entry 4102 ''juris-corpus'' ''corpus'' ''vocab'',
     legend_entry 4103 ''juris-operator'' ''operator'' ''vocab'',
     legend_entry 4104 ''juris-system'' ''system'' ''vocab'',
     legend_entry 4105 ''juris-kernel'' ''kernel'' ''vocab'',
     legend_entry 4301 ''conf-high'' ''high'' ''vocab'',
     legend_entry 4302 ''conf-medium'' ''medium'' ''vocab'',
     legend_entry 4303 ''conf-low'' ''low'' ''vocab'',
     legend_entry 5001 ''status-uninitialized'' ''UNINITIALIZED'' ''status'',
     legend_entry 5002 ''status-active'' ''ACTIVE'' ''status'',
     legend_entry 9001 ''result-admit'' ''ADMIT'' ''warrant_result'',
     legend_entry 9002 ''result-refuse'' ''REFUSE'' ''warrant_result'',
     legend_entry 9101 ''analysis-auth-sufficient'' ''authority_tier_sufficient'' ''warrant_result'',
     legend_entry 9102 ''analysis-juris-valid'' ''jurisdiction_valid'' ''warrant_result'',
     legend_entry 9103 ''analysis-inv-satisfied'' ''invariant_satisfied'' ''warrant_result'']"

definition LEGEND_BY_ID :: "int \<rightharpoonup> legend_entry" where
  \<comment> \<open>a dict comprehension: a later entry with the same key would win\<close>
  "LEGEND_BY_ID = map_of (rev (map (\<lambda>e. (csil_id e, e)) LEGEND_ENTRIES))"

definition LEGEND_BY_SLUG :: "string \<rightharpoonup> legend_entry" where
  "LEGEND_BY_SLUG = map_of (rev (map (\<lambda>e. (slug e, e)) LEGEND_ENTRIES))"

definition OP_TO_CSIL :: "string \<rightharpoonup> int" where
  "OP_TO_CSIL = map_of (rev (map (\<lambda>e. (render e, csil_id e)) (filter (\<lambda>e. tier e = ''op'') LEGEND_ENTRIES)))"

definition vocab_to_csil :: "string \<Rightarrow> string \<rightharpoonup> int" where
  "vocab_to_csil pre = map_of (rev (map (\<lambda>e. (render e, csil_id e))
     (filter (\<lambda>e. tier e = ''vocab'' \<and> prefix pre (slug e)) LEGEND_ENTRIES)))"

definition INTENT_TO_CSIL :: "string \<rightharpoonup> int" where "INTENT_TO_CSIL = vocab_to_csil ''intent-''"
definition JURIS_TO_CSIL :: "string \<rightharpoonup> int" where "JURIS_TO_CSIL = vocab_to_csil ''juris-''"
definition CONF_TO_CSIL :: "string \<rightharpoonup> int" where "CONF_TO_CSIL = vocab_to_csil ''conf-''"

definition legend_canonical :: bytes where
  "legend_canonical = utf8 (dumps compact_ascii (JList (map (\<lambda>e. JObj
     [(''csil_id'', JInt (csil_id e)), (''slug'', JStr (slug e)), (''render'', JStr (render e)), (''tier'', JStr (tier e))])
     (sort_key csil_id LEGEND_ENTRIES))))"

definition LEGEND_HASH :: string where
  "LEGEND_HASH = to_hex (sha256 legend_canonical)"

subsection \<open>Decimal text\<close>

definition py_space :: "char \<Rightarrow> bool" where
  \<comment> \<open>what \<^verbatim>\<open>str.strip\<close> removes, below U+0100\<close>
  "py_space c \<longleftrightarrow> (let n = (of_char c :: nat) in (9 \<le> n \<and> n \<le> 13) \<or> (28 \<le> n \<and> n \<le> 32) \<or> n = 133 \<or> n = 160)"

definition strip :: "string \<Rightarrow> string" where
  "strip s = rev (dropWhile py_space (rev (dropWhile py_space s)))"

fun int_body :: "nat \<Rightarrow> bool \<Rightarrow> string \<Rightarrow> nat option" where
  \<comment> \<open>digits with single underscores between them; the flag: the last character was a digit\<close>
  "int_body a d [] = (if d then Some a else None)"
| "int_body a d (c # s) =
     (if is_digit c then int_body (10 * a + (of_char c - 48)) True s
      else if c = CHR ''_'' \<and> d then int_body a False s
      else None)"

definition py_int :: "string \<Rightarrow> int option" where
  \<comment> \<open>\<^verbatim>\<open>int(s)\<close>; \<^const>\<open>None\<close> is the \<open>ValueError\<close>\<close>
  "py_int s = (case strip s of
     [] \<Rightarrow> None
   | c # r \<Rightarrow>
       if c = CHR ''-'' then map_option (\<lambda>n. - int n) (int_body 0 False r)
       else if c = CHR ''+'' then map_option int (int_body 0 False r)
       else map_option int (int_body 0 False (c # r)))"

subsection \<open>Compression and expansion\<close>

definition compress_field :: "(string \<rightharpoonup> int) \<Rightarrow> string \<Rightarrow> string" where
  \<comment> \<open>\<^verbatim>\<open>str(FIELD_COMPRESS_MAPS[f].get(v, v))\<close>\<close>
  "compress_field m v = (case m v of Some i \<Rightarrow> show_int i | None \<Rightarrow> v)"

definition expand :: "string \<Rightarrow> string" where
  \<comment> \<open>\<open>_expand\<close> of \<open>_row_to_receipt\<close>\<close>
  "expand val = (case py_int val of
     None \<Rightarrow> val
   | Some cid \<Rightarrow> (case LEGEND_BY_ID cid of Some e \<Rightarrow> render e | None \<Rightarrow> val))"

subsection \<open>Round trip\<close>

lemma int_body_digits: "list_all is_digit s \<Longrightarrow> int_body a True s = Some (foldl (\<lambda>a c. 10 * a + (of_char c - 48)) a s)"
  by (induction s arbitrary: a) auto

lemma int_body_show_nat: "int_body 0 False (show_nat n) = Some n"
proof -
  obtain c s where cs: "show_nat n = c # s" by (cases "show_nat n") auto
  have d: "list_all is_digit (c # s)" using show_nat_digits [of n] cs by simp
  then have "int_body 0 False (c # s) = Some (num_val (c # s))"
    using int_body_digits [of s] by (simp add: num_val_def)
  then show ?thesis using cs num_val_show_nat [of n] by simp
qed

lemma digit_not_space: "is_digit c \<Longrightarrow> \<not> py_space c"
  by (auto simp: is_digit_def py_space_def Let_def)

lemma strip_digits: "list_all is_digit s \<Longrightarrow> strip s = s"
proof -
  assume a: "list_all is_digit s"
  then have "dropWhile py_space s = s" by (cases s) (auto simp: digit_not_space)
  moreover have "dropWhile py_space (rev s) = rev s"
    using a by (cases "rev s") (auto simp: list_all_iff digit_not_space dest: set_rev [THEN equalityD1, THEN subsetD])
  ultimately show ?thesis by (simp add: strip_def)
qed

lemma py_int_show_nat: "py_int (show_nat n) = Some (int n)"
proof -
  obtain c s where cs: "show_nat n = c # s" by (cases "show_nat n") auto
  have "is_digit c" using show_nat_hd [of n] cs by simp
  then have "c \<noteq> CHR ''-''" "c \<noteq> CHR ''+''" by (auto simp: is_digit_def)
  then show ?thesis using strip_digits [OF show_nat_digits, of n] int_body_show_nat [of n] cs
    by (simp add: py_int_def)
qed

lemma legend_ids_distinct: "distinct (map csil_id LEGEND_ENTRIES)"
  by (simp add: LEGEND_ENTRIES_def legend_entry_def)

lemma legend_ids_nonneg: "list_all (\<lambda>e. 0 \<le> csil_id e) LEGEND_ENTRIES"
  by (simp add: LEGEND_ENTRIES_def legend_entry_def)

lemma legend_by_id: "e \<in> set LEGEND_ENTRIES \<Longrightarrow> LEGEND_BY_ID (csil_id e) = Some e"
  unfolding LEGEND_BY_ID_def
  by (rule map_of_is_SomeI) (use legend_ids_distinct in \<open>auto simp: comp_def simp flip: rev_map\<close>)

lemma expand_legend_id: "e \<in> set LEGEND_ENTRIES \<Longrightarrow> expand (show_int (csil_id e)) = render e"
  using legend_ids_nonneg py_int_show_nat [of "nat (csil_id e)"] legend_by_id
  by (auto simp: expand_def show_int_def list_all_iff)

definition legend_map :: "(string \<rightharpoonup> int) \<Rightarrow> bool" where
  \<comment> \<open>a compression map built from legend entries\<close>
  "legend_map m \<longleftrightarrow> (\<forall>v i. m v = Some i \<longrightarrow> (\<exists>e \<in> set LEGEND_ENTRIES. render e = v \<and> csil_id e = i))"

lemma legend_map_ofI: "set kvs \<subseteq> (\<lambda>e. (render e, csil_id e)) ` set LEGEND_ENTRIES \<Longrightarrow> legend_map (map_of kvs)"
  by (fastforce simp: legend_map_def dest: map_of_SomeD)

lemma legend_maps: "legend_map OP_TO_CSIL" "legend_map INTENT_TO_CSIL" "legend_map JURIS_TO_CSIL" "legend_map CONF_TO_CSIL"
  unfolding OP_TO_CSIL_def INTENT_TO_CSIL_def JURIS_TO_CSIL_def CONF_TO_CSIL_def vocab_to_csil_def
  by (rule legend_map_ofI; fastforce)+

definition expands_to_itself :: "string \<Rightarrow> bool" where
  \<comment> \<open>not the decimal text of a legend identifier\<close>
  "expands_to_itself v \<longleftrightarrow> expand v = v"

lemma compress_expand:
  assumes "legend_map m" "expands_to_itself v"
  shows "expand (compress_field m v) = v"
proof (cases "m v")
  case None
  then show ?thesis using assms(2) by (simp add: compress_field_def expands_to_itself_def)
next
  case (Some i)
  then obtain e where "e \<in> set LEGEND_ENTRIES" "render e = v" "csil_id e = i"
    using assms(1) by (auto simp: legend_map_def)
  then show ?thesis using expand_legend_id Some by (auto simp: compress_field_def)
qed

lemma not_numeral_expands: "py_int v = None \<Longrightarrow> expands_to_itself v"
  by (simp add: expands_to_itself_def expand_def)

text \<open>compression round trip. Field compression loses nothing for ordinary text: for each of the four
  compressed receipt fields, storing the legend identifier of a value and expanding it on read returns the
  value, whether or not the legend knows it, as long as the value is not itself the decimal text of a
  legend identifier.\<close>

theorem compression_round_trip:
  assumes "py_int v = None"
  shows "expand (compress_field OP_TO_CSIL v) = v \<and> expand (compress_field INTENT_TO_CSIL v) = v \<and>
    expand (compress_field JURIS_TO_CSIL v) = v \<and> expand (compress_field CONF_TO_CSIL v) = v"
  using compress_expand legend_maps not_numeral_expands [OF assms] by blast

theorem compression_round_trip_witness:
  "expand (compress_field JURIS_TO_CSIL ''session'') = ''session''"
proof -
  have "py_int ''session'' = None"
    by (simp add: py_int_def strip_def py_space_def is_digit_def Let_def)
  from compression_round_trip [OF this] show ?thesis by blast
qed

end
