(* ===== verification/Step.thy ===== *)
theory Step
  imports Json
begin

text \<open>
  Stateful Python code as functions from a state to a result and a state: an exception
  keeps the state changes made before it was raised. The theory holds the exceptions of the
  source, the sequencing combinators, and the partial-correctness triples with which the
  component theories prove their invariants once per operation.
\<close>

subsection \<open>Exceptions\<close>

datatype db_error = Locked | DbFailure
  \<comment> \<open>a \<open>sqlite3.OperationalError\<close>: lock or busy contention, or anything else\<close>

datatype exc =
    PyExc pyexc
  | EffectDomainError
  | ReservedOutcomeError
  | ReadOnlyViolation
  | OperationalError db_error
  | MutationRefused
  | TransactionCommitError
  | RuntimeError
  | GateRefusal string string           \<comment> \<open>op and reason\<close>
  | KernelInternalOp string
  | GovernanceNotFounded string
  | GovernorSignatureRequired string
  | UndeclaredOp string
  | ProtocolError string
  | ExternalEffectNotPerformed
  | TerminalWriteExhausted string
  | ReconciliationRefused string
  | CompensationRefused string
  | WarrantStoreError
  | CallerExc nat                       \<comment> \<open>an exception of caller code, by an arbitrary number\<close>

subsection \<open>Sequencing\<close>

type_synonym ('s, 'a) prog = "'s \<Rightarrow> (exc, 'a) result \<times> 's"

definition sret :: "'a \<Rightarrow> ('s, 'a) prog" where
  "sret x s = (Inr x, s)"

definition sraise :: "exc \<Rightarrow> ('s, 'a) prog" where
  "sraise e s = (Inl e, s)"

definition sbind :: "('s, 'a) prog \<Rightarrow> ('a \<Rightarrow> ('s, 'b) prog) \<Rightarrow> ('s, 'b) prog" where
  "sbind m f s = (case m s of (Inl e, s') \<Rightarrow> (Inl e, s') | (Inr x, s') \<Rightarrow> f x s')"

definition sthen :: "('s, 'a) prog \<Rightarrow> ('s, 'b) prog \<Rightarrow> ('s, 'b) prog" where
  "sthen m n = sbind m (\<lambda>_. n)"

definition sget :: "('s \<Rightarrow> 'a) \<Rightarrow> ('s, 'a) prog" where
  "sget f s = (Inr (f s), s)"

definition smodify :: "('s \<Rightarrow> 's) \<Rightarrow> ('s, unit) prog" where
  "smodify f s = (Inr (), f s)"

definition slift :: "(pyexc, 'a) result \<Rightarrow> ('s, 'a) prog" where
  "slift r s = (case r of Inl e \<Rightarrow> (Inl (PyExc e), s) | Inr x \<Rightarrow> (Inr x, s))"

definition sguard :: "bool \<Rightarrow> exc \<Rightarrow> ('s, unit) prog" where
  \<comment> \<open>\<^verbatim>\<open>if not b: raise e\<close>\<close>
  "sguard b e = (if b then sret () else sraise e)"

definition swhen :: "bool \<Rightarrow> ('s, unit) prog \<Rightarrow> ('s, unit) prog" where
  "swhen b m = (if b then m else sret ())"

definition scatch :: "('s, 'a) prog \<Rightarrow> (exc \<Rightarrow> ('s, 'a) prog) \<Rightarrow> ('s, 'a) prog" where
  \<comment> \<open>\<^verbatim>\<open>try: m except Exception as e: h(e)\<close>\<close>
  "scatch m h s = (case m s of (Inl e, s') \<Rightarrow> h e s' | (Inr x, s') \<Rightarrow> (Inr x, s'))"

definition sswallow :: "('s, unit) prog \<Rightarrow> ('s, unit) prog" where
  \<comment> \<open>\<^verbatim>\<open>try: m except Exception: pass\<close>\<close>
  "sswallow m = scatch m (\<lambda>_. sret ())"

lemma prog_simps [simp]:
  "sbind (sret x) f = f x"
  "sbind (sraise e) f = sraise e"
  "sthen (sret x) n = n"
  "sthen (sraise e) n = sraise e"
  "sguard True e = sret ()"
  "sguard False e = sraise e"
  "swhen True m = m"
  "swhen False m = sret ()"
  "slift (Inr x) = sret x"
  "slift (Inl pe) = sraise (PyExc pe)"
  "scatch (sret x) h = sret x"
  "scatch (sraise e) h = h e"
  by (simp_all add: sbind_def sthen_def sret_def sraise_def sguard_def swhen_def slift_def scatch_def fun_eq_iff)

lemma sbind_assoc: "sbind (sbind m f) g = sbind m (\<lambda>x. sbind (f x) g)"
  by (auto simp: sbind_def fun_eq_iff split: prod.splits sum.splits)

lemma sbind_Inr: "m s = (Inr x, s') \<Longrightarrow> sbind m f s = f x s'"
  by (simp add: sbind_def)

lemma sbind_Inl: "m s = (Inl e, s') \<Longrightarrow> sbind m f s = (Inl e, s')"
  by (simp add: sbind_def)

lemma sthen_Inr: "m s = (Inr x, s') \<Longrightarrow> sthen m n s = n s'"
  by (simp add: sthen_def sbind_def)

lemma sthen_Inl: "m s = (Inl e, s') \<Longrightarrow> sthen m n s = (Inl e, s')"
  by (simp add: sthen_def sbind_def)

lemma sbind_eq_Inr: "sbind m f s = (Inr y, s') \<longleftrightarrow> (\<exists>x t. m s = (Inr x, t) \<and> f x t = (Inr y, s'))"
  by (auto simp: sbind_def split: prod.splits sum.splits)

lemma sbind_eq_Inl:
  "sbind m f s = (Inl e, s') \<longleftrightarrow> m s = (Inl e, s') \<or> (\<exists>x t. m s = (Inr x, t) \<and> f x t = (Inl e, s'))"
  by (auto simp: sbind_def split: prod.splits sum.splits)

lemma sthen_eq_Inr: "sthen m n s = (Inr y, s') \<longleftrightarrow> (\<exists>x t. m s = (Inr x, t) \<and> n t = (Inr y, s'))"
  by (simp add: sthen_def sbind_eq_Inr)

lemma sthen_eq_Inl:
  "sthen m n s = (Inl e, s') \<longleftrightarrow> m s = (Inl e, s') \<or> (\<exists>x t. m s = (Inr x, t) \<and> n t = (Inl e, s'))"
  by (simp add: sthen_def sbind_eq_Inl)

lemmas sbind_cases = sbind_eq_Inr sbind_eq_Inl sthen_eq_Inr sthen_eq_Inl

subsection \<open>Triples\<close>

definition triple :: "('s \<Rightarrow> bool) \<Rightarrow> ('s, 'a) prog \<Rightarrow> ('a \<Rightarrow> 's \<Rightarrow> bool) \<Rightarrow> (exc \<Rightarrow> 's \<Rightarrow> bool) \<Rightarrow> bool" where
  "triple P m Q E \<longleftrightarrow> (\<forall>s. P s \<longrightarrow> (case m s of (Inr x, s') \<Rightarrow> Q x s' | (Inl e, s') \<Rightarrow> E e s'))"

named_theorems wp \<open>triples of the operations\<close>

lemma tripleD_Inr: "triple P m Q E \<Longrightarrow> P s \<Longrightarrow> m s = (Inr x, s') \<Longrightarrow> Q x s'"
  by (auto simp: triple_def split: prod.splits sum.splits)

lemma tripleD_Inl: "triple P m Q E \<Longrightarrow> P s \<Longrightarrow> m s = (Inl e, s') \<Longrightarrow> E e s'"
  by (auto simp: triple_def split: prod.splits sum.splits)

lemma triple_weaken:
  "triple P' m Q' E' \<Longrightarrow> (\<And>s. P s \<Longrightarrow> P' s) \<Longrightarrow> (\<And>x s. Q' x s \<Longrightarrow> Q x s) \<Longrightarrow>
   (\<And>e s. E' e s \<Longrightarrow> E e s) \<Longrightarrow> triple P m Q E"
  by (fastforce simp: triple_def split: prod.splits sum.splits)

lemma triple_sret [wp]: "triple (Q x) (sret x) Q E"
  by (simp add: triple_def sret_def)

lemma triple_sraise [wp]: "triple (E e) (sraise e) Q E"
  by (simp add: triple_def sraise_def)

lemma triple_sget [wp]: "triple (\<lambda>s. Q (f s) s) (sget f) Q E"
  by (simp add: triple_def sget_def)

lemma triple_smodify [wp]: "triple (\<lambda>s. Q () (f s)) (smodify f) Q E"
  by (simp add: triple_def smodify_def)

lemma triple_sbind [wp]:
  "triple P m R E \<Longrightarrow> (\<And>x. triple (R x) (f x) Q E) \<Longrightarrow> triple P (sbind m f) Q E"
  by (fastforce simp: triple_def sbind_def split: prod.splits sum.splits)

lemma triple_sthen [wp]:
  "triple P m (\<lambda>_. R) E \<Longrightarrow> triple R n Q E \<Longrightarrow> triple P (sthen m n) Q E"
  by (simp add: sthen_def triple_sbind)

lemma triple_scatch [wp]:
  "triple P m Q R \<Longrightarrow> (\<And>e. triple (R e) (h e) Q E) \<Longrightarrow> triple P (scatch m h) Q E"
  by (fastforce simp: triple_def scatch_def split: prod.splits sum.splits)

lemma triple_if [wp]:
  "(b \<Longrightarrow> triple P m Q E) \<Longrightarrow> (\<not> b \<Longrightarrow> triple P n Q E) \<Longrightarrow> triple P (if b then m else n) Q E"
  by simp

definition keeps :: "('s \<Rightarrow> bool) \<Rightarrow> ('s, 'a) prog \<Rightarrow> bool" where
  \<comment> \<open>an invariant that holds after every outcome\<close>
  "keeps I m \<longleftrightarrow> (\<forall>s. I s \<longrightarrow> I (snd (m s)))"

named_theorems keeps_intros \<open>operations that keep an invariant\<close>

lemma keepsD: "keeps I m \<Longrightarrow> I s \<Longrightarrow> m s = (r, s') \<Longrightarrow> I s'"
  unfolding keeps_def by (metis snd_conv)

lemma keeps_triple: "keeps I m \<longleftrightarrow> triple I m (\<lambda>_. I) (\<lambda>_. I)"
  by (auto simp: keeps_def triple_def split: prod.splits sum.splits) (metis old.sum.exhaust snd_conv surj_pair)

lemma keeps_basic [keeps_intros, simp]:
  "keeps I (sret x)" "keeps I (sraise e)" "keeps I (sget f)" "keeps I (slift r)" "keeps I (sguard b e)"
  by (simp_all add: keeps_def sret_def sraise_def sget_def slift_def sguard_def split: sum.splits)

lemma keeps_smodify: "(\<And>s. I s \<Longrightarrow> I (f s)) \<Longrightarrow> keeps I (smodify f)"
  by (simp add: keeps_def smodify_def)

lemma keeps_sbind [keeps_intros]: "keeps I m \<Longrightarrow> (\<And>x. keeps I (f x)) \<Longrightarrow> keeps I (sbind m f)"
  unfolding keeps_triple by (rule triple_sbind)

lemma keeps_sthen [keeps_intros]: "keeps I m \<Longrightarrow> keeps I n \<Longrightarrow> keeps I (sthen m n)"
  unfolding keeps_triple by (rule triple_sthen)

lemma keeps_scatch [keeps_intros]: "keeps I m \<Longrightarrow> (\<And>e. keeps I (h e)) \<Longrightarrow> keeps I (scatch m h)"
  unfolding keeps_triple by (rule triple_scatch)

lemma keeps_swhen [keeps_intros]: "keeps I m \<Longrightarrow> keeps I (swhen b m)"
  by (simp add: swhen_def)

lemma keeps_sswallow [keeps_intros]: "keeps I m \<Longrightarrow> keeps I (sswallow m)"
  by (simp add: sswallow_def keeps_scatch)

lemma keeps_if [keeps_intros]: "(b \<Longrightarrow> keeps I m) \<Longrightarrow> (\<not> b \<Longrightarrow> keeps I n) \<Longrightarrow> keeps I (if b then m else n)"
  by simp

end
