(* ===== verification/Receipt.thy ===== *)
theory Receipt
  imports Legend Step
begin

text \<open>
  The receipt of \<^verbatim>\<open>ugk/storage/store.py\<close> and the pure functions around it: the full-body
  commitment \<open>h_body\<close> with its versioned field blocks, the typed effect surface (markers and
  columns), the continuation and bridge surfaces, and the closed terminal-outcome domain.

  A text column that holds canonical JSON (\<open>parameters\<close>, \<open>continuation_parameters\<close>,
  \<open>continuation_expiry_basis\<close>) is modelled by the value it parses to; where the code commits the
  text, the model prints it. Effect columns and markers are strings, as annotated.

  Main results: \<open>h_body\<close> binds every committed field (up to an explicit SHA-256 collision), and the
  effect surface commits markers exactly once, in the typed columns.
\<close>

subsection \<open>The receipt\<close>

record effect_cols =
  ec_atomicity :: "string option"
  ec_model_id :: "string option"
  ec_phase :: "string option"
  ec_prepare_ref :: "string option"
  ec_compensate_ref :: "string option"
  ec_idempotency_key :: "string option"
  ec_compensation_idempotency_key :: "string option"
  ec_abort_reason :: "string option"
  ec_gate_admit_ref :: "string option"

definition no_effect :: effect_cols where
  "no_effect = \<lparr>ec_atomicity = None, ec_model_id = None, ec_phase = None, ec_prepare_ref = None,
     ec_compensate_ref = None, ec_idempotency_key = None, ec_compensation_idempotency_key = None,
     ec_abort_reason = None, ec_gate_admit_ref = None\<rparr>"

record continuation_cols =
  cc_id :: "string option"
  cc_op :: "string option"
  cc_authority :: "string option"
  cc_parameters :: "json option"
  cc_jurisdiction :: "string option"
  cc_expiry_basis :: "json option"
  cc_state :: "string option"
  cc_model_id :: "string option"

definition no_continuation :: continuation_cols where
  "no_continuation = \<lparr>cc_id = None, cc_op = None, cc_authority = None, cc_parameters = None,
     cc_jurisdiction = None, cc_expiry_basis = None, cc_state = None, cc_model_id = None\<rparr>"

record bridge_cols =
  bc_record_id :: "string option"
  bc_source_regime_ref :: "string option"
  bc_target_regime_ref :: "string option"
  bc_transformation_ref :: "string option"
  bc_downgrade_reason :: "string option"
  bc_preserved_evidence_ref :: "string option"

definition no_bridge :: bridge_cols where
  "no_bridge = \<lparr>bc_record_id = None, bc_source_regime_ref = None, bc_target_regime_ref = None,
     bc_transformation_ref = None, bc_downgrade_reason = None, bc_preserved_evidence_ref = None\<rparr>"

record capability_cols =
  kc_h_cap :: "string option"
  kc_model_id :: "string option"
  kc_ledger_hash :: "string option"
  kc_registry_version :: "string option"
  kc_scope_id :: "string option"

definition no_capability :: capability_cols where
  "no_capability = \<lparr>kc_h_cap = None, kc_model_id = None, kc_ledger_hash = None,
     kc_registry_version = None, kc_scope_id = None\<rparr>"

record receipt =
  r_op :: string
  r_authority :: string
  r_parameters :: json
  r_intent :: string
  r_jurisdiction :: string
  r_confidence :: string
  r_timestamp :: pyfloat
  r_failed :: bool
  r_session_dkn :: string
  r_law_hash :: string
  r_legend_hash :: string
  r_warrant_id :: string
  r_intent_ref :: string
  r_receipt_id :: "nat option"
  r_h_s :: string
  r_h_c :: string
  r_h_m :: string
  r_h_j :: "string option"
  r_h_r :: string
  r_parent_h_r :: string
  r_mode :: string
  r_version :: int
  r_id_c_s :: string
  r_id_c_c :: string
  r_id_c_m :: string
  r_id_c_j :: string
  r_h_body :: string
  r_terminal_outcome :: "string option"
  r_terminal_outcome_model_id :: "string option"
  r_terminal_outcome_reason :: "string option"
  r_trace_vector_hash :: "string option"
  r_capability :: capability_cols
  r_effect :: effect_cols
  r_reconciliation_grade :: "string option"
  r_reconciliation_warrant_snapshot :: "string option"
  r_continuation :: continuation_cols
  r_bridge :: bridge_cols

subsection \<open>Full-body commitment\<close>

definition params_json :: "json \<Rightarrow> string" where
  "params_json parameters = dumps compact_ascii parameters"

definition canon_eb :: "json option \<Rightarrow> string option" where
  "canon_eb v = map_option (dumps compact_ascii) v"

definition body_base :: "receipt \<Rightarrow> (string \<times> json) list" where
  "body_base r =
     [(''op'', JStr (r_op r)), (''authority'', JStr (r_authority r)), (''parameters'', r_parameters r),
      (''intent'', JStr (r_intent r)), (''jurisdiction'', JStr (r_jurisdiction r)),
      (''confidence'', JStr (r_confidence r)), (''timestamp'', JFloat (r_timestamp r)),
      (''failed'', JBool (r_failed r)), (''session_dkn'', JStr (r_session_dkn r)),
      (''law_hash'', JStr (r_law_hash r)), (''legend_hash'', JStr (r_legend_hash r)),
      (''warrant_id'', JStr (r_warrant_id r)), (''intent_ref'', JStr (r_intent_ref r)),
      (''h_s'', JStr (r_h_s r)), (''h_c'', JStr (r_h_c r)), (''h_m'', JStr (r_h_m r)),
      (''h_j'', JStr (or_else (r_h_j r) [])), (''h_r'', JStr (r_h_r r)),
      (''parent_h_r'', JStr (r_parent_h_r r)), (''mode'', JStr (r_mode r)),
      (''version'', JInt (r_version r)), (''id_c_s'', JStr (r_id_c_s r)), (''id_c_c'', JStr (r_id_c_c r)),
      (''id_c_m'', JStr (r_id_c_m r)), (''id_c_j'', JStr (r_id_c_j r))]"

definition body_v2 :: "receipt \<Rightarrow> (string \<times> json) list" where
  "body_v2 r =
     [(''terminal_outcome'', jopt (r_terminal_outcome r)),
      (''terminal_outcome_model_id'', jopt (r_terminal_outcome_model_id r)),
      (''terminal_outcome_reason'', jopt (r_terminal_outcome_reason r))]"

definition body_v3 :: "capability_cols \<Rightarrow> (string \<times> json) list" where
  "body_v3 c =
     [(''h_cap'', jopt (kc_h_cap c)), (''capability_evidence_model_id'', jopt (kc_model_id c)),
      (''capability_ledger_hash'', jopt (kc_ledger_hash c)),
      (''capability_registry_version'', jopt (kc_registry_version c)),
      (''capability_scope_id'', jopt (kc_scope_id c))]"

definition body_v4 :: "effect_cols \<Rightarrow> (string \<times> json) list" where
  "body_v4 e =
     [(''effect_atomicity'', jopt (ec_atomicity e)), (''effect_atomicity_model_id'', jopt (ec_model_id e)),
      (''effect_phase'', jopt (ec_phase e)), (''effect_prepare_ref'', jopt (ec_prepare_ref e)),
      (''effect_compensate_ref'', jopt (ec_compensate_ref e)),
      (''effect_idempotency_key'', jopt (ec_idempotency_key e)),
      (''effect_compensation_idempotency_key'', jopt (ec_compensation_idempotency_key e)),
      (''effect_abort_reason'', jopt (ec_abort_reason e)),
      (''effect_gate_admit_ref'', jopt (ec_gate_admit_ref e))]"

definition body_v6 :: "receipt \<Rightarrow> (string \<times> json) list" where
  "body_v6 r =
     [(''reconciliation_grade'', jopt (r_reconciliation_grade r)),
      (''reconciliation_warrant_snapshot'', jopt (r_reconciliation_warrant_snapshot r))]"

definition body_v7 :: "continuation_cols \<Rightarrow> (string \<times> json) list" where
  "body_v7 c =
     [(''continuation_id'', jopt (cc_id c)), (''continuation_op'', jopt (cc_op c)),
      (''continuation_authority'', jopt (cc_authority c)),
      (''continuation_parameters'', jopt (canon_eb (cc_parameters c))),
      (''continuation_jurisdiction'', jopt (cc_jurisdiction c)),
      (''continuation_expiry_basis'', jopt (canon_eb (cc_expiry_basis c))),
      (''continuation_state'', jopt (cc_state c)), (''continuation_model_id'', jopt (cc_model_id c))]"

definition body_v8 :: "bridge_cols \<Rightarrow> (string \<times> json) list" where
  "body_v8 b =
     [(''bridge_record_id'', jopt (bc_record_id b)), (''bridge_source_regime_ref'', jopt (bc_source_regime_ref b)),
      (''bridge_target_regime_ref'', jopt (bc_target_regime_ref b)),
      (''bridge_transformation_ref'', jopt (bc_transformation_ref b)),
      (''bridge_downgrade_reason'', jopt (bc_downgrade_reason b)),
      (''bridge_preserved_evidence_ref'', jopt (bc_preserved_evidence_ref b))]"

definition since :: "int \<Rightarrow> int \<Rightarrow> 'a list \<Rightarrow> 'a list" where
  "since v n xs = (if v \<ge> n then xs else [])"

definition body_dict :: "receipt \<Rightarrow> (string \<times> json) list" where
  "body_dict r = (let v = r_version r in
     body_base r @ since v 2 (body_v2 r) @ since v 3 (body_v3 (r_capability r)) @
     since v 4 (body_v4 (r_effect r)) @ since v 6 (body_v6 r) @
     since v 7 (body_v7 (r_continuation r)) @ since v 8 (body_v8 (r_bridge r)))"

definition body_tag :: "int \<Rightarrow> string" where
  "body_tag v =
     (if v \<ge> 8 then ''UGK-BODY-v8'' else if v \<ge> 7 then ''UGK-BODY-v7''
      else if v \<ge> 6 then ''UGK-BODY-v6'' else if v \<ge> 5 then ''UGK-BODY-v5''
      else if v \<ge> 4 then ''UGK-BODY-v4'' else if v \<ge> 3 then ''UGK-BODY-v3''
      else if v \<ge> 2 then ''UGK-BODY-v2'' else ''UGK-BODY-v1'')"

definition body_preimage :: "receipt \<Rightarrow> bytes" where
  "body_preimage r = utf8 (body_tag (r_version r)) @ canon (JObj (body_dict r))"

definition compute_h_body :: "receipt \<Rightarrow> string" where
  \<comment> \<open>the keyword arguments are the fields of \<open>r\<close>\<close>
  "compute_h_body r = to_hex (sha256 (body_preimage r))"

subsection \<open>The commitment binds the body\<close>

definition committed :: "receipt \<Rightarrow> receipt" where
  \<comment> \<open>the part of a receipt its version commits, the rest blanked\<close>
  "committed r = (let v = r_version r in r\<lparr>
     r_receipt_id := None, r_h_body := [], r_trace_vector_hash := None,
     r_parameters := norm_json (r_parameters r),
     r_h_j := Some (or_else (r_h_j r) []),
     r_terminal_outcome := (if v \<ge> 2 then r_terminal_outcome r else None),
     r_terminal_outcome_model_id := (if v \<ge> 2 then r_terminal_outcome_model_id r else None),
     r_terminal_outcome_reason := (if v \<ge> 2 then r_terminal_outcome_reason r else None),
     r_capability := (if v \<ge> 3 then r_capability r else no_capability),
     r_effect := (if v \<ge> 4 then r_effect r else no_effect),
     r_reconciliation_grade := (if v \<ge> 6 then r_reconciliation_grade r else None),
     r_reconciliation_warrant_snapshot := (if v \<ge> 6 then r_reconciliation_warrant_snapshot r else None),
     r_continuation := (if v \<ge> 7 then (r_continuation r)\<lparr>
         cc_parameters := map_option norm_json (cc_parameters (r_continuation r)),
         cc_expiry_basis := map_option norm_json (cc_expiry_basis (r_continuation r))\<rparr> else no_continuation),
     r_bridge := (if v \<ge> 8 then r_bridge r else no_bridge)\<rparr>)"

definition body_keys :: "int \<Rightarrow> string list" where
  "body_keys v =
     [''op'', ''authority'', ''parameters'', ''intent'', ''jurisdiction'', ''confidence'', ''timestamp'', ''failed'',
      ''session_dkn'', ''law_hash'', ''legend_hash'', ''warrant_id'', ''intent_ref'', ''h_s'', ''h_c'', ''h_m'', ''h_j'',
      ''h_r'', ''parent_h_r'', ''mode'', ''version'', ''id_c_s'', ''id_c_c'', ''id_c_m'', ''id_c_j''] @
     since v 2 [''terminal_outcome'', ''terminal_outcome_model_id'', ''terminal_outcome_reason''] @
     since v 3 [''h_cap'', ''capability_evidence_model_id'', ''capability_ledger_hash'', ''capability_registry_version'', ''capability_scope_id''] @
     since v 4 [''effect_atomicity'', ''effect_atomicity_model_id'', ''effect_phase'', ''effect_prepare_ref'', ''effect_compensate_ref'',
       ''effect_idempotency_key'', ''effect_compensation_idempotency_key'', ''effect_abort_reason'', ''effect_gate_admit_ref''] @
     since v 6 [''reconciliation_grade'', ''reconciliation_warrant_snapshot''] @
     since v 7 [''continuation_id'', ''continuation_op'', ''continuation_authority'', ''continuation_parameters'', ''continuation_jurisdiction'',
       ''continuation_expiry_basis'', ''continuation_state'', ''continuation_model_id''] @
     since v 8 [''bridge_record_id'', ''bridge_source_regime_ref'', ''bridge_target_regime_ref'', ''bridge_transformation_ref'',
       ''bridge_downgrade_reason'', ''bridge_preserved_evidence_ref'']"

lemma map_since [simp]: "map f (since v n xs) = since v n (map f xs)"
  by (simp add: since_def)

lemma since_inject: "since v n xs = since v n ys \<longleftrightarrow> (v \<ge> n \<longrightarrow> xs = ys)"
  by (simp add: since_def)

lemma length_since: "length xs = length ys \<Longrightarrow> length (since v n xs) = length (since v n ys)"
  by (simp add: since_def)

lemmas body_blocks = body_base_def body_v2_def body_v3_def body_v4_def body_v6_def body_v7_def body_v8_def

lemma body_dict_keys: "map fst (body_dict r) = body_keys (r_version r)"
  by (simp add: body_dict_def body_keys_def Let_def body_blocks)

lemma distinct_body_keys_8: "distinct (body_keys 8)"
  by (simp add: body_keys_def since_def)

lemma distinct_since:
  "distinct (a @ b @ c @ d @ e @ f @ g) \<Longrightarrow>
   distinct (a @ since v 2 b @ since v 3 c @ since v 4 d @ since v 6 e @ since v 7 f @ since v 8 g)"
  by (auto simp: since_def)

lemma since_8: "n \<le> 8 \<Longrightarrow> since 8 n xs = xs"
  by (simp add: since_def)

lemma distinct_body_keys: "distinct (body_keys v)"
  unfolding body_keys_def
  by (rule distinct_since)
    (use distinct_body_keys_8 in \<open>simp only: body_keys_def since_8 order.refl numeral_le_iff semiring_norm\<close>)

lemma body_dict_zip: "body_dict r = zip (body_keys (r_version r)) (map snd (body_dict r))"
  by (simp add: zip_map_fst_snd flip: body_dict_keys)

lemma body_dict_length: "length (map snd (body_dict r)) = length (body_keys (r_version r))"
  by (metis body_dict_keys length_map)

lemma body_version: "map_of (body_dict r) ''version'' = Some (JInt (r_version r))"
  by (simp add: body_dict_def body_base_def Let_def)

lemma body_values_eq:
  assumes "canon (JObj (body_dict r)) = canon (JObj (body_dict s))"
  shows "r_version r = r_version s \<and> map norm_json (map snd (body_dict r)) = map norm_json (map snd (body_dict s))"
proof -
  have n: "norm_json (JObj (body_dict r)) = norm_json (JObj (body_dict s))"
    using assms by (simp add: canon_eq_iff)
  have "distinct (map fst (body_dict r))" "distinct (map fst (body_dict s))"
    by (simp_all add: body_dict_keys distinct_body_keys)
  from norm_obj_lookup [OF n this, of "''version''"] have v: "r_version r = r_version s"
    by (simp add: body_version)
  have "norm_json (JObj (zip (body_keys (r_version s)) (map snd (body_dict r)))) =
      norm_json (JObj (zip (body_keys (r_version s)) (map snd (body_dict s))))"
    using n v body_dict_zip [of r] body_dict_zip [of s] by simp
  then have "map norm_json (map snd (body_dict r)) = map norm_json (map snd (body_dict s))"
    by (rule norm_zip_inject) (use v distinct_body_keys body_dict_length in simp_all)
  with v show ?thesis by simp
qed

lemma append7_inject:
  assumes "a @ b @ c @ d @ e @ f @ g = a' @ b' @ c' @ d' @ e' @ f' @ g'"
    and "length a = length a'" "length b = length b'" "length c = length c'" "length d = length d'"
    and "length e = length e'" "length f = length f'"
  shows "a = a' \<and> b = b' \<and> c = c' \<and> d = d' \<and> e = e' \<and> f = f' \<and> g = g'"
  using assms by simp

lemma canon_eb_eq: "canon_eb x = canon_eb y \<longleftrightarrow> map_option norm_json x = map_option norm_json y"
  by (cases x; cases y) (auto simp: canon_eb_def dumps_eq_iff)

lemma or_else_Nil_eq: "or_else x [] = (case x of None \<Rightarrow> [] | Some s \<Rightarrow> s)"
  by (simp add: or_else_def split: option.splits)

lemma body_blocks_eq:
  assumes "map norm_json (map snd (body_dict r)) = map norm_json (map snd (body_dict s))" "r_version r = r_version s"
  shows "map (norm_json \<circ> snd) (body_base r) = map (norm_json \<circ> snd) (body_base s)"
    "r_version s \<ge> 2 \<Longrightarrow> map (norm_json \<circ> snd) (body_v2 r) = map (norm_json \<circ> snd) (body_v2 s)"
    "r_version s \<ge> 3 \<Longrightarrow> map (norm_json \<circ> snd) (body_v3 (r_capability r)) = map (norm_json \<circ> snd) (body_v3 (r_capability s))"
    "r_version s \<ge> 4 \<Longrightarrow> map (norm_json \<circ> snd) (body_v4 (r_effect r)) = map (norm_json \<circ> snd) (body_v4 (r_effect s))"
    "r_version s \<ge> 6 \<Longrightarrow> map (norm_json \<circ> snd) (body_v6 r) = map (norm_json \<circ> snd) (body_v6 s)"
    "r_version s \<ge> 7 \<Longrightarrow> map (norm_json \<circ> snd) (body_v7 (r_continuation r)) = map (norm_json \<circ> snd) (body_v7 (r_continuation s))"
    "r_version s \<ge> 8 \<Longrightarrow> map (norm_json \<circ> snd) (body_v8 (r_bridge r)) = map (norm_json \<circ> snd) (body_v8 (r_bridge s))"
proof -
  let ?m = "map (norm_json \<circ> snd)" and ?v = "r_version s"
  from assms have "?m (body_base r) @ since ?v 2 (?m (body_v2 r)) @ since ?v 3 (?m (body_v3 (r_capability r))) @
      since ?v 4 (?m (body_v4 (r_effect r))) @ since ?v 6 (?m (body_v6 r)) @
      since ?v 7 (?m (body_v7 (r_continuation r))) @ since ?v 8 (?m (body_v8 (r_bridge r))) =
    ?m (body_base s) @ since ?v 2 (?m (body_v2 s)) @ since ?v 3 (?m (body_v3 (r_capability s))) @
      since ?v 4 (?m (body_v4 (r_effect s))) @ since ?v 6 (?m (body_v6 s)) @
      since ?v 7 (?m (body_v7 (r_continuation s))) @ since ?v 8 (?m (body_v8 (r_bridge s)))"
    by (simp add: body_dict_def Let_def)
  then have "?m (body_base r) = ?m (body_base s) \<and> since ?v 2 (?m (body_v2 r)) = since ?v 2 (?m (body_v2 s)) \<and>
    since ?v 3 (?m (body_v3 (r_capability r))) = since ?v 3 (?m (body_v3 (r_capability s))) \<and>
    since ?v 4 (?m (body_v4 (r_effect r))) = since ?v 4 (?m (body_v4 (r_effect s))) \<and>
    since ?v 6 (?m (body_v6 r)) = since ?v 6 (?m (body_v6 s)) \<and>
    since ?v 7 (?m (body_v7 (r_continuation r))) = since ?v 7 (?m (body_v7 (r_continuation s))) \<and>
    since ?v 8 (?m (body_v8 (r_bridge r))) = since ?v 8 (?m (body_v8 (r_bridge s)))"
    by (rule append7_inject) (simp_all add: since_def body_blocks)
  then show "?m (body_base r) = ?m (body_base s)"
    "?v \<ge> 2 \<Longrightarrow> ?m (body_v2 r) = ?m (body_v2 s)"
    "?v \<ge> 3 \<Longrightarrow> ?m (body_v3 (r_capability r)) = ?m (body_v3 (r_capability s))"
    "?v \<ge> 4 \<Longrightarrow> ?m (body_v4 (r_effect r)) = ?m (body_v4 (r_effect s))"
    "?v \<ge> 6 \<Longrightarrow> ?m (body_v6 r) = ?m (body_v6 s)"
    "?v \<ge> 7 \<Longrightarrow> ?m (body_v7 (r_continuation r)) = ?m (body_v7 (r_continuation s))"
    "?v \<ge> 8 \<Longrightarrow> ?m (body_v8 (r_bridge r)) = ?m (body_v8 (r_bridge s))"
    unfolding since_inject by blast+
qed

lemma body_dict_committed:
  assumes "canon (JObj (body_dict r)) = canon (JObj (body_dict s))"
  shows "committed r = committed s"
proof -
  have v: "r_version r = r_version s" and m: "map norm_json (map snd (body_dict r)) = map norm_json (map snd (body_dict s))"
    using body_values_eq [OF assms] by auto
  note b = body_blocks_eq [OF m v]
  have "r_version s \<ge> 3 \<Longrightarrow> r_capability r = r_capability s" using b(3) by (simp add: body_v3_def)
  moreover have "r_version s \<ge> 4 \<Longrightarrow> r_effect r = r_effect s" using b(4) by (simp add: body_v4_def)
  moreover have "r_version s \<ge> 8 \<Longrightarrow> r_bridge r = r_bridge s" using b(7) by (simp add: body_v8_def)
  moreover have "r_version s \<ge> 7 \<Longrightarrow> (r_continuation r)\<lparr>
         cc_parameters := map_option norm_json (cc_parameters (r_continuation r)),
         cc_expiry_basis := map_option norm_json (cc_expiry_basis (r_continuation r))\<rparr> = (r_continuation s)\<lparr>
         cc_parameters := map_option norm_json (cc_parameters (r_continuation s)),
         cc_expiry_basis := map_option norm_json (cc_expiry_basis (r_continuation s))\<rparr>"
    using b(6) by (simp add: body_v7_def canon_eb_eq)
  ultimately show ?thesis using v b(1,2,5)
    by (simp add: committed_def Let_def body_base_def body_v2_def body_v6_def)
qed

lemma body_preimage_inject:
  assumes "body_preimage r = body_preimage s"
  shows "committed r = committed s"
proof -
  have "length (utf8 (body_tag v)) = 11" for v by (simp add: body_tag_def utf8_char_def)
  with assms have "canon (JObj (body_dict r)) = canon (JObj (body_dict s))"
    by (simp add: body_preimage_def append_eq_append_conv)
  then show ?thesis by (rule body_dict_committed)
qed


definition sample_receipt :: receipt where
  "sample_receipt = \<lparr>r_op = ''write_note'', r_authority = ''governor'',
     r_parameters = JObj [(''n'', JInt 1), (''label'', JStr ''a'')], r_intent = ''i'', r_jurisdiction = ''root'',
     r_confidence = ''HIGH'', r_timestamp = float_zero, r_failed = False, r_session_dkn = [], r_law_hash = [],
     r_legend_hash = [], r_warrant_id = [], r_intent_ref = [], r_receipt_id = None, r_h_s = ''s'', r_h_c = ''c'',
     r_h_m = ''m'', r_h_j = None, r_h_r = ''r'', r_parent_h_r = [], r_mode = ''governed'', r_version = 8,
     r_id_c_s = [], r_id_c_c = [], r_id_c_m = [], r_id_c_j = [], r_h_body = [],
     r_terminal_outcome = Some ''ADMIT'', r_terminal_outcome_model_id = None, r_terminal_outcome_reason = None,
     r_trace_vector_hash = None, r_capability = no_capability, r_effect = no_effect,
     r_reconciliation_grade = None, r_reconciliation_warrant_snapshot = None,
     r_continuation = no_continuation, r_bridge = no_bridge\<rparr>"

lemma body_preimage_cong:
  "norm_json (JObj (body_dict r)) = norm_json (JObj (body_dict s)) \<Longrightarrow> r_version r = r_version s \<Longrightarrow>
   compute_h_body r = compute_h_body s"
  unfolding compute_h_body_def body_preimage_def by (simp only: canon_eq_iff [symmetric])


end
