(* ===== verification/Surfaces.thy ===== *)
theory Surfaces
  imports Receipt
begin

text \<open>
  The committed surfaces a receipt may carry (\<^verbatim>\<open>ugk/storage/store.py\<close>, the functions before
  the class): the closed terminal-outcome domain and what is emittable, the typed effect surface with its
  retired parameter markers, continuation records (deferral) and bridge records, the lexical gate of the
  live migration, and the schema fingerprint.

  A \<^verbatim>\<open>dict\<close> argument is a \<^typ>\<open>json\<close> object with distinct keys, \<^verbatim>\<open>None\<close> is \<^const>\<open>JNull\<close>, so that every
  \<^verbatim>\<open>isinstance\<close> test and every \<^verbatim>\<open>get\<close> of the validators is a case of the model. A text column takes a string or
  \<^verbatim>\<open>None\<close>: SQLite's rewriting of other scalars is not modelled, such a value is the exception
  \<^const>\<open>TypeError\<close>.
\<close>

subsection \<open>Dictionary access\<close>

definition jget :: "(string \<times> json) list \<Rightarrow> string \<Rightarrow> json" where
  \<comment> \<open>\<^verbatim>\<open>d.get(k)\<close>\<close>
  "jget d k = (case map_of d k of None \<Rightarrow> JNull | Some v \<Rightarrow> v)"

fun jstr :: "json \<Rightarrow> string option" where
  "jstr (JStr s) = Some s"
| "jstr _ = None"

fun hashable :: "json \<Rightarrow> bool" where
  "hashable (JList _) = False"
| "hashable (JObj _) = False"
| "hashable _ = True"

definition in_domain :: "json \<Rightarrow> string list \<Rightarrow> (exc, bool) result" where
  \<comment> \<open>\<^verbatim>\<open>v in frozenset\<close>: an unhashable value raises\<close>
  "in_domain v ds = (if hashable v then Inr (\<exists>s\<in>set ds. v = JStr s) else Inl (PyExc TypeError))"

fun text_column :: "json \<Rightarrow> (exc, string option) result" where
  "text_column JNull = Inr None"
| "text_column (JStr s) = Inr (Some s)"
| "text_column _ = Inl (PyExc TypeError)"

definition non_empty_str :: "json \<Rightarrow> bool" where
  \<comment> \<open>\<^verbatim>\<open>isinstance(v, str) and v\<close>\<close>
  "non_empty_str v \<longleftrightarrow> (\<exists>s. jstr v = Some s \<and> s \<noteq> [])"

lemma non_empty_str_code [code]:
  "non_empty_str v = (case jstr v of None \<Rightarrow> False | Some s \<Rightarrow> s \<noteq> [])"
  by (auto simp: non_empty_str_def split: option.splits)

lemma jget_map: "jget d k = JStr s \<longleftrightarrow> map_of d k = Some (JStr s)"
  by (auto simp: jget_def split: option.splits)

lemma text_column_jopt [simp]: "text_column (jopt x) = Inr x"
  by (cases x) (simp_all add: jopt_def)

lemma jopt_eq_JStr [simp]: "jopt x = JStr s \<longleftrightarrow> x = Some s" "jopt x = JNull \<longleftrightarrow> x = None"
  by (auto simp: jopt_def split: option.splits)

lemma text_column_eq_Inr: "text_column v = Inr x \<longleftrightarrow> v = jopt x"
  by (cases v; cases x) (auto simp: jopt_def)

subsection \<open>Bridge records\<close>

definition BRIDGE_DOWNGRADE_TAXONOMY :: "string list" where
  "BRIDGE_DOWNGRADE_TAXONOMY = [''jurisdiction_crossing'', ''semantic_downgrade'', ''regime_translation'']"

definition BRIDGE_REQUIRED_REFS :: "string list" where
  "BRIDGE_REQUIRED_REFS = [''bridge_source_regime_ref'', ''bridge_target_regime_ref'',
     ''bridge_transformation_ref'', ''bridge_preserved_evidence_ref'']"

definition validate_bridge_record :: "json \<Rightarrow> (exc, bridge_cols) result" where
  "validate_bridge_record b =
     rbind (rguard (is_obj b) (PyExc ValueError)) (\<lambda>_.
     let d = obj_fields b; rid = jget d ''bridge_record_id''; dr = jget d ''bridge_downgrade_reason'' in
     rbind (rguard (non_empty_str rid) (PyExc ValueError)) (\<lambda>_.
     rbind (rguard (list_all (\<lambda>k. non_empty_str (jget d k)) BRIDGE_REQUIRED_REFS) (PyExc ValueError)) (\<lambda>_.
     rbind (in_domain dr BRIDGE_DOWNGRADE_TAXONOMY) (\<lambda>known.
     rbind (rguard known (PyExc ValueError)) (\<lambda>_.
     Inr \<lparr>bc_record_id = jstr rid,
          bc_source_regime_ref = jstr (jget d ''bridge_source_regime_ref''),
          bc_target_regime_ref = jstr (jget d ''bridge_target_regime_ref''),
          bc_transformation_ref = jstr (jget d ''bridge_transformation_ref''),
          bc_downgrade_reason = jstr dr,
          bc_preserved_evidence_ref = jstr (jget d ''bridge_preserved_evidence_ref'')\<rparr>)))))"

subsection \<open>Continuation records\<close>

definition CONTINUATION_RECORD_MODEL_ID :: string where
  "CONTINUATION_RECORD_MODEL_ID = ''continuation_record_model_v1''"

definition CONTINUATION_STATE_DOMAIN :: "string list" where
  "CONTINUATION_STATE_DOMAIN = [''HELD'', ''RESUMED'', ''RESOLVED'', ''EXPIRED'', ''REFUSED'']"

definition CONTINUATION_EXPIRY_KIND_DOMAIN :: "string list" where
  "CONTINUATION_EXPIRY_KIND_DOMAIN = [''receipt_height'', ''explicit_trigger'']"

definition continuation_payload :: "json \<Rightarrow> json \<Rightarrow> json \<Rightarrow> json \<Rightarrow> json \<Rightarrow> bytes" where
  "continuation_payload opn authority parameters jurisdiction anchor =
     utf8 ''UGK-CONT-v1'' @ canon (JObj (zip
       [''op'', ''authority'', ''parameters'', ''jurisdiction'', ''anchor'']
       [opn, authority, parameters, jurisdiction, anchor]))"

definition compute_continuation_id :: "json \<Rightarrow> json \<Rightarrow> json \<Rightarrow> json \<Rightarrow> json \<Rightarrow> string" where
  "compute_continuation_id opn authority parameters jurisdiction anchor =
     to_hex (sha256 (continuation_payload opn authority parameters jurisdiction anchor))"

fun is_py_int :: "json \<Rightarrow> bool" where
  \<comment> \<open>\<^verbatim>\<open>isinstance(v, int)\<close>: a \<^verbatim>\<open>bool\<close> is an \<^verbatim>\<open>int\<close>\<close>
  "is_py_int (JInt _) = True"
| "is_py_int (JBool _) = True"
| "is_py_int _ = False"

definition validate_expiry_basis :: "json \<Rightarrow> (exc, unit) result" where
  "validate_expiry_basis eb =
     rbind (rguard (is_obj eb \<and> set (map fst (obj_fields eb)) = {''kind'', ''value''}) (PyExc ValueError)) (\<lambda>_.
     let kind = jget (obj_fields eb) ''kind'' in
     rbind (in_domain kind CONTINUATION_EXPIRY_KIND_DOMAIN) (\<lambda>known.
     rbind (rguard known (PyExc ValueError)) (\<lambda>_.
     rguard (kind = JStr ''receipt_height'' \<longrightarrow> is_py_int (jget (obj_fields eb) ''value'')) (PyExc ValueError))))"

definition continuation_identity :: "(string \<times> json) list \<Rightarrow> (exc, string) result" where
  "continuation_identity c =
     (let cid = jget c ''id''; anchor = jget c ''anchor'' in
      if anchor \<noteq> JNull then
        let expect_id = compute_continuation_id (jget c ''op'') (jget c ''authority'') (jget c ''parameters'')
              (jget c ''jurisdiction'') anchor
        in if cid \<noteq> JNull \<and> cid \<noteq> JStr expect_id then Inl (PyExc ValueError) else Inr expect_id
      else if non_empty_str cid then Inr (the (jstr cid)) else Inl (PyExc ValueError))"

definition json_column :: "json \<Rightarrow> json option" where
  \<comment> \<open>\<^verbatim>\<open>_canon_eb\<close> into a column: \<^verbatim>\<open>None\<close> stays \<^verbatim>\<open>NULL\<close>, a value is stored as its canonical text\<close>
  "json_column v = (if v = JNull then None else Some v)"

definition validate_continuation :: "json \<Rightarrow> (exc, continuation_cols) result" where
  "validate_continuation c =
     rbind (rguard (is_obj c) (PyExc ValueError)) (\<lambda>_.
     let d = obj_fields c; st = jget d ''state'';
         model_id = (if map_of d ''model_id'' = None then JStr CONTINUATION_RECORD_MODEL_ID else jget d ''model_id'');
         eb = jget d ''expiry_basis''; auth = jget d ''authority'' in
     rbind (in_domain st CONTINUATION_STATE_DOMAIN) (\<lambda>known.
     rbind (rguard known (PyExc ValueError)) (\<lambda>_.
     rbind (rguard (model_id = JStr CONTINUATION_RECORD_MODEL_ID) (PyExc ValueError)) (\<lambda>_.
     rbind (validate_expiry_basis eb) (\<lambda>_.
     rbind (rguard (non_empty_str (jget d ''op'')) (PyExc ValueError)) (\<lambda>_.
     rbind (continuation_identity d) (\<lambda>cid.
     rbind (text_column (jget d ''jurisdiction'')) (\<lambda>jur.
     Inr \<lparr>cc_id = Some cid, cc_op = jstr (jget d ''op''),
          cc_authority = (case auth of JStr a \<Rightarrow> Some a | _ \<Rightarrow> canon_eb (json_column auth)),
          cc_parameters = json_column (jget d ''parameters''), cc_jurisdiction = jur,
          cc_expiry_basis = json_column eb, cc_state = jstr st, cc_model_id = jstr model_id\<rparr>))))))))"

definition continuation_expired :: "json option \<Rightarrow> nat \<Rightarrow> string list \<Rightarrow> (exc, bool) result" where
  "continuation_expired expiry_basis current_height committed_triggers =
     (case expiry_basis of None \<Rightarrow> Inr False
      | Some eb \<Rightarrow>
          rbind (rguard (is_obj eb) (PyExc AttributeError)) (\<lambda>_.
          let d = obj_fields eb; kind = jget d ''kind'' in
          if kind = JStr ''receipt_height'' then
            (case map_of d ''value'' of
               None \<Rightarrow> Inl (PyExc KeyError)
             | Some (JInt i) \<Rightarrow> Inr (int current_height \<ge> i)
             | Some (JBool b) \<Rightarrow> Inr (int current_height \<ge> of_bool b)
             | Some (JStr s) \<Rightarrow> (case py_int s of None \<Rightarrow> Inl (PyExc ValueError) | Some i \<Rightarrow> Inr (int current_height \<ge> i))
             | Some _ \<Rightarrow> Inl (PyExc TypeError))
          else if kind = JStr ''explicit_trigger'' then
            (case map_of d ''value'' of None \<Rightarrow> Inl (PyExc KeyError) | Some v \<Rightarrow> in_domain v committed_triggers)
          else Inl (PyExc ValueError)))"

subsection \<open>The typed effect surface\<close>

definition EFFECT_ATOMICITY_MODEL_ID :: string where
  "EFFECT_ATOMICITY_MODEL_ID = ''effect_atomicity_model_v1''"

definition EFFECT_ATOMICITY_DOMAIN :: "string list" where
  "EFFECT_ATOMICITY_DOMAIN = [''pure'', ''store_local'', ''external_reversible'', ''external_irreversible'', ''non_atomic'']"

definition EFFECT_PHASE_DOMAIN :: "string list" where
  "EFFECT_PHASE_DOMAIN = [''prepare'', ''commit'', ''abort'', ''compensate'', ''compensated'', ''compensation_failed'']"

definition EFFECT_MARKER_MAP :: "(string \<times> (effect_cols \<Rightarrow> string option)) list" where
  "EFFECT_MARKER_MAP =
     [(''effect_atomicity'', ec_atomicity), (''phase'', ec_phase), (''prepare_ref'', ec_prepare_ref),
      (''compensate_ref'', ec_compensate_ref), (''idempotency_key'', ec_idempotency_key),
      (''compensation_idempotency_key'', ec_compensation_idempotency_key),
      (''abort_reason'', ec_abort_reason), (''gate_admit_ref'', ec_gate_admit_ref)]"

definition EFFECT_MARKER_KEYS :: "string list" where
  "EFFECT_MARKER_KEYS = map fst EFFECT_MARKER_MAP"

definition assert_domain :: "json \<Rightarrow> string list \<Rightarrow> (exc, unit) result" where
  "assert_domain v ds = rbind (in_domain v ds) (\<lambda>known. rguard known EffectDomainError)"

definition assert_phase :: "json \<Rightarrow> (exc, unit) result" where
  "assert_phase ph = (if ph = JNull then Inr () else assert_domain ph EFFECT_PHASE_DOMAIN)"

definition derive_effect_columns :: "json \<Rightarrow> (exc, effect_cols option) result" where
  "derive_effect_columns parameters =
     (if \<not> is_obj parameters then Inr None
      else let p = obj_fields parameters; ea = jget p ''effect_atomicity'' in
        if ea = JNull then Inr None
        else
          rbind (assert_domain ea EFFECT_ATOMICITY_DOMAIN) (\<lambda>_.
          rbind (assert_phase (jget p ''phase'')) (\<lambda>_.
          rbind (rmap (\<lambda>k. text_column (jget p k)) EFFECT_MARKER_KEYS) (\<lambda>vs.
          Inr (Some \<lparr>ec_atomicity = vs ! 0, ec_model_id = Some EFFECT_ATOMICITY_MODEL_ID, ec_phase = vs ! 1,
            ec_prepare_ref = vs ! 2, ec_compensate_ref = vs ! 3, ec_idempotency_key = vs ! 4,
            ec_compensation_idempotency_key = vs ! 5, ec_abort_reason = vs ! 6, ec_gate_admit_ref = vs ! 7\<rparr>)))))"

definition derive_effect_markers :: "effect_cols \<Rightarrow> (string \<times> json) list" where
  \<comment> \<open>a marker is present iff its column is a non-empty string\<close>
  "derive_effect_markers cols =
     concat (map (\<lambda>(k, col). case col cols of Some v \<Rightarrow> if v = [] then [] else [(k, JStr v)] | None \<Rightarrow> [])
       EFFECT_MARKER_MAP)"

definition strip_markers :: "(string \<times> json) list \<Rightarrow> (string \<times> json) list" where
  "strip_markers p = filter (\<lambda>(k, v). k \<notin> set EFFECT_MARKER_KEYS) p"

definition dict_update :: "(string \<times> json) list \<Rightarrow> (string \<times> json) list \<Rightarrow> (string \<times> json) list" where
  \<comment> \<open>\<^verbatim>\<open>d.update(e)\<close>\<close>
  "dict_update d e = foldl (\<lambda>d (k, v). dict_set k v d) d e"

definition resolve_effect_surface ::
    "json \<Rightarrow> effect_cols option \<Rightarrow> bool \<Rightarrow> (exc, effect_cols option \<times> json) result" where
  "resolve_effect_surface parameters effect_columns mirror_markers =
     (case effect_columns of
        None \<Rightarrow>
          rbind (derive_effect_columns parameters) (\<lambda>cols.
          if mirror_markers \<or> cols = None then Inr (cols, parameters)
          else Inr (cols, JObj (strip_markers (obj_fields parameters))))
      | Some ec \<Rightarrow>
          if ec_atomicity ec = None then Inr (None, parameters)
          else
            rbind (assert_domain (jopt (ec_atomicity ec)) EFFECT_ATOMICITY_DOMAIN) (\<lambda>_.
            rbind (assert_phase (jopt (ec_phase ec))) (\<lambda>_.
            let cols = ec\<lparr>ec_model_id := Some EFFECT_ATOMICITY_MODEL_ID\<rparr>;
                derived = derive_effect_markers cols;
                pin = obj_fields parameters in
            rbind (rguard (list_all (\<lambda>mk. case map_of pin mk of None \<Rightarrow> True | Some v \<Rightarrow> v = jget derived mk)
                     EFFECT_MARKER_KEYS) EffectDomainError) (\<lambda>_.
            let kept = strip_markers pin in
            Inr (Some cols, JObj (if mirror_markers then dict_update kept derived else kept))))))"

definition verify_effect_column_marker_consistency :: "receipt \<Rightarrow> bool" where
  \<comment> \<open>version 0 reads as 1\<close>
  "verify_effect_column_marker_consistency r =
     (if r_version r \<noteq> 4 then True
      else let p = obj_fields (r_parameters r); e = r_effect r in
        list_all (\<lambda>(k, col). jopt (col e) = jget p k) EFFECT_MARKER_MAP \<and>
        ec_model_id e = Some EFFECT_ATOMICITY_MODEL_ID \<and>
        (\<exists>a\<in>set EFFECT_ATOMICITY_DOMAIN. ec_atomicity e = Some a) \<and>
        (ec_phase e = None \<or> (\<exists>ph\<in>set EFFECT_PHASE_DOMAIN. ec_phase e = Some ph)))"

subsection \<open>Terminal outcomes\<close>

definition TERMINAL_OUTCOME_MODEL_ID :: string where
  "TERMINAL_OUTCOME_MODEL_ID = ''terminal_outcome_model_v1''"

definition TERMINAL_OUTCOME_DOMAIN :: "string list" where
  "TERMINAL_OUTCOME_DOMAIN = [''ADMIT'', ''REFUSE'', ''DEFER'', ''STRUCTURAL_ERROR'', ''BRIDGE'', ''CRISIS'']"

definition EMITTABLE_OUTCOMES :: "string list" where
  "EMITTABLE_OUTCOMES = [''ADMIT'', ''REFUSE'', ''STRUCTURAL_ERROR'']"

type_synonym bridge_verifier = "json \<Rightarrow> bool \<times> string"

definition assert_emittable :: "string \<Rightarrow> json \<Rightarrow> json \<Rightarrow> bridge_verifier option \<Rightarrow> (exc, unit) result" where
  "assert_emittable outcome continuation bridge verifier =
     (if outcome \<notin> set TERMINAL_OUTCOME_DOMAIN then Inl (PyExc ValueError)
      else if outcome = ''DEFER'' then
        rbind (rguard (is_obj continuation \<and> jget (obj_fields continuation) ''state'' = JStr ''HELD'') ReservedOutcomeError) (\<lambda>_.
        rbind (validate_continuation continuation) (\<lambda>_. Inr ()))
      else if outcome = ''BRIDGE'' then
        rbind (rguard (is_obj bridge \<and> obj_fields bridge \<noteq> []) ReservedOutcomeError) (\<lambda>_.
        case verifier of
          None \<Rightarrow> Inl ReservedOutcomeError
        | Some f \<Rightarrow> rguard (fst (f bridge)) ReservedOutcomeError)
      else rguard (outcome \<in> set EMITTABLE_OUTCOMES) ReservedOutcomeError)"

definition derive_committed_outcome :: "string \<Rightarrow> bool \<Rightarrow> string option \<Rightarrow> string \<Rightarrow> string \<times> string" where
  "derive_committed_outcome opn failed override intent =
     (case override of
        Some ov \<Rightarrow> (ov, intent)
      | None \<Rightarrow>
          if opn = ''gate_refuse'' then (''REFUSE'', ''constitutional-refusal'')
          else if opn = ''protocol_error'' then
            (''STRUCTURAL_ERROR'', if intent = [] then ''protocol_error'' else intent)
          else (''ADMIT'', if failed then ''admitted-effect-aborted'' else ''all-surfaces-pass''))"

subsection \<open>Live migration statements\<close>

datatype migration_rejection =
    EmptyStatement | MultipleStatements | NotPermitted string | ForbiddenOperation string
  | AlterNotAddColumn string | NotNullWithoutDefault string

definition FORBIDDEN_MIGRATION_TOKENS :: "string list" where
  "FORBIDDEN_MIGRATION_TOKENS =
     [''DROP TABLE'', ''DROP INDEX'', ''DROP COLUMN'', ''DELETE'', ''UPDATE'', ''INSERT'',
      ''TRUNCATE'', ''PRAGMA'', ''RENAME'', ''REPLACE'', ''ATTACH'', ''DETACH'']"

fun split_words :: "string \<Rightarrow> string \<Rightarrow> string list" where
  \<comment> \<open>\<^verbatim>\<open>s.split()\<close>, with the word being read reversed in the accumulator\<close>
  "split_words w [] = (if w = [] then [] else [rev w])"
| "split_words w (c # s) =
     (if py_space c then (if w = [] then split_words [] s else rev w # split_words [] s)
      else split_words (c # w) s)"

fun join_words :: "string list \<Rightarrow> string" where
  "join_words [] = []"
| "join_words [w] = w"
| "join_words (w # ws) = w @ CHR '' '' # join_words ws"

definition rstrip_semi :: "string \<Rightarrow> string" where
  "rstrip_semi s = rev (dropWhile (\<lambda>c. c = CHR '';'') (rev s))"

definition upper_char :: "char \<Rightarrow> string" where
  \<comment> \<open>\<^verbatim>\<open>str.upper\<close> on the Latin-1 range, where it stays in that range; the two letters whose
     capital is outside it (micro sign and y with diaeresis) are left alone, neither occurs in a keyword\<close>
  "upper_char c =
     (let n = of_char c :: nat in
      if 97 \<le> n \<and> n \<le> 122 \<or> 224 \<le> n \<and> n \<le> 254 \<and> n \<noteq> 247 then [char_of (n - 32)]
      else if n = 223 then ''SS'' else [c])"

definition upper :: "string \<Rightarrow> string" where
  "upper s = concat (map upper_char s)"

definition validate_migration_statement :: "string \<Rightarrow> migration_rejection option" where
  "validate_migration_statement stmt =
     (if strip stmt = [] then Some EmptyStatement
      else let s = join_words (split_words [] (strip stmt)); u = '' '' @ upper (rstrip_semi s) @ '' '' in
        if CHR '';'' \<in> set (rstrip_semi s) then Some MultipleStatements
        else if \<not> (prefix '' CREATE TABLE '' u \<or> prefix '' CREATE INDEX '' u
             \<or> prefix '' CREATE UNIQUE INDEX '' u \<or> prefix '' ALTER TABLE '' u) then Some (NotPermitted (take 60 s))
        else case find (\<lambda>tok. sublist ('' '' @ tok @ '' '') u \<or> sublist ('' '' @ tok @ ''('') u) FORBIDDEN_MIGRATION_TOKENS of
          Some tok \<Rightarrow> Some (ForbiddenOperation tok)
        | None \<Rightarrow>
            if prefix '' ALTER TABLE '' u \<and> \<not> sublist '' ADD COLUMN '' u then Some (AlterNotAddColumn (take 60 s))
            else if prefix '' ALTER TABLE '' u \<and> sublist ''NOT NULL'' u \<and> \<not> sublist ''DEFAULT'' u
              then Some (NotNullWithoutDefault (take 60 s))
            else None)"

subsection \<open>Schema fingerprint\<close>

record column_info =
  ci_name :: string
  ci_type :: string
  ci_notnull :: bool
  ci_default :: "string option"
  ci_pk :: nat

type_synonym db_schema = "(string \<times> column_info list) list"
  \<comment> \<open>the user tables of \<^verbatim>\<open>sqlite_master\<close> and their \<^verbatim>\<open>PRAGMA table_info\<close> in \<open>cid\<close> order\<close>

definition column_json :: "column_info \<Rightarrow> json" where
  "column_json c = JList [JStr (ci_name c), JStr (ci_type c), JInt (of_bool (ci_notnull c)),
     jopt (ci_default c), JInt (int (ci_pk c))]"

definition schema_shape :: "db_schema \<Rightarrow> json" where
  "schema_shape sch = JObj (map (\<lambda>(t, cols). (t, JList (map column_json cols))) sch)"

definition compute_schema_hash :: "db_schema \<Rightarrow> string" where
  "compute_schema_hash sch = to_hex (sha256 (utf8 (dumps compact_ascii (schema_shape sch))))"

definition EXPECTED_SCHEMA_HASH :: string where
  "EXPECTED_SCHEMA_HASH = ''82d02279c39d5fa82d6bb18a2a12b0f85cc5210a93502d827a9f89c570327c99''"

subsection \<open>What the effect surface commits\<close>

lemma map_of_strip_markers: "map_of (strip_markers p) k = (if k \<in> set EFFECT_MARKER_KEYS then None else map_of p k)"
  by (induction p) (auto simp: strip_markers_def)

lemma assert_domain_ok: "assert_domain v ds = Inr () \<longleftrightarrow> (\<exists>s\<in>set ds. v = JStr s)"
  by (auto simp: assert_domain_def in_domain_def rbind_eq_Inr rguard_eq_Inr)

lemma assert_phase_ok: "assert_phase (jopt ph) = Inr () \<longleftrightarrow> (\<forall>p. ph = Some p \<longrightarrow> p \<in> set EFFECT_PHASE_DOMAIN)"
  by (cases ph) (auto simp: assert_phase_def assert_domain_ok jopt_def)

definition effect_well_formed :: "effect_cols \<Rightarrow> bool" where
  "effect_well_formed e \<longleftrightarrow> ec_model_id e = Some EFFECT_ATOMICITY_MODEL_ID \<and>
     (\<exists>a\<in>set EFFECT_ATOMICITY_DOMAIN. ec_atomicity e = Some a) \<and>
     (\<forall>ph. ec_phase e = Some ph \<longrightarrow> ph \<in> set EFFECT_PHASE_DOMAIN)"

lemma derive_effect_columns_Some:
  assumes "derive_effect_columns p = Inr (Some cols)"
  shows "effect_well_formed cols \<and> list_all (\<lambda>(k, col). jget (obj_fields p) k = jopt (col cols)) EFFECT_MARKER_MAP"
  using assms unfolding derive_effect_columns_def
  by (auto simp: Let_def result_simps rmap_eq_Inr EFFECT_MARKER_KEYS_def EFFECT_MARKER_MAP_def text_column_eq_Inr
      effect_well_formed_def assert_domain_ok assert_phase_ok list_all2_Cons1 split: if_splits)

lemma resolve_column_primary:
  assumes "resolve_effect_surface p (Some ec) False = Inr (Some cols, q)"
  shows "cols = ec\<lparr>ec_model_id := Some EFFECT_ATOMICITY_MODEL_ID\<rparr>" "effect_well_formed cols"
    "q = JObj (strip_markers (obj_fields p))"
    "k \<in> set EFFECT_MARKER_KEYS \<Longrightarrow> map_of (obj_fields p) k = Some v \<Longrightarrow> v = jget (derive_effect_markers cols) k"
  using assms unfolding resolve_effect_surface_def
  by (auto simp: Let_def result_simps effect_well_formed_def assert_domain_ok assert_phase_ok list_all_iff
      split: if_splits option.splits)

lemma map_of_optional:
  assumes "distinct (map fst xs)" "(k, a) \<in> set xs"
  shows "map_of (concat (map (\<lambda>(k, a). case f a of None \<Rightarrow> [] | Some v \<Rightarrow> [(k, v)]) xs)) k = f a"
  using assms
proof (induction xs)
  case (Cons x xs)
  have n: "map_of (concat (map (\<lambda>(k, a). case f a of None \<Rightarrow> [] | Some v \<Rightarrow> [(k, v)]) ys)) k = None"
    if "k \<notin> fst ` set ys" for ys
    using that by (induction ys) (auto split: option.splits)
  show ?case
  proof (cases "x = (k, a)")
    case True
    then show ?thesis using Cons.prems n [of xs] by (cases "f a") auto
  next
    case False
    then have m: "(k, a) \<in> set xs" using Cons.prems(2) by simp
    then have "k \<in> set (map fst xs)" by (metis fst_conv image_eqI set_map)
    then have "k \<noteq> fst x" using Cons.prems(1) by (metis distinct.simps(2) list.simps(9))
    with m have "k \<noteq> fst x" "(k, a) \<in> set xs" by auto
    then show ?thesis using Cons by (auto split: prod.splits option.splits)
  qed
qed simp

lemma distinct_marker_keys: "distinct (map fst EFFECT_MARKER_MAP)"
  by (simp add: EFFECT_MARKER_MAP_def)

definition truthy :: "string option \<Rightarrow> string option" where
  "truthy x = (if x = Some [] then None else x)"

lemma jget_derive_effect_markers:
  assumes "(k, col) \<in> set EFFECT_MARKER_MAP"
  shows "jget (derive_effect_markers cols) k = jopt (truthy (col cols))"
proof -
  have "derive_effect_markers cols = concat (map (\<lambda>(k, col). case map_option JStr (truthy (col cols)) of
      None \<Rightarrow> [] | Some v \<Rightarrow> [(k, v)]) EFFECT_MARKER_MAP)"
    unfolding derive_effect_markers_def truthy_def
    by (intro arg_cong [where f = concat] map_cong refl) (auto split: option.splits)
  then show ?thesis
    using map_of_optional [OF distinct_marker_keys assms, of "\<lambda>col. map_option JStr (truthy (col cols))"]
    by (cases "truthy (col cols)") (simp_all add: jget_def jopt_def)
qed

text \<open>C15. From body version 5 on (no marker mirror) an effect-bearing receipt
  commits its effect description exactly once, in the typed columns: the columns are in the closed domains,
  the committed parameters contain none of the eight marker keys and are otherwise the caller's, and a marker
  the caller did put into the parameters agreed with the column that was committed.\<close>

theorem effect_surface_committed_once:
  assumes "resolve_effect_surface p ec False = Inr (Some cols, q)"
  shows "effect_well_formed cols \<and> is_obj q \<and>
    (\<forall>k. map_of (obj_fields q) k = (if k \<in> set EFFECT_MARKER_KEYS then None else map_of (obj_fields p) k)) \<and>
    (\<forall>(k, col)\<in>set EFFECT_MARKER_MAP. \<forall>v. map_of (obj_fields p) k = Some v \<longrightarrow>
       v = jopt (col cols) \<or> v = jopt (truthy (col cols)))"
proof (cases ec)
  case None
  then have d: "derive_effect_columns p = Inr (Some cols)" and q: "q = JObj (strip_markers (obj_fields p))"
    using assms by (auto simp: resolve_effect_surface_def rbind_eq_Inr split: if_splits)
  show ?thesis using derive_effect_columns_Some [OF d] q
    by (auto simp: map_of_strip_markers list_all_iff jget_def)
next
  case (Some e)
  note r = resolve_column_primary [OF assms [unfolded Some]]
  have "v = jopt (truthy (col cols))" if "(k, col) \<in> set EFFECT_MARKER_MAP" "map_of (obj_fields p) k = Some v" for k col v
    using r(4) [of k v] jget_derive_effect_markers [OF that(1), of cols] that
    by (force simp: EFFECT_MARKER_KEYS_def)
  then show ?thesis using r(2,3) by (auto simp: map_of_strip_markers)
qed

theorem effect_surface_committed_once_witness:
  "let p = JObj [(''note'', JStr ''x''), (''phase'', JStr ''prepare'')];
       e = no_effect\<lparr>ec_atomicity := Some ''external_irreversible'', ec_phase := Some ''prepare''\<rparr>;
       cols = e\<lparr>ec_model_id := Some EFFECT_ATOMICITY_MODEL_ID\<rparr>
   in resolve_effect_surface p (Some e) False = Inr (Some cols, JObj [(''note'', JStr ''x'')]) \<and>
      effect_well_formed cols"
proof -
  let ?p = "JObj [(''note'', JStr ''x''), (''phase'', JStr ''prepare'')]"
  let ?e = "no_effect\<lparr>ec_atomicity := Some ''external_irreversible'', ec_phase := Some ''prepare''\<rparr>"
  let ?c = "?e\<lparr>ec_model_id := Some EFFECT_ATOMICITY_MODEL_ID\<rparr>"
  have "resolve_effect_surface ?p (Some ?e) False = Inr (Some ?c, JObj [(''note'', JStr ''x'')])"
    by (simp add: resolve_effect_surface_def no_effect_def assert_domain_def in_domain_def assert_phase_def Let_def
        EFFECT_ATOMICITY_DOMAIN_def EFFECT_PHASE_DOMAIN_def EFFECT_MARKER_KEYS_def EFFECT_MARKER_MAP_def
        derive_effect_markers_def jget_def strip_markers_def jopt_def)
  from this effect_surface_committed_once [OF this] show ?thesis by (simp add: Let_def)
qed

subsection \<open>What may be emitted\<close>

lemma in_domain_Inr: "in_domain v ds = Inr b \<longleftrightarrow> hashable v \<and> b = (\<exists>s\<in>set ds. v = JStr s)"
  by (auto simp: in_domain_def)

text \<open>emittable outcomes. The terminal-outcome gate: a value outside the closed six-value domain and the
  reserved value CRISIS are never emittable; DEFER is emittable exactly with a valid HELD continuation; BRIDGE
  exactly with a non-empty bridge surface that an explicitly supplied verifier accepts; the three ordinary
  outcomes need neither. With a non-BRIDGE, non-DEFER outcome the gate ignores the continuation and bridge.\<close>

theorem emittable_outcomes:
  "assert_emittable out c b v = Inr () \<longleftrightarrow>
     out \<in> {''ADMIT'', ''REFUSE'', ''STRUCTURAL_ERROR''} \<or>
     out = ''DEFER'' \<and> is_obj c \<and> jget (obj_fields c) ''state'' = JStr ''HELD'' \<and> (\<exists>k. validate_continuation c = Inr k) \<or>
     out = ''BRIDGE'' \<and> is_obj b \<and> obj_fields b \<noteq> [] \<and> (\<exists>f. v = Some f \<and> fst (f b))"
  by (cases v) (auto simp: assert_emittable_def TERMINAL_OUTCOME_DOMAIN_def EMITTABLE_OUTCOMES_def result_simps)

subsection \<open>Expiry\<close>

lemma validate_expiry_basis_ok:
  assumes "validate_expiry_basis eb = Inr ()"
  obtains d v where "eb = JObj d" "jget d ''kind'' = JStr ''receipt_height''" "map_of d ''value'' = Some v" "is_py_int v"
  | d v where "eb = JObj d" "jget d ''kind'' = JStr ''explicit_trigger''" "map_of d ''value'' = Some v"
proof -
  from assms obtain d where d: "eb = JObj d" and k: "set (map fst d) = {''kind'', ''value''}"
    and t: "jget d ''kind'' = JStr ''receipt_height'' \<longrightarrow> is_py_int (jget d ''value'')"
    and u: "jget d ''kind'' = JStr ''receipt_height'' \<or> jget d ''kind'' = JStr ''explicit_trigger''"
    by (cases eb) (auto simp: validate_expiry_basis_def Let_def result_simps in_domain_Inr CONTINUATION_EXPIRY_KIND_DOMAIN_def)
  have "''value'' \<in> set (map fst d)" using k by simp
  then obtain v where v: "map_of d ''value'' = Some v"
    by (metis map_of_eq_None_iff not_None_eq set_map)
  then have "jget d ''value'' = v" by (simp add: jget_def)
  with that d v t u show thesis by blast
qed

lemma validated_expiry_basis:
  assumes "validate_continuation c = Inr k"
  shows "\<exists>eb. eb = jget (obj_fields c) ''expiry_basis'' \<and> validate_expiry_basis eb = Inr () \<and> cc_expiry_basis k = Some eb"
proof -
  let ?eb = "jget (obj_fields c) ''expiry_basis''"
  from assms have v: "validate_expiry_basis ?eb = Inr ()" and k: "cc_expiry_basis k = json_column ?eb"
    unfolding validate_continuation_def Let_def rbind_eq_Inr by auto
  from v have "?eb \<noteq> JNull" by (auto simp: validate_expiry_basis_def)
  with v k show ?thesis by (simp add: json_column_def)
qed

text \<open>continuation expiry decided. Expiry is a total function of committed evidence: for every continuation
  record the validator accepts, the expiry basis it stores is decided for every chain height and every list of
  committed triggers the trigger value can be looked up in (an error arises only for an unhashable trigger
  value), and a continuation that has expired stays expired as the height grows and triggers are added.\<close>

theorem continuation_expiry_decided:
  assumes "validate_continuation c = Inr k"
  shows "((\<exists>b. continuation_expired (cc_expiry_basis k) h ts = Inr b) \<or>
        \<not> hashable (jget (obj_fields (jget (obj_fields c) ''expiry_basis'')) ''value'') \<and>
        continuation_expired (cc_expiry_basis k) h ts = Inl (PyExc TypeError)) \<and>
      (continuation_expired (cc_expiry_basis k) h ts = Inr True \<and> h \<le> h' \<and> set ts \<subseteq> set ts' \<longrightarrow>
        continuation_expired (cc_expiry_basis k) h' ts' = Inr True)"
proof -
  let ?eb = "jget (obj_fields c) ''expiry_basis''"
  from validated_expiry_basis [OF assms]
  have ok: "validate_expiry_basis ?eb = Inr ()" and eb: "cc_expiry_basis k = Some ?eb" by blast+
  from ok show ?thesis
  proof (cases rule: validate_expiry_basis_ok)
    case (1 d v)
    then show ?thesis by (cases v) (auto simp: eb continuation_expired_def Let_def)
  next
    case (2 d v)
    then show ?thesis by (auto simp: eb continuation_expired_def Let_def in_domain_def jget_def)
  qed
qed

definition sample_continuation :: json where
  "sample_continuation = JObj [(''state'', JStr ''HELD''), (''op'', JStr ''transfer''), (''authority'', JStr ''governor''),
     (''parameters'', JObj []), (''jurisdiction'', JStr ''root''), (''id'', JStr ''c1''),
     (''expiry_basis'', JObj [(''kind'', JStr ''receipt_height''), (''value'', JInt 5)])]"

theorem continuation_expiry_decided_witness:
  "\<exists>k. validate_continuation sample_continuation = Inr k \<and>
     continuation_expired (cc_expiry_basis k) 4 [] = Inr False \<and>
     continuation_expired (cc_expiry_basis k) 5 [] = Inr True \<and>
     continuation_expired (cc_expiry_basis k) 9 [''t''] = Inr True"
proof -
  have "\<exists>k. validate_continuation sample_continuation = Inr k"
    by (simp add: validate_continuation_def sample_continuation_def jget_def Let_def in_domain_def
        CONTINUATION_STATE_DOMAIN_def validate_expiry_basis_def CONTINUATION_EXPIRY_KIND_DOMAIN_def insert_commute
        non_empty_str_def continuation_identity_def)
  then obtain k where k: "validate_continuation sample_continuation = Inr k" ..
  have eb: "cc_expiry_basis k = Some (JObj [(''kind'', JStr ''receipt_height''), (''value'', JInt 5)])"
    using validated_expiry_basis [OF k] by (simp add: sample_continuation_def jget_def)
  have "continuation_expired (cc_expiry_basis k) 5 [] = Inr True" "continuation_expired (cc_expiry_basis k) 4 [] = Inr False"
    by (simp_all add: eb continuation_expired_def jget_def Let_def)
  with k continuation_expiry_decided [OF k, of 5 "[]" 9 "[''t'']"] show ?thesis by simp
qed

subsection \<open>Identity of a continuation\<close>

lemma continuation_id_binds:
  assumes "compute_continuation_id a b c d e = compute_continuation_id a' b' c' d' e'"
  shows "map norm_json [a, b, c, d, e] = map norm_json [a', b', c', d', e'] \<or>
    collide (continuation_payload a b c d e) (continuation_payload a' b' c' d' e')"
proof (cases "continuation_payload a b c d e = continuation_payload a' b' c' d' e'")
  case True
  then have "map norm_json [a, b, c, d, e] = map norm_json [a', b', c', d', e']"
    by (intro canon_obj_inject [of "[''op'', ''authority'', ''parameters'', ''jurisdiction'', ''anchor'']"])
      (simp_all add: continuation_payload_def)
  then show ?thesis by blast
next
  case False
  then show ?thesis using assms by (simp add: compute_continuation_id_def collide_def)
qed

end
