(* ===== verification/Evidence.thy ===== *)
theory Evidence
  imports Legend "HOL-Library.Product_Lexorder"
begin

text \<open>
  The capability-evidence dispatcher (\<^verbatim>\<open>ugk/cgp/dispatch.py\<close>): it turns the capability registry into a
  content-addressed ledger with one verdict per capability in scope, and commits a ledger to a receipt by
  \<open>h_cap\<close>. The registry is a JSON object as in the source. Two things are parameters: which conformance gate
  modules exist (\<^verbatim>\<open>importlib.util.find_spec\<close>) and the gate runner, whose result is the exception's type name
  or the gate's verdict.

  Main results: the dispatcher disposes of every registry capability exactly once and never reports PROVEN
  without a gate that ran and passed; the commitment reports the verdicts of the ledger unchanged.
\<close>

subsection \<open>Python text of a value\<close>

definition truth :: "json \<Rightarrow> bool" where
  "truth v = (case v of JNull \<Rightarrow> False | JBool b \<Rightarrow> b | JInt i \<Rightarrow> i \<noteq> 0
     | JFloat f \<Rightarrow> float_repr f \<noteq> ''0.0'' \<and> float_repr f \<noteq> ''-0.0''
     | JStr s \<Rightarrow> s \<noteq> [] | JList xs \<Rightarrow> xs \<noteq> [] | JObj kvs \<Rightarrow> kvs \<noteq> [])"

definition repr_char :: "char \<Rightarrow> char \<Rightarrow> string" where
  "repr_char q c =
     (let n = of_char c :: nat in
      if c = q \<or> n = 92 then [CHR 0x5C, c]
      else if n = 10 then [CHR 0x5C, CHR ''n''] else if n = 13 then [CHR 0x5C, CHR ''r'']
      else if n = 9 then [CHR 0x5C, CHR ''t'']
      else if n < 32 \<or> 127 \<le> n \<and> n \<le> 160 \<or> n = 173
        then [CHR 0x5C, CHR ''x'', hex_digit (n div 16), hex_digit (n mod 16)]
      else [c])"

definition repr_str :: "string \<Rightarrow> string" where
  "repr_str s = (let q = (if CHR 0x27 \<in> set s \<and> CHR 0x22 \<notin> set s then CHR 0x22 else CHR 0x27) in
     q # concat (map (repr_char q) s) @ [q])"

fun py_repr :: "json \<Rightarrow> string"
  and repr_items :: "json list \<Rightarrow> string"
  and repr_fields :: "(string \<times> json) list \<Rightarrow> string" where
  "py_repr JNull = ''None''"
| "py_repr (JBool b) = (if b then ''True'' else ''False'')"
| "py_repr (JInt i) = show_int i"
| "py_repr (JFloat f) = float_repr f"
| "py_repr (JStr s) = repr_str s"
| "py_repr (JList []) = ''[]''"
| "py_repr (JList (x # xs)) = ''['' @ py_repr x @ repr_items xs"
| "py_repr (JObj []) = ''{}''"
| "py_repr (JObj ((k, v) # kvs)) = ''{'' @ repr_str k @ '': '' @ py_repr v @ repr_fields kvs"
| "repr_items [] = '']''"
| "repr_items (x # xs) = '', '' @ py_repr x @ repr_items xs"
| "repr_fields [] = ''}''"
| "repr_fields ((k, v) # kvs) = '', '' @ repr_str k @ '': '' @ py_repr v @ repr_fields kvs"

fun py_str :: "json \<Rightarrow> string" where
  \<comment> \<open>\<^verbatim>\<open>str(v)\<close>\<close>
  "py_str (JStr s) = s"
| "py_str v = py_repr v"

definition get_or :: "(string \<times> json) list \<Rightarrow> string \<Rightarrow> json \<Rightarrow> json" where
  \<comment> \<open>\<^verbatim>\<open>d.get(k, default)\<close>\<close>
  "get_or d k dflt = (case map_of d k of None \<Rightarrow> dflt | Some v \<Rightarrow> v)"

definition lower_char :: "char \<Rightarrow> char" where
  "lower_char c = (let n = of_char c :: nat in
     if 65 \<le> n \<and> n \<le> 90 \<or> 192 \<le> n \<and> n \<le> 222 \<and> n \<noteq> 215 then char_of (n + 32) else c)"

fun join_with :: "string \<Rightarrow> string list \<Rightarrow> string" where
  "join_with sep [] = []"
| "join_with sep [w] = w"
| "join_with sep (w # ws) = w @ sep @ join_with sep ws"

subsection \<open>Types\<close>

definition VERDICTS :: "string list" where
  "VERDICTS = [''PROVEN'', ''FAIL'', ''GAP'', ''WAIVED'', ''BY-CONSTRUCTION'', ''NOT-RUN'', ''ERROR'']"

definition SELECTORS :: "string list" where
  "SELECTORS = [''core'', ''live'', ''full'', ''custom'']"

definition LIVE_CLASSES :: "string list" where
  "LIVE_CLASSES = [''gate-suite'', ''scenario-sweep'', ''receipt-aggregation'']"

definition DEFERRED_CLASSES :: "string list" where
  "DEFERRED_CLASSES = [''scenario-sweep'', ''coverage-map'', ''interpretive-pack'', ''receipt-aggregation'']"

definition KNOWN_CLASSES :: "string list" where
  "KNOWN_CLASSES = [''gate-suite'', ''scenario-sweep'', ''coverage-map'', ''interpretive-pack'', ''receipt-aggregation'']"

definition BY_CONSTRUCTION_MARKERS :: "string list" where
  "BY_CONSTRUCTION_MARKERS = [''implicit'', ''by construction'', ''by-construction'', ''substrate level'', ''structural'']"

record evidence_artifact =
  \<comment> \<open>\<^verbatim>\<open>scenario_result\<close> is never hashed and never set here\<close>
  ea_invariant :: string
  ea_verdict :: string
  ea_evidence_class :: json
  ea_details :: string
  ea_instrument_exit :: "int option"

record waiver_record =
  wv_cap_id :: string
  wv_authority :: string
  wv_reason :: string
  wv_evidence_ref :: string

record dispatch_scope =
  ds_scope_id :: string
  ds_in_scope :: "string list option"
  ds_waivers :: "waiver_record list"
  ds_custom_set :: "string list option"

record evidence_ledger =
  lg_registry_version :: string
  lg_scope_id :: string
  lg_selector :: string
  lg_runner_id :: string
  lg_store_head :: string
  lg_artifacts :: "evidence_artifact list"
  lg_out_of_scope :: "string list"
  lg_waivers :: "waiver_record list"
  lg_gaps :: "string list"
  lg_ledger_hash :: string

subsection \<open>Deterministic serialisation\<close>

definition artifact_body :: "evidence_artifact \<Rightarrow> json" where
  "artifact_body a = JObj (zip [''invariant'', ''verdict'', ''evidence_class'', ''details'', ''instrument_exit'']
     [JStr (ea_invariant a), JStr (ea_verdict a), ea_evidence_class a, JStr (ea_details a),
      (case ea_instrument_exit a of None \<Rightarrow> JNull | Some i \<Rightarrow> JInt i)])"

definition waiver_body :: "waiver_record \<Rightarrow> json" where
  "waiver_body w = JObj (zip [''cap_id'', ''authority'', ''reason'', ''evidence_ref'']
     [JStr (wv_cap_id w), JStr (wv_authority w), JStr (wv_reason w), JStr (wv_evidence_ref w)])"

definition LEDGER_KEYS :: "string list" where
  "LEDGER_KEYS = [''registry_version'', ''scope_id'', ''selector'', ''runner_id'', ''store_head'', ''artifacts'',
     ''out_of_scope'', ''waivers'', ''gaps'']"

definition ledger_body :: "evidence_ledger \<Rightarrow> json" where
  "ledger_body g = JObj (zip LEDGER_KEYS
     [JStr (lg_registry_version g), JStr (lg_scope_id g), JStr (lg_selector g), JStr (lg_runner_id g),
      JStr (lg_store_head g), JList (map artifact_body (lg_artifacts g)), jstrs (lg_out_of_scope g),
      JList (map waiver_body (lg_waivers g)), jstrs (lg_gaps g)])"

definition hash_body :: "json \<Rightarrow> string" where
  "hash_body body = to_hex (sha256 (utf8 ''CGP-LEDGER-v1'' @ canonical_json body))"

definition ledger_verify_hash :: "evidence_ledger \<Rightarrow> bool" where
  "ledger_verify_hash g \<longleftrightarrow> lg_ledger_hash g = hash_body (ledger_body g)"

definition verdict_counts :: "evidence_ledger \<Rightarrow> string \<Rightarrow> nat" where
  "verdict_counts g v = length (filter (\<lambda>a. ea_verdict a = v) (lg_artifacts g))"

subsection \<open>Commitment\<close>

definition CAPABILITY_EVIDENCE_MODEL_ID :: string where
  "CAPABILITY_EVIDENCE_MODEL_ID = ''capability_evidence_model_v1''"

record capability_commitment =
  cm_h_cap :: string
  cm_model_id :: string
  cm_ledger_hash :: string
  cm_registry_version :: string
  cm_scope_id :: string

definition verdict_census :: "evidence_ledger \<Rightarrow> string \<Rightarrow> string list" where
  "verdict_census g v = sort (map ea_invariant (filter (\<lambda>a. ea_verdict a = v) (lg_artifacts g)))"

definition BINDING_KEYS :: "string list" where
  "BINDING_KEYS = [''ledger_hash'', ''registry_version'', ''scope_id'', ''selector'', ''verdict_census'', ''waivers'',
     ''gaps'', ''out_of_scope'']"

definition sorted_waivers :: "evidence_ledger \<Rightarrow> (string \<times> string) list" where
  "sorted_waivers g = sort (map (\<lambda>w. (wv_cap_id w, wv_authority w)) (lg_waivers g))"

definition binding_body :: "evidence_ledger \<Rightarrow> json" where
  "binding_body g = JObj (zip BINDING_KEYS
     [JStr (lg_ledger_hash g), JStr (lg_registry_version g), JStr (lg_scope_id g), JStr (lg_selector g),
      JObj (zip VERDICTS (map (\<lambda>v. jstrs (verdict_census g v)) VERDICTS)),
      JList (map (\<lambda>(c, a). JObj (zip [''cap_id'', ''authority''] [JStr c, JStr a])) (sorted_waivers g)),
      jstrs (sort (lg_gaps g)), jstrs (sort (lg_out_of_scope g))])"

definition capability_preimage :: "evidence_ledger \<Rightarrow> bytes" where
  "capability_preimage g = utf8 ''UGK-CAP-v1'' @ canonical_json (binding_body g)"

definition capability_evidence_commitment :: "evidence_ledger \<Rightarrow> (pyexc, capability_commitment) result" where
  "capability_evidence_commitment g =
     rbind (rguard (ledger_verify_hash g) ValueError) (\<lambda>_.
     rbind (rguard (list_all (\<lambda>a. ea_verdict a \<in> set VERDICTS) (lg_artifacts g)) ValueError) (\<lambda>_.
     Inr \<lparr>cm_h_cap = to_hex (sha256 (capability_preimage g)), cm_model_id = CAPABILITY_EVIDENCE_MODEL_ID,
          cm_ledger_hash = lg_ledger_hash g, cm_registry_version = lg_registry_version g,
          cm_scope_id = lg_scope_id g\<rparr>))"

subsection \<open>Resolving a capability's binding\<close>

definition ugk_realization :: "json \<Rightarrow> json" where
  \<comment> \<open>\<^const>\<open>JNull\<close> for \<^verbatim>\<open>None\<close>\<close>
  "ugk_realization cap =
     (if \<not> is_obj cap then JNull
      else let reals = get_or (obj_fields cap) ''realizations'' JNull in
        if \<not> is_obj reals then JNull else get_or (obj_fields reals) ''UGK'' JNull)"

definition class_of :: "json \<Rightarrow> json option" where
  "class_of r = (let c = get_or (obj_fields r) ''evidence_class'' JNull in
     if is_obj r \<and> truth c then Some c else None)"

fun first_class :: "(string \<times> json) list \<Rightarrow> json" where
  "first_class [] = JStr []"
| "first_class ((k, r) # rs) = (case class_of r of Some c \<Rightarrow> c | None \<Rightarrow> first_class rs)"

definition primary_evidence_class :: "json \<Rightarrow> json" where
  "primary_evidence_class cap =
     (if \<not> is_obj cap then JStr []
      else case class_of (ugk_realization cap) of
        Some c \<Rightarrow> c
      | None \<Rightarrow>
          let reals = get_or (obj_fields cap) ''realizations'' JNull in
          if is_obj reals then first_class (sort_key fst (obj_fields reals)) else JStr [])"

definition text_of :: "(string \<times> json) list \<Rightarrow> string \<Rightarrow> string" where
  "text_of d k = py_str (get_or d k (JStr []))"

definition by_construction_marker :: "json \<Rightarrow> json \<Rightarrow> string option" where
  "by_construction_marker cap ugk =
     (if \<not> is_obj cap then None
      else let c = obj_fields cap; u = obj_fields ugk;
        haystacks = (if is_obj ugk then [text_of u ''gate'', text_of u ''notes''] else [])
          @ [text_of c ''deterministic_layer'', text_of c ''notes''];
        blob = map lower_char (join_with '' '' haystacks) in
        find (\<lambda>m. sublist m blob) BY_CONSTRUCTION_MARKERS)"

definition word_char :: "char \<Rightarrow> bool" where
  "word_char c = (let n = of_char c :: nat in
     48 \<le> n \<and> n \<le> 57 \<or> 65 \<le> n \<and> n \<le> 90 \<or> n = 95 \<or> 97 \<le> n \<and> n \<le> 122)"

fun last_gate :: "string \<Rightarrow> string option" where
  \<comment> \<open>the longest prefix of a run of word characters of the form \<^verbatim>\<open>.+_gate\<close>, on the reversed run\<close>
  "last_gate [] = None"
| "last_gate (c # rs) = (if prefix (rev ''_gate'') (c # rs) \<and> length rs > 4 then Some (rev (c # rs)) else last_gate rs)"

fun gate_tokens :: "string \<Rightarrow> string \<Rightarrow> string list" where
  \<comment> \<open>\<^verbatim>\<open>findall("[A-Za-z0-9_]+_gate")\<close>, with the current run reversed in the accumulator\<close>
  "gate_tokens w [] = (case last_gate w of None \<Rightarrow> [] | Some t \<Rightarrow> [t])"
| "gate_tokens w (c # s) =
     (if word_char c then gate_tokens (c # w) s
      else (case last_gate w of None \<Rightarrow> [] | Some t \<Rightarrow> [t]) @ gate_tokens [] s)"

definition resolve_gate_name :: "(string \<Rightarrow> bool) \<Rightarrow> json \<Rightarrow> string option" where
  "resolve_gate_name gate_exists realization =
     (let d = obj_fields realization in
      find gate_exists (gate_tokens [] (join_with '' '' (map (text_of d) [''gate'', ''evidence'', ''notes'']))))"

subsection \<open>Planning and execution\<close>

definition selected :: "string \<Rightarrow> json \<Rightarrow> string \<Rightarrow> dispatch_scope \<Rightarrow> (pyexc, bool) result" where
  "selected cap_id cap selector scope =
     (if selector = ''full'' then Inr True
      else if selector = ''custom'' then
        Inr (case ds_custom_set scope of None \<Rightarrow> False | Some cs \<Rightarrow> cap_id \<in> set cs)
      else if selector = ''core'' then
        let ugk = ugk_realization cap; u = obj_fields ugk in
        if is_obj cap \<and> get_or (obj_fields cap) ''class'' JNull = JStr ''I'' \<and> ugk \<noteq> JNull then
          if is_obj ugk then
            Inr (truth (get_or u ''deterministic'' JNull) \<and> get_or u ''evidence_class'' JNull = JStr ''gate-suite'')
          else Inl AttributeError
        else Inr False
      else if selector = ''live'' then
        Inr (\<exists>c\<in>set LIVE_CLASSES. primary_evidence_class cap = JStr c)
      else Inr False)"

datatype disposition = Out_of_scope | Waived | Not_run_selector | In_scope

definition plan ::
    "string \<Rightarrow> json \<Rightarrow> dispatch_scope \<Rightarrow> string \<Rightarrow> (string \<rightharpoonup> waiver_record) \<Rightarrow> (pyexc, disposition) result" where
  "plan cap_id cap scope selector waiver_by_cap =
     (if (case ds_in_scope scope of None \<Rightarrow> False | Some ids \<Rightarrow> cap_id \<notin> set ids) then Inr Out_of_scope
      else if waiver_by_cap cap_id \<noteq> None then Inr Waived
      else rbind (selected cap_id cap selector scope) (\<lambda>sel. Inr (if sel then In_scope else Not_run_selector)))"

definition resolve_and_execute ::
    "(string \<Rightarrow> bool) \<Rightarrow> (string \<Rightarrow> string + bool) \<Rightarrow> json \<Rightarrow> string \<times> string \<times> json" where
  "resolve_and_execute gate_exists gate_runner cap =
     (if \<not> is_obj cap then (''ERROR'', ''malformed:cap-not-dict'', JStr [])
      else let reals = get_or (obj_fields cap) ''realizations'' JNull; ugk = ugk_realization cap in
        if reals \<noteq> JNull \<and> \<not> is_obj reals then (''GAP'', ''malformed:realizations-not-dict'', JStr [])
        else if ugk \<noteq> JNull \<and> \<not> is_obj ugk then (''GAP'', ''malformed:ugk-realization-not-dict'', JStr [])
        else let ev_class = primary_evidence_class cap; marker = by_construction_marker cap ugk;
            gate_name = (if truth ugk then resolve_gate_name gate_exists ugk else None) in
          case gate_name of
            Some g \<Rightarrow>
              (case gate_runner g of
                 Inl e \<Rightarrow> (''ERROR'', ''gate:'' @ g @ '':error:'' @ e, ev_class)
               | Inr ok \<Rightarrow> (if ok then ''PROVEN'' else ''FAIL'',
                            ''gate:'' @ g @ '':'' @ (if ok then ''ok'' else ''fail''), ev_class))
          | None \<Rightarrow>
              (case marker of
                 Some m \<Rightarrow> (''BY-CONSTRUCTION'', ''by-construction:'' @ m, ev_class)
               | None \<Rightarrow>
                   if ugk = JNull then (''GAP'', ''gap:no-ugk-realization'', ev_class)
                   else if \<exists>c\<in>set DEFERRED_CLASSES. ev_class = JStr c then
                     (''NOT-RUN'', ''not-run:deferred:'' @ py_str ev_class, ev_class)
                   else if ev_class = JStr ''gate-suite'' then (''GAP'', ''gap:no-runnable-ugk-gate'', ev_class)
                   else if ev_class = JStr [] \<or> \<not> (\<exists>c\<in>set KNOWN_CLASSES. ev_class = JStr c) then
                     (''GAP'', ''gap:unknown-evidence-class:'' @ (if truth ev_class then py_str ev_class else ''missing''), ev_class)
                   else (''GAP'', ''gap:unresolved:'' @ py_str ev_class, ev_class)))"

definition mk_artifact :: "string \<Rightarrow> string \<times> string \<times> json \<Rightarrow> evidence_artifact" where
  "mk_artifact cap_id r = (case r of (verdict, detail, ev_class) \<Rightarrow>
     \<lparr>ea_invariant = cap_id, ea_verdict = verdict, ea_evidence_class = ev_class, ea_details = detail,
      ea_instrument_exit = None\<rparr>)"

subsection \<open>Registry version\<close>

definition realization_projection :: "json \<Rightarrow> json" where
  "realization_projection r =
     (if \<not> is_obj r then JObj [(''_malformed'', JBool True)]
      else JObj (map (\<lambda>k. (k, get_or (obj_fields r) k JNull))
        [''evidence_class'', ''gate'', ''deterministic'', ''status'', ''notes'']))"

definition cap_projection :: "json \<Rightarrow> json" where
  "cap_projection cap =
     (if \<not> is_obj cap then JObj [(''_malformed'', JBool True)]
      else let c = obj_fields cap; reals = get_or c ''realizations'' JNull;
          rp = (if is_obj reals then JObj (map (\<lambda>(k, r). (k, realization_projection r)) (sort_key fst (obj_fields reals)))
                else JObj [(''_malformed'', JBool (reals \<noteq> JNull))]) in
        JObj [(''class'', get_or c ''class'' JNull), (''realizations'', rp),
              (''primary_evidence_class'', primary_evidence_class cap),
              (''deterministic_layer'', get_or c ''deterministic_layer'' JNull), (''notes'', get_or c ''notes'' JNull),
              (''interpretive_template'', JBool (get_or c ''interpretive_evidence_template'' JNull \<noteq> JNull))])"

type_synonym registry = "(string \<times> json) list"

definition registry_projection :: "registry \<Rightarrow> json" where
  "registry_projection reg = JObj (map (\<lambda>(k, cap). (k, cap_projection cap)) (sort_key fst reg))"

definition registry_version :: "registry \<Rightarrow> string" where
  "registry_version reg = ''caps:'' @ show_nat (length reg) @ '':'' @
     take 12 (to_hex (sha256 (canonical_json (registry_projection reg))))"

subsection \<open>The dispatcher\<close>

fun check_waivers :: "registry \<Rightarrow> string list \<Rightarrow> waiver_record list \<Rightarrow> (pyexc, unit) result" where
  "check_waivers reg seen [] = Inr ()"
| "check_waivers reg seen (w # ws) =
     (if wv_authority w = [] \<or> wv_reason w = [] then Inl ValueError
      else if wv_cap_id w \<in> set seen then Inl ValueError
      else if map_of reg (wv_cap_id w) = None then Inl ValueError
      else check_waivers reg (wv_cap_id w # seen) ws)"

record dispatch_env =
  \<comment> \<open>code outside the module: the gate modules, the runner's type name, the store's chain tip\<close>
  de_gate_exists :: "string \<Rightarrow> bool"
  de_gate_runner :: "string \<Rightarrow> string + bool"
  de_runner_id :: string
  de_store_head :: string

definition dispatch_one ::
    "dispatch_env \<Rightarrow> dispatch_scope \<Rightarrow> string \<Rightarrow> (string \<rightharpoonup> waiver_record) \<Rightarrow> string \<Rightarrow> json \<Rightarrow>
     (pyexc, evidence_artifact option) result" where
  \<comment> \<open>the body of the loop: \<^verbatim>\<open>None\<close> is the out-of-scope disposition\<close>
  "dispatch_one env scope selector waivers cap_id cap =
     rbind (plan cap_id cap scope selector waivers) (\<lambda>d.
     Inr (case d of
        Out_of_scope \<Rightarrow> None
      | Waived \<Rightarrow> (case waivers cap_id of
          None \<Rightarrow> None
        | Some w \<Rightarrow> Some (mk_artifact cap_id
            (''WAIVED'', ''waived:'' @ wv_authority w @ '':'' @ wv_reason w, primary_evidence_class cap)))
      | Not_run_selector \<Rightarrow> Some (mk_artifact cap_id
          (''NOT-RUN'', ''not-run:selector:'' @ selector, primary_evidence_class cap))
      | In_scope \<Rightarrow> Some (mk_artifact cap_id (resolve_and_execute (de_gate_exists env) (de_gate_runner env) cap))))"

definition waiver_key :: "waiver_record \<Rightarrow> string \<times> string \<times> string \<times> string" where
  "waiver_key w = (wv_cap_id w, wv_authority w, wv_reason w, wv_evidence_ref w)"

definition is_gap :: "evidence_artifact \<Rightarrow> bool" where
  \<comment> \<open>gaps are recorded for executed capabilities, the only ones whose verdict can be GAP\<close>
  "is_gap a \<longleftrightarrow> ea_verdict a = ''GAP''"

definition in_scope_artifacts :: "evidence_artifact option list \<Rightarrow> evidence_artifact list" where
  "in_scope_artifacts rs = concat (map (\<lambda>r. case r of None \<Rightarrow> [] | Some a \<Rightarrow> [a]) rs)"

definition excluded_caps :: "registry \<Rightarrow> evidence_artifact option list \<Rightarrow> string list" where
  "excluded_caps caps rs = concat (map2 (\<lambda>c r. if r = None then [fst c] else []) caps rs)"

definition build_ledger ::
    "dispatch_env \<Rightarrow> registry \<Rightarrow> dispatch_scope \<Rightarrow> string \<Rightarrow> evidence_artifact option list \<Rightarrow> evidence_ledger" where
  "build_ledger env reg scope selector rs =
     (let g = \<lparr>lg_registry_version = registry_version reg, lg_scope_id = ds_scope_id scope, lg_selector = selector,
              lg_runner_id = de_runner_id env, lg_store_head = de_store_head env, lg_artifacts = in_scope_artifacts rs,
              lg_out_of_scope = sort (excluded_caps (sort_key fst reg) rs),
              lg_waivers = sort_key waiver_key (ds_waivers scope),
              lg_gaps = sort (map ea_invariant (filter is_gap (in_scope_artifacts rs))), lg_ledger_hash = []\<rparr>
      in g\<lparr>lg_ledger_hash := hash_body (ledger_body g)\<rparr>)"

definition waiver_by_cap :: "dispatch_scope \<Rightarrow> string \<rightharpoonup> waiver_record" where
  "waiver_by_cap scope = map_of (rev (map (\<lambda>w. (wv_cap_id w, w)) (ds_waivers scope)))"

definition dispatch_capability_evidence ::
    "dispatch_env \<Rightarrow> registry \<Rightarrow> dispatch_scope \<Rightarrow> string \<Rightarrow> (pyexc, evidence_ledger) result" where
  "dispatch_capability_evidence env reg scope selector =
     rbind (rguard (selector \<in> set SELECTORS) ValueError) (\<lambda>_.
     rbind (check_waivers reg [] (ds_waivers scope)) (\<lambda>_.
     rbind (rmap (\<lambda>c. dispatch_one env scope selector (waiver_by_cap scope) (fst c) (snd c)) (sort_key fst reg)) (\<lambda>rs.
     Inr (build_ledger env reg scope selector rs))))"

subsection \<open>Completeness and honesty of the ledger\<close>

definition gate_passed :: "dispatch_env \<Rightarrow> json \<Rightarrow> bool" where
  "gate_passed env cap \<longleftrightarrow> (\<exists>g. resolve_gate_name (de_gate_exists env) (ugk_realization cap) = Some g \<and>
     de_gate_exists env g \<and> de_gate_runner env g = Inr True)"

lemma resolve_gate_exists: "resolve_gate_name ex r = Some g \<Longrightarrow> ex g"
  by (auto simp: resolve_gate_name_def Let_def find_Some_iff)

lemma execute_verdict:
  assumes "resolve_and_execute (de_gate_exists env) (de_gate_runner env) cap = (v, d, c)"
  shows "v \<in> set VERDICTS" "v = ''PROVEN'' \<Longrightarrow> gate_passed env cap"
  using assms resolve_gate_exists [of "de_gate_exists env" "ugk_realization cap"]
  by (auto simp: resolve_and_execute_def VERDICTS_def Let_def gate_passed_def split: if_splits option.splits sum.splits)

lemma dispatch_one_out:
  assumes "dispatch_one env scope sel ws k cap = Inr None"
  shows "\<exists>ids. ds_in_scope scope = Some ids \<and> k \<notin> set ids"
proof -
  from assms obtain d where d: "plan k cap scope sel ws = Inr d" and "d = Out_of_scope \<or> d = Waived \<and> ws k = None"
    by (auto simp: dispatch_one_def result_simps split: disposition.splits option.splits) (metis disposition.exhaust)+
  then show ?thesis by (auto simp: plan_def result_simps split: option.splits if_splits)
qed

lemma dispatch_one_artifact:
  assumes "dispatch_one env scope sel ws k cap = Inr (Some a)"
  shows "ea_invariant a = k \<and> ea_verdict a \<in> set VERDICTS \<and> (ea_verdict a = ''PROVEN'' \<longrightarrow> gate_passed env cap)"
proof -
  let ?x = "resolve_and_execute (de_gate_exists env) (de_gate_runner env) cap"
  from assms obtain d where d: "plan k cap scope sel ws = Inr d" and
    a: "(case d of Out_of_scope \<Rightarrow> None
      | Waived \<Rightarrow> (case ws k of None \<Rightarrow> None
        | Some w \<Rightarrow> Some (mk_artifact k (''WAIVED'', ''waived:'' @ wv_authority w @ '':'' @ wv_reason w, primary_evidence_class cap)))
      | Not_run_selector \<Rightarrow> Some (mk_artifact k (''NOT-RUN'', ''not-run:selector:'' @ sel, primary_evidence_class cap))
      | In_scope \<Rightarrow> Some (mk_artifact k ?x)) = Some a"
    by (auto simp: dispatch_one_def result_simps)
  show ?thesis
  proof (cases d)
    case In_scope
    obtain v e c where x: "?x = (v, e, c)" by (cases ?x)
    with In_scope a have "a = mk_artifact k (v, e, c)" by simp
    with execute_verdict [OF x] show ?thesis by (simp add: mk_artifact_def)
  qed (use a in \<open>auto simp: mk_artifact_def VERDICTS_def split: option.splits\<close>)
qed

lemma dispatched_once:
  assumes "list_all2 (\<lambda>c r. dispatch_one env scope sel ws (fst c) (snd c) = Inr r) caps rs"
  shows "mset (map ea_invariant (in_scope_artifacts rs)) +
    mset (excluded_caps caps rs) = mset (map fst caps)"
  using assms
proof (induction rule: list_all2_induct)
  case (Cons x xs y ys)
  then show ?case by (cases x; cases y) (auto simp: in_scope_artifacts_def excluded_caps_def dest: dispatch_one_artifact)
qed (simp add: in_scope_artifacts_def excluded_caps_def)

lemma out_of_scope_excluded:
  assumes "list_all2 (\<lambda>c r. dispatch_one env scope sel ws (fst c) (snd c) = Inr r) caps rs"
    and "k \<in> set (excluded_caps caps rs)"
  shows "\<exists>ids. ds_in_scope scope = Some ids \<and> k \<notin> set ids"
  using assms
proof (induction rule: list_all2_induct)
  case (Cons x xs y ys)
  then show ?case by (cases x) (auto simp: excluded_caps_def split: if_splits dest: dispatch_one_out)
qed (simp add: excluded_caps_def)

lemma artifacts_from:
  assumes "list_all2 (\<lambda>c r. dispatch_one env scope sel ws (fst c) (snd c) = Inr r) caps rs"
    and "a \<in> set (in_scope_artifacts rs)"
  shows "\<exists>cap. (ea_invariant a, cap) \<in> set caps \<and> dispatch_one env scope sel ws (ea_invariant a) cap = Inr (Some a)"
proof -
  from assms(2) have "Some a \<in> set rs" by (auto simp: in_scope_artifacts_def split: option.splits)
  from list_all2_member [OF assms(1) this] obtain k cap where
    "(k, cap) \<in> set caps" "dispatch_one env scope sel ws k cap = Inr (Some a)" by auto
  with dispatch_one_artifact [OF this(2)] show ?thesis by auto
qed

lemma ledger_body_hash [simp]: "ledger_body (g\<lparr>lg_ledger_hash := h\<rparr>) = ledger_body g"
  by (simp add: ledger_body_def)

lemma build_ledger_fields:
  "lg_artifacts (build_ledger env reg scope sel rs) = in_scope_artifacts rs"
  "lg_out_of_scope (build_ledger env reg scope sel rs) = sort (excluded_caps (sort_key fst reg) rs)"
  "lg_gaps (build_ledger env reg scope sel rs) = sort (map ea_invariant (filter is_gap (in_scope_artifacts rs)))"
  "ledger_verify_hash (build_ledger env reg scope sel rs)"
  by (simp_all add: build_ledger_def Let_def ledger_verify_hash_def ledger_body_def)

text \<open>dispatch complete. A ledger the dispatcher returns accounts for the whole registry: every registered
  capability occurs exactly once, as an artifact or in the out-of-scope list, and the latter only when the
  scope excludes it; every verdict is in the closed
  vocabulary; PROVEN is reported only for a capability whose resolved gate module exists and whose run returned
  success; the gap list is exactly the capabilities with verdict GAP; and the ledger's own hash verifies.\<close>

theorem dispatch_complete:
  assumes "dispatch_capability_evidence env reg scope sel = Inr g"
  shows "mset (map ea_invariant (lg_artifacts g)) + mset (lg_out_of_scope g) = mset (map fst reg) \<and>
    (\<forall>k\<in>set (lg_out_of_scope g). \<exists>ids. ds_in_scope scope = Some ids \<and> k \<notin> set ids) \<and>
    (\<forall>a\<in>set (lg_artifacts g). ea_verdict a \<in> set VERDICTS \<and>
       (ea_verdict a = ''PROVEN'' \<longrightarrow> (\<exists>cap. (ea_invariant a, cap) \<in> set reg \<and> gate_passed env cap))) \<and>
    mset (lg_gaps g) = mset (map ea_invariant (filter is_gap (lg_artifacts g))) \<and>
    ledger_verify_hash g"
proof -
  from assms obtain rs where
    l: "list_all2 (\<lambda>c r. dispatch_one env scope sel (waiver_by_cap scope) (fst c) (snd c) = Inr r) (sort_key fst reg) rs"
    and "g = build_ledger env reg scope sel rs"
    by (auto simp: dispatch_capability_evidence_def rbind_eq_Inr rmap_eq_Inr)
  note g = this(2) build_ledger_fields [of env reg scope sel rs, folded this(2)]
  have "ea_verdict a \<in> set VERDICTS \<and> (ea_verdict a = ''PROVEN'' \<longrightarrow> (\<exists>cap. (ea_invariant a, cap) \<in> set reg \<and> gate_passed env cap))"
    if a: "a \<in> set (lg_artifacts g)" for a
  proof -
    from artifacts_from [OF l, of a] a g(2) obtain cap where "(ea_invariant a, cap) \<in> set reg"
      "dispatch_one env scope sel (waiver_by_cap scope) (ea_invariant a) cap = Inr (Some a)" by auto
    with dispatch_one_artifact [OF this(2)] show ?thesis by blast
  qed
  moreover have "mset (map ea_invariant (lg_artifacts g)) + mset (lg_out_of_scope g) = mset (map fst reg)"
    using dispatched_once [OF l] g(2,3) by simp
  moreover have "\<exists>ids. ds_in_scope scope = Some ids \<and> k \<notin> set ids" if "k \<in> set (lg_out_of_scope g)" for k
    using out_of_scope_excluded [OF l, of k] that g(3) by simp
  ultimately show ?thesis using g(2,4,5) by simp
qed

definition sample_env :: dispatch_env where
  "sample_env = \<lparr>de_gate_exists = (\<lambda>g. g = ''chain_gate''), de_gate_runner = (\<lambda>g. Inr True),
     de_runner_id = ''no-runner'', de_store_head = ''no-store''\<rparr>"

definition sample_registry :: registry where
  "sample_registry =
     [(''cap-2'', JObj [(''realizations'', JObj [(''UGK'', JObj [(''evidence_class'', JStr ''gate-suite''), (''gate'', JStr ''none yet'')])])]),
      (''cap-1'', JObj [(''realizations'', JObj [(''UGK'', JObj [(''evidence_class'', JStr ''gate-suite''), (''gate'', JStr ''see chain_gate.'')])])]),
      (''cap-3'', JNull)]"

definition sample_scope :: dispatch_scope where
  "sample_scope = \<lparr>ds_scope_id = ''s'', ds_in_scope = Some [''cap-1'', ''cap-2''], ds_waivers = [], ds_custom_set = None\<rparr>"

lemma sample_dispatch:
  "rmap (\<lambda>c. dispatch_one sample_env sample_scope ''full'' (waiver_by_cap sample_scope) (fst c) (snd c))
     (sort_key fst sample_registry) =
   Inr [Some (mk_artifact ''cap-1'' (''PROVEN'', ''gate:chain_gate:ok'', JStr ''gate-suite'')),
        Some (mk_artifact ''cap-2'' (''GAP'', ''gap:no-runnable-ugk-gate'', JStr ''gate-suite'')), None]"
  by code_simp

theorem dispatch_complete_witness:
  "\<exists>g. dispatch_capability_evidence sample_env sample_registry sample_scope ''full'' = Inr g \<and>
     map (\<lambda>a. (ea_invariant a, ea_verdict a)) (lg_artifacts g) = [(''cap-1'', ''PROVEN''), (''cap-2'', ''GAP'')] \<and>
     mset (map ea_invariant (lg_artifacts g)) + mset (lg_out_of_scope g) = {#''cap-1'', ''cap-2'', ''cap-3''#} \<and>
     ledger_verify_hash g"
proof -
  have "check_waivers sample_registry [] (ds_waivers sample_scope) = Inr ()" "''full'' \<in> set SELECTORS"
    by (simp_all add: sample_scope_def SELECTORS_def)
  with sample_dispatch obtain g where d: "dispatch_capability_evidence sample_env sample_registry sample_scope ''full'' = Inr g"
    and g: "map (\<lambda>a. (ea_invariant a, ea_verdict a)) (lg_artifacts g) = [(''cap-1'', ''PROVEN''), (''cap-2'', ''GAP'')]"
    by (simp add: dispatch_capability_evidence_def build_ledger_fields in_scope_artifacts_def mk_artifact_def)
  from dispatch_complete [OF d] d g show ?thesis by (auto simp: sample_registry_def)
qed

subsection \<open>The commitment reports the ledger\<close>

lemma canonical_obj_inject:
  assumes "canonical_json (JObj (zip ks vs)) = canonical_json (JObj (zip ks ws))"
    and "distinct ks" "length vs = length ks" "length ws = length ks"
  shows "map norm_json vs = map norm_json ws"
  using assms by (simp only: canonical_json_eq_iff) (rule norm_zip_inject)

lemma binding_body_inject:
  assumes "canonical_json (binding_body g) = canonical_json (binding_body h)"
  shows "lg_ledger_hash g = lg_ledger_hash h \<and> sorted_waivers g = sorted_waivers h \<and> sort (lg_gaps g) = sort (lg_gaps h) \<and>
    (\<forall>v\<in>set VERDICTS. verdict_census g v = verdict_census h v)"
proof -
  have l: "map norm_json vs = map norm_json ws" if "canonical_json (JObj (zip BINDING_KEYS vs)) = canonical_json (JObj (zip BINDING_KEYS ws))"
    "length vs = 8" "length ws = 8" for vs ws
    by (rule canonical_obj_inject [OF that(1)]) (use that in \<open>simp_all add: BINDING_KEYS_def\<close>)
  let ?w = "\<lambda>(c, a). JObj (zip [''cap_id'', ''authority''] [JStr c, JStr a])"
  have w: "norm_json (?w x) = norm_json (?w y) \<Longrightarrow> x = y" for x y
    by (cases x; cases y) (auto dest!: norm_zip_inject [of "[''cap_id'', ''authority'']" "[_, _]" "[_, _]", simplified])
  note e = l [OF assms [unfolded binding_body_def]]
  have "map (norm_json \<circ> ?w) (sorted_waivers g) = map (norm_json \<circ> ?w) (sorted_waivers h)" using e by simp
  then have "sorted_waivers g = sorted_waivers h"
    by (rule map_injective) (use w in \<open>auto simp: inj_def comp_def\<close>)
  moreover have "norm_json (JObj (zip VERDICTS (map (\<lambda>v. jstrs (verdict_census g v)) VERDICTS))) =
      norm_json (JObj (zip VERDICTS (map (\<lambda>v. jstrs (verdict_census h v)) VERDICTS)))" using e by simp
  then have "map norm_json (map (\<lambda>v. jstrs (verdict_census g v)) VERDICTS) = map norm_json (map (\<lambda>v. jstrs (verdict_census h v)) VERDICTS)"
    by (rule norm_zip_inject) (simp_all add: VERDICTS_def)
  ultimately show ?thesis using e by simp
qed

text \<open>capability commitment faithful. The capability commitment cannot launder evidence: it is refused for a
  ledger whose own hash does not verify or that uses an unknown verdict, and if two ledgers are committed to the
  same \<open>h_cap\<close>, then for every verdict the two report the same capabilities with the same multiplicity, the same
  authority-marked waivers, the same gaps and the same deterministic ledger body, or one of two explicit pairs
  of byte strings collides under SHA-256.\<close>

theorem capability_commitment_faithful:
  assumes "capability_evidence_commitment g = Inr c" "capability_evidence_commitment h = Inr d"
    and "cm_h_cap c = cm_h_cap d"
  shows "ledger_verify_hash g \<and> list_all (\<lambda>a. ea_verdict a \<in> set VERDICTS) (lg_artifacts g) \<and>
    ((\<forall>v\<in>set VERDICTS. verdict_census g v = verdict_census h v) \<and> sorted_waivers g = sorted_waivers h \<and>
       sort (lg_gaps g) = sort (lg_gaps h) \<and> norm_json (ledger_body g) = norm_json (ledger_body h) \<or>
     collide (capability_preimage g) (capability_preimage h) \<or>
     collide (utf8 ''CGP-LEDGER-v1'' @ canonical_json (ledger_body g)) (utf8 ''CGP-LEDGER-v1'' @ canonical_json (ledger_body h)))"
proof -
  have g: "ledger_verify_hash g" "list_all (\<lambda>a. ea_verdict a \<in> set VERDICTS) (lg_artifacts g)"
    and h: "ledger_verify_hash h" and e: "sha256 (capability_preimage g) = sha256 (capability_preimage h)"
    using assms by (auto simp: capability_evidence_commitment_def result_simps)
  have "norm_json (ledger_body g) = norm_json (ledger_body h) \<or>
      collide (utf8 ''CGP-LEDGER-v1'' @ canonical_json (ledger_body g)) (utf8 ''CGP-LEDGER-v1'' @ canonical_json (ledger_body h))"
    if "lg_ledger_hash g = lg_ledger_hash h"
    using that g(1) h by (auto simp: ledger_verify_hash_def hash_body_def collide_def canonical_json_eq_iff)
  moreover have "capability_preimage g = capability_preimage h \<or> collide (capability_preimage g) (capability_preimage h)"
    using e by (auto simp: collide_def)
  ultimately show ?thesis using g binding_body_inject [of g h] by (auto simp: capability_preimage_def)
qed

definition sample_ledger :: evidence_ledger where
  "sample_ledger = build_ledger sample_env sample_registry sample_scope ''full''
     [Some (mk_artifact ''cap-1'' (''PROVEN'', ''gate:chain_gate:ok'', JStr ''gate-suite'')), None]"

theorem capability_commitment_faithful_witness:
  "(\<exists>c. capability_evidence_commitment sample_ledger = Inr c) \<and> ledger_verify_hash sample_ledger \<and>
   verdict_census sample_ledger ''PROVEN'' = [''cap-1'']"
proof -
  have "\<exists>c. capability_evidence_commitment sample_ledger = Inr c"
    by (simp add: capability_evidence_commitment_def sample_ledger_def build_ledger_fields in_scope_artifacts_def
        mk_artifact_def VERDICTS_def)
  then obtain c where c: "capability_evidence_commitment sample_ledger = Inr c" ..
  from capability_commitment_faithful [OF c c refl] have "ledger_verify_hash sample_ledger" by blast
  with c show ?thesis
    by (simp add: verdict_census_def sample_ledger_def build_ledger_fields in_scope_artifacts_def mk_artifact_def)
qed

end
