(* ===== verification/Trace_Vector.thy ===== *)
theory Trace_Vector
  imports Receipt Evidence
begin

text \<open>
  The decision-surface layer (\<^verbatim>\<open>ugk/fga/trace_vector.py\<close>): the closed registry of committed surfaces, the
  trace vector built from a receipt under a constitutional frame, and the conjunctive aggregation.

  Main results: the aggregation admits exactly when every committed surface passes, the body integrity and
  the frame hold; the trace hash identifies the vector.
\<close>

definition SURFACE_REGISTRY_VERSION :: string where
  "SURFACE_REGISTRY_VERSION = ''fga.committed-surfaces.v1''"

definition AGGREGATION_OPERATOR_ID :: string where
  "AGGREGATION_OPERATOR_ID = ''conjunctive_refusal_monotone_v1''"

datatype verdict = PASS | REFUSE | ADMIT

definition verdict_name :: "verdict \<Rightarrow> string" where
  "verdict_name v = (case v of PASS \<Rightarrow> ''PASS'' | REFUSE \<Rightarrow> ''REFUSE'' | ADMIT \<Rightarrow> ''ADMIT'')"

definition R_OK :: string where "R_OK = ''ok''"
definition R_STATE_MISMATCH :: string where "R_STATE_MISMATCH = ''state-commitment-mismatch''"
definition R_COMMIT_ABSENT :: string where "R_COMMIT_ABSENT = ''commitment-absent''"
definition R_COMMIT_MALFORMED :: string where "R_COMMIT_MALFORMED = ''commitment-malformed''"
definition R_BODY_INTEGRITY :: string where "R_BODY_INTEGRITY = ''whole-body-integrity-fail''"
definition R_FRAME_MISMATCH :: string where "R_FRAME_MISMATCH = ''frame-mismatch''"

definition COMMITTED_RECEIPT_FIELDS :: "string list" where
  "COMMITTED_RECEIPT_FIELDS = [''h_s'', ''h_c'', ''h_m'', ''h_j'']"

definition MODE_REDERIVED :: string where "MODE_REDERIVED = ''rederived''"
definition MODE_COMMITTED_BODY_BOUND :: string where "MODE_COMMITTED_BODY_BOUND = ''committed-body-bound''"

record decision_surface =
  su_surface_id :: string
  su_axis :: string
  su_committed_field :: string
  su_commitment_id :: string
  su_rederivable :: bool
  su_optional :: bool
  su_verification_mode :: string

definition COMMITTED_SURFACES :: "decision_surface list" where
  "COMMITTED_SURFACES =
     [\<lparr>su_surface_id = ''D_s'', su_axis = ''state'', su_committed_field = ''h_s'', su_commitment_id = ID_C_S,
       su_rederivable = True, su_optional = False, su_verification_mode = MODE_REDERIVED\<rparr>,
      \<lparr>su_surface_id = ''D_c'', su_axis = ''admissibility'', su_committed_field = ''h_c'', su_commitment_id = ID_C_C,
       su_rederivable = False, su_optional = False, su_verification_mode = MODE_COMMITTED_BODY_BOUND\<rparr>,
      \<lparr>su_surface_id = ''D_m'', su_axis = ''meaning'', su_committed_field = ''h_m'', su_commitment_id = ID_C_M,
       su_rederivable = False, su_optional = False, su_verification_mode = MODE_COMMITTED_BODY_BOUND\<rparr>,
      \<lparr>su_surface_id = ''D_j'', su_axis = ''locality'', su_committed_field = ''h_j'', su_commitment_id = ID_C_J,
       su_rederivable = False, su_optional = True, su_verification_mode = MODE_COMMITTED_BODY_BOUND\<rparr>]"

fun check_surfaces :: "string list \<Rightarrow> decision_surface list \<Rightarrow> (pyexc, unit) result" where
  "check_surfaces seen [] = Inr ()"
| "check_surfaces seen (s # ss) =
     (if su_committed_field s \<notin> set COMMITTED_RECEIPT_FIELDS then Inl ValueError
      else if su_rederivable s \<and> su_verification_mode s \<noteq> MODE_REDERIVED then Inl ValueError
      else if \<not> su_rederivable s \<and> su_verification_mode s \<noteq> MODE_COMMITTED_BODY_BOUND then Inl ValueError
      else if su_surface_id s \<in> set seen then Inl ValueError
      else check_surfaces (su_surface_id s # seen) ss)"

definition validate_committed_registry :: "decision_surface list \<Rightarrow> (pyexc, unit) result" where
  "validate_committed_registry surfaces = check_surfaces [] surfaces"

definition CAPABILITY_COMMITTED_FIELDS :: "string list" where
  "CAPABILITY_COMMITTED_FIELDS = [''h_cap'']"

definition CAPABILITY_SURFACES :: "decision_surface list" where
  "CAPABILITY_SURFACES =
     [\<lparr>su_surface_id = ''D_cap'', su_axis = ''capability'', su_committed_field = ''h_cap'', su_commitment_id = ''c_cap.v1'',
       su_rederivable = False, su_optional = True, su_verification_mode = MODE_COMMITTED_BODY_BOUND\<rparr>]"

fun check_capability_surfaces :: "string list \<Rightarrow> decision_surface list \<Rightarrow> (pyexc, unit) result" where
  "check_capability_surfaces seen [] = Inr ()"
| "check_capability_surfaces seen (s # ss) =
     (if su_committed_field s \<notin> set CAPABILITY_COMMITTED_FIELDS then Inl ValueError
      else if su_surface_id s \<in> set (map su_surface_id COMMITTED_SURFACES) then Inl ValueError
      else if su_surface_id s \<in> set seen then Inl ValueError
      else check_capability_surfaces (su_surface_id s # seen) ss)"

definition validate_capability_registry :: "decision_surface list \<Rightarrow> (pyexc, unit) result" where
  "validate_capability_registry surfaces = check_capability_surfaces [] surfaces"

definition verify_capability_surface :: "receipt \<Rightarrow> evidence_ledger option \<Rightarrow> (pyexc, bool \<times> string) result" where
  "verify_capability_surface r ledger =
     (let h_cap = or_else (kc_h_cap (r_capability r)) [] in
      if h_cap = [] then Inr (False, ''capability-commitment-absent'')
      else if length h_cap \<noteq> 64 then Inr (False, ''capability-commitment-malformed'')
      else case ledger of
        None \<Rightarrow> Inr (True, ''ok'')
      | Some g \<Rightarrow> rbind (capability_evidence_commitment g) (\<lambda>c.
          Inr (if cm_h_cap c \<noteq> h_cap then (False, ''capability-commitment-mismatch'') else (True, ''ok''))))"

record surface_result =
  sr_surface_id :: string
  sr_result :: verdict
  sr_reason_code :: string

record frame_ref =
  fr_law_hash :: string
  fr_schema_hash :: string
  fr_legend_hash :: string
  fr_codex_hash :: string

record trace_vector =
  tv_surfaces :: "surface_result list"
  tv_frame :: frame_ref
  tv_surface_registry_version :: string
  tv_aggregation_operator_id :: string
  tv_transition_op :: string
  tv_receipt_h_r :: string
  tv_receipt_h_body :: string
  tv_integrity_ok :: bool
  tv_frame_consistent :: bool
  tv_trace_vector_hash :: string

subsection \<open>Re-derivation\<close>

definition hex_or_underscore :: "char \<Rightarrow> bool" where
  "hex_or_underscore c = (let n = of_char c :: nat in
     48 \<le> n \<and> n \<le> 57 \<or> 65 \<le> n \<and> n \<le> 70 \<or> 97 \<le> n \<and> n \<le> 102)"

fun hex_body :: "bool \<Rightarrow> string \<Rightarrow> bool" where
  \<comment> \<open>digits with single underscores between them, as \<^verbatim>\<open>int(v, 16)\<close> accepts; the flag says a digit came last\<close>
  "hex_body d [] = d"
| "hex_body d (c # s) =
     (if hex_or_underscore c then hex_body True s else if c = CHR ''_'' \<and> d then hex_body False s else False)"

definition strip_prefix_0x :: "string \<Rightarrow> string" where
  "strip_prefix_0x s =
     (if prefix ''0x_'' s \<or> prefix ''0X_'' s then drop 3 s
      else if prefix ''0x'' s \<or> prefix ''0X'' s then drop 2 s else s)"

definition strip_sign :: "string \<Rightarrow> string" where
  "strip_sign s = (case s of c # t \<Rightarrow> if c = CHR ''+'' \<or> c = CHR ''-'' then t else s | [] \<Rightarrow> s)"

definition is_hexdigest :: "string \<Rightarrow> bool" where
  \<comment> \<open>length 64 and \<^verbatim>\<open>int(v, 16)\<close> parses: blanks around, a sign, a base prefix and underscores pass too\<close>
  "is_hexdigest v \<longleftrightarrow> length v = 64 \<and> hex_body False (strip_prefix_0x (strip_sign (strip v)))"

definition rederive_h_s :: "receipt \<Rightarrow> (pyexc, string) result" where
  "rederive_h_s r = rbind (H_s (PStr (r_op r)) (of_json (r_parameters r))) (\<lambda>b. Inr (to_hex b))"

definition rederive_h_body :: "receipt \<Rightarrow> string" where
  \<comment> \<open>the call passes no effect, reconciliation, continuation or bridge argument, so those take their default\<close>
  "rederive_h_body r = compute_h_body (r\<lparr>r_effect := no_effect, r_reconciliation_grade := None,
     r_reconciliation_warrant_snapshot := None, r_continuation := no_continuation, r_bridge := no_bridge\<rparr>)"

definition committed_field_of :: "string \<Rightarrow> receipt \<Rightarrow> string option" where
  "committed_field_of f r =
     (if f = ''h_s'' then Some (r_h_s r) else if f = ''h_c'' then Some (r_h_c r)
      else if f = ''h_m'' then Some (r_h_m r) else if f = ''h_j'' then r_h_j r else None)"

definition surface_result_of :: "decision_surface \<Rightarrow> verdict \<Rightarrow> string \<Rightarrow> surface_result" where
  "surface_result_of s v why = \<lparr>sr_surface_id = su_surface_id s, sr_result = v, sr_reason_code = why\<rparr>"

definition verify_surface :: "decision_surface \<Rightarrow> receipt \<Rightarrow> (pyexc, surface_result) result" where
  "verify_surface s r =
     (let c = or_else (committed_field_of (su_committed_field s) r) [] in
      if su_optional s \<and> c = [] then Inr (surface_result_of s PASS R_OK)
      else if c = [] then Inr (surface_result_of s REFUSE R_COMMIT_ABSENT)
      else if \<not> is_hexdigest c then Inr (surface_result_of s REFUSE R_COMMIT_MALFORMED)
      else if su_rederivable s then
        rbind (rederive_h_s r) (\<lambda>h. Inr (if h \<noteq> c then surface_result_of s REFUSE R_STATE_MISMATCH
          else surface_result_of s PASS R_OK))
      else Inr (surface_result_of s PASS R_OK))"

subsection \<open>Trace vector and aggregation\<close>

definition frame_json :: "frame_ref \<Rightarrow> json" where
  "frame_json f = JObj (zip [''law_hash'', ''schema_hash'', ''legend_hash'', ''codex_hash'']
     [JStr (fr_law_hash f), JStr (fr_schema_hash f), JStr (fr_legend_hash f), JStr (fr_codex_hash f)])"

definition TRACE_KEYS :: "string list" where
  "TRACE_KEYS = [''surface_registry_version'', ''aggregation_operator_id'', ''frame'', ''transition_op'', ''receipt_h_r'',
     ''receipt_h_body'', ''integrity_ok'', ''frame_consistent'', ''surfaces'']"

definition surface_json :: "surface_result \<Rightarrow> json" where
  "surface_json s = jstrs [sr_surface_id s, verdict_name (sr_result s), sr_reason_code s]"

definition trace_body :: "trace_vector \<Rightarrow> json" where
  "trace_body t = JObj (zip TRACE_KEYS
     [JStr (tv_surface_registry_version t), JStr (tv_aggregation_operator_id t), frame_json (tv_frame t),
      JStr (tv_transition_op t), JStr (tv_receipt_h_r t), JStr (tv_receipt_h_body t), JBool (tv_integrity_ok t),
      JBool (tv_frame_consistent t), JList (map surface_json (tv_surfaces t))])"

definition trace_preimage :: "trace_vector \<Rightarrow> bytes" where
  "trace_preimage t = utf8 ''FGA-TRACE-v1'' @ canonical_json (trace_body t)"

definition trace_vector_hash :: "trace_vector \<Rightarrow> string" where
  \<comment> \<open>the keyword arguments are the fields of the vector under construction\<close>
  "trace_vector_hash t = to_hex (sha256 (trace_preimage t))"

definition build_trace_vector :: "receipt \<Rightarrow> frame_ref \<Rightarrow> decision_surface list \<Rightarrow> (pyexc, trace_vector) result" where
  "build_trace_vector r frame surfaces =
     rbind (validate_committed_registry surfaces) (\<lambda>_.
     rbind (rmap (\<lambda>s. verify_surface s r) surfaces) (\<lambda>results.
     let t = \<lparr>tv_surfaces = results, tv_frame = frame, tv_surface_registry_version = SURFACE_REGISTRY_VERSION,
              tv_aggregation_operator_id = AGGREGATION_OPERATOR_ID, tv_transition_op = r_op r,
              tv_receipt_h_r = r_h_r r, tv_receipt_h_body = r_h_body r,
              tv_integrity_ok = (rederive_h_body r = r_h_body r \<and> r_h_body r \<noteq> []),
              tv_frame_consistent = (r_law_hash r = fr_law_hash frame \<and> r_legend_hash r = fr_legend_hash frame),
              tv_trace_vector_hash = []\<rparr> in
     Inr (t\<lparr>tv_trace_vector_hash := trace_vector_hash t\<rparr>)))"

fun first_refusal :: "surface_result list \<Rightarrow> string option" where
  "first_refusal [] = None"
| "first_refusal (s # ss) = (if sr_result s \<noteq> PASS then Some (sr_reason_code s) else first_refusal ss)"

definition aggregate :: "trace_vector \<Rightarrow> verdict \<times> string" where
  "aggregate t =
     (if tv_aggregation_operator_id t \<noteq> AGGREGATION_OPERATOR_ID then (REFUSE, ''operator-id-mismatch'')
      else if map sr_surface_id (tv_surfaces t) \<noteq> map su_surface_id COMMITTED_SURFACES
        then (REFUSE, ''incomplete-or-reordered-surface-vector'')
      else case first_refusal (tv_surfaces t) of
        Some why \<Rightarrow> (REFUSE, why)
      | None \<Rightarrow>
          if \<not> tv_integrity_ok t then (REFUSE, R_BODY_INTEGRITY)
          else if \<not> tv_frame_consistent t then (REFUSE, R_FRAME_MISMATCH)
          else (ADMIT, R_OK))"

subsection \<open>Digests are well formed\<close>

lemma hex_digit_char: "n < 16 \<Longrightarrow> hex_or_underscore (hex_digit n)"
  by (simp add: hex_or_underscore_def hex_digit_def)

lemma to_hex_chars: "list_all hex_or_underscore (to_hex bs)"
proof (induction bs)
  case (Cons b bs)
  have "unat b div 16 < 16" using unsigned_less [of b, where ?'a = nat] by auto
  with Cons show ?case by (simp add: hex_byte_def hex_digit_char)
qed simp

lemma strip_hex: "list_all hex_or_underscore s \<Longrightarrow> strip s = s"
proof -
  assume a: "list_all hex_or_underscore s"
  have n: "hex_or_underscore c \<Longrightarrow> \<not> py_space c" for c by (auto simp: hex_or_underscore_def py_space_def Let_def)
  have "dropWhile py_space s = s" using a n by (cases s) auto
  moreover have "dropWhile py_space (rev s) = rev s"
    using a n by (cases "rev s") (auto simp: list_all_iff dest: set_rev [THEN equalityD1, THEN subsetD])
  ultimately show ?thesis by (simp add: strip_def)
qed

lemma hex_body_all: "list_all hex_or_underscore s \<Longrightarrow> hex_body True s"
  by (induction s) auto

lemma is_hexdigest_sha256 [simp]: "is_hexdigest (to_hex (sha256 m))"
proof -
  have l: "length (to_hex (sha256 m)) = 64" by simp
  then obtain c d t where t: "to_hex (sha256 m) = c # d # t"
    by (cases "to_hex (sha256 m)"; cases "tl (to_hex (sha256 m))") auto
  have a: "list_all hex_or_underscore (c # d # t)" using to_hex_chars [of "sha256 m"] t by simp
  then have "c \<noteq> CHR ''+''" "c \<noteq> CHR ''-''" "d \<noteq> CHR ''x''" "d \<noteq> CHR ''X''"
    by (auto simp: hex_or_underscore_def)
  then have "strip_prefix_0x (strip_sign (c # d # t)) = c # d # t"
    by (simp add: strip_prefix_0x_def strip_sign_def)
  with a l show ?thesis by (simp add: is_hexdigest_def t strip_hex hex_body_all)
qed

subsection \<open>What is admitted\<close>

lemma COMMITTED_SURFACES_valid: "validate_committed_registry COMMITTED_SURFACES = Inr ()"
  by (simp add: validate_committed_registry_def COMMITTED_SURFACES_def COMMITTED_RECEIPT_FIELDS_def)

lemma CAPABILITY_SURFACES_valid: "validate_capability_registry CAPABILITY_SURFACES = Inr ()"
  by (simp add: validate_capability_registry_def CAPABILITY_SURFACES_def CAPABILITY_COMMITTED_FIELDS_def COMMITTED_SURFACES_def)

lemma first_refusal_None: "first_refusal ss = None \<longleftrightarrow> (\<forall>s\<in>set ss. sr_result s = PASS)"
  by (induction ss) auto

lemma verify_surface_id: "verify_surface s r = Inr x \<Longrightarrow> sr_surface_id x = su_surface_id s"
  by (auto simp: verify_surface_def Let_def surface_result_of_def result_simps split: if_splits)

definition surface_passes :: "decision_surface \<Rightarrow> receipt \<Rightarrow> bool" where
  "surface_passes s r \<longleftrightarrow> (let c = or_else (committed_field_of (su_committed_field s) r) [] in
     su_optional s \<and> c = [] \<or> c \<noteq> [] \<and> is_hexdigest c \<and> (su_rederivable s \<longrightarrow> rederive_h_s r = Inr c))"

lemma verify_surface_PASS: "verify_surface s r = Inr x \<Longrightarrow> sr_result x = PASS \<longleftrightarrow> surface_passes s r"
  by (auto simp: verify_surface_def surface_passes_def Let_def surface_result_of_def result_simps split: if_splits)

lemma built_results:
  assumes "list_all2 (\<lambda>s x. verify_surface s r = Inr x) ss xs"
  shows "map sr_surface_id xs = map su_surface_id ss" "(\<forall>x\<in>set xs. sr_result x = PASS) \<longleftrightarrow> (\<forall>s\<in>set ss. surface_passes s r)"
  using assms by (induction rule: list_all2_induct) (auto simp: verify_surface_id verify_surface_PASS)

lemma build_trace_vector_fields:
  assumes "build_trace_vector r frame ss = Inr t"
  shows "list_all2 (\<lambda>s x. verify_surface s r = Inr x) ss (tv_surfaces t)"
    "tv_aggregation_operator_id t = AGGREGATION_OPERATOR_ID" "tv_integrity_ok t \<longleftrightarrow> rederive_h_body r = r_h_body r \<and> r_h_body r \<noteq> []"
    "tv_frame_consistent t \<longleftrightarrow> r_law_hash r = fr_law_hash frame \<and> r_legend_hash r = fr_legend_hash frame"
  using assms by (auto simp: build_trace_vector_def result_simps rmap_eq_Inr Let_def)

text \<open>C16. Aggregation is the explicit conjunction and nothing else: the vector built from
  a receipt under a frame admits iff the state commitment re-derives from the stored operation and parameters,
  the admissibility and meaning commitments are present and well formed, locality is absent or well formed, the
  whole body re-derives, and the receipt's law and legend hashes are those of the frame; in every other case
  the verdict is a refusal.\<close>

theorem aggregate_admits_exactly:
  assumes "build_trace_vector r frame COMMITTED_SURFACES = Inr t"
  shows "(fst (aggregate t) = ADMIT \<longleftrightarrow>
      is_hexdigest (r_h_s r) \<and> rederive_h_s r = Inr (r_h_s r) \<and> is_hexdigest (r_h_c r) \<and> is_hexdigest (r_h_m r) \<and>
      (or_else (r_h_j r) [] = [] \<or> is_hexdigest (or_else (r_h_j r) [])) \<and>
      rederive_h_body r = r_h_body r \<and> r_h_body r \<noteq> [] \<and>
      r_law_hash r = fr_law_hash frame \<and> r_legend_hash r = fr_legend_hash frame) \<and>
    (fst (aggregate t) \<noteq> ADMIT \<longrightarrow> fst (aggregate t) = REFUSE)"
proof -
  note b = build_trace_vector_fields [OF assms]
  have n: "\<not> is_hexdigest []" by (simp add: is_hexdigest_def)
  have "(\<forall>x\<in>set (tv_surfaces t). sr_result x = PASS) \<longleftrightarrow>
      is_hexdigest (r_h_s r) \<and> rederive_h_s r = Inr (r_h_s r) \<and> is_hexdigest (r_h_c r) \<and> is_hexdigest (r_h_m r) \<and>
      (or_else (r_h_j r) [] = [] \<or> is_hexdigest (or_else (r_h_j r) []))"
    unfolding built_results(2) [OF b(1)] using n
    by (auto simp: COMMITTED_SURFACES_def surface_passes_def committed_field_of_def Let_def or_else_def)
  then show ?thesis
    using b(2-4) built_results(1) [OF b(1)] first_refusal_None [of "tv_surfaces t"]
    by (auto simp: aggregate_def split: option.splits)
qed

text \<open>trace refuses effect receipts. The re-derivation behind the trace vector leaves out the typed effect
  surface: an honest receipt of version 4 or later that carries any effect column (its \<open>h_body\<close> is the one
  the store computed) is refused by the aggregation, unless two explicit byte strings collide under SHA-256.\<close>

theorem trace_refuses_effect_receipts:
  assumes "build_trace_vector r frame COMMITTED_SURFACES = Inr t"
    and "r_h_body r = compute_h_body r" "4 \<le> r_version r" "r_effect r \<noteq> no_effect"
  shows "\<not> tv_integrity_ok t \<and> fst (aggregate t) = REFUSE \<or>
    (\<exists>s. collide (body_preimage s) (body_preimage r))"
proof (cases "rederive_h_body r = r_h_body r")
  case True
  define s where "s = r\<lparr>r_effect := no_effect, r_reconciliation_grade := None,
     r_reconciliation_warrant_snapshot := None, r_continuation := no_continuation, r_bridge := no_bridge\<rparr>"
  have "compute_h_body s = compute_h_body r" using True assms(2) by (simp add: rederive_h_body_def s_def)
  then have "sha256 (body_preimage s) = sha256 (body_preimage r)" by (simp add: compute_h_body_def)
  moreover have "committed s \<noteq> committed r"
  proof
    assume "committed s = committed r"
    then have "r_effect (committed s) = r_effect (committed r)" by simp
    with assms(3,4) show False by (simp add: committed_def Let_def s_def)
  qed
  then have "body_preimage s \<noteq> body_preimage r" using body_preimage_inject by blast
  ultimately show ?thesis by (auto simp: collide_def)
next
  case False
  then have "\<not> tv_integrity_ok t" using build_trace_vector_fields(3) [OF assms(1)] by simp
  then show ?thesis by (auto simp: aggregate_def split: option.splits)
qed

subsection \<open>Concrete vectors\<close>

definition state_preimage :: "string \<Rightarrow> json \<Rightarrow> bytes" where
  "state_preimage opn p = DS_S @ utf8 ID_C_S @ canon (JObj [(''op'', JStr opn), (''inputs'', p)])"

lemma H_s_json: "H_s (PStr opn) (of_json (JObj kvs)) = Inr (sha256 (state_preimage opn (JObj kvs)))"
  by (simp add: H_s_def c_s_def noncanonical_def canonical_json_py_def state_preimage_def canon_def)

lemma rederive_h_s_obj: "is_obj (r_parameters r) \<Longrightarrow>
    rederive_h_s r = Inr (to_hex (sha256 (state_preimage (r_op r) (r_parameters r))))"
  unfolding rederive_h_s_def by (cases "r_parameters r") (simp_all only: H_s_json rbind_simps is_obj.simps)

definition sealed_receipt :: "receipt \<Rightarrow> receipt" where
  \<comment> \<open>a receipt with the state, body and placeholder digests that the store would compute\<close>
  "sealed_receipt r = (let d = to_hex (sha256 []);
       s = r\<lparr>r_h_s := to_hex (sha256 (state_preimage (r_op r) (r_parameters r))), r_h_c := d, r_h_m := d\<rparr>
     in s\<lparr>r_h_body := compute_h_body s\<rparr>)"

definition sample_frame :: frame_ref where
  "sample_frame = \<lparr>fr_law_hash = [], fr_schema_hash = [], fr_legend_hash = [], fr_codex_hash = []\<rparr>"

lemma h_body_ignored [simp]: "compute_h_body (r\<lparr>r_h_body := x\<rparr>) = compute_h_body r"
  by (simp add: compute_h_body_def body_preimage_def body_dict_def body_base_def body_v2_def body_v6_def Let_def)

lemma build_trace_vector_total:
  assumes "is_obj (r_parameters r)"
  shows "\<exists>t. build_trace_vector r frame COMMITTED_SURFACES = Inr t"
proof -
  have "\<exists>x. verify_surface s r = Inr x" for s
    using rederive_h_s_obj [OF assms] by (auto simp: verify_surface_def Let_def)
  then have "rmap (\<lambda>s. verify_surface s r) COMMITTED_SURFACES =
      Inr (map (\<lambda>s. SOME x. verify_surface s r = Inr x) COMMITTED_SURFACES)"
    by (intro rmap_Inr) (auto intro: someI_ex)
  then show ?thesis by (simp add: build_trace_vector_def COMMITTED_SURFACES_valid Let_def)
qed

lemma sealed_receipt_fields:
  "r_parameters (sealed_receipt r) = r_parameters r" "r_op (sealed_receipt r) = r_op r" "r_h_j (sealed_receipt r) = r_h_j r"
  "r_h_s (sealed_receipt r) = to_hex (sha256 (state_preimage (r_op r) (r_parameters r)))"
  "r_h_c (sealed_receipt r) = to_hex (sha256 [])" "r_h_m (sealed_receipt r) = to_hex (sha256 [])"
  "r_law_hash (sealed_receipt r) = r_law_hash r" "r_legend_hash (sealed_receipt r) = r_legend_hash r"
  "r_version (sealed_receipt r) = r_version r" "r_effect (sealed_receipt r) = r_effect r"
  "r_continuation (sealed_receipt r) = r_continuation r" "r_bridge (sealed_receipt r) = r_bridge r"
  "r_reconciliation_grade (sealed_receipt r) = r_reconciliation_grade r"
  "r_reconciliation_warrant_snapshot (sealed_receipt r) = r_reconciliation_warrant_snapshot r"
  by (simp_all add: sealed_receipt_def Let_def)

lemma sealed_receipt_body: "r_h_body (sealed_receipt r) = compute_h_body (sealed_receipt r)" "r_h_body (sealed_receipt r) \<noteq> []"
proof -
  show b: "r_h_body (sealed_receipt r) = compute_h_body (sealed_receipt r)" by (simp add: sealed_receipt_def Let_def)
  show "r_h_body (sealed_receipt r) \<noteq> []" unfolding b by (simp add: compute_h_body_def)
qed

lemma sample_receipt_fields:
  "is_obj (r_parameters sample_receipt)" "r_h_j sample_receipt = None" "r_law_hash sample_receipt = []"
  "r_legend_hash sample_receipt = []" "r_version sample_receipt = 8" "r_effect sample_receipt = no_effect"
  "r_continuation sample_receipt = no_continuation" "r_bridge sample_receipt = no_bridge"
  "r_reconciliation_grade sample_receipt = None" "r_reconciliation_warrant_snapshot sample_receipt = None"
  by (simp_all add: sample_receipt_def)

lemma rederive_h_body_plain:
  "r_effect r = no_effect \<Longrightarrow> r_continuation r = no_continuation \<Longrightarrow> r_bridge r = no_bridge \<Longrightarrow>
   r_reconciliation_grade r = None \<Longrightarrow> r_reconciliation_warrant_snapshot r = None \<Longrightarrow> rederive_h_body r = compute_h_body r"
  unfolding rederive_h_body_def by (rule arg_cong [where f = compute_h_body]) simp

theorem aggregate_admits_exactly_witness:
  "\<exists>t. build_trace_vector (sealed_receipt sample_receipt) sample_frame COMMITTED_SURFACES = Inr t \<and> fst (aggregate t) = ADMIT"
proof -
  let ?r = "sealed_receipt sample_receipt"
  note f = sealed_receipt_fields sample_receipt_fields
  obtain t where t: "build_trace_vector ?r sample_frame COMMITTED_SURFACES = Inr t"
    using build_trace_vector_total [of ?r sample_frame] by (auto simp: f)
  have "rederive_h_s ?r = Inr (r_h_s ?r)" using rederive_h_s_obj [of ?r] by (simp add: f)
  moreover have "rederive_h_body ?r = r_h_body ?r"
    unfolding sealed_receipt_body(1) by (rule rederive_h_body_plain) (simp_all add: f)
  ultimately show ?thesis using t aggregate_admits_exactly [OF t] sealed_receipt_body(2) [of sample_receipt]
    by (simp add: f sample_frame_def)
qed

theorem trace_refuses_effect_receipts_witness:
  "let r = sealed_receipt (sample_receipt\<lparr>r_effect := no_effect\<lparr>ec_atomicity := Some ''pure''\<rparr>\<rparr>) in
   (\<exists>t. build_trace_vector r sample_frame COMMITTED_SURFACES = Inr t \<and>
      (\<not> tv_integrity_ok t \<and> fst (aggregate t) = REFUSE \<or> (\<exists>s. collide (body_preimage s) (body_preimage r))))"
proof -
  let ?s = "sample_receipt\<lparr>r_effect := no_effect\<lparr>ec_atomicity := Some ''pure''\<rparr>\<rparr>"
  note f = sealed_receipt_fields sample_receipt_fields
  obtain t where t: "build_trace_vector (sealed_receipt ?s) sample_frame COMMITTED_SURFACES = Inr t"
    using build_trace_vector_total [of "sealed_receipt ?s" sample_frame] by (auto simp: f)
  have "r_effect (sealed_receipt ?s) \<noteq> no_effect" by (simp add: f no_effect_def)
  with t trace_refuses_effect_receipts [OF t sealed_receipt_body(1)] show ?thesis by (simp add: f Let_def)
qed

end
