(* ===== verification/Sqlite.thy ===== *)
theory Sqlite
  imports Step
begin

text \<open>
  The part of a SQLite connection the receipt store relies on, as Python's \<^verbatim>\<open>sqlite3\<close> module drives it in its
  default transaction mode, and \<^verbatim>\<open>ugk/integrity/transaction.py\<close> on top of it.

  A connection sees \<open>cn_visible\<close>; \<open>cn_durable\<close> is what another connection, or this program after a crash,
  would read. A data-changing statement outside a transaction first opens one (\<^verbatim>\<open>BEGIN\<close>); a savepoint outside a
  transaction opens one whose outermost \<^verbatim>\<open>RELEASE\<close> commits; \<^verbatim>\<open>RELEASE\<close> of an inner savepoint commits nothing.
  Statements may fail: \<open>cn_faults\<close> is an arbitrary script with one entry per statement (no entry, no fault). A
  failing statement changes nothing, and leaves an open transaction open, as SQLite does for a busy database;
  errors on which SQLite rolls back by itself are not modelled. Queries do not fail.

  Main results: what the mutation block leaves behind on each of its paths, for every fault script.
\<close>

record 'd conn =
  cn_visible :: 'd
  cn_durable :: 'd
  cn_begin :: bool                       \<comment> \<open>a transaction opened by \<^verbatim>\<open>BEGIN\<close>\<close>
  cn_savepoints :: "(nat \<times> 'd) list"      \<comment> \<open>innermost first, with the state each returns to\<close>
  cn_next :: nat                         \<comment> \<open>the counter the savepoint names come from\<close>
  cn_faults :: "db_error option list"

definition in_transaction :: "'d conn \<Rightarrow> bool" where
  "in_transaction c \<longleftrightarrow> cn_begin c \<or> cn_savepoints c \<noteq> []"

definition new_conn :: "'d \<Rightarrow> db_error option list \<Rightarrow> 'd conn" where
  "new_conn d faults = \<lparr>cn_visible = d, cn_durable = d, cn_begin = False, cn_savepoints = [], cn_next = 0, cn_faults = faults\<rparr>"

subsection \<open>Statements\<close>

definition statement :: "('d conn \<Rightarrow> (exc, unit) result \<times> 'd conn) \<Rightarrow> ('d conn, unit) prog" where
  \<comment> \<open>one statement: the next entry of the script decides whether it runs\<close>
  "statement run c =
     (case cn_faults c of
        Some e # fs \<Rightarrow> (Inl (OperationalError e), c\<lparr>cn_faults := fs\<rparr>)
      | _ # fs \<Rightarrow> run (c\<lparr>cn_faults := fs\<rparr>)
      | [] \<Rightarrow> run c)"

definition dml :: "('d \<Rightarrow> 'd) \<Rightarrow> ('d conn, unit) prog" where
  \<comment> \<open>\<^verbatim>\<open>INSERT\<close> or \<^verbatim>\<open>DELETE\<close>\<close>
  "dml f c = statement (\<lambda>c. (Inr (), c\<lparr>cn_visible := f (cn_visible c)\<rparr>))
     (if in_transaction c then c else c\<lparr>cn_begin := True\<rparr>)"

definition ddl :: "('d \<Rightarrow> 'd) \<Rightarrow> ('d conn, unit) prog" where
  \<comment> \<open>\<^verbatim>\<open>CREATE\<close> or \<^verbatim>\<open>ALTER\<close>: no implicit \<^verbatim>\<open>BEGIN\<close>, so outside a transaction it is durable at once\<close>
  "ddl f = statement (\<lambda>c. (Inr (), if in_transaction c then c\<lparr>cn_visible := f (cn_visible c)\<rparr>
     else c\<lparr>cn_visible := f (cn_visible c), cn_durable := f (cn_visible c)\<rparr>))"

definition commit :: "('d conn, unit) prog" where
  \<comment> \<open>\<^verbatim>\<open>conn.commit()\<close>: nothing is sent outside a transaction\<close>
  "commit c =
     (if in_transaction c then statement (\<lambda>c. (Inr (),
        c\<lparr>cn_durable := cn_visible c, cn_begin := False, cn_savepoints := []\<rparr>)) c
      else (Inr (), c))"

definition savepoint :: "nat \<Rightarrow> ('d conn, unit) prog" where
  "savepoint n = statement (\<lambda>c. (Inr (), c\<lparr>cn_savepoints := (n, cn_visible c) # cn_savepoints c\<rparr>))"

fun release_stack :: "nat \<Rightarrow> (nat \<times> 'd) list \<Rightarrow> (nat \<times> 'd) list option" where
  "release_stack n [] = None"
| "release_stack n ((m, d) # sps) = (if m = n then Some sps else release_stack n sps)"

fun rollback_stack :: "nat \<Rightarrow> (nat \<times> 'd) list \<Rightarrow> (nat \<times> 'd) list option" where
  "rollback_stack n [] = None"
| "rollback_stack n ((m, d) # sps) = (if m = n then Some ((m, d) # sps) else rollback_stack n sps)"

definition release :: "nat \<Rightarrow> ('d conn, unit) prog" where
  "release n = statement (\<lambda>c. case release_stack n (cn_savepoints c) of
     None \<Rightarrow> (Inl (OperationalError DbFailure), c)
   | Some sps \<Rightarrow> (Inr (), if sps = [] \<and> \<not> cn_begin c
       then c\<lparr>cn_savepoints := [], cn_durable := cn_visible c\<rparr> else c\<lparr>cn_savepoints := sps\<rparr>))"

definition rollback_to :: "nat \<Rightarrow> ('d conn, unit) prog" where
  "rollback_to n = statement (\<lambda>c. case rollback_stack n (cn_savepoints c) of
     Some ((m, d) # sps) \<Rightarrow> (Inr (), c\<lparr>cn_visible := d, cn_savepoints := (m, d) # sps\<rparr>)
   | _ \<Rightarrow> (Inl (OperationalError DbFailure), c))"

subsection \<open>The mutation block\<close>

datatype corruption_kind = MISSING | CORRUPT | MALFORMED | FORGED | STALE | ORPHANED | AMBIGUOUS | UNVERIFIED

record validation_result =
  vr_ok :: bool
  vr_corruption :: "corruption_kind option"
  vr_detail :: string

definition valid_result :: validation_result where
  "valid_result = \<lparr>vr_ok = True, vr_corruption = None, vr_detail = []\<rparr>"

definition invalid_result :: "corruption_kind \<Rightarrow> string \<Rightarrow> validation_result" where
  "invalid_result k detail = \<lparr>vr_ok = False, vr_corruption = Some k, vr_detail = detail\<rparr>"

definition mt_init :: "('d conn, nat) prog" where
  "mt_init c = (Inr (cn_next c), c\<lparr>cn_next := Suc (cn_next c)\<rparr>)"

definition mt_enter :: "validation_result \<Rightarrow> nat \<Rightarrow> ('d conn, unit) prog" where
  "mt_enter v n = (if \<not> vr_ok v then sraise MutationRefused else savepoint n)"

definition mt_exit_clean :: "nat \<Rightarrow> ('d conn, unit) prog" where
  "mt_exit_clean n =
     scatch (release n) (\<lambda>_.
       sthen (sswallow (sthen (rollback_to n) (release n))) (sraise TransactionCommitError))"

definition mt_exit_error :: "nat \<Rightarrow> ('d conn, unit) prog" where
  "mt_exit_error n = sthen (rollback_to n) (release n)"

subsection \<open>Durability facts\<close>

lemma statement_cases:
  assumes "statement run c = (r, c')"
  obtains (fault) e fs where "cn_faults c = Some e # fs" "r = Inl (OperationalError e)" "c' = c\<lparr>cn_faults := fs\<rparr>"
  | (run) fs where "run (c\<lparr>cn_faults := fs\<rparr>) = (r, c')" "fs = tl (cn_faults c)"
proof (cases "cn_faults c")
  case Nil
  then have "c\<lparr>cn_faults := []\<rparr> = c" by simp
  with Nil assms run [of "[]"] show thesis by (simp add: statement_def)
next
  case (Cons f fs)
  with assms fault run show thesis by (cases f) (auto simp: statement_def)
qed

definition settled :: "'d conn \<Rightarrow> bool" where
  \<comment> \<open>outside a transaction there is nothing pending\<close>
  "settled c \<longleftrightarrow> (\<not> in_transaction c \<longrightarrow> cn_visible c = cn_durable c)"

lemma settled_new [simp]: "settled (new_conn d fs)"
  by (simp add: settled_def new_conn_def)

lemma keeps_settled_statement:
  assumes "\<And>c r c'. settled c \<Longrightarrow> run c = (r, c') \<Longrightarrow> settled c'"
  shows "keeps settled (statement run)"
proof -
  have "settled c'" if "settled c" "statement run c = (r, c')" for c r c'
    using that(2)
  proof (cases rule: statement_cases)
    case (fault e fs)
    with that(1) show ?thesis by (auto simp: settled_def in_transaction_def)
  next
    case (run fs)
    have "settled (c\<lparr>cn_faults := fs\<rparr>)" using that(1) by (auto simp: settled_def in_transaction_def)
    from assms [OF this run(1)] show ?thesis .
  qed
  then show ?thesis unfolding keeps_def by (metis prod.collapse)
qed

lemma keeps_settled_dml [keeps_intros]: "keeps settled (dml f)"
proof -
  have k: "keeps settled (statement (\<lambda>c. (Inr (), c\<lparr>cn_visible := f (cn_visible c)\<rparr>)) \<circ>
      (\<lambda>c. if in_transaction c then c else c\<lparr>cn_begin := True\<rparr>))"
    unfolding keeps_def comp_def statement_def
    by (auto simp: settled_def in_transaction_def split: list.splits option.splits)
  have "dml f = statement (\<lambda>c. (Inr (), c\<lparr>cn_visible := f (cn_visible c)\<rparr>)) \<circ>
      (\<lambda>c. if in_transaction c then c else c\<lparr>cn_begin := True\<rparr>)"
    by (simp add: dml_def fun_eq_iff)
  with k show ?thesis by simp
qed

lemma keeps_settled_ddl [keeps_intros]: "keeps settled (ddl f)"
  unfolding ddl_def by (rule keeps_settled_statement) (auto simp: settled_def in_transaction_def split: if_splits)

lemma keeps_settled_commit [keeps_intros]: "keeps settled commit"
  unfolding keeps_def commit_def statement_def
  by (auto simp: settled_def in_transaction_def split: list.splits option.splits)

lemma keeps_settled_savepoint [keeps_intros]: "keeps settled (savepoint n)"
  unfolding savepoint_def by (rule keeps_settled_statement) (auto simp: settled_def in_transaction_def)

lemma keeps_settled_release [keeps_intros]: "keeps settled (release n)"
  unfolding release_def
  by (rule keeps_settled_statement) (auto simp: settled_def in_transaction_def split: option.splits if_splits)

lemma keeps_settled_rollback [keeps_intros]: "keeps settled (rollback_to n)"
proof -
  have "rollback_stack n sps = Some xs \<Longrightarrow> sps \<noteq> []" for sps and xs :: "(nat \<times> 'a) list"
    by (cases sps) auto
  then show ?thesis unfolding rollback_to_def
    by (intro keeps_settled_statement)
      (fastforce simp: settled_def in_transaction_def split: option.splits list.splits)
qed

subsection \<open>Statements without faults\<close>

lemma dml_clean:
  "cn_faults c = [] \<Longrightarrow> dml f c = (Inr (), c\<lparr>cn_visible := f (cn_visible c), cn_begin := cn_begin c \<or> cn_savepoints c = []\<rparr>)"
  by (cases "in_transaction c") (auto simp: dml_def statement_def in_transaction_def)

lemma commit_clean:
  "cn_faults c = [] \<Longrightarrow> in_transaction c \<Longrightarrow>
   commit c = (Inr (), c\<lparr>cn_durable := cn_visible c, cn_begin := False, cn_savepoints := []\<rparr>)"
  by (simp add: commit_def statement_def)

lemma dml_commit_clean:
  "cn_faults c = [] \<Longrightarrow> sthen (dml f) commit c =
     (Inr (), c\<lparr>cn_visible := f (cn_visible c), cn_durable := f (cn_visible c), cn_begin := False, cn_savepoints := []\<rparr>)"
  by (simp add: sthen_Inr [OF dml_clean] commit_clean in_transaction_def)

subsection \<open>Closing a block\<close>

definition durable_after_release :: "'d conn \<Rightarrow> (nat \<times> 'd) list \<Rightarrow> 'd \<Rightarrow> 'd" where
  \<comment> \<open>what is durable once the block is released with state \<open>d\<close>: only an outermost block commits\<close>
  "durable_after_release c sps d = (if sps = [] \<and> \<not> cn_begin c then d else cn_durable c)"

lemma release_top:
  assumes "cn_savepoints c = (n, d) # sps" "release n c = (r, c')"
  shows "r = Inr () \<and> cn_visible c' = cn_visible c \<and> cn_savepoints c' = sps \<and> cn_begin c' = cn_begin c \<and>
      cn_durable c' = durable_after_release c sps (cn_visible c) \<or>
    (\<exists>e. r = Inl (OperationalError e)) \<and> cn_visible c' = cn_visible c \<and> cn_savepoints c' = cn_savepoints c \<and>
      cn_begin c' = cn_begin c \<and> cn_durable c' = cn_durable c"
  using assms(2) unfolding release_def
  by (cases rule: statement_cases) (use assms(1) in \<open>auto simp: durable_after_release_def split: if_splits\<close>)

lemma rollback_top:
  assumes "cn_savepoints c = (n, d) # sps" "rollback_to n c = (r, c')"
  shows "r = Inr () \<and> cn_visible c' = d \<and> cn_savepoints c' = (n, d) # sps \<and> cn_begin c' = cn_begin c \<and> cn_durable c' = cn_durable c \<or>
    (\<exists>e. r = Inl (OperationalError e)) \<and> cn_visible c' = cn_visible c \<and> cn_savepoints c' = cn_savepoints c \<and>
      cn_begin c' = cn_begin c \<and> cn_durable c' = cn_durable c"
  using assms(2) unfolding rollback_to_def
  by (cases rule: statement_cases) (use assms(1) in auto)

lemma mt_exit_error_spec:
  assumes "cn_savepoints c = (n, d) # sps" "mt_exit_error n c = (r, c')"
  shows "r = Inr () \<and> cn_visible c' = d \<and> cn_savepoints c' = sps \<and> cn_begin c' = cn_begin c \<and>
      cn_durable c' = durable_after_release c sps d \<or>
    (\<exists>e. r = Inl (OperationalError e)) \<and> cn_savepoints c' = cn_savepoints c \<and> cn_begin c' = cn_begin c \<and> cn_durable c' = cn_durable c"
proof (cases "rollback_to n c")
  case (Pair q c1)
  from rollback_top [OF assms(1) Pair] show ?thesis
  proof (elim disjE conjE exE)
    assume q: "q = Inr ()" "cn_visible c1 = d" "cn_savepoints c1 = (n, d) # sps" "cn_begin c1 = cn_begin c" "cn_durable c1 = cn_durable c"
    then have "release n c1 = (r, c')" using assms(2) Pair by (simp add: mt_exit_error_def sthen_Inr)
    from release_top [OF q(3) this] q assms(1) show ?thesis by (auto simp: durable_after_release_def)
  next
    fix e assume "q = Inl (OperationalError e)" "cn_savepoints c1 = cn_savepoints c" "cn_begin c1 = cn_begin c" "cn_durable c1 = cn_durable c"
    then show ?thesis using assms(2) Pair by (auto simp: mt_exit_error_def sthen_Inl)
  qed
qed

lemma mt_exit_clean_spec:
  assumes "cn_savepoints c = (n, d) # sps" "mt_exit_clean n c = (r, c')"
  shows "r = Inr () \<and> cn_visible c' = cn_visible c \<and> cn_savepoints c' = sps \<and> cn_begin c' = cn_begin c \<and>
      cn_durable c' = durable_after_release c sps (cn_visible c) \<or>
    r = Inl TransactionCommitError \<and> cn_begin c' = cn_begin c \<and>
      (cn_visible c' = d \<and> cn_savepoints c' = sps \<and> cn_durable c' = durable_after_release c sps d \<or>
       cn_savepoints c' = cn_savepoints c \<and> cn_durable c' = cn_durable c)"
proof (cases "release n c")
  case (Pair q c1)
  from release_top [OF assms(1) Pair] show ?thesis
  proof (elim disjE conjE exE)
    assume "q = Inr ()" "cn_visible c1 = cn_visible c" "cn_savepoints c1 = sps" "cn_begin c1 = cn_begin c"
      "cn_durable c1 = durable_after_release c sps (cn_visible c)"
    then show ?thesis using assms(2) Pair by (auto simp: mt_exit_clean_def scatch_def)
  next
    fix e assume q: "q = Inl (OperationalError e)" "cn_savepoints c1 = cn_savepoints c" "cn_begin c1 = cn_begin c" "cn_durable c1 = cn_durable c"
    obtain r2 c2 where x: "mt_exit_error n c1 = (r2, c2)" by (cases "mt_exit_error n c1")
    have "r = Inl TransactionCommitError \<and> c' = c2"
      using assms(2) Pair q(1) x
      by (cases r2) (auto simp: mt_exit_clean_def mt_exit_error_def scatch_def sswallow_def sthen_def sbind_def sraise_def sret_def)
    moreover have "cn_savepoints c1 = (n, d) # sps" using q(2) assms(1) by simp
    from mt_exit_error_spec [OF this x] have "cn_begin c2 = cn_begin c \<and>
        (cn_visible c2 = d \<and> cn_savepoints c2 = sps \<and> cn_durable c2 = durable_after_release c sps d \<or>
         cn_savepoints c2 = cn_savepoints c \<and> cn_durable c2 = cn_durable c)"
      using q by (auto simp: durable_after_release_def)
    ultimately show ?thesis by blast
  qed
qed

end
