(* ===== verification/Frames.thy ===== *)
theory Frames
  imports Legend Sqlite
begin

text \<open>
  Session scopes (\<^verbatim>\<open>ugk/scope.py\<close>), declared compliance postures (\<^verbatim>\<open>ugk/authority/authority_model.py\<close>) and
  the integrity vocabulary (\<^verbatim>\<open>ugk/integrity/levels.py, validation.py, context.py, readonly.py\<close>).

  The current time text is an argument (\<open>now\<close>). The preset \<open>alt_prevention\<close> is left out: its description has a
  letter outside Latin-1. \<^verbatim>\<open>ORDER BY\<close> with equal keys keeps the row order here; SQLite leaves it open.

  Main results: scope and model identifiers bind every field; sealing is idempotent and never loses a row.
\<close>

subsection \<open>Verification levels\<close>

datatype verification_level = LINKAGE | BODY | CONTEXT | IDENTITY | QUORUM | FULLY_VERIFIED

definition level_value :: "verification_level \<Rightarrow> nat" where
  "level_value v = (case v of LINKAGE \<Rightarrow> 1 | BODY \<Rightarrow> 2 | CONTEXT \<Rightarrow> 3 | IDENTITY \<Rightarrow> 4 | QUORUM \<Rightarrow> 5 | FULLY_VERIFIED \<Rightarrow> 6)"

instantiation verification_level :: linorder
begin

definition less_eq_verification_level :: "verification_level \<Rightarrow> verification_level \<Rightarrow> bool" where
  "less_eq_verification_level a b \<longleftrightarrow> level_value a \<le> level_value b"

definition less_verification_level :: "verification_level \<Rightarrow> verification_level \<Rightarrow> bool" where
  "less_verification_level a b \<longleftrightarrow> level_value a < level_value b"

instance
proof
  fix a b c :: verification_level
  show "a < b \<longleftrightarrow> a \<le> b \<and> \<not> b \<le> a" by (auto simp: less_eq_verification_level_def less_verification_level_def)
  show "a \<le> a" by (simp add: less_eq_verification_level_def)
  show "a \<le> b \<Longrightarrow> b \<le> c \<Longrightarrow> a \<le> c" by (simp add: less_eq_verification_level_def)
  show "a \<le> b \<or> b \<le> a" by (auto simp: less_eq_verification_level_def)
  show "a \<le> b \<Longrightarrow> b \<le> a \<Longrightarrow> a = b"
    by (cases a; cases b) (simp_all add: less_eq_verification_level_def level_value_def)
qed

end

record verification_result =
  ve_achieved :: verification_level
  ve_required :: verification_level
  ve_corruption :: "corruption_kind option"

definition verification_ok :: "verification_result \<Rightarrow> bool" where
  "verification_ok v \<longleftrightarrow> ve_corruption v = None \<and> ve_achieved v \<ge> ve_required v"

definition is_ephemeral :: "string option \<Rightarrow> bool" where
  "is_ephemeral db_path \<longleftrightarrow> db_path = None \<or> db_path = Some '':memory:''"

definition require_existing :: "(string \<Rightarrow> bool) \<Rightarrow> string option \<Rightarrow> (exc, unit) result" where
  \<comment> \<open>the first argument is \<^verbatim>\<open>os.path.exists\<close>\<close>
  "require_existing path_exists db_path =
     (case db_path of None \<Rightarrow> Inr ()
      | Some p \<Rightarrow> if \<not> is_ephemeral db_path \<and> \<not> path_exists p then Inl ReadOnlyViolation else Inr ())"

definition guard_exit :: "(string \<Rightarrow> bool) \<Rightarrow> (string \<Rightarrow> bool) \<Rightarrow> string option \<Rightarrow> (exc, unit) result" where
  \<comment> \<open>the existence test at entry and at exit of the guarded block\<close>
  "guard_exit before after db_path =
     (case db_path of None \<Rightarrow> Inr ()
      | Some p \<Rightarrow> if is_ephemeral db_path then Inr ()
          else if before p \<noteq> after p then Inl ReadOnlyViolation else Inr ())"

subsection \<open>Provenance scopes\<close>

record provenance_scope =
  ps_scope_id :: string
  ps_scope_type :: string
  ps_authority_surface :: string
  ps_session_dkn :: string
  ps_law_hash :: string
  ps_legend_hash :: string
  ps_prior_scope_id :: string
  ps_timestamp :: string

definition SCOPE_KEYS :: "string list" where
  "SCOPE_KEYS = [''authority_surface'', ''law_hash'', ''legend_hash'', ''prior_scope_id'', ''scope_type'', ''session_dkn'', ''timestamp'']"

definition scope_body :: "provenance_scope \<Rightarrow> json" where
  "scope_body p = JObj (zip SCOPE_KEYS
     [JStr (ps_authority_surface p), JStr (ps_law_hash p), JStr (ps_legend_hash p), JStr (ps_prior_scope_id p),
      JStr (ps_scope_type p), JStr (ps_session_dkn p), JStr (ps_timestamp p)])"

definition scope_hash :: "provenance_scope \<Rightarrow> string" where
  "scope_hash p = to_hex (sha256 (canonical_json (scope_body p)))"

definition scope_create :: "string \<Rightarrow> provenance_scope \<Rightarrow> provenance_scope" where
  \<comment> \<open>\<^verbatim>\<open>create\<close>: the keyword arguments are the fields of the record, an empty time stamp means now\<close>
  "scope_create now args =
     (let p = args\<lparr>ps_timestamp := (if ps_timestamp args = [] then now else ps_timestamp args)\<rparr>
      in p\<lparr>ps_scope_id := scope_hash p\<rparr>)"

definition scope_verify_id :: "provenance_scope \<Rightarrow> bool" where
  "scope_verify_id p \<longleftrightarrow> scope_hash p = ps_scope_id p"

subsection \<open>Authority models\<close>

record authority_model =
  am_model_hash :: string
  am_model_id :: string
  am_require_gate :: bool
  am_require_warrant :: bool
  am_require_intent :: bool
  am_description :: string
  am_rationale :: string
  am_law_hash :: string
  am_authority :: string
  am_timestamp :: string

definition MODEL_KEYS :: "string list" where
  "MODEL_KEYS = [''authority'', ''description'', ''law_hash'', ''model_id'', ''rationale'', ''require_gate'', ''require_intent'',
     ''require_warrant'', ''timestamp'']"

definition model_body :: "authority_model \<Rightarrow> json" where
  "model_body m = JObj (zip MODEL_KEYS
     [JStr (am_authority m), JStr (am_description m), JStr (am_law_hash m), JStr (am_model_id m), JStr (am_rationale m),
      JBool (am_require_gate m), JBool (am_require_intent m), JBool (am_require_warrant m), JStr (am_timestamp m)])"

definition model_digest :: "authority_model \<Rightarrow> string" where
  "model_digest m = to_hex (sha256 (canonical_json (model_body m)))"

definition model_create :: "string \<Rightarrow> authority_model \<Rightarrow> authority_model" where
  "model_create now args =
     (let m = args\<lparr>am_timestamp := (if am_timestamp args = [] then now else am_timestamp args)\<rparr>
      in m\<lparr>am_model_hash := model_digest m\<rparr>)"

definition model_verify_hash :: "authority_model \<Rightarrow> bool" where
  "model_verify_hash m \<longleftrightarrow> model_digest m = am_model_hash m"

definition preset :: "string \<Rightarrow> bool \<Rightarrow> bool \<Rightarrow> bool \<Rightarrow> string \<Rightarrow> string \<Rightarrow> string \<Rightarrow> string \<Rightarrow> string \<Rightarrow> authority_model" where
  "preset now g w i model_id description rationale law_hash authority = model_create now
     \<lparr>am_model_hash = [], am_model_id = model_id, am_require_gate = g, am_require_warrant = w, am_require_intent = i,
      am_description = description, am_rationale = rationale, am_law_hash = law_hash, am_authority = authority, am_timestamp = []\<rparr>"

definition alt_trace :: "string \<Rightarrow> string \<Rightarrow> string \<Rightarrow> authority_model" where
  "alt_trace now = preset now True True False ''alt_trace''
     ''ALT trace + causal: gate and warrant required; will vacuous.''
     ''Disjuncts (a) and (b) enforced; will layer not yet adopted.''"

definition trace_only :: "string \<Rightarrow> string \<Rightarrow> string \<Rightarrow> authority_model" where
  "trace_only now = preset now False False False ''trace_only''
     ''Trace only: receipt chain enforced. Substrate/test posture.''
     ''Honest declaration for substrate usage and test environments.''"

definition custom_model :: "string \<Rightarrow> bool \<Rightarrow> bool \<Rightarrow> bool \<Rightarrow> string \<Rightarrow> string \<Rightarrow> string \<Rightarrow> string \<Rightarrow> authority_model" where
  "custom_model now g w i description rationale = preset now g w i ''custom'' description rationale"

subsection \<open>Archives\<close>

definition insert_or_ignore :: "('a \<Rightarrow> string) \<Rightarrow> 'a \<Rightarrow> 'a list \<Rightarrow> 'a list" where
  \<comment> \<open>\<^verbatim>\<open>INSERT OR IGNORE\<close> into a table with a text primary key\<close>
  "insert_or_ignore key x rows = (if key x \<in> key ` set rows then rows else rows @ [x])"

fun max_by :: "('a \<Rightarrow> string) \<Rightarrow> 'a list \<Rightarrow> 'a option" where
  \<comment> \<open>\<^verbatim>\<open>ORDER BY key DESC LIMIT 1\<close>\<close>
  "max_by key [] = None"
| "max_by key (x # xs) = (case max_by key xs of None \<Rightarrow> Some x | Some y \<Rightarrow> Some (if key y > key x then y else x))"

definition archive_seal :: "provenance_scope \<Rightarrow> (provenance_scope list conn, unit) prog" where
  \<comment> \<open>\<^verbatim>\<open>ScopeArchive.seal\<close>: every exception is swallowed\<close>
  "archive_seal p = sswallow (sthen (dml (insert_or_ignore ps_scope_id p)) commit)"

definition archive_get :: "provenance_scope list conn \<Rightarrow> string \<Rightarrow> provenance_scope option" where
  "archive_get c sid = find (\<lambda>p. ps_scope_id p = sid) (cn_visible c)"

definition archive_scopes_for :: "provenance_scope list conn \<Rightarrow> string \<Rightarrow> provenance_scope list" where
  "archive_scopes_for c surface = sort_key ps_timestamp (filter (\<lambda>p. ps_authority_surface p = surface) (cn_visible c))"

definition archive_latest_scope_id :: "provenance_scope list conn \<Rightarrow> string \<Rightarrow> string" where
  "archive_latest_scope_id c surface =
     (case max_by ps_timestamp (filter (\<lambda>p. ps_authority_surface p = surface) (cn_visible c)) of
        None \<Rightarrow> [] | Some p \<Rightarrow> ps_scope_id p)"

definition session_is_in_scope :: "provenance_scope list conn \<Rightarrow> string \<Rightarrow> string \<Rightarrow> bool" where
  "session_is_in_scope c dkn sid \<longleftrightarrow> (\<exists>p\<in>set (cn_visible c). ps_session_dkn p = dkn \<and> ps_scope_id p = sid)"

subsection \<open>Identifiers bind the declaration\<close>

lemma canonical_fixed_inject:
  assumes "canonical_json (JObj (zip ks vs)) = canonical_json (JObj (zip ks ws))"
    and "distinct ks" "length vs = length ks" "length ws = length ks"
  shows "map norm_json vs = map norm_json ws"
  using assms by (simp only: canonical_json_eq_iff) (rule norm_zip_inject)

lemma scope_body_inject:
  assumes "canonical_json (scope_body p) = canonical_json (scope_body q)"
  shows "p\<lparr>ps_scope_id := x\<rparr> = q\<lparr>ps_scope_id := x\<rparr>"
proof -
  note l = canonical_fixed_inject [OF assms [unfolded scope_body_def]]
  have "distinct SCOPE_KEYS" "length SCOPE_KEYS = 7" by (simp_all add: SCOPE_KEYS_def)
  with l show ?thesis by (simp add: numeral_eq_Suc)
qed

lemma model_body_inject:
  assumes "canonical_json (model_body p) = canonical_json (model_body q)"
  shows "p\<lparr>am_model_hash := x\<rparr> = q\<lparr>am_model_hash := x\<rparr>"
proof -
  note l = canonical_fixed_inject [OF assms [unfolded model_body_def]]
  have "distinct MODEL_KEYS" "length MODEL_KEYS = 9" by (simp_all add: MODEL_KEYS_def)
  with l show ?thesis by (simp add: numeral_eq_Suc)
qed

lemma scope_create_verifies: "scope_verify_id (scope_create now args)"
  by (simp add: scope_create_def scope_verify_id_def scope_hash_def scope_body_def Let_def)

lemma model_create_verifies: "model_verify_hash (model_create now args)"
  by (simp add: model_create_def model_verify_hash_def model_digest_def model_body_def Let_def)

lemma scope_id_binds:
  assumes "scope_verify_id p" "scope_verify_id q" "ps_scope_id p = ps_scope_id q"
  shows "p = q \<or> collide (canonical_json (scope_body p)) (canonical_json (scope_body q))"
proof (cases "canonical_json (scope_body p) = canonical_json (scope_body q)")
  case True
  from scope_body_inject [OF this, of "[]"] assms(3) show ?thesis by (cases p; cases q) simp
next
  case False
  with assms show ?thesis unfolding scope_verify_id_def scope_hash_def collide_def by (metis to_hex_inject)
qed

lemma model_hash_binds:
  assumes "model_verify_hash p" "model_verify_hash q" "am_model_hash p = am_model_hash q"
  shows "p = q \<or> collide (canonical_json (model_body p)) (canonical_json (model_body q))"
proof (cases "canonical_json (model_body p) = canonical_json (model_body q)")
  case True
  from model_body_inject [OF this, of "[]"] assms(3) show ?thesis by (cases p; cases q) simp
next
  case False
  with assms show ?thesis unfolding model_verify_hash_def model_digest_def collide_def by (metis to_hex_inject)
qed

subsection \<open>Archives keep what they have\<close>

lemma insert_or_ignore_keys: "distinct (map key rows) \<Longrightarrow> distinct (map key (insert_or_ignore key x rows))"
  by (auto simp: insert_or_ignore_def)

lemma insert_or_ignore_idem: "insert_or_ignore key x (insert_or_ignore key x rows) = insert_or_ignore key x rows"
  by (simp add: insert_or_ignore_def)

lemma insert_or_ignore_prefix: "prefix rows (insert_or_ignore key x rows)"
  by (simp add: insert_or_ignore_def)

lemma max_by_None: "max_by key xs = None \<longleftrightarrow> xs = []"
  by (cases xs) (auto split: option.splits)

lemma max_by_max:
  assumes "max_by key xs = Some y"
  shows "y \<in> set xs \<and> (\<forall>x\<in>set xs. key x \<le> key y)"
  using assms
proof (induction xs arbitrary: y)
  case (Cons x xs)
  show ?case
  proof (cases "max_by key xs")
    case None
    with Cons.prems show ?thesis by (simp add: max_by_None)
  next
    case (Some z)
    with Cons.prems Cons.IH [OF Some] show ?thesis by (auto split: if_splits simp: not_less dest: order.trans)
  qed
qed simp

end
