(* ===== verification/Authority.thy ===== *)
theory Authority
  imports Artifacts
begin

text \<open>
  \<^verbatim>\<open>ugk/authority/authority_graph.py\<close> and \<^verbatim>\<open>ugk/authority/capabilities.py\<close>: signed authority
  edges, the single-parent graph rooted at the Governor, the canonical path walk (with its
  cycle check, which is what makes it terminate), path verification and capability
  attenuation along a path.
\<close>

subsection \<open>Edges\<close>

definition GOVERNOR_AUTHORITY :: string where
  "GOVERNOR_AUTHORITY = ''Governor''"

definition DEFAULT_VALID_UNTIL :: int where
  "DEFAULT_VALID_UNTIL = 2 ^ 63 - 1"

record authority_edge =
  ae_issuer :: string
  ae_subject :: string
  ae_capability_set :: "string list"
  ae_edge_time :: int
  ae_valid_until :: int
  ae_issuer_key_id :: string
  ae_signature :: string

definition edge_payload :: "string \<Rightarrow> string \<Rightarrow> string list \<Rightarrow> int \<Rightarrow> int \<Rightarrow> string \<Rightarrow> bytes" where
  "edge_payload issuer subject capability_set edge_time valid_until issuer_key_id = canon (JObj
     [(''issuer'', JStr issuer),
      (''subject'', JStr subject),
      (''capability_set'', jstrs capability_set),
      (''edge_time'', JInt edge_time),
      (''valid_until'', JInt valid_until),
      (''issuer_key_id'', JStr issuer_key_id)])"

definition ae_unsigned_payload :: "authority_edge \<Rightarrow> bytes" where
  "ae_unsigned_payload e = edge_payload (ae_issuer e) (ae_subject e) (ae_capability_set e)
     (ae_edge_time e) (ae_valid_until e) (ae_issuer_key_id e)"

definition ae_to_canonical_dict :: "authority_edge \<Rightarrow> json" where
  "ae_to_canonical_dict e = JObj
     [(''issuer'', JStr (ae_issuer e)),
      (''subject'', JStr (ae_subject e)),
      (''capability_set'', jstrs (ae_capability_set e)),
      (''edge_time'', JInt (ae_edge_time e)),
      (''valid_until'', JInt (ae_valid_until e)),
      (''issuer_key_id'', JStr (ae_issuer_key_id e)),
      (''signature'', JStr (ae_signature e))]"

definition id_authority_edge :: "authority_edge \<Rightarrow> string" where
  "id_authority_edge e = to_hex (sha256 (canon (ae_to_canonical_dict e)))"

definition sign_authority_edge ::
  "string \<Rightarrow> string \<Rightarrow> string list \<Rightarrow> int \<Rightarrow> int \<Rightarrow> string \<Rightarrow> string \<Rightarrow> (pyexc, authority_edge) result" where
  "sign_authority_edge issuer subject capability_set edge_time valid_until issuer_key_id signer_privkey_hex =
     (let cs = sort capability_set in
      rbind (ed25519_sign (edge_payload issuer subject cs edge_time valid_until issuer_key_id) signer_privkey_hex)
        (\<lambda>sig. Inr \<lparr>ae_issuer = issuer, ae_subject = subject, ae_capability_set = cs,
           ae_edge_time = edge_time, ae_valid_until = valid_until,
           ae_issuer_key_id = issuer_key_id, ae_signature = sig\<rparr>))"

definition verify_authority_edge :: "authority_edge \<Rightarrow> string \<Rightarrow> int option \<Rightarrow> bool \<times> error_code option" where
  "verify_authority_edge e governor_pubkey_hex current_time =
     (if ae_issuer_key_id e \<noteq> governor_pubkey_hex then (False, Some IssuerMismatch)
      else if \<not> ed25519_verify (ae_unsigned_payload e) (ae_signature e) governor_pubkey_hex
        then (False, Some SignatureInvalid)
      else if (case current_time of None \<Rightarrow> False | Some t \<Rightarrow> t > ae_valid_until e)
        then (False, Some ExpiredEdgeCode)
      else (True, None))"

subsection \<open>The graph\<close>

type_synonym authority_graph = "(string \<times> authority_edge) list"
  \<comment> \<open>the dict \<open>_edges\<close>: subject to incoming edge\<close>

definition add_edge :: "authority_graph \<Rightarrow> authority_edge \<Rightarrow> authority_graph" where
  "add_edge g e = dict_set (ae_subject e) e g"

definition has_subject :: "authority_graph \<Rightarrow> string \<Rightarrow> bool" where
  "has_subject g subject \<longleftrightarrow> map_of g subject \<noteq> None"

definition get_edge_for :: "authority_graph \<Rightarrow> string \<Rightarrow> authority_edge option" where
  "get_edge_for g subject = map_of g subject"

definition clear_graph :: "authority_graph \<Rightarrow> authority_graph" where
  "clear_graph g = []"

datatype path_error = CycleDetected string | NoIncomingEdge string

function walk :: "authority_graph \<Rightarrow> string \<Rightarrow> string set \<Rightarrow> authority_edge list \<Rightarrow>
    (path_error, authority_edge list) result" where
  \<comment> \<open>the \<^verbatim>\<open>while cursor != GOVERNOR_AUTHORITY\<close> loop; the path is built in reverse\<close>
  "walk g cursor seen path =
     (if cursor = GOVERNOR_AUTHORITY then Inr path
      else if cursor \<in> seen then Inl (CycleDetected cursor)
      else case map_of g cursor of
        None \<Rightarrow> Inl (NoIncomingEdge cursor)
      | Some e \<Rightarrow> walk g (ae_issuer e) (insert cursor seen) (e # path))"
  by pat_completeness auto

termination
proof (relation "measure (\<lambda>(g, cursor, seen, path). card (fst ` set g - seen))", simp)
  fix g :: authority_graph and cursor seen path and e :: authority_edge
  assume n: "cursor \<notin> seen" and e: "map_of g cursor = Some e"
  then have "cursor \<in> fst ` set g - seen"
    by (metis DiffI map_of_eq_None_iff option.distinct(1))
  then have "card (fst ` set g - insert cursor seen) < card (fst ` set g - seen)"
    by (intro psubset_card_mono) auto
  then show "((g, ae_issuer e, insert cursor seen, e # path), (g, cursor, seen, path))
      \<in> measure (\<lambda>(g, cursor, seen, path). card (fst ` set g - seen))" by simp
qed

declare walk.simps [simp del]

definition canonical_path :: "authority_graph \<Rightarrow> string \<Rightarrow> (path_error, authority_edge list) result" where
  "canonical_path g target =
     (if target = GOVERNOR_AUTHORITY then Inr [] else walk g target {} [])"

fun verify_edges :: "string \<Rightarrow> int option \<Rightarrow> string option \<Rightarrow> authority_edge list \<Rightarrow> bool \<times> error_code option" where
  \<comment> \<open>the loop of \<open>verify_canonical_path\<close>, with the previous edge's subject\<close>
  "verify_edges pub now prev [] = (True, None)"
| "verify_edges pub now prev (e # es) =
     (let (ok, err) = verify_authority_edge e pub now in
      if \<not> ok then (False, err)
      else if prev \<noteq> None \<and> prev \<noteq> Some (ae_issuer e) then (False, Some NoCanonicalPath)
      else verify_edges pub now (Some (ae_subject e)) es)"

definition verify_canonical_path ::
  "authority_edge list \<Rightarrow> string \<Rightarrow> int option \<Rightarrow> bool \<times> error_code option" where
  "verify_canonical_path path governor_pubkey_hex current_time =
     (if path = [] then (False, Some NoCanonicalPath)
      else if ae_issuer (hd path) \<noteq> GOVERNOR_AUTHORITY then (False, Some NoCanonicalPath)
      else verify_edges governor_pubkey_hex current_time None path)"

subsection \<open>Capabilities\<close>

definition CAPABILITY_VOCABULARY :: "string list" where
  "CAPABILITY_VOCABULARY = [''attest'', ''bind'', ''evaluate'', ''read'', ''write'']"

definition attenuates :: "string list \<Rightarrow> string list \<Rightarrow> bool" where
  "attenuates parent_set child_set \<longleftrightarrow> set child_set \<subseteq> set parent_set"

fun attenuate_along :: "string list \<Rightarrow> authority_edge list \<Rightarrow> (error_code, string list) result" where
  \<comment> \<open>the loop of \<open>compute_effective_capabilities\<close>\<close>
  "attenuate_along effective [] = Inr effective"
| "attenuate_along effective (e # path) =
     (if \<not> set (ae_capability_set e) \<subseteq> set effective then Inl CapabilityEscalation
      else attenuate_along (ae_capability_set e) path)"

definition compute_effective_capabilities :: "authority_edge list \<Rightarrow> (error_code, string list) result" where
  "compute_effective_capabilities path = attenuate_along CAPABILITY_VOCABULARY path"

definition default_capability_set :: "string list" where
  "default_capability_set = sort CAPABILITY_VOCABULARY"

definition verify_authority_chain_with_capabilities ::
  "authority_edge list \<Rightarrow> string \<Rightarrow> int option \<Rightarrow> string list option \<times> error_code option" where
  "verify_authority_chain_with_capabilities path governor_pubkey_hex current_time =
     (let (ok, err) = verify_canonical_path path governor_pubkey_hex current_time in
      if \<not> ok then (None, err)
      else case compute_effective_capabilities path of
        Inl c \<Rightarrow> (None, Some c)
      | Inr eff \<Rightarrow> (Some eff, None))"

subsection \<open>The default graph\<close>

definition ensure_default_edge_for :: "authority_graph \<Rightarrow> string \<Rightarrow> (pyexc, authority_graph) result" where
  "ensure_default_edge_for g authority_name =
     (if authority_name = GOVERNOR_AUTHORITY then Inr g
      else if has_subject g authority_name then Inr g
      else rbind (sign_authority_edge GOVERNOR_AUTHORITY authority_name default_capability_set 0
             DEFAULT_VALID_UNTIL DEFAULT_TEST_PUBKEY_HEX DEFAULT_TEST_PRIVKEY_HEX)
        (\<lambda>e. Inr (add_edge g e)))"

definition canonical_path_for :: "authority_graph \<Rightarrow> string \<Rightarrow> (pyexc, authority_edge list \<times> authority_graph) result" where
  \<comment> \<open>both walk errors are a Python \<open>ValueError\<close>\<close>
  "canonical_path_for g authority_name =
     (if authority_name = GOVERNOR_AUTHORITY then Inr ([], g)
      else rbind (ensure_default_edge_for g authority_name) (\<lambda>g'.
        case canonical_path g' authority_name of
          Inl _ \<Rightarrow> Inl ValueError
        | Inr p \<Rightarrow> Inr (p, g')))"

definition canonical_path_as_dicts :: "authority_graph \<Rightarrow> string \<Rightarrow> (pyexc, json \<times> authority_graph) result" where
  "canonical_path_as_dicts g authority_name =
     rbind (canonical_path_for g authority_name) (\<lambda>(p, g'). Inr (JList (map ae_to_canonical_dict p), g'))"

definition register_edge :: "authority_graph \<Rightarrow> authority_edge \<Rightarrow> authority_graph" where
  "register_edge g e = add_edge g e"

subsection \<open>Well-formed graphs\<close>

definition graph_ok :: "authority_graph \<Rightarrow> bool" where
  \<comment> \<open>a dict (distinct keys) whose edges sit under their own subject\<close>
  "graph_ok g \<longleftrightarrow> distinct (map fst g) \<and> (\<forall>(s, e) \<in> set g. ae_subject e = s)"

lemma graph_ok_lookup: "graph_ok g \<Longrightarrow> map_of g s = Some e \<Longrightarrow> ae_subject e = s"
  by (auto simp: graph_ok_def dest!: map_of_SomeD)

lemma graph_ok_add_edge: "graph_ok g \<Longrightarrow> graph_ok (add_edge g e)"
  by (auto simp: graph_ok_def add_edge_def dict_set_distinct dest!: dict_set_member)

fun linked :: "string \<Rightarrow> authority_edge list \<Rightarrow> string \<Rightarrow> bool" where
  \<comment> \<open>a contiguous chain of edges between two authorities\<close>
  "linked a [] b \<longleftrightarrow> a = b"
| "linked a (e # es) b \<longleftrightarrow> ae_issuer e = a \<and> linked (ae_subject e) es b"

lemma walk_linked:
  "walk g cursor seen path = Inr p \<Longrightarrow> graph_ok g \<Longrightarrow> linked cursor path target \<Longrightarrow>
   linked GOVERNOR_AUTHORITY p target \<and> (\<exists>q. p = q @ path \<and> set q \<subseteq> snd ` set g \<and>
     distinct (map ae_subject q) \<and> set (map ae_subject q) \<inter> seen = {})"
proof (induction g cursor seen path rule: walk.induct)
  case (1 g cursor seen path)
  show ?case
  proof (cases "cursor = GOVERNOR_AUTHORITY")
    case True
    with 1 show ?thesis by (auto simp: walk.simps)
  next
    case False
    with 1(2) have ns: "cursor \<notin> seen" by (auto simp: walk.simps split: if_splits)
    from 1(2) False ns obtain e where e: "map_of g cursor = Some e"
      "walk g (ae_issuer e) (insert cursor seen) (e # path) = Inr p"
      by (subst (asm) walk.simps) (auto split: option.splits)
    have s: "ae_subject e = cursor" using 1(3) e(1) by (rule graph_ok_lookup)
    have "linked (ae_issuer e) (e # path) target" using 1(4) s by simp
    from 1(1) [OF False ns e(1) e(2) 1(3) this] obtain q where
      q: "linked GOVERNOR_AUTHORITY p target" "p = q @ e # path" "set q \<subseteq> snd ` set g"
        "distinct (map ae_subject q)" "set (map ae_subject q) \<inter> insert cursor seen = {}" by auto
    have "e \<in> snd ` set g" using e(1) by (force dest: map_of_SomeD)
    then have "p = (q @ [e]) @ path \<and> set (q @ [e]) \<subseteq> snd ` set g \<and> distinct (map ae_subject (q @ [e])) \<and>
        set (map ae_subject (q @ [e])) \<inter> seen = {}"
      using q s ns by auto
    with q(1) show ?thesis by blast
  qed
qed

definition simple_path :: "authority_graph \<Rightarrow> authority_edge list \<Rightarrow> string \<Rightarrow> bool" where
  \<comment> \<open>a contiguous chain of registered edges from the Governor, without repetition\<close>
  "simple_path g p target \<longleftrightarrow> linked GOVERNOR_AUTHORITY p target \<and>
     (\<forall>e \<in> set p. map_of g (ae_subject e) = Some e) \<and> distinct (map ae_subject p) \<and>
     GOVERNOR_AUTHORITY \<notin> ae_subject ` set p"

lemma walk_edges:
  "walk g cursor seen path = Inr p \<Longrightarrow> graph_ok g \<Longrightarrow>
   \<exists>q. p = q @ path \<and> (\<forall>e \<in> set q. map_of g (ae_subject e) = Some e \<and> ae_subject e \<noteq> GOVERNOR_AUTHORITY)"
proof (induction g cursor seen path rule: walk.induct)
  case (1 g cursor seen path)
  show ?case
  proof (cases "cursor = GOVERNOR_AUTHORITY")
    case True
    with 1 show ?thesis by (auto simp: walk.simps)
  next
    case False
    with 1(2) have ns: "cursor \<notin> seen" by (auto simp: walk.simps split: if_splits)
    from 1(2) False ns obtain e where e: "map_of g cursor = Some e"
      "walk g (ae_issuer e) (insert cursor seen) (e # path) = Inr p"
      by (subst (asm) walk.simps) (auto split: option.splits)
    from 1(1) [OF False ns e(1) e(2) 1(3)] obtain q where
      q: "p = q @ e # path" "\<forall>e \<in> set q. map_of g (ae_subject e) = Some e \<and> ae_subject e \<noteq> GOVERNOR_AUTHORITY"
      by blast
    have "ae_subject e = cursor" using 1(3) e(1) by (rule graph_ok_lookup)
    then have "p = (q @ [e]) @ path \<and>
      (\<forall>e \<in> set (q @ [e]). map_of g (ae_subject e) = Some e \<and> ae_subject e \<noteq> GOVERNOR_AUTHORITY)"
      using q e(1) False by auto
    then show ?thesis by blast
  qed
qed

lemma linked_snoc: "linked a (p @ [e]) b \<longleftrightarrow> linked a p (ae_issuer e) \<and> ae_subject e = b"
  by (induction p arbitrary: a) auto

lemma walk_complete:
  "linked GOVERNOR_AUTHORITY q cursor \<Longrightarrow> (\<forall>e \<in> set q. map_of g (ae_subject e) = Some e) \<Longrightarrow>
   distinct (map ae_subject q) \<Longrightarrow> GOVERNOR_AUTHORITY \<notin> ae_subject ` set q \<Longrightarrow>
   seen \<inter> ae_subject ` set q = {} \<Longrightarrow> walk g cursor seen path = Inr (q @ path)"
proof (induction q arbitrary: cursor seen path rule: rev_induct)
  case Nil
  then show ?case by (simp add: walk.simps)
next
  case (snoc e q)
  have c: "ae_subject e = cursor" "linked GOVERNOR_AUTHORITY q (ae_issuer e)"
    using snoc.prems(1) by (auto simp: linked_snoc)
  have "walk g (ae_issuer e) (insert cursor seen) (e # path) = Inr (q @ e # path)"
    by (rule snoc.IH) (use snoc.prems c in auto)
  moreover have "cursor \<noteq> GOVERNOR_AUTHORITY" "cursor \<notin> seen" "map_of g cursor = Some e"
    using snoc.prems c by auto
  ultimately show ?case by (subst walk.simps) simp
qed

lemma linked_to_root_nil:
  assumes "simple_path g p GOVERNOR_AUTHORITY"
  shows "p = []"
proof (rule ccontr)
  assume "p \<noteq> []"
  then obtain q e where "p = q @ [e]" by (metis rev_exhaust)
  with assms show False by (auto simp: simple_path_def linked_snoc)
qed

text \<open>C14. The canonical path walk is exact: on a well-formed graph it returns a
  path if and only if that path is the contiguous, repetition-free chain of registered edges from the
  Governor to the target. In particular it always terminates (the cycle check bounds the walk), what it
  returns is rooted at the Governor, and it misses no authority that is reachable.\<close>

theorem canonical_path_exact:
  assumes "graph_ok g"
  shows "canonical_path g target = Inr p \<longleftrightarrow> simple_path g p target"
proof (cases "target = GOVERNOR_AUTHORITY")
  case True
  then show ?thesis using linked_to_root_nil [of g p]
    by (auto simp: canonical_path_def simple_path_def)
next
  case False
  show ?thesis
  proof
    assume "canonical_path g target = Inr p"
    then have w: "walk g target {} [] = Inr p" using False by (simp add: canonical_path_def)
    from walk_linked [OF w assms, of target] walk_edges [OF w assms] show "simple_path g p target"
      by (auto simp: simple_path_def)
  next
    assume "simple_path g p target"
    then have "walk g target {} [] = Inr (p @ [])"
      by (intro walk_complete) (auto simp: simple_path_def)
    with False show "canonical_path g target = Inr p" by (simp add: canonical_path_def)
  qed
qed

definition sample_edge :: "string \<Rightarrow> string \<Rightarrow> string list \<Rightarrow> authority_edge" where
  "sample_edge i s caps = \<lparr>ae_issuer = i, ae_subject = s, ae_capability_set = caps, ae_edge_time = 0,
     ae_valid_until = 10, ae_issuer_key_id = ''k'', ae_signature = ''s''\<rparr>"

definition sample_graph :: authority_graph where
  "sample_graph = [(''B'', sample_edge ''A'' ''B'' [''read'']),
     (''A'', sample_edge ''Governor'' ''A'' [''read'', ''write''])]"

lemma sample_graph_ok: "graph_ok sample_graph"
  by (simp add: sample_graph_def graph_ok_def sample_edge_def)

theorem canonical_path_exact_witness:
  "canonical_path sample_graph ''B'' =
     Inr [sample_edge ''Governor'' ''A'' [''read'', ''write''], sample_edge ''A'' ''B'' [''read'']]"
  unfolding canonical_path_exact [OF sample_graph_ok]
  by (simp add: simple_path_def sample_graph_def sample_edge_def GOVERNOR_AUTHORITY_def)

subsection \<open>Path verification\<close>

lemma verify_edges_iff:
  "linked a p b \<Longrightarrow> prev = None \<or> prev = Some a \<Longrightarrow>
   (verify_edges pub now prev p = (True, None) \<longleftrightarrow> (\<forall>e \<in> set p. verify_authority_edge e pub now = (True, None))) \<and>
   snd (verify_edges pub now prev p) \<noteq> Some NoCanonicalPath"
proof (induction p arbitrary: a prev)
  case (Cons e es)
  obtain ok err where v: "verify_authority_edge e pub now = (ok, err)" by fastforce
  then have "ok \<longleftrightarrow> err = None" "err \<noteq> Some NoCanonicalPath"
    by (auto simp: verify_authority_edge_def split: if_splits)
  with Cons.IH [of "ae_subject e" "Some (ae_subject e)"] Cons.prems v show ?case by auto
qed simp

text \<open>canonical path verifies. Verification of a canonical path never fails on structure: for any
  target other than the Governor, the path the graph returns verifies exactly when every edge on it has
  a valid Governor signature and is unexpired, and it is never rejected as \<open>NoCanonicalPath\<close>.\<close>

theorem canonical_path_verifies:
  assumes "graph_ok g" "canonical_path g target = Inr p" "target \<noteq> GOVERNOR_AUTHORITY"
  shows "(verify_canonical_path p pub now = (True, None) \<longleftrightarrow>
      (\<forall>e \<in> set p. verify_authority_edge e pub now = (True, None))) \<and>
    snd (verify_canonical_path p pub now) \<noteq> Some NoCanonicalPath"
proof -
  from assms(1,2) have s: "simple_path g p target"
    using walk_linked walk_edges by (cases "target = GOVERNOR_AUTHORITY")
      (fastforce simp: canonical_path_def simple_path_def dest: walk_linked [where target = target] walk_edges)+
  then have l: "linked GOVERNOR_AUTHORITY p target" by (simp add: simple_path_def)
  with assms(3) have "p \<noteq> [] \<and> ae_issuer (hd p) = GOVERNOR_AUTHORITY" by (cases p) auto
  then show ?thesis using verify_edges_iff [OF l, of None pub now] by (simp add: verify_canonical_path_def)
qed

theorem canonical_path_verifies_witness:
  "snd (verify_canonical_path [sample_edge ''Governor'' ''A'' [''read'', ''write''], sample_edge ''A'' ''B'' [''read'']]
     ''k'' (Some 3)) \<noteq> Some NoCanonicalPath"
proof -
  have "canonical_path sample_graph ''B'' =
     Inr [sample_edge ''Governor'' ''A'' [''read'', ''write''], sample_edge ''A'' ''B'' [''read'']]"
    by (simp add: canonical_path_def walk.simps sample_graph_def sample_edge_def GOVERNOR_AUTHORITY_def)
  from canonical_path_verifies [OF sample_graph_ok this] show ?thesis by (simp add: GOVERNOR_AUTHORITY_def)
qed

subsection \<open>Attenuation\<close>

lemma attenuate_along_sub:
  "attenuate_along eff path = Inr r \<Longrightarrow>
   set r \<subseteq> set eff \<and> (\<forall>e \<in> set path. set r \<subseteq> set (ae_capability_set e) \<and> set (ae_capability_set e) \<subseteq> set eff)"
  by (induction path arbitrary: eff) (fastforce split: if_splits)+

lemma attenuate_along_last:
  "attenuate_along eff path = Inr r \<Longrightarrow> r = (if path = [] then eff else ae_capability_set (last path))"
  by (induction path arbitrary: eff) (auto split: if_splits)

text \<open>capabilities attenuate. No capability is ever gained along an authority chain: when the
  effective set is computed, it is what the last edge grants, it is contained in the grant of every edge
  of the path, and every grant is contained in the constitutional vocabulary.\<close>

theorem capabilities_attenuate:
  assumes "compute_effective_capabilities path = Inr eff"
  shows "set eff \<subseteq> set CAPABILITY_VOCABULARY \<and>
    (\<forall>e \<in> set path. set eff \<subseteq> set (ae_capability_set e) \<and>
       set (ae_capability_set e) \<subseteq> set CAPABILITY_VOCABULARY) \<and>
    (path \<noteq> [] \<longrightarrow> eff = ae_capability_set (last path))"
  using assms attenuate_along_sub attenuate_along_last
  by (fastforce simp: compute_effective_capabilities_def)

theorem capabilities_attenuate_witness:
  "set [''read''] \<subseteq> set CAPABILITY_VOCABULARY"
proof -
  have "compute_effective_capabilities
      [sample_edge ''Governor'' ''A'' [''read'', ''write''], sample_edge ''A'' ''B'' [''read'']] = Inr [''read'']"
    by (simp add: compute_effective_capabilities_def CAPABILITY_VOCABULARY_def sample_edge_def)
  from capabilities_attenuate [OF this] show ?thesis by blast
qed

subsection \<open>Default edges\<close>

lemma ae_dict_inject: "canon (ae_to_canonical_dict x) = canon (ae_to_canonical_dict y) \<Longrightarrow> x = y"
  using canon_obj_inject [of "[''issuer'', ''subject'', ''capability_set'', ''edge_time'', ''valid_until'', ''issuer_key_id'', ''signature'']"
      "[JStr (ae_issuer x), JStr (ae_subject x), jstrs (ae_capability_set x), JInt (ae_edge_time x), JInt (ae_valid_until x), JStr (ae_issuer_key_id x), JStr (ae_signature x)]"
      "[JStr (ae_issuer y), JStr (ae_subject y), jstrs (ae_capability_set y), JInt (ae_edge_time y), JInt (ae_valid_until y), JStr (ae_issuer_key_id y), JStr (ae_signature y)]"]
  by (simp add: ae_to_canonical_dict_def)

interpretation edge_id: content_addressed "\<lambda>e. canon (ae_to_canonical_dict e)" id_authority_edge
  by unfold_locales (auto simp: id_authority_edge_def dest: ae_dict_inject)

lemma sign_default_edge:
  "\<exists>e. sign_authority_edge i s caps t u pub DEFAULT_TEST_PRIVKEY_HEX = Inr e \<and>
    ae_issuer e = i \<and> ae_subject e = s \<and> ae_capability_set e = sort caps"
  using sign_default_ok [of "edge_payload i s (sort caps) t u pub"]
  by (auto simp: sign_authority_edge_def Let_def)

lemma ensure_default_edge_ok:
  assumes "graph_ok g"
  shows "\<exists>g'. ensure_default_edge_for g a = Inr g' \<and> graph_ok g' \<and>
    (a \<noteq> GOVERNOR_AUTHORITY \<longrightarrow> has_subject g' a) \<and> (has_subject g a \<longrightarrow> g' = g)"
proof (cases "a = GOVERNOR_AUTHORITY \<or> has_subject g a")
  case True
  then show ?thesis using assms by (auto simp: ensure_default_edge_for_def)
next
  case False
  obtain e where e: "sign_authority_edge GOVERNOR_AUTHORITY a default_capability_set 0
      DEFAULT_VALID_UNTIL DEFAULT_TEST_PUBKEY_HEX DEFAULT_TEST_PRIVKEY_HEX = Inr e" "ae_subject e = a"
    using sign_default_edge by blast
  then show ?thesis using False assms graph_ok_add_edge [OF assms, of e]
    by (auto simp: ensure_default_edge_for_def add_edge_def has_subject_def)
qed

lemma default_grant:
  assumes "graph_ok g" "\<not> has_subject g a" "a \<noteq> GOVERNOR_AUTHORITY"
  shows "\<exists>e g'. canonical_path_for g a = Inr ([e], g') \<and> graph_ok g' \<and>
    canonical_path_for g' a = Inr ([e], g') \<and>
    ae_issuer e = GOVERNOR_AUTHORITY \<and> ae_subject e = a \<and>
    (\<exists>eff. compute_effective_capabilities [e] = Inr eff \<and> set eff = set CAPABILITY_VOCABULARY)"
proof -
  obtain e where e: "sign_authority_edge GOVERNOR_AUTHORITY a default_capability_set 0
      DEFAULT_VALID_UNTIL DEFAULT_TEST_PUBKEY_HEX DEFAULT_TEST_PRIVKEY_HEX = Inr e"
    "ae_issuer e = GOVERNOR_AUTHORITY" "ae_subject e = a" "ae_capability_set e = sort default_capability_set"
    using sign_default_edge by blast
  let ?g = "add_edge g e"
  have m: "map_of ?g a = Some e" using e by (simp add: add_edge_def)
  have p: "canonical_path ?g a = Inr [e]"
    using assms(3) m e(2) by (simp add: canonical_path_def walk.simps)
  have "ensure_default_edge_for g a = Inr ?g" "ensure_default_edge_for ?g a = Inr ?g"
    using assms e m by (simp_all add: ensure_default_edge_for_def has_subject_def)
  moreover have "compute_effective_capabilities [e] = Inr (ae_capability_set e)"
    "set (ae_capability_set e) = set CAPABILITY_VOCABULARY"
    using e(4) by (simp_all add: compute_effective_capabilities_def default_capability_set_def)
  ultimately show ?thesis using assms p e graph_ok_add_edge by (auto simp: canonical_path_for_def)
qed

definition flat_graph :: "authority_graph \<Rightarrow> bool" where
  \<comment> \<open>the graphs that arise from default edges and from direct grants of the Governor\<close>
  "flat_graph g \<longleftrightarrow> graph_ok g \<and> (\<forall>(s, e) \<in> set g. s \<noteq> GOVERNOR_AUTHORITY \<and> ae_issuer e = GOVERNOR_AUTHORITY \<and>
     set (ae_capability_set e) \<subseteq> set CAPABILITY_VOCABULARY)"

lemma flat_graph_empty [simp]: "flat_graph []"
  by (simp add: flat_graph_def graph_ok_def)

lemma flat_path:
  assumes "flat_graph g"
  shows "\<exists>path g' caps. canonical_path_for g a = Inr (path, g') \<and> flat_graph g' \<and>
    canonical_path_for g' a = Inr (path, g') \<and> compute_effective_capabilities path = Inr caps"
proof -
  have ok: "graph_ok g" using assms by (simp add: flat_graph_def)
  show ?thesis
  proof (cases "a = GOVERNOR_AUTHORITY")
    case True
    then show ?thesis using assms by (simp add: canonical_path_for_def compute_effective_capabilities_def)
  next
    case na: False
    show ?thesis
    proof (cases "map_of g a")
      case (Some e)
      then have "(a, e) \<in> set g" by (rule map_of_SomeD)
      then have e: "ae_issuer e = GOVERNOR_AUTHORITY" "set (ae_capability_set e) \<subseteq> set CAPABILITY_VOCABULARY"
        using assms by (auto simp: flat_graph_def)
      have "canonical_path g a = Inr [e]" using na Some e(1) by (simp add: canonical_path_def walk.simps)
      moreover have "ensure_default_edge_for g a = Inr g" using Some by (simp add: ensure_default_edge_for_def has_subject_def)
      moreover have "compute_effective_capabilities [e] = Inr (ae_capability_set e)"
        using e(2) by (simp add: compute_effective_capabilities_def)
      ultimately show ?thesis using na assms by (simp add: canonical_path_for_def)
    next
      case None
      then have n: "\<not> has_subject g a" by (simp add: has_subject_def)
      obtain e where e: "sign_authority_edge GOVERNOR_AUTHORITY a default_capability_set 0
          DEFAULT_VALID_UNTIL DEFAULT_TEST_PUBKEY_HEX DEFAULT_TEST_PRIVKEY_HEX = Inr e"
        "ae_issuer e = GOVERNOR_AUTHORITY" "ae_subject e = a" "ae_capability_set e = sort default_capability_set"
        using sign_default_edge by blast
      have g: "ensure_default_edge_for g a = Inr (add_edge g e)" using na n e(1) by (simp add: ensure_default_edge_for_def)
      have "\<forall>(s, x) \<in> set (add_edge g e). s \<noteq> GOVERNOR_AUTHORITY \<and> ae_issuer x = GOVERNOR_AUTHORITY \<and>
          set (ae_capability_set x) \<subseteq> set CAPABILITY_VOCABULARY"
        using assms e na unfolding add_edge_def flat_graph_def
        by (auto dest!: dict_set_member simp: default_capability_set_def)
      then have f: "flat_graph (add_edge g e)" using graph_ok_add_edge [OF ok] by (simp add: flat_graph_def)
      obtain e' g' where p: "canonical_path_for g a = Inr ([e'], g')" "canonical_path_for g' a = Inr ([e'], g')"
        "\<exists>eff. compute_effective_capabilities [e'] = Inr eff"
        using default_grant [OF ok n na] by blast
      have "g' = add_edge g e" using p(1) g na by (auto simp: canonical_path_for_def rbind_def split: sum.splits)
      with p f show ?thesis by blast
    qed
  qed
qed

text \<open>default authority full grant. An authority the graph does not know yet gets a canonical path of
  one edge straight from the Governor that carries the whole capability vocabulary, and asking again
  returns the same path without changing the graph.\<close>

theorem default_authority_full_grant:
  assumes "graph_ok g" "\<not> has_subject g a" "a \<noteq> GOVERNOR_AUTHORITY"
  shows "\<exists>e g'. canonical_path_for g a = Inr ([e], g') \<and> graph_ok g' \<and>
    canonical_path_for g' a = Inr ([e], g') \<and>
    ae_issuer e = GOVERNOR_AUTHORITY \<and> ae_subject e = a \<and>
    (\<exists>eff. compute_effective_capabilities [e] = Inr eff \<and> set eff = set CAPABILITY_VOCABULARY)"
  by (rule default_grant [OF assms])

theorem default_authority_full_grant_witness:
  "\<exists>e g'. canonical_path_for sample_graph ''C'' = Inr ([e], g') \<and> canonical_path_for g' ''C'' = Inr ([e], g')"
proof -
  have "\<not> has_subject sample_graph ''C''" "''C'' \<noteq> GOVERNOR_AUTHORITY"
    by (simp_all add: has_subject_def sample_graph_def GOVERNOR_AUTHORITY_def)
  from default_authority_full_grant [OF sample_graph_ok this] show ?thesis by blast
qed

end
