(* ===== verification/Store.thy ===== *)
theory Store
  imports Surfaces Trace_Vector Frames Authority
begin

text \<open>
  The receipt store (\<^verbatim>\<open>ugk/storage/store.py\<close>, class \<open>UGKReceiptStore\<close>): the write path, the deferred-commit
  transaction, live migration, epoch pruning, the verifiers, the queries and the archives.

  The state is the connection, the Python-side frontier of the chain, and the process-wide caches the write path
  consults (policies, authority keys, authority graph). \<^verbatim>\<open>time.time()\<close> is the function \<open>st_clock\<close> read at
  successive ticks; the pinned codex hash is a field. A row holds the parsed value of a JSON text column. The
  re-entrant lock has no counterpart: operations are atomic with respect to each other, which is what it
  provides. Failures of the database come from the fault script of the connection.
\<close>

subsection \<open>Database and store\<close>

record legend_row =
  lr_legend_hash :: string
  lr_entries :: json
  lr_phase_code :: string
  lr_entry_count :: int
  lr_sealed_at :: string

record db =
  db_rows :: "receipt list"          \<comment> \<open>table \<open>receipts\<close> by ascending \<open>receipt_id\<close>\<close>
  db_seq :: nat                      \<comment> \<open>its \<^verbatim>\<open>AUTOINCREMENT\<close> counter\<close>
  db_legends :: "legend_row list"
  db_scopes :: "provenance_scope list"
  db_models :: "authority_model list"
  db_tables :: db_schema

record store =
  st_conn :: "db conn"
  st_read_only :: bool
  st_prior_h_r :: string
  st_prior_h_m :: "string option"
  st_prior_intent_ref :: "string option"
  st_schema_hash :: string
  st_txn_depth :: nat
  st_clock :: "nat \<Rightarrow> pyfloat"
  st_tick :: nat
  st_policies :: policy_cache
  st_keys :: key_cache
  st_graph :: authority_graph
  st_codex_hash :: string

definition GENESIS :: string where
  "GENESIS = replicate 64 (CHR ''0'')"

definition visible :: "store \<Rightarrow> db" where "visible s = cn_visible (st_conn s)"
definition durable :: "store \<Rightarrow> db" where "durable s = cn_durable (st_conn s)"

definition on_conn :: "(db conn, 'a) prog \<Rightarrow> (store, 'a) prog" where
  "on_conn m s = (case m (st_conn s) of (r, c) \<Rightarrow> (r, s\<lparr>st_conn := c\<rparr>))"

definition sres :: "(exc, 'a) result \<Rightarrow> ('s, 'a) prog" where
  "sres r s = (r, s)"

definition tip_of :: "receipt list \<Rightarrow> string" where
  "tip_of rows = (if rows = [] \<or> r_h_r (last rows) = [] then GENESIS else r_h_r (last rows))"

definition open_store :: "db conn \<Rightarrow> bool \<Rightarrow> store \<Rightarrow> store" where
  \<comment> \<open>the end of \<^verbatim>\<open>__init__\<close>: hydrate the frontier from the last row; the third argument carries the process-wide
     caches and the clock\<close>
  "open_store c read_only env =
     (let rows = db_rows (cn_visible c) in
      env\<lparr>st_conn := c, st_read_only := read_only,
          st_schema_hash := compute_schema_hash (db_tables (cn_visible c)),
          st_prior_h_r := tip_of rows,
          st_prior_h_m := (if rows = [] \<or> r_h_m (last rows) = [] then None else Some (r_h_m (last rows))),
          st_prior_intent_ref := (if rows = [] then None else Some (r_intent_ref (last rows))),
          st_txn_depth := 0\<rparr>)"

definition schema_frame_intact :: "store \<Rightarrow> bool" where
  "schema_frame_intact s \<longleftrightarrow> st_schema_hash s = EXPECTED_SCHEMA_HASH"

subsection \<open>The write path\<close>

record write_args =
  wa_op :: string
  wa_authority :: string
  wa_parameters :: json
  wa_failed :: bool
  wa_intent :: "string option"
  wa_jurisdiction :: string
  wa_confidence :: string
  wa_session_dkn :: string
  wa_law_hash :: string
  wa_legend_hash :: string
  wa_warrant_id :: string
  wa_intent_ref :: string
  wa_compress :: bool
  wa_commit_terminal_outcome :: bool
  wa_terminal_outcome_override :: "string option"
  wa_commit_capability_evidence :: bool
  wa_capability_ledger :: "evidence_ledger option"
  wa_effect_columns :: "effect_cols option"
  wa_reconciliation_grade :: "string option"
  wa_reconciliation_warrant_snapshot :: "string option"
  wa_continuation :: json
  wa_bridge :: json
  wa_bridge_verifier :: "bridge_verifier option"

definition default_write :: "string \<Rightarrow> string \<Rightarrow> json \<Rightarrow> write_args" where
  \<comment> \<open>the defaults of the keyword arguments\<close>
  "default_write opn authority parameters =
     \<lparr>wa_op = opn, wa_authority = authority, wa_parameters = parameters, wa_failed = False, wa_intent = None,
      wa_jurisdiction = ''session'', wa_confidence = ''high'', wa_session_dkn = [], wa_law_hash = [], wa_legend_hash = [],
      wa_warrant_id = [], wa_intent_ref = [], wa_compress = False, wa_commit_terminal_outcome = False,
      wa_terminal_outcome_override = None, wa_commit_capability_evidence = False, wa_capability_ledger = None,
      wa_effect_columns = None, wa_reconciliation_grade = None, wa_reconciliation_warrant_snapshot = None,
      wa_continuation = JNull, wa_bridge = JNull, wa_bridge_verifier = None\<rparr>"

definition write_intent :: "write_args \<Rightarrow> string" where
  "write_intent a = (case wa_intent a of None \<Rightarrow> wa_op a | Some i \<Rightarrow> i)"

definition RECONCILIATION_KEYS :: "string list" where
  "RECONCILIATION_KEYS = [''reconciliation_grade'', ''reconciliation_warrant_snapshot'']"

definition promote_reconciliation ::
    "json \<Rightarrow> string option \<Rightarrow> string option \<Rightarrow> (exc, json \<times> string option \<times> string option) result" where
  "promote_reconciliation p grade snapshot =
     (if is_obj p \<and> (\<exists>k\<in>set RECONCILIATION_KEYS. map_of (obj_fields p) k \<noteq> None) then
        let d = obj_fields p; rest = filter (\<lambda>(k, v). k \<notin> set RECONCILIATION_KEYS) d in
        rbind (case grade of Some g \<Rightarrow> Inr (Some g) | None \<Rightarrow> text_column (jget d ''reconciliation_grade'')) (\<lambda>g.
        rbind (case snapshot of Some x \<Rightarrow> Inr (Some x) | None \<Rightarrow> text_column (jget d ''reconciliation_warrant_snapshot'')) (\<lambda>x.
        Inr (JObj rest, g, x)))
      else Inr (p, grade, snapshot))"

record commitments =
  cm_h_s :: string
  cm_h_c :: string
  cm_h_m :: string
  cm_h_j :: string
  cm_h_r :: string

definition lookup_governance :: "string \<Rightarrow> string \<Rightarrow> (store, string \<times> string \<times> json \<times> string list) prog" where
  \<comment> \<open>policy id, authority key, authority chain and effective capabilities, filling the caches\<close>
  "lookup_governance jurisdiction authority s =
     (case lookup_policy_id (st_policies s) jurisdiction of
        Inl e \<Rightarrow> (Inl (PyExc e), s)
      | Inr (pid, pc) \<Rightarrow>
          (case lookup_authority_key (st_keys s) authority of
             (key, kc) \<Rightarrow>
               (let s1 = s\<lparr>st_policies := pc, st_keys := kc\<rparr> in
                case canonical_path_for (st_graph s1) authority of
                  Inl e \<Rightarrow> (Inl (PyExc e), s1)
                | Inr (path, g) \<Rightarrow>
                    (let s2 = s1\<lparr>st_graph := g\<rparr> in
                     case canonical_path_as_dicts g authority of
                       Inl e \<Rightarrow> (Inl (PyExc e), s2)
                     | Inr (chain, g') \<Rightarrow>
                         (let s3 = s2\<lparr>st_graph := g'\<rparr> in
                          case compute_effective_capabilities path of
                            Inl e \<Rightarrow> (Inl (PyExc ValueError), s3)
                          | Inr caps \<Rightarrow> (Inr (pid, key, chain, sort caps), s3))))))"

definition compute_commitments ::
    "write_args \<Rightarrow> json \<Rightarrow> string \<Rightarrow> string option \<Rightarrow> string option \<Rightarrow> string \<times> string \<times> json \<times> string list \<Rightarrow>
     (pyexc, commitments) result" where
  "compute_commitments a parameters parent prior_h_m prior_intent_ref gov =
     (case gov of (pid, key, chain, caps) \<Rightarrow>
      rbind (default_epoch ID_PHI_0) (\<lambda>ep.
      let fc = build_freshness_claim_from_epoch ep in
      rbind (H_s (PStr (wa_op a)) (of_json parameters)) (\<lambda>hs.
      rbind (H_c (of_json chain) (PStr pid) (PList (map PStr caps))
          (PList (if wa_warrant_id a = [] then [] else [PStr (wa_warrant_id a)])) (PStr parent) (of_json (claim_dict fc))) (\<lambda>hc.
      rbind (H_m (PStr (write_intent a)) (PStr (wa_intent_ref a)) (PStr (wa_legend_hash a))
          (of_json (lineage_as_dicts (build_lineage prior_h_m prior_intent_ref))) ID_SIGMA_0) (\<lambda>hm.
      rbind (H_j (PStr (fc_phase_code fc)) (PStr MOSAIC_ROOT_PHI_0) (PStr (wa_session_dkn a)) (PStr key)) (\<lambda>hj.
      rbind (compute_H_r [(TAG_H_S, hs), (TAG_H_C, hc), (TAG_H_M, hm), (TAG_H_J, hj), (TAG_ID_P, H_id_P pid),
          (TAG_ID_SIGMA, H_id_Sigma ID_SIGMA_0), (TAG_ID_PHI, H_id_Phi ID_PHI_0)]) (\<lambda>hr.
      Inr \<lparr>cm_h_s = to_hex hs, cm_h_c = to_hex hc, cm_h_m = to_hex hm, cm_h_j = to_hex hj, cm_h_r = to_hex hr\<rparr>)))))))"

record surfaces =
  sf_outcome :: "(string \<times> string) option"      \<comment> \<open>terminal outcome and reason\<close>
  sf_capability :: capability_cols
  sf_continuation :: continuation_cols
  sf_bridge :: bridge_cols

definition write_surfaces :: "write_args \<Rightarrow> (exc, surfaces) result" where
  "write_surfaces a =
     (let committing = wa_commit_terminal_outcome a \<or> wa_commit_capability_evidence a;
          (out, why) = derive_committed_outcome (wa_op a) (wa_failed a) (wa_terminal_outcome_override a) (write_intent a) in
      rbind (if committing then assert_emittable out (wa_continuation a) (wa_bridge a) (wa_bridge_verifier a) else Inr ()) (\<lambda>_.
      rbind (if wa_commit_capability_evidence a then
               (case wa_capability_ledger a of
                  None \<Rightarrow> Inl (PyExc ValueError)
                | Some g \<Rightarrow>
                    (case capability_evidence_commitment g of
                       Inl e \<Rightarrow> Inl (PyExc e)
                     | Inr c \<Rightarrow> Inr \<lparr>kc_h_cap = Some (cm_h_cap c), kc_model_id = Some (cm_model_id c),
                         kc_ledger_hash = Some (cm_ledger_hash c), kc_registry_version = Some (cm_registry_version c),
                         kc_scope_id = Some (cm_scope_id c)\<rparr>))
             else Inr no_capability) (\<lambda>cap.
      rbind (if wa_continuation a = JNull then Inr no_continuation else validate_continuation (wa_continuation a)) (\<lambda>cont.
      rbind (if wa_bridge a = JNull then Inr no_bridge else validate_bridge_record (wa_bridge a)) (\<lambda>br.
      Inr \<lparr>sf_outcome = (if committing then Some (out, why) else None), sf_capability = cap,
           sf_continuation = cont, sf_bridge = br\<rparr>)))))"

definition build_receipt ::
    "write_args \<Rightarrow> json \<Rightarrow> effect_cols option \<Rightarrow> string option \<Rightarrow> string option \<Rightarrow> pyfloat \<Rightarrow> string \<Rightarrow> commitments \<Rightarrow>
     surfaces \<Rightarrow> receipt" where
  \<comment> \<open>the receipt without its row number, body hash and trace hash\<close>
  "build_receipt a parameters eff grade snapshot ts parent c sf =
     \<lparr>r_op = wa_op a, r_authority = wa_authority a, r_parameters = parameters, r_intent = write_intent a,
      r_jurisdiction = wa_jurisdiction a, r_confidence = wa_confidence a, r_timestamp = ts, r_failed = wa_failed a,
      r_session_dkn = wa_session_dkn a, r_law_hash = wa_law_hash a, r_legend_hash = wa_legend_hash a,
      r_warrant_id = wa_warrant_id a, r_intent_ref = wa_intent_ref a, r_receipt_id = None,
      r_h_s = cm_h_s c, r_h_c = cm_h_c c, r_h_m = cm_h_m c, r_h_j = Some (cm_h_j c), r_h_r = cm_h_r c,
      r_parent_h_r = parent, r_mode = ''strict'', r_version = (if wa_bridge a = JNull then 7 else 8),
      r_id_c_s = ID_C_S, r_id_c_c = ID_C_C, r_id_c_m = ID_C_M, r_id_c_j = ID_C_J, r_h_body = [],
      r_terminal_outcome = map_option fst (sf_outcome sf),
      r_terminal_outcome_model_id = map_option (\<lambda>_. TERMINAL_OUTCOME_MODEL_ID) (sf_outcome sf),
      r_terminal_outcome_reason = map_option snd (sf_outcome sf), r_trace_vector_hash = None,
      r_capability = sf_capability sf, r_effect = (case eff of None \<Rightarrow> no_effect | Some e \<Rightarrow> e),
      r_reconciliation_grade = grade, r_reconciliation_warrant_snapshot = snapshot,
      r_continuation = sf_continuation sf, r_bridge = sf_bridge sf\<rparr>"

definition committed_trace_vector_hash :: "string \<Rightarrow> receipt \<Rightarrow> (pyexc, string) result" where
  \<comment> \<open>the first argument is the pinned codex hash\<close>
  "committed_trace_vector_hash codex r =
     rbind (build_trace_vector r \<lparr>fr_law_hash = r_law_hash r, fr_schema_hash = EXPECTED_SCHEMA_HASH,
         fr_legend_hash = r_legend_hash r, fr_codex_hash = codex\<rparr> COMMITTED_SURFACES) (\<lambda>t.
     Inr (tv_trace_vector_hash t))"

definition trace_commitment :: "string \<Rightarrow> surfaces \<Rightarrow> receipt \<Rightarrow> (pyexc, string option) result" where
  \<comment> \<open>only for a committed ADMIT or REFUSE, and over a receipt without the later surfaces\<close>
  "trace_commitment codex sf r =
     (case sf_outcome sf of
        Some (out, why) \<Rightarrow>
          if out \<in> {''ADMIT'', ''REFUSE''} then
            rbind (committed_trace_vector_hash codex (r\<lparr>r_effect := no_effect, r_reconciliation_grade := None,
              r_reconciliation_warrant_snapshot := None, r_continuation := no_continuation, r_bridge := no_bridge\<rparr>))
              (\<lambda>h. Inr (Some h))
          else Inr None
      | None \<Rightarrow> Inr None)"

definition stored_row :: "write_args \<Rightarrow> receipt \<Rightarrow> receipt" where
  \<comment> \<open>what the \<^verbatim>\<open>INSERT\<close> stores: compressed fields, canonical JSON text\<close>
  "stored_row a r = r\<lparr>
     r_op := (if wa_compress a then compress_field OP_TO_CSIL (r_op r) else r_op r),
     r_intent := (if wa_compress a then compress_field INTENT_TO_CSIL (r_intent r) else r_intent r),
     r_jurisdiction := (if wa_compress a then compress_field JURIS_TO_CSIL (r_jurisdiction r) else r_jurisdiction r),
     r_confidence := (if wa_compress a then compress_field CONF_TO_CSIL (r_confidence r) else r_confidence r),
     r_parameters := norm_json (r_parameters r),
     r_continuation := (r_continuation r)\<lparr>
       cc_parameters := map_option norm_json (cc_parameters (r_continuation r)),
       cc_expiry_basis := map_option norm_json (cc_expiry_basis (r_continuation r))\<rparr>\<rparr>"

definition insert_row :: "receipt \<Rightarrow> db \<Rightarrow> db" where
  "insert_row row d = d\<lparr>db_rows := db_rows d @ [row\<lparr>r_receipt_id := Some (Suc (db_seq d))\<rparr>], db_seq := Suc (db_seq d)\<rparr>"

definition advance :: "receipt \<Rightarrow> store \<Rightarrow> store" where
  "advance r s = s\<lparr>st_prior_h_r := r_h_r r, st_prior_h_m := Some (r_h_m r), st_prior_intent_ref := Some (r_intent_ref r)\<rparr>"

definition prepare_receipt :: "write_args \<Rightarrow> (store, receipt) prog" where
  \<comment> \<open>everything before the \<^verbatim>\<open>INSERT\<close>\<close>
  "prepare_receipt a =
     sbind (sget st_read_only) (\<lambda>ro. sthen (sguard (\<not> ro) ReadOnlyViolation) (
     sbind (sres (resolve_effect_surface (wa_parameters a) (wa_effect_columns a) False)) (\<lambda>(eff, p1).
     sbind (sres (promote_reconciliation p1 (wa_reconciliation_grade a) (wa_reconciliation_warrant_snapshot a)))
       (\<lambda>(p, grade, snapshot).
     sbind (sget (\<lambda>s. st_clock s (st_tick s))) (\<lambda>ts. sthen (smodify (\<lambda>s. s\<lparr>st_tick := Suc (st_tick s)\<rparr>)) (
     sbind (sget st_prior_h_r) (\<lambda>parent.
     sbind (lookup_governance (wa_jurisdiction a) (wa_authority a)) (\<lambda>gov.
     sbind (sget (\<lambda>s. (st_prior_h_m s, st_prior_intent_ref s))) (\<lambda>(hm, iref).
     sbind (slift (compute_commitments a p parent hm iref gov)) (\<lambda>c.
     sbind (sres (write_surfaces a)) (\<lambda>sf.
     sbind (sget st_codex_hash) (\<lambda>codex.
     let r0 = build_receipt a p eff grade snapshot ts parent c sf; r = r0\<lparr>r_h_body := compute_h_body r0\<rparr> in
     sbind (slift (trace_commitment codex sf r)) (\<lambda>tvh.
     sret (r\<lparr>r_trace_vector_hash := tvh\<rparr>))))))))))))))"

definition append_receipt :: "write_args \<Rightarrow> receipt \<Rightarrow> (store, receipt) prog" where
  \<comment> \<open>\<^verbatim>\<open>INSERT\<close>, commit unless a transaction is open, advance the frontier\<close>
  "append_receipt a r =
     sthen (on_conn (dml (insert_row (stored_row a r)))) (
     sbind (sget (\<lambda>s. db_seq (visible s))) (\<lambda>rid.
     sbind (sget st_txn_depth) (\<lambda>depth.
     sthen (swhen (depth = 0) (on_conn commit)) (
     sthen (smodify (advance r)) (
     sret (r\<lparr>r_receipt_id := Some rid\<rparr>))))))"

definition store_write :: "write_args \<Rightarrow> (store, receipt) prog" where
  "store_write a = sbind (prepare_receipt a) (append_receipt a)"

subsection \<open>Governed transactions\<close>

definition restore_frontier :: "store \<Rightarrow> store \<Rightarrow> store" where
  \<comment> \<open>the snapshot of the first argument back into the second\<close>
  "restore_frontier snap s = s\<lparr>st_prior_h_r := st_prior_h_r snap, st_prior_h_m := st_prior_h_m snap,
     st_prior_intent_ref := st_prior_intent_ref snap, st_schema_hash := st_schema_hash snap\<rparr>"

definition depth_in :: "store \<Rightarrow> store" where "depth_in s = s\<lparr>st_txn_depth := st_txn_depth s + 1\<rparr>"
definition depth_out :: "store \<Rightarrow> store" where "depth_out s = s\<lparr>st_txn_depth := st_txn_depth s - 1\<rparr>"

definition close_failed :: "store \<Rightarrow> nat \<Rightarrow> exc \<Rightarrow> (store, 'a) prog" where
  \<comment> \<open>\<^verbatim>\<open>try: mt.__exit__(...) finally: restore; raise\<close>\<close>
  "close_failed snap n e s =
     (case on_conn (mt_exit_error n) (depth_out s) of
        (Inl e', s') \<Rightarrow> (Inl e', restore_frontier snap s')
      | (Inr _, s') \<Rightarrow> (Inl e, restore_frontier snap s'))"

definition close_clean :: "store \<Rightarrow> nat \<Rightarrow> 'a \<Rightarrow> (store, 'a) prog" where
  "close_clean snap n x s =
     (case on_conn (mt_exit_clean n) (depth_out s) of
        (Inl e, s') \<Rightarrow> (Inl e, restore_frontier snap s')
      | (Inr _, s') \<Rightarrow> (Inr x, s'))"

definition transaction :: "validation_result \<Rightarrow> (store, 'a) prog \<Rightarrow> (store, 'a) prog" where
  \<comment> \<open>\<^verbatim>\<open>with store.transaction(validation): body\<close>\<close>
  "transaction v body snap =
     (case on_conn mt_init snap of
        (Inl e, s) \<Rightarrow> (Inl e, s)
      | (Inr n, s) \<Rightarrow>
          (case on_conn (mt_enter v n) s of
             (Inl e, s1) \<Rightarrow> (Inl e, s1)
           | (Inr _, s1) \<Rightarrow>
               (case body (depth_in s1) of
                  (Inl e, s2) \<Rightarrow> close_failed snap n e s2
                | (Inr x, s2) \<Rightarrow> close_clean snap n x s2)))"

subsection \<open>Reading\<close>

definition non_blank :: "string \<Rightarrow> string \<Rightarrow> string" where
  "non_blank d v = (if v = [] then d else v)"

definition row_to_receipt :: "receipt \<Rightarrow> receipt" where
  "row_to_receipt row = row\<lparr>r_op := expand (r_op row), r_intent := expand (r_intent row),
     r_jurisdiction := expand (r_jurisdiction row), r_confidence := expand (r_confidence row),
     r_mode := non_blank ''strict'' (r_mode row), r_version := (if r_version row = 0 then 1 else r_version row),
     r_id_c_s := non_blank ''c_s.v1'' (r_id_c_s row), r_id_c_c := non_blank ''c_c.v1'' (r_id_c_c row),
     r_id_c_m := non_blank ''c_m.v1+sigma_0'' (r_id_c_m row), r_id_c_j := non_blank ''c_j.v1'' (r_id_c_j row)\<rparr>"

definition all_receipts :: "store \<Rightarrow> receipt list" where
  "all_receipts s = map row_to_receipt (db_rows (visible s))"

definition receipts_by_op :: "store \<Rightarrow> string \<Rightarrow> receipt list" where
  \<comment> \<open>the \<^verbatim>\<open>WHERE\<close> clause compares the stored text\<close>
  "receipts_by_op s opn = map row_to_receipt (filter (\<lambda>r. r_op r = opn) (db_rows (visible s)))"

definition committed_height :: "store \<Rightarrow> nat" where
  "committed_height s = length (db_rows (visible s))"

definition receipt_count :: "store \<Rightarrow> nat" where
  "receipt_count s = length (db_rows (visible s))"

definition refusal_count :: "store \<Rightarrow> nat" where
  "refusal_count s = length (filter (\<lambda>r. r_op r = ''gate_refuse'') (db_rows (visible s)))"

definition receipts_since_count :: "store \<Rightarrow> nat \<Rightarrow> nat" where
  "receipts_since_count s n = length (filter (\<lambda>r. \<exists>i. r_receipt_id r = Some i \<and> i > n) (db_rows (visible s)))"

definition find_continuation :: "store \<Rightarrow> string \<Rightarrow> receipt option" where
  "find_continuation s cid =
     (if cid = [] then None
      else find (\<lambda>r. cc_id (r_continuation r) = Some cid) (rev (all_receipts s)))"

definition stream_hash :: "store \<Rightarrow> string" where
  "stream_hash s = tip_of (db_rows (visible s))"

definition governed_op :: "receipt \<Rightarrow> json" where
  "governed_op row = get_or (obj_fields (r_parameters row)) ''op'' (JStr ''unknown'')"

definition ops_of :: "string \<Rightarrow> store \<Rightarrow> json list" where
  "ops_of opn s = map governed_op (filter (\<lambda>r. r_op r = opn) (db_rows (visible s)))"

definition refusal_rate_by_op :: "store \<Rightarrow> (json \<times> nat \<times> nat) list" where
  \<comment> \<open>per governed operation: refusals and total; the source returns their quotient\<close>
  "refusal_rate_by_op s =
     (let admits = ops_of ''gate_admit'' s; refuses = ops_of ''gate_refuse'' s in
      map (\<lambda>x. (x, count_list refuses x, count_list admits x + count_list refuses x)) (rev (remdups (rev (admits @ refuses)))))"

subsection \<open>Verification\<close>

fun verify_segment :: "receipt list \<Rightarrow> string \<Rightarrow> bool" where
  "verify_segment [] anchor = True"
| "verify_segment (r # rs) anchor = (if r_h_r r = [] \<or> r_parent_h_r r \<noteq> anchor then False else verify_segment rs (r_h_r r))"

fun after_checkpoint :: "string \<Rightarrow> receipt list \<Rightarrow> receipt list option" where
  \<comment> \<open>the receipts after the first one with that root\<close>
  "after_checkpoint cp [] = None"
| "after_checkpoint cp (r # rs) = (if r_h_r r = cp then Some rs else after_checkpoint cp rs)"

definition verify_stream_hash :: "store \<Rightarrow> string option \<Rightarrow> bool" where
  "verify_stream_hash s checkpoint =
     (let rs = all_receipts s in
      if rs = [] then True
      else case checkpoint of
        None \<Rightarrow> verify_segment rs GENESIS
      | Some cp \<Rightarrow> (case after_checkpoint cp rs of None \<Rightarrow> False | Some rest \<Rightarrow> verify_segment rest cp))"

definition body_verifies :: "receipt \<Rightarrow> bool" where
  \<comment> \<open>the loop body of \<open>verify_receipt_bodies\<close>; the two reconciliation columns are not passed on. For a parameters
     value that is no object \<open>H_s\<close> raises instead; the store never writes one\<close>
  "body_verifies r \<longleftrightarrow>
     (r_h_s r = [] \<or> rederive_h_s r = Inr (r_h_s r)) \<and>
     r_h_body r \<noteq> [] \<and>
     compute_h_body (r\<lparr>r_reconciliation_grade := None, r_reconciliation_warrant_snapshot := None\<rparr>) = r_h_body r"

definition verify_receipt_bodies :: "store \<Rightarrow> string option \<Rightarrow> bool" where
  "verify_receipt_bodies s checkpoint =
     (let rs = all_receipts s in
      if rs = [] then True
      else case checkpoint of
        None \<Rightarrow> list_all body_verifies rs
      | Some cp \<Rightarrow> (case after_checkpoint cp rs of None \<Rightarrow> False | Some rest \<Rightarrow> list_all body_verifies rest))"

definition verify_chain :: "store \<Rightarrow> string option \<Rightarrow> verification_result" where
  "verify_chain s checkpoint =
     (if \<not> verify_stream_hash s checkpoint \<or> \<not> verify_receipt_bodies s checkpoint
      then \<lparr>ve_achieved = LINKAGE, ve_required = BODY, ve_corruption = Some CORRUPT\<rparr>
      else \<lparr>ve_achieved = BODY, ve_required = BODY, ve_corruption = None\<rparr>)"

definition verify_from_seal :: "store \<Rightarrow> string \<Rightarrow> bool" where
  "verify_from_seal s seal = verify_segment (all_receipts s) seal"

fun frontier_scan :: "string \<Rightarrow> nat option \<Rightarrow> receipt list \<Rightarrow> nat option" where
  "frontier_scan prior last_valid [] = None"
| "frontier_scan prior last_valid (r # rs) =
     (if r_h_r r = [] \<or> r_parent_h_r r \<noteq> prior then last_valid else frontier_scan (r_h_r r) (r_receipt_id r) rs)"

definition last_valid_frontier :: "store \<Rightarrow> nat option" where
  "last_valid_frontier s = frontier_scan GENESIS None (all_receipts s)"

subsection \<open>Live migration\<close>

type_synonym ddl_semantics = "string \<Rightarrow> db_schema \<Rightarrow> db_schema option"
  \<comment> \<open>SQLite's effect of a DDL statement on the table shapes; \<^verbatim>\<open>None\<close>: the statement is in error\<close>

definition run_ddl :: "ddl_semantics \<Rightarrow> string \<Rightarrow> (store, unit) prog" where
  "run_ddl sem stmt =
     sbind (sget (\<lambda>s. sem stmt (db_tables (visible s)))) (\<lambda>r. case r of
       None \<Rightarrow> sraise (OperationalError DbFailure)
     | Some sch \<Rightarrow> on_conn (ddl (\<lambda>d. d\<lparr>db_tables := sch\<rparr>)))"

fun run_all :: "('a \<Rightarrow> ('s, unit) prog) \<Rightarrow> 'a list \<Rightarrow> ('s, unit) prog" where
  "run_all f [] = sret ()"
| "run_all f (x # xs) = sthen (f x) (run_all f xs)"

definition schema_hash_now :: "(store, string) prog" where
  "schema_hash_now = sget (\<lambda>s. compute_schema_hash (db_tables (visible s)))"

definition migration_params :: "string \<Rightarrow> string \<Rightarrow> string \<Rightarrow> string \<Rightarrow> string list \<Rightarrow> json" where
  "migration_params intent description before after statements = JObj
     [(''intent'', JStr intent), (''description'', JStr description), (''schema_hash_before'', JStr before),
      (''schema_hash_after'', JStr after), (''release_anchor'', JStr EXPECTED_SCHEMA_HASH),
      (''drift_from_release_anchor'', JBool (after \<noteq> EXPECTED_SCHEMA_HASH)), (''statements'', jstrs statements)]"

definition storage_frame_write :: "string \<Rightarrow> string \<Rightarrow> json \<Rightarrow> (store, receipt) prog" where
  "storage_frame_write opn intent params = store_write ((default_write opn ''storage-frame'' params)\<lparr>wa_intent := Some intent\<rparr>)"

definition migration_body :: "ddl_semantics \<Rightarrow> string list \<Rightarrow> string \<Rightarrow> string \<Rightarrow> string \<Rightarrow> (store, string) prog" where
  "migration_body sem stmts intent description before =
     sthen (run_all (run_ddl sem) stmts) (
     sbind schema_hash_now (\<lambda>after.
     sthen (storage_frame_write ''schema_migrated'' intent (migration_params intent description before after stmts))
       (sret after)))"

definition migrate_schema :: "ddl_semantics \<Rightarrow> string list option \<Rightarrow> string \<Rightarrow> string \<Rightarrow> (store, string \<times> string) prog" where
  \<comment> \<open>returns the fingerprints before and after; a single string of statements is a one-element list\<close>
  "migrate_schema sem statements intent description =
     sbind (sget st_read_only) (\<lambda>ro. sthen (sguard (\<not> ro) ReadOnlyViolation) (
     sthen (sguard (strip intent \<noteq> []) (PyExc ValueError)) (
     case statements of
       None \<Rightarrow> sraise (PyExc ValueError)
     | Some stmts \<Rightarrow>
         sthen (sguard (stmts \<noteq> []) (PyExc ValueError)) (
         sthen (sguard (list_all (\<lambda>x. validate_migration_statement x = None) stmts) (PyExc ValueError)) (
         sbind schema_hash_now (\<lambda>before.
         sbind (transaction valid_result (migration_body sem stmts intent description before)) (\<lambda>after.
         sthen (smodify (\<lambda>s. s\<lparr>st_schema_hash := after\<rparr>)) (sret (before, after)))))))))"

subsection \<open>Epoch seal and prune\<close>

definition id_le :: "nat \<Rightarrow> receipt \<Rightarrow> bool" where
  "id_le b r \<longleftrightarrow> (\<exists>i. r_receipt_id r = Some i \<and> i \<le> b)"

definition delete_through :: "nat \<Rightarrow> db \<Rightarrow> db" where
  "delete_through b d = d\<lparr>db_rows := filter (\<lambda>r. \<not> id_le b r) (db_rows d)\<rparr>"

record prune_report =
  pr_seal_hash :: string
  pr_boundary :: nat
  pr_pruned :: nat
  pr_retained :: nat
  pr_tip_before :: string
  pr_tip_after :: string

definition prune_body :: "string \<Rightarrow> string \<Rightarrow> string \<Rightarrow> nat \<Rightarrow> nat \<Rightarrow> (store, string \<times> string) prog" where
  "prune_body seal intent description boundary n =
     sthen (storage_frame_write ''epoch_sealed'' intent (JObj
       [(''intent'', JStr intent), (''description'', JStr description), (''seal_hash'', JStr seal),
        (''sealed_through_receipt_id'', JInt (int boundary)), (''sealed_count'', JInt (int n))])) (
     sthen (storage_frame_write ''epoch_pruned'' intent (JObj
       [(''intent'', JStr intent), (''seal_hash'', JStr seal),
        (''pruned_through_receipt_id'', JInt (int boundary)), (''pruned_count'', JInt (int n))])) (
     sbind (sget stream_hash) (\<lambda>before.
     sthen (on_conn (dml (delete_through boundary))) (
     sbind (sget stream_hash) (\<lambda>after.
     sthen (sguard (after = before) RuntimeError) (
     sbind (sget (\<lambda>s. verify_from_seal s seal)) (\<lambda>ok.
     sthen (sguard ok RuntimeError) (sret (before, after)))))))))"

definition seal_and_prune_epoch :: "string \<Rightarrow> string \<Rightarrow> string \<Rightarrow> (store, prune_report) prog" where
  "seal_and_prune_epoch seal intent description =
     sthen (sguard (strip intent \<noteq> []) (PyExc ValueError)) (
     sbind (sget all_receipts) (\<lambda>rs.
     case find (\<lambda>r. r_h_r r = seal) rs of
       None \<Rightarrow> sraise (PyExc ValueError)
     | Some boundary \<Rightarrow>
         let b = the (r_receipt_id boundary); pre = filter (id_le b) rs; frontier = filter (\<lambda>r. \<not> id_le b r) rs in
         sthen (sguard (verify_segment frontier seal) (PyExc ValueError)) (
         sbind (transaction valid_result (prune_body seal intent description b (length pre))) (\<lambda>(before, after).
         sret \<lparr>pr_seal_hash = seal, pr_boundary = b, pr_pruned = length pre, pr_retained = length frontier + 2,
               pr_tip_before = before, pr_tip_after = after\<rparr>))))"

subsection \<open>Archives\<close>

definition seal_legend :: "legend_row \<Rightarrow> (store, unit) prog" where
  "seal_legend row = sswallow (sthen
     (on_conn (dml (\<lambda>d. d\<lparr>db_legends := insert_or_ignore lr_legend_hash row (db_legends d)\<rparr>))) (on_conn commit))"

definition legend_entry_json :: "legend_entry \<Rightarrow> json" where
  "legend_entry_json e = JObj [(''csil_id'', JInt (csil_id e)), (''slug'', JStr (slug e)), (''render'', JStr (render e)), (''tier'', JStr (tier e))]"

definition resolve_legend :: "store \<Rightarrow> string \<Rightarrow> json option" where
  "resolve_legend s h =
     (case find (\<lambda>row. lr_legend_hash row = h) (db_legends (visible s)) of
        Some row \<Rightarrow> Some (lr_entries row)
      | None \<Rightarrow> if h = LEGEND_HASH then Some (JList (map legend_entry_json LEGEND_ENTRIES)) else None)"

definition seal_scope :: "provenance_scope \<Rightarrow> (store, unit) prog" where
  "seal_scope p = sswallow (sthen
     (on_conn (dml (\<lambda>d. d\<lparr>db_scopes := insert_or_ignore ps_scope_id p (db_scopes d)\<rparr>))) (on_conn commit))"

definition latest_scope_id :: "store \<Rightarrow> string \<Rightarrow> string" where
  "latest_scope_id s surface =
     (case max_by ps_timestamp (filter (\<lambda>p. ps_authority_surface p = surface) (db_scopes (visible s))) of
        None \<Rightarrow> [] | Some p \<Rightarrow> ps_scope_id p)"

definition scopes_for_authority :: "store \<Rightarrow> string \<Rightarrow> provenance_scope list" where
  "scopes_for_authority s surface =
     sort_key ps_timestamp (filter (\<lambda>p. ps_authority_surface p = surface) (db_scopes (visible s)))"

definition seal_authority_model :: "authority_model \<Rightarrow> (store, unit) prog" where
  "seal_authority_model m = sswallow (sthen
     (on_conn (dml (\<lambda>d. d\<lparr>db_models := insert_or_ignore am_model_hash m (db_models d)\<rparr>))) (on_conn commit))"

definition get_authority_model :: "store \<Rightarrow> string \<Rightarrow> authority_model option" where
  "get_authority_model s h = find (\<lambda>m. am_model_hash m = h) (db_models (visible s))"

end
