(* ===== verification/Will.thy ===== *)
theory Will
  imports Frames
begin

text \<open>
  The will layer: intent declarations and revocations (\<^verbatim>\<open>ugk/intent.py\<close>) and the coverage closure
  (\<^verbatim>\<open>ugk/will.py\<close>). The intent database is a SQLite connection of the model; a swallowed database error leaves
  what the statements before it did.

  Main results: a revocation is permanent under every later sequence of store operations and every fault script;
  the closure loop terminates and computes exactly the operations reachable over production edges (within the
  depth bound, if there is one); coverage is decided exactly and always names a declaration that covers.
\<close>

subsection \<open>Declarations\<close>

record intent_declaration =
  id_hash :: string
  id_ops :: "string list"
  id_scope_type :: string
  id_scope_ref :: string
  id_authority :: string
  id_timestamp :: string

definition INTENT_KEYS :: "string list" where
  "INTENT_KEYS = [''authority'', ''declared_ops'', ''scope_ref'', ''scope_type'', ''timestamp'']"

definition intent_body :: "intent_declaration \<Rightarrow> json" where
  "intent_body d = JObj (zip INTENT_KEYS
     [JStr (id_authority d), jstrs (id_ops d), JStr (id_scope_ref d), JStr (id_scope_type d), JStr (id_timestamp d)])"

definition intent_digest :: "intent_declaration \<Rightarrow> string" where
  "intent_digest d = to_hex (sha256 (canonical_json (intent_body d)))"

definition intent_create :: "string \<Rightarrow> intent_declaration \<Rightarrow> intent_declaration" where
  "intent_create now args =
     (let d = args\<lparr>id_ops := sort (remdups (id_ops args)),
                   id_timestamp := (if id_timestamp args = [] then now else id_timestamp args)\<rparr>
      in d\<lparr>id_hash := intent_digest d\<rparr>)"

definition intent_verify_hash :: "intent_declaration \<Rightarrow> bool" where
  "intent_verify_hash d \<longleftrightarrow> intent_digest d = id_hash d"

definition covers_op :: "intent_declaration \<Rightarrow> string \<Rightarrow> bool" where
  "covers_op d opn \<longleftrightarrow> opn \<in> set (id_ops d)"

record intent_revocation =
  ir_hash :: string
  ir_revoked :: string
  ir_authority :: string
  ir_timestamp :: string

definition revocation_create :: "string \<Rightarrow> intent_revocation \<Rightarrow> intent_revocation" where
  "revocation_create now args =
     (let v = args\<lparr>ir_timestamp := (if ir_timestamp args = [] then now else ir_timestamp args)\<rparr>
      in v\<lparr>ir_hash := to_hex (sha256 (canonical_json (JObj
         [(''authority'', JStr (ir_authority v)), (''revoked_declaration_hash'', JStr (ir_revoked v)),
          (''timestamp'', JStr (ir_timestamp v))])))\<rparr>)"

subsection \<open>The intent store\<close>

record intent_row =
  iw_declaration :: intent_declaration
  iw_revoked :: bool

record intent_db =
  idb_rows :: "intent_row list"
  idb_revocations :: "intent_revocation list"

definition new_intents :: "db_error option list \<Rightarrow> intent_db conn" where
  "new_intents faults = new_conn \<lparr>idb_rows = [], idb_revocations = []\<rparr> faults"

definition intent_key :: "intent_row \<Rightarrow> string" where
  "intent_key w = id_hash (iw_declaration w)"

definition row_to_declaration :: "intent_row \<Rightarrow> intent_declaration" where
  "row_to_declaration w = (iw_declaration w)\<lparr>id_ops := sort (id_ops (iw_declaration w))\<rparr>"

definition insert_intent :: "intent_declaration \<Rightarrow> intent_db \<Rightarrow> intent_db" where
  "insert_intent d b = b\<lparr>idb_rows := insert_or_ignore intent_key \<lparr>iw_declaration = d, iw_revoked = False\<rparr> (idb_rows b)\<rparr>"

definition flag_revoked :: "string \<Rightarrow> intent_db \<Rightarrow> intent_db" where
  "flag_revoked h b = b\<lparr>idb_rows := map (\<lambda>w. if intent_key w = h then w\<lparr>iw_revoked := True\<rparr> else w) (idb_rows b)\<rparr>"

definition declare_intent :: "intent_declaration \<Rightarrow> (intent_db conn, unit) prog" where
  "declare_intent d = sswallow (sthen (dml (insert_intent d)) commit)"

definition revoke_intent :: "intent_revocation \<Rightarrow> (intent_db conn, unit) prog" where
  "revoke_intent v = sswallow (
     sthen (dml (\<lambda>b. b\<lparr>idb_revocations := insert_or_ignore ir_hash v (idb_revocations b)\<rparr>)) (
     sthen (dml (flag_revoked (ir_revoked v))) commit))"

definition get_intent :: "intent_db conn \<Rightarrow> string \<Rightarrow> intent_declaration option" where
  \<comment> \<open>whether revoked or not\<close>
  "get_intent c h = map_option row_to_declaration (find (\<lambda>w. intent_key w = h) (idb_rows (cn_visible c)))"

definition is_revoked :: "intent_db conn \<Rightarrow> string \<Rightarrow> bool" where
  "is_revoked c h = (case find (\<lambda>w. intent_key w = h) (idb_rows (cn_visible c)) of None \<Rightarrow> False | Some w \<Rightarrow> iw_revoked w)"

definition active_rows :: "string \<Rightarrow> intent_db \<Rightarrow> intent_row list" where
  "active_rows scope_ref b =
     filter (\<lambda>w. \<not> iw_revoked w \<and> id_scope_ref (iw_declaration w) \<in> {[], scope_ref}) (idb_rows b)"

definition active_declarations :: "intent_db conn \<Rightarrow> string \<Rightarrow> intent_declaration list" where
  "active_declarations c scope_ref = map row_to_declaration (active_rows scope_ref (cn_visible c))"

definition all_declarations :: "intent_db conn \<Rightarrow> intent_declaration list" where
  "all_declarations c = map row_to_declaration (idb_rows (cn_visible c))"

subsection \<open>Coverage\<close>

type_synonym edges = "(string \<times> string list) list"

definition produced :: "edges \<Rightarrow> string list \<Rightarrow> string list" where
  \<comment> \<open>one round of the loop: the targets of covered sources that are not covered yet\<close>
  "produced es covered = remdups (filter (\<lambda>x. x \<notin> set covered) (concat (map snd (filter (\<lambda>(src, ts). src \<in> set covered) es))))"

lemma set_produced: "set (produced es covered) = {x. \<exists>src ts. (src, ts) \<in> set es \<and> src \<in> set covered \<and> x \<in> set ts} - set covered"
  unfolding produced_def by force

lemma produced_sub: "set (produced es covered) \<subseteq> set (concat (map snd es)) - set covered"
  unfolding set_produced by force

function closure_from :: "edges \<Rightarrow> nat option \<Rightarrow> nat \<Rightarrow> string list \<Rightarrow> string list" where
  "closure_from es depth steps covered =
     (if (case depth of None \<Rightarrow> False | Some n \<Rightarrow> \<not> steps < n) then covered
      else if produced es covered = [] then covered
      else closure_from es depth (Suc steps) (covered @ produced es covered))"
  by pat_completeness auto
termination
proof (relation "measure (\<lambda>(es, depth, steps, covered). card (set (concat (map snd es)) - set covered))")
  fix es :: edges and depth :: "nat option" and steps covered
  assume "produced es covered \<noteq> []"
  then obtain x where x: "x \<in> set (produced es covered)" by (cases "produced es covered") auto
  have "set (concat (map snd es)) - set (covered @ produced es covered) \<subset> set (concat (map snd es)) - set covered"
    using x produced_sub [of es covered] by auto
  then have "card (set (concat (map snd es)) - set (covered @ produced es covered)) < card (set (concat (map snd es)) - set covered)"
    by (intro psubset_card_mono) auto
  then show "((es, depth, Suc steps, covered @ produced es covered), es, depth, steps, covered)
      \<in> measure (\<lambda>(es, depth, steps, covered). card (set (concat (map snd es)) - set covered))" by simp
qed simp

declare closure_from.simps [simp del]

definition closure :: "edges \<Rightarrow> nat option \<Rightarrow> string list \<Rightarrow> string list" where
  "closure es depth seed = closure_from es depth 0 seed"

datatype coverage_outcome =
    Covered string               \<comment> \<open>the declaration hash\<close>
  | Outside string               \<comment> \<open>the refusal code\<close>

definition WL_001 :: string where "WL_001 = ''WL-001''"
definition WL_005 :: string where "WL_005 = ''WL-005''"

definition by_size :: "intent_declaration list \<Rightarrow> intent_declaration list" where
  "by_size ds = sort_key (\<lambda>d. length (id_ops d)) ds"

definition find_cover :: "string \<Rightarrow> intent_declaration list \<Rightarrow> edges \<Rightarrow> nat option \<Rightarrow> string" where
  "find_cover opn ds es depth =
     (case find (\<lambda>d. opn \<in> set (id_ops d)) (by_size ds) of
        Some d \<Rightarrow> id_hash d
      | None \<Rightarrow> (case find (\<lambda>d. opn \<in> set (closure es depth (id_ops d))) (by_size ds) of Some d \<Rightarrow> id_hash d | None \<Rightarrow> []))"

definition covers :: "string \<Rightarrow> intent_declaration list \<Rightarrow> edges \<Rightarrow> nat option \<Rightarrow> coverage_outcome" where
  "covers opn ds es depth =
     (let seed = concat (map id_ops ds) in
      if seed = [] then Outside WL_005
      else if opn \<notin> set (closure es depth seed) then Outside WL_001
      else Covered (find_cover opn ds es depth))"

subsection \<open>The closure\<close>

definition production :: "edges \<Rightarrow> (string \<times> string) set" where
  "production es = {(src, t). \<exists>ts. (src, ts) \<in> set es \<and> t \<in> set ts}"

definition reached :: "edges \<Rightarrow> nat \<Rightarrow> string set \<Rightarrow> string set" where
  \<comment> \<open>reference: at most \<open>n\<close> production steps\<close>
  "reached es n A = (\<Union>k\<le>n. (production es ^^ k) `` A)"

lemma produced_step: "set (covered @ produced es covered) = set covered \<union> production es `` set covered"
  unfolding set_append set_produced production_def by blast

lemma reached_0 [simp]: "reached es 0 A = A"
  by (simp add: reached_def)

lemma relpow_Image_Suc: "(R ^^ Suc k) `` A = (R ^^ k) `` (R `` A)"
proof -
  have "R ^^ Suc k = R O R ^^ k" by (induction k) (auto simp: O_assoc)
  then show ?thesis by (simp add: relcomp_Image)
qed

lemma reached_Suc: "reached es (Suc n) A = reached es n (A \<union> production es `` A)"
proof
  have i: "(production es ^^ k) `` (A \<union> production es `` A) = (production es ^^ k) `` A \<union> (production es ^^ Suc k) `` A" for k
    by (simp add: relpow_Image_Suc Image_Un del: relpow.simps)
  show "reached es n (A \<union> production es `` A) \<subseteq> reached es (Suc n) A"
    unfolding reached_def i by (force simp del: relpow.simps)
  show "reached es (Suc n) A \<subseteq> reached es n (A \<union> production es `` A)"
  proof
    fix x assume "x \<in> reached es (Suc n) A"
    then obtain k where k: "k \<le> Suc n" "x \<in> (production es ^^ k) `` A" by (auto simp: reached_def)
    show "x \<in> reached es n (A \<union> production es `` A)"
    proof (cases k)
      case 0
      with k have "x \<in> (production es ^^ 0) `` (A \<union> production es `` A)" by auto
      then show ?thesis unfolding reached_def by blast
    next
      case (Suc m)
      with k have "m \<le> n" "x \<in> (production es ^^ m) `` (A \<union> production es `` A)" by (auto simp: i simp del: relpow.simps)
      then show ?thesis unfolding reached_def by blast
    qed
  qed
qed

lemma reached_fix: "production es `` A \<subseteq> A \<Longrightarrow> reached es n A = A"
  by (induction n) (auto simp: reached_Suc Un_absorb2)

lemma closure_from_bounded: "steps \<le> n \<Longrightarrow> set (closure_from es (Some n) steps covered) = reached es (n - steps) (set covered)"
proof (induction es "Some n" steps covered rule: closure_from.induct)
  case (1 es steps covered)
  show ?case
  proof (cases "steps < n")
    case False
    with 1 show ?thesis by (simp add: closure_from.simps)
  next
    case True
    then have d: "n - steps = Suc (n - Suc steps)" by simp
    show ?thesis
    proof (cases "produced es covered = []")
      case True
      then have "production es `` set covered \<subseteq> set covered" using produced_step [of covered es] by auto
      then show ?thesis using True \<open>steps < n\<close> by (simp add: closure_from.simps reached_fix)
    next
      case False
      with \<open>steps < n\<close> 1(1) have "set (closure_from es (Some n) (Suc steps) (covered @ produced es covered)) =
          reached es (n - Suc steps) (set covered \<union> production es `` set covered)"
        by (simp only: produced_step) simp
      then show ?thesis using False \<open>steps < n\<close> by (simp add: closure_from.simps [of es "Some n" steps] d reached_Suc)
    qed
  qed
qed

lemma closure_from_full: "set (closure_from es None steps covered) = (production es)\<^sup>* `` set covered"
proof (induction es "None :: nat option" steps covered rule: closure_from.induct)
  case (1 es steps covered)
  have step: "(production es)\<^sup>* `` (set covered \<union> production es `` set covered) = (production es)\<^sup>* `` set covered"
    by (auto intro: converse_rtrancl_into_rtrancl)
  show ?case
  proof (cases "produced es covered = []")
    case True
    then have "production es `` set covered \<subseteq> set covered" using produced_step [of covered es] by auto
    then have "(production es)\<^sup>* `` set covered = set covered" by (rule Image_closed_trancl)
    then show ?thesis using True by (simp add: closure_from.simps)
  next
    case False
    with 1 have "set (closure_from es None (Suc steps) (covered @ produced es covered)) =
        (production es)\<^sup>* `` (set covered \<union> production es `` set covered)"
      by (simp only: produced_step) simp
    then show ?thesis using False step by (simp add: closure_from.simps [of es None steps])
  qed
qed

text \<open>C18. The will closure terminates for every edge table and computes exactly what its
  documentation names: without a depth bound, every operation reachable from the seed over production edges; with
  bound \<open>n\<close>, exactly those reachable in at most \<open>n\<close> steps.\<close>

theorem closure_exact:
  "set (closure es None seed) = (production es)\<^sup>* `` set seed \<and> set (closure es (Some n) seed) = reached es n (set seed)"
  by (simp add: closure_def closure_from_full closure_from_bounded)

lemma relpow_Image_UN: "(R ^^ k) `` (\<Union>i\<in>I. A i) = (\<Union>i\<in>I. (R ^^ k) `` A i)"
  by auto

lemma reached_UN: "reached es n (\<Union>i\<in>I. A i) = (\<Union>i\<in>I. reached es n (A i))"
  by (auto simp: reached_def)

lemma set_closure: "set (closure es depth seed) = (case depth of None \<Rightarrow> (production es)\<^sup>* `` set seed | Some n \<Rightarrow> reached es n (set seed))"
  by (cases depth) (simp_all add: closure_def closure_from_full closure_from_bounded)

lemma closure_concat: "set (closure es depth (concat (map id_ops ds))) = (\<Union>d\<in>set ds. set (closure es depth (id_ops d)))"
  by (cases depth) (simp_all add: set_closure Image_UN reached_UN)

lemma closure_seed: "set seed \<subseteq> set (closure es depth seed)"
  by (cases depth) (auto simp: set_closure reached_def intro!: bexI [of _ 0])

lemma find_cover_covers:
  assumes "opn \<in> set (closure es depth (concat (map id_ops ds)))"
  shows "\<exists>d\<in>set ds. find_cover opn ds es depth = id_hash d \<and> opn \<in> set (closure es depth (id_ops d))"
proof -
  have s: "set (by_size ds) = set ds" by (simp add: by_size_def)
  obtain d where d: "d \<in> set (by_size ds)" "opn \<in> set (closure es depth (id_ops d))" using assms s by (auto simp: closure_concat)
  show ?thesis
  proof (cases "find (\<lambda>d. opn \<in> set (id_ops d)) (by_size ds)")
    case (Some e)
    then have "e \<in> set ds" "opn \<in> set (id_ops e)" using s by (auto simp: find_Some_iff)
    then show ?thesis using Some closure_seed [of "id_ops e"] by (auto simp: find_cover_def)
  next
    case None
    obtain e where e: "find (\<lambda>d. opn \<in> set (closure es depth (id_ops d))) (by_size ds) = Some e"
      using d by (cases "find (\<lambda>d. opn \<in> set (closure es depth (id_ops d))) (by_size ds)") (auto simp: find_None_iff)
    then have "e \<in> set ds" "opn \<in> set (closure es depth (id_ops e))" using s by (auto simp: find_Some_iff)
    then show ?thesis using None e by (auto simp: find_cover_def)
  qed
qed

text \<open>coverage decided. Coverage is decided exactly: no declared operation at all gives WL-005, an operation
  outside the closure WL-001, and a covered operation comes with the hash of an active declaration whose own
  closure contains it (the fall-back empty hash is never returned).\<close>

theorem coverage_decided:
  "case covers opn ds es depth of
     Outside code \<Rightarrow> (\<forall>d\<in>set ds. opn \<notin> set (closure es depth (id_ops d))) \<and>
       (code = WL_005 \<longleftrightarrow> (\<forall>d\<in>set ds. id_ops d = [])) \<and> (code = WL_001 \<longleftrightarrow> (\<exists>d\<in>set ds. id_ops d \<noteq> []))
   | Covered h \<Rightarrow> \<exists>d\<in>set ds. h = id_hash d \<and> opn \<in> set (closure es depth (id_ops d))"
proof -
  have "set (closure es depth []) = {}" by (cases depth) (auto simp: set_closure reached_def)
  then have n: "closure es depth [] = []" by simp
  have w: "WL_005 \<noteq> WL_001" by (simp add: WL_001_def WL_005_def)
  show ?thesis
    using find_cover_covers [of opn es depth ds] n w
    by (auto simp: covers_def Let_def closure_concat)
qed

lemma coverage_decided_witness:
  "covers ''b'' [\<lparr>id_hash = ''h'', id_ops = [''a''], id_scope_type = [], id_scope_ref = [], id_authority = [], id_timestamp = []\<rparr>]
     [(''a'', [''b''])] None = Covered ''h''"
proof -
  let ?ds = "[\<lparr>id_hash = ''h'', id_ops = [''a''], id_scope_type = [], id_scope_ref = [], id_authority = [], id_timestamp = []\<rparr>]"
  have "''b'' \<in> set (closure [(''a'', [''b''])] None [''a''])" by (auto simp: set_closure production_def)
  with coverage_decided [of ?ds "''b''" "[(''a'', [''b''])]" None] show ?thesis
    by (cases "covers ''b'' ?ds [(''a'', [''b''])] None") auto
qed

subsection \<open>Revocation\<close>

inductive will_step :: "intent_db conn \<Rightarrow> intent_db conn \<Rightarrow> bool" where
  declare_step: "declare_intent d c = (r, c') \<Longrightarrow> will_step c c'"
| revoke_step: "revoke_intent v c = (r, c') \<Longrightarrow> will_step c c'"

inductive_cases will_stepE: "will_step c c'"

definition struck :: "string \<Rightarrow> intent_db \<Rightarrow> bool" where
  \<comment> \<open>a row with this hash is there, and none of them is active\<close>
  "struck h b \<longleftrightarrow> h \<in> intent_key ` set (idb_rows b) \<and> (\<forall>w\<in>set (idb_rows b). intent_key w = h \<longrightarrow> iw_revoked w)"

definition struck_conn :: "string \<Rightarrow> intent_db conn \<Rightarrow> bool" where
  "struck_conn h c \<longleftrightarrow> struck h (cn_visible c) \<and> struck h (cn_durable c)"

lemma keeps_struck_dml: "(\<And>b. struck h b \<Longrightarrow> struck h (f b)) \<Longrightarrow> keeps (struck_conn h) (dml f)"
  by (auto simp: keeps_def dml_def statement_def struck_conn_def split: list.splits option.splits)

lemma keeps_struck_commit: "keeps (struck_conn h) commit"
  by (auto simp: keeps_def commit_def statement_def struck_conn_def split: list.splits option.splits)

lemma struck_insert: "struck h b \<Longrightarrow> struck h (insert_intent d b)"
  by (auto simp: struck_def insert_intent_def insert_or_ignore_def intent_key_def)

lemma flag_keys [simp]: "intent_key ` set (idb_rows (flag_revoked g b)) = intent_key ` set (idb_rows b)"
proof -
  have "map intent_key (idb_rows (flag_revoked g b)) = map intent_key (idb_rows b)"
    by (simp add: flag_revoked_def intent_key_def)
  then show ?thesis by (metis set_map)
qed

lemma flag_rows: "w \<in> set (idb_rows (flag_revoked g b)) \<Longrightarrow>
    \<exists>w0\<in>set (idb_rows b). intent_key w = intent_key w0 \<and> iw_revoked w = (iw_revoked w0 \<or> intent_key w0 = g)"
  by (auto simp: flag_revoked_def intent_key_def split: if_splits)

lemma struck_flag: "struck h b \<Longrightarrow> struck h (flag_revoked g b)"
  unfolding struck_def flag_keys by (metis flag_rows)

lemma will_step_struck: "will_step c c' \<Longrightarrow> struck_conn h c \<Longrightarrow> struck_conn h c'"
proof (induction rule: will_step.induct)
  case (declare_step d c r c')
  have "keeps (struck_conn h) (declare_intent d)"
    unfolding declare_intent_def by (intro keeps_intros keeps_struck_dml keeps_struck_commit struck_insert)
  from keepsD [OF this declare_step(2,1)] show ?case .
next
  case (revoke_step v c r c')
  have r: "struck h b \<Longrightarrow> struck h (b\<lparr>idb_revocations := x\<rparr>)" for b x by (simp add: struck_def)
  have "keeps (struck_conn h) (revoke_intent v)"
    unfolding revoke_intent_def by (intro keeps_intros keeps_struck_dml keeps_struck_commit struck_flag r)
  from keepsD [OF this revoke_step(2,1)] show ?case .
qed

lemma revoke_strikes:
  assumes "cn_faults c = []" "h \<in> intent_key ` set (idb_rows (cn_visible c))" "ir_revoked v = h" "revoke_intent v c = (r, c')"
  shows "struck_conn h c'"
proof -
  have "cn_durable c' = cn_visible c' \<and> idb_rows (cn_visible c') = idb_rows (flag_revoked h (cn_visible c))"
    using assms(1,3,4)
    by (simp add: revoke_intent_def sswallow_def scatch_def sthen_Inr [OF dml_clean] commit_clean in_transaction_def) (auto simp: flag_revoked_def)
  moreover have "struck h (flag_revoked h (cn_visible c))"
    unfolding struck_def flag_keys
  proof (intro conjI ballI impI assms(2))
    fix w assume "w \<in> set (idb_rows (flag_revoked h (cn_visible c)))" "intent_key w = h"
    with flag_rows [OF this(1)] show "iw_revoked w" by auto
  qed
  ultimately have "cn_durable c' = cn_visible c'" "struck h (cn_visible c')" by (auto simp: struck_def)
  then show ?thesis by (simp add: struck_conn_def)
qed

lemma struck_inactive: "struck h b \<Longrightarrow> h \<notin> intent_key ` set (active_rows scope b)"
  by (auto simp: struck_def active_rows_def)

text \<open>C19. Once the revocation of a stored declaration has been recorded (its three
  statements ran), no later sequence of declarations and revocations, under any fault script, makes the
  declaration active again, in any scope, neither for this process nor for a reader of the durable state. The
  revoking authority plays no role.\<close>

theorem revocation_permanent:
  assumes "cn_faults c = []" "ir_revoked v \<in> intent_key ` set (idb_rows (cn_visible c))" "revoke_intent v c = (r, c1)"
    "will_step\<^sup>*\<^sup>* (c1\<lparr>cn_faults := fs\<rparr>) c2"
  shows "ir_revoked v \<notin> id_hash ` set (active_declarations c2 scope) \<and>
    ir_revoked v \<notin> intent_key ` set (active_rows scope (cn_durable c2))"
proof -
  have "struck_conn (ir_revoked v) (c1\<lparr>cn_faults := fs\<rparr>)" using revoke_strikes [OF assms(1,2) refl assms(3)] by (simp add: struck_conn_def)
  with assms(4) have "struck_conn (ir_revoked v) c2" by (induction rule: rtranclp_induct) (auto dest: will_step_struck)
  then have "ir_revoked v \<notin> intent_key ` set (active_rows scope (cn_visible c2))" "ir_revoked v \<notin> intent_key ` set (active_rows scope (cn_durable c2))"
    using struck_inactive by (auto simp: struck_conn_def)
  then show ?thesis by (auto simp: active_declarations_def row_to_declaration_def intent_key_def image_iff)
qed

definition sample_intent :: intent_declaration where
  "sample_intent = \<lparr>id_hash = ''d'', id_ops = [''pay''], id_scope_type = ''session'', id_scope_ref = [], id_authority = ''g'', id_timestamp = ''t''\<rparr>"

definition sample_revocation :: intent_revocation where
  "sample_revocation = \<lparr>ir_hash = ''r'', ir_revoked = ''d'', ir_authority = ''other'', ir_timestamp = ''t''\<rparr>"

theorem revocation_permanent_witness:
  "let c = snd (declare_intent sample_intent (new_intents [])); c1 = snd (revoke_intent sample_revocation c);
       c2 = snd (declare_intent sample_intent c1)
   in active_declarations c [] = [sample_intent] \<and> ''d'' \<notin> id_hash ` set (active_declarations c2 [])"
proof -
  define c where "c = snd (declare_intent sample_intent (new_intents []))"
  obtain r c1 where r: "revoke_intent sample_revocation c = (r, c1)" by force
  obtain q c2 where d: "declare_intent sample_intent c1 = (q, c2)" by force
  have c: "cn_faults c = []" "idb_rows (cn_visible c) = [\<lparr>iw_declaration = sample_intent, iw_revoked = False\<rparr>]"
    by (simp_all add: c_def declare_intent_def new_intents_def new_conn_def sswallow_def scatch_def dml_commit_clean
        insert_intent_def insert_or_ignore_def)
  then have a: "active_declarations c [] = [sample_intent]"
    by (simp add: active_declarations_def active_rows_def row_to_declaration_def sample_intent_def)
  have f: "cn_faults c1 = []" using r c(1)
    by (auto simp: revoke_intent_def sswallow_def scatch_def sthen_Inr [OF dml_clean] commit_clean in_transaction_def)
  then have "c1\<lparr>cn_faults := []\<rparr> = c1" by simp
  then have "will_step\<^sup>*\<^sup>* (c1\<lparr>cn_faults := []\<rparr>) c2" using declare_step [OF d] by simp
  from revocation_permanent [OF c(1) _ r this, of "[]"] have "''d'' \<notin> id_hash ` set (active_declarations c2 [])"
    using c(2) by (simp add: sample_revocation_def sample_intent_def intent_key_def)
  then show ?thesis using a r d by (simp add: c_def [symmetric])
qed

text \<open>early revocation lost. A revocation recorded before its declaration has no effect: the declaration is
  active as soon as it is stored, although its revocation is on file.\<close>

theorem early_revocation_lost:
  "let c = snd (declare_intent d (snd (revoke_intent v (new_intents []))))
   in v \<in> set (idb_revocations (cn_durable c)) \<and> id_hash d \<in> id_hash ` set (active_declarations c (id_scope_ref d))"
  by (simp add: declare_intent_def revoke_intent_def new_intents_def new_conn_def sswallow_def scatch_def sthen_Inr [OF dml_clean] commit_clean in_transaction_def
      insert_intent_def insert_or_ignore_def flag_revoked_def active_declarations_def active_rows_def
      row_to_declaration_def image_def)

end
