(* ===== verification/Warrants.thy ===== *)
theory Warrants
  imports Frames
begin

text \<open>
  Decision warrants (\<^verbatim>\<open>ugk/governance/warrant.py\<close>): the content-addressed warrant, the warrant store over a SQLite
  connection of the model, lineage walk and cycle test.

  Main results: a returning write is durable and readable and loses nothing, for every fault script; the
  lineage walk ends, repeats nothing and follows the links; the cycle test is exact.
\<close>

subsection \<open>Warrants\<close>

definition RESULT_ADMIT :: int where "RESULT_ADMIT = 9001"
definition RESULT_REFUSE :: int where "RESULT_REFUSE = 9002"
definition ANALYSIS_AUTH_SUFFICIENT :: int where "ANALYSIS_AUTH_SUFFICIENT = 9101"
definition ANALYSIS_JURIS_VALID :: int where "ANALYSIS_JURIS_VALID = 9102"

definition GENESIS_WARRANT_HASH :: string where
  "GENESIS_WARRANT_HASH = replicate 64 (CHR ''0'')"

record decision_warrant =
  wt_hash :: string
  wt_prior :: string
  wt_basis :: "int list"
  wt_authority_result :: int
  wt_jurisdiction_result :: int
  wt_result :: int
  wt_law_hash :: string
  wt_legend_hash :: string
  wt_timestamp :: string

definition WARRANT_KEYS :: "string list" where
  "WARRANT_KEYS = [''authority_result'', ''constitutional_basis'', ''jurisdiction_result'', ''law_hash'', ''legend_hash'',
     ''prior_warrant_hash'', ''result'', ''timestamp'']"

definition warrant_body :: "decision_warrant \<Rightarrow> json" where
  "warrant_body w = JObj (zip WARRANT_KEYS
     [JInt (wt_authority_result w), JList (map JInt (wt_basis w)), JInt (wt_jurisdiction_result w), JStr (wt_law_hash w),
      JStr (wt_legend_hash w), JStr (wt_prior w), JInt (wt_result w), JStr (wt_timestamp w)])"

definition warrant_digest :: "decision_warrant \<Rightarrow> string" where
  "warrant_digest w = to_hex (sha256 (canonical_json (warrant_body w)))"

definition default_warrant :: "int list \<Rightarrow> string \<Rightarrow> string \<Rightarrow> decision_warrant" where
  \<comment> \<open>the defaults of the keyword arguments of \<^verbatim>\<open>create\<close>\<close>
  "default_warrant basis law_hash legend_hash =
     \<lparr>wt_hash = [], wt_prior = GENESIS_WARRANT_HASH, wt_basis = basis, wt_authority_result = ANALYSIS_AUTH_SUFFICIENT,
      wt_jurisdiction_result = ANALYSIS_JURIS_VALID, wt_result = RESULT_ADMIT, wt_law_hash = law_hash,
      wt_legend_hash = legend_hash, wt_timestamp = []\<rparr>"

definition warrant_create :: "string \<Rightarrow> decision_warrant \<Rightarrow> decision_warrant" where
  "warrant_create now args =
     (let w = args\<lparr>wt_basis := sort (wt_basis args),
                   wt_timestamp := (if wt_timestamp args = [] then now else wt_timestamp args)\<rparr>
      in w\<lparr>wt_hash := warrant_digest w\<rparr>)"

definition warrant_verify_hash :: "decision_warrant \<Rightarrow> bool" where
  "warrant_verify_hash w \<longleftrightarrow> wt_hash w = warrant_digest w"

definition cites_invariant :: "decision_warrant \<Rightarrow> int \<Rightarrow> bool" where
  "cites_invariant w csil = (csil \<in> set (wt_basis w))"

definition create_refusal_warrant :: "string \<Rightarrow> int list \<Rightarrow> string \<Rightarrow> string \<Rightarrow> decision_warrant" where
  "create_refusal_warrant now basis law_hash legend_hash =
     warrant_create now ((default_warrant basis law_hash legend_hash)\<lparr>wt_result := RESULT_REFUSE\<rparr>)"

subsection \<open>The warrant store\<close>

type_synonym warrant_db = "decision_warrant list"

definition row_to_warrant :: "decision_warrant \<Rightarrow> decision_warrant" where
  "row_to_warrant w = w\<lparr>wt_basis := sort (wt_basis w)\<rparr>"

definition warrant_get :: "warrant_db conn \<Rightarrow> string \<Rightarrow> decision_warrant option" where
  "warrant_get c h = map_option row_to_warrant (find (\<lambda>w. wt_hash w = h) (cn_visible c))"

definition warrant_write :: "decision_warrant \<Rightarrow> (warrant_db conn, string) prog" where
  "warrant_write w =
     sthen (sguard (warrant_verify_hash w) WarrantStoreError) (
     sthen (scatch (sthen (dml (insert_or_ignore wt_hash w)) commit) (\<lambda>_. sraise WarrantStoreError)) (
     sbind (sget (\<lambda>c. warrant_get c (wt_hash w))) (\<lambda>stored. case stored of
       None \<Rightarrow> sraise WarrantStoreError
     | Some x \<Rightarrow> sthen (sguard (warrant_body x = warrant_body w) WarrantStoreError) (sret (wt_hash w)))))"

definition all_warrants :: "warrant_db conn \<Rightarrow> decision_warrant list" where
  "all_warrants c = map row_to_warrant (cn_visible c)"

definition basis_query :: "warrant_db conn \<Rightarrow> int \<Rightarrow> decision_warrant list" where
  "basis_query c csil = filter (\<lambda>w. csil \<in> set (wt_basis w)) (all_warrants c)"

definition basis_query_for_law :: "warrant_db conn \<Rightarrow> int \<Rightarrow> string \<Rightarrow> decision_warrant list" where
  "basis_query_for_law c csil law_hash = filter (\<lambda>w. wt_law_hash w = law_hash) (basis_query c csil)"

definition warrant_count :: "warrant_db conn \<Rightarrow> nat" where
  "warrant_count c = length (cn_visible c)"

fun lineage_loop :: "warrant_db conn \<Rightarrow> nat \<Rightarrow> string list \<Rightarrow> string \<Rightarrow> decision_warrant list" where
  \<comment> \<open>the second argument is what is left of \<open>max_depth\<close>\<close>
  "lineage_loop c 0 visited cur = []"
| "lineage_loop c (Suc n) visited cur =
     (if cur = [] \<or> cur = GENESIS_WARRANT_HASH \<or> cur \<in> set visited then []
      else case warrant_get c cur of
        None \<Rightarrow> []
      | Some w \<Rightarrow> w # lineage_loop c n (cur # visited) (wt_prior w))"

definition lineage_from :: "warrant_db conn \<Rightarrow> string \<Rightarrow> nat \<Rightarrow> decision_warrant list" where
  "lineage_from c h max_depth = lineage_loop c max_depth [] h"

definition by_hash :: "decision_warrant list \<Rightarrow> string \<Rightarrow> decision_warrant option" where
  "by_hash ws h = find (\<lambda>w. wt_hash w = h) (rev ws)"

lemma by_hash_mem: "by_hash ws h = Some w \<Longrightarrow> h \<in> wt_hash ` set ws"
  by (auto simp: by_hash_def dest: find_SomeD)

function dfs :: "decision_warrant list \<Rightarrow> string \<Rightarrow> string list \<Rightarrow> string list \<Rightarrow> bool \<times> string list \<times> string list" where
  \<comment> \<open>the answer with the updated \<open>visited\<close> and \<open>in_stack\<close>\<close>
  "dfs ws wh visited in_stack =
     (if wh \<in> set in_stack then (False, visited, in_stack)
      else if wh \<in> set visited \<or> wh = GENESIS_WARRANT_HASH then (True, visited, in_stack)
      else case by_hash ws wh of
        None \<Rightarrow> (True, wh # visited, in_stack)
      | Some w \<Rightarrow>
          if wt_prior w = GENESIS_WARRANT_HASH then (True, wh # visited, in_stack)
          else (case dfs ws (wt_prior w) visited (wh # in_stack) of
             (False, v, s) \<Rightarrow> (False, v, s)
           | (True, v, s) \<Rightarrow> (True, wh # v, removeAll wh s)))"
  by pat_completeness auto
termination
proof (relation "measure (\<lambda>(ws, wh, visited, in_stack). card (wt_hash ` set ws - set in_stack))")
  fix ws wh visited in_stack w
  assume "wh \<notin> set in_stack" "by_hash ws wh = Some w"
  then have "wt_hash ` set ws - set (wh # in_stack) \<subset> wt_hash ` set ws - set in_stack" using by_hash_mem [of ws wh w] by auto
  then have "card (wt_hash ` set ws - set (wh # in_stack)) < card (wt_hash ` set ws - set in_stack)" by (intro psubset_card_mono) auto
  then show "((ws, wt_prior w, visited, wh # in_stack), ws, wh, visited, in_stack)
      \<in> measure (\<lambda>(ws, wh, visited, in_stack). card (wt_hash ` set ws - set in_stack))" by simp
qed simp

declare dfs.simps [simp del]

fun all_dfs :: "decision_warrant list \<Rightarrow> decision_warrant list \<Rightarrow> string list \<Rightarrow> string list \<Rightarrow> bool" where
  "all_dfs ws [] visited in_stack = True"
| "all_dfs ws (w # todo) visited in_stack =
     (case dfs ws (wt_hash w) visited in_stack of (ok, v, s) \<Rightarrow> ok \<and> all_dfs ws todo v s)"

definition is_acyclic :: "warrant_db conn \<Rightarrow> bool" where
  "is_acyclic c = all_dfs (all_warrants c) (all_warrants c) [] []"

subsection \<open>Writing\<close>

lemma warrant_create_verifies: "warrant_verify_hash (warrant_create now args)"
  by (simp add: warrant_create_def warrant_verify_hash_def warrant_digest_def warrant_body_def Let_def)

lemma warrant_body_inject:
  assumes "canonical_json (warrant_body p) = canonical_json (warrant_body q)"
  shows "p\<lparr>wt_hash := x\<rparr> = q\<lparr>wt_hash := x\<rparr>"
proof -
  note l = canonical_fixed_inject [OF assms [unfolded warrant_body_def]]
  have "distinct WARRANT_KEYS" "length WARRANT_KEYS = 8" by (simp_all add: WARRANT_KEYS_def)
  with l have "map norm_json (map JInt (wt_basis p)) = map norm_json (map JInt (wt_basis q))"
    "p\<lparr>wt_hash := x, wt_basis := []\<rparr> = q\<lparr>wt_hash := x, wt_basis := []\<rparr>" by (simp_all add: numeral_eq_Suc)
  moreover have "map norm_json (map JInt xs) = map norm_json (map JInt ys) \<Longrightarrow> xs = ys" for xs ys
    by (induction xs arbitrary: ys) (auto simp: Cons_eq_map_conv)
  ultimately show ?thesis by (cases p; cases q) auto
qed

lemma warrant_stored:
  assumes "\<not> in_transaction c" "settled c" "warrant_write w c = (Inr h, c')"
  shows "h = wt_hash w \<and> warrant_verify_hash w \<and> cn_visible c' = insert_or_ignore wt_hash w (cn_visible c) \<and>
    cn_durable c' = cn_visible c' \<and> \<not> in_transaction c' \<and> (\<exists>x. warrant_get c' h = Some x \<and> warrant_body x = warrant_body w)"
proof -
  obtain c1 x where v: "warrant_verify_hash w" and s: "sthen (dml (insert_or_ignore wt_hash w)) commit c = (Inr (), c1)"
    and x: "warrant_get c1 (wt_hash w) = Some x" "warrant_body x = warrant_body w" and r: "h = wt_hash w" "c' = c1"
    using assms(3)
    by (auto simp: warrant_write_def sthen_eq_Inr sbind_eq_Inr sget_def sguard_def sret_def sraise_def scatch_def
        split: option.splits if_splits prod.splits sum.splits)
  obtain c0 where d: "dml (insert_or_ignore wt_hash w) c = (Inr (), c0)" and k: "commit c0 = (Inr (), c1)"
    using s by (auto simp: sthen_eq_Inr)
  have "cn_visible c0 = insert_or_ignore wt_hash w (cn_visible c)" "in_transaction c0"
    using d unfolding dml_def by (cases rule: statement_cases; use assms(1) in \<open>auto simp: in_transaction_def\<close>)+
  moreover have "cn_visible c1 = cn_visible c0" "cn_durable c1 = cn_visible c0" "\<not> in_transaction c1"
    using k \<open>in_transaction c0\<close> unfolding commit_def
    by (auto simp: statement_def in_transaction_def split: list.splits option.splits)
  ultimately show ?thesis using v x r by simp
qed

lemma find_insert_new: "h \<notin> wt_hash ` set ws \<Longrightarrow> find (\<lambda>w. wt_hash w = h) (ws @ [w]) = (if wt_hash w = h then Some w else None)"
  by (induction ws) auto

lemma warrant_refused:
  assumes "\<not> in_transaction c" "settled c" "sorted (wt_basis w)" "warrant_write w c = (Inl e, c')"
  shows "e = WarrantStoreError \<and> cn_durable c' = cn_durable c"
proof (cases "warrant_verify_hash w")
  case False
  then show ?thesis using assms(4) by (simp add: warrant_write_def sraise_def)
next
  case True
  obtain q c1 where q: "sthen (dml (insert_or_ignore wt_hash w)) commit c = (q, c1)" by force
  obtain q0 c0 where d: "dml (insert_or_ignore wt_hash w) c = (q0, c0)" by force
  have c0: "cn_durable c0 = cn_durable c" "in_transaction c0" "q0 = Inr () \<Longrightarrow> cn_visible c0 = insert_or_ignore wt_hash w (cn_visible c)"
    using d unfolding dml_def by (cases rule: statement_cases; use assms(1) in \<open>auto simp: in_transaction_def\<close>)+
  show ?thesis
  proof (cases q)
    case (Inl e1)
    then have "cn_durable c1 = cn_durable c"
      using q d c0 by (cases q0) (auto simp: sthen_def sbind_def commit_def statement_def split: list.splits option.splits)
    moreover have "e = WarrantStoreError \<and> c' = c1"
      using assms(4) True q Inl by (simp add: warrant_write_def scatch_def sthen_def sbind_def sraise_def)
    ultimately show ?thesis by simp
  next
    case (Inr u)
    then have k: "q0 = Inr ()" "commit c0 = (Inr (), c1)" using q d by (auto simp: sthen_eq_Inr)
    then have c1: "cn_visible c1 = cn_visible c0" "cn_durable c1 = cn_visible c0"
      using c0(2) by (auto simp: commit_def statement_def split: list.splits option.splits)
    have e: "e = WarrantStoreError \<and> c' = c1 \<and> (case warrant_get c1 (wt_hash w) of None \<Rightarrow> True | Some x \<Rightarrow> warrant_body x \<noteq> warrant_body w)"
      using assms(4) True q Inr
      by (auto simp: warrant_write_def scatch_def sthen_def sbind_def sraise_def sget_def sguard_def sret_def split: option.splits if_splits)
    have "wt_hash w \<in> wt_hash ` set (cn_visible c)"
    proof (rule ccontr)
      assume n: "wt_hash w \<notin> wt_hash ` set (cn_visible c)"
      then have "warrant_get c1 (wt_hash w) = Some (row_to_warrant w)"
        using c1 c0(3) k(1) by (simp add: warrant_get_def insert_or_ignore_def find_insert_new)
      then show False using e assms(3) by (simp add: row_to_warrant_def sorted_sort_id)
    qed
    then have "cn_durable c1 = cn_visible c" using c1 c0(3) k(1) by (simp add: insert_or_ignore_def)
    then show ?thesis using e assms(1,2) by (simp add: settled_def)
  qed
qed

text \<open>warrant write durable. The warrant store, for every fault script: a write that returns hands back the
  verified content hash of the warrant, has made it durable and readable under that hash with the same body, and
  has kept every warrant that was there; a write that raises (always a \<open>WarrantStoreError\<close>) has changed nothing
  durable.\<close>

theorem warrant_write_durable:
  assumes "\<not> in_transaction c" "settled c" "sorted (wt_basis w)" "warrant_write w c = (res, c')"
  shows "case res of
      Inl e \<Rightarrow> e = WarrantStoreError \<and> cn_durable c' = cn_durable c
    | Inr h \<Rightarrow> h = warrant_digest w \<and> prefix (cn_durable c) (cn_durable c') \<and> cn_durable c' = cn_visible c' \<and>
        (\<exists>x. warrant_get c' h = Some x \<and> warrant_body x = warrant_body w)"
proof (cases res)
  case (Inl e)
  with warrant_refused [OF assms(1-3)] assms(4) show ?thesis by simp
next
  case (Inr h)
  note k = warrant_stored [OF assms(1,2) assms(4) [unfolded Inr]]
  have "cn_visible c = cn_durable c" using assms(1,2) by (simp add: settled_def)
  then show ?thesis using k Inr by (auto simp: warrant_verify_hash_def intro: insert_or_ignore_prefix)
qed

theorem warrant_write_durable_witness:
  "let w = warrant_create ''now'' (default_warrant [1010, 1008] ''law'' ''legend''); r = warrant_write w (new_conn [] [])
   in fst r = Inr (warrant_digest w) \<and> warrant_get (snd r) (warrant_digest w) = Some w"
proof -
  define w where "w = warrant_create ''now'' (default_warrant [1010, 1008] ''law'' ''legend'')"
  have b: "wt_basis w = [1008, 1010]" "wt_hash w = warrant_digest w" "warrant_verify_hash w"
    using warrant_create_verifies [of "''now''" "default_warrant [1010, 1008] ''law'' ''legend''"]
    by (simp_all add: w_def warrant_create_def default_warrant_def Let_def warrant_verify_hash_def)
  have rw: "row_to_warrant w = w" using b(1) by (cases w) (simp add: row_to_warrant_def)
  obtain res c' where r: "warrant_write w (new_conn [] []) = (res, c')" by force
  have g: "warrant_get c' (wt_hash w) = Some w" "res = Inr (wt_hash w)"
    using r b rw by (auto simp: warrant_write_def scatch_def dml_commit_clean new_conn_def sthen_def [of "scatch _ _"] sbind_def sget_def
        warrant_get_def insert_or_ignore_def sret_def)
  have "\<not> in_transaction (new_conn ([] :: warrant_db) [])" by (simp add: new_conn_def in_transaction_def)
  from warrant_write_durable [OF this settled_new _ r] g b r show ?thesis by (simp add: w_def [symmetric] Let_def)
qed

subsection \<open>Lineage\<close>

lemma lineage_loop_spec:
  "length (lineage_loop c n visited cur) \<le> n \<and> distinct (map wt_hash (lineage_loop c n visited cur)) \<and>
   wt_hash ` set (lineage_loop c n visited cur) \<inter> set visited = {} \<and>
   (\<forall>w\<in>set (lineage_loop c n visited cur). warrant_get c (wt_hash w) = Some w)"
proof (induction c n visited cur rule: lineage_loop.induct)
  case (2 c n visited cur)
  show ?case
  proof (cases "cur = [] \<or> cur = GENESIS_WARRANT_HASH \<or> cur \<in> set visited \<or> warrant_get c cur = None")
    case True
    then show ?thesis by auto
  next
    case False
    then obtain w where w: "warrant_get c cur = Some w" by auto
    then have h: "wt_hash w = cur" by (auto simp: warrant_get_def row_to_warrant_def dest: find_SomeD)
    from 2 [OF _ w] False h w show ?thesis by auto
  qed
qed simp

lemma lineage_loop_links:
  "Suc i < length (lineage_loop c n visited cur) \<Longrightarrow>
   wt_hash (lineage_loop c n visited cur ! Suc i) = wt_prior (lineage_loop c n visited cur ! i)"
proof (induction c n visited cur arbitrary: i rule: lineage_loop.induct)
  case (2 c n visited cur)
  have hd: "lineage_loop c n vs x = w # ws \<Longrightarrow> wt_hash w = x" for n vs x w ws
    by (cases n) (auto simp: warrant_get_def row_to_warrant_def split: if_splits option.splits dest: find_SomeD)
  show ?case
  proof (cases i)
    case 0
    with 2(2) show ?thesis
      by (auto simp: length_Suc_conv less_Suc_eq_0_disj split: if_splits option.splits)
        (metis hd length_greater_0_conv list.exhaust_sel nth_Cons_0)
  next
    case (Suc j)
    with 2 show ?thesis by (auto split: if_splits option.splits)
  qed
qed simp

subsection \<open>Cycles\<close>

definition prior_rel :: "decision_warrant list \<Rightarrow> (string \<times> string) set" where
  \<comment> \<open>reference: the links between stored warrants\<close>
  "prior_rel ws = {(h, wt_prior w) | h w. by_hash ws h = Some w \<and> h \<noteq> GENESIS_WARRANT_HASH \<and> wt_prior w \<noteq> GENESIS_WARRANT_HASH}"

definition cycle_free :: "decision_warrant list \<Rightarrow> string \<Rightarrow> bool" where
  "cycle_free ws h \<longleftrightarrow> (\<nexists>y. (h, y) \<in> (prior_rel ws)\<^sup>* \<and> (y, y) \<in> (prior_rel ws)\<^sup>+)"

lemma no_link_cycle_free: "(\<And>y. (h, y) \<notin> prior_rel ws) \<Longrightarrow> cycle_free ws h"
  unfolding cycle_free_def by (metis converse_rtranclE converse_tranclE)

lemma link_cycle_free:
  assumes "by_hash ws h = Some w" "h \<noteq> GENESIS_WARRANT_HASH" "wt_prior w \<noteq> GENESIS_WARRANT_HASH"
  shows "cycle_free ws h \<longleftrightarrow> cycle_free ws (wt_prior w)"
proof -
  have link: "(h, y) \<in> prior_rel ws \<longleftrightarrow> y = wt_prior w" for y using assms by (auto simp: prior_rel_def)
  show ?thesis
  proof
    assume "cycle_free ws h"
    moreover have "(h, wt_prior w) \<in> prior_rel ws" using link by simp
    ultimately show "cycle_free ws (wt_prior w)" unfolding cycle_free_def by (meson converse_rtrancl_into_rtrancl)
  next
    assume c: "cycle_free ws (wt_prior w)"
    show "cycle_free ws h" unfolding cycle_free_def
    proof
      assume "\<exists>y. (h, y) \<in> (prior_rel ws)\<^sup>* \<and> (y, y) \<in> (prior_rel ws)\<^sup>+"
      then obtain y where y: "(h, y) \<in> (prior_rel ws)\<^sup>*" "(y, y) \<in> (prior_rel ws)\<^sup>+" by blast
      have "(h, y) \<in> (prior_rel ws)\<^sup>+" using y by (metis rtrancl_eq_or_trancl)
      then obtain z where "(h, z) \<in> prior_rel ws" "(z, y) \<in> (prior_rel ws)\<^sup>*" by (meson tranclD)
      then have "(wt_prior w, y) \<in> (prior_rel ws)\<^sup>*" using link by simp
      with y(2) c show False by (auto simp: cycle_free_def)
    qed
  qed
qed

lemma dfs_exact:
  assumes "\<forall>x\<in>set in_stack. (x, wh) \<in> (prior_rel ws)\<^sup>+" "\<forall>x\<in>set visited. cycle_free ws x" "dfs ws wh visited in_stack = (ok, v, s)"
  shows "(ok \<longleftrightarrow> cycle_free ws wh) \<and> (ok \<longrightarrow> set s = set in_stack \<and> (\<forall>x\<in>set v. cycle_free ws x))"
  using assms
proof (induction ws wh visited in_stack arbitrary: ok v s rule: dfs.induct)
  case (1 ws wh visited in_stack)
  have nolink: "cycle_free ws wh" if "wh = GENESIS_WARRANT_HASH \<or> by_hash ws wh = None \<or> (\<exists>w. by_hash ws wh = Some w \<and> wt_prior w = GENESIS_WARRANT_HASH)"
    using that by (intro no_link_cycle_free) (auto simp: prior_rel_def)
  consider (stack) "wh \<in> set in_stack"
    | (seen) "wh \<notin> set in_stack" "wh \<in> set visited \<or> wh = GENESIS_WARRANT_HASH"
    | (leaf) "wh \<notin> set in_stack" "wh \<notin> set visited" "wh \<noteq> GENESIS_WARRANT_HASH"
        "by_hash ws wh = None \<or> (\<exists>w. by_hash ws wh = Some w \<and> wt_prior w = GENESIS_WARRANT_HASH)"
    | (link) w where "wh \<notin> set in_stack" "wh \<notin> set visited" "wh \<noteq> GENESIS_WARRANT_HASH" "by_hash ws wh = Some w" "wt_prior w \<noteq> GENESIS_WARRANT_HASH"
    by (cases "by_hash ws wh") auto
  then show ?case
  proof cases
    case stack
    then have "\<not> cycle_free ws wh" using 1(2) by (auto simp: cycle_free_def)
    then show ?thesis using 1(4) stack by (simp add: dfs.simps [of ws wh])
  next
    case seen
    then show ?thesis using 1(3,4) nolink by (auto simp: dfs.simps [of ws wh])
  next
    case leaf
    then show ?thesis using 1(3,4) nolink by (auto simp: dfs.simps [of ws wh])
  next
    case link
    obtain ok' v' s' where r: "dfs ws (wt_prior w) visited (wh # in_stack) = (ok', v', s')" using prod_cases3 by blast
    have edge: "(wh, wt_prior w) \<in> prior_rel ws" using link by (auto simp: prior_rel_def)
    then have "\<forall>x\<in>set (wh # in_stack). (x, wt_prior w) \<in> (prior_rel ws)\<^sup>+" using 1(2) by (auto intro: trancl_into_trancl)
    from 1(1) [OF link(1) _ link(4,5) this 1(3) r] link
    have "(ok' \<longleftrightarrow> cycle_free ws (wt_prior w)) \<and> (ok' \<longrightarrow> set s' = set (wh # in_stack) \<and> (\<forall>x\<in>set v'. cycle_free ws x))" by blast
    then show ?thesis using 1(4) link r link_cycle_free [OF link(4,3,5)]
      by (cases ok') (auto simp: dfs.simps [of ws wh])
  qed
qed

lemma all_dfs_exact: "\<forall>x\<in>set visited. cycle_free ws x \<Longrightarrow> all_dfs ws todo visited [] \<longleftrightarrow> (\<forall>w\<in>set todo. cycle_free ws (wt_hash w))"
proof (induction todo arbitrary: visited)
  case (Cons w todo)
  obtain ok v s where r: "dfs ws (wt_hash w) visited [] = (ok, v, s)" using prod_cases3 by blast
  from dfs_exact [OF _ Cons.prems r] Cons.IH [of v] r show ?case by (cases ok) auto
qed simp

text \<open>C20. The cycle test is exact: it answers True precisely when the links between the
  stored warrants form no cycle; in particular sharing the visited set between the starting points loses nothing.\<close>

theorem warrant_cycles_decided: "is_acyclic c \<longleftrightarrow> acyclic (prior_rel (all_warrants c))"
proof -
  let ?ws = "all_warrants c"
  have dom: "h \<in> wt_hash ` set ?ws" if "(h, y) \<in> prior_rel ?ws" for h y using that by_hash_mem by (fastforce simp: prior_rel_def)
  have "is_acyclic c \<longleftrightarrow> (\<forall>w\<in>set ?ws. cycle_free ?ws (wt_hash w))" by (simp add: is_acyclic_def all_dfs_exact)
  also have "\<dots> \<longleftrightarrow> acyclic (prior_rel ?ws)"
  proof
    assume a: "\<forall>w\<in>set ?ws. cycle_free ?ws (wt_hash w)"
    show "acyclic (prior_rel ?ws)" unfolding acyclic_def
    proof (intro allI notI)
      fix x assume x: "(x, x) \<in> (prior_rel ?ws)\<^sup>+"
      then obtain y where "(x, y) \<in> prior_rel ?ws" by (meson tranclD)
      from dom [OF this] a x show False by (auto simp: cycle_free_def)
    qed
  qed (auto simp: acyclic_def cycle_free_def)
  finally show ?thesis .
qed

end
