(* ===== verification/Governance.thy ===== *)
theory Governance
  imports Evidence Ed25519 Frames
begin

text \<open>
  The rules the kernel consults: the operation registry (\<^verbatim>\<open>ugk/schema.py\<close>, \<^verbatim>\<open>ugk/ops.py\<close>), the capability
  sufficiency policy (\<^verbatim>\<open>ugk/cgp/capability_sufficiency.py\<close>) and the Governor's signature checks
  (\<^verbatim>\<open>ugk/governance/governor.py\<close>). Of an operation only its name matters to the kernel. A policy is its list of
  enforced entries; an absent key of an entry is \<^verbatim>\<open>None\<close>. The genesis seal file is an argument.
\<close>

subsection \<open>Operations\<close>

definition KERNEL_OPS :: "string list" where
  "KERNEL_OPS = [''gate_admit'', ''gate_refuse'']"

definition UNIVERSAL_OPS :: "string list" where
  "UNIVERSAL_OPS = [''session_open'', ''session_close'', ''crp_evidence'', ''test_checkpoint'', ''legend_seal'', ''session_summary'']"

definition APPLICATION_OPS :: "string list" where
  "APPLICATION_OPS = [''authority_model_set'', ''namespace_claim'', ''namespace_allocate'', ''namespace_delegate'',
     ''namespace_revoke'', ''namespace_invalidate'', ''namespace_supersede'', ''namespace_adjudicate'']"

definition GOVERNANCE_OPS :: "string list" where
  "GOVERNANCE_OPS = UNIVERSAL_OPS @ APPLICATION_OPS"

subsection \<open>Capability sufficiency\<close>

record policy_entry =
  pe_jurisdiction :: string
  pe_op :: string
  pe_capability_class :: string
  pe_by_construction_proof :: "string option"
  pe_waiver_permits :: bool

datatype cap_disposition = SUFFICIENT | FAIL_CLOSED | WAIVER_DISPOSITION | BY_CONSTRUCTION_ADMITTED | BY_CONSTRUCTION_UNBACKED

definition is_evidence_sufficient :: "string \<Rightarrow> bool" where
  "is_evidence_sufficient verdict \<longleftrightarrow> verdict = ''PROVEN''"

definition classify :: "string \<Rightarrow> policy_entry option \<Rightarrow> cap_disposition \<times> string" where
  "classify verdict entry =
     (if verdict = ''PROVEN'' then (SUFFICIENT, ''evidence-sufficient:PROVEN'')
      else if verdict = ''WAIVED'' then (WAIVER_DISPOSITION, ''authority-disposition:WAIVED:not-evidence'')
      else if verdict = ''BY-CONSTRUCTION'' then
        (case Option.bind entry pe_by_construction_proof of
           Some (c # cs) \<Rightarrow> (BY_CONSTRUCTION_ADMITTED, ''by-construction:named-proof:'' @ c # cs)
         | _ \<Rightarrow> (BY_CONSTRUCTION_UNBACKED, ''by-construction:unbacked:non-sufficient''))
      else (FAIL_CLOSED, ''non-sufficient:fail-closed:'' @ (if verdict \<in> set VERDICTS then verdict else ''unknown'')))"

definition enforced_entry :: "string \<Rightarrow> policy_entry" where
  "enforced_entry opn = \<lparr>pe_jurisdiction = ''external-consequential'', pe_op = opn,
     pe_capability_class = ''fail_closed_governance'', pe_by_construction_proof = None, pe_waiver_permits = False\<rparr>"

definition CAPABILITY_SUFFICIENCY_POLICY :: "policy_entry list" where
  "CAPABILITY_SUFFICIENCY_POLICY =
     map enforced_entry [''authority_model_set'', ''namespace_allocate'', ''namespace_delegate'', ''namespace_revoke'']"

definition REFUSAL_CAUSE_INSUFFICIENT_CAPABILITY :: string where
  "REFUSAL_CAUSE_INSUFFICIENT_CAPABILITY = ''insufficient-capability''"

definition find_enforced_entry :: "policy_entry list \<Rightarrow> string \<Rightarrow> string \<Rightarrow> policy_entry option" where
  "find_enforced_entry policy jurisdiction opn = find (\<lambda>e. pe_jurisdiction e = jurisdiction \<and> pe_op e = opn) policy"

definition enforce_decision :: "string \<Rightarrow> string \<Rightarrow> string option \<Rightarrow> policy_entry list \<Rightarrow> bool \<times> string" where
  \<comment> \<open>whether to refuse, and the cause\<close>
  "enforce_decision jurisdiction opn verdict policy =
     (case find_enforced_entry policy jurisdiction opn of
        None \<Rightarrow> (False, [])
      | Some e \<Rightarrow>
          (case verdict of
             None \<Rightarrow> (True, REFUSAL_CAUSE_INSUFFICIENT_CAPABILITY)
           | Some v \<Rightarrow>
               (let d = fst (classify v (Some e)) in
                if d = SUFFICIENT \<or> d = BY_CONSTRUCTION_ADMITTED \<or> d = WAIVER_DISPOSITION \<and> pe_waiver_permits e then (False, [])
                else (True, REFUSAL_CAUSE_INSUFFICIENT_CAPABILITY))))"

subsection \<open>The Governor\<close>

definition unset_key :: "string \<Rightarrow> bool" where
  "unset_key pubkey \<longleftrightarrow> prefix ''GOVERNOR_KEY_UNSET'' pubkey"

definition governor_key_status :: "json option \<Rightarrow> string \<Rightarrow> string" where
  \<comment> \<open>the first argument is the parsed genesis seal file, if there is a readable one\<close>
  "governor_key_status seal pubkey =
     (if unset_key pubkey \<or> length pubkey \<noteq> 64 \<or> fromhex pubkey = None then ''unset''
      else if (\<exists>d. seal = Some (JObj d) \<and> map_of d ''key_status'' = Some (JStr ''ceremony_complete'')) then ''ceremony_complete''
      else ''dev_temp'')"

definition verify_governor :: "string \<Rightarrow> bytes \<Rightarrow> string \<Rightarrow> bool" where
  "verify_governor pubkey message sig =
     (if unset_key pubkey then False else ed25519_verify message sig pubkey)"

definition sign_as_governor :: "string \<Rightarrow> bytes \<Rightarrow> (pyexc, string) result" where
  "sign_as_governor privkey message = ed25519_sign message privkey"

definition validate_genesis_seal :: "string \<Rightarrow> json \<Rightarrow> string \<Rightarrow> bool" where
  \<comment> \<open>the first argument is the phase code of the kernel; every exception gives False\<close>
  "validate_genesis_seal phase_code data expected =
     (case (map_of (obj_fields data) ''seal'', map_of (obj_fields data) ''signature'') of
        (Some (JObj body), Some (JStr sig)) \<Rightarrow>
          (case map_of body ''governor_pubkey'' of
             Some (JStr pubkey) \<Rightarrow> pubkey = expected \<and> verify_governor pubkey (canonical_json (JObj body)) sig \<and>
               map_of body ''phase_code'' = Some (JStr phase_code)
           | _ \<Rightarrow> False)
      | _ \<Rightarrow> False)"

subsection \<open>Sufficiency\<close>

text \<open>capability enforced. Default-deny within the enforced scopes and nothing outside them: an operation is
  refused exactly when its jurisdiction and name have an entry and its capability is not shown by a PROVEN
  verdict, by construction with a proof the entry names, or waived where the entry permits waivers; so an absent,
  failed or unknown verdict always refuses, and no operation outside the enumeration is ever refused.\<close>

theorem capability_enforced:
  "fst (enforce_decision jurisdiction opn verdict policy) \<longleftrightarrow>
     (\<exists>e. find_enforced_entry policy jurisdiction opn = Some e \<and>
        \<not> (verdict = Some ''PROVEN'' \<or>
           verdict = Some ''BY-CONSTRUCTION'' \<and> (\<exists>proof. pe_by_construction_proof e = Some proof \<and> proof \<noteq> []) \<or>
           verdict = Some ''WAIVED'' \<and> pe_waiver_permits e))"
  by (auto simp: enforce_decision_def classify_def Let_def split: option.splits list.splits)

end
