(* ===== verification/Trails.thy ===== *)
theory Trails
  imports Surfaces "HOL-Library.Product_Lexorder"
begin

text \<open>
  The read-only detectors over the trails of external effects (\<^verbatim>\<open>ugk/integrity/external_irreversible.py\<close>,
  \<^verbatim>\<open>external_reversible.py\<close>): which PREPARE and COMPENSATE receipts have no terminal, and which forward effects
  may be compensated. Sorting compares the text of the keys; keys that are no strings, which only receipts from
  before the typed columns could carry, sort as the empty text.

  Main result: the detectors report exactly the intents without a matching terminal, and a terminal that is
  appended clears exactly the intents it names.
\<close>

subsection \<open>Column-first view\<close>

definition EXTERNAL_IRREVERSIBLE :: string where "EXTERNAL_IRREVERSIBLE = ''external_irreversible''"
definition EXTERNAL_REVERSIBLE :: string where "EXTERNAL_REVERSIBLE = ''external_reversible''"

definition effect_view :: "(effect_cols \<Rightarrow> string option) \<Rightarrow> string \<Rightarrow> receipt \<Rightarrow> json" where
  \<comment> \<open>the typed column, else the marker in the parameters\<close>
  "effect_view col marker r =
     (case col (r_effect r) of Some v \<Rightarrow> JStr v | None \<Rightarrow> jget (obj_fields (r_parameters r)) marker)"

definition v_class :: "receipt \<Rightarrow> json" where "v_class = effect_view ec_atomicity ''effect_atomicity''"
definition v_phase :: "receipt \<Rightarrow> json" where "v_phase = effect_view ec_phase ''phase''"
definition v_key :: "receipt \<Rightarrow> json" where "v_key = effect_view ec_idempotency_key ''idempotency_key''"
definition v_prepare_ref :: "receipt \<Rightarrow> json" where "v_prepare_ref = effect_view ec_prepare_ref ''prepare_ref''"
definition v_compensate_ref :: "receipt \<Rightarrow> json" where "v_compensate_ref = effect_view ec_compensate_ref ''compensate_ref''"
definition v_compensation_key :: "receipt \<Rightarrow> json" where
  "v_compensation_key = effect_view ec_compensation_idempotency_key ''compensation_idempotency_key''"
definition v_gate_admit_ref :: "receipt \<Rightarrow> json" where "v_gate_admit_ref = effect_view ec_gate_admit_ref ''gate_admit_ref''"

lemmas view_defs = effect_view_def v_class_def v_phase_def v_key_def v_prepare_ref_def v_compensate_ref_def
  v_compensation_key_def v_gate_admit_ref_def

definition is_phase :: "string \<Rightarrow> string \<Rightarrow> receipt \<Rightarrow> bool" where
  "is_phase cls phase r \<longleftrightarrow> v_class r = JStr cls \<and> v_phase r = JStr phase"

definition FORWARD_TERMINAL_PHASES :: "string list" where "FORWARD_TERMINAL_PHASES = [''commit'', ''abort'']"
definition COMP_TERMINAL_PHASES :: "string list" where "COMP_TERMINAL_PHASES = [''compensated'', ''compensation_failed'']"

definition is_terminal :: "string \<Rightarrow> string list \<Rightarrow> receipt \<Rightarrow> bool" where
  "is_terminal cls phases r \<longleftrightarrow> list_ex (\<lambda>ph. is_phase cls ph r) phases"

subsection \<open>Orphans\<close>

record orphan =
  or_op :: string
  or_key :: json
  or_prepare_ref :: string
  or_gate_admit_ref :: json

record ei_orphan = orphan +
  or_prepare_ts :: pyfloat
  or_key_terminal_phases :: "string list"

record comp_orphan =
  co_op :: string
  co_compensate_ref :: json
  co_compensation_key :: json
  co_compensate_h_r :: string

definition key_text :: "json \<Rightarrow> string" where
  "key_text v = (case v of JStr s \<Rightarrow> s | _ \<Rightarrow> [])"

definition clears :: "receipt \<Rightarrow> receipt \<Rightarrow> bool" where
  \<comment> \<open>the strict rule: same key and pointing back at this very PREPARE\<close>
  "clears t p \<longleftrightarrow> v_key t = v_key p \<and> v_prepare_ref t = JStr (r_h_r p)"

definition orphan_prepares :: "string \<Rightarrow> receipt list \<Rightarrow> receipt list" where
  "orphan_prepares cls rs =
     filter (\<lambda>p. is_phase cls ''prepare'' p \<and> \<not> (\<exists>t\<in>set rs. is_terminal cls FORWARD_TERMINAL_PHASES t \<and> clears t p)) rs"

definition orphan_of :: "receipt \<Rightarrow> orphan" where
  "orphan_of p = \<lparr>or_op = r_op p, or_key = v_key p, or_prepare_ref = r_h_r p, or_gate_admit_ref = v_gate_admit_ref p\<rparr>"

definition orphan_order :: "('a orphan_scheme) \<Rightarrow> string \<times> string \<times> string" where
  "orphan_order x = (or_op x, key_text (or_key x), or_prepare_ref x)"

definition terminal_phases :: "receipt list \<Rightarrow> json \<Rightarrow> string list" where
  \<comment> \<open>the sorted distinct phases of the terminals that share the key\<close>
  "terminal_phases rs key = filter (\<lambda>ph. \<exists>t\<in>set rs. is_phase EXTERNAL_IRREVERSIBLE ph t \<and> v_key t = key) [''abort'', ''commit'']"

definition detect_orphan_prepares_irreversible :: "receipt list \<Rightarrow> ei_orphan list" where
  "detect_orphan_prepares_irreversible rs = sort_key orphan_order
     (map (\<lambda>p. orphan.extend (orphan_of p) \<lparr>or_prepare_ts = r_timestamp p, or_key_terminal_phases = terminal_phases rs (v_key p)\<rparr>)
        (orphan_prepares EXTERNAL_IRREVERSIBLE rs))"

definition detect_orphan_prepares_reversible :: "receipt list \<Rightarrow> orphan list" where
  "detect_orphan_prepares_reversible rs = sort_key orphan_order (map orphan_of (orphan_prepares EXTERNAL_REVERSIBLE rs))"

definition orphan_compensates :: "receipt list \<Rightarrow> receipt list" where
  "orphan_compensates rs =
     filter (\<lambda>p. is_phase EXTERNAL_REVERSIBLE ''compensate'' p \<and>
       \<not> (\<exists>t\<in>set rs. is_terminal EXTERNAL_REVERSIBLE COMP_TERMINAL_PHASES t \<and>
           v_compensate_ref t = v_compensate_ref p \<and> v_compensation_key t = v_compensation_key p)) rs"

definition detect_orphan_compensates :: "receipt list \<Rightarrow> comp_orphan list" where
  "detect_orphan_compensates rs =
     sort_key (\<lambda>x. (co_op x, key_text (co_compensate_ref x), key_text (co_compensation_key x)))
     (map (\<lambda>p. \<lparr>co_op = r_op p, co_compensate_ref = v_compensate_ref p, co_compensation_key = v_compensation_key p,
                co_compensate_h_r = r_h_r p\<rparr>) (orphan_compensates rs))"

definition summarize :: "receipt list \<Rightarrow> (nat \<times> nat \<times> nat) \<times> ei_orphan list" where
  \<comment> \<open>counts of prepare, commit and abort, and the orphans\<close>
  "summarize rs =
     (let n = (\<lambda>ph. length (filter (is_phase EXTERNAL_IRREVERSIBLE ph) rs)) in
      ((n ''prepare'', n ''commit'', n ''abort''), detect_orphan_prepares_irreversible rs))"

definition find_committed_forward :: "receipt list \<Rightarrow> string \<Rightarrow> (string \<times> json) option" where
  \<comment> \<open>operation and key of the last commit, unless aborted or already compensated\<close>
  "find_committed_forward rs prepare_ref =
     (let hits = (\<lambda>ph ref. filter (\<lambda>r. is_phase EXTERNAL_REVERSIBLE ph r \<and> ref r = JStr prepare_ref) rs);
          commits = hits ''commit'' v_prepare_ref in
      if commits = [] \<or> hits ''abort'' v_prepare_ref \<noteq> [] \<or> hits ''compensate'' v_compensate_ref \<noteq> [] then None
      else Some (r_op (last commits), v_key (last commits)))"

subsection \<open>What the detectors report\<close>

lemma orphan_prepares_iff:
  "p \<in> set (orphan_prepares cls rs) \<longleftrightarrow>
     p \<in> set rs \<and> is_phase cls ''prepare'' p \<and> \<not> (\<exists>t\<in>set rs. is_terminal cls FORWARD_TERMINAL_PHASES t \<and> clears t p)"
  by (simp add: orphan_prepares_def)

lemma prepare_not_terminal: "is_phase cls ''prepare'' r \<Longrightarrow> \<not> is_terminal cls' FORWARD_TERMINAL_PHASES r"
  by (simp add: is_terminal_def FORWARD_TERMINAL_PHASES_def is_phase_def)

lemma orphan_prepares_append_terminal:
  assumes "is_terminal cls FORWARD_TERMINAL_PHASES t"
  shows "orphan_prepares cls (rs @ [t]) = filter (\<lambda>p. \<not> clears t p) (orphan_prepares cls rs)"
  using assms prepare_not_terminal [of cls t cls] by (auto simp: orphan_prepares_def intro!: filter_cong)

lemma orphan_prepares_append_prepare:
  assumes "is_phase cls ''prepare'' p" "\<forall>t\<in>set rs. v_prepare_ref t \<noteq> JStr (r_h_r p)"
  shows "orphan_prepares cls (rs @ [p]) = orphan_prepares cls rs @ [p]"
  using assms prepare_not_terminal [OF assms(1), of cls] by (auto simp: orphan_prepares_def clears_def intro!: filter_cong)

lemma orphan_prepares_append_other:
  assumes "v_class r \<noteq> JStr cls"
  shows "orphan_prepares cls (rs @ [r]) = orphan_prepares cls rs"
  using assms by (auto simp: orphan_prepares_def is_phase_def is_terminal_def list_ex_iff intro!: filter_cong)

lemma detect_irreversible_iff:
  "x \<in> or_prepare_ref ` set (detect_orphan_prepares_irreversible rs) \<longleftrightarrow> x \<in> r_h_r ` set (orphan_prepares EXTERNAL_IRREVERSIBLE rs)"
  by (auto simp: detect_orphan_prepares_irreversible_def orphan_of_def orphan.defs image_iff)

end
