(* ===== verification/Finality.thy ===== *)
theory Finality
  imports Ed25519 Legend
begin

text \<open>
  Constitutional finality (\<^verbatim>\<open>ugk/csh.py\<close>): attestations, validator sets, inception certificates, rotation rules,
  equivocation and the quorum rule.

  Main results: what an achieved quorum means, and that any two quorums over one validator set share a validator.
\<close>

subsection \<open>Attestations\<close>

record attestation =
  at_mosaic_root :: string
  at_hash :: string                        \<comment> \<open>\<open>constitutional_hash\<close>\<close>
  at_phase_code :: string
  at_epoch :: int
  at_timestamp :: string
  at_signature :: string
  at_pubkey :: string

definition at_payload :: "attestation \<Rightarrow> bytes" where
  "at_payload a = canonical_json (JObj [(''constitutional_hash'', JStr (at_hash a)), (''epoch'', JInt (at_epoch a)),
     (''mosaic_root'', JStr (at_mosaic_root a)), (''phase_code'', JStr (at_phase_code a)), (''timestamp'', JStr (at_timestamp a))])"

definition at_verify :: "attestation \<Rightarrow> bool" where
  "at_verify a = ed25519_verify (at_payload a) (at_signature a) (at_pubkey a)"

definition sha_id :: "string \<Rightarrow> string" where
  \<comment> \<open>\<open>mosaic_id\<close> with its default algorithm\<close>
  "sha_id pubkey = to_hex (sha256 (utf8 pubkey))"

lemma mosaic_id_sha256: "mosaic_id pubkey ''sha256'' = Inr (sha_id pubkey)"
  by (simp add: mosaic_id_def digest_def sha_id_def)

definition create_attestation :: "string \<Rightarrow> string \<Rightarrow> string \<Rightarrow> string \<Rightarrow> int \<Rightarrow> string \<Rightarrow> (pyexc, attestation) result" where
  "create_attestation privkey pubkey hash phase epoch timestamp =
     (let a = \<lparr>at_mosaic_root = sha_id pubkey, at_hash = hash, at_phase_code = phase, at_epoch = epoch,
               at_timestamp = timestamp, at_signature = [], at_pubkey = pubkey\<rparr> in
      rbind (ed25519_sign (at_payload a) privkey) (\<lambda>sig. Inr (a\<lparr>at_signature := sig\<rparr>)))"

subsection \<open>Validator sets\<close>

record validator_set =
  vs_validators :: "string list"
  vs_n :: int
  vs_sealed_by :: string
  vs_sealed_hash :: string
  vs_seal_signature :: string
  vs_sealer_pubkey :: string

definition seal_payload :: "validator_set \<Rightarrow> bytes" where
  "seal_payload v = canonical_json (JObj [(''n_validators'', JInt (vs_n v)), (''sealed_by'', JStr (vs_sealed_by v)),
     (''validators'', JList (map JStr (vs_validators v)))])"

definition verify_seal :: "validator_set \<Rightarrow> bool" where
  "verify_seal v = ed25519_verify (seal_payload v) (vs_seal_signature v) (vs_sealer_pubkey v)"

definition compute_sealed_hash :: "string list \<Rightarrow> string" where
  "compute_sealed_hash vs = to_hex (sha256 (canonical_json (JObj [(''validators'', JList (map JStr (sort vs)))])))"

definition seal_validator_set :: "string \<Rightarrow> string \<Rightarrow> string list \<Rightarrow> (pyexc, validator_set) result" where
  "seal_validator_set privkey pubkey validators =
     (let vs = sort validators;
          v = \<lparr>vs_validators = vs, vs_n = int (length vs), vs_sealed_by = sha_id pubkey, vs_sealed_hash = compute_sealed_hash vs,
               vs_seal_signature = [], vs_sealer_pubkey = pubkey\<rparr> in
      rbind (ed25519_sign (seal_payload v) privkey) (\<lambda>sig. Inr (v\<lparr>vs_seal_signature := sig\<rparr>)))"

subsection \<open>Inception certificates and rotation\<close>

record certificate =
  ic_type :: string
  ic_phase_code :: string
  ic_constitutional_hash :: string
  ic_mosaic_root :: string
  ic_dimension_id :: string
  ic_n_validators :: int
  ic_validator_set_hash :: string
  ic_sunset_declared :: bool
  ic_timestamp :: string
  ic_signature :: string
  ic_governor_pubkey :: string

definition ic_payload :: "certificate \<Rightarrow> bytes" where
  "ic_payload c = canonical_json (JObj
     [(''constitutional_hash'', JStr (ic_constitutional_hash c)), (''dimension_id'', JStr (ic_dimension_id c)),
      (''ic_type'', JStr (ic_type c)), (''mosaic_root'', JStr (ic_mosaic_root c)), (''n_validators'', JInt (ic_n_validators c)),
      (''phase_code'', JStr (ic_phase_code c)), (''sunset_declared'', JBool (ic_sunset_declared c)),
      (''timestamp'', JStr (ic_timestamp c)), (''validator_set_hash'', JStr (ic_validator_set_hash c))])"

definition ic_verify :: "certificate \<Rightarrow> bool" where
  "ic_verify c = ed25519_verify (ic_payload c) (ic_signature c) (ic_governor_pubkey c)"

definition ic_hash :: "certificate \<Rightarrow> string" where
  "ic_hash c = to_hex (sha256 (ic_payload c))"

record launch_args =
  la_constitutional_hash :: string
  la_dimension_id :: string
  la_phase_code :: string
  la_validator_set_hash :: string
  la_n_validators :: int
  la_timestamp :: string

definition create_launch_ic :: "string \<Rightarrow> string \<Rightarrow> launch_args \<Rightarrow> (pyexc, certificate) result" where
  "create_launch_ic privkey pubkey a =
     (let c = \<lparr>ic_type = ''trusted-genesis'', ic_phase_code = la_phase_code a, ic_constitutional_hash = la_constitutional_hash a,
               ic_mosaic_root = sha_id pubkey, ic_dimension_id = la_dimension_id a, ic_n_validators = la_n_validators a,
               ic_validator_set_hash = la_validator_set_hash a, ic_sunset_declared = True, ic_timestamp = la_timestamp a,
               ic_signature = [], ic_governor_pubkey = pubkey\<rparr> in
      rbind (ed25519_sign (ic_payload c) privkey) (\<lambda>sig. Inr (c\<lparr>ic_signature := sig\<rparr>)))"

record rotation_rule =
  rr_type :: string
  rr_current_holder :: string
  rr_successors :: "string list"
  rr_governed_by :: string
  rr_declared_at :: string

definition declare_rotation_rule :: "string \<Rightarrow> string list \<Rightarrow> string \<Rightarrow> string \<Rightarrow> rotation_rule" where
  "declare_rotation_rule holder successors governing timestamp =
     \<lparr>rr_type = (if length successors > 1 then ''chain'' else ''single_successor''), rr_current_holder = holder,
      rr_successors = successors, rr_governed_by = governing, rr_declared_at = timestamp\<rparr>"

subsection \<open>Equivocation and quorum\<close>

fun add_hash :: "string \<times> int \<Rightarrow> string \<Rightarrow> ((string \<times> int) \<times> string list) list \<Rightarrow> ((string \<times> int) \<times> string list) list" where
  \<comment> \<open>\<^verbatim>\<open>setdefault(key, set()).add(h)\<close>, the set as a list without repetitions\<close>
  "add_hash key h [] = [(key, [h])]"
| "add_hash key h ((l, hs) # rest) = (if l = key then (l, List.insert h hs) # rest else (l, hs) # add_hash key h rest)"

definition by_validator :: "attestation list \<Rightarrow> ((string \<times> int) \<times> string list) list" where
  "by_validator as = foldl (\<lambda>m a. add_hash (at_mosaic_root a, at_epoch a) (at_hash a) m) [] as"

definition detect_equivocation :: "attestation list \<Rightarrow> string list" where
  "detect_equivocation as = sort (remdups (map (fst \<circ> fst) (filter (\<lambda>(k, hs). length hs > 1) (by_validator as))))"

definition quorum_threshold :: "int \<Rightarrow> int" where
  "quorum_threshold n = max 1 ((2 * n + 1 + 2) div 3)"

record mcir =
  mc_hash :: string
  mc_valid :: "attestation list"
  mc_invalid :: "attestation list"
  mc_equivocators :: "string list"
  mc_threshold :: int
  mc_quorum_achieved :: bool
  mc_finality_hash :: string

definition acceptable :: "string list \<Rightarrow> validator_set \<Rightarrow> string \<Rightarrow> attestation \<Rightarrow> bool" where
  \<comment> \<open>the four checks of the loop, in their order\<close>
  "acceptable equivocators v hash a \<longleftrightarrow> at_mosaic_root a \<notin> set equivocators \<and> at_mosaic_root a \<in> set (vs_validators v) \<and>
     at_hash a = hash \<and> at_verify a"

fun tally :: "(attestation \<Rightarrow> bool) \<Rightarrow> string list \<Rightarrow> attestation list \<Rightarrow> attestation list \<times> attestation list" where
  \<comment> \<open>the validators seen so far and the attestations left; the valid and the invalid ones in order\<close>
  "tally ok seen [] = ([], [])"
| "tally ok seen (a # as) =
     (if \<not> ok a then (case tally ok seen as of (valid, invalid) \<Rightarrow> (valid, a # invalid))
      else if at_mosaic_root a \<in> set seen then tally ok seen as
      else (case tally ok (at_mosaic_root a # seen) as of (valid, invalid) \<Rightarrow> (a # valid, invalid)))"

definition achieve_finality :: "attestation list \<Rightarrow> validator_set \<Rightarrow> string \<Rightarrow> mcir" where
  "achieve_finality as v hash =
     (let equivocators = detect_equivocation as;
          (valid, invalid) = tally (acceptable equivocators v hash) [] as;
          threshold = quorum_threshold (vs_n v);
          quorum = int (length valid) \<ge> threshold in
      \<lparr>mc_hash = hash, mc_valid = valid, mc_invalid = invalid, mc_equivocators = equivocators, mc_threshold = threshold,
       mc_quorum_achieved = quorum,
       mc_finality_hash = (if quorum then to_hex (sha256 (canonical_json (JObj [(''signatures'', JList (map JStr (sort (map at_signature valid))))]))) else [])\<rparr>)"

subsection \<open>What the tally counts\<close>

lemma tally_roots:
  "tally ok seen as = (valid, invalid) \<Longrightarrow> at_mosaic_root ` set valid = at_mosaic_root ` {a \<in> set as. ok a} - set seen \<and>
     distinct (map at_mosaic_root valid)"
proof (induction ok seen as arbitrary: valid invalid rule: tally.induct)
  case (2 ok seen a as)
  have ins: "{x \<in> set (a # as). ok x} = (if ok a then insert a {x \<in> set as. ok x} else {x \<in> set as. ok x})" by auto
  show ?case
  proof (cases "ok a \<and> at_mosaic_root a \<notin> set seen")
    case True
    then obtain valid' where v: "tally ok (at_mosaic_root a # seen) as = (valid', invalid)" "valid = a # valid'"
      using 2(4) by (auto split: prod.splits)
    from 2(3) [OF _ _ v(1)] True have "at_mosaic_root ` set valid' = at_mosaic_root ` {x \<in> set as. ok x} - insert (at_mosaic_root a) (set seen)"
      "distinct (map at_mosaic_root valid')" by auto
    then show ?thesis unfolding ins using True v(2) by auto
  next
    case False
    then obtain invalid' where v: "tally ok seen as = (valid, invalid')" using 2(4) by (auto split: prod.splits if_splits)
    then have "at_mosaic_root ` set valid = at_mosaic_root ` {x \<in> set as. ok x} - set seen \<and> distinct (map at_mosaic_root valid)"
      using 2(1,2) False by blast
    then show ?thesis unfolding ins using False by auto
  qed
qed simp

lemma add_hash_entries:
  "map_of (add_hash key h m) k = (if k = key then Some (List.insert h (case map_of m key of None \<Rightarrow> [] | Some hs \<Rightarrow> hs)) else map_of m k)"
  by (induction m) auto

lemma add_hash_keys: "fst ` set (add_hash key h m) = insert key (fst ` set m)"
  by (induction key h m rule: add_hash.induct) auto

lemma add_hash_distinct: "distinct (map fst m) \<Longrightarrow> distinct (map fst (add_hash key h m))"
  by (induction key h m rule: add_hash.induct) (auto simp: add_hash_keys image_iff)

definition at_key :: "attestation \<Rightarrow> string \<times> int" where
  "at_key a = (at_mosaic_root a, at_epoch a)"

lemma by_validator_snoc: "by_validator (as @ [a]) = add_hash (at_key a) (at_hash a) (by_validator as)"
  by (simp add: by_validator_def at_key_def)

lemma by_validator_distinct: "distinct (map fst (by_validator as))"
  by (induction as rule: rev_induct) (simp add: by_validator_def, simp only: by_validator_snoc add_hash_distinct)

lemma by_validator_entry:
  "(case map_of (by_validator as) k of None \<Rightarrow> [] | Some hs \<Rightarrow> hs) = hs \<Longrightarrow> distinct hs \<and> set hs = at_hash ` {a \<in> set as. at_key a = k}"
proof (induction as arbitrary: hs rule: rev_induct)
  case Nil
  then show ?case by (auto simp: by_validator_def)
next
  case (snoc a as)
  have e: "map_of (by_validator (as @ [a])) k = (if k = at_key a then Some (List.insert (at_hash a)
      (case map_of (by_validator as) (at_key a) of None \<Rightarrow> [] | Some hs \<Rightarrow> hs)) else map_of (by_validator as) k)"
    unfolding by_validator_snoc by (rule add_hash_entries)
  show ?case
  proof (cases "k = at_key a")
    case True
    then have "hs = List.insert (at_hash a) (case map_of (by_validator as) k of None \<Rightarrow> [] | Some hs \<Rightarrow> hs)" using snoc.prems e by simp
    then show ?thesis using snoc.IH [OF refl] True by (auto simp: distinct_insert)
  next
    case False
    then show ?thesis using snoc.IH [of hs] snoc.prems e by auto
  qed
qed

definition equivocates :: "attestation list \<Rightarrow> string \<Rightarrow> bool" where
  \<comment> \<open>two attestations of the validator for one epoch and different hashes\<close>
  "equivocates as m \<longleftrightarrow> (\<exists>a\<in>set as. \<exists>b\<in>set as. at_mosaic_root a = m \<and> at_mosaic_root b = m \<and> at_epoch a = at_epoch b \<and> at_hash a \<noteq> at_hash b)"

lemma two_hashes: "length hs > 1 \<longleftrightarrow> (\<exists>x\<in>set hs. \<exists>y\<in>set hs. x \<noteq> y)" if "distinct hs"
proof
  assume "length hs > 1"
  then obtain x y rest where "hs = x # y # rest" by (cases hs; cases "tl hs") auto
  then show "\<exists>x\<in>set hs. \<exists>y\<in>set hs. x \<noteq> y" using that by auto
next
  assume "\<exists>x\<in>set hs. \<exists>y\<in>set hs. x \<noteq> y"
  then show "length hs > 1" by (cases hs; cases "tl hs") auto
qed

lemma detect_equivocation_iff: "m \<in> set (detect_equivocation as) \<longleftrightarrow> equivocates as m"
proof -
  have "m \<in> set (detect_equivocation as) \<longleftrightarrow> (\<exists>e hs. ((m, e), hs) \<in> set (by_validator as) \<and> length hs > 1)"
    by (force simp: detect_equivocation_def image_iff)
  also have "\<dots> \<longleftrightarrow> (\<exists>e hs. map_of (by_validator as) (m, e) = Some hs \<and> length hs > 1)"
    using by_validator_distinct [of as] by (simp add: map_of_eq_Some_iff)
  also have "\<dots> \<longleftrightarrow> (\<exists>e. \<exists>a\<in>set as. \<exists>b\<in>set as. at_key a = (m, e) \<and> at_key b = (m, e) \<and> at_hash a \<noteq> at_hash b)" (is "_ \<longleftrightarrow> (\<exists>e. ?two e)")
  proof -
    have "(\<exists>hs. map_of (by_validator as) (m, e) = Some hs \<and> length hs > 1) \<longleftrightarrow> ?two e" for e
    proof (cases "map_of (by_validator as) (m, e)")
      case None
      then show ?thesis using by_validator_entry [of as "(m, e)" "[]"] by auto
    next
      case (Some hs)
      then have "distinct hs" "set hs = at_hash ` {a \<in> set as. at_key a = (m, e)}" using by_validator_entry [of as "(m, e)" hs] by auto
      with two_hashes [of hs] Some show ?thesis by auto
    qed
    then show ?thesis by blast
  qed
  also have "\<dots> \<longleftrightarrow> equivocates as m"
    unfolding equivocates_def at_key_def prod.inject
    by (intro iffI; elim exE bexE conjE; intro exI bexI conjI) (assumption | simp)+
  finally show ?thesis .
qed

definition attested :: "attestation list \<Rightarrow> validator_set \<Rightarrow> string \<Rightarrow> string set" where
  \<comment> \<open>the validators with a verifying attestation of the hash that have not equivocated\<close>
  "attested as v hash = at_mosaic_root ` {a \<in> set as. at_mosaic_root a \<in> set (vs_validators v) \<and> at_hash a = hash \<and> at_verify a \<and>
     \<not> equivocates as (at_mosaic_root a)}"

lemma attestedD: "m \<in> attested as v hash \<Longrightarrow> \<exists>a\<in>set as. at_mosaic_root a = m \<and> at_hash a = hash \<and> \<not> equivocates as m"
  by (auto simp: attested_def)

lemma finality_count:
  "set (map at_mosaic_root (mc_valid (achieve_finality as v hash))) = attested as v hash \<and>
   distinct (map at_mosaic_root (mc_valid (achieve_finality as v hash)))"
proof -
  obtain valid invalid where t: "tally (acceptable (detect_equivocation as) v hash) [] as = (valid, invalid)" by force
  have "mc_valid (achieve_finality as v hash) = valid" using t by (simp add: achieve_finality_def Let_def)
  then show ?thesis using tally_roots [OF t]
    by (simp add: attested_def acceptable_def detect_equivocation_iff conj_ac)
qed

lemma quorum_iff: "mc_quorum_achieved (achieve_finality as v hash) \<longleftrightarrow> int (card (attested as v hash)) \<ge> quorum_threshold (vs_n v)"
proof -
  note c = finality_count [of as v hash]
  have "card (attested as v hash) = length (mc_valid (achieve_finality as v hash))"
    using distinct_card [OF conjunct2 [OF c]] conjunct1 [OF c] by simp
  then show ?thesis by (simp add: achieve_finality_def Let_def split: prod.splits)
qed

text \<open>C25. The quorum decision, for every list of attestations in every order: it is achieved exactly when
  the number of distinct sealed validators that have a verifying attestation of this very hash and have not signed two
  hashes for one epoch reaches \<open>\<lceil>(2N+1)/3\<rceil>\<close> (at least one); the attestations it keeps are one per such validator, and
  the equivocators it reports are exactly those.\<close>

theorem finality_exact:
  "(mc_quorum_achieved (achieve_finality as v hash) \<longleftrightarrow> int (card (attested as v hash)) \<ge> quorum_threshold (vs_n v)) \<and>
   set (map at_mosaic_root (mc_valid (achieve_finality as v hash))) = attested as v hash \<and>
   distinct (map at_mosaic_root (mc_valid (achieve_finality as v hash))) \<and>
   set (mc_equivocators (achieve_finality as v hash)) = {m. equivocates as m}"
  using quorum_iff finality_count detect_equivocation_iff
  by (auto simp: achieve_finality_def Let_def split: prod.splits)

lemma attested_sub: "attested as v hash \<subseteq> set (vs_validators v)"
  by (auto simp: attested_def)

text \<open>C26. Quorum intersection, the reason for the two-thirds rule: over one sealed validator set whose declared
  size \<open>N\<close> is the number of its members, two achieved quorums, for whatever hashes and over whatever attestations, share at least
  \<open>(N + 2) div 3\<close> validators that attested both, hence at least one and more than a third of them all.\<close>

theorem finality_intersects:
  "(if mc_quorum_achieved (achieve_finality as1 (v\<lparr>vs_n := int (card (set (vs_validators v)))\<rparr>) h1) \<and>
       mc_quorum_achieved (achieve_finality as2 (v\<lparr>vs_n := int (card (set (vs_validators v)))\<rparr>) h2)
    then (card (set (vs_validators v)) + 2) div 3 else 0) \<le> card (attested as1 v h1 \<inter> attested as2 v h2)"
proof -
  let ?v = "v\<lparr>vs_n := int (card (set (vs_validators v)))\<rparr>"
  let ?A = "attested as1 v h1" and ?B = "attested as2 v h2" and ?V = "set (vs_validators v)"
  have same: "attested as ?v h = attested as v h" for as h by (simp add: attested_def)
  have fin: "finite ?A" "finite ?B" by (rule finite_subset [OF attested_sub finite_set])+
  have "card (?A \<union> ?B) \<le> card ?V" using attested_sub by (intro card_mono) auto
  moreover have "card (?A \<union> ?B) + card (?A \<inter> ?B) = card ?A + card ?B" using card_Un_Int [OF fin] by simp
  moreover have "int (card ?V) + (int (card ?V) + 2) div 3 \<le> 2 * quorum_threshold (int (card ?V))" by (simp add: quorum_threshold_def)
  ultimately show ?thesis by (simp add: quorum_iff same) linarith
qed

lemma one_final_hash:
  \<comment> \<open>on one list of attestations for one epoch two different hashes are never both final\<close>
  assumes "vs_n v = int (card (set (vs_validators v)))" "mc_quorum_achieved (achieve_finality as v h1)" "mc_quorum_achieved (achieve_finality as v h2)"
    "\<forall>a\<in>set as. at_epoch a = e"
  shows "h1 = h2"
proof -
  let ?A = "attested as v h1" and ?B = "attested as v h2"
  have fin: "finite ?A" "finite ?B" by (rule finite_subset [OF attested_sub finite_set])+
  have "card (?A \<union> ?B) \<le> card (set (vs_validators v))" using attested_sub by (intro card_mono) auto
  moreover have "card (?A \<union> ?B) + card (?A \<inter> ?B) = card ?A + card ?B" using card_Un_Int [OF fin] by simp
  moreover have "int (card ?A) + int (card ?B) > int (card (set (vs_validators v)))"
    using assms(1-3) by (simp add: quorum_iff quorum_threshold_def)
  ultimately have "card (?A \<inter> ?B) > 0" by linarith
  then obtain m where m: "m \<in> ?A" "m \<in> ?B" by (metis Int_iff card_gt_0_iff ex_in_conv)
  obtain a b where a: "a \<in> set as" "at_mosaic_root a = m" "at_hash a = h1" "\<not> equivocates as m"
    and b: "b \<in> set as" "at_mosaic_root b = m" "at_hash b = h2" using attestedD [OF m(1)] attestedD [OF m(2)] by blast
  then have "at_epoch a = at_epoch b" using assms(4) by simp
  then show ?thesis using a b unfolding equivocates_def by blast
qed

end
