(* ===== verification/Kernel.thy ===== *)
theory Kernel
  imports Store Will Warrants Governance Trails Finality
begin

text \<open>
  The governance kernel (\<^verbatim>\<open>ugk/kernel.py\<close>, class \<open>GovernanceKernel\<close>): \<open>execute\<close> with its refusal horizon and
  its four outcome paths, the trails of external effects with bounded terminal retry, reconciliation,
  compensation, and the continuation lifecycle.

  Gates and effects are caller code: arbitrary programs over the kernel state, so that they may use the store and
  the kernel themselves. An exception of caller code is any exception of the model; exceptions outside
  \<^verbatim>\<open>Exception\<close> (such as \<^verbatim>\<open>KeyboardInterrupt\<close>) are not modelled. The Governor's public key, the phase code, the
  declared operations and the text of the current time are fields of the state. \<open>warrant_basis\<close> is classified
  by what the preflight can see of it.
\<close>

subsection \<open>Session summaries\<close>

record session_summary =
  sm_hash :: string
  sm_session_dkn :: string
  sm_receipt_count :: nat
  sm_warrant_count :: nat
  sm_refusal_count :: nat
  sm_admitted_count :: int
  sm_final_stream_hash :: string
  sm_law_hash :: string
  sm_legend_hash :: string
  sm_phase_code :: string
  sm_timestamp :: string

definition summary_body :: "session_summary \<Rightarrow> json" where
  "summary_body m = JObj
     [(''admitted_count'', JInt (sm_admitted_count m)), (''final_stream_hash'', JStr (sm_final_stream_hash m)),
      (''law_hash'', JStr (sm_law_hash m)), (''legend_hash'', JStr (sm_legend_hash m)), (''phase_code'', JStr (sm_phase_code m)),
      (''receipt_count'', JInt (int (sm_receipt_count m))), (''refusal_count'', JInt (int (sm_refusal_count m))),
      (''session_dkn'', JStr (sm_session_dkn m)), (''timestamp'', JStr (sm_timestamp m)),
      (''warrant_count'', JInt (int (sm_warrant_count m)))]"

definition summary_digest :: "session_summary \<Rightarrow> string" where
  "summary_digest m = to_hex (sha256 (canonical_json (summary_body m)))"

definition summary_create :: "string \<Rightarrow> session_summary \<Rightarrow> session_summary" where
  \<comment> \<open>the keyword arguments are the fields of the record, an empty time stamp means now\<close>
  "summary_create now args =
     (let m = args\<lparr>sm_timestamp := (if sm_timestamp args = [] then now else sm_timestamp args)\<rparr> in m\<lparr>sm_hash := summary_digest m\<rparr>)"

definition summary_verify_hash :: "session_summary \<Rightarrow> bool" where
  "summary_verify_hash m \<longleftrightarrow> summary_digest m = sm_hash m"

definition is_consistent_with :: "session_summary \<Rightarrow> store \<Rightarrow> warrant_db conn option \<Rightarrow> bool" where
  "is_consistent_with m s w \<longleftrightarrow> receipt_count s = sm_receipt_count m \<and> refusal_count s = sm_refusal_count m \<and>
     stream_hash s = sm_final_stream_hash m \<and> (case w of None \<Rightarrow> True | Some c \<Rightarrow> warrant_count c = sm_warrant_count m)"

subsection \<open>State\<close>

record genesis =
  \<comment> \<open>the files of the genesis directory, parsed, and what the process reads beside them\<close>
  gn_seal :: "json option"
  gn_privkey :: "string option"
  gn_pubkey :: "string option"
  gn_validator_set :: "validator_set option"
  gn_launch_ic :: "certificate option"
  gn_law_text :: bytes
  gn_manifest_hash :: string

record kernel =
  k_store :: store
  k_authority :: string
  k_active :: bool                          \<comment> \<open>status ACTIVE\<close>
  k_law_hash :: string
  k_session :: "session_identity option"
  k_session_dkn :: string
  k_session_open_count :: nat
  k_refused :: "(string \<times> nat) list"        \<comment> \<open>refusals by layer\<close>
  k_mosaic_root :: string
  k_require_governor_sig :: bool
  k_legend_hash :: string
  k_warrants :: "warrant_db conn option"
  k_will :: "intent_db conn option"
  k_require_intent :: bool
  k_require_scoped_intent :: bool
  k_scope_id :: string
  k_model :: "authority_model option"
  k_manifest_hash :: string
  k_op_csil :: "(string \<times> int) list"
  k_dcap_policy :: "policy_entry list option"
  k_pubkey :: string
  k_phase_code :: string
  k_ops :: "string list"                    \<comment> \<open>\<open>GOVERNANCE_OPS\<close>\<close>
  k_dimension_id :: string
  k_last_summary :: "session_summary option"
  k_launch_ic :: "certificate option"
  k_validator_set :: "validator_set option"
  k_finality_hash :: string
  k_quorum_achieved :: bool
  k_rotation_rule :: "rotation_rule option"
  k_genesis :: genesis
  k_now :: string                           \<comment> \<open>\<^verbatim>\<open>time.strftime\<close> of the current time\<close>

definition kstore :: "(store, 'a) prog \<Rightarrow> (kernel, 'a) prog" where
  "kstore m k = (case m (k_store k) of (r, s) \<Rightarrow> (r, k\<lparr>k_store := s\<rparr>))"

definition kwrite :: "(kernel \<Rightarrow> write_args) \<Rightarrow> (kernel, receipt) prog" where
  "kwrite f k = kstore (store_write (f k)) k"

definition kernel_args :: "string \<Rightarrow> string \<Rightarrow> json \<Rightarrow> bool \<Rightarrow> string \<Rightarrow> string \<Rightarrow> kernel \<Rightarrow> write_args" where
  \<comment> \<open>operation, authority, parameters, failed, intent, jurisdiction; session and law from the kernel\<close>
  "kernel_args opn authority params failed intent jurisdiction k =
     (default_write opn authority params)\<lparr>wa_failed := failed, wa_intent := Some intent, wa_jurisdiction := jurisdiction,
        wa_session_dkn := k_session_dkn k, wa_law_hash := k_law_hash k\<rparr>"

definition framed_args :: "string \<Rightarrow> string \<Rightarrow> json \<Rightarrow> bool \<Rightarrow> string \<Rightarrow> string \<Rightarrow> kernel \<Rightarrow> write_args" where
  \<comment> \<open>with the legend hash as well\<close>
  "framed_args opn authority params failed intent jurisdiction k =
     (kernel_args opn authority params failed intent jurisdiction k)\<lparr>wa_legend_hash := k_legend_hash k\<rparr>"

definition count_refusal :: "string \<Rightarrow> kernel \<Rightarrow> kernel" where
  "count_refusal layer k =
     (case map_of (k_refused k) layer of
        None \<Rightarrow> k
      | Some n \<Rightarrow> k\<lparr>k_refused := dict_set layer (n + 1) (k_refused k)\<rparr>)"

subsection \<open>Effect classes\<close>

datatype effect_atomicity = PURE | STORE_LOCAL | REVERSIBLE | IRREVERSIBLE | NON_ATOMIC

definition atomicity_value :: "effect_atomicity \<Rightarrow> string" where
  "atomicity_value c = (case c of PURE \<Rightarrow> ''pure'' | STORE_LOCAL \<Rightarrow> ''store_local'' | REVERSIBLE \<Rightarrow> EXTERNAL_REVERSIBLE
     | IRREVERSIBLE \<Rightarrow> EXTERNAL_IRREVERSIBLE | NON_ATOMIC \<Rightarrow> ''non_atomic'')"

definition is_retryable_terminal_write_error :: "exc \<Rightarrow> bool" where
  "is_retryable_terminal_write_error e \<longleftrightarrow> e = OperationalError Locked \<or> e = TransactionCommitError"

fun has_float :: "json \<Rightarrow> bool" where
  "has_float (JFloat f) = True"
| "has_float (JObj kvs) = list_ex (\<lambda>(k, v). has_float v) kvs"
| "has_float (JList vs) = list_ex has_float vs"
| "has_float _ = False"

subsection \<open>Arguments and preflight\<close>

datatype basis_arg = Not_a_list | Unsortable | Basis "int list"

record 'a exec_args =
  xa_op :: string
  xa_authority :: "pyval option"
  xa_parameters :: "pyval option"
  xa_gate :: "(kernel, bool) prog option"
  xa_effect :: "(kernel, 'a) prog option"
  xa_atomicity :: "effect_atomicity option"
  xa_idempotency_key :: "pyval option"
  xa_gate_margin :: "pyfloat option"
  xa_layer :: string
  xa_jurisdiction :: string
  xa_governor_sig :: "string option"
  xa_warrant_basis :: "basis_arg option"
  xa_intent_ref :: string                   \<comment> \<open>empty for \<^verbatim>\<open>None\<close>\<close>
  xa_authority_set :: "pyval option"
  xa_capability_verdicts :: "(string \<times> string) list"
  xa_required_locality :: "string option"

definition text_arg :: "pyval option \<Rightarrow> string option" where
  \<comment> \<open>a non-empty string\<close>
  "text_arg v = (case v of Some (PStr (c # cs)) \<Rightarrow> Some (c # cs) | _ \<Rightarrow> None)"

fun sequence_items :: "pyval \<Rightarrow> pyval list option" where
  "sequence_items (PList vs) = Some vs"
| "sequence_items (PTuple vs) = Some vs"
| "sequence_items _ = None"

record request =
  \<comment> \<open>the arguments after the preflight\<close>
  rq_authority :: string
  rq_parameters :: json
  rq_basis :: "int list option"
  rq_authority_set :: "json list option"

definition preflight :: "kernel \<Rightarrow> 'a exec_args \<Rightarrow> (exc, request) result" where
  "preflight k x =
     (let bad = ProtocolError (xa_op x) in
      rbind (case xa_authority x of
               None \<Rightarrow> Inr (k_authority k)
             | v \<Rightarrow> (case text_arg v of Some a \<Rightarrow> Inr a | None \<Rightarrow> Inl bad)) (\<lambda>authority.
      rbind (case xa_parameters x of
               None \<Rightarrow> Inr (JObj [])
             | Some p \<Rightarrow> if \<not> py_is_dict p then Inl bad else (case to_json p of Inl _ \<Rightarrow> Inl bad | Inr j \<Rightarrow> Inr j)) (\<lambda>params.
      rbind (rguard (\<not> has_float params) bad) (\<lambda>_.
      rbind (case xa_warrant_basis x of
               None \<Rightarrow> Inr None | Some (Basis b) \<Rightarrow> Inr (Some b) | Some _ \<Rightarrow> Inl bad) (\<lambda>basis.
      rbind (case xa_authority_set x of
               None \<Rightarrow> Inr None
             | Some v \<Rightarrow> (case Option.bind (sequence_items v) (\<lambda>vs. case to_json_list vs of Inl _ \<Rightarrow> None | Inr js \<Rightarrow> Some js) of
                 None \<Rightarrow> Inl bad | Some js \<Rightarrow> Inr (Some js))) (\<lambda>aset.
      rbind (case xa_effect x of
               None \<Rightarrow> Inr ()
             | Some _ \<Rightarrow> (case xa_atomicity x of
                 None \<Rightarrow> Inl bad
               | Some c \<Rightarrow> if c \<in> {REVERSIBLE, IRREVERSIBLE} \<and> text_arg (xa_idempotency_key x) = None then Inl bad else Inr ())) (\<lambda>_.
      Inr \<lparr>rq_authority = authority, rq_parameters = params, rq_basis = basis, rq_authority_set = aset\<rparr>)))))))"

subsection \<open>The refusal horizon\<close>

definition emit_protocol_error :: "string \<Rightarrow> string \<Rightarrow> string \<Rightarrow> (kernel, unit) prog" where
  "emit_protocol_error opn reason authority = sswallow (sthen
     (kwrite (\<lambda>k. kernel_args ''protocol_error'' (if authority = [] then k_authority k else authority)
        (JObj [(''op'', JStr opn), (''reason'', JStr reason)]) True ''protocol_error'' ''kernel'' k))
     (sret ()))"

definition reject :: "string \<Rightarrow> string \<Rightarrow> string \<Rightarrow> exc \<Rightarrow> (kernel, 'a) prog" where
  "reject opn reason authority e = sthen (emit_protocol_error opn reason authority) (sraise e)"

definition universal_op :: "string \<Rightarrow> bool" where
  "universal_op opn \<longleftrightarrow> opn \<in> set UNIVERSAL_OPS"

definition kernel_op :: "string \<Rightarrow> bool" where
  "kernel_op opn \<longleftrightarrow> opn \<in> set KERNEL_OPS"

definition governor_check :: "'a exec_args \<Rightarrow> request \<Rightarrow> (kernel, unit) prog" where
  "governor_check x q =
     sbind (sget id) (\<lambda>k.
       if k_require_governor_sig k \<and> \<not> universal_op (xa_op x) \<and> k_active k then
         (case xa_governor_sig x of
            None \<Rightarrow> reject (xa_op x) ''governor_sig'' (rq_authority q) (GovernorSignatureRequired (xa_op x))
          | Some sig \<Rightarrow>
              if verify_governor (k_pubkey k)
                   (canonical_json (JObj [(''op'', JStr (xa_op x)), (''parameters'', rq_parameters q)])) sig
              then sret ()
              else reject (xa_op x) ''governor_sig'' (rq_authority q) (GovernorSignatureRequired (xa_op x)))
       else sret ())"

definition model_of :: "kernel \<Rightarrow> string \<Rightarrow> authority_model option" where
  \<comment> \<open>the posture that binds the operation\<close>
  "model_of k opn = (if kernel_op opn \<or> universal_op opn then None else k_model k)"

definition posture_check :: "'a exec_args \<Rightarrow> request \<Rightarrow> (kernel, unit) prog" where
  "posture_check x q =
     sbind (sget id) (\<lambda>k.
       case model_of k (xa_op x) of
         None \<Rightarrow> sret ()
       | Some m \<Rightarrow>
           if am_require_gate m \<and> xa_gate x = None then
             reject (xa_op x) ''require_gate'' (rq_authority q)
               (KernelInternalOp (''require_gate=True: '' @ repr_str (xa_op x) @ '' needs a gate ['' @ am_model_id m @ '']''))
           else if am_require_warrant m \<and> (rq_basis q = None \<or> rq_basis q = Some []) then
             reject (xa_op x) ''require_warrant'' (rq_authority q)
               (KernelInternalOp (''require_warrant=True: '' @ repr_str (xa_op x) @ '' needs warrant_basis ['' @ am_model_id m @ '']''))
           else sret ())"

definition jurisdiction_check :: "'a exec_args \<Rightarrow> request \<Rightarrow> (kernel, unit) prog" where
  \<comment> \<open>steps 1 to 3\<close>
  "jurisdiction_check x q =
     sbind (sget id) (\<lambda>k.
       if kernel_op (xa_op x) then reject (xa_op x) ''kernel_internal'' (rq_authority q) (KernelInternalOp (xa_op x))
       else if \<not> universal_op (xa_op x) \<and> \<not> k_active k then
         reject (xa_op x) ''not_founded'' (rq_authority q) (GovernanceNotFounded (xa_op x))
       else sthen (governor_check x q)
         (if xa_op x \<notin> set (k_ops k) then reject (xa_op x) ''undeclared'' (rq_authority q) (UndeclaredOp (xa_op x))
          else posture_check x q))"

definition refusal_warrant :: "request \<Rightarrow> (kernel, unit) prog" where
  "refusal_warrant q k =
     (case (rq_basis q, k_warrants k) of
        (Some basis, Some c) \<Rightarrow>
          (case warrant_write (create_refusal_warrant (k_now k) (sort basis) (k_law_hash k) (k_legend_hash k)) c of
             (_, c') \<Rightarrow> (Inr (), k\<lparr>k_warrants := Some c'\<rparr>))
      | _ \<Rightarrow> (Inr (), k))"

definition refuse :: "'a exec_args \<Rightarrow> request \<Rightarrow> (string \<times> json) list \<Rightarrow> string \<Rightarrow> bool \<Rightarrow> (kernel, 'b) prog" where
  \<comment> \<open>a \<open>gate_refuse\<close> receipt, the layer count, optionally the refusal warrant, then \<open>GateRefusal\<close>\<close>
  "refuse x q extra reason warrant =
     sthen (kwrite (kernel_args ''gate_refuse'' (rq_authority q)
        (JObj ([(''op'', JStr (xa_op x)), (''parameters'', rq_parameters q)] @ extra)) True ''gate_refuse'' ''kernel''))
     (sthen (smodify (count_refusal (xa_layer x)))
     (sthen (swhen warrant (refusal_warrant q)) (sraise (GateRefusal (xa_op x) reason))))"

definition gate_check :: "'a exec_args \<Rightarrow> request \<Rightarrow> (kernel, unit) prog" where
  \<comment> \<open>step 4\<close>
  "gate_check x q =
     (case xa_gate x of
        None \<Rightarrow> sret ()
      | Some gate \<Rightarrow>
          sbind (scatch (sbind gate (\<lambda>b. sret (Some b))) (\<lambda>_. sret None)) (\<lambda>r. case r of
            None \<Rightarrow> reject (xa_op x) ''gate_exception'' (rq_authority q) (ProtocolError (xa_op x))
          | Some admitted \<Rightarrow> if admitted then sret () else refuse x q [] ''gate returned False'' True))"

definition capability_check :: "'a exec_args \<Rightarrow> request \<Rightarrow> (kernel, unit) prog" where
  \<comment> \<open>step 4a\<close>
  "capability_check x q =
     sbind (sget (\<lambda>k. case k_dcap_policy k of None \<Rightarrow> CAPABILITY_SUFFICIENCY_POLICY | Some p \<Rightarrow> p)) (\<lambda>policy.
       case find_enforced_entry policy (xa_jurisdiction x) (xa_op x) of
         None \<Rightarrow> sret ()
       | Some e \<Rightarrow>
           (case enforce_decision (xa_jurisdiction x) (xa_op x) (map_of (xa_capability_verdicts x) (pe_capability_class e)) policy of
              (refused, cause) \<Rightarrow>
                if refused then refuse x q
                  [(''refusal_cause'', JStr cause), (''capability_class'', JStr (pe_capability_class e)),
                   (''enforced_jurisdiction'', JStr (xa_jurisdiction x)), (''refusal_axis'', JStr ''authority''),
                   (''refusal_reason'', JStr ''authority_missing'')] ''authority_missing'' False
                else sret ()))"

definition locality_check :: "'a exec_args \<Rightarrow> request \<Rightarrow> (kernel, unit) prog" where
  \<comment> \<open>step 4c\<close>
  "locality_check x q =
     (case xa_required_locality x of
        None \<Rightarrow> sret ()
      | Some l \<Rightarrow>
          if xa_jurisdiction x \<noteq> l then refuse x q
            [(''required_locality'', JStr l), (''supplied_jurisdiction'', JStr (xa_jurisdiction x)),
             (''refusal_axis'', JStr ''locality''), (''refusal_reason'', JStr ''locality_required'')] ''locality_required'' False
          else sret ())"

definition refuse_intent :: "string \<Rightarrow> string \<Rightarrow> (kernel, 'a) prog" where
  "refuse_intent opn reason =
     sthen (kwrite (\<lambda>k. framed_args ''gate_refuse'' (k_authority k)
        (JObj [(''op'', JStr opn), (''reason'', JStr reason), (''refusal_axis'', JStr ''intent''),
               (''refusal_reason'', JStr ''intent_required_missing'')]) True ''conform'' ''kernel'' k))
     (sraise (GateRefusal opn ''intent_required_missing''))"

definition active_intents :: "kernel \<Rightarrow> intent_db conn \<Rightarrow> intent_declaration list" where
  "active_intents k c =
     (let ds = active_declarations c (k_session_dkn k) in
      if k_require_scoped_intent k then filter (\<lambda>d. id_scope_ref d \<noteq> []) ds else ds)"

definition will_check :: "'a exec_args \<Rightarrow> (kernel, string) prog" where
  \<comment> \<open>step 4b: the intent reference of the receipts\<close>
  "will_check x =
     sbind (sget id) (\<lambda>k.
       case k_will k of
         None \<Rightarrow> sret (xa_intent_ref x)
       | Some c \<Rightarrow>
           if kernel_op (xa_op x) \<or> universal_op (xa_op x) then sret (xa_intent_ref x)
           else if xa_intent_ref x \<noteq> [] then
             (if (\<exists>d. get_intent c (xa_intent_ref x) = Some d \<and> covers_op d (xa_op x)) \<or> \<not> k_require_intent k
              then sret (xa_intent_ref x)
              else refuse_intent (xa_op x) ''WL-002 intent_ref unresolvable'')
           else (case covers (xa_op x) (active_intents k c) [] None of
               Covered h \<Rightarrow> sret h
             | Outside code \<Rightarrow> if k_require_intent k then refuse_intent (xa_op x) code else sret []))"

subsection \<open>Admission\<close>

definition class_cols :: "'a exec_args \<Rightarrow> effect_cols option" where
  "class_cols x =
     (if xa_effect x \<noteq> None then map_option (\<lambda>c. no_effect\<lparr>ec_atomicity := Some (atomicity_value c)\<rparr>) (xa_atomicity x) else None)"

definition admit :: "'a exec_args \<Rightarrow> request \<Rightarrow> (kernel, string) prog" where
  \<comment> \<open>step 5: the root of the \<open>gate_admit\<close> receipt\<close>
  "admit x q =
     sbind (kwrite (\<lambda>k. (framed_args ''gate_admit'' (rq_authority q)
        (JObj ([(''op'', JStr (xa_op x)), (''parameters'', rq_parameters q)] @
           (case xa_gate_margin x of None \<Rightarrow> [] | Some m \<Rightarrow> [(''gate_margin'', JFloat m)])))
        False ''gate_admit'' ''kernel'' k)\<lparr>wa_effect_columns := class_cols x\<rparr>)) (\<lambda>r. sret (r_h_r r))"

definition write_warrant :: "int list \<Rightarrow> bool \<Rightarrow> (kernel, string) prog" where
  \<comment> \<open>the body of the \<^verbatim>\<open>try\<close>\<close>
  "write_warrant basis required k =
     (let w = warrant_create (k_now k) (default_warrant (sort basis) (k_law_hash k) (k_legend_hash k)) in
      case k_warrants k of
        None \<Rightarrow> (if required then Inl RuntimeError else Inr [], k)
      | Some c \<Rightarrow>
          (case warrant_write w c of
             (Inl e, c') \<Rightarrow> (Inl e, k\<lparr>k_warrants := Some c'\<rparr>)
           | (Inr written, c') \<Rightarrow>
               (if written \<noteq> wt_hash w \<or> warrant_get c' (wt_hash w) = None then Inl RuntimeError else Inr (wt_hash w),
                k\<lparr>k_warrants := Some c'\<rparr>)))"

definition materialize_warrant :: "'a exec_args \<Rightarrow> request \<Rightarrow> (kernel, string) prog" where
  "materialize_warrant x q =
     (case rq_basis q of
        None \<Rightarrow> sret []
      | Some basis \<Rightarrow>
          sbind (sget (\<lambda>k. case model_of k (xa_op x) of None \<Rightarrow> False | Some m \<Rightarrow> am_require_warrant m)) (\<lambda>required.
          scatch (write_warrant basis required)
            (\<lambda>_. if required then sraise (KernelInternalOp (xa_op x)) else sret [])))"

definition outcome_params :: "'a exec_args \<Rightarrow> request \<Rightarrow> kernel \<Rightarrow> json" where
  "outcome_params x q k =
     (let p = obj_fields (rq_parameters q);
          p1 = (case rq_authority_set q of Some (j # js) \<Rightarrow> dict_set ''authority_set'' (JList (j # js)) p | _ \<Rightarrow> p);
          csil = (case map_of (k_op_csil k) (xa_op x) of None \<Rightarrow> 0 | Some n \<Rightarrow> n) in
      JObj (if csil \<noteq> 0 then dict_set ''op_csil'' (JInt csil) p1 else p1))"

subsection \<open>Receipts of effects\<close>

record phase_args =
  ph_op :: string
  ph_authority :: string
  ph_params :: json
  ph_phase :: string
  ph_key :: "string option"
  ph_jurisdiction :: string
  ph_intent_ref :: string
  ph_warrant_id :: string
  ph_failed :: bool
  ph_prepare_ref :: "string option"
  ph_gate_admit_ref :: "string option"
  ph_abort_reason :: "string option"
  ph_compensate_ref :: "string option"
  ph_compensation_key :: "string option"

definition phase_cols :: "string \<Rightarrow> phase_args \<Rightarrow> effect_cols" where
  "phase_cols cls p = \<lparr>ec_atomicity = Some cls, ec_model_id = None, ec_phase = Some (ph_phase p), ec_prepare_ref = ph_prepare_ref p,
     ec_compensate_ref = ph_compensate_ref p, ec_idempotency_key = ph_key p,
     ec_compensation_idempotency_key = ph_compensation_key p, ec_abort_reason = ph_abort_reason p,
     ec_gate_admit_ref = ph_gate_admit_ref p\<rparr>"

definition outcome_args :: "phase_args \<Rightarrow> effect_cols option \<Rightarrow> kernel \<Rightarrow> write_args" where
  "outcome_args p cols k =
     (framed_args (ph_op p) (ph_authority p) (ph_params p) (ph_failed p) (ph_op p) (ph_jurisdiction p) k)
       \<lparr>wa_warrant_id := ph_warrant_id p, wa_intent_ref := ph_intent_ref p, wa_effect_columns := cols\<rparr>"

definition emit_irreversible :: "phase_args \<Rightarrow> (kernel, receipt) prog" where
  "emit_irreversible p = kwrite (outcome_args p (Some ((phase_cols EXTERNAL_IRREVERSIBLE p)
     \<lparr>ec_compensate_ref := None, ec_compensation_idempotency_key := None\<rparr>)))"

definition emit_reversible :: "phase_args \<Rightarrow> (kernel, receipt) prog" where
  "emit_reversible p = kwrite (outcome_args p (Some (phase_cols EXTERNAL_REVERSIBLE p)))"

definition MAX_OUTCOME_WRITE_ATTEMPTS :: nat where
  "MAX_OUTCOME_WRITE_ATTEMPTS = 3"

fun attempt_write :: "nat \<Rightarrow> exc \<Rightarrow> (kernel, 'a) prog \<Rightarrow> (kernel, 'a) prog" where
  \<comment> \<open>what is left of the attempts, and the exception of exhaustion\<close>
  "attempt_write 0 exhausted m = sraise exhausted"
| "attempt_write (Suc n) exhausted m =
     scatch m (\<lambda>e. if is_retryable_terminal_write_error e then attempt_write n exhausted m else sraise e)"

definition emit_terminal_durable :: "phase_args \<Rightarrow> (kernel, receipt) prog" where
  "emit_terminal_durable p =
     attempt_write MAX_OUTCOME_WRITE_ATTEMPTS (TerminalWriteExhausted (ph_phase p)) (emit_irreversible p)"

definition emit_reversible_terminal_durable :: "phase_args \<Rightarrow> (kernel, receipt) prog" where
  "emit_reversible_terminal_durable p =
     attempt_write MAX_OUTCOME_WRITE_ATTEMPTS (TerminalWriteExhausted (ph_phase p)) (emit_reversible p)"

definition outcome_phase :: "'a exec_args \<Rightarrow> request \<Rightarrow> json \<Rightarrow> string \<Rightarrow> string \<Rightarrow> phase_args" where
  \<comment> \<open>the arguments common to the receipts after the admission\<close>
  "outcome_phase x q params intent_ref warrant_id =
     \<lparr>ph_op = xa_op x, ph_authority = rq_authority q, ph_params = params, ph_phase = [], ph_key = text_arg (xa_idempotency_key x),
      ph_jurisdiction = xa_jurisdiction x, ph_intent_ref = intent_ref, ph_warrant_id = warrant_id, ph_failed = False,
      ph_prepare_ref = None, ph_gate_admit_ref = None, ph_abort_reason = None, ph_compensate_ref = None,
      ph_compensation_key = None\<rparr>"

definition run_external ::
    "(phase_args \<Rightarrow> (kernel, receipt) prog) \<Rightarrow> (phase_args \<Rightarrow> (kernel, receipt) prog) \<Rightarrow> (kernel, 'a) prog \<Rightarrow>
     string \<Rightarrow> phase_args \<Rightarrow> (kernel, 'a) prog" where
  \<comment> \<open>the common shape of the two trails: PREPARE, effect, terminal\<close>
  "run_external emit terminal eff admit_ref p =
     sbind (emit (p\<lparr>ph_phase := ''prepare'', ph_gate_admit_ref := Some admit_ref\<rparr>)) (\<lambda>prep.
     let ref = Some (r_h_r prep) in
     sbind (scatch eff (\<lambda>e.
         if e = ExternalEffectNotPerformed then
           sthen (terminal (p\<lparr>ph_phase := ''abort'', ph_failed := True, ph_prepare_ref := ref,
             ph_abort_reason := Some ''external_effect_not_performed''\<rparr>)) (sraise e)
         else sraise e)) (\<lambda>result.
     sthen (terminal (p\<lparr>ph_phase := ''commit'', ph_prepare_ref := ref\<rparr>)) (sret result)))"

definition execute_external_irreversible :: "(kernel, 'a) prog \<Rightarrow> string \<Rightarrow> phase_args \<Rightarrow> (kernel, 'a) prog" where
  "execute_external_irreversible = run_external emit_irreversible emit_terminal_durable"

definition execute_external_reversible :: "(kernel, 'a) prog \<Rightarrow> string \<Rightarrow> phase_args \<Rightarrow> (kernel, 'a) prog" where
  "execute_external_reversible = run_external emit_reversible emit_reversible_terminal_durable"

subsection \<open>The seam\<close>

definition ktransaction :: "(kernel \<Rightarrow> (bool \<times> exc, 'a) result \<times> kernel) \<Rightarrow> kernel \<Rightarrow> (bool \<times> exc, 'a) result \<times> kernel" where
  \<comment> \<open>\<^verbatim>\<open>with self._store.transaction()\<close> around a block over the kernel; the flag of an error says whether the block
     had reached its success receipt\<close>
  "ktransaction body k =
     (case on_conn mt_init (k_store k) of
        (Inl e, s) \<Rightarrow> (Inl (False, e), k\<lparr>k_store := s\<rparr>)
      | (Inr n, s) \<Rightarrow>
          (case on_conn (mt_enter valid_result n) s of
             (Inl e, s1) \<Rightarrow> (Inl (False, e), k\<lparr>k_store := s1\<rparr>)
           | (Inr _, s1) \<Rightarrow>
               (case body (k\<lparr>k_store := depth_in s1\<rparr>) of
                  (Inl (late, e), k2) \<Rightarrow>
                    (case close_failed (k_store k) n e (k_store k2) of
                       (Inl e', s') \<Rightarrow> (Inl (late, e'), k2\<lparr>k_store := s'\<rparr>)
                     | (Inr y, s') \<Rightarrow> (Inr y, k2\<lparr>k_store := s'\<rparr>))
                | (Inr x, k2) \<Rightarrow>
                    (case close_clean (k_store k) n x (k_store k2) of
                       (Inl e', s') \<Rightarrow> (Inl (True, e'), k2\<lparr>k_store := s'\<rparr>)
                     | (Inr y, s') \<Rightarrow> (Inr y, k2\<lparr>k_store := s'\<rparr>)))))"

definition seam_body :: "(kernel, 'a) prog \<Rightarrow> (kernel, receipt) prog \<Rightarrow> kernel \<Rightarrow> (bool \<times> exc, 'a) result \<times> kernel" where
  "seam_body eff success k =
     (case eff k of
        (Inl e, k1) \<Rightarrow> (Inl (False, e), k1)
      | (Inr y, k1) \<Rightarrow> (case success k1 of (Inl e, k2) \<Rightarrow> (Inl (True, e), k2) | (Inr _, k2) \<Rightarrow> (Inr y, k2)))"

definition emit_effect_abort :: "'a exec_args \<Rightarrow> request \<Rightarrow> string \<Rightarrow> string \<Rightarrow> string \<Rightarrow> (kernel, receipt) prog" where
  "emit_effect_abort x q reason intent_ref admit_ref =
     (let p = dict_set ''effect_aborted'' (JBool True) (obj_fields (rq_parameters q)) in
      case xa_atomicity x of
        Some c \<Rightarrow> kwrite (outcome_args ((outcome_phase x q (JObj p) intent_ref [])\<lparr>ph_failed := True\<rparr>)
          (Some (no_effect\<lparr>ec_atomicity := Some (atomicity_value c), ec_abort_reason := Some reason,
                           ec_gate_admit_ref := Some admit_ref\<rparr>)))
      | None \<Rightarrow>
          (let p1 = dict_set ''abort_reason'' (JStr reason) p;
               p2 = (if admit_ref = [] then p1 else dict_set ''gate_admit_ref'' (JStr admit_ref) p1) in
           kwrite (outcome_args ((outcome_phase x q (JObj p2) intent_ref [])\<lparr>ph_failed := True\<rparr>) None)))"

definition abort_reason :: "bool \<Rightarrow> exc \<Rightarrow> string" where
  "abort_reason late e =
     (if e = TransactionCommitError then ''commit_release_failure''
      else if late then ''success_receipt_failure'' else ''effect_failure'')"

definition execute_seam :: "'a exec_args \<Rightarrow> request \<Rightarrow> (kernel, 'a) prog \<Rightarrow> string \<Rightarrow> phase_args \<Rightarrow> (kernel, 'a) prog" where
  "execute_seam x q eff admit_ref p k =
     (case ktransaction (seam_body eff (kwrite (outcome_args p (class_cols x)))) k of
        (Inr y, k1) \<Rightarrow> (Inr y, k1)
      | (Inl (late, e), k1) \<Rightarrow>
          sthen (emit_effect_abort x q (abort_reason late e) (ph_intent_ref p) admit_ref) (sraise e) k1)"

definition execute_legacy :: "'a exec_args \<Rightarrow> request \<Rightarrow> phase_args \<Rightarrow> (kernel, 'a option) prog" where
  "execute_legacy x q p =
     sthen (kwrite (outcome_args p (class_cols x)))
     (case xa_effect x of
        None \<Rightarrow> sret None
      | Some eff \<Rightarrow>
          sbind (scatch eff (\<lambda>e. sthen (kwrite (kernel_args (xa_op x) (rq_authority q) (rq_parameters q) True (xa_op x)
             (xa_jurisdiction x))) (sraise e))) (\<lambda>y. sret (Some y)))"

subsection \<open>The reactor\<close>

definition outcome :: "'a exec_args \<Rightarrow> request \<Rightarrow> string \<Rightarrow> string \<Rightarrow> string \<Rightarrow> (kernel, 'a option) prog" where
  "outcome x q intent_ref admit_ref warrant_id =
     sbind (sget (outcome_params x q)) (\<lambda>params.
     let p = outcome_phase x q params intent_ref warrant_id in
     case (xa_effect x, xa_atomicity x) of
       (Some eff, Some REVERSIBLE) \<Rightarrow> sbind (execute_external_reversible eff admit_ref p) (\<lambda>y. sret (Some y))
     | (Some eff, Some IRREVERSIBLE) \<Rightarrow> sbind (execute_external_irreversible eff admit_ref p) (\<lambda>y. sret (Some y))
     | (Some eff, Some PURE) \<Rightarrow> sbind (execute_seam x q eff admit_ref p) (\<lambda>y. sret (Some y))
     | (Some eff, Some STORE_LOCAL) \<Rightarrow> sbind (execute_seam x q eff admit_ref p) (\<lambda>y. sret (Some y))
     | _ \<Rightarrow> execute_legacy x q p)"

definition refusal_horizon :: "'a exec_args \<Rightarrow> request \<Rightarrow> (kernel, string) prog" where
  "refusal_horizon x q =
     sthen (jurisdiction_check x q) (sthen (gate_check x q) (sthen (capability_check x q) (sthen (locality_check x q) (will_check x))))"

definition execute :: "'a exec_args \<Rightarrow> (kernel, 'a option) prog" where
  "execute x =
     sbind (sget (\<lambda>k. preflight k x)) (\<lambda>pre.
     sbind (sres pre) (\<lambda>q.
     sbind (refusal_horizon x q) (\<lambda>intent_ref.
     sbind (admit x q) (\<lambda>admit_ref.
     sbind (materialize_warrant x q) (\<lambda>warrant_id.
     outcome x q intent_ref admit_ref warrant_id)))))"

end
