(* ===== verification/Chain.thy ===== *)
theory Chain
  imports Store
begin

text \<open>
  The receipt chain: what one write does for every fault script of the database, when a write is certain to
  succeed, and the chain invariant.
\<close>

subsection \<open>Frames\<close>

definition same_chain :: "store \<Rightarrow> store \<Rightarrow> bool" where
  \<comment> \<open>everything but the clock and the process-wide caches\<close>
  "same_chain s t \<longleftrightarrow> st_conn t = st_conn s \<and> st_read_only t = st_read_only s \<and> st_prior_h_r t = st_prior_h_r s \<and>
     st_prior_h_m t = st_prior_h_m s \<and> st_prior_intent_ref t = st_prior_intent_ref s \<and>
     st_schema_hash t = st_schema_hash s \<and> st_txn_depth t = st_txn_depth s \<and> st_codex_hash t = st_codex_hash s"

lemma same_chain_refl [simp]: "same_chain s s"
  by (simp add: same_chain_def)

lemma same_chain_trans: "same_chain s t \<Longrightarrow> same_chain t u \<Longrightarrow> same_chain s u"
  by (simp add: same_chain_def)

lemma lookup_governance_frame: "same_chain s (snd (lookup_governance j a s))"
  by (auto simp: lookup_governance_def same_chain_def Let_def split: sum.splits prod.splits)

lemma sres_simps [simp]: "sbind (sres (Inr x)) f = f x" "sbind (sres (Inl e)) f = sraise e"
  by (simp_all add: fun_eq_iff sbind_def sres_def sraise_def)

definition sealed :: "receipt \<Rightarrow> receipt" where
  "sealed r = r\<lparr>r_h_body := compute_h_body r\<rparr>"

lemma keeps_split [keeps_intros]: "(\<And>x y. keeps I (f x y)) \<Longrightarrow> keeps I (case p of (x, y) \<Rightarrow> f x y)"
  by (cases p) simp

lemma keeps_Let [keeps_intros]: "(\<And>x. keeps I (f x)) \<Longrightarrow> keeps I (let x = v in f x)"
  by simp

lemma keeps_sres [keeps_intros, simp]: "keeps I (sres r)"
  by (simp add: keeps_def sres_def)

lemma keeps_same_chain:
  "keeps (same_chain s) (lookup_governance j a)"
  "keeps (same_chain s) (smodify (\<lambda>s. s\<lparr>st_tick := Suc (st_tick s)\<rparr>))"
  unfolding keeps_def using lookup_governance_frame same_chain_trans
  by (blast, auto simp: smodify_def same_chain_def)

lemma prepare_receipt_frame:
  assumes "prepare_receipt a s = (res, t)"
  shows "same_chain s t"
proof -
  have "keeps (same_chain s) (prepare_receipt a)"
    unfolding prepare_receipt_def by (intro keeps_intros keeps_basic keeps_same_chain)
  from keepsD [OF this same_chain_refl assms] show ?thesis .
qed

definition prepared :: "write_args \<Rightarrow> store \<Rightarrow> receipt \<Rightarrow> bool" where
  \<comment> \<open>what the write path hands to the \<^verbatim>\<open>INSERT\<close>\<close>
  "prepared a s r \<longleftrightarrow> (\<exists>eff p1 p grade snapshot gov c sf tvh.
     \<not> st_read_only s \<and>
     resolve_effect_surface (wa_parameters a) (wa_effect_columns a) False = Inr (eff, p1) \<and>
     promote_reconciliation p1 (wa_reconciliation_grade a) (wa_reconciliation_warrant_snapshot a) = Inr (p, grade, snapshot) \<and>
     compute_commitments a p (st_prior_h_r s) (st_prior_h_m s) (st_prior_intent_ref s) gov = Inr c \<and>
     write_surfaces a = Inr sf \<and>
     r = (sealed (build_receipt a p eff grade snapshot (st_clock s (st_tick s)) (st_prior_h_r s) c sf))\<lparr>r_trace_vector_hash := tvh\<rparr>)"

lemma sget_eq: "sget f s = (Inr x, t) \<longleftrightarrow> x = f s \<and> t = s"
  by (auto simp: sget_def)

lemma sres_eq: "sres r s = (Inr x, t) \<longleftrightarrow> r = Inr x \<and> t = s"
  by (auto simp: sres_def)

lemma slift_eq: "slift r s = (Inr x, t) \<longleftrightarrow> r = Inr x \<and> t = s"
  by (auto simp: slift_def split: sum.splits)

lemma smodify_eq: "smodify f s = (Inr x, t) \<longleftrightarrow> t = f s"
  by (auto simp: smodify_def)

lemma sguard_eq: "sguard b e s = (Inr x, t) \<longleftrightarrow> b \<and> t = s"
  by (auto simp: sguard_def sret_def sraise_def)

lemma sret_eq: "sret y s = (Inr x, t) \<longleftrightarrow> x = y \<and> t = s"
  by (auto simp: sret_def)

lemmas prog_eqs = sbind_eq_Inr sthen_eq_Inr sget_eq sres_eq slift_eq smodify_eq sguard_eq sret_eq

lemma prepare_receipt_Inr:
  assumes "prepare_receipt a s = (Inr r, t)"
  shows "prepared a s r"
proof -
  define s1 where "s1 = s\<lparr>st_tick := Suc (st_tick s)\<rparr>"
  obtain eff p1 p grade snapshot gov s2 c sf tvh where
    h: "\<not> st_read_only s"
      "resolve_effect_surface (wa_parameters a) (wa_effect_columns a) False = Inr (eff, p1)"
      "promote_reconciliation p1 (wa_reconciliation_grade a) (wa_reconciliation_warrant_snapshot a) = Inr (p, grade, snapshot)"
      "lookup_governance (wa_jurisdiction a) (wa_authority a) s1 = (Inr gov, s2)"
      "compute_commitments a p (st_prior_h_r s1) (st_prior_h_m s2) (st_prior_intent_ref s2) gov = Inr c"
      "write_surfaces a = Inr sf"
    and r: "r = (sealed (build_receipt a p eff grade snapshot (st_clock s (st_tick s)) (st_prior_h_r s1) c sf))\<lparr>r_trace_vector_hash := tvh\<rparr>"
    using assms unfolding prepare_receipt_def Let_def s1_def sealed_def
    by (auto simp: prog_eqs split: prod.splits)
  have "same_chain s1 s2" using lookup_governance_frame [of s1] h(4) by (metis snd_conv)
  then have "st_prior_h_r s1 = st_prior_h_r s" "st_prior_h_m s2 = st_prior_h_m s" "st_prior_intent_ref s2 = st_prior_intent_ref s"
    by (simp_all add: same_chain_def s1_def)
  with h r show ?thesis unfolding prepared_def by metis
qed

subsection \<open>What a prepared receipt commits\<close>

lemma sealed_fields [simp]:
  "r_h_body (sealed r) = compute_h_body r" "r_h_r (sealed r) = r_h_r r" "r_parent_h_r (sealed r) = r_parent_h_r r"
  "r_parameters (sealed r) = r_parameters r" "r_op (sealed r) = r_op r" "r_h_s (sealed r) = r_h_s r"
  "r_h_m (sealed r) = r_h_m r" "r_intent_ref (sealed r) = r_intent_ref r"
  by (simp_all add: sealed_def)

lemma uncommitted_fields [simp]:
  "compute_h_body (r\<lparr>r_trace_vector_hash := t\<rparr>) = compute_h_body r" "compute_h_body (r\<lparr>r_receipt_id := i\<rparr>) = compute_h_body r"
  by (simp_all add: compute_h_body_def body_preimage_def body_dict_def body_base_def body_v2_def body_v6_def Let_def)

lemma compute_commitments_Inr:
  assumes "compute_commitments a p parent hm iref gov = Inr c"
  shows "H_s (PStr (wa_op a)) (of_json p) = Inr (the (fromhex (cm_h_s c))) \<and> cm_h_s c = to_hex (the (fromhex (cm_h_s c))) \<and>
    cm_h_s c \<noteq> [] \<and> cm_h_r c \<noteq> [] \<and> is_obj p"
proof -
  obtain pid key chain caps where gov: "gov = (pid, key, chain, caps)" by (cases gov)
  from assms obtain hs hr ls where hs: "H_s (PStr (wa_op a)) (of_json p) = Inr hs" and hr: "compute_H_r ls = Inr hr"
    and c: "cm_h_s c = to_hex hs" "cm_h_r c = to_hex hr"
    unfolding compute_commitments_def gov by (auto simp: rbind_eq_Inr Let_def)
  from hr have "hr \<noteq> []" by (auto elim!: compute_H_r_Inr)
  moreover from hs have "hs \<noteq> []" "is_obj p"
    by (auto simp: H_s_def c_s_def rbind_eq_Inr split: if_splits) (cases p; simp)
  ultimately show ?thesis using c hs by simp
qed


lemma prepared_receipt:
  assumes "prepared a s r"
  shows "r_parent_h_r r = st_prior_h_r s" "r_h_r r \<noteq> []" "r_h_body r = compute_h_body r" "r_h_body r \<noteq> []"
    "is_obj (r_parameters r)" "rederive_h_s r = Inr (r_h_s r)" "r_op r = wa_op a" "r_intent r = write_intent a"
    "r_jurisdiction r = wa_jurisdiction a" "r_confidence r = wa_confidence a" "r_receipt_id r = None"
    "r_mode r = ''strict''" "r_version r = 7 \<or> r_version r = 8" "r_id_c_s r = ID_C_S" "r_id_c_c r = ID_C_C"
    "r_id_c_m r = ID_C_M" "r_id_c_j r = ID_C_J" "\<not> st_read_only s"
proof -
  obtain eff p1 p grade snapshot gov c sf tvh where
    c: "compute_commitments a p (st_prior_h_r s) (st_prior_h_m s) (st_prior_intent_ref s) gov = Inr c"
    and r: "r = (sealed (build_receipt a p eff grade snapshot (st_clock s (st_tick s)) (st_prior_h_r s) c sf))\<lparr>r_trace_vector_hash := tvh\<rparr>"
    and ro: "\<not> st_read_only s"
    using assms unfolding prepared_def by blast
  note k = compute_commitments_Inr [OF c]
  have b: "r_op r = wa_op a" "r_parameters r = p" "r_h_s r = cm_h_s c" by (simp_all add: r build_receipt_def)
  show "rederive_h_s r = Inr (r_h_s r)" using k b by (simp add: rederive_h_s_def)
  show "r_h_body r = compute_h_body r" by (simp add: r) (simp add: sealed_def)
  then show "r_h_body r \<noteq> []" by (simp add: compute_h_body_def)
  show "\<not> st_read_only s" by (rule ro)
  show "r_parent_h_r r = st_prior_h_r s" "r_h_r r \<noteq> []" "is_obj (r_parameters r)" "r_op r = wa_op a" "r_intent r = write_intent a"
    "r_jurisdiction r = wa_jurisdiction a" "r_confidence r = wa_confidence a" "r_receipt_id r = None"
    "r_mode r = ''strict''" "r_version r = 7 \<or> r_version r = 8" "r_id_c_s r = ID_C_S" "r_id_c_c r = ID_C_C"
    "r_id_c_m r = ID_C_M" "r_id_c_j r = ID_C_J"
    using k b by (simp_all add: r build_receipt_def sealed_def)
qed

subsection \<open>Statements on the connection\<close>

lemma dml_cases:
  assumes "dml f c = (r, c')"
  shows "cn_durable c' = cn_durable c \<and> cn_savepoints c' = cn_savepoints c \<and> cn_begin c' = (cn_begin c \<or> \<not> in_transaction c) \<and>
    cn_next c' = cn_next c \<and> cn_faults c' = tl (cn_faults c) \<and>
    (r = Inr () \<and> cn_visible c' = f (cn_visible c) \<or>
     (\<exists>e. r = Inl (OperationalError e)) \<and> cn_visible c' = cn_visible c \<and> cn_faults c \<noteq> [])"
  using assms unfolding dml_def
  by (cases rule: statement_cases) (auto simp: in_transaction_def split: if_splits)

lemma commit_cases:
  assumes "commit c = (r, c')"
  shows "cn_visible c' = cn_visible c \<and> cn_next c' = cn_next c \<and>
    (r = Inr () \<and> \<not> in_transaction c' \<and> cn_durable c' = (if in_transaction c then cn_visible c else cn_durable c) \<and>
       (cn_faults c = [] \<longrightarrow> cn_faults c' = []) \<or>
     (\<exists>e. r = Inl (OperationalError e)) \<and> cn_durable c' = cn_durable c \<and> cn_savepoints c' = cn_savepoints c \<and>
       cn_begin c' = cn_begin c \<and> cn_faults c \<noteq> [])"
proof (cases "in_transaction c")
  case True
  then have "statement (\<lambda>c. (Inr (), c\<lparr>cn_durable := cn_visible c, cn_begin := False, cn_savepoints := []\<rparr>)) c = (r, c')"
    using assms by (simp add: commit_def)
  then show ?thesis by (cases rule: statement_cases) (use True in \<open>auto simp: in_transaction_def\<close>)
next
  case False
  then show ?thesis using assms by (auto simp: commit_def)
qed

lemma on_conn_eq: "on_conn m s = (r, t) \<longleftrightarrow> (\<exists>c. m (st_conn s) = (r, c) \<and> t = s\<lparr>st_conn := c\<rparr>)"
  by (auto simp: on_conn_def split: prod.splits)

subsection \<open>Outcome of a write\<close>

definition row_of :: "write_args \<Rightarrow> receipt \<Rightarrow> db \<Rightarrow> receipt" where
  "row_of a r d = (stored_row a r)\<lparr>r_receipt_id := Some (Suc (db_seq d))\<rparr>"

lemma insert_row_fields [simp]:
  "db_rows (insert_row (stored_row a r) d) = db_rows d @ [row_of a r d]" "db_seq (insert_row row d) = Suc (db_seq d)"
  "db_tables (insert_row row d) = db_tables d" "db_scopes (insert_row row d) = db_scopes d"
  "db_models (insert_row row d) = db_models d" "db_legends (insert_row row d) = db_legends d"
  by (simp_all add: insert_row_def row_of_def)

definition others_same :: "store \<Rightarrow> store \<Rightarrow> bool" where
  "others_same s t \<longleftrightarrow> st_read_only t = st_read_only s \<and> st_schema_hash t = st_schema_hash s \<and>
     st_txn_depth t = st_txn_depth s \<and> st_codex_hash t = st_codex_hash s"

lemma append_receipt_Inr:
  assumes "append_receipt a r s = (Inr r', t)"
  shows "r' = r\<lparr>r_receipt_id := Some (Suc (db_seq (visible s)))\<rparr>"
    "visible t = insert_row (stored_row a r) (visible s)" "st_prior_h_r t = r_h_r r" "others_same s t"
    "st_txn_depth s = 0 \<Longrightarrow> durable t = visible t \<and> \<not> in_transaction (st_conn t)"
    "st_txn_depth s > 0 \<Longrightarrow> durable t = durable s \<and> cn_savepoints (st_conn t) = cn_savepoints (st_conn s) \<and>
       cn_begin (st_conn t) = (cn_begin (st_conn s) \<or> \<not> in_transaction (st_conn s)) \<and> cn_next (st_conn t) = cn_next (st_conn s)"
    "cn_faults (st_conn s) = [] \<Longrightarrow> cn_faults (st_conn t) = []"
proof -
  from assms obtain c1 c2 where
    c1: "dml (insert_row (stored_row a r)) (st_conn s) = (Inr (), c1)"
    and c2: "(if st_txn_depth s = 0 then commit c1 else (Inr (), c1)) = (Inr (), c2)"
    and t: "t = advance r (s\<lparr>st_conn := c2\<rparr>)" and r': "r' = r\<lparr>r_receipt_id := Some (db_seq (cn_visible c1))\<rparr>"
    unfolding append_receipt_def
    by (cases "st_txn_depth s = 0") (auto simp: prog_eqs on_conn_eq visible_def)
  note d = dml_cases [OF c1]
  have e: "in_transaction c1" using d by (auto simp: in_transaction_def)
  show "r' = r\<lparr>r_receipt_id := Some (Suc (db_seq (visible s)))\<rparr>" using r' d by (auto simp: visible_def)
  have v: "cn_visible c2 = cn_visible c1" using c2 commit_cases [of c1 "Inr ()" c2] by (auto split: if_splits)
  then show "visible t = insert_row (stored_row a r) (visible s)" using d by (auto simp: t visible_def advance_def)
  show "st_prior_h_r t = r_h_r r" "others_same s t" by (simp_all add: t advance_def others_same_def)
  show "durable t = visible t \<and> \<not> in_transaction (st_conn t)" if "st_txn_depth s = 0"
    using that c2 commit_cases [of c1 "Inr ()" c2] e by (auto simp: t advance_def durable_def visible_def)
  show "durable t = durable s \<and> cn_savepoints (st_conn t) = cn_savepoints (st_conn s) \<and>
      cn_begin (st_conn t) = (cn_begin (st_conn s) \<or> \<not> in_transaction (st_conn s)) \<and> cn_next (st_conn t) = cn_next (st_conn s)"
    if "st_txn_depth s > 0"
    using that c2 d by (auto simp: t advance_def durable_def)
  show "cn_faults (st_conn t) = []" if "cn_faults (st_conn s) = []"
    using that c2 d commit_cases [of c1 "Inr ()" c2] by (auto simp: t advance_def split: if_splits)
qed

lemma append_receipt_Inl:
  assumes "append_receipt a r s = (Inl e, t)"
  shows "(\<exists>d. e = OperationalError d)" "durable t = durable s" "st_prior_h_r t = st_prior_h_r s" "st_prior_h_m t = st_prior_h_m s"
    "st_prior_intent_ref t = st_prior_intent_ref s" "others_same s t" "cn_faults (st_conn s) \<noteq> []"
    "visible t = visible s \<or> st_txn_depth s = 0 \<and> visible t = insert_row (stored_row a r) (visible s)"
proof -
  obtain r1 c1 where c1: "dml (insert_row (stored_row a r)) (st_conn s) = (r1, c1)" by force
  note d = dml_cases [OF c1]
  have "(\<exists>d. e = OperationalError d) \<and> durable t = durable s \<and> st_prior_h_r t = st_prior_h_r s \<and> st_prior_h_m t = st_prior_h_m s \<and>
    st_prior_intent_ref t = st_prior_intent_ref s \<and> others_same s t \<and> cn_faults (st_conn s) \<noteq> [] \<and>
    (visible t = visible s \<or> st_txn_depth s = 0 \<and> visible t = insert_row (stored_row a r) (visible s))"
  proof (cases r1)
    case (Inl e1)
    then have "(Inl e1, s\<lparr>st_conn := c1\<rparr>) = (Inl e, t)"
      using assms c1 by (simp add: append_receipt_def sthen_def sbind_def on_conn_def)
    with Inl d show ?thesis by (auto simp: durable_def visible_def others_same_def)
  next
    case (Inr u)
    then have dep: "st_txn_depth s = 0"
      using assms c1 by (cases "st_txn_depth s = 0")
        (auto simp: append_receipt_def sthen_def sbind_def on_conn_def sget_def smodify_def sret_def)
    obtain r2 c2 where c2: "commit c1 = (r2, c2)" by force
    then have "r2 = Inl e \<and> t = s\<lparr>st_conn := c2\<rparr>"
      using assms c1 Inr dep by (cases r2) (auto simp: append_receipt_def sthen_def sbind_def on_conn_def sget_def smodify_def sret_def)
    with commit_cases [OF c2] d dep Inr show ?thesis by (auto simp: durable_def visible_def others_same_def)
  qed
  then show "(\<exists>d. e = OperationalError d)" "durable t = durable s" "st_prior_h_r t = st_prior_h_r s" "st_prior_h_m t = st_prior_h_m s"
    "st_prior_intent_ref t = st_prior_intent_ref s" "others_same s t" "cn_faults (st_conn s) \<noteq> []"
    "visible t = visible s \<or> st_txn_depth s = 0 \<and> visible t = insert_row (stored_row a r) (visible s)" by blast+
qed

lemma same_chain_conn:
  assumes "same_chain s t"
  shows "visible t = visible s" "durable t = durable s" "others_same s t" "st_conn t = st_conn s" "st_prior_h_r t = st_prior_h_r s"
    "st_txn_depth t = st_txn_depth s"
  using assms by (simp_all add: same_chain_def visible_def durable_def others_same_def)

lemma store_write_Inr:
  assumes "store_write a s = (Inr r', t)"
  obtains r where "prepared a s r" "r' = r\<lparr>r_receipt_id := Some (Suc (db_seq (visible s)))\<rparr>"
    "visible t = insert_row (stored_row a r) (visible s)" "st_prior_h_r t = r_h_r r" "others_same s t"
    "st_txn_depth s = 0 \<Longrightarrow> durable t = visible t \<and> \<not> in_transaction (st_conn t)"
    "st_txn_depth s > 0 \<Longrightarrow> durable t = durable s \<and> cn_savepoints (st_conn t) = cn_savepoints (st_conn s) \<and>
       cn_begin (st_conn t) = (cn_begin (st_conn s) \<or> \<not> in_transaction (st_conn s)) \<and> cn_next (st_conn t) = cn_next (st_conn s)"
    "cn_faults (st_conn s) = [] \<Longrightarrow> cn_faults (st_conn t) = []"
proof -
  from assms obtain r s1 where p: "prepare_receipt a s = (Inr r, s1)" and q: "append_receipt a r s1 = (Inr r', t)"
    by (auto simp: store_write_def sbind_eq_Inr)
  note f = same_chain_conn [OF prepare_receipt_frame [OF p]]
  note q' = append_receipt_Inr [OF q, unfolded f]
  show thesis by (rule that [OF prepare_receipt_Inr [OF p]]) (use q' f in \<open>auto simp: others_same_def\<close>)
qed

lemma store_write_Inl:
  assumes "store_write a s = (Inl e, t)"
  shows "same_chain s t \<or>
    (\<exists>d. e = OperationalError d) \<and> durable t = durable s \<and> st_prior_h_r t = st_prior_h_r s \<and> others_same s t \<and>
      cn_faults (st_conn s) \<noteq> [] \<and>
      (visible t = visible s \<or> st_txn_depth s = 0 \<and>
        (\<exists>r. prepared a s r \<and> visible t = insert_row (stored_row a r) (visible s)))"
proof (cases "prepare_receipt a s")
  case (Pair res s1)
  show ?thesis
  proof (cases res)
    case (Inl e1)
    then have "t = s1" using assms Pair by (simp add: store_write_def sbind_Inl)
    with prepare_receipt_frame [OF Pair] show ?thesis by simp
  next
    case (Inr r)
    then have "append_receipt a r s1 = (Inl e, t)" using assms Pair by (simp add: store_write_def sbind_Inr)
    note q = append_receipt_Inl [OF this] and f = same_chain_conn [OF prepare_receipt_frame [OF Pair]]
    have "prepared a s r" using prepare_receipt_Inr Pair Inr by blast
    with q f show ?thesis by (auto simp: others_same_def)
  qed
qed

subsection \<open>The chain invariant\<close>

definition end_of :: "string \<Rightarrow> receipt list \<Rightarrow> string" where
  "end_of anchor rows = (if rows = [] then anchor else r_h_r (last rows))"

lemma verify_segment_append:
  "verify_segment (xs @ ys) anchor \<longleftrightarrow> verify_segment xs anchor \<and> verify_segment ys (end_of anchor xs)"
  by (induction xs arbitrary: anchor) (auto simp: end_of_def)

lemma verify_segment_map: "(\<And>r. r_h_r (f r) = r_h_r r \<and> r_parent_h_r (f r) = r_parent_h_r r) \<Longrightarrow>
    verify_segment (map f rs) anchor = verify_segment rs anchor"
  by (induction rs arbitrary: anchor) auto

lemma verify_segment_rows [simp]: "verify_segment (map row_to_receipt rs) anchor = verify_segment rs anchor"
  by (rule verify_segment_map) (simp add: row_to_receipt_def)

definition ids_ok :: "db \<Rightarrow> bool" where
  \<comment> \<open>row numbers ascend and stay below the counter\<close>
  "ids_ok d \<longleftrightarrow> sorted_wrt (<) (map (\<lambda>r. the (r_receipt_id r)) (db_rows d)) \<and>
     (\<forall>r\<in>set (db_rows d). \<exists>i. r_receipt_id r = Some i \<and> i \<le> db_seq d)"

definition frontier_ok :: "string \<Rightarrow> store \<Rightarrow> bool" where
  "frontier_ok anchor s \<longleftrightarrow> verify_segment (db_rows (visible s)) anchor \<and>
     st_prior_h_r s = end_of anchor (db_rows (visible s)) \<and> ids_ok (visible s)"

lemma row_of_chain [simp]:
  "r_h_r (row_of a r d) = r_h_r r" "r_parent_h_r (row_of a r d) = r_parent_h_r r" "r_receipt_id (row_of a r d) = Some (Suc (db_seq d))"
  by (simp_all add: row_of_def stored_row_def)

lemma ids_ok_insert: "ids_ok d \<Longrightarrow> ids_ok (insert_row (stored_row a r) d)"
  by (fastforce simp: ids_ok_def sorted_wrt_append)

lemma write_keeps_frontier:
  assumes "frontier_ok anchor s" "store_write a s = (Inr r', t)"
  shows "frontier_ok anchor t"
  using assms(2)
proof (rule store_write_Inr)
  fix r assume r: "prepared a s r" and v: "visible t = insert_row (stored_row a r) (visible s)" and p: "st_prior_h_r t = r_h_r r"
  note k = prepared_receipt [OF r]
  show ?thesis using assms(1) k p ids_ok_insert [of "visible s"]
    by (auto simp: frontier_ok_def v verify_segment_append end_of_def)
qed

definition quiescent :: "store \<Rightarrow> bool" where
  \<comment> \<open>between operations, nothing pending\<close>
  "quiescent s \<longleftrightarrow> \<not> in_transaction (st_conn s) \<and> visible s = durable s \<and> st_txn_depth s = 0"

text \<open>C6. The core promise of the append path, for every fault script of the database: from
  a store whose rows are chained from an anchor and whose frontier is the last row's root, a write that returns
  has appended exactly one durable row, whose parent is the previous root and whose root is the new frontier, so
  the rows are chained again; a write that raises has changed no durable state and no frontier, and without a
  database fault it has changed no row either.\<close>

theorem write_extends_chain:
  assumes "frontier_ok anchor s" "quiescent s" "store_write a s = (res, t)"
  shows "durable t = durable s \<and> st_prior_h_r t = st_prior_h_r s \<and> (cn_faults (st_conn s) = [] \<longrightarrow> visible t = visible s) \<and>
      (\<exists>e. res = Inl e) \<or>
    (\<exists>r row. res = Inr r \<and> frontier_ok anchor t \<and> quiescent t \<and> db_rows (durable t) = db_rows (durable s) @ [row] \<and>
      r_h_r row = r_h_r r \<and> r_parent_h_r row = end_of anchor (db_rows (durable s)) \<and> st_prior_h_r t = r_h_r r)"
proof (cases res)
  case (Inl e)
  from store_write_Inl [OF assms(3) [unfolded Inl]] show ?thesis
    using Inl same_chain_conn [of s t] by auto
next
  case (Inr r')
  note w = assms(3) [unfolded Inr]
  have f: "frontier_ok anchor t" by (rule write_keeps_frontier [OF assms(1) w])
  from w show ?thesis
  proof (rule store_write_Inr)
    fix r assume r: "prepared a s r" "r' = r\<lparr>r_receipt_id := Some (Suc (db_seq (visible s)))\<rparr>"
      and v: "visible t = insert_row (stored_row a r) (visible s)" and p: "st_prior_h_r t = r_h_r r" and o: "others_same s t"
      and d: "st_txn_depth s = 0 \<Longrightarrow> durable t = visible t \<and> \<not> in_transaction (st_conn t)"
    have "quiescent t" using assms(2) d o by (auto simp: quiescent_def others_same_def)
    moreover have "db_rows (durable t) = db_rows (durable s) @ [row_of a r (visible s)]"
      using assms(2) d v by (auto simp: quiescent_def)
    moreover have "st_prior_h_r s = end_of anchor (db_rows (durable s))"
      using assms(1,2) by (simp add: frontier_ok_def quiescent_def)
    ultimately show ?thesis using Inr f r p prepared_receipt(1) [OF r(1)] by auto
  qed
qed

subsection \<open>Encodable values\<close>

lemma to_json_list_strs [simp]: "to_json_list (map PStr xs) = Inr (map JStr xs)"
  by (induction xs) simp_all

lemma H_s_obj: "is_obj p \<Longrightarrow> \<exists>h. H_s (PStr x) (of_json p) = Inr h \<and> length h = 32"
  by (cases p) (simp_all only: H_s_json is_obj.simps, simp_all)

lemma H_c_ok:
  "\<exists>h. H_c (of_json (JList xs)) (PStr pid) (PList (map PStr caps)) (PList (map PStr ws)) (PStr parent) (of_json f) = Inr h \<and> length h = 32"
proof -
  have l: "py_is_list (of_json (JList xs))" by simp
  show ?thesis unfolding H_c_def c_c_def canonical_json_of_json using l
    by (simp add: canonical_json_py_def del: of_json.simps)
qed

lemma H_m_ok: "\<exists>h. H_m (PStr i) (PStr r) (PStr l) (of_json x) regime = Inr h \<and> length h = 32"
  by (simp add: H_m_def c_m_def canonical_json_py_def)

lemma H_j_ok: "\<exists>h. H_j (PStr a) (PStr b) (PStr c) (PStr d) = Inr h \<and> length h = 32"
  by (simp add: H_j_def c_j_def canonical_json_py_def Let_def)

lemma default_epoch_ok: "\<exists>ep. default_epoch ph = Inr ep"
  using sign_default_ok by (auto simp: default_epoch_def sign_epoch_issuance_def Let_def rbind_def) (metis sum.case(2))

lemma compute_commitments_ok:
  assumes "is_obj p" "chain = JList xs"
  shows "\<exists>c. compute_commitments a p parent hm iref (pid, key, chain, caps) = Inr c"
proof -
  obtain ep where ep: "default_epoch ID_PHI_0 = Inr ep" using default_epoch_ok by blast
  let ?fc = "build_freshness_claim_from_epoch ep" and ?ws = "if wa_warrant_id a = [] then [] else [wa_warrant_id a]"
  obtain hs where hs: "H_s (PStr (wa_op a)) (of_json p) = Inr hs" "length hs = 32" using H_s_obj [OF assms(1)] by blast
  have w: "PList (if wa_warrant_id a = [] then [] else [PStr (wa_warrant_id a)]) = PList (map PStr ?ws)" by simp
  obtain hc where hc: "H_c (of_json chain) (PStr pid) (PList (map PStr caps)) (PList (map PStr ?ws)) (PStr parent) (of_json (claim_dict ?fc)) = Inr hc"
    "length hc = 32" using H_c_ok [of xs pid caps ?ws parent "claim_dict ?fc"] assms(2) by blast
  obtain hm' where hm: "H_m (PStr (write_intent a)) (PStr (wa_intent_ref a)) (PStr (wa_legend_hash a))
      (of_json (lineage_as_dicts (build_lineage hm iref))) ID_SIGMA_0 = Inr hm'" "length hm' = 32" using H_m_ok by blast
  obtain hj where hj: "H_j (PStr (fc_phase_code ?fc)) (PStr MOSAIC_ROOT_PHI_0) (PStr (wa_session_dkn a)) (PStr key) = Inr hj" "length hj = 32"
    using H_j_ok by blast
  have "\<exists>hr. compute_H_r [(TAG_H_S, hs), (TAG_H_C, hc), (TAG_H_M, hm'), (TAG_H_J, hj), (TAG_ID_P, H_id_P pid),
      (TAG_ID_SIGMA, H_id_Sigma ID_SIGMA_0), (TAG_ID_PHI, H_id_Phi ID_PHI_0)] = Inr hr"
    by (rule compute_H_r_ok) (use hs hc hm hj in \<open>simp_all add: tag_defs H_id_P_def H_id_Sigma_def H_id_Phi_def\<close>)
  then show ?thesis using ep hs hc hm hj unfolding compute_commitments_def w by (auto simp: Let_def)
qed

lemma lookup_policy_id_ok: "\<exists>pid pc. lookup_policy_id c j = Inr (pid, pc)"
  by (cases "c j") (auto simp: lookup_policy_id_def lookup_policy_def default_policy_for_ok)

lemma lookup_governance_ok:
  assumes "flat_graph (st_graph s)"
  shows "\<exists>pid key xs caps t. lookup_governance j a s = (Inr (pid, key, JList xs, caps), t) \<and> flat_graph (st_graph t)"
proof -
  obtain pid pc where p: "lookup_policy_id (st_policies s) j = Inr (pid, pc)" using lookup_policy_id_ok by blast
  obtain key kc where k: "lookup_authority_key (st_keys s) a = (key, kc)" by force
  obtain path g caps where g: "canonical_path_for (st_graph s) a = Inr (path, g)" "flat_graph g"
    "canonical_path_for g a = Inr (path, g)" "compute_effective_capabilities path = Inr caps"
    using flat_path [OF assms] by blast
  show ?thesis using p k g by (simp add: lookup_governance_def canonical_path_as_dicts_def Let_def)
qed

lemma lookup_governance_flat: "flat_graph (st_graph s) \<Longrightarrow> flat_graph (st_graph (snd (lookup_governance j a s)))"
  using lookup_governance_ok [of s j a] by auto

definition admissible_args :: "write_args \<Rightarrow> bool" where
  \<comment> \<open>the arguments pass every validator of the write path\<close>
  "admissible_args a \<longleftrightarrow> (\<exists>eff p1 p g x sf.
     resolve_effect_surface (wa_parameters a) (wa_effect_columns a) False = Inr (eff, p1) \<and>
     promote_reconciliation p1 (wa_reconciliation_grade a) (wa_reconciliation_warrant_snapshot a) = Inr (p, g, x) \<and>
     is_obj p \<and> write_surfaces a = Inr sf)"

lemma trace_commitment_ok: "is_obj (r_parameters r) \<Longrightarrow> \<exists>h. trace_commitment codex sf r = Inr h"
proof -
  assume o: "is_obj (r_parameters r)"
  let ?r = "r\<lparr>r_effect := no_effect, r_reconciliation_grade := None,
              r_reconciliation_warrant_snapshot := None, r_continuation := no_continuation, r_bridge := no_bridge\<rparr>"
  have "\<exists>t. build_trace_vector ?r f COMMITTED_SURFACES = Inr t" for f
    by (rule build_trace_vector_total) (simp add: o)
  then have "\<exists>h. committed_trace_vector_hash codex ?r = Inr h"
    unfolding committed_trace_vector_hash_def rbind_eq_Inr by blast
  then show ?thesis by (auto simp: trace_commitment_def split: option.splits)
qed

lemma prepare_receipt_ok:
  assumes "\<not> st_read_only s" "flat_graph (st_graph s)" "admissible_args a"
  shows "\<exists>r t. prepare_receipt a s = (Inr r, t)"
proof -
  obtain eff p1 p g x sf where h: "resolve_effect_surface (wa_parameters a) (wa_effect_columns a) False = Inr (eff, p1)"
    "promote_reconciliation p1 (wa_reconciliation_grade a) (wa_reconciliation_warrant_snapshot a) = Inr (p, g, x)"
    "is_obj p" "write_surfaces a = Inr sf" using assms(3) by (auto simp: admissible_args_def)
  let ?s = "s\<lparr>st_tick := Suc (st_tick s)\<rparr>"
  have "flat_graph (st_graph ?s)" using assms(2) by simp
  then obtain pid key xs caps t where l: "lookup_governance (wa_jurisdiction a) (wa_authority a) ?s = (Inr (pid, key, JList xs, caps), t)"
    using lookup_governance_ok by blast
  obtain c where c: "compute_commitments a p (st_prior_h_r s) (st_prior_h_m t) (st_prior_intent_ref t) (pid, key, JList xs, caps) = Inr c"
    using compute_commitments_ok [OF h(3)] by blast
  let ?r0 = "build_receipt a p eff g x (st_clock s (st_tick s)) (st_prior_h_r s) c sf"
  obtain tvh where "trace_commitment (st_codex_hash t) sf (?r0\<lparr>r_h_body := compute_h_body ?r0\<rparr>) = Inr tvh"
    using trace_commitment_ok [of "?r0\<lparr>r_h_body := compute_h_body ?r0\<rparr>"] h(3) by (auto simp: build_receipt_def)
  then show ?thesis using assms(1) h l c unfolding prepare_receipt_def Let_def
    by (simp add: sbind_def sthen_def sget_def sres_def slift_def smodify_def sguard_def sret_def)
qed

lemma store_write_live:
  assumes "\<not> st_read_only s" "flat_graph (st_graph s)" "admissible_args a" "cn_faults (st_conn s) = []"
  shows "\<exists>r t. store_write a s = (Inr r, t)"
proof -
  obtain r s1 where p: "prepare_receipt a s = (Inr r, s1)" using prepare_receipt_ok [OF assms(1-3)] by blast
  have f: "cn_faults (st_conn s1) = []" using prepare_receipt_frame [OF p] assms(4) by (simp add: same_chain_def)
  obtain q t where q: "append_receipt a r s1 = (q, t)" by force
  then show ?thesis
  proof (cases q)
    case (Inl e)
    with append_receipt_Inl(7) [of a r s1 e t] q f show ?thesis by simp
  next
    case (Inr x)
    then show ?thesis using p q by (simp add: store_write_def sbind_Inr)
  qed
qed

lemma keeps_flat_prepare: "flat_graph (st_graph s) \<Longrightarrow> prepare_receipt a s = (q, t) \<Longrightarrow> flat_graph (st_graph t)"
proof -
  let ?I = "\<lambda>s. flat_graph (st_graph s)"
  have l: "keeps ?I (lookup_governance j x)" for j x
    by (simp add: keeps_def lookup_governance_flat)
  have m: "keeps ?I (smodify (\<lambda>s. s\<lparr>st_tick := Suc (st_tick s)\<rparr>))" by (simp add: keeps_def smodify_def)
  have "keeps ?I (prepare_receipt a)"
    unfolding prepare_receipt_def by (intro keeps_intros keeps_basic l m)
  then show "flat_graph (st_graph s) \<Longrightarrow> prepare_receipt a s = (q, t) \<Longrightarrow> flat_graph (st_graph t)" by (rule keepsD)
qed

lemma keeps_graph_append: "append_receipt a r s = (q, t) \<Longrightarrow> st_graph t = st_graph s"
  by (auto simp: append_receipt_def sthen_def sbind_def on_conn_def sget_def smodify_def sret_def swhen_def advance_def
      split: prod.splits sum.splits if_splits)

lemma store_write_flat: "flat_graph (st_graph s) \<Longrightarrow> store_write a s = (q, t) \<Longrightarrow> flat_graph (st_graph t)"
  using keeps_flat_prepare keeps_graph_append
  by (auto simp: store_write_def sbind_def split: prod.splits sum.splits)

subsection \<open>A fresh store\<close>

definition empty_db :: db where
  "empty_db = \<lparr>db_rows = [], db_seq = 0, db_legends = [], db_scopes = [], db_models = [], db_tables = []\<rparr>"

definition fresh_store :: "db_error option list \<Rightarrow> store" where
  "fresh_store faults = \<lparr>st_conn = new_conn empty_db faults, st_read_only = False, st_prior_h_r = GENESIS,
     st_prior_h_m = None, st_prior_intent_ref = None, st_schema_hash = [], st_txn_depth = 0,
     st_clock = (\<lambda>_. float_zero), st_tick = 0, st_policies = Map.empty, st_keys = Map.empty, st_graph = [],
     st_codex_hash = []\<rparr>"

lemma fresh_store_ok:
  "frontier_ok GENESIS (fresh_store fs)" "quiescent (fresh_store fs)" "\<not> st_read_only (fresh_store fs)"
  "flat_graph (st_graph (fresh_store fs))" "cn_faults (st_conn (fresh_store fs)) = fs" "db_rows (visible (fresh_store fs)) = []"
  by (simp_all add: fresh_store_def frontier_ok_def quiescent_def visible_def durable_def new_conn_def empty_db_def
      in_transaction_def ids_ok_def end_of_def)

definition note_args :: write_args where
  "note_args = default_write ''write_note'' ''governor'' (JObj [(''n'', JInt 1)])"

lemma note_args_admissible: "admissible_args note_args"
  by (simp add: admissible_args_def note_args_def default_write_def resolve_effect_surface_def derive_effect_columns_def
      jget_def Let_def promote_reconciliation_def RECONCILIATION_KEYS_def write_surfaces_def derive_committed_outcome_def)

lemma note_written: "\<exists>r t. store_write note_args (fresh_store []) = (Inr r, t)"
  by (rule store_write_live) (simp_all add: fresh_store_ok note_args_admissible)

theorem write_extends_chain_witness:
  "\<exists>r t. store_write note_args (fresh_store []) = (Inr r, t) \<and> frontier_ok GENESIS t \<and> st_prior_h_r t = r_h_r r"
proof -
  obtain r t where w: "store_write note_args (fresh_store []) = (Inr r, t)" using note_written by blast
  from write_extends_chain [OF fresh_store_ok(1,2) w] w show ?thesis by auto
qed

end
