(* ===== verification/Seam.thy ===== *)
theory Seam
  imports Chain
begin

text \<open>
  The deferred-commit seam \<open>UGKReceiptStore.transaction\<close> and its two clients in the store, live migration and
  epoch pruning. The contract a block must keep is the locale \<open>governed_block\<close>: it commits nothing itself and
  leaves the savepoints it found. Every block of the store is shown to keep it.
\<close>

subsection \<open>The contract of a block\<close>

definition inside :: "store \<Rightarrow> store \<Rightarrow> bool" where
  "inside s0 s \<longleftrightarrow> durable s = durable s0 \<and> cn_savepoints (st_conn s) = cn_savepoints (st_conn s0) \<and>
     cn_begin (st_conn s) = cn_begin (st_conn s0) \<and> st_txn_depth s = st_txn_depth s0 \<and>
     0 < st_txn_depth s0 \<and> in_transaction (st_conn s0) \<and>
     (cn_faults (st_conn s0) = [] \<longrightarrow> cn_faults (st_conn s) = [])"

lemma inside_refl: "0 < st_txn_depth s \<Longrightarrow> in_transaction (st_conn s) \<Longrightarrow> inside s s"
  by (simp add: inside_def)

lemma inside_transaction: "inside s0 s \<Longrightarrow> in_transaction (st_conn s)"
  by (simp add: inside_def in_transaction_def)

lemma inside_conn:
  assumes "inside s0 s" "cn_durable c = durable s" "cn_savepoints c = cn_savepoints (st_conn s)" "cn_begin c = cn_begin (st_conn s)"
    "cn_faults (st_conn s) = [] \<longrightarrow> cn_faults c = []"
  shows "inside s0 (s\<lparr>st_conn := c\<rparr>)"
  using assms by (simp add: inside_def durable_def)

lemma keeps_inside_dml [keeps_intros]: "keeps (inside s0) (on_conn (dml f))"
proof -
  have "inside s0 (s\<lparr>st_conn := c\<rparr>)" if "inside s0 s" "dml f (st_conn s) = (r, c)" for s r c
    using dml_cases [OF that(2)] inside_transaction [OF that(1)] by (intro inside_conn [OF that(1)]) (auto simp: durable_def)
  then show ?thesis by (auto simp: keeps_def on_conn_def split: prod.splits)
qed

lemma ddl_cases:
  assumes "ddl f c = (r, c')" "in_transaction c"
  shows "cn_durable c' = cn_durable c \<and> cn_savepoints c' = cn_savepoints c \<and> cn_begin c' = cn_begin c \<and>
    (cn_faults c = [] \<longrightarrow> cn_faults c' = [])"
  using assms(1) unfolding ddl_def
  by (cases rule: statement_cases) (use assms(2) in \<open>auto simp: in_transaction_def split: if_splits\<close>)

lemma keeps_inside_ddl [keeps_intros]: "keeps (inside s0) (on_conn (ddl f))"
proof -
  have "inside s0 (s\<lparr>st_conn := c\<rparr>)" if "inside s0 s" "ddl f (st_conn s) = (r, c)" for s r c
    using ddl_cases [OF that(2) inside_transaction [OF that(1)]] by (intro inside_conn [OF that(1)]) (auto simp: durable_def)
  then show ?thesis by (auto simp: keeps_def on_conn_def split: prod.splits)
qed

lemma keeps_inside_prepare: "keeps (inside s0) (prepare_receipt a)"
proof -
  have "inside s0 t" if "inside s0 s" "prepare_receipt a s = (r, t)" for s r t
    using prepare_receipt_frame [OF that(2)] that(1) by (simp add: inside_def same_chain_def durable_def)
  then show ?thesis unfolding keeps_def by (metis prod.collapse)
qed

lemma keeps_inside_append: "keeps (inside s0) (append_receipt a r)"
proof -
  have c: "keeps (inside s0) (sbind (sget st_txn_depth) (\<lambda>depth.
     sthen (swhen (depth = 0) (on_conn commit)) (sthen (smodify (advance r)) (sret x))))" for x
    by (auto simp: keeps_def sbind_def sget_def inside_def advance_def sthen_def smodify_def sret_def durable_def)
  show ?thesis unfolding append_receipt_def by (intro keeps_intros keeps_basic c)
qed

lemma keeps_inside_write [keeps_intros]: "keeps (inside s0) (store_write a)"
  unfolding store_write_def by (intro keeps_intros keeps_inside_prepare keeps_inside_append)

subsection \<open>Atomicity\<close>

lemma opened:
  assumes "on_conn mt_init s = (Inr n, s1)" "on_conn (mt_enter v n) s1 = (r, s2)"
  shows "(r = Inr () \<and> vr_ok v \<and> cn_savepoints (st_conn s2) = (n, visible s) # cn_savepoints (st_conn s) \<or>
      (\<exists>e. r = Inl e) \<and> cn_savepoints (st_conn s2) = cn_savepoints (st_conn s)) \<and>
    visible s2 = visible s \<and> durable s2 = durable s \<and> cn_begin (st_conn s2) = cn_begin (st_conn s) \<and>
    st_txn_depth s2 = st_txn_depth s \<and> st_prior_h_r s2 = st_prior_h_r s \<and> st_prior_h_m s2 = st_prior_h_m s \<and>
    st_prior_intent_ref s2 = st_prior_intent_ref s \<and> st_schema_hash s2 = st_schema_hash s \<and> st_graph s2 = st_graph s \<and>
    st_read_only s2 = st_read_only s \<and>
    (cn_faults (st_conn s) = [] \<longrightarrow> cn_faults (st_conn s2) = [] \<and> (vr_ok v \<longrightarrow> r = Inr ()))"
proof -
  have s1: "s1 = s\<lparr>st_conn := (st_conn s)\<lparr>cn_next := Suc (cn_next (st_conn s))\<rparr>\<rparr>"
    using assms(1) by (auto simp: on_conn_def mt_init_def)
  show ?thesis
  proof (cases "vr_ok v")
    case False
    then show ?thesis using assms(2) s1 by (auto simp: on_conn_def mt_enter_def sraise_def visible_def durable_def)
  next
    case True
    then obtain c where "savepoint n (st_conn s1) = (r, c)" and s2: "s2 = s1\<lparr>st_conn := c\<rparr>"
      using assms(2) by (auto simp: on_conn_def mt_enter_def split: prod.splits)
    from this(1) have "statement (\<lambda>c. (Inr (), c\<lparr>cn_savepoints := (n, cn_visible c) # cn_savepoints c\<rparr>)) (st_conn s1) = (r, c)"
      by (simp add: savepoint_def)
    then show ?thesis by (cases rule: statement_cases) (use True s1 s2 in \<open>auto simp: visible_def durable_def\<close>)
  qed
qed

lemma release_live: "cn_savepoints c = (n, d) # sps \<Longrightarrow> cn_faults c = [] \<Longrightarrow> release n c = (r, c') \<Longrightarrow> r = Inr () \<and> cn_faults c' = []"
  by (auto simp: release_def statement_def)

lemma mt_exit_error_live:
  assumes "cn_savepoints c = (n, d) # sps" "cn_faults c = []" "mt_exit_error n c = (r, c')"
  shows "r = Inr () \<and> cn_faults c' = []"
proof -
  have "rollback_to n c = (Inr (), c\<lparr>cn_visible := d, cn_savepoints := (n, d) # sps\<rparr>)"
    using assms(1,2) by (simp add: rollback_to_def statement_def)
  then have "release n (c\<lparr>cn_visible := d, cn_savepoints := (n, d) # sps\<rparr>) = (r, c')"
    using assms(3) by (simp add: mt_exit_error_def sthen_Inr)
  from release_live [OF _ _ this, of d sps] assms(2) show ?thesis by simp
qed

lemma mt_exit_clean_live:
  assumes "cn_savepoints c = (n, d) # sps" "cn_faults c = []" "mt_exit_clean n c = (r, c')"
  shows "r = Inr () \<and> cn_faults c' = []"
proof -
  obtain q c1 where x: "release n c = (q, c1)" by force
  from release_live [OF assms(1,2) x] assms(3) x show ?thesis by (auto simp: mt_exit_clean_def scatch_def)
qed

definition frontier_same :: "store \<Rightarrow> store \<Rightarrow> bool" where
  "frontier_same s t \<longleftrightarrow> st_prior_h_r t = st_prior_h_r s \<and> st_prior_h_m t = st_prior_h_m s \<and>
     st_prior_intent_ref t = st_prior_intent_ref s \<and> st_schema_hash t = st_schema_hash s"

definition entered :: "store \<Rightarrow> store \<Rightarrow> bool" where
  \<comment> \<open>the state in which the body of a transaction opened in \<open>s\<close> starts\<close>
  "entered s s1 \<longleftrightarrow> visible s1 = visible s \<and> durable s1 = durable s \<and> frontier_same s s1 \<and> st_graph s1 = st_graph s \<and>
     st_read_only s1 = st_read_only s \<and> 0 < st_txn_depth s1 \<and> in_transaction (st_conn s1) \<and>
     (cn_faults (st_conn s) = [] \<longrightarrow> cn_faults (st_conn s1) = [])"

locale governed_block =
  fixes body :: "(store, 'a) prog"
  assumes contained: "keeps (inside s0) body"
begin

lemma body_inside: "body s = (r, t) \<Longrightarrow> 0 < st_txn_depth s \<Longrightarrow> in_transaction (st_conn s) \<Longrightarrow> inside s t"
  using keepsD [OF contained inside_refl] by blast

lemma transaction_cases:
  assumes q: "quiescent s" and tr: "transaction v body s = (res, t)"
  obtains (failed) e where "res = Inl e" "durable t = durable s" "frontier_same s t"
      "cn_faults (st_conn s) = [] \<Longrightarrow> visible t = visible s \<and> quiescent t \<and> cn_faults (st_conn t) = []"
      "cn_faults (st_conn s) = [] \<Longrightarrow> vr_ok v \<Longrightarrow> \<exists>s1 s2. entered s s1 \<and> body s1 = (Inl e, s2) \<and> st_graph t = st_graph s2 \<and> st_read_only t = st_read_only s2"
  | (finished) x s1 s2 where "res = Inr x" "vr_ok v" "body s1 = (Inr x, s2)" "entered s s1" "visible t = visible s2"
      "durable t = visible s2" "frontier_same s2 t" "quiescent t" "st_graph t = st_graph s2" "st_read_only t = st_read_only s2"
      "cn_faults (st_conn s) = [] \<Longrightarrow> cn_faults (st_conn t) = []"
proof -
  obtain n s0 where m: "on_conn mt_init s = (Inr n, s0)" by (auto simp: on_conn_def mt_init_def)
  obtain r1 s1 where e: "on_conn (mt_enter v n) s0 = (r1, s1)" by force
  note o = opened [OF m e]
  have q': "cn_savepoints (st_conn s) = []" "\<not> cn_begin (st_conn s)" "visible s = durable s" "st_txn_depth s = 0"
    using q by (auto simp: quiescent_def in_transaction_def)
  show thesis
  proof (cases r1)
    case (Inl e1)
    then have "res = Inl e1" "t = s1" using tr m e by (simp_all add: transaction_def)
    then show thesis using o q q' Inl
      by (intro failed) (auto simp: frontier_same_def quiescent_def in_transaction_def)
  next
    case (Inr u)
    then have sp: "cn_savepoints (st_conn s1) = [(n, visible s)]" "vr_ok v" using o q' by auto
    obtain r2 s2 where b: "body (depth_in s1) = (r2, s2)" by force
    have dep: "0 < st_txn_depth (depth_in s1)" "in_transaction (st_conn (depth_in s1))"
      using sp by (simp_all add: depth_in_def in_transaction_def)
    note ins = body_inside [OF b dep]
    have i: "durable s2 = durable s" "cn_savepoints (st_conn s2) = [(n, visible s)]" "\<not> cn_begin (st_conn s2)" "st_txn_depth s2 = 1"
      "cn_faults (st_conn s) = [] \<longrightarrow> cn_faults (st_conn s2) = []"
      using ins o sp q' Inr by (auto simp: inside_def depth_in_def durable_def)
    have ent: "entered s (depth_in s1)" using o sp q'
      by (auto simp: entered_def depth_in_def visible_def durable_def frontier_same_def in_transaction_def)
    show thesis
    proof (cases r2)
      case (Inl e2)
      obtain r3 c where x: "mt_exit_error n (st_conn s2) = (r3, c)" by force
      then have t: "t = restore_frontier s ((depth_out s2)\<lparr>st_conn := c\<rparr>)" and "\<exists>e. res = Inl e"
        using tr m e b \<open>r1 = Inr u\<close> Inl
        by (auto simp: transaction_def close_failed_def on_conn_def depth_out_def split: sum.splits)
      then obtain e3 where res: "res = Inl e3" by blast
      have f: "r3 = Inr ()" "cn_faults c = []" if "cn_faults (st_conn s) = []"
        using that mt_exit_error_live [OF i(2) _ x] i(5) by auto
      have "durable t = durable s" "visible t = visible s \<and> cn_savepoints c = [] \<or> (\<exists>e. r3 = Inl e)" "\<not> cn_begin c"
        using mt_exit_error_spec [OF i(2) x] i q' by (auto simp: t restore_frontier_def durable_def visible_def durable_after_release_def)
      moreover have "e3 = e2" if "cn_faults (st_conn s) = []"
        using f(1) [OF that] res tr m e b x \<open>r1 = Inr u\<close> Inl by (simp add: transaction_def close_failed_def on_conn_def depth_out_def)
      ultimately show thesis using res f q' i b ent Inl
        by (intro failed [OF res]) (auto simp: t restore_frontier_def frontier_same_def quiescent_def in_transaction_def
            depth_out_def visible_def durable_def)
    next
      case (Inr y)
      obtain r3 c where x: "mt_exit_clean n (st_conn s2) = (r3, c)" by force
      note c = mt_exit_clean_spec [OF i(2) x]
      show thesis
      proof (cases r3)
        case (Inl e3)
        then have t: "t = restore_frontier s ((depth_out s2)\<lparr>st_conn := c\<rparr>)" and res: "res = Inl e3"
          using tr m e b \<open>r1 = Inr u\<close> Inr x by (auto simp: transaction_def close_clean_def on_conn_def depth_out_def)
        have "cn_faults (st_conn s) \<noteq> []" using mt_exit_clean_live [OF i(2) _ x] i(5) Inl by auto
        then show thesis using c i q' Inl
          by (intro failed [OF res]) (auto simp: t restore_frontier_def frontier_same_def durable_def durable_after_release_def)
      next
        case fin: (Inr z)
        then have t: "t = (depth_out s2)\<lparr>st_conn := c\<rparr>" and res: "res = Inr y"
          using tr m e b \<open>r1 = Inr u\<close> Inr x by (auto simp: transaction_def close_clean_def on_conn_def depth_out_def)
        have "cn_faults (st_conn t) = []" if "cn_faults (st_conn s) = []"
          using that mt_exit_clean_live [OF i(2) _ x] i(5) by (auto simp: t)
        then show thesis using c i Inr fin b ent sp
          by (intro finished [OF res]) (auto simp: t visible_def durable_def durable_after_release_def frontier_same_def
              quiescent_def in_transaction_def depth_out_def)
      qed
    qed
  qed
qed

lemma transaction_live:
  assumes q: "quiescent s" and f: "cn_faults (st_conn s) = []" and v: "vr_ok v"
    and b: "\<And>s1. entered s s1 \<Longrightarrow> cn_faults (st_conn s1) = [] \<Longrightarrow> \<exists>x s2. body s1 = (Inr x, s2)"
  shows "\<exists>x t. transaction v body s = (Inr x, t)"
proof -
  obtain n s0 where m: "on_conn mt_init s = (Inr n, s0)" by (auto simp: on_conn_def mt_init_def)
  obtain r1 s1 where e: "on_conn (mt_enter v n) s0 = (r1, s1)" by force
  note o = opened [OF m e]
  then have sp: "r1 = Inr ()" "cn_savepoints (st_conn s1) = (n, visible s) # cn_savepoints (st_conn s)" "cn_faults (st_conn s1) = []"
    using f v by auto
  have ent: "entered s (depth_in s1)" using o sp
    by (auto simp: entered_def depth_in_def visible_def durable_def frontier_same_def in_transaction_def)
  obtain x s2 where x: "body (depth_in s1) = (Inr x, s2)" using b [OF ent] sp by (auto simp: depth_in_def)
  have ins: "inside (depth_in s1) s2" using ent by (intro body_inside [OF x]) (simp_all add: entered_def)
  then have i: "cn_savepoints (st_conn s2) = (n, visible s) # cn_savepoints (st_conn s)" "cn_faults (st_conn s2) = []"
    using sp by (simp_all add: inside_def depth_in_def)
  obtain r3 c where c: "mt_exit_clean n (st_conn s2) = (r3, c)" by force
  from mt_exit_clean_live [OF i c] have "r3 = Inr ()" by simp
  then show ?thesis using m e x c sp(1) by (simp add: transaction_def close_clean_def on_conn_def depth_out_def)
qed

end

lemma governed_blockI: "\<forall>s0. keeps (inside s0) body \<Longrightarrow> governed_block body"
  by unfold_locales blast

text \<open>C5. Atomicity of the deferred-commit seam, for every fault script and every block that
  keeps the contract: when the transaction raises (the block raised, or the final release failed) no durable
  state and no part of the Python-side frontier has changed; when it returns, the block ran exactly once to its
  end and everything it did, and nothing else, is durable.\<close>

theorem transaction_atomic:
  assumes "\<forall>s0. keeps (inside s0) body" "quiescent s" "transaction v body s = (res, t)"
  shows "case res of
      Inl e \<Rightarrow> durable t = durable s \<and> frontier_same s t
    | Inr x \<Rightarrow> \<exists>s1 s2. entered s s1 \<and> body s1 = (Inr x, s2) \<and> durable t = visible s2 \<and> visible t = visible s2 \<and>
        frontier_same s2 t \<and> quiescent t \<and> vr_ok v"
  by (cases rule: governed_block.transaction_cases [OF governed_blockI [OF assms(1)] assms(2,3)]) auto

subsection \<open>The blocks of the store\<close>

lemma keeps_inside_run_ddl [keeps_intros]: "keeps (inside s0) (run_ddl sem stmt)"
proof -
  have "keeps (inside s0) (case r of None \<Rightarrow> sraise e | Some sch \<Rightarrow> on_conn (ddl (\<lambda>d. d\<lparr>db_tables := sch\<rparr>)))" for r e
    by (cases r) (simp_all add: keeps_inside_ddl)
  then show ?thesis unfolding run_ddl_def by (intro keeps_intros)
qed

lemma keeps_run_all: "(\<And>x. keeps I (f x)) \<Longrightarrow> keeps I (run_all f xs)"
  by (induction xs) (auto intro: keeps_intros)

lemma keeps_inside_migration: "keeps (inside s0) (migration_body sem stmts intent description before)"
  unfolding migration_body_def schema_hash_now_def storage_frame_write_def by (intro keeps_intros keeps_run_all)

lemma keeps_inside_prune: "keeps (inside s0) (prune_body seal intent description boundary n)"
  unfolding prune_body_def storage_frame_write_def by (intro keeps_intros)

interpretation writing: governed_block "store_write a" for a
  by unfold_locales (rule keeps_inside_write)

interpretation migration: governed_block "migration_body sem stmts intent description before" for sem stmts intent description before
  by unfold_locales (rule keeps_inside_migration)

interpretation pruning: governed_block "prune_body seal intent description boundary n" for seal intent description boundary n
  by unfold_locales (rule keeps_inside_prune)

lemma transaction_write_live:
  assumes "quiescent s" "\<not> st_read_only s" "flat_graph (st_graph s)" "admissible_args a" "cn_faults (st_conn s) = []"
  shows "\<exists>r t. transaction valid_result (store_write a) s = (Inr r, t)"
  by (rule writing.transaction_live [OF assms(1,5)])
    (use assms in \<open>auto simp: valid_result_def entered_def intro: store_write_live\<close>)

theorem transaction_atomic_witness:
  "\<exists>r t. transaction valid_result (store_write note_args) (fresh_store []) = (Inr r, t) \<and> quiescent t \<and> durable t = visible t"
proof -
  obtain r t where w: "transaction valid_result (store_write note_args) (fresh_store []) = (Inr r, t)"
    using transaction_write_live fresh_store_ok note_args_admissible by blast
  have "\<forall>s0. keeps (inside s0) (store_write note_args)" by (simp add: keeps_inside_write)
  from transaction_atomic [OF this fresh_store_ok(2) w] w show ?thesis by auto
qed

end
