(* ===== verification/Lifecycle.thy ===== *)
theory Lifecycle
  imports Seam
begin

text \<open>
  The two governed blocks of the store that rewrite it: \<open>migrate_schema\<close> and \<open>seal_and_prune_epoch\<close>. Both are
  shown atomic for every fault script, with the exact durable state they leave, and pruning is shown to succeed
  on every chained store in the absence of faults.
\<close>

subsection \<open>Storage-frame receipts\<close>

definition frame_args :: "string \<Rightarrow> string \<Rightarrow> json \<Rightarrow> write_args" where
  "frame_args opn intent params = (default_write opn ''storage-frame'' params)\<lparr>wa_intent := Some intent\<rparr>"

definition unmarked :: "json \<Rightarrow> bool" where
  \<comment> \<open>no key of the parameters is promoted to a typed column\<close>
  "unmarked p \<longleftrightarrow> is_obj p \<and> jget (obj_fields p) ''effect_atomicity'' = JNull \<and>
     (\<forall>k\<in>set RECONCILIATION_KEYS. map_of (obj_fields p) k = None)"

lemma unmarked_resolves: "unmarked p \<Longrightarrow> resolve_effect_surface p None False = Inr (None, p)"
  by (simp add: unmarked_def resolve_effect_surface_def derive_effect_columns_def Let_def)

lemma unmarked_promotes: "unmarked p \<Longrightarrow> promote_reconciliation p g x = Inr (p, g, x)"
  by (simp add: unmarked_def promote_reconciliation_def)

lemma frame_args_surfaces: "\<exists>sf. write_surfaces (frame_args opn intent p) = Inr sf"
  by (cases "derive_committed_outcome opn False None intent")
    (simp add: write_surfaces_def frame_args_def default_write_def write_intent_def)

lemma frame_args_admissible: "unmarked p \<Longrightarrow> admissible_args (frame_args opn intent p)"
  using frame_args_surfaces [of opn intent p] unmarked_resolves [of p] unmarked_promotes [of p]
  by (simp add: admissible_args_def frame_args_def default_write_def unmarked_def)

definition frame_row :: "string \<Rightarrow> string \<Rightarrow> json \<Rightarrow> receipt \<Rightarrow> bool" where
  "frame_row opn intent p row \<longleftrightarrow> r_op row = opn \<and> r_authority row = ''storage-frame'' \<and> r_intent row = intent \<and>
     r_parameters row = norm_json p"

lemma storage_frame_write_Inr:
  assumes "storage_frame_write opn intent p s = (Inr r', t)" "unmarked p"
  obtains row where "db_rows (visible t) = db_rows (visible s) @ [row]" "frame_row opn intent p row"
    "r_receipt_id row = Some (Suc (db_seq (visible s)))" "db_seq (visible t) = Suc (db_seq (visible s))"
    "db_tables (visible t) = db_tables (visible s)" "st_prior_h_r t = r_h_r row" "r_h_r row \<noteq> []" "others_same s t"
proof -
  have "store_write (frame_args opn intent p) s = (Inr r', t)"
    using assms(1) by (simp add: storage_frame_write_def frame_args_def)
  then show thesis
  proof (rule store_write_Inr)
    fix r assume r: "prepared (frame_args opn intent p) s r" and v: "visible t = insert_row (stored_row (frame_args opn intent p) r) (visible s)"
      and h: "st_prior_h_r t = r_h_r r" and o: "others_same s t"
    note k = prepared_receipt [OF r]
    have f: "r_parameters r = p" "r_authority r = ''storage-frame''"
      using r unmarked_resolves [OF assms(2)] unmarked_promotes [OF assms(2)]
      by (auto simp: prepared_def frame_args_def default_write_def sealed_def build_receipt_def)
    have row: "frame_row opn intent p (row_of (frame_args opn intent p) r (visible s))"
      using k f by (simp add: frame_row_def row_of_def stored_row_def frame_args_def default_write_def write_intent_def)
    show thesis by (rule that [OF _ row]) (use v h k o in auto)
  qed
qed

lemma storage_frame_write_live:
  assumes "\<not> st_read_only s" "flat_graph (st_graph s)" "cn_faults (st_conn s) = []" "unmarked p"
  shows "\<exists>r t. storage_frame_write opn intent p s = (Inr r, t)"
  using store_write_live [OF assms(1,2) frame_args_admissible [OF assms(4)] assms(3)]
  by (simp add: storage_frame_write_def frame_args_def)

subsection \<open>Migration\<close>

fun apply_ddl :: "ddl_semantics \<Rightarrow> string list \<Rightarrow> db_schema \<Rightarrow> db_schema option" where
  \<comment> \<open>reference: the statements in order, none in error\<close>
  "apply_ddl sem [] sch = Some sch"
| "apply_ddl sem (x # xs) sch = Option.bind (sem x sch) (apply_ddl sem xs)"

lemma run_ddl_Inr:
  assumes "run_ddl sem stmt s = (Inr u, t)"
  shows "\<exists>sch c. sem stmt (db_tables (visible s)) = Some sch \<and> visible t = (visible s)\<lparr>db_tables := sch\<rparr> \<and> t = s\<lparr>st_conn := c\<rparr>"
proof -
  obtain sch c where sch: "sem stmt (db_tables (visible s)) = Some sch"
    and c: "ddl (\<lambda>d. d\<lparr>db_tables := sch\<rparr>) (st_conn s) = (Inr u, c)" and t: "t = s\<lparr>st_conn := c\<rparr>"
    using assms by (auto simp: run_ddl_def prog_eqs on_conn_eq sraise_def split: option.splits)
  from c have "cn_visible c = (cn_visible (st_conn s))\<lparr>db_tables := sch\<rparr>"
    unfolding ddl_def by (cases rule: statement_cases) auto
  with sch t show ?thesis by (auto simp: visible_def)
qed

lemma run_all_ddl:
  assumes "run_all (run_ddl sem) stmts s = (Inr u, t)"
  shows "\<exists>sch c. apply_ddl sem stmts (db_tables (visible s)) = Some sch \<and> visible t = (visible s)\<lparr>db_tables := sch\<rparr> \<and> t = s\<lparr>st_conn := c\<rparr>"
  using assms
proof (induction stmts arbitrary: s)
  case Nil
  then show ?case by (auto simp: prog_eqs intro!: exI [of _ "st_conn s"])
next
  case (Cons x xs)
  then obtain v m where m: "run_ddl sem x s = (Inr v, m)" and x: "run_all (run_ddl sem) xs m = (Inr u, t)"
    by (auto simp: sthen_eq_Inr)
  from run_ddl_Inr [OF m] Cons.IH [OF x] show ?case by fastforce
qed

lemma unmarked_migration [simp]: "unmarked (migration_params intent description before after stmts)"
  by (simp add: unmarked_def migration_params_def jget_def RECONCILIATION_KEYS_def)

definition migrated :: "ddl_semantics \<Rightarrow> string list \<Rightarrow> string \<Rightarrow> string \<Rightarrow> db \<Rightarrow> db \<Rightarrow> bool" where
  \<comment> \<open>the statements took effect in order and one receipt records the two fingerprints\<close>
  "migrated sem stmts intent description d d' \<longleftrightarrow>
     apply_ddl sem stmts (db_tables d) = Some (db_tables d') \<and>
     (\<exists>row. db_rows d' = db_rows d @ [row] \<and> frame_row ''schema_migrated'' intent (migration_params intent description
        (compute_schema_hash (db_tables d)) (compute_schema_hash (db_tables d')) stmts) row)"

lemma frontier_ok_cong:
  "db_rows (visible t) = db_rows (visible s) \<Longrightarrow> db_seq (visible t) = db_seq (visible s) \<Longrightarrow> st_prior_h_r t = st_prior_h_r s \<Longrightarrow>
   frontier_ok anchor t = frontier_ok anchor s"
  by (simp add: frontier_ok_def ids_ok_def)

lemma migration_body_Inr:
  assumes "migration_body sem stmts intent description (compute_schema_hash (db_tables (visible s))) s = (Inr after, t)"
    "frontier_ok anchor s"
  shows "migrated sem stmts intent description (visible s) (visible t) \<and> after = compute_schema_hash (db_tables (visible t)) \<and>
    frontier_ok anchor t"
proof -
  let ?b = "compute_schema_hash (db_tables (visible s))"
  obtain s1 r where d: "run_all (run_ddl sem) stmts s = (Inr (), s1)" and a: "after = compute_schema_hash (db_tables (visible s1))"
    and w: "storage_frame_write ''schema_migrated'' intent (migration_params intent description ?b after stmts) s1 = (Inr r, t)"
    using assms(1) by (auto simp: migration_body_def schema_hash_now_def prog_eqs)
  obtain sch c where sch: "apply_ddl sem stmts (db_tables (visible s)) = Some sch" "visible s1 = (visible s)\<lparr>db_tables := sch\<rparr>"
    and s1: "s1 = s\<lparr>st_conn := c\<rparr>" using run_all_ddl [OF d] by blast
  have "frontier_ok anchor s1" using frontier_ok_cong [of s1 s anchor] assms(2) sch s1 by simp
  then have "frontier_ok anchor t" using write_keeps_frontier w by (simp add: storage_frame_write_def)
  from w unmarked_migration show ?thesis
  proof (rule storage_frame_write_Inr)
    fix row assume "db_rows (visible t) = db_rows (visible s1) @ [row]" "db_tables (visible t) = db_tables (visible s1)"
      "frame_row ''schema_migrated'' intent (migration_params intent description ?b after stmts) row"
    then show ?thesis using sch a \<open>frontier_ok anchor t\<close> by (simp add: migrated_def)
  qed
qed

text \<open>C9. Live migration, for every fault script and whatever SQLite makes of the statements: a
  migration that raises has changed neither the durable schema, nor a durable row, nor the frontier, nor the
  cached fingerprint; one that returns has validated every statement, applied them in order, appended exactly one
  receipt that records the fingerprints before and after, kept the chain, and cached the fingerprint of the
  schema that is now durable.\<close>

theorem migration_atomic:
  assumes "quiescent s" "frontier_ok anchor s" "migrate_schema sem statements intent description s = (res, t)"
  shows "case res of
      Inl e \<Rightarrow> durable t = durable s \<and> frontier_same s t
    | Inr (before, after) \<Rightarrow> \<exists>stmts. statements = Some stmts \<and> stmts \<noteq> [] \<and> strip intent \<noteq> [] \<and> \<not> st_read_only s \<and>
        list_all (\<lambda>x. validate_migration_statement x = None) stmts \<and>
        migrated sem stmts intent description (durable s) (durable t) \<and> frontier_ok anchor t \<and> quiescent t \<and>
        before = compute_schema_hash (db_tables (durable s)) \<and> after = compute_schema_hash (db_tables (durable t)) \<and>
        st_schema_hash t = after"
proof (cases "\<not> st_read_only s \<and> strip intent \<noteq> [] \<and> (\<exists>stmts. statements = Some stmts \<and> stmts \<noteq> [] \<and>
    list_all (\<lambda>x. validate_migration_statement x = None) stmts)")
  case False
  then have "\<exists>e. res = Inl e \<and> t = s" using assms(3)
    by (cases statements) (auto simp: migrate_schema_def sbind_def sthen_def sget_def sguard_def sraise_def sret_def split: if_splits)
  then show ?thesis by (auto simp: frontier_same_def)
next
  case True
  then obtain stmts where st: "statements = Some stmts" "stmts \<noteq> []" "list_all (\<lambda>x. validate_migration_statement x = None) stmts" by blast
  let ?b = "compute_schema_hash (db_tables (visible s))"
  obtain q t1 where tr: "transaction valid_result (migration_body sem stmts intent description ?b) s = (q, t1)" by force
  have m: "(res, t) = (case q of Inl e \<Rightarrow> (Inl e, t1) | Inr after \<Rightarrow> (Inr (?b, after), t1\<lparr>st_schema_hash := after\<rparr>))"
    using assms(3) True st tr
    by (auto simp: migrate_schema_def schema_hash_now_def sbind_def sthen_def sget_def smodify_def sret_def split: sum.splits)
  have vis: "visible s = durable s" using assms(1) by (simp add: quiescent_def)
  from assms(1) tr show ?thesis
  proof (cases rule: migration.transaction_cases)
    case (failed e)
    then show ?thesis using m by (auto simp: frontier_same_def)
  next
    case (finished after s1 s2)
    have v: "visible s1 = visible s" using finished(4) by (simp add: entered_def)
    have "frontier_ok anchor s1" using frontier_ok_cong [of s1 s anchor] finished(4) assms(2) by (simp add: entered_def frontier_same_def)
    from migration_body_Inr [OF finished(3) [folded v] this]
    have b: "migrated sem stmts intent description (durable s) (durable t1)" "after = compute_schema_hash (db_tables (durable t1))"
      "frontier_ok anchor s2" using v vis finished by auto
    moreover have "t = t1\<lparr>st_schema_hash := after\<rparr>" "res = Inr (?b, after)" using m finished by auto
    moreover have "frontier_ok anchor t1" using frontier_ok_cong [of t1 s2 anchor] b(3) finished by (simp add: frontier_same_def)
    ultimately show ?thesis using True st vis finished
      by (auto simp: durable_def quiescent_def visible_def frontier_ok_def)
  qed
qed

lemma run_ddl_live:
  assumes "sem stmt (db_tables (visible s)) = Some sch" "cn_faults (st_conn s) = []"
  shows "\<exists>c. run_ddl sem stmt s = (Inr (), s\<lparr>st_conn := c\<rparr>) \<and> cn_visible c = (visible s)\<lparr>db_tables := sch\<rparr> \<and> cn_faults c = []"
proof -
  obtain c where "ddl (\<lambda>d. d\<lparr>db_tables := sch\<rparr>) (st_conn s) = (Inr (), c)" "cn_visible c = (visible s)\<lparr>db_tables := sch\<rparr>" "cn_faults c = []"
    using assms(2) by (cases "in_transaction (st_conn s)") (simp_all add: ddl_def statement_def visible_def)
  then show ?thesis using assms(1) by (auto simp: run_ddl_def sbind_def sget_def on_conn_def)
qed

lemma run_all_ddl_live:
  assumes "apply_ddl sem stmts (db_tables (visible s)) = Some sch" "cn_faults (st_conn s) = []"
  shows "\<exists>c. run_all (run_ddl sem) stmts s = (Inr (), s\<lparr>st_conn := c\<rparr>) \<and> cn_faults c = []"
  using assms
proof (induction stmts arbitrary: s)
  case Nil
  then show ?case by (auto simp: sret_def intro!: exI [of _ "st_conn s"])
next
  case (Cons x xs)
  then obtain m where m: "sem x (db_tables (visible s)) = Some m" "apply_ddl sem xs m = Some sch"
    by (auto simp: bind_eq_Some_conv)
  obtain c where c: "run_ddl sem x s = (Inr (), s\<lparr>st_conn := c\<rparr>)" "cn_visible c = (visible s)\<lparr>db_tables := m\<rparr>" "cn_faults c = []"
    using run_ddl_live [of sem x s, OF m(1) Cons.prems(2)] by blast
  have "apply_ddl sem xs (db_tables (visible (s\<lparr>st_conn := c\<rparr>))) = Some sch" using m c by (simp add: visible_def)
  from Cons.IH [OF this] c show ?case by (auto simp: sthen_Inr)
qed

lemma migration_live:
  assumes "quiescent s" "\<not> st_read_only s" "flat_graph (st_graph s)" "cn_faults (st_conn s) = []" "strip intent \<noteq> []" "stmts \<noteq> []"
    "list_all (\<lambda>x. validate_migration_statement x = None) stmts" "apply_ddl sem stmts (db_tables (visible s)) = Some sch"
  shows "\<exists>before after t. migrate_schema sem (Some stmts) intent description s = (Inr (before, after), t)"
proof -
  let ?b = "compute_schema_hash (db_tables (visible s))"
  have "\<exists>x s2. migration_body sem stmts intent description ?b s1 = (Inr x, s2)" if e: "entered s s1" "cn_faults (st_conn s1) = []" for s1
  proof -
    have "apply_ddl sem stmts (db_tables (visible s1)) = Some sch" using e assms(8) by (simp add: entered_def)
    from run_all_ddl_live [OF this e(2)] obtain c where
      c: "run_all (run_ddl sem) stmts s1 = (Inr (), s1\<lparr>st_conn := c\<rparr>)" "cn_faults c = []" by blast
    let ?p = "migration_params intent description ?b (compute_schema_hash (db_tables (visible (s1\<lparr>st_conn := c\<rparr>)))) stmts"
    have "\<exists>r t. storage_frame_write ''schema_migrated'' intent ?p (s1\<lparr>st_conn := c\<rparr>) = (Inr r, t)"
      by (rule storage_frame_write_live) (use e c assms in \<open>simp_all add: entered_def\<close>)
    then show ?thesis using c by (auto simp: migration_body_def schema_hash_now_def sthen_Inr sbind_def sget_def sthen_def sret_def)
  qed
  moreover have "vr_ok valid_result" by (simp add: valid_result_def)
  ultimately obtain x t where "transaction valid_result (migration_body sem stmts intent description ?b) s = (Inr x, t)"
    using migration.transaction_live [OF assms(1,4)] by blast
  then show ?thesis using assms(2,5-7)
    by (auto simp: migrate_schema_def schema_hash_now_def sbind_def sthen_def sget_def smodify_def sret_def)
qed

theorem migration_atomic_witness:
  "\<exists>before after t. migrate_schema (\<lambda>_ sch. Some sch) (Some [''CREATE TABLE extra (id INTEGER)'']) ''widen'' [] (fresh_store [])
      = (Inr (before, after), t) \<and> st_schema_hash t = after \<and> frontier_ok GENESIS t"
proof -
  have strip: "strip ''widen'' \<noteq> []" by code_simp
  have strip: "strip ''widen'' \<noteq> []" by code_simp
  have "validate_migration_statement ''CREATE TABLE extra (id INTEGER)'' = None" by code_simp
  then obtain b a t where m: "migrate_schema (\<lambda>_ sch. Some sch) (Some [''CREATE TABLE extra (id INTEGER)'']) ''widen'' [] (fresh_store [])
      = (Inr (b, a), t)"
    using migration_live [of "fresh_store []" "''widen''" "[''CREATE TABLE extra (id INTEGER)'']" "\<lambda>_ sch. Some sch"] strip
    by (fastforce simp: fresh_store_ok)
  from migration_atomic [OF fresh_store_ok(2,1) m] m show ?thesis by auto
qed

subsection \<open>Epoch pruning\<close>

definition sealed_params :: "string \<Rightarrow> string \<Rightarrow> string \<Rightarrow> nat \<Rightarrow> nat \<Rightarrow> json" where
  "sealed_params seal intent description b n = JObj
     [(''intent'', JStr intent), (''description'', JStr description), (''seal_hash'', JStr seal),
      (''sealed_through_receipt_id'', JInt (int b)), (''sealed_count'', JInt (int n))]"

definition pruned_params :: "string \<Rightarrow> string \<Rightarrow> nat \<Rightarrow> nat \<Rightarrow> json" where
  "pruned_params seal intent b n = JObj
     [(''intent'', JStr intent), (''seal_hash'', JStr seal),
      (''pruned_through_receipt_id'', JInt (int b)), (''pruned_count'', JInt (int n))]"

lemma unmarked_epoch [simp]: "unmarked (sealed_params seal intent description b n)" "unmarked (pruned_params seal intent b n)"
  by (simp_all add: unmarked_def sealed_params_def pruned_params_def jget_def RECONCILIATION_KEYS_def)

definition kept :: "nat \<Rightarrow> receipt list \<Rightarrow> receipt list" where
  "kept b = filter (\<lambda>r. \<not> id_le b r)"

definition epoch_receipts :: "string \<Rightarrow> string \<Rightarrow> string \<Rightarrow> nat \<Rightarrow> nat \<Rightarrow> receipt list \<Rightarrow> bool" where
  "epoch_receipts seal intent description b n rows \<longleftrightarrow> (\<exists>r1 r2. rows = [r1, r2] \<and>
     frame_row ''epoch_sealed'' intent (sealed_params seal intent description b n) r1 \<and>
     frame_row ''epoch_pruned'' intent (pruned_params seal intent b n) r2)"

definition two_written :: "string \<Rightarrow> string \<Rightarrow> string \<Rightarrow> nat \<Rightarrow> nat \<Rightarrow> store \<Rightarrow> store \<Rightarrow> receipt list \<Rightarrow> bool" where
  \<comment> \<open>the state between the two receipts and the deletion\<close>
  "two_written seal intent description b n s s2 rows \<longleftrightarrow>
     db_rows (visible s2) = db_rows (visible s) @ rows \<and> epoch_receipts seal intent description b n rows \<and>
     (\<forall>r\<in>set rows. \<exists>i. r_receipt_id r = Some i \<and> db_seq (visible s) < i) \<and>
     st_prior_h_r s2 = r_h_r (last rows) \<and> r_h_r (last rows) \<noteq> []"

lemma two_writes:
  assumes "storage_frame_write ''epoch_sealed'' intent (sealed_params seal intent description b n) s = (Inr x, s1)"
    "storage_frame_write ''epoch_pruned'' intent (pruned_params seal intent b n) s1 = (Inr y, s2)"
  shows "\<exists>rows. two_written seal intent description b n s s2 rows"
  by (rule storage_frame_write_Inr [OF assms(1) unmarked_epoch(1)], rule storage_frame_write_Inr [OF assms(2) unmarked_epoch(2)])
    (auto simp: two_written_def epoch_receipts_def)

lemma kept_append: "kept b (xs @ ys) = kept b xs @ kept b ys"
  by (simp add: kept_def)

lemma kept_new:
  assumes "two_written seal intent description b n s s2 rows" "b \<le> db_seq (visible s)"
  shows "kept b (db_rows (visible s2)) = kept b (db_rows (visible s)) @ rows" "rows \<noteq> []"
  using assms by (auto simp: two_written_def kept_append epoch_receipts_def kept_def id_le_def)

lemma tip_of_append: "rows \<noteq> [] \<Longrightarrow> r_h_r (last rows) \<noteq> [] \<Longrightarrow> tip_of (xs @ rows) = r_h_r (last rows)"
  by (simp add: tip_of_def)

lemma ids_ok_delete: "ids_ok d \<Longrightarrow> ids_ok (delete_through b d)"
  unfolding ids_ok_def delete_through_def by (auto simp: sorted_wrt_map intro: sorted_wrt_filter)

lemma prune_body_Inr:
  assumes body: "prune_body seal intent description b n s = (Inr (before, after), t)"
    and f: "frontier_ok anchor s" and b: "b \<le> db_seq (visible s)"
  shows "\<exists>rows. db_rows (visible t) = kept b (db_rows (visible s)) @ rows \<and> epoch_receipts seal intent description b n rows \<and>
    before = after \<and> after = st_prior_h_r t \<and> frontier_ok seal t"
proof -
  obtain x s1 y s2 c where w: "storage_frame_write ''epoch_sealed'' intent (sealed_params seal intent description b n) s = (Inr x, s1)"
      "storage_frame_write ''epoch_pruned'' intent (pruned_params seal intent b n) s1 = (Inr y, s2)"
    and c: "dml (delete_through b) (st_conn s2) = (Inr (), c)" and t: "t = s2\<lparr>st_conn := c\<rparr>"
    and g: "before = stream_hash s2" "after = stream_hash t" "after = before" "verify_from_seal t seal"
    using body by (auto simp: prune_body_def sealed_params_def pruned_params_def prog_eqs on_conn_eq)
  obtain rows where r: "two_written seal intent description b n s s2 rows" using two_writes [OF w] by blast
  note k = kept_new [OF r b]
  have "frontier_ok anchor s2" using w write_keeps_frontier f unfolding storage_frame_write_def by blast
  then have i: "ids_ok (visible s2)" by (simp add: frontier_ok_def)
  have v: "visible t = delete_through b (visible s2)" using dml_cases [OF c] t by (auto simp: visible_def)
  then have rows: "db_rows (visible t) = kept b (db_rows (visible s)) @ rows" using k by (simp add: delete_through_def kept_def)
  have h: "st_prior_h_r t = r_h_r (last rows)" "r_h_r (last rows) \<noteq> []" using r t by (simp_all add: two_written_def)
  have "after = st_prior_h_r t" using g(2) rows h k(2) by (simp add: stream_hash_def tip_of_append)
  moreover have "frontier_ok seal t"
    using g(4) h k(2) rows ids_ok_delete [OF i] v by (simp add: frontier_ok_def verify_from_seal_def all_receipts_def end_of_def)
  ultimately show ?thesis using rows r g by (auto simp: two_written_def)
qed

lemma row_to_receipt_chain [simp]:
  "r_receipt_id (row_to_receipt r) = r_receipt_id r" "r_h_r (row_to_receipt r) = r_h_r r" "r_parent_h_r (row_to_receipt r) = r_parent_h_r r"
  "id_le b (row_to_receipt r) = id_le b r"
  by (simp_all add: row_to_receipt_def id_le_def)

lemma kept_receipts: "filter (\<lambda>r. \<not> id_le b r) (map row_to_receipt rows) = map row_to_receipt (kept b rows)"
  by (simp add: kept_def filter_map comp_def)

lemma pruned_receipts: "length (filter (id_le b) (map row_to_receipt rows)) + length (kept b rows) = length rows"
  using sum_length_filter_compl [of "id_le b" rows] by (simp add: kept_def filter_map comp_def)

text \<open>C10. Epoch pruning, for every fault script: one that raises has changed no durable row and no
  frontier; one that returns leaves durable exactly the rows past the sealed row followed by the two receipts of
  the operation, chained from the seal, with the tip untouched by the deletion and the frontier at the last row;
  the report counts the rows that went and the rows that stay.\<close>

theorem prune_atomic:
  assumes "quiescent s" "frontier_ok anchor s" "seal_and_prune_epoch seal intent description s = (res, t)"
  shows "case res of
      Inl e \<Rightarrow> durable t = durable s \<and> frontier_same s t
    | Inr rep \<Rightarrow> (\<exists>rows. db_rows (durable t) = kept (pr_boundary rep) (db_rows (durable s)) @ rows \<and>
          epoch_receipts seal intent description (pr_boundary rep) (pr_pruned rep) rows) \<and>
        (\<exists>row\<in>set (db_rows (durable s)). r_h_r row = seal \<and> r_receipt_id row = Some (pr_boundary rep)) \<and>
        frontier_ok seal t \<and> quiescent t \<and> pr_tip_before rep = st_prior_h_r t \<and> pr_tip_after rep = st_prior_h_r t \<and>
        length (db_rows (durable t)) = pr_retained rep \<and> pr_pruned rep + pr_retained rep = length (db_rows (durable s)) + 2"
proof (cases "strip intent = [] \<or> find (\<lambda>r. r_h_r r = seal) (all_receipts s) = None")
  case True
  then have "\<exists>e. res = Inl e \<and> t = s" using assms(3)
    by (auto simp: seal_and_prune_epoch_def sbind_def sthen_def sget_def sguard_def sraise_def sret_def split: if_splits)
  then show ?thesis by (auto simp: frontier_same_def)
next
  case False
  then obtain bd where bd: "find (\<lambda>r. r_h_r r = seal) (all_receipts s) = Some bd" "strip intent \<noteq> []" by auto
  let ?rows = "db_rows (visible s)"
  have "bd \<in> set (all_receipts s)" "r_h_r bd = seal" using bd(1) by (auto simp: find_Some_iff)
  then obtain row where row: "row \<in> set ?rows" "r_h_r row = seal" "r_receipt_id bd = r_receipt_id row"
    by (auto simp: all_receipts_def)
  then obtain b where b: "r_receipt_id row = Some b" "b \<le> db_seq (visible s)" using assms(2) by (auto simp: frontier_ok_def ids_ok_def)
  let ?n = "length (filter (id_le b) (all_receipts s))" and ?fr = "filter (\<lambda>r. \<not> id_le b r) (all_receipts s)"
  show ?thesis
  proof (cases "verify_segment ?fr seal")
    case False
    then have "\<exists>e. res = Inl e \<and> t = s" using assms(3) bd b row
      by (auto simp: seal_and_prune_epoch_def sbind_def sthen_def sget_def sraise_def sret_def Let_def)
    then show ?thesis by (auto simp: frontier_same_def)
  next
    case True
    obtain q t1 where tr: "transaction valid_result (prune_body seal intent description b ?n) s = (q, t1)" by force
    then have m: "(res, t) = (case q of Inl e \<Rightarrow> (Inl e, t1) | Inr (before, after) \<Rightarrow> (Inr \<lparr>pr_seal_hash = seal, pr_boundary = b,
        pr_pruned = ?n, pr_retained = length ?fr + 2, pr_tip_before = before, pr_tip_after = after\<rparr>, t1))"
      using assms(3) bd b row True
      by (auto simp: seal_and_prune_epoch_def sbind_def sthen_def sget_def sret_def Let_def split: sum.splits prod.splits)
    have vis: "visible s = durable s" using assms(1) by (simp add: quiescent_def)
    from assms(1) tr show ?thesis
    proof (cases rule: pruning.transaction_cases)
      case (failed e)
      then show ?thesis using m by auto
    next
      case (finished x s1 s2)
      obtain before after where x: "x = (before, after)" by force
      have v: "visible s1 = visible s" using finished(4) by (simp add: entered_def)
      have "frontier_ok anchor s1" using frontier_ok_cong [of s1 s anchor] finished(4) assms(2) by (simp add: entered_def frontier_same_def)
      from prune_body_Inr [OF finished(3) [unfolded x] this] obtain rows where
        r: "db_rows (visible s2) = kept b ?rows @ rows" "epoch_receipts seal intent description b ?n rows" "before = after"
          "after = st_prior_h_r s2" "frontier_ok seal s2" using v b by auto
      have f: "frontier_ok seal t1" using frontier_ok_cong [of t1 s2 seal] r(5) finished by (simp add: frontier_same_def)
      have t: "t = t1" and res: "res = Inr \<lparr>pr_seal_hash = seal, pr_boundary = b,
        pr_pruned = ?n, pr_retained = length ?fr + 2, pr_tip_before = before, pr_tip_after = after\<rparr>" using m finished x by auto
      have "length rows = 2" using r(2) by (auto simp: epoch_receipts_def)
      moreover have "?n + length (kept b ?rows) = length ?rows" "length ?fr = length (kept b ?rows)"
        unfolding all_receipts_def kept_receipts by (rule pruned_receipts) simp
      ultimately show ?thesis using r f finished row b vis by (auto simp: res t frontier_same_def)
    qed
  qed
qed

lemma split_at_seal:
  assumes "ids_ok d" "db_rows d = pre @ row # suf" "r_receipt_id row = Some b"
  shows "kept b (db_rows d) = suf"
proof -
  have id: "\<exists>i. r_receipt_id r = Some i" if "r \<in> set (db_rows d)" for r using that assms(1) by (auto simp: ids_ok_def)
  have lt: "the (r_receipt_id r) < b" if "r \<in> set pre" for r using that assms by (auto simp: ids_ok_def sorted_wrt_append)
  have gt: "b < the (r_receipt_id r)" if "r \<in> set suf" for r using that assms by (auto simp: ids_ok_def sorted_wrt_append)
  have "id_le b r" if "r \<in> set pre" for r using id [of r] lt [OF that] that assms(2) by (auto simp: id_le_def)
  moreover have "\<not> id_le b r" if "r \<in> set suf" for r using id [of r] gt [OF that] that assms(2) by (auto simp: id_le_def)
  ultimately show ?thesis using assms(2,3) by (simp add: kept_def id_le_def)
qed

lemma kept_verifies:
  assumes "frontier_ok anchor s" "row \<in> set (db_rows (visible s))" "r_h_r row = seal" "r_receipt_id row = Some b"
  shows "verify_segment (kept b (db_rows (visible s))) seal"
proof -
  obtain pre suf where d: "db_rows (visible s) = pre @ row # suf" using assms(2) by (meson split_list)
  then show ?thesis using split_at_seal [OF _ d assms(4)] assms(1,3)
    by (auto simp: frontier_ok_def verify_segment_append split: if_splits)
qed

lemma prune_body_live:
  assumes f: "frontier_ok anchor s" and live: "\<not> st_read_only s" "flat_graph (st_graph s)" "cn_faults (st_conn s) = []"
    and row: "row \<in> set (db_rows (visible s))" "r_h_r row = seal" "r_receipt_id row = Some b"
    and ins: "0 < st_txn_depth s" "in_transaction (st_conn s)"
  shows "\<exists>x t. prune_body seal intent description b n s = (Inr x, t)"
proof -
  obtain x s1 where w1: "storage_frame_write ''epoch_sealed'' intent (sealed_params seal intent description b n) s = (Inr x, s1)"
    using storage_frame_write_live [OF live] unmarked_epoch by blast
  have i1: "inside s s1" using keepsD [OF keeps_inside_write inside_refl [OF ins]] w1 by (simp add: storage_frame_write_def)
  have "st_read_only s1 = st_read_only s" by (rule storage_frame_write_Inr [OF w1]) (auto simp: others_same_def)
  moreover have "flat_graph (st_graph s1)" using store_write_flat [OF live(2)] w1 by (simp add: storage_frame_write_def)
  moreover have "cn_faults (st_conn s1) = []" using i1 live(3) by (simp add: inside_def)
  ultimately obtain y s2 where w2: "storage_frame_write ''epoch_pruned'' intent (pruned_params seal intent b n) s1 = (Inr y, s2)"
    using storage_frame_write_live [of s1] unmarked_epoch(2) live(1) by blast
  have "inside s s2" using keepsD [OF keeps_inside_write i1] w2 by (simp add: storage_frame_write_def)
  then have nf: "cn_faults (st_conn s2) = []" using live by (simp add: inside_def)
  obtain rows where r: "two_written seal intent description b n s s2 rows" using two_writes [OF w1 w2] by blast
  have f2: "frontier_ok anchor s2" using w1 w2 write_keeps_frontier f unfolding storage_frame_write_def by blast
  have b: "b \<le> db_seq (visible s)" using f row by (fastforce simp: frontier_ok_def ids_ok_def)
  note k = kept_new [OF r b]
  have "row \<in> set (db_rows (visible s2))" using r row(1) by (simp add: two_written_def)
  note ver = kept_verifies [OF f2 this row(2,3)]
  obtain q c where c: "dml (delete_through b) (st_conn s2) = (q, c)" by force
  note d = dml_cases [OF c]
  have q: "q = Inr ()" "cn_visible c = delete_through b (visible s2)" using d nf by (auto simp: visible_def)
  let ?t = "s2\<lparr>st_conn := c\<rparr>"
  have vt: "db_rows (visible ?t) = kept b (db_rows (visible s2))" using q by (simp add: visible_def delete_through_def kept_def)
  have h: "r_h_r (last rows) \<noteq> []" "db_rows (visible s2) = db_rows (visible s) @ rows" using r by (simp_all add: two_written_def)
  have "stream_hash ?t = r_h_r (last rows)" "stream_hash s2 = r_h_r (last rows)"
    unfolding stream_hash_def vt k(1) using k(2) h by (simp_all add: tip_of_append)
  moreover have "verify_from_seal ?t seal" using ver vt by (simp add: verify_from_seal_def all_receipts_def)
  ultimately show ?thesis using w1 w2 c q
    by (simp add: prune_body_def sealed_params_def pruned_params_def sbind_def sthen_def sget_def on_conn_def sret_def)
qed

text \<open>C12. Liveness of pruning: on a chained store that is writable, with an authority graph of
  default bindings and no database fault, naming any committed root and a non-blank intent prunes; in particular
  the two internal checks of the operation (tip unchanged, remainder chained from the seal) never trip.\<close>

theorem prune_succeeds:
  assumes "quiescent s" "frontier_ok anchor s" "\<not> st_read_only s" "flat_graph (st_graph s)" "cn_faults (st_conn s) = []"
    "strip intent \<noteq> []" "seal \<in> r_h_r ` set (db_rows (durable s))"
  shows "\<exists>rep t. seal_and_prune_epoch seal intent description s = (Inr rep, t)"
proof -
  have vis: "visible s = durable s" using assms(1) by (simp add: quiescent_def)
  have "\<exists>r\<in>set (all_receipts s). r_h_r r = seal" using assms(7) vis by (auto simp: all_receipts_def)
  then obtain bd where bd: "find (\<lambda>r. r_h_r r = seal) (all_receipts s) = Some bd"
    using find_None_iff [of "\<lambda>r. r_h_r r = seal" "all_receipts s"] by fastforce
  then have "bd \<in> set (all_receipts s)" "r_h_r bd = seal" by (auto simp: find_Some_iff)
  then obtain row where row: "row \<in> set (db_rows (visible s))" "r_h_r row = seal" "r_receipt_id bd = r_receipt_id row"
    by (auto simp: all_receipts_def)
  then obtain b where b: "r_receipt_id row = Some b" using assms(2) by (auto simp: frontier_ok_def ids_ok_def)
  let ?n = "length (filter (id_le b) (all_receipts s))"
  have "\<exists>x s2. prune_body seal intent description b ?n s1 = (Inr x, s2)" if e: "entered s s1" "cn_faults (st_conn s1) = []" for s1
  proof (rule prune_body_live [OF _ _ _ e(2) _ row(2) b])
    show "frontier_ok anchor s1" using frontier_ok_cong [of s1 s anchor] e assms(2) by (simp add: entered_def frontier_same_def)
  qed (use e assms row in \<open>simp_all add: entered_def\<close>)
  moreover have "vr_ok valid_result" by (simp add: valid_result_def)
  ultimately obtain x t where "transaction valid_result (prune_body seal intent description b ?n) s = (Inr x, t)"
    using pruning.transaction_live [OF assms(1,5)] by blast
  moreover have "verify_segment (filter (\<lambda>r. \<not> id_le b r) (all_receipts s)) seal"
    using kept_verifies [OF assms(2) row(1,2) b] by (simp add: all_receipts_def kept_receipts)
  ultimately show ?thesis using assms(6) bd b row(3)
    by (cases x) (simp add: seal_and_prune_epoch_def sbind_def sthen_def sget_def sret_def Let_def)
qed

lemma note_store:
  obtains r t where "store_write note_args (fresh_store []) = (Inr r, t)" "quiescent t" "frontier_ok GENESIS t" "\<not> st_read_only t"
    "flat_graph (st_graph t)" "cn_faults (st_conn t) = []" "st_prior_h_r t \<in> r_h_r ` set (db_rows (durable t))"
proof -
  obtain r t where w: "store_write note_args (fresh_store []) = (Inr r, t)" using note_written by blast
  note f = write_keeps_frontier [OF fresh_store_ok(1) w]
  from w show thesis
  proof (rule store_write_Inr)
    fix r0 assume *: "visible t = insert_row (stored_row note_args r0) (visible (fresh_store []))" "st_prior_h_r t = r_h_r r0"
      "others_same (fresh_store []) t" "st_txn_depth (fresh_store []) = 0 \<Longrightarrow> durable t = visible t \<and> \<not> in_transaction (st_conn t)"
      "cn_faults (st_conn (fresh_store [])) = [] \<Longrightarrow> cn_faults (st_conn t) = []"
    have d: "st_txn_depth (fresh_store []) = 0" by (simp add: fresh_store_def)
    show thesis by (rule that [OF w _ f])
      (use * d fresh_store_ok store_write_flat [OF fresh_store_ok(4) w] in \<open>auto simp: quiescent_def others_same_def\<close>)
  qed
qed

theorem prune_succeeds_witness:
  "\<exists>t rep u. seal_and_prune_epoch (st_prior_h_r t) ''close epoch'' [] t = (Inr rep, u) \<and> quiescent t"
proof (rule note_store)
  fix r t assume t: "quiescent t" "frontier_ok GENESIS t" "\<not> st_read_only t" "flat_graph (st_graph t)" "cn_faults (st_conn t) = []"
    "st_prior_h_r t \<in> r_h_r ` set (db_rows (durable t))"
  have "strip ''close epoch'' \<noteq> []" by code_simp
  from prune_succeeds [OF t(1-5) this t(6)] t(1) show ?thesis by blast
qed

theorem prune_atomic_witness:
  "\<exists>res t. seal_and_prune_epoch GENESIS ''close epoch'' [] (fresh_store []) = (res, t) \<and> (\<exists>e. res = Inl e) \<and> durable t = durable (fresh_store [])"
proof -
  obtain res t where m: "seal_and_prune_epoch GENESIS ''close epoch'' [] (fresh_store []) = (res, t)" by force
  moreover have "\<exists>e. res = Inl e" using m fresh_store_ok(6) [of "[]"]
    by (auto simp: seal_and_prune_epoch_def all_receipts_def sthen_def sbind_def sget_def sguard_def sret_def sraise_def split: if_splits)
  ultimately show ?thesis using prune_atomic [OF fresh_store_ok(2,1) m] by auto
qed

end
