(* ===== verification/Reactor.thy ===== *)
theory Reactor
  imports Kernel Lifecycle
begin

text \<open>
  What \<open>execute\<close> guarantees: the effect runs only once its admission is durable, a refusal is receipted and runs
  nothing, and the outcome of an atomic effect is all or nothing.
\<close>

subsection \<open>Writes of the kernel\<close>

lemma kstore_eq: "kstore m k = (r, k') \<longleftrightarrow> (\<exists>s. m (k_store k) = (r, s) \<and> k' = k\<lparr>k_store := s\<rparr>)"
  by (auto simp: kstore_def split: prod.splits)

lemma kwrite_eq: "kwrite f k = (r, k') \<longleftrightarrow> (\<exists>s. store_write (f k) (k_store k) = (r, s) \<and> k' = k\<lparr>k_store := s\<rparr>)"
  by (simp add: kwrite_def kstore_eq)

definition quiet :: "kernel \<Rightarrow> bool" where
  "quiet k \<longleftrightarrow> quiescent (k_store k)"

abbreviation krows :: "kernel \<Rightarrow> receipt list" where
  \<comment> \<open>the durable rows\<close>
  "krows k \<equiv> db_rows (durable (k_store k))"

lemma row_of_fields [simp]:
  "r_op (row_of a r d) = (if wa_compress a then compress_field OP_TO_CSIL (r_op r) else r_op r)"
  "r_failed (row_of a r d) = r_failed r" "r_parameters (row_of a r d) = norm_json (r_parameters r)" "r_effect (row_of a r d) = r_effect r"
  "r_authority (row_of a r d) = r_authority r"
  by (simp_all add: row_of_def stored_row_def)

lemma kwrite_quiet:
  assumes "quiet k" "kwrite f k = (Inr r, k')"
  obtains row where "quiet k'" "krows k' = krows k @ [row]" "r_op row = (if wa_compress (f k) then compress_field OP_TO_CSIL (wa_op (f k)) else wa_op (f k))"
    "r_h_r row = r_h_r r" "r_failed row = wa_failed (f k)" "\<exists>s. k' = k\<lparr>k_store := s\<rparr>" "db_seq (durable (k_store k')) = Suc (db_seq (durable (k_store k)))"
    "r_receipt_id row = Some (Suc (db_seq (durable (k_store k))))" "prepared (f k) (k_store k) (r\<lparr>r_receipt_id := None\<rparr>)"
    "row = row_of (f k) (r\<lparr>r_receipt_id := None\<rparr>) (visible (k_store k))"
proof -
  obtain s where w: "store_write (f k) (k_store k) = (Inr r, s)" and k': "k' = k\<lparr>k_store := s\<rparr>" using assms(2) by (auto simp: kwrite_eq)
  from w show thesis
  proof (rule store_write_Inr)
    fix r0 assume r0: "prepared (f k) (k_store k) r0" "r = r0\<lparr>r_receipt_id := Some (Suc (db_seq (visible (k_store k))))\<rparr>"
      and v: "visible s = insert_row (stored_row (f k) r0) (visible (k_store k))" and o: "others_same (k_store k) s"
      and d: "st_txn_depth (k_store k) = 0 \<Longrightarrow> durable s = visible s \<and> \<not> in_transaction (st_conn s)"
    have q: "st_txn_depth (k_store k) = 0" "visible (k_store k) = durable (k_store k)" using assms(1) by (auto simp: quiet_def quiescent_def)
    have id: "r_receipt_id r0 = None" by (rule prepared_receipt(11) [OF r0(1)])
    then have r0': "r\<lparr>r_receipt_id := None\<rparr> = r0" using r0(2) by (cases r0) simp
    have f: "r_failed r0 = wa_failed (f k)" "r_op r0 = wa_op (f k)" using r0(1) by (auto simp: prepared_def sealed_def build_receipt_def)
    show thesis
      by (rule that [of "row_of (f k) r0 (visible (k_store k))"])
        (use v o d q k' r0 r0' f in \<open>auto simp: quiet_def quiescent_def others_same_def\<close>)
  qed
qed

subsection \<open>Admission before effect\<close>

definition steady :: "kernel \<Rightarrow> kernel \<Rightarrow> bool" where
  \<comment> \<open>nothing pending, and no row number has been given back\<close>
  "steady k k' \<longleftrightarrow> quiet k' \<and> db_seq (durable (k_store k)) \<le> db_seq (durable (k_store k'))"

definition admission :: "string \<Rightarrow> kernel \<Rightarrow> receipt \<Rightarrow> bool" where
  \<comment> \<open>a \<open>gate_admit\<close> receipt for the operation that is newer than state \<open>k\<close>\<close>
  "admission opn k row \<longleftrightarrow> r_op row = ''gate_admit'' \<and> jget (obj_fields (r_parameters row)) ''op'' = JStr opn \<and> \<not> r_failed row \<and>
     (\<exists>i. r_receipt_id row = Some i \<and> db_seq (durable (k_store k)) < i)"

definition admitted :: "string \<Rightarrow> kernel \<Rightarrow> kernel \<Rightarrow> bool" where
  "admitted opn k k' \<longleftrightarrow> (\<exists>row\<in>set (krows k'). admission opn k row)"

lemma steady_refl: "quiet k \<Longrightarrow> steady k k"
  by (simp add: steady_def)

lemma reject_not_Inr: "reject opn reason a e k \<noteq> (Inr y, k')"
  by (auto simp: reject_def sthen_eq_Inr sraise_def)

lemma refuse_not_Inr: "refuse x q extra reason w k \<noteq> (Inr y, k')"
  by (auto simp: refuse_def sthen_eq_Inr sraise_def)

lemma refuse_intent_not_Inr: "refuse_intent opn reason k \<noteq> (Inr y, k')"
  by (auto simp: refuse_intent_def sthen_eq_Inr sraise_def)

lemmas never_returns = reject_not_Inr refuse_not_Inr refuse_intent_not_Inr

lemma governor_check_Inr: "governor_check x q k = (Inr y, k') \<Longrightarrow> k' = k"
  by (auto simp: governor_check_def sbind_eq_Inr sget_def sret_def never_returns split: if_splits option.splits)

lemma posture_check_Inr: "posture_check x q k = (Inr y, k') \<Longrightarrow> k' = k"
  by (auto simp: posture_check_def sbind_eq_Inr sget_def sret_def never_returns split: if_splits option.splits)

lemma jurisdiction_check_Inr: "jurisdiction_check x q k = (Inr y, k') \<Longrightarrow> k' = k"
  by (auto simp: jurisdiction_check_def sbind_eq_Inr sthen_eq_Inr sget_def never_returns split: if_splits
      dest!: governor_check_Inr posture_check_Inr)

lemma capability_check_Inr: "capability_check x q k = (Inr y, k') \<Longrightarrow> k' = k"
  by (auto simp: capability_check_def sbind_eq_Inr sget_def sret_def never_returns split: if_splits option.splits prod.splits)

lemma locality_check_Inr: "locality_check x q k = (Inr y, k') \<Longrightarrow> k' = k"
  by (auto simp: locality_check_def sret_def never_returns split: if_splits option.splits)

lemma will_check_Inr: "will_check x k = (Inr y, k') \<Longrightarrow> k' = k"
  by (auto simp: will_check_def sbind_eq_Inr sget_def sret_def never_returns split: if_splits option.splits coverage_outcome.splits)

lemma gate_check_Inr:
  assumes "gate_check x q k = (Inr y, k')"
  shows "k' = k \<and> xa_gate x = None \<or> (\<exists>gate. xa_gate x = Some gate \<and> gate k = (Inr True, k'))"
  using assms
  by (auto simp: gate_check_def sbind_eq_Inr scatch_def sret_def never_returns split: if_splits option.splits prod.splits sum.splits)

lemma refusal_horizon_Inr:
  assumes "refusal_horizon x q k = (Inr y, k')"
  shows "k' = k \<and> xa_gate x = None \<or> (\<exists>gate. xa_gate x = Some gate \<and> gate k = (Inr True, k'))"
proof -
  obtain k1 k2 k3 k4 where "jurisdiction_check x q k = (Inr (), k1)" "gate_check x q k1 = (Inr (), k2)"
    "capability_check x q k2 = (Inr (), k3)" "locality_check x q k3 = (Inr (), k4)" "will_check x k4 = (Inr y, k')"
    using assms by (auto simp: refusal_horizon_def sthen_eq_Inr)
  then show ?thesis using gate_check_Inr [of x q k1] by (auto dest!: jurisdiction_check_Inr capability_check_Inr locality_check_Inr will_check_Inr)
qed

lemma map_of_by_key: "map_of xs k = map_of (filter (\<lambda>y. fst y = k) xs) k"
  by (induction xs) auto

lemma map_of_sort_stable: "map_of (sort_key fst xs) k = map_of xs k"
  by (subst map_of_by_key, subst sort_key_stable, rule map_of_by_key [symmetric])

lemma map_of_norm: "map_of (obj_fields (norm_json (JObj kvs))) k = map_option norm_json (map_of kvs k)"
  by (simp add: map_of_sort_stable map_of_map [of norm_json kvs, symmetric]) (simp add: map_of_map)

lemma jget_norm: "is_obj p \<Longrightarrow> jget (obj_fields (norm_json p)) k = norm_json (jget (obj_fields p) k)"
  by (cases p) (auto simp: jget_def map_of_norm simp del: norm_json.simps(2) split: option.splits)

definition free_of_markers :: "json \<Rightarrow> bool" where
  \<comment> \<open>no top-level key is an effect marker or a reconciliation key\<close>
  "free_of_markers p \<longleftrightarrow> is_obj p \<and> (\<forall>k\<in>set EFFECT_MARKER_KEYS \<union> set RECONCILIATION_KEYS. k \<notin> fst ` set (obj_fields p))"

lemma strip_free: "free_of_markers p \<Longrightarrow> strip_markers (obj_fields p) = obj_fields p"
  by (auto simp: free_of_markers_def strip_markers_def filter_id_conv image_iff split_beta)

lemma free_resolve:
  assumes "free_of_markers p" "resolve_effect_surface p cols False = Inr (eff, p1)"
  shows "p1 = p \<and> eff = (case cols of None \<Rightarrow> None | Some ec \<Rightarrow> if ec_atomicity ec = None then None else Some (ec\<lparr>ec_model_id := Some EFFECT_ATOMICITY_MODEL_ID\<rparr>))"
proof -
  have o: "is_obj p" "JObj (obj_fields p) = p" using assms(1) by (cases p; simp add: free_of_markers_def)+
  have m: "''effect_atomicity'' \<in> set EFFECT_MARKER_KEYS" by (simp add: EFFECT_MARKER_KEYS_def EFFECT_MARKER_MAP_def)
  then have n: "jget (obj_fields p) ''effect_atomicity'' = JNull"
    using assms(1) by (auto simp: free_of_markers_def jget_def map_of_eq_None_iff split: option.splits)
      (metis UnCI domI dom_map_of_conv_image_fst)
  show ?thesis using assms(2) o n strip_free [OF assms(1)]
    by (cases cols) (auto simp: resolve_effect_surface_def derive_effect_columns_def Let_def result_simps split: if_splits)
qed

lemma free_promote: "free_of_markers p \<Longrightarrow> promote_reconciliation p g x = Inr (p, g, x)"
  by (auto simp: free_of_markers_def promote_reconciliation_def map_of_eq_None_iff)

lemma prepared_free:
  assumes "prepared a s r" "free_of_markers (wa_parameters a)"
  shows "r_parameters r = wa_parameters a"
    "r_effect r = (case wa_effect_columns a of None \<Rightarrow> no_effect
       | Some ec \<Rightarrow> if ec_atomicity ec = None then no_effect else ec\<lparr>ec_model_id := Some EFFECT_ATOMICITY_MODEL_ID\<rparr>)"
proof -
  obtain eff p1 p grade snapshot c sf tvh where
    e: "resolve_effect_surface (wa_parameters a) (wa_effect_columns a) False = Inr (eff, p1)"
    and p: "promote_reconciliation p1 (wa_reconciliation_grade a) (wa_reconciliation_warrant_snapshot a) = Inr (p, grade, snapshot)"
    and r: "r = (sealed (build_receipt a p eff grade snapshot (st_clock s (st_tick s)) (st_prior_h_r s) c sf))\<lparr>r_trace_vector_hash := tvh\<rparr>"
    using assms(1) unfolding prepared_def by blast
  note f = free_resolve [OF assms(2) e]
  then have "p = wa_parameters a" using p free_promote [OF assms(2)] by simp
  then show "r_parameters r = wa_parameters a" by (simp add: r sealed_def build_receipt_def)
  have "r_effect r = (case eff of None \<Rightarrow> no_effect | Some e \<Rightarrow> e)" by (simp add: r sealed_def build_receipt_def)
  then show "r_effect r = (case wa_effect_columns a of None \<Rightarrow> no_effect
       | Some ec \<Rightarrow> if ec_atomicity ec = None then no_effect else ec\<lparr>ec_model_id := Some EFFECT_ATOMICITY_MODEL_ID\<rparr>)"
    using f by (auto split: option.splits)
qed

definition admit_params :: "'a exec_args \<Rightarrow> request \<Rightarrow> json" where
  "admit_params x q = JObj ([(''op'', JStr (xa_op x)), (''parameters'', rq_parameters q)] @
     (case xa_gate_margin x of None \<Rightarrow> [] | Some m \<Rightarrow> [(''gate_margin'', JFloat m)]))"

lemma admit_params_free: "free_of_markers (admit_params x q)"
  by (auto simp: free_of_markers_def admit_params_def EFFECT_MARKER_KEYS_def EFFECT_MARKER_MAP_def RECONCILIATION_KEYS_def split: option.splits)

lemma admit_Inr:
  assumes "admit x q k = (Inr ref, k')" "steady k0 k"
  shows "steady k k'" "admitted (xa_op x) k0 k'" "\<exists>s. k' = k\<lparr>k_store := s\<rparr>"
proof -
  let ?f = "\<lambda>k. (framed_args ''gate_admit'' (rq_authority q) (admit_params x q) False ''gate_admit'' ''kernel'' k)\<lparr>wa_effect_columns := class_cols x\<rparr>"
  obtain r where w: "kwrite ?f k = (Inr r, k')" using assms(1) by (auto simp: admit_def admit_params_def sbind_eq_Inr sret_def)
  have q: "quiet k" using assms(2) by (simp add: steady_def)
  have "steady k k' \<and> admitted (xa_op x) k0 k' \<and> (\<exists>s. k' = k\<lparr>k_store := s\<rparr>)"
  proof (rule kwrite_quiet [OF q w])
    fix row assume *: "quiet k'" "krows k' = krows k @ [row]" "r_op row = (if wa_compress (?f k) then compress_field OP_TO_CSIL (wa_op (?f k)) else wa_op (?f k))"
      "r_failed row = wa_failed (?f k)" "\<exists>s. k' = k\<lparr>k_store := s\<rparr>" "db_seq (durable (k_store k')) = Suc (db_seq (durable (k_store k)))"
      "r_receipt_id row = Some (Suc (db_seq (durable (k_store k))))" "prepared (?f k) (k_store k) (r\<lparr>r_receipt_id := None\<rparr>)"
      "row = row_of (?f k) (r\<lparr>r_receipt_id := None\<rparr>) (visible (k_store k))"
    have p: "r_parameters (r\<lparr>r_receipt_id := None\<rparr>) = admit_params x q"
      using prepared_free(1) [OF *(8)] admit_params_free [of x q] by (simp add: framed_args_def kernel_args_def default_write_def)
    have "jget (obj_fields (r_parameters row)) ''op'' = JStr (xa_op x)"
      using *(9) p admit_params_free [of x q] by (simp add: jget_norm free_of_markers_def) (simp add: admit_params_def jget_def)
    then have "admission (xa_op x) k0 row"
      using * assms(2) by (simp add: admission_def steady_def framed_args_def kernel_args_def default_write_def)
    then show ?thesis using * by (auto simp: admitted_def steady_def)
  qed
  then show "steady k k'" "admitted (xa_op x) k0 k'" "\<exists>s. k' = k\<lparr>k_store := s\<rparr>" by auto
qed

lemma materialize_warrant_frame: "materialize_warrant x q k = (r, k') \<Longrightarrow> k_store k' = k_store k"
proof -
  have "keeps (\<lambda>k'. k_store k' = s) (write_warrant basis required)" for s basis required
    by (auto simp: keeps_def write_warrant_def Let_def split: option.splits prod.splits sum.splits)
  then have "keeps (\<lambda>k'. k_store k' = k_store k) (materialize_warrant x q)"
    unfolding materialize_warrant_def by (cases "rq_basis q") (auto intro!: keeps_intros)
  then show "materialize_warrant x q k = (r, k') \<Longrightarrow> ?thesis" by (rule keepsD) simp_all
qed

lemma effect_blind [simp]:
  "refusal_horizon (x\<lparr>xa_effect := e\<rparr>) q = refusal_horizon x q"
  "materialize_warrant (x\<lparr>xa_effect := e\<rparr>) q = materialize_warrant x q"
  "outcome_params (x\<lparr>xa_effect := e\<rparr>) q = outcome_params x q"
  "outcome_phase (x\<lparr>xa_effect := e\<rparr>) q params iref wid = outcome_phase x q params iref wid"
  "emit_effect_abort (x\<lparr>xa_effect := e\<rparr>) q reason iref ref = emit_effect_abort x q reason iref ref"
  by (simp_all add: fun_eq_iff [of "outcome_params _ _"] refusal_horizon_def jurisdiction_check_def governor_check_def posture_check_def gate_check_def capability_check_def
      locality_check_def will_check_def refuse_def materialize_warrant_def outcome_params_def outcome_phase_def emit_effect_abort_def
      cong: if_cong option.case_cong prod.case_cong coverage_outcome.case_cong)

lemma presence_only:
  "preflight k (x\<lparr>xa_effect := Some e1\<rparr>) = preflight k (x\<lparr>xa_effect := Some e2\<rparr>)"
  "class_cols (x\<lparr>xa_effect := Some e1\<rparr>) = class_cols (x\<lparr>xa_effect := Some e2\<rparr>)"
  "admit (x\<lparr>xa_effect := Some e1\<rparr>) q = admit (x\<lparr>xa_effect := Some e2\<rparr>) q"
  by (simp_all add: preflight_def class_cols_def admit_def cong: if_cong option.case_cong)

definition runs_admitted :: "string \<Rightarrow> kernel \<Rightarrow> (kernel, 'a) prog \<Rightarrow> (kernel, 'a) prog \<Rightarrow> bool" where
  \<comment> \<open>two effects that cannot be told apart in states where the admission is durable\<close>
  "runs_admitted opn k e1 e2 \<longleftrightarrow> (\<forall>k'. admitted opn k k' \<longrightarrow> e1 k' = e2 k')"

lemma kwrite_admitted: "quiet k' \<Longrightarrow> admitted opn k k' \<Longrightarrow> kwrite f k' = (Inr r, k'') \<Longrightarrow> quiet k'' \<and> admitted opn k k''"
  by (erule kwrite_quiet) (auto simp: admitted_def)

lemma run_external_cong:
  assumes "quiet k'" "admitted opn k k'" "runs_admitted opn k e1 e2" "\<And>p. \<exists>f. emit p = kwrite f"
  shows "run_external emit terminal e1 ref p k' = run_external emit terminal e2 ref p k'"
proof -
  obtain f where f: "emit (p\<lparr>ph_phase := ''prepare'', ph_gate_admit_ref := Some ref\<rparr>) = kwrite f" using assms(4) by blast
  obtain r k2 where w: "kwrite f k' = (r, k2)" by force
  show ?thesis
  proof (cases r)
    case (Inl e)
    then show ?thesis using w f by (simp add: run_external_def sbind_Inl)
  next
    case (Inr x)
    then have "e1 k2 = e2 k2" using kwrite_admitted [OF assms(1,2)] w assms(3) by (simp add: runs_admitted_def)
    then show ?thesis using w f Inr by (simp add: run_external_def sbind_def scatch_def Let_def)
  qed
qed

lemma opened_durable:
  assumes "on_conn mt_init s = (Inr n, s1)" "on_conn (mt_enter v n) s1 = (r, s2)"
  shows "durable (depth_in s2) = durable s"
  using opened [OF assms] by (auto simp: depth_in_def durable_def)

lemma ktransaction_cong:
  assumes "\<And>k'. durable (k_store k') = durable (k_store k) \<Longrightarrow> b1 k' = b2 k'"
  shows "ktransaction b1 k = ktransaction b2 k"
proof -
  obtain n s1 where m: "on_conn mt_init (k_store k) = (Inr n, s1)" by (auto simp: on_conn_def mt_init_def)
  obtain r s2 where e: "on_conn (mt_enter valid_result n) s1 = (r, s2)" by force
  have "b1 (k\<lparr>k_store := depth_in s2\<rparr>) = b2 (k\<lparr>k_store := depth_in s2\<rparr>)" by (rule assms) (simp add: opened_durable [OF m e])
  then show ?thesis using m e by (simp add: ktransaction_def split: sum.splits)
qed

lemma outcome_cong:
  assumes "quiet k'" "admitted opn k k'" "runs_admitted opn k e1 e2"
  shows "outcome (x\<lparr>xa_effect := Some e1\<rparr>) q iref ref wid k' = outcome (x\<lparr>xa_effect := Some e2\<rparr>) q iref ref wid k'"
proof -
  let ?x1 = "x\<lparr>xa_effect := Some e1\<rparr>" and ?x2 = "x\<lparr>xa_effect := Some e2\<rparr>"
  let ?p = "outcome_phase x q (outcome_params x q k') iref wid"
  have cols: "class_cols ?x1 = class_cols ?x2" by (rule presence_only)
  have rev: "execute_external_reversible e1 ref ?p k' = execute_external_reversible e2 ref ?p k'"
    unfolding execute_external_reversible_def by (rule run_external_cong [OF assms]) (auto simp: emit_reversible_def)
  have irr: "execute_external_irreversible e1 ref ?p k' = execute_external_irreversible e2 ref ?p k'"
    unfolding execute_external_irreversible_def by (rule run_external_cong [OF assms]) (auto simp: emit_irreversible_def)
  have "e1 k2 = e2 k2" if "durable (k_store k2) = durable (k_store k')" for k2
    using that assms(2,3) by (simp add: runs_admitted_def admitted_def)
  then have "ktransaction (seam_body e1 m) k' = ktransaction (seam_body e2 m) k'" for m
    by (intro ktransaction_cong) (simp add: seam_body_def)
  then have seam: "execute_seam ?x1 q e1 ref ?p k' = execute_seam ?x2 q e2 ref ?p k'"
    by (simp add: execute_seam_def cols cong: prod.case_cong sum.case_cong)
  have legacy: "execute_legacy ?x1 q ?p k' = execute_legacy ?x2 q ?p k'"
  proof -
    obtain r k2 where w: "kwrite (outcome_args ?p (class_cols ?x2)) k' = (r, k2)" by force
    show ?thesis
    proof (cases r)
      case (Inl e)
      then show ?thesis using w by (simp add: execute_legacy_def cols sthen_Inl)
    next
      case (Inr y)
      then have "e1 k2 = e2 k2" using kwrite_admitted [OF assms(1,2)] w assms(3) by (simp add: runs_admitted_def)
      then show ?thesis using w Inr by (simp add: execute_legacy_def cols sthen_Inr sbind_def scatch_def)
    qed
  qed
  show ?thesis using rev irr seam legacy
    by (simp add: outcome_def sbind_def [of "sget _"] sget_def Let_def split: option.split effect_atomicity.split)
      (simp add: sbind_def)
qed

text \<open>C1. Receipt before effect, the ordering the kernel calls load-bearing, on every path
  (legacy, seam, both external trails) and for every fault script: two effects that behave alike in the states
  where a newer \<open>gate_admit\<close> receipt for the operation is already durable cannot be told apart by \<open>execute\<close>; so an
  effect is never consulted before its admission is durable. The gate, as caller code, is asked to leave no
  transaction open and to give back no row number.\<close>

theorem receipt_before_effect:
  assumes "quiet k" "\<forall>gate. xa_gate x = Some gate \<longrightarrow> keeps (steady k) gate" "runs_admitted (xa_op x) k e1 e2"
  shows "execute (x\<lparr>xa_effect := Some e1\<rparr>) k = execute (x\<lparr>xa_effect := Some e2\<rparr>) k"
proof -
  let ?x1 = "x\<lparr>xa_effect := Some e1\<rparr>" and ?x2 = "x\<lparr>xa_effect := Some e2\<rparr>"
  have "outcome ?x1 q iref ref wid k4 = outcome ?x2 q iref ref wid k4"
    if h: "refusal_horizon x q k = (Inr iref, k2)" "admit ?x2 q k2 = (Inr ref, k3)" "materialize_warrant x q k3 = (Inr wid, k4)"
    for q iref ref wid k2 k3 k4
  proof -
    have "steady k k2" using refusal_horizon_Inr [OF h(1)] assms(1,2) keepsD [of "steady k"] steady_refl by metis
    note a = admit_Inr [OF h(2) this]
    have "k_store k4 = k_store k3" by (rule materialize_warrant_frame [OF h(3)])
    then have "quiet k4" "admitted (xa_op x) k k4" using a by (simp_all add: steady_def quiet_def admitted_def)
    then show ?thesis using assms(3) by (rule outcome_cong)
  qed
  then show ?thesis
    by (simp add: execute_def presence_only(1) [where ?e1.0 = e1 and ?e2.0 = e2] presence_only(3) [where ?e1.0 = e1 and ?e2.0 = e2] sbind_def sget_def sres_def
        split: prod.splits sum.splits)
qed

subsection \<open>Refusals\<close>

definition writable :: "kernel \<Rightarrow> bool" where
  "writable k \<longleftrightarrow> \<not> st_read_only (k_store k) \<and> flat_graph (st_graph (k_store k)) \<and> cn_faults (st_conn (k_store k)) = []"

definition plain_args :: "write_args \<Rightarrow> bool" where
  \<comment> \<open>nothing a validator of the write path could object to\<close>
  "plain_args a \<longleftrightarrow> free_of_markers (wa_parameters a) \<and> wa_effect_columns a = None \<and> \<not> wa_commit_terminal_outcome a \<and>
     \<not> wa_commit_capability_evidence a \<and> wa_continuation a = JNull \<and> wa_bridge a = JNull"

lemma free_unmarked: "free_of_markers p \<Longrightarrow> unmarked p"
  by (auto simp: free_of_markers_def unmarked_def jget_def map_of_eq_None_iff EFFECT_MARKER_KEYS_def EFFECT_MARKER_MAP_def
      split: option.splits dest: map_of_SomeD) (metis fst_conv image_eqI map_of_SomeD)

lemma plain_admissible: "plain_args a \<Longrightarrow> admissible_args a"
  using unmarked_resolves [OF free_unmarked, of "wa_parameters a"] unmarked_promotes [OF free_unmarked, of "wa_parameters a"]
  by (cases "derive_committed_outcome (wa_op a) (wa_failed a) (wa_terminal_outcome_override a) (write_intent a)")
    (simp add: plain_args_def admissible_args_def write_surfaces_def free_of_markers_def)

lemma kwrite_live:
  assumes "writable k" "plain_args (f k)"
  shows "\<exists>r k'. kwrite f k = (Inr r, k')"
  using store_write_live [of "k_store k" "f k"] plain_admissible [OF assms(2)] assms(1) by (auto simp: kwrite_eq writable_def)

definition receipted :: "kernel \<Rightarrow> exc \<Rightarrow> kernel \<Rightarrow> bool" where
  \<comment> \<open>exactly one durable row was added, of the kind that goes with the exception\<close>
  "receipted k e k' \<longleftrightarrow> quiet k' \<and> (\<exists>row. krows k' = krows k @ [row] \<and> r_failed row \<and> r_h_r row \<noteq> [] \<and>
     r_op row = (if \<exists>opn reason. e = GateRefusal opn reason then ''gate_refuse'' else ''protocol_error''))"

lemma kwrite_failed:
  assumes "quiet k" "writable k" "plain_args (f k)" "wa_failed (f k)" "\<not> wa_compress (f k)"
  obtains r k' row where "kwrite f k = (Inr r, k')" "quiet k'" "krows k' = krows k @ [row]" "r_failed row" "r_op row = wa_op (f k)" "r_h_r row \<noteq> []"
proof -
  obtain r k' where w: "kwrite f k = (Inr r, k')" using kwrite_live [of k f, OF assms(2,3)] by blast
  show thesis
  proof (rule kwrite_quiet [OF assms(1) w])
    fix row assume "quiet k'" "krows k' = krows k @ [row]" "r_failed row = wa_failed (f k)"
      "r_op row = (if wa_compress (f k) then compress_field OP_TO_CSIL (wa_op (f k)) else wa_op (f k))" "r_h_r row = r_h_r r"
      "prepared (f k) (k_store k) (r\<lparr>r_receipt_id := None\<rparr>)"
    with that [OF w, of row] assms(4,5) prepared_receipt(2) [of "f k" "k_store k" "r\<lparr>r_receipt_id := None\<rparr>"] show thesis by simp
  qed
qed

lemma kernel_args_plain:
  "free_of_markers p \<Longrightarrow> plain_args (kernel_args opn a p failed intent j k)" "free_of_markers p \<Longrightarrow> plain_args (framed_args opn a p failed intent j k)"
  "wa_op (kernel_args opn a p failed intent j k) = opn" "wa_failed (kernel_args opn a p failed intent j k) = failed"
  "wa_op (framed_args opn a p failed intent j k) = opn" "wa_failed (framed_args opn a p failed intent j k) = failed"
  "\<not> wa_compress (kernel_args opn a p failed intent j k)" "\<not> wa_compress (framed_args opn a p failed intent j k)"
  by (simp_all add: plain_args_def framed_args_def kernel_args_def default_write_def)

lemma reject_receipted:
  assumes "quiet k" "writable k" "\<nexists>opn reason. e = GateRefusal opn reason"
  shows "\<exists>k'. reject opn reason a e k = (Inl e, k') \<and> receipted k e k'"
proof -
  have p: "free_of_markers (JObj [(''op'', JStr opn), (''reason'', JStr reason)])"
    by (simp add: free_of_markers_def EFFECT_MARKER_KEYS_def EFFECT_MARKER_MAP_def RECONCILIATION_KEYS_def)
  show ?thesis
    by (rule kwrite_failed [OF assms(1,2), of "\<lambda>k. kernel_args ''protocol_error'' (if a = [] then k_authority k else a)
        (JObj [(''op'', JStr opn), (''reason'', JStr reason)]) True ''protocol_error'' ''kernel'' k"])
      (use p assms(3) in \<open>auto simp: kernel_args_plain reject_def emit_protocol_error_def sswallow_def scatch_def sthen_def sbind_def sret_def
         sraise_def receipted_def\<close>)
qed

definition refusal_extra :: "(string \<times> json) list \<Rightarrow> bool" where
  "refusal_extra extra \<longleftrightarrow> set (map fst extra) \<inter> (set EFFECT_MARKER_KEYS \<union> set RECONCILIATION_KEYS) = {}"

lemma count_refusal_store [simp]: "k_store (count_refusal layer k) = k_store k"
  by (simp add: count_refusal_def split: option.splits)

lemma refusal_warrant_store: "refusal_warrant q k = (r, k') \<Longrightarrow> k_store k' = k_store k \<and> r = Inr ()"
  by (auto simp: refusal_warrant_def split: option.splits prod.splits)

lemma refuse_receipted:
  assumes "quiet k" "writable k" "refusal_extra extra"
  shows "\<exists>k'. refuse x q extra reason w k = (Inl (GateRefusal (xa_op x) reason), k') \<and> receipted k (GateRefusal (xa_op x) reason) k'"
proof -
  let ?p = "JObj ([(''op'', JStr (xa_op x)), (''parameters'', rq_parameters q)] @ extra)"
  have "set EFFECT_MARKER_KEYS \<union> set RECONCILIATION_KEYS \<inter> {''op'', ''parameters''} = set EFFECT_MARKER_KEYS"
    "''op'' \<notin> set EFFECT_MARKER_KEYS \<union> set RECONCILIATION_KEYS" "''parameters'' \<notin> set EFFECT_MARKER_KEYS \<union> set RECONCILIATION_KEYS"
    by (simp_all add: EFFECT_MARKER_KEYS_def EFFECT_MARKER_MAP_def RECONCILIATION_KEYS_def)
  then have p: "free_of_markers ?p" using assms(3) by (auto simp: free_of_markers_def refusal_extra_def)
  obtain r k1 row where w: "kwrite (kernel_args ''gate_refuse'' (rq_authority q) ?p True ''gate_refuse'' ''kernel'') k = (Inr r, k1)"
    "quiet k1" "krows k1 = krows k @ [row]" "r_failed row" "r_op row = ''gate_refuse''" "r_h_r row \<noteq> []"
    by (rule kwrite_failed [OF assms(1,2), of "kernel_args ''gate_refuse'' (rq_authority q) ?p True ''gate_refuse'' ''kernel''"])
      (use p in \<open>auto simp: kernel_args_plain\<close>)
  obtain r2 k2 where k2: "(if w then refusal_warrant q else sret ()) (count_refusal (xa_layer x) k1) = (r2, k2)" by force
  then have "r2 = Inr () \<and> k_store k2 = k_store k1"
    using refusal_warrant_store [of q "count_refusal (xa_layer x) k1"] by (auto simp: sret_def split: if_splits)
  then have "refuse x q extra reason w k = (Inl (GateRefusal (xa_op x) reason), k2) \<and> receipted k (GateRefusal (xa_op x) reason) k2"
    using w k2 by (auto simp: refuse_def sthen_def sbind_def smodify_def swhen_def sraise_def receipted_def quiet_def)
  then show ?thesis by blast
qed

lemma refuse_intent_receipted:
  assumes "quiet k" "writable k"
  shows "\<exists>k'. refuse_intent opn reason k = (Inl (GateRefusal opn ''intent_required_missing''), k') \<and>
    receipted k (GateRefusal opn ''intent_required_missing'') k'"
proof -
  let ?p = "JObj [(''op'', JStr opn), (''reason'', JStr reason), (''refusal_axis'', JStr ''intent''),
               (''refusal_reason'', JStr ''intent_required_missing'')]"
  have p: "free_of_markers ?p" by (simp add: free_of_markers_def EFFECT_MARKER_KEYS_def EFFECT_MARKER_MAP_def RECONCILIATION_KEYS_def)
  show ?thesis
    by (rule kwrite_failed [OF assms, of "\<lambda>k. framed_args ''gate_refuse'' (k_authority k) ?p True ''conform'' ''kernel'' k"])
      (use p in \<open>auto simp: kernel_args_plain refuse_intent_def sthen_def sbind_def sraise_def receipted_def\<close>)
qed

definition refused_ok :: "kernel \<Rightarrow> (kernel, 'a) prog \<Rightarrow> bool" where
  \<comment> \<open>from \<open>k\<close>, the program either raises a receipted exception or returns without a trace in the store\<close>
  "refused_ok k m \<longleftrightarrow> (case m k of (Inl e, k') \<Rightarrow> receipted k e k' | (Inr _, k') \<Rightarrow> k' = k)"

named_theorems refusals \<open>programs that refuse with a receipt\<close>

lemma refused_basic [refusals]: "refused_ok k (sret y)"
  by (simp add: refused_ok_def sret_def)

lemma refused_get [refusals]: "refused_ok k (f (g k)) \<Longrightarrow> refused_ok k (sbind (sget g) f)"
  by (simp add: refused_ok_def sbind_def sget_def)

lemma refused_if [refusals]: "(b \<Longrightarrow> refused_ok k m) \<Longrightarrow> (\<not> b \<Longrightarrow> refused_ok k n) \<Longrightarrow> refused_ok k (if b then m else n)"
  by simp

lemma refused_sthen [refusals]: "refused_ok k m \<Longrightarrow> refused_ok k n \<Longrightarrow> refused_ok k (sthen m n)"
  by (auto simp: refused_ok_def sthen_def sbind_def split: prod.splits sum.splits)

lemma refused_option [refusals]: "(v = None \<Longrightarrow> refused_ok k m) \<Longrightarrow> (\<And>y. v = Some y \<Longrightarrow> refused_ok k (f y)) \<Longrightarrow>
    refused_ok k (case v of None \<Rightarrow> m | Some y \<Rightarrow> f y)"
  by (cases v) auto

lemma refused_pair [refusals]: "(\<And>a b. refused_ok k (f a b)) \<Longrightarrow> refused_ok k (case p of (a, b) \<Rightarrow> f a b)"
  by (cases p) auto

lemma refused_Inl: "\<exists>k'. m k = (Inl e, k') \<and> receipted k e k' \<Longrightarrow> refused_ok k m"
  by (auto simp: refused_ok_def)

lemma refused_reject [refusals]:
  "quiet k \<Longrightarrow> writable k \<Longrightarrow> \<nexists>opn reason. e = GateRefusal opn reason \<Longrightarrow> refused_ok k (reject opn reason a e)"
  by (rule refused_Inl, rule reject_receipted) auto

lemma refused_refuse [refusals]: "quiet k \<Longrightarrow> writable k \<Longrightarrow> refusal_extra extra \<Longrightarrow> refused_ok k (refuse x q extra reason w)"
  by (rule refused_Inl, rule refuse_receipted)

lemma refused_intent [refusals]: "quiet k \<Longrightarrow> writable k \<Longrightarrow> refused_ok k (refuse_intent opn reason)"
  by (rule refused_Inl, rule refuse_intent_receipted)

lemma refusal_horizon_refused:
  assumes "quiet k" "writable k" "\<forall>gate. xa_gate x = Some gate \<longrightarrow> (\<forall>k. snd (gate k) = k)"
  shows "refused_ok k (refusal_horizon x q)"
proof -
  have e: "refusal_extra []" "refusal_extra [(''refusal_cause'', a), (''capability_class'', b), (''enforced_jurisdiction'', c),
      (''refusal_axis'', d), (''refusal_reason'', f)]" "refusal_extra [(''required_locality'', a), (''supplied_jurisdiction'', b),
      (''refusal_axis'', c), (''refusal_reason'', d)]" for a b c d f
    by (simp_all add: refusal_extra_def EFFECT_MARKER_KEYS_def EFFECT_MARKER_MAP_def RECONCILIATION_KEYS_def)
  note b = assms(1,2)
  have gov: "refused_ok k (governor_check x q)" unfolding governor_check_def by (intro refusals b) auto
  have pos: "refused_ok k (posture_check x q)" unfolding posture_check_def by (intro refusals b) auto
  have jur: "refused_ok k (jurisdiction_check x q)" unfolding jurisdiction_check_def by (intro refusals b gov pos) auto
  have cap: "refused_ok k (capability_check x q)" unfolding capability_check_def by (intro refusals b e)
  have loc: "refused_ok k (locality_check x q)" unfolding locality_check_def by (intro refusals b e)
  have cov: "refused_ok k (case c of Covered h \<Rightarrow> sret h | Outside code \<Rightarrow> if r then refuse_intent opn code else sret [])" for c r opn
    by (cases c) (auto intro!: refusals b)
  have wil: "refused_ok k (will_check x)" unfolding will_check_def by (intro refusals b cov)
  have gat: "refused_ok k (gate_check x q)"
  proof (cases "xa_gate x")
    case None
    then show ?thesis by (simp add: gate_check_def refused_basic)
  next
    case (Some gate)
    then obtain r where r: "gate k = (r, k)" using assms(3) by (metis prod.collapse)
    have "refused_ok k (reject (xa_op x) ''gate_exception'' (rq_authority q) (ProtocolError (xa_op x)) :: (kernel, unit) prog)"
      "refused_ok k (refuse x q [] ''gate returned False'' True :: (kernel, unit) prog)" by (intro refusals b e, simp) (intro refusals b e)
    then show ?thesis using Some r
      by (cases r) (auto simp: gate_check_def refused_ok_def sbind_def scatch_def sret_def)
  qed
  show ?thesis unfolding refusal_horizon_def by (intro refusals jur gat cap loc wil)
qed


subsection \<open>A kernel to evaluate on\<close>

definition founded :: "db_error option list \<Rightarrow> kernel" where
  \<comment> \<open>an active kernel over a fresh store whose connection has the given fault script\<close>
  "founded faults = \<lparr>k_store = fresh_store faults, k_authority = ''governor'', k_active = True, k_law_hash = [], k_session = None,
     k_session_dkn = [], k_session_open_count = 0, k_refused = [], k_mosaic_root = [], k_require_governor_sig = False,
     k_legend_hash = [], k_warrants = None, k_will = None, k_require_intent = False, k_require_scoped_intent = False,
     k_scope_id = [], k_model = None, k_manifest_hash = [], k_op_csil = [], k_dcap_policy = Some [], k_pubkey = [],
     k_phase_code = [], k_ops = GOVERNANCE_OPS, k_dimension_id = [], k_last_summary = None, k_launch_ic = None, k_validator_set = None,
     k_finality_hash = [], k_quorum_achieved = False, k_rotation_rule = None,
     k_genesis = \<lparr>gn_seal = None, gn_privkey = None, gn_pubkey = None, gn_validator_set = None, gn_launch_ic = None,
       gn_law_text = [], gn_manifest_hash = []\<rparr>, k_now = []\<rparr>"

definition call :: "string \<Rightarrow> (kernel, bool) prog option \<Rightarrow> (kernel, 'a) prog option \<Rightarrow> effect_atomicity option \<Rightarrow> 'a exec_args" where
  "call opn gate eff c = \<lparr>xa_op = opn, xa_authority = None, xa_parameters = None, xa_gate = gate, xa_effect = eff, xa_atomicity = c,
     xa_idempotency_key = Some (PStr ''key''), xa_gate_margin = None, xa_layer = [], xa_jurisdiction = ''local'', xa_governor_sig = None,
     xa_warrant_basis = None, xa_intent_ref = [], xa_authority_set = None, xa_capability_verdicts = [], xa_required_locality = None\<rparr>"

lemma founded_ok [simp]: "quiet (founded fs)" "writable (founded [])" "k_store (founded fs) = fresh_store fs"
  using fresh_store_ok by (simp_all add: quiet_def writable_def founded_def)

theorem receipt_before_effect_witness:
  "execute (call ''namespace_claim'' None (Some (\<lambda>k. if admitted ''namespace_claim'' (founded []) k then sret () k else sraise RuntimeError k))
      (Some STORE_LOCAL)) (founded [])
    = execute (call ''namespace_claim'' None (Some (sret ())) (Some STORE_LOCAL)) (founded [])"
  using receipt_before_effect [of "founded []" "call ''namespace_claim'' None None (Some STORE_LOCAL)"
      "\<lambda>k. if admitted ''namespace_claim'' (founded []) k then sret () k else sraise RuntimeError k" "sret ()"]
  by (simp add: call_def runs_admitted_def)


end
