(* ===== verification/Outcomes.thy ===== *)
theory Outcomes
  imports Reactor
begin

text \<open>
  The outcome paths of \<open>execute\<close>: which receipts a governed effect leaves behind, for the store-local seam and for
  the trails of external effects.
\<close>

subsection \<open>Receipts with typed effect columns\<close>

abbreviation krecs :: "kernel \<Rightarrow> receipt list" where
  \<comment> \<open>what a reader of the connection sees\<close>
  "krecs k \<equiv> all_receipts (k_store k)"

definition typed :: "effect_cols \<Rightarrow> receipt \<Rightarrow> bool" where
  "typed ec t \<longleftrightarrow> r_effect t = ec\<lparr>ec_model_id := Some EFFECT_ATOMICITY_MODEL_ID\<rparr>"

lemma prepared_typed:
  assumes "prepared a s r" "wa_effect_columns a = Some ec" "ec_atomicity ec \<noteq> None"
  shows "typed ec r"
  using assms
  by (auto simp: prepared_def typed_def resolve_effect_surface_def rbind_eq_Inr rguard_eq_Inr Let_def sealed_def build_receipt_def)

lemma row_to_receipt_effect [simp]: "r_effect (row_to_receipt row) = r_effect row" "r_h_r (row_to_receipt row) = r_h_r row"
  by (simp_all add: row_to_receipt_def)

definition grows :: "effect_cols \<Rightarrow> bool \<Rightarrow> kernel \<Rightarrow> kernel \<Rightarrow> bool" where
  \<comment> \<open>only the store changed, and only by receipts with these columns; the flag asks for at least one\<close>
  "grows ec some k k' \<longleftrightarrow> (\<exists>s. k' = k\<lparr>k_store := s\<rparr>) \<and>
     (\<exists>new. krecs k' = krecs k @ new \<and> (\<forall>t\<in>set new. typed ec t) \<and> (some \<longrightarrow> new \<noteq> []))"

lemma grows_trans: "grows ec b k k1 \<Longrightarrow> grows ec c k1 k2 \<Longrightarrow> grows ec c k k2"
  unfolding grows_def by (elim conjE exE) auto

lemma kwrite_grows:
  assumes "kwrite f k = (res, k')" "wa_effect_columns (f k) = Some ec" "ec_atomicity ec \<noteq> None"
  shows "grows ec (\<exists>r. res = Inr r) k k'"
proof -
  obtain s where w: "store_write (f k) (k_store k) = (res, s)" and k': "k' = k\<lparr>k_store := s\<rparr>" using assms(1) by (auto simp: kwrite_eq)
  have new: "typed ec (row_to_receipt (row_of (f k) r d))" if "prepared (f k) (k_store k) r" for r d
    using prepared_typed [OF that assms(2,3)] by (simp add: typed_def)
  show ?thesis
  proof (cases res)
    case (Inl e)
    then have "visible s = visible (k_store k) \<or> (\<exists>r. prepared (f k) (k_store k) r \<and> visible s = insert_row (stored_row (f k) r) (visible (k_store k)))"
      using store_write_Inl [OF w [unfolded Inl]] by (auto simp: same_chain_def visible_def)
    then show ?thesis using k' new Inl by (elim disjE exE conjE) (auto simp: grows_def all_receipts_def)
  next
    case (Inr r)
    from w [unfolded Inr] show ?thesis
      by (rule store_write_Inr) (use k' new in \<open>simp add: grows_def all_receipts_def Inr; blast\<close>)
  qed
qed

lemma attempt_grows:
  assumes "\<And>k s. f (k\<lparr>k_store := s\<rparr>) = f k" "wa_effect_columns (f k) = Some ec" "ec_atomicity ec \<noteq> None"
    "attempt_write n ex (kwrite f) k = (res, k')"
  shows "grows ec (\<exists>r. res = Inr r) k k'"
  using assms(2-)
proof (induction n arbitrary: k)
  case 0
  then show ?case by (auto simp: sraise_def grows_def intro: exI [of _ "k_store k"])
next
  case (Suc n)
  obtain r1 k1 where w: "kwrite f k = (r1, k1)" by force
  note g = kwrite_grows [OF w Suc.prems(1,2)]
  then have "f k1 = f k" using assms(1) by (auto simp: grows_def)
  then show ?case using Suc w g
    by (auto simp: scatch_def sraise_def split: sum.splits if_splits intro: grows_trans)
qed

lemma terminal_grows:
  "emit_terminal_durable p k = (res, k') \<Longrightarrow>
     grows ((phase_cols EXTERNAL_IRREVERSIBLE p)\<lparr>ec_compensate_ref := None, ec_compensation_idempotency_key := None\<rparr>) (\<exists>r. res = Inr r) k k'"
  "emit_reversible_terminal_durable p k = (res, k') \<Longrightarrow> grows (phase_cols EXTERNAL_REVERSIBLE p) (\<exists>r. res = Inr r) k k'"
  unfolding emit_terminal_durable_def emit_reversible_terminal_durable_def emit_irreversible_def emit_reversible_def
  by (rule attempt_grows; simp add: outcome_args_def framed_args_def kernel_args_def phase_cols_def)+

subsection \<open>Writes that succeed\<close>

definition sound_cols :: "effect_cols option \<Rightarrow> bool" where
  "sound_cols cols \<longleftrightarrow> (case cols of None \<Rightarrow> True
     | Some ec \<Rightarrow> (\<exists>c\<in>set EFFECT_ATOMICITY_DOMAIN. ec_atomicity ec = Some c) \<and> (ec_phase ec = None \<or> (\<exists>ph\<in>set EFFECT_PHASE_DOMAIN. ec_phase ec = Some ph)))"

definition sound_args :: "write_args \<Rightarrow> bool" where
  \<comment> \<open>plain, but for typed effect columns\<close>
  "sound_args a \<longleftrightarrow> plain_args (a\<lparr>wa_effect_columns := None\<rparr>) \<and> sound_cols (wa_effect_columns a)"

lemma typed_resolves:
  assumes "free_of_markers p" "sound_cols (Some ec)"
  shows "resolve_effect_surface p (Some ec) False = Inr (Some (ec\<lparr>ec_model_id := Some EFFECT_ATOMICITY_MODEL_ID\<rparr>), p)"
proof -
  have o: "JObj (obj_fields p) = p" using assms(1) by (cases p) (simp_all add: free_of_markers_def)
  have m: "list_all (\<lambda>mk. case map_of (obj_fields p) mk of None \<Rightarrow> True | Some v \<Rightarrow> v = jget d mk) EFFECT_MARKER_KEYS" for d
  proof -
    have "map_of (obj_fields p) mk = None" if "mk \<in> set EFFECT_MARKER_KEYS" for mk
      using assms(1) that by (simp add: free_of_markers_def map_of_eq_None_iff)
    then show ?thesis by (simp add: list_all_iff)
  qed
  have "assert_domain (jopt (ec_atomicity ec)) EFFECT_ATOMICITY_DOMAIN = Inr ()" "assert_phase (jopt (ec_phase ec)) = Inr ()"
    using assms(2) by (auto simp: sound_cols_def assert_domain_ok assert_phase_def jopt_def)
  then show ?thesis using m strip_free [OF assms(1)] o assms(2)
    by (auto simp: resolve_effect_surface_def Let_def rguard_def sound_cols_def)
qed

lemma sound_admissible: "sound_args a \<Longrightarrow> admissible_args a"
proof (cases "wa_effect_columns a")
  case None
  moreover assume "sound_args a"
  ultimately show ?thesis by (intro plain_admissible) (simp add: sound_args_def plain_args_def)
next
  case (Some ec)
  moreover assume s: "sound_args a"
  then have p: "free_of_markers (wa_parameters a)" by (simp add: sound_args_def plain_args_def)
  ultimately have "resolve_effect_surface (wa_parameters a) (wa_effect_columns a) False =
      Inr (Some (ec\<lparr>ec_model_id := Some EFFECT_ATOMICITY_MODEL_ID\<rparr>), wa_parameters a)"
    using s typed_resolves by (simp add: sound_args_def)
  moreover have "write_surfaces a = Inr \<lparr>sf_outcome = None, sf_capability = no_capability, sf_continuation = no_continuation, sf_bridge = no_bridge\<rparr>"
    using s by (cases "derive_committed_outcome (wa_op a) (wa_failed a) (wa_terminal_outcome_override a) (write_intent a)")
      (simp add: sound_args_def plain_args_def write_surfaces_def)
  ultimately show ?thesis using p free_promote [OF p] unfolding admissible_args_def by (fastforce simp: free_of_markers_def)
qed

lemma kwrite_writable:
  assumes "writable k" "kwrite f k = (Inr r, k')"
  shows "writable k'"
proof -
  obtain s where w: "store_write (f k) (k_store k) = (Inr r, s)" and k': "k' = k\<lparr>k_store := s\<rparr>" using assms(2) by (auto simp: kwrite_eq)
  from w show ?thesis
    by (rule store_write_Inr) (use assms(1) k' store_write_flat [OF _ w] in \<open>auto simp: writable_def others_same_def\<close>)
qed

definition written :: "write_args \<Rightarrow> receipt \<Rightarrow> bool" where
  \<comment> \<open>a row that holds the arguments, which carry no marker\<close>
  "written a row \<longleftrightarrow> r_h_r row \<noteq> [] \<and> r_op row = wa_op a \<and> r_failed row = wa_failed a \<and> r_authority row = wa_authority a \<and>
     r_parameters row = norm_json (wa_parameters a) \<and>
     r_effect row = (case wa_effect_columns a of None \<Rightarrow> no_effect | Some ec \<Rightarrow> ec\<lparr>ec_model_id := Some EFFECT_ATOMICITY_MODEL_ID\<rparr>)"

lemma prepared_authority: "prepared a s r \<Longrightarrow> r_authority r = wa_authority a"
  unfolding prepared_def by (elim exE conjE) (simp add: sealed_def build_receipt_def)

lemma kwrite_sound:
  assumes "quiet k" "writable k" "sound_args (f k)" "\<not> wa_compress (f k)"
  obtains r s row where "kwrite f k = (Inr r, k\<lparr>k_store := s\<rparr>)" "quiet (k\<lparr>k_store := s\<rparr>)" "writable (k\<lparr>k_store := s\<rparr>)"
    "krows (k\<lparr>k_store := s\<rparr>) = krows k @ [row]" "written (f k) row" "r_h_r row = r_h_r r"
proof -
  obtain r k' where w: "kwrite f k = (Inr r, k')"
    using store_write_live [of "k_store k" "f k"] sound_admissible [OF assms(3)] assms(2) by (auto simp: kwrite_eq writable_def)
  show thesis
  proof (rule kwrite_quiet [OF assms(1) w])
    fix row assume *: "quiet k'" "krows k' = krows k @ [row]" "\<exists>s. k' = k\<lparr>k_store := s\<rparr>" "r_h_r row = r_h_r r"
      "r_op row = (if wa_compress (f k) then compress_field OP_TO_CSIL (wa_op (f k)) else wa_op (f k))" "r_failed row = wa_failed (f k)"
      "prepared (f k) (k_store k) (r\<lparr>r_receipt_id := None\<rparr>)" "row = row_of (f k) (r\<lparr>r_receipt_id := None\<rparr>) (visible (k_store k))"
    have f: "free_of_markers (wa_parameters (f k))" using assms(3) by (simp add: sound_args_def plain_args_def)
    have auth: "r_authority r = wa_authority (f k)" using prepared_authority [OF *(7)] by simp
    have "written (f k) row"
      using * prepared_free [OF *(7) f] prepared_receipt(2) [OF *(7)] auth assms(3,4)
      by (auto simp: written_def sound_args_def sound_cols_def split: option.splits)
    then show thesis using that * w kwrite_writable [OF assms(2) w] by blast
  qed
qed

subsection \<open>Trails of external effects\<close>

lemma outcome_args_fields [simp]:
  "wa_op (outcome_args p cols k) = ph_op p" "wa_failed (outcome_args p cols k) = ph_failed p" "wa_parameters (outcome_args p cols k) = ph_params p"
  "wa_effect_columns (outcome_args p cols k) = cols" "\<not> wa_compress (outcome_args p cols k)" "outcome_args p cols (k\<lparr>k_store := s\<rparr>) = outcome_args p cols k"
  by (simp_all add: outcome_args_def framed_args_def kernel_args_def default_write_def)

lemma outcome_args_sound: "free_of_markers (ph_params p) \<Longrightarrow> sound_cols cols \<Longrightarrow> sound_args (outcome_args p cols k)"
  by (simp add: sound_args_def plain_args_def outcome_args_def framed_args_def kernel_args_def default_write_def)

definition phase_row :: "string \<Rightarrow> phase_args \<Rightarrow> receipt \<Rightarrow> bool" where
  \<comment> \<open>the row of a phase receipt, as its readers see it\<close>
  "phase_row cls p row \<longleftrightarrow> r_h_r row \<noteq> [] \<and> is_phase cls (ph_phase p) row \<and> r_op row = ph_op p \<and> r_failed row = ph_failed p \<and>
     (\<forall>key. ph_key p = Some key \<longrightarrow> v_key row = JStr key) \<and> (\<forall>ref. ph_prepare_ref p = Some ref \<longrightarrow> v_prepare_ref row = JStr ref) \<and>
     (\<forall>ref. ph_gate_admit_ref p = Some ref \<longrightarrow> v_gate_admit_ref row = JStr ref)"

definition emits :: "string \<Rightarrow> (phase_args \<Rightarrow> (kernel, receipt) prog) \<Rightarrow> bool" where
  \<comment> \<open>on a writable kernel the program appends the row of the phase, durably\<close>
  "emits cls emit \<longleftrightarrow> (\<forall>p k. quiet k \<longrightarrow> writable k \<longrightarrow> free_of_markers (ph_params p) \<longrightarrow> ph_phase p \<in> set EFFECT_PHASE_DOMAIN \<longrightarrow>
     (\<exists>r s row. emit p k = (Inr r, k\<lparr>k_store := s\<rparr>) \<and> quiet (k\<lparr>k_store := s\<rparr>) \<and> writable (k\<lparr>k_store := s\<rparr>) \<and>
        krows (k\<lparr>k_store := s\<rparr>) = krows k @ [row] \<and> phase_row cls p row \<and> r_h_r row = r_h_r r))"

lemma kwrite_emits:
  assumes "\<And>p. ec_atomicity (cols p) = Some cls" "cls \<in> set EFFECT_ATOMICITY_DOMAIN" "\<And>p. ec_phase (cols p) = Some (ph_phase p)"
    "\<And>p. ec_idempotency_key (cols p) = ph_key p" "\<And>p. ec_prepare_ref (cols p) = ph_prepare_ref p" "\<And>p. ec_gate_admit_ref (cols p) = ph_gate_admit_ref p"
  shows "emits cls (\<lambda>p. kwrite (outcome_args p (Some (cols p))))"
  unfolding emits_def
proof (intro allI impI)
  fix p :: phase_args and k assume *: "quiet k" "writable k" "free_of_markers (ph_params p)" "ph_phase p \<in> set EFFECT_PHASE_DOMAIN"
  have c: "sound_cols (Some (cols p))" using assms *(4) by (auto simp: sound_cols_def)
  show "\<exists>r s row. kwrite (outcome_args p (Some (cols p))) k = (Inr r, k\<lparr>k_store := s\<rparr>) \<and> quiet (k\<lparr>k_store := s\<rparr>) \<and> writable (k\<lparr>k_store := s\<rparr>) \<and>
        krows (k\<lparr>k_store := s\<rparr>) = krows k @ [row] \<and> phase_row cls p row \<and> r_h_r row = r_h_r r"
  proof (rule kwrite_sound [OF *(1,2), of "outcome_args p (Some (cols p))"])
    fix r s row assume w: "written (outcome_args p (Some (cols p)) k) row"
    then have "typed (cols p) row" "r_op row = ph_op p" "r_failed row = ph_failed p" "r_h_r row \<noteq> []" by (simp_all add: written_def typed_def)
    then have "phase_row cls p row" using assms
      by (simp add: phase_row_def is_phase_def typed_def view_defs)
    moreover assume "kwrite (outcome_args p (Some (cols p))) k = (Inr r, k\<lparr>k_store := s\<rparr>)" "quiet (k\<lparr>k_store := s\<rparr>)" "writable (k\<lparr>k_store := s\<rparr>)"
      "krows (k\<lparr>k_store := s\<rparr>) = krows k @ [row]" "r_h_r row = r_h_r r"
    ultimately show ?thesis by blast
  qed (use outcome_args_sound [OF *(3) c] in simp_all)
qed

lemma attempt_emits: "emits cls emit \<Longrightarrow> emits cls (\<lambda>p. attempt_write (Suc n) (ex p) (emit p))"
  unfolding emits_def by (intro allI impI, elim allE impE, assumption+) (auto simp: scatch_def, blast)

definition trail_of :: "string \<Rightarrow> (exc, 'a) result \<Rightarrow> receipt \<Rightarrow> receipt list \<Rightarrow> bool" where
  \<comment> \<open>a PREPARE and what follows it when the external act ends with the given outcome\<close>
  "trail_of cls r prep rest \<longleftrightarrow> is_phase cls ''prepare'' prep \<and> \<not> r_failed prep \<and>
     (case r of
        Inr _ \<Rightarrow> (\<exists>t. rest = [t] \<and> is_phase cls ''commit'' t \<and> \<not> r_failed t \<and> clears t prep)
      | Inl e \<Rightarrow> if e = ExternalEffectNotPerformed
          then (\<exists>t. rest = [t] \<and> is_phase cls ''abort'' t \<and> r_failed t \<and> clears t prep) else rest = [])"

locale external_class =
  fixes cls :: string and emit terminal :: "phase_args \<Rightarrow> (kernel, receipt) prog"
  assumes emit_ok: "emits cls emit" and terminal_ok: "emits cls terminal"
begin

lemma trail:
  assumes "quiet k" "writable k" "free_of_markers (ph_params p)" "ph_key p = Some key" "\<not> ph_failed p" "ph_phase p = []"
  shows "\<exists>s prep rest. run_external emit terminal (\<lambda>k. (r, k)) ref p k = (r, k\<lparr>k_store := s\<rparr>) \<and> quiet (k\<lparr>k_store := s\<rparr>) \<and>
     krows (k\<lparr>k_store := s\<rparr>) = krows k @ prep # rest \<and> v_gate_admit_ref prep = JStr ref \<and> r_op prep = ph_op p \<and> trail_of cls r prep rest"
proof -
  let ?p = "p\<lparr>ph_phase := ''prepare'', ph_gate_admit_ref := Some ref\<rparr>"
  have d: "''prepare'' \<in> set EFFECT_PHASE_DOMAIN" "''commit'' \<in> set EFFECT_PHASE_DOMAIN" "''abort'' \<in> set EFFECT_PHASE_DOMAIN"
    by (simp_all add: EFFECT_PHASE_DOMAIN_def)
  obtain rp s1 prep where e: "emit ?p k = (Inr rp, k\<lparr>k_store := s1\<rparr>)" "quiet (k\<lparr>k_store := s1\<rparr>)" "writable (k\<lparr>k_store := s1\<rparr>)"
    "krows (k\<lparr>k_store := s1\<rparr>) = krows k @ [prep]" "phase_row cls ?p prep" "r_h_r prep = r_h_r rp"
    using emit_ok [unfolded emits_def, rule_format, of k ?p] assms d by auto
  have prep: "is_phase cls ''prepare'' prep" "\<not> r_failed prep" "v_key prep = JStr key" "v_gate_admit_ref prep = JStr ref" "r_op prep = ph_op p"
    using e(5) assms by (simp_all add: phase_row_def)
  have fin: "\<exists>rt s t. terminal pt (k\<lparr>k_store := s1\<rparr>) = (Inr rt, k\<lparr>k_store := s\<rparr>) \<and> quiet (k\<lparr>k_store := s\<rparr>) \<and>
      krows (k\<lparr>k_store := s\<rparr>) = krows k @ [prep, t] \<and> is_phase cls (ph_phase pt) t \<and> r_failed t = ph_failed pt \<and> clears t prep"
    if "ph_params pt = ph_params p" "ph_key pt = ph_key p" "ph_prepare_ref pt = Some (r_h_r rp)" "ph_phase pt \<in> set EFFECT_PHASE_DOMAIN" for pt
    using terminal_ok [unfolded emits_def, rule_format, of "k\<lparr>k_store := s1\<rparr>" pt] e that assms prep
    by (auto simp: phase_row_def clears_def)
  show ?thesis
  proof (cases r)
    case (Inr y)
    from fin [of "p\<lparr>ph_phase := ''commit'', ph_prepare_ref := Some (r_h_r rp)\<rparr>"] d assms
    show ?thesis using e prep Inr by (auto simp: run_external_def sbind_def scatch_def sthen_def sret_def Let_def trail_of_def)
  next
    case (Inl err)
    show ?thesis
    proof (cases "err = ExternalEffectNotPerformed")
      case True
      from fin [of "p\<lparr>ph_phase := ''abort'', ph_failed := True, ph_prepare_ref := Some (r_h_r rp), ph_abort_reason := Some ''external_effect_not_performed''\<rparr>"] d
      show ?thesis using e prep Inl True by (auto simp: run_external_def sbind_def scatch_def sthen_def sraise_def Let_def trail_of_def)
    next
      case False
      then show ?thesis using e prep Inl by (auto simp: run_external_def sbind_def scatch_def sraise_def Let_def trail_of_def)
    qed
  qed
qed

end

lemma emit_irreversible_emits: "emits EXTERNAL_IRREVERSIBLE emit_irreversible"
  unfolding emit_irreversible_def [abs_def]
  by (rule kwrite_emits) (simp_all add: phase_cols_def EFFECT_ATOMICITY_DOMAIN_def EXTERNAL_IRREVERSIBLE_def)

lemma emit_reversible_emits: "emits EXTERNAL_REVERSIBLE emit_reversible"
  unfolding emit_reversible_def [abs_def]
  by (rule kwrite_emits) (simp_all add: phase_cols_def EFFECT_ATOMICITY_DOMAIN_def EXTERNAL_REVERSIBLE_def)

lemma MAX_attempts: "MAX_OUTCOME_WRITE_ATTEMPTS = Suc 2"
  by (simp add: MAX_OUTCOME_WRITE_ATTEMPTS_def)

interpretation irreversible_class: external_class EXTERNAL_IRREVERSIBLE emit_irreversible emit_terminal_durable
  by (unfold_locales, rule emit_irreversible_emits)
    (unfold emit_terminal_durable_def [abs_def] MAX_attempts, rule attempt_emits, rule emit_irreversible_emits)

interpretation reversible_class: external_class EXTERNAL_REVERSIBLE emit_reversible emit_reversible_terminal_durable
  by (unfold_locales, rule emit_reversible_emits)
    (unfold emit_reversible_terminal_durable_def [abs_def] MAX_attempts, rule attempt_emits, rule emit_reversible_emits)

lemma outcome_params_free:
  assumes "free_of_markers (rq_parameters q)"
  shows "free_of_markers (outcome_params x q k)"
proof -
  have d: "free_of_markers (JObj (dict_set key v p))" if "free_of_markers (JObj p)" "key \<notin> set EFFECT_MARKER_KEYS \<union> set RECONCILIATION_KEYS" for key v p
    using that dict_set_keys [of key v p] by (auto simp: free_of_markers_def)
  have n: "''authority_set'' \<notin> set EFFECT_MARKER_KEYS \<union> set RECONCILIATION_KEYS" "''op_csil'' \<notin> set EFFECT_MARKER_KEYS \<union> set RECONCILIATION_KEYS"
    by (simp_all add: EFFECT_MARKER_KEYS_def EFFECT_MARKER_MAP_def RECONCILIATION_KEYS_def)
  have "free_of_markers (JObj (obj_fields (rq_parameters q)))" using assms by (cases "rq_parameters q") (simp_all add: free_of_markers_def)
  then show ?thesis using n by (auto simp: outcome_params_def Let_def intro!: d split: option.splits list.splits)
qed

definition plain_call :: "'a exec_args \<Rightarrow> request \<Rightarrow> string \<Rightarrow> kernel \<Rightarrow> bool" where
  \<comment> \<open>a call that passes every check without leaving a trace, asks for no warrant and carries no marker\<close>
  "plain_call x q iref k \<longleftrightarrow> quiet k \<and> writable k \<and> preflight k x = Inr q \<and> refusal_horizon x q k = (Inr iref, k) \<and> rq_basis q = None \<and>
     free_of_markers (rq_parameters q)"

lemma admit_plain:
  assumes "plain_call x q iref k"
  obtains r s adm where "admit x q k = (Inr (r_h_r adm), k\<lparr>k_store := s\<rparr>)" "quiet (k\<lparr>k_store := s\<rparr>)" "writable (k\<lparr>k_store := s\<rparr>)"
    "krows (k\<lparr>k_store := s\<rparr>) = krows k @ [adm]" "r_op adm = ''gate_admit''" "\<not> r_failed adm"
    "execute x k = outcome x q iref (r_h_r adm) [] (k\<lparr>k_store := s\<rparr>)"
proof -
  let ?f = "\<lambda>k. (framed_args ''gate_admit'' (rq_authority q) (admit_params x q) False ''gate_admit'' ''kernel'' k)\<lparr>wa_effect_columns := class_cols x\<rparr>"
  have c: "sound_cols (class_cols x)"
    by (auto simp: class_cols_def sound_cols_def no_effect_def EFFECT_ATOMICITY_DOMAIN_def atomicity_value_def EXTERNAL_REVERSIBLE_def
        EXTERNAL_IRREVERSIBLE_def split: option.splits effect_atomicity.splits)
  have a: "sound_args (?f k)" "\<not> wa_compress (?f k)" using c kernel_args_plain(2,8) admit_params_free
    by (simp_all add: sound_args_def plain_args_def framed_args_def kernel_args_def default_write_def)
  have p: "quiet k" "writable k" "preflight k x = Inr q" "refusal_horizon x q k = (Inr iref, k)" "rq_basis q = None"
    using assms by (simp_all add: plain_call_def)
  show thesis
  proof (rule kwrite_sound [OF p(1,2), of ?f, OF a])
    fix r s row assume w: "kwrite ?f k = (Inr r, k\<lparr>k_store := s\<rparr>)" "quiet (k\<lparr>k_store := s\<rparr>)" "writable (k\<lparr>k_store := s\<rparr>)"
      "krows (k\<lparr>k_store := s\<rparr>) = krows k @ [row]" "written (?f k) row" "r_h_r row = r_h_r r"
    have ad: "admit x q k = (Inr (r_h_r row), k\<lparr>k_store := s\<rparr>)" using w by (simp add: admit_def admit_params_def sbind_def sret_def)
    have "execute x k = outcome x q iref (r_h_r row) [] (k\<lparr>k_store := s\<rparr>)"
      using p ad by (simp add: execute_def sbind_def sget_def sres_def materialize_warrant_def sret_def)
    moreover have "r_op row = ''gate_admit''" "\<not> r_failed row"
      using w(5) by (simp_all add: written_def framed_args_def kernel_args_def default_write_def)
    ultimately show thesis using that ad w by blast
  qed
qed

lemma preflight_key:
  assumes "preflight k x = Inr q" "xa_effect x = Some eff" "xa_atomicity x = Some c" "c = REVERSIBLE \<or> c = IRREVERSIBLE"
  obtains key where "text_arg (xa_idempotency_key x) = Some key"
  using assms
  by (cases "text_arg (xa_idempotency_key x)")
    (auto simp: preflight_def Let_def rbind_eq_Inr)


lemma founded_plain:
  "plain_call (call ''namespace_claim'' None eff (Some c)) \<lparr>rq_authority = ''governor'', rq_parameters = JObj [], rq_basis = None, rq_authority_set = None\<rparr>
     [] (founded [])"
proof -
  let ?x = "call ''namespace_claim'' None eff (Some c)" and ?k = "founded []"
  let ?q = "\<lparr>rq_authority = ''governor'', rq_parameters = JObj [], rq_basis = None, rq_authority_set = None\<rparr>"
  have pre: "preflight ?k ?x = Inr ?q"
    by (simp add: preflight_def call_def founded_def Let_def rguard_def text_arg_def split: option.splits)
  have "jurisdiction_check ?x ?q ?k = (Inr (), ?k)"
    by (simp add: jurisdiction_check_def governor_check_def posture_check_def model_of_def kernel_op_def universal_op_def call_def founded_def
        KERNEL_OPS_def UNIVERSAL_OPS_def GOVERNANCE_OPS_def APPLICATION_OPS_def sbind_def sthen_def sget_def sret_def)
  moreover have "gate_check ?x ?q ?k = (Inr (), ?k)" "locality_check ?x ?q ?k = (Inr (), ?k)"
    by (simp_all add: gate_check_def locality_check_def call_def sret_def)
  moreover have "capability_check ?x ?q ?k = (Inr (), ?k)"
    by (simp add: capability_check_def sbind_def sget_def founded_def find_enforced_entry_def sret_def)
  moreover have "will_check ?x ?k = (Inr [], ?k)" by (simp add: will_check_def sbind_def sget_def founded_def call_def sret_def)
  ultimately have "refusal_horizon ?x ?q ?k = (Inr [], ?k)" by (simp add: refusal_horizon_def sthen_def sbind_def)
  then show ?thesis using pre by (simp add: plain_call_def free_of_markers_def)
qed


subsection \<open>A terminal whose commit fails\<close>

definition lost_commit :: phase_args where
  "lost_commit = \<lparr>ph_op = ''transfer'', ph_authority = ''governor'', ph_params = JObj [], ph_phase = ''commit'', ph_key = Some ''key'',
     ph_jurisdiction = ''session'', ph_intent_ref = [], ph_warrant_id = [], ph_failed = False, ph_prepare_ref = Some ''ref'',
     ph_gate_admit_ref = None, ph_abort_reason = None, ph_compensate_ref = None, ph_compensation_key = None\<rparr>"

lemma busy_write:
  assumes "admissible_args a"
  obtains s r1 where "store_write a (fresh_store [None, Some Locked]) = (Inl (OperationalError Locked), s)"
    "prepared a (fresh_store [None, Some Locked]) r1" "db_rows (visible s) = [row_of a r1 empty_db]"
    "st_prior_h_r s = GENESIS" "cn_faults (st_conn s) = []" "\<not> st_read_only s" "flat_graph (st_graph s)" "st_txn_depth s = 0"
proof -
  let ?s = "fresh_store [None, Some Locked]"
  obtain r s1 where p: "prepare_receipt a ?s = (Inr r, s1)" using prepare_receipt_ok [of ?s a] fresh_store_ok assms by blast
  note f = prepare_receipt_frame [OF p]
  have c: "st_conn s1 = new_conn empty_db [None, Some Locked]" "st_txn_depth s1 = 0" "st_prior_h_r s1 = GENESIS" "\<not> st_read_only s1"
    using f by (simp_all add: same_chain_def fresh_store_def)
  obtain q t where w: "append_receipt a r s1 = (q, t)" by force
  have "q = Inl (OperationalError Locked)" "visible t = insert_row (stored_row a r) empty_db" "st_prior_h_r t = GENESIS"
    "cn_faults (st_conn t) = []" "\<not> st_read_only t" "st_txn_depth t = 0"
    using w c by (auto simp: append_receipt_def on_conn_def dml_def commit_def statement_def new_conn_def in_transaction_def visible_def
        sthen_def sbind_def sget_def swhen_def)
  moreover have "flat_graph (st_graph t)"
    using store_write_flat [of ?s a q t] fresh_store_ok(4) p w by (simp add: store_write_def sbind_def)
  moreover have "store_write a ?s = (q, t)" using p w by (simp add: store_write_def sbind_def)
  ultimately show thesis using that prepare_receipt_Inr [OF p] by (auto simp: empty_db_def)
qed


end
