(* ===== verification/Contained.thy ===== *)
theory Contained
  imports Outcomes
begin

text \<open>
  The seam of \<open>execute\<close> for PURE and STORE_LOCAL effects: the transaction over the kernel is the transaction of the
  store, and the receipts say exactly what became durable.
\<close>

subsection \<open>The transaction over the kernel\<close>

definition on_store :: "(kernel \<Rightarrow> (bool \<times> exc, 'a) result \<times> kernel) \<Rightarrow> kernel \<Rightarrow> (store, 'a) prog" where
  \<comment> \<open>the block as a block of the store, the rest of the kernel as it was\<close>
  "on_store body k s = (case body (k\<lparr>k_store := s\<rparr>) of (r, k') \<Rightarrow> (map_sum snd id r, k_store k'))"

lemma flagged_Inl: "map_sum snd id r = Inl e \<Longrightarrow> \<exists>late. r = Inl (late, e)"
  by (cases r; simp) (metis prod.collapse)

lemma on_store_Inl:
  assumes "on_store body k s = (Inl e, t)"
  shows "\<exists>late k'. body (k\<lparr>k_store := s\<rparr>) = (Inl (late, e), k') \<and> t = k_store k'"
proof (cases "body (k\<lparr>k_store := s\<rparr>)")
  case (Pair r k')
  then have "map_sum snd id r = Inl e" "t = k_store k'" using assms by (simp_all add: on_store_def)
  with flagged_Inl [OF this(1)] Pair show ?thesis by blast
qed

lemma on_store_Inr:
  assumes "on_store body k s = (Inr y, t)"
  obtains k' where "body (k\<lparr>k_store := s\<rparr>) = (Inr y, k')" "t = k_store k'"
proof (cases "body (k\<lparr>k_store := s\<rparr>)")
  case (Pair r k')
  then show thesis using assms that by (cases r) (auto simp: on_store_def)
qed

lemma ktransaction_transaction:
  assumes "ktransaction body k = (res, k')"
  shows "transaction valid_result (on_store body k) (k_store k) = (map_sum snd id res, k_store k')"
proof -
  obtain r0 s0 where m: "on_conn mt_init (k_store k) = (r0, s0)" by force
  show ?thesis
  proof (cases r0)
    case (Inl e)
    then show ?thesis using assms m by (auto simp: ktransaction_def transaction_def)
  next
    case (Inr n)
    obtain r1 s1 where e: "on_conn (mt_enter valid_result n) s0 = (r1, s1)" by force
    show ?thesis
    proof (cases r1)
      case (Inl e1)
      then show ?thesis using assms m Inr e by (auto simp: ktransaction_def transaction_def)
    next
      case in1: (Inr u)
      obtain r2 k2 where b: "body (k\<lparr>k_store := depth_in s1\<rparr>) = (r2, k2)" by force
      have fin: "case r2 of Inl (late, e) \<Rightarrow> ktransaction body k = (case close_failed (k_store k) n e (k_store k2) of
            (Inl e', s') \<Rightarrow> (Inl (late, e'), k2\<lparr>k_store := s'\<rparr>) | (Inr y, s') \<Rightarrow> (Inr y, k2\<lparr>k_store := s'\<rparr>))
          | Inr x \<Rightarrow> ktransaction body k = (case close_clean (k_store k) n x (k_store k2) of
            (Inl e', s') \<Rightarrow> (Inl (True, e'), k2\<lparr>k_store := s'\<rparr>) | (Inr y, s') \<Rightarrow> (Inr y, k2\<lparr>k_store := s'\<rparr>))"
        using m Inr e in1 b by (auto simp: ktransaction_def split: sum.splits)
      have tr: "transaction valid_result (on_store body k) (k_store k) = (case r2 of
          Inl (late, e) \<Rightarrow> close_failed (k_store k) n e (k_store k2) | Inr x \<Rightarrow> close_clean (k_store k) n x (k_store k2))"
        using m Inr e in1 b by (auto simp: transaction_def on_store_def split: sum.splits)
      show ?thesis using fin tr assms by (auto split: sum.splits prod.splits)
    qed
  qed
qed

definition open_store_flags :: "store \<Rightarrow> bool" where
  "open_store_flags s \<longleftrightarrow> \<not> st_read_only s \<and> flat_graph (st_graph s)"

definition contained_effect :: "(kernel, 'a) prog \<Rightarrow> bool" where
  \<comment> \<open>inside a transaction the effect commits nothing and leaves the savepoints alone, and it keeps the store writable\<close>
  "contained_effect eff \<longleftrightarrow> (\<forall>s0. keeps (\<lambda>k. inside s0 (k_store k)) eff) \<and> keeps (\<lambda>k. open_store_flags (k_store k)) eff"

lemma contained_kwrite: "contained_effect (kwrite f)"
proof -
  have "inside s0 (k_store k) \<longrightarrow> inside s0 (k_store (snd (kwrite f k)))" "open_store_flags (k_store k) \<longrightarrow> open_store_flags (k_store (snd (kwrite f k)))"
    for s0 and k :: kernel
  proof -
    obtain r s where w: "store_write (f k) (k_store k) = (r, s)" by force
    have "st_read_only s = st_read_only (k_store k)"
    proof (cases r)
      case (Inl e)
      then show ?thesis using store_write_Inl [of "f k" "k_store k" e s] w by (auto simp: same_chain_def others_same_def)
    next
      case (Inr x)
      show ?thesis by (rule store_write_Inr [OF w [unfolded Inr]]) (simp add: others_same_def)
    qed
    then show "inside s0 (k_store k) \<longrightarrow> inside s0 (k_store (snd (kwrite f k)))" "open_store_flags (k_store k) \<longrightarrow> open_store_flags (k_store (snd (kwrite f k)))"
      using keepsD [OF keeps_inside_write _ w] store_write_flat [OF _ w] w by (simp_all add: kwrite_def kstore_def open_store_flags_def)
  qed
  then show ?thesis by (simp add: contained_effect_def keeps_def)
qed

lemma keeps_seam:
  assumes "keeps (\<lambda>k. I (k_store k)) eff" "keeps (\<lambda>k. I (k_store k)) (success :: (kernel, receipt) prog)"
  shows "keeps I (on_store (seam_body eff success) k)"
proof -
  have e: "I (k_store k2)" if "eff k1 = (r, k2)" "I (k_store k1)" for k1 r k2
    using keepsD [OF assms(1)] that by blast
  have w: "I (k_store k2)" if "success k1 = (r, k2)" "I (k_store k1)" for k1 r k2
    using keepsD [OF assms(2)] that by blast
  show ?thesis unfolding keeps_def
    by (auto simp: on_store_def seam_body_def split: prod.splits sum.splits dest!: e w)
qed

definition seam_abort_cols :: "effect_atomicity \<Rightarrow> string \<Rightarrow> string \<Rightarrow> effect_cols" where
  "seam_abort_cols c reason ref = no_effect\<lparr>ec_atomicity := Some (atomicity_value c), ec_model_id := Some EFFECT_ATOMICITY_MODEL_ID,
     ec_abort_reason := Some reason, ec_gate_admit_ref := Some ref\<rparr>"

lemma atomicity_sound: "atomicity_value c \<in> set EFFECT_ATOMICITY_DOMAIN"
  by (cases c) (simp_all add: atomicity_value_def EFFECT_ATOMICITY_DOMAIN_def EXTERNAL_REVERSIBLE_def EXTERNAL_IRREVERSIBLE_def)

lemma abort_emitted:
  assumes "quiet k" "writable k" "free_of_markers (rq_parameters q)" "xa_atomicity x = Some c"
  obtains r s row where "emit_effect_abort x q reason iref ref k = (Inr r, k\<lparr>k_store := s\<rparr>)" "quiet (k\<lparr>k_store := s\<rparr>)"
    "krows (k\<lparr>k_store := s\<rparr>) = krows k @ [row]" "r_failed row" "r_op row = xa_op x" "r_effect row = seam_abort_cols c reason ref"
proof -
  let ?p = "(outcome_phase x q (JObj (dict_set ''effect_aborted'' (JBool True) (obj_fields (rq_parameters q)))) iref [])\<lparr>ph_failed := True\<rparr>"
  let ?cols = "Some (no_effect\<lparr>ec_atomicity := Some (atomicity_value c), ec_abort_reason := Some reason, ec_gate_admit_ref := Some ref\<rparr>)"
  have "''effect_aborted'' \<notin> set EFFECT_MARKER_KEYS \<union> set RECONCILIATION_KEYS"
    by (simp add: EFFECT_MARKER_KEYS_def EFFECT_MARKER_MAP_def RECONCILIATION_KEYS_def)
  then have f: "free_of_markers (ph_params ?p)"
    using assms(3) dict_set_keys [of "''effect_aborted''" "JBool True" "obj_fields (rq_parameters q)"]
    by (auto simp: outcome_phase_def free_of_markers_def)
  have c: "sound_cols ?cols" using atomicity_sound by (simp add: sound_cols_def no_effect_def)
  show thesis
  proof (rule kwrite_sound [OF assms(1,2), of "outcome_args ?p ?cols"])
    fix r s row assume *: "kwrite (outcome_args ?p ?cols) k = (Inr r, k\<lparr>k_store := s\<rparr>)" "quiet (k\<lparr>k_store := s\<rparr>)"
      "krows (k\<lparr>k_store := s\<rparr>) = krows k @ [row]" "written (outcome_args ?p ?cols k) row"
    then have "emit_effect_abort x q reason iref ref k = (Inr r, k\<lparr>k_store := s\<rparr>)" using assms(4) by (simp add: emit_effect_abort_def Let_def)
    moreover have "r_failed row" "r_op row = xa_op x" "r_effect row = seam_abort_cols c reason ref"
      using *(4) by (auto simp: written_def outcome_phase_def seam_abort_cols_def no_effect_def)
    ultimately show thesis using that * by blast
  qed (use outcome_args_sound [OF f c] in simp_all)
qed

subsection \<open>The outcome of a contained effect\<close>

lemma seam_success_live:
  assumes "open_store_flags (k_store k)" "cn_faults (st_conn (k_store k)) = []" "free_of_markers (ph_params p)" "sound_cols cols"
  shows "\<exists>r k'. kwrite (outcome_args p cols) k = (Inr r, k')"
  using store_write_live [of "k_store k" "outcome_args p cols k"] sound_admissible [OF outcome_args_sound [OF assms(3,4)]] assms(1,2)
  by (auto simp: kwrite_eq open_store_flags_def)

lemma ktransaction_late:
  \<comment> \<open>without faults only the block itself can report a late error\<close>
  assumes "ktransaction body k = (Inl (True, e), k')" "quiet k" "cn_faults (st_conn (k_store k)) = []" "\<forall>s0. keeps (inside s0) (on_store body k)"
  shows "\<exists>s1 e0 k2. entered (k_store k) s1 \<and> body (k\<lparr>k_store := s1\<rparr>) = (Inl (True, e0), k2)"
proof -
  obtain n s0 where m: "on_conn mt_init (k_store k) = (Inr n, s0)" by (auto simp: on_conn_def mt_init_def)
  obtain r1 s1 where e: "on_conn (mt_enter valid_result n) s0 = (r1, s1)" by force
  note o = opened [OF m e]
  then have sp: "r1 = Inr ()" "cn_savepoints (st_conn s1) = (n, visible (k_store k)) # cn_savepoints (st_conn (k_store k))" "cn_faults (st_conn s1) = []"
    using assms(3) by (auto simp: valid_result_def)
  have ent: "entered (k_store k) (depth_in s1)" using o sp
    by (auto simp: entered_def depth_in_def visible_def durable_def frontier_same_def in_transaction_def)
  obtain r2 k2 where b: "body (k\<lparr>k_store := depth_in s1\<rparr>) = (r2, k2)" by force
  then have "on_store body k (depth_in s1) = (map_sum snd id r2, k_store k2)" by (simp add: on_store_def)
  then have "inside (depth_in s1) (k_store k2)" using assms(4) ent by (auto simp: entered_def intro: inside_refl keepsD)
  then have i: "cn_savepoints (st_conn (k_store k2)) = (n, visible (k_store k)) # cn_savepoints (st_conn (k_store k))" "cn_faults (st_conn (k_store k2)) = []"
    using sp by (simp_all add: inside_def depth_in_def)
  show ?thesis
  proof (cases r2)
    case (Inl le)
    moreover have "\<And>e' s'. close_failed (k_store k) n (snd le) (k_store k2) \<noteq> (Inr e', s')" by (simp add: close_failed_def split: prod.splits sum.splits)
    ultimately have "fst le" using assms(1) m e sp(1) b by (auto simp: ktransaction_def split: prod.splits sum.splits)
    then show ?thesis using ent b Inl by (cases le) auto
  next
    case (Inr x)
    obtain r3 c where c: "mt_exit_clean n (st_conn (k_store k2)) = (r3, c)" by force
    from mt_exit_clean_live [OF i c] have "r3 = Inr ()" by simp
    then show ?thesis using assms(1) m e sp(1) b c Inr by (simp add: ktransaction_def close_clean_def on_conn_def depth_out_def)
  qed
qed

lemma seam_body_cases:
  assumes "entered (k_store k) s1" "writable k" "contained_effect eff" "free_of_markers (ph_params p)" "sound_cols cols"
    "seam_body eff (kwrite (outcome_args p cols)) (k\<lparr>k_store := s1\<rparr>) = (r, k3)"
  obtains (raised) e k2 where "eff (k\<lparr>k_store := s1\<rparr>) = (Inl e, k2)" "r = Inl (False, e)"
  | (returned) y k2 q where "eff (k\<lparr>k_store := s1\<rparr>) = (Inr y, k2)" "r = Inr y" "kwrite (outcome_args p cols) k2 = (Inr q, k3)"
proof (cases "eff (k\<lparr>k_store := s1\<rparr>)")
  case (Pair r1 k2)
  show thesis
  proof (cases r1)
    case (Inl e)
    then show thesis using Pair assms(6) raised by (simp add: seam_body_def)
  next
    case (Inr y)
    have s1: "inside s1 s1" "open_store_flags s1" "cn_faults (st_conn s1) = []"
      using assms(1,2) by (auto simp: entered_def writable_def open_store_flags_def intro: inside_refl)
    then have "inside s1 (k_store k2)" "open_store_flags (k_store k2)"
      using assms(3) Pair keepsD [of "\<lambda>k. inside s1 (k_store k)" eff "k\<lparr>k_store := s1\<rparr>"] keepsD [of "\<lambda>k. open_store_flags (k_store k)" eff "k\<lparr>k_store := s1\<rparr>"]
      by (auto simp: contained_effect_def)
    then obtain q k' where "kwrite (outcome_args p cols) k2 = (Inr q, k')"
      using seam_success_live [OF _ _ assms(4,5), of k2] s1 by (auto simp: inside_def)
    then show thesis using Pair Inr assms(6) returned by (simp add: seam_body_def)
  qed
qed

lemma prepared_failed: "prepared a s r \<Longrightarrow> r_failed r = wa_failed a"
  unfolding prepared_def by (elim exE conjE) (simp add: sealed_def build_receipt_def)

lemma seam_transaction:
  assumes "quiet k" "writable k" "contained_effect eff" "free_of_markers (ph_params p)" "sound_cols cols"
    "ktransaction (seam_body eff (kwrite (outcome_args p cols))) k = (res, k')"
  obtains (raised) e s1 k2 where "res = Inl (False, e)" "quiet k'" "writable k'" "durable (k_store k') = durable (k_store k)"
      "entered (k_store k) s1" "eff (k\<lparr>k_store := s1\<rparr>) = (Inl e, k2)"
  | (returned) y s1 k2 row where "res = Inr y" "quiet k'" "entered (k_store k) s1" "eff (k\<lparr>k_store := s1\<rparr>) = (Inr y, k2)"
      "krows k' = db_rows (visible (k_store k2)) @ [row]" "r_op row = ph_op p" "r_failed row = ph_failed p"
proof -
  let ?w = "kwrite (outcome_args p cols)"
  let ?b = "on_store (seam_body eff ?w) k"
  have ce: "\<forall>s0. keeps (inside s0) ?b" and fl: "keeps open_store_flags ?b"
    using assms(3) contained_kwrite [of "outcome_args p cols"] by (auto simp: contained_effect_def intro!: keeps_seam)
  have f: "cn_faults (st_conn (k_store k)) = []" "open_store_flags (k_store k)" using assms(2) by (auto simp: writable_def open_store_flags_def)
  note cases = seam_body_cases [OF _ assms(2-5)]
  from assms(1) have qs: "quiescent (k_store k)" by (simp add: quiet_def)
  show thesis
  proof (cases rule: governed_block.transaction_cases [OF governed_blockI [OF ce] qs ktransaction_transaction [OF assms(6)], case_names failed finished])
    case (failed e)
    obtain late where res: "res = Inl (late, e)" using flagged_Inl [OF failed(1)] by blast
    have "vr_ok valid_result" by (simp add: valid_result_def)
    from failed(5) [OF f(1) this] obtain s1 s2 where s: "entered (k_store k) s1" "?b s1 = (Inl e, s2)" "st_graph (k_store k') = st_graph s2"
      "st_read_only (k_store k') = st_read_only s2" by (elim exE conjE)
    obtain late1 k3 where b: "seam_body eff ?w (k\<lparr>k_store := s1\<rparr>) = (Inl (late1, e), k3)" "s2 = k_store k3"
      using on_store_Inl [OF s(2)] by blast
    have "\<not> late"
    proof
      assume late
      then have "ktransaction (seam_body eff ?w) k = (Inl (True, e), k')" using assms(6) res by simp
      from ktransaction_late [OF this assms(1) f(1) ce]
      obtain s1 e0 k2 where "entered (k_store k) s1" "seam_body eff ?w (k\<lparr>k_store := s1\<rparr>) = (Inl (True, e0), k2)" by blast
      then show False by (cases rule: cases) auto
    qed
    moreover have "open_store_flags s2" using keepsD [OF fl _ s(2)] s(1) f(2) by (auto simp: entered_def open_store_flags_def)
    then have "writable k'" using failed(4) [OF f(1)] s by (simp add: writable_def open_store_flags_def)
    moreover obtain k2 where "eff (k\<lparr>k_store := s1\<rparr>) = (Inl e, k2)" using cases [OF s(1) b(1)] by blast
    ultimately show thesis using raised [OF _ _ _ _ s(1)] res failed(2,4) f(1) by (simp add: quiet_def)
  next
    case (finished y s1 s2)
    have res: "res = Inr y" using finished(1) by (cases res) auto
    obtain k3 where b: "seam_body eff ?w (k\<lparr>k_store := s1\<rparr>) = (Inr y, k3)" "s2 = k_store k3"
      using finished(3) by (rule on_store_Inr)
    obtain k2 q where ret: "eff (k\<lparr>k_store := s1\<rparr>) = (Inr y, k2)" "kwrite (outcome_args p cols) k2 = (Inr q, k3)"
      using cases [OF finished(4) b(1)] by blast
    then obtain s where w: "store_write (outcome_args p cols k2) (k_store k2) = (Inr q, s)" "k3 = k2\<lparr>k_store := s\<rparr>" by (auto simp: kwrite_eq)
    from w(1) show thesis
    proof (rule store_write_Inr)
      fix r assume r: "prepared (outcome_args p cols k2) (k_store k2) r" "visible s = insert_row (stored_row (outcome_args p cols k2) r) (visible (k_store k2))"
      have "r_op r = ph_op p" "r_failed r = ph_failed p" using prepared_receipt(7) [OF r(1)] prepared_failed [OF r(1)] by simp_all
      then show thesis using finished b ret w r
        by (intro returned [OF res, of s1 k2 "row_of (outcome_args p cols k2) r (visible (k_store k2))"]) (simp_all add: quiet_def)
    qed
  qed
qed


definition note_then_fail :: "(kernel, unit) prog" where
  \<comment> \<open>an effect that writes a row and then raises\<close>
  "note_then_fail = sthen (kwrite (\<lambda>_. note_args)) (sraise RuntimeError)"

lemma note_then_fail_contained: "contained_effect note_then_fail"
  using contained_kwrite [of "\<lambda>_. note_args"] by (auto simp: contained_effect_def note_then_fail_def intro!: keeps_intros)


end
