(* ===== verification/Resolution.thy ===== *)
theory Resolution
  imports Outcomes
begin

text \<open>
  What the kernel does about external effects after the fact (\<^verbatim>\<open>ugk/kernel.py\<close>): reconciliation of intents
  without an outcome and compensation of committed effects. Arguments that the code tests with
  \<^verbatim>\<open>isinstance(v, str)\<close> are arbitrary Python values. Idempotency keys are text or absent, as every receipt that
  \<open>execute\<close> writes has them.

  Main results: a refused reconciliation changes nothing; a successful one writes the terminal that the detector
  looks for, so that no second terminal can be written for the same intent; compensation runs its action only
  once and only after its own intent is durable.
\<close>

subsection \<open>The basis of a verified grade\<close>

definition verify_reconciliation_warrant :: "string \<Rightarrow> kernel \<Rightarrow> (exc, decision_warrant) result" where
  "verify_reconciliation_warrant warrant_id k =
     (case k_warrants k of
        None \<Rightarrow> Inl (ReconciliationRefused ''verified-requires-warrant-store'')
      | Some c \<Rightarrow>
          if strip warrant_id = [] then Inl (ReconciliationRefused ''verified-requires-warrant-id'')
          else (case warrant_get c warrant_id of
             None \<Rightarrow> Inl (ReconciliationRefused ''warrant-not-found'')
           | Some w \<Rightarrow>
               if \<not> warrant_verify_hash w then Inl (ReconciliationRefused ''warrant-hash-invalid'')
               else if wt_law_hash w \<noteq> k_law_hash k \<or> wt_legend_hash w \<noteq> k_legend_hash k then Inl (ReconciliationRefused ''warrant-stale-frame'')
               else if wt_basis w = [] then Inl (ReconciliationRefused ''warrant-basis-invalid'')
               else Inr w))"

subsection \<open>Reconciliation\<close>

record reconcile_args =
  ra_ref :: pyval                           \<comment> \<open>\<open>prepare_ref\<close> or \<open>compensate_ref\<close>\<close>
  ra_determination :: pyval
  ra_evidence_ref :: pyval
  ra_authority :: pyval
  ra_jurisdiction :: string
  ra_intent_ref :: string                   \<comment> \<open>empty for \<^verbatim>\<open>None\<close>\<close>
  ra_warrant_id :: string
  ra_verified :: bool

definition stripped_arg :: "pyval \<Rightarrow> string option" where
  \<comment> \<open>a string that is not blank\<close>
  "stripped_arg v = (case v of PStr s \<Rightarrow> if strip s = [] then None else Some s | _ \<Rightarrow> None)"

definition reconcile_inputs :: "string \<Rightarrow> reconcile_args \<Rightarrow> (exc, string \<times> string \<times> bool \<times> string) result" where
  \<comment> \<open>authority, evidence, performed, reference\<close>
  "reconcile_inputs ref_token a =
     (case stripped_arg (ra_authority a) of None \<Rightarrow> Inl (ReconciliationRefused ''authority-required'') | Some authority \<Rightarrow>
      (case stripped_arg (ra_evidence_ref a) of None \<Rightarrow> Inl (ReconciliationRefused ''evidence-required'') | Some evidence \<Rightarrow>
       if ra_determination a \<notin> {PStr ''performed'', PStr ''not_performed''} then
         Inl (ReconciliationRefused ''determination-undetermined'')
       else (case text_arg (Some (ra_ref a)) of None \<Rightarrow> Inl (ReconciliationRefused ref_token) | Some ref \<Rightarrow>
         Inr (authority, evidence, ra_determination a = PStr ''performed'', ref))))"

definition reconcile_markers :: "string \<Rightarrow> string \<Rightarrow> bool \<Rightarrow> string option \<Rightarrow> decision_warrant option \<Rightarrow> json" where
  \<comment> \<open>authority, evidence, performed, the arc of a reversible effect, and the verified warrant\<close>
  "reconcile_markers authority evidence performed arc w = JObj (
     [(''reconciled'', JBool True), (''reconciled_by'', JStr authority), (''reconciliation_evidence_ref'', JStr evidence),
      (''determination'', JStr (if performed then ''performed'' else ''not_performed''))] @
     (case arc of None \<Rightarrow> [] | Some s \<Rightarrow> [(''arc'', JStr s)]) @
     (case w of None \<Rightarrow> []
      | Some w \<Rightarrow> [(''reconciliation_grade'', JStr ''verified''),
          (''reconciliation_warrant_snapshot'', JStr (dumps spaced_ascii (warrant_body w)))]))"

definition reconcile_phase :: "reconcile_args \<Rightarrow> string \<Rightarrow> string \<Rightarrow> json \<Rightarrow> phase_args" where
  \<comment> \<open>operation, authority and markers; the phase is set by the arc\<close>
  "reconcile_phase a opn authority markers =
     \<lparr>ph_op = opn, ph_authority = authority, ph_params = markers, ph_phase = [], ph_key = None,
      ph_jurisdiction = ra_jurisdiction a, ph_intent_ref = ra_intent_ref a, ph_warrant_id = ra_warrant_id a, ph_failed = False,
      ph_prepare_ref = None, ph_gate_admit_ref = None, ph_abort_reason = None, ph_compensate_ref = None,
      ph_compensation_key = None\<rparr>"

definition graded_warrant :: "reconcile_args \<Rightarrow> (kernel, decision_warrant option) prog" where
  "graded_warrant a =
     (if ra_verified a then sbind (sget (verify_reconciliation_warrant (ra_warrant_id a))) (\<lambda>r. sbind (sres r) (\<lambda>w. sret (Some w)))
      else sret None)"

definition forward_terminal :: "bool \<Rightarrow> json \<Rightarrow> string \<Rightarrow> phase_args \<Rightarrow> phase_args" where
  \<comment> \<open>the reconciling COMMIT or ABORT of the PREPARE with this key and root\<close>
  "forward_terminal performed key ref p =
     (if performed then p\<lparr>ph_phase := ''commit'', ph_key := jstr key, ph_prepare_ref := Some ref\<rparr>
      else p\<lparr>ph_phase := ''abort'', ph_key := jstr key, ph_prepare_ref := Some ref, ph_failed := True,
             ph_abort_reason := Some ''reconciled_not_performed''\<rparr>)"

definition reconcile_external_irreversible :: "reconcile_args \<Rightarrow> (kernel, receipt) prog" where
  "reconcile_external_irreversible a =
     sbind (sres (reconcile_inputs ''prepare_ref-required'' a)) (\<lambda>(authority, evidence, performed, ref).
     sbind (sget (\<lambda>k. find (\<lambda>o'. or_prepare_ref o' = ref) (detect_orphan_prepares_irreversible (all_receipts (k_store k))))) (\<lambda>found.
     case found of
       None \<Rightarrow> sraise (ReconciliationRefused ''not-an-outstanding-orphan'')
     | Some o' \<Rightarrow>
         sbind (graded_warrant a) (\<lambda>w.
         emit_terminal_durable (forward_terminal performed (or_key o') ref
           (reconcile_phase a (or_op o') authority (reconcile_markers authority evidence performed None w))))))"

definition reconcile_external_reversible_forward :: "reconcile_args \<Rightarrow> (kernel, receipt) prog" where
  "reconcile_external_reversible_forward a =
     sbind (sres (reconcile_inputs ''prepare_ref-required'' a)) (\<lambda>(authority, evidence, performed, ref).
     sbind (sget (\<lambda>k. find (\<lambda>o'. or_prepare_ref o' = ref) (detect_orphan_prepares_reversible (all_receipts (k_store k))))) (\<lambda>found.
     case found of
       None \<Rightarrow> sraise (ReconciliationRefused ''not-an-outstanding-orphan'')
     | Some o' \<Rightarrow>
         sbind (graded_warrant a) (\<lambda>w.
         emit_reversible_terminal_durable (forward_terminal performed (or_key o') ref
           (reconcile_phase a (or_op o') authority (reconcile_markers authority evidence performed (Some ''forward'') w))))))"

definition compensate_intent_key :: "receipt list \<Rightarrow> string \<Rightarrow> json \<Rightarrow> json" where
  \<comment> \<open>the forward key from the COMPENSATE intent, else the compensation key\<close>
  "compensate_intent_key rs ref ckey =
     (case find (\<lambda>r. v_phase r = JStr ''compensate'' \<and> v_compensate_ref r = JStr ref \<and> v_compensation_key r = ckey) rs of
        None \<Rightarrow> ckey | Some r \<Rightarrow> v_key r)"

definition compensation_terminal :: "bool \<Rightarrow> json \<Rightarrow> json \<Rightarrow> string \<Rightarrow> phase_args \<Rightarrow> phase_args" where
  "compensation_terminal performed fwd_key ckey ref p =
     (if performed then p\<lparr>ph_phase := ''compensated'', ph_key := jstr fwd_key, ph_compensate_ref := Some ref,
                          ph_compensation_key := jstr ckey\<rparr>
      else p\<lparr>ph_phase := ''compensation_failed'', ph_key := jstr fwd_key, ph_compensate_ref := Some ref,
             ph_compensation_key := jstr ckey, ph_failed := True,
             ph_abort_reason := Some ''reconciled_compensation_not_performed''\<rparr>)"

definition reconcile_external_reversible_compensation :: "reconcile_args \<Rightarrow> (kernel, receipt) prog" where
  "reconcile_external_reversible_compensation a =
     sbind (sres (reconcile_inputs ''compensate_ref-required'' a)) (\<lambda>(authority, evidence, performed, ref).
     sbind (sget (\<lambda>k. all_receipts (k_store k))) (\<lambda>receipts.
     case find (\<lambda>o'. co_compensate_ref o' = JStr ref) (detect_orphan_compensates receipts) of
       None \<Rightarrow> sraise (ReconciliationRefused ''not-an-outstanding-orphan'')
     | Some o' \<Rightarrow>
         let ckey = co_compensation_key o' in
         sbind (graded_warrant a) (\<lambda>w.
         emit_reversible_terminal_durable (compensation_terminal performed (compensate_intent_key receipts ref ckey) ckey ref
           (reconcile_phase a (co_op o') authority (reconcile_markers authority evidence performed (Some ''compensation'') w))))))"

subsection \<open>Compensation\<close>

definition compose_compensation_key :: "string \<Rightarrow> string \<Rightarrow> string" where
  "compose_compensation_key key phase = key @ ''::'' @ phase"

record 'a compensate_args =
  ca_prepare_ref :: pyval
  ca_effect :: "(kernel, 'a) prog option"    \<comment> \<open>\<open>None\<close>: not callable\<close>
  ca_key :: pyval
  ca_authority :: pyval
  ca_jurisdiction :: string
  ca_intent_ref :: string
  ca_warrant_id :: string

definition compensate_inputs :: "'a compensate_args \<Rightarrow> (exc, string \<times> string \<times> string \<times> (kernel, 'a) prog) result" where
  \<comment> \<open>authority, compensation key, reference, action\<close>
  "compensate_inputs a =
     (case stripped_arg (ca_authority a) of None \<Rightarrow> Inl (CompensationRefused ''authority-required'') | Some authority \<Rightarrow>
      (case stripped_arg (ca_key a) of None \<Rightarrow> Inl (CompensationRefused ''compensation-key-required'') | Some key \<Rightarrow>
       (case text_arg (Some (ca_prepare_ref a)) of None \<Rightarrow> Inl (CompensationRefused ''prepare_ref-required'') | Some ref \<Rightarrow>
        (case ca_effect a of None \<Rightarrow> Inl (CompensationRefused ''compensation-effect-required'') | Some eff \<Rightarrow>
         Inr (authority, key, ref, eff)))))"

definition compensate_phase :: "'a compensate_args \<Rightarrow> string \<Rightarrow> json \<Rightarrow> string \<Rightarrow> string \<Rightarrow> string \<Rightarrow> phase_args" where
  \<comment> \<open>operation, forward key, authority, compensation key, reference\<close>
  "compensate_phase a opn fwd_key authority key ref =
     \<lparr>ph_op = opn, ph_authority = authority, ph_params = JObj [(''compensates_prepare_ref'', JStr ref)], ph_phase = ''compensate'',
      ph_key = jstr fwd_key, ph_jurisdiction = ca_jurisdiction a, ph_intent_ref = ca_intent_ref a,
      ph_warrant_id = ca_warrant_id a, ph_failed = False, ph_prepare_ref = None, ph_gate_admit_ref = None,
      ph_abort_reason = None, ph_compensate_ref = Some ref, ph_compensation_key = Some key\<rparr>"

definition run_compensation :: "phase_args \<Rightarrow> (kernel, 'a) prog \<Rightarrow> (kernel, 'a) prog" where
  \<comment> \<open>COMPENSATE, the action, its terminal\<close>
  "run_compensation p eff =
     sthen (emit_reversible p)
     (sbind (scatch eff (\<lambda>e.
         sthen (emit_reversible_terminal_durable (p\<lparr>ph_phase := ''compensation_failed'', ph_failed := True,
           ph_abort_reason := Some ''compensation_effect_failed''\<rparr>)) (sraise e))) (\<lambda>result.
      sthen (emit_reversible_terminal_durable (p\<lparr>ph_phase := ''compensated''\<rparr>)) (sret result)))"

definition compensate_external_reversible :: "'a compensate_args \<Rightarrow> (kernel, 'a) prog" where
  "compensate_external_reversible a =
     sbind (sres (compensate_inputs a)) (\<lambda>(authority, key, ref, eff).
     sbind (sget (\<lambda>k. find_committed_forward (all_receipts (k_store k)) ref)) (\<lambda>fwd.
     case fwd of
       None \<Rightarrow> sraise (CompensationRefused ''not-a-compensable-committed-forward-effect'')
     | Some (opn, fwd_key) \<Rightarrow>
         if fwd_key = JStr key then sraise (CompensationRefused ''ambiguous-compensation-key-reuses-forward-key'')
         else run_compensation (compensate_phase a opn fwd_key authority key ref) eff))"

subsection \<open>The contract of an arc\<close>

locale reconciliation_arc =
  fixes token :: string
    and reconcile :: "reconcile_args \<Rightarrow> (kernel, receipt) prog"
    and locate :: "receipt list \<Rightarrow> string \<Rightarrow> 'o option"
    and close :: "reconcile_args \<Rightarrow> receipt list \<Rightarrow> string \<times> string \<times> bool \<times> string \<Rightarrow> 'o \<Rightarrow> decision_warrant option \<Rightarrow> (kernel, receipt) prog"
    and unambiguous :: "receipt list \<Rightarrow> string \<Rightarrow> bool"
  assumes shape: "reconcile a k =
      sbind (sres (reconcile_inputs token a)) (\<lambda>i.
      case locate (krecs k) (snd (snd (snd i))) of
        None \<Rightarrow> sraise (ReconciliationRefused ''not-an-outstanding-orphan'')
      | Some x \<Rightarrow> sbind (graded_warrant a) (close a (krecs k) i x)) k"
    and closes: "locate (krecs k) (snd (snd (snd i))) = Some x \<Longrightarrow> unambiguous (krecs k) (snd (snd (snd i))) \<Longrightarrow>
      close a (krecs k) i x w k = (Inr r, k') \<Longrightarrow> locate (krecs k') (snd (snd (snd i))) = None"
begin

lemma inputs_ref: "reconcile_inputs token a = Inr i \<Longrightarrow> ra_ref a = PStr (snd (snd (snd i)))"
  by (auto simp: reconcile_inputs_def text_arg_def split: option.splits if_splits pyval.splits list.splits)

lemma inputs_refused: "reconcile_inputs token a = Inl e \<Longrightarrow> \<exists>why. e = ReconciliationRefused why"
  by (auto simp: reconcile_inputs_def split: option.splits if_splits)

lemma not_outstanding:
  assumes "ra_ref b = PStr ref" "locate (krecs k) ref = None"
  shows "\<exists>why. reconcile b k = (Inl (ReconciliationRefused why), k)"
proof (cases "reconcile_inputs token b")
  case (Inl e)
  with inputs_refused [OF Inl] show ?thesis by (auto simp: shape sres_def sbind_def sraise_def)
next
  case (Inr i)
  then show ?thesis using assms inputs_ref [OF Inr] by (auto simp: shape sres_def sbind_def sraise_def)
qed

lemma at_most_once:
  assumes "reconcile a k = (Inr r, k')" "ra_ref a = PStr ref" "unambiguous (krecs k) ref" "ra_ref b = PStr ref"
  shows "locate (krecs k) ref \<noteq> None \<and> (\<exists>why. reconcile b k' = (Inl (ReconciliationRefused why), k'))"
proof -
  obtain i where i: "reconcile_inputs token a = Inr i"
    using assms(1) by (cases "reconcile_inputs token a") (auto simp: shape sres_def sbind_def sraise_def)
  then have ref: "ref = snd (snd (snd i))" using inputs_ref [OF i] assms(2) by simp
  obtain x w where x: "locate (krecs k) ref = Some x" and c: "close a (krecs k) i x w k = (Inr r, k')"
    using assms(1) i unfolding ref
    by (auto simp: shape sres_def sbind_def sraise_def graded_warrant_def sget_def sret_def split: option.splits if_splits prod.splits sum.splits)
  have "locate (krecs k') ref = None" using closes [OF x [unfolded ref] _ c] assms(3) ref by simp
  from not_outstanding [OF assms(4) this] x show ?thesis by simp
qed

end

subsection \<open>The three arcs keep the contract\<close>

definition unambiguous_prepare :: "string \<Rightarrow> receipt list \<Rightarrow> string \<Rightarrow> bool" where
  \<comment> \<open>the root identifies the PREPARE up to its key, and the key is text\<close>
  "unambiguous_prepare cls rs ref \<longleftrightarrow> (\<exists>key. \<forall>p\<in>set rs. is_phase cls ''prepare'' p \<and> r_h_r p = ref \<longrightarrow> v_key p = JStr key)"

definition unambiguous_compensate :: "receipt list \<Rightarrow> string \<Rightarrow> bool" where
  "unambiguous_compensate rs ref \<longleftrightarrow>
     (\<exists>key. \<forall>p\<in>set rs. is_phase EXTERNAL_REVERSIBLE ''compensate'' p \<and> v_compensate_ref p = JStr ref \<longrightarrow> v_compensation_key p = JStr key)"

lemma orphan_prepares_closed:
  assumes "\<And>p. p \<in> set rs \<Longrightarrow> is_phase cls ''prepare'' p \<Longrightarrow> r_h_r p = ref \<Longrightarrow> v_key p = JStr key"
    and "new \<noteq> []" "\<forall>t\<in>set new. is_terminal cls FORWARD_TERMINAL_PHASES t \<and> v_key t = JStr key \<and> v_prepare_ref t = JStr ref"
  shows "ref \<notin> r_h_r ` set (orphan_prepares cls (rs @ new))"
proof
  assume "ref \<in> r_h_r ` set (orphan_prepares cls (rs @ new))"
  then obtain p where p: "p \<in> set (orphan_prepares cls (rs @ new))" "r_h_r p = ref" by blast
  then have "p \<in> set rs" "is_phase cls ''prepare'' p" using assms(3) prepare_not_terminal by (auto simp: orphan_prepares_iff)
  moreover obtain t where "t \<in> set new" using assms(2) by (cases new) auto
  ultimately show False using p assms(1,3) by (auto simp: orphan_prepares_iff clears_def)
qed

lemma typed_views:
  "typed ec t \<Longrightarrow> ec_atomicity ec = Some c \<Longrightarrow> v_class t = JStr c" "typed ec t \<Longrightarrow> ec_phase ec = Some ph \<Longrightarrow> v_phase t = JStr ph"
  "typed ec t \<Longrightarrow> ec_idempotency_key ec = Some key \<Longrightarrow> v_key t = JStr key" "typed ec t \<Longrightarrow> ec_prepare_ref ec = Some ref \<Longrightarrow> v_prepare_ref t = JStr ref"
  "typed ec t \<Longrightarrow> ec_compensate_ref ec = Some ref \<Longrightarrow> v_compensate_ref t = JStr ref"
  "typed ec t \<Longrightarrow> ec_compensation_idempotency_key ec = Some key \<Longrightarrow> v_compensation_key t = JStr key"
  by (simp_all add: typed_def view_defs)

lemma forward_closed:
  assumes "grows ec True k k'" "ec_atomicity ec = Some cls" "ec_phase ec = Some ph" "ph \<in> set FORWARD_TERMINAL_PHASES"
    "ec_idempotency_key ec = Some key" "ec_prepare_ref ec = Some ref"
    "\<And>p. p \<in> set (krecs k) \<Longrightarrow> is_phase cls ''prepare'' p \<Longrightarrow> r_h_r p = ref \<Longrightarrow> v_key p = JStr key"
  shows "ref \<notin> r_h_r ` set (orphan_prepares cls (krecs k'))"
proof -
  obtain new where n: "krecs k' = krecs k @ new" "new \<noteq> []" "\<forall>t\<in>set new. typed ec t" using assms(1) by (auto simp: grows_def)
  then have "\<forall>t\<in>set new. is_terminal cls FORWARD_TERMINAL_PHASES t \<and> v_key t = JStr key \<and> v_prepare_ref t = JStr ref"
    using typed_views assms(2-6) by (auto simp: is_terminal_def list_ex_iff is_phase_def)
  from orphan_prepares_closed [OF assms(7) n(2) this] n(1) show ?thesis by simp
qed

lemma find_none_iff: "find P xs = None \<longleftrightarrow> (\<forall>x\<in>set xs. \<not> P x)"
  by (auto simp: find_None_iff)

lemma located_none:
  "find (\<lambda>x. or_prepare_ref x = ref) (detect_orphan_prepares_irreversible rs) = None \<longleftrightarrow> ref \<notin> r_h_r ` set (orphan_prepares EXTERNAL_IRREVERSIBLE rs)"
  "find (\<lambda>x. or_prepare_ref x = ref) (detect_orphan_prepares_reversible rs) = None \<longleftrightarrow> ref \<notin> r_h_r ` set (orphan_prepares EXTERNAL_REVERSIBLE rs)"
  by (auto simp: find_none_iff detect_orphan_prepares_irreversible_def detect_orphan_prepares_reversible_def orphan_of_def orphan.defs)

lemma located_some:
  "find (\<lambda>x. or_prepare_ref x = ref) (detect_orphan_prepares_irreversible rs) = Some y \<Longrightarrow>
     \<exists>p. p \<in> set (orphan_prepares EXTERNAL_IRREVERSIBLE rs) \<and> r_h_r p = ref \<and> or_key y = v_key p"
  "find (\<lambda>x. or_prepare_ref x = ref) (detect_orphan_prepares_reversible rs) = Some z \<Longrightarrow>
     \<exists>p. p \<in> set (orphan_prepares EXTERNAL_REVERSIBLE rs) \<and> r_h_r p = ref \<and> or_key z = v_key p"
  by (force simp: detect_orphan_prepares_irreversible_def detect_orphan_prepares_reversible_def orphan_of_def orphan.defs dest!: find_SomeD)+

lemma forward_terminal_fields [simp]:
  "ph_phase (forward_terminal performed key ref p) \<in> set FORWARD_TERMINAL_PHASES" "ph_key (forward_terminal performed key ref p) = jstr key"
  "ph_prepare_ref (forward_terminal performed key ref p) = Some ref"
  by (simp_all add: forward_terminal_def FORWARD_TERMINAL_PHASES_def)

definition close_prepare ::
    "(phase_args \<Rightarrow> (kernel, receipt) prog) \<Rightarrow> string option \<Rightarrow> reconcile_args \<Rightarrow> receipt list \<Rightarrow> string \<times> string \<times> bool \<times> string \<Rightarrow>
     'o orphan_scheme \<Rightarrow> decision_warrant option \<Rightarrow> (kernel, receipt) prog" where
  \<comment> \<open>the last step of the two forward arcs\<close>
  "close_prepare emit arc a rs i x w = (case i of (authority, evidence, performed, ref) \<Rightarrow>
     emit (forward_terminal performed (or_key x) ref
       (reconcile_phase a (or_op x) authority (reconcile_markers authority evidence performed arc w))))"

lemma close_prepare_closes:
  assumes "\<And>p res. emit p k = (res, k') \<Longrightarrow> \<exists>ec. grows ec (\<exists>r. res = Inr r) k k' \<and> ec_atomicity ec = Some cls \<and> ec_phase ec = Some (ph_phase p) \<and>
      ec_idempotency_key ec = ph_key p \<and> ec_prepare_ref ec = ph_prepare_ref p"
    and "p \<in> set (orphan_prepares cls (krecs k)) \<and> r_h_r p = snd (snd (snd i)) \<and> or_key x = v_key p"
    and u: "unambiguous_prepare cls (krecs k) (snd (snd (snd i)))" and c: "close_prepare emit arc a rs i x w k = (Inr r, k')"
  shows "snd (snd (snd i)) \<notin> r_h_r ` set (orphan_prepares cls (krecs k'))"
proof -
  obtain authority evidence performed ref where i: "i = (authority, evidence, performed, ref)" by (cases i)
  obtain key where key: "\<And>p. p \<in> set (krecs k) \<Longrightarrow> is_phase cls ''prepare'' p \<Longrightarrow> r_h_r p = ref \<Longrightarrow> v_key p = JStr key"
    using u by (auto simp: i unambiguous_prepare_def)
  then have "or_key x = JStr key" using assms(2) by (simp add: i orphan_prepares_iff)
  moreover from assms(1) [OF c [unfolded i close_prepare_def prod.case]] obtain ec where ec: "grows ec True k k'" "ec_atomicity ec = Some cls"
      "ec_phase ec = Some (ph_phase (forward_terminal performed (or_key x) ref (reconcile_phase a (or_op x) authority (reconcile_markers authority evidence performed arc w))))"
      "ec_idempotency_key ec = jstr (or_key x)" "ec_prepare_ref ec = Some ref"
    by (elim exE conjE) simp
  ultimately have "ec_idempotency_key ec = Some key" by simp
  from forward_closed [OF ec(1-3) forward_terminal_fields(1) this ec(5)] key
  have "ref \<notin> r_h_r ` set (orphan_prepares cls (krecs k'))" by blast
  then show ?thesis by (simp add: i)
qed

interpretation irreversible: reconciliation_arc "''prepare_ref-required''" reconcile_external_irreversible
    "\<lambda>rs ref. find (\<lambda>x. or_prepare_ref x = ref) (detect_orphan_prepares_irreversible rs)"
    "close_prepare emit_terminal_durable None" "unambiguous_prepare EXTERNAL_IRREVERSIBLE"
proof (unfold_locales, goal_cases)
  case (1 a k)
  show ?case
    by (cases "reconcile_inputs ''prepare_ref-required'' a")
      (auto simp: reconcile_external_irreversible_def close_prepare_def sres_def sbind_def sget_def sraise_def split: option.splits
        cong: prod.case_cong sum.case_cong)
next
  case (2 k i x a w r k')
  from located_some(1) [OF 2(1)] obtain p where p: "p \<in> set (orphan_prepares EXTERNAL_IRREVERSIBLE (krecs k)) \<and> r_h_r p = snd (snd (snd i)) \<and> or_key x = v_key p" by blast
  show ?case unfolding located_none
    by (rule close_prepare_closes [OF _ p 2(2,3)]) (fastforce simp: phase_cols_def dest!: terminal_grows)
qed

interpretation forward: reconciliation_arc "''prepare_ref-required''" reconcile_external_reversible_forward
    "\<lambda>rs ref. find (\<lambda>x. or_prepare_ref x = ref) (detect_orphan_prepares_reversible rs)"
    "close_prepare emit_reversible_terminal_durable (Some ''forward'')" "unambiguous_prepare EXTERNAL_REVERSIBLE"
proof (unfold_locales, goal_cases)
  case (1 a k)
  show ?case
    by (cases "reconcile_inputs ''prepare_ref-required'' a")
      (auto simp: reconcile_external_reversible_forward_def close_prepare_def sres_def sbind_def sget_def sraise_def split: option.splits
        cong: prod.case_cong sum.case_cong)
next
  case (2 k i x a w r k')
  from located_some(2) [OF 2(1)] obtain p where p: "p \<in> set (orphan_prepares EXTERNAL_REVERSIBLE (krecs k)) \<and> r_h_r p = snd (snd (snd i)) \<and> or_key x = v_key p" by blast
  show ?case unfolding located_none
    by (rule close_prepare_closes [OF _ p 2(2,3)]) (fastforce simp: phase_cols_def dest!: terminal_grows)
qed

lemma located_compensate_none:
  "find (\<lambda>x. co_compensate_ref x = JStr ref) (detect_orphan_compensates rs) = None \<longleftrightarrow>
     (\<forall>p\<in>set (orphan_compensates rs). v_compensate_ref p \<noteq> JStr ref)"
  by (auto simp: find_none_iff detect_orphan_compensates_def)

lemma located_compensate_some:
  "find (\<lambda>x. co_compensate_ref x = JStr ref) (detect_orphan_compensates rs) = Some y \<Longrightarrow>
     \<exists>p. p \<in> set (orphan_compensates rs) \<and> v_compensate_ref p = JStr ref \<and> co_compensation_key y = v_compensation_key p"
  by (force simp: detect_orphan_compensates_def dest!: find_SomeD)

definition close_compensate ::
    "reconcile_args \<Rightarrow> receipt list \<Rightarrow> string \<times> string \<times> bool \<times> string \<Rightarrow> comp_orphan \<Rightarrow> decision_warrant option \<Rightarrow> (kernel, receipt) prog" where
  "close_compensate a rs i x w = (case i of (authority, evidence, performed, ref) \<Rightarrow>
     emit_reversible_terminal_durable (compensation_terminal performed (compensate_intent_key rs ref (co_compensation_key x)) (co_compensation_key x) ref
       (reconcile_phase a (co_op x) authority (reconcile_markers authority evidence performed (Some ''compensation'') w))))"

lemma compensation_terminal_fields [simp]:
  "ph_phase (compensation_terminal performed key ckey ref p) \<in> set COMP_TERMINAL_PHASES"
  "ph_compensate_ref (compensation_terminal performed key ckey ref p) = Some ref"
  "ph_compensation_key (compensation_terminal performed key ckey ref p) = jstr ckey"
  by (simp_all add: compensation_terminal_def COMP_TERMINAL_PHASES_def)

lemma orphan_compensates_closed:
  assumes "grows ec True k k'" "ec_atomicity ec = Some EXTERNAL_REVERSIBLE" "ec_phase ec = Some ph" "ph \<in> set COMP_TERMINAL_PHASES"
    "ec_compensate_ref ec = Some ref" "ec_compensation_idempotency_key ec = Some key"
    "\<forall>p\<in>set (krecs k). is_phase EXTERNAL_REVERSIBLE ''compensate'' p \<and> v_compensate_ref p = JStr ref \<longrightarrow> v_compensation_key p = JStr key"
  shows "\<forall>p\<in>set (orphan_compensates (krecs k')). v_compensate_ref p \<noteq> JStr ref"
proof -
  obtain new where n: "krecs k' = krecs k @ new" "new \<noteq> []" "\<forall>t\<in>set new. typed ec t" using assms(1) by (auto simp: grows_def)
  then have t: "\<forall>t\<in>set new. is_terminal EXTERNAL_REVERSIBLE COMP_TERMINAL_PHASES t \<and> \<not> is_phase EXTERNAL_REVERSIBLE ''compensate'' t \<and>
      v_compensate_ref t = JStr ref \<and> v_compensation_key t = JStr key"
    using typed_views assms(2-6) by (fastforce simp: is_terminal_def list_ex_iff is_phase_def COMP_TERMINAL_PHASES_def)
  obtain t where "t \<in> set new" using n(2) by (cases new) auto
  with t assms(7) show ?thesis unfolding n(1) orphan_compensates_def by auto
qed

interpretation compensation: reconciliation_arc "''compensate_ref-required''" reconcile_external_reversible_compensation
    "\<lambda>rs ref. find (\<lambda>x. co_compensate_ref x = JStr ref) (detect_orphan_compensates rs)" close_compensate unambiguous_compensate
proof (unfold_locales, goal_cases)
  case (1 a k)
  show ?case
    by (cases "reconcile_inputs ''compensate_ref-required'' a")
      (auto simp: reconcile_external_reversible_compensation_def close_compensate_def sres_def sbind_def sget_def sraise_def Let_def split: option.splits
        cong: prod.case_cong sum.case_cong)
next
  case (2 k i x a w r k')
  obtain authority evidence performed ref where i: "i = (authority, evidence, performed, ref)" by (cases i)
  obtain key where key: "\<forall>p\<in>set (krecs k). is_phase EXTERNAL_REVERSIBLE ''compensate'' p \<and> v_compensate_ref p = JStr ref \<longrightarrow> v_compensation_key p = JStr key"
    using 2(2) by (auto simp: i unambiguous_compensate_def)
  from located_compensate_some [OF 2(1)] have ckey: "co_compensation_key x = JStr key" using key by (auto simp: i orphan_compensates_def)
  from terminal_grows(2) [OF 2(3) [unfolded i close_compensate_def prod.case ckey]]
  have g: "grows (phase_cols EXTERNAL_REVERSIBLE (compensation_terminal performed (compensate_intent_key (krecs k) ref (JStr key)) (JStr key) ref
      (reconcile_phase a (co_op x) authority (reconcile_markers authority evidence performed (Some ''compensation'') w)))) True k k'" by simp
  have "\<forall>p\<in>set (orphan_compensates (krecs k')). v_compensate_ref p \<noteq> JStr ref"
    by (rule orphan_compensates_closed [OF g _ _ compensation_terminal_fields(1) _ _ key]) (simp_all add: phase_cols_def)
  then show ?case unfolding located_compensate_none by (simp add: i)
qed

definition outstanding :: "receipt list \<Rightarrow> string \<Rightarrow> bool" where
  \<comment> \<open>some detector reports the reference\<close>
  "outstanding rs ref \<longleftrightarrow> ref \<in> r_h_r ` set (orphan_prepares EXTERNAL_IRREVERSIBLE rs) \<or> ref \<in> r_h_r ` set (orphan_prepares EXTERNAL_REVERSIBLE rs) \<or>
     (\<exists>p\<in>set (orphan_compensates rs). v_compensate_ref p = JStr ref)"

text \<open>C7. Reconciliation records at most one outcome per intent and only for an outstanding
  one, on all three arcs, for every fault script and every combination of arguments: a reconciliation that returns
  had an outstanding intent to resolve, and every later reconciliation of the same reference on that arc, whatever it
  determines, is refused and changes nothing. The intents that carry the reference are assumed to agree on their
  (textual) key, which a collision-free root gives.\<close>

theorem reconcile_at_most_once:
  assumes "reconcile \<in> {reconcile_external_irreversible, reconcile_external_reversible_forward, reconcile_external_reversible_compensation}"
    "reconcile a k = (Inr r, k')" "ra_ref a = PStr ref" "ra_ref b = PStr ref"
    "unambiguous_prepare EXTERNAL_IRREVERSIBLE (krecs k) ref" "unambiguous_prepare EXTERNAL_REVERSIBLE (krecs k) ref"
    "unambiguous_compensate (krecs k) ref"
  shows "outstanding (krecs k) ref \<and> (\<exists>why. reconcile b k' = (Inl (ReconciliationRefused why), k'))"
proof -
  consider "reconcile = reconcile_external_irreversible" | "reconcile = reconcile_external_reversible_forward"
    | "reconcile = reconcile_external_reversible_compensation" using assms(1) by blast
  then show ?thesis
  proof cases
    case 1
    then show ?thesis using irreversible.at_most_once [of a k r k' ref b] assms by (simp add: located_none outstanding_def)
  next
    case 2
    then show ?thesis using forward.at_most_once [of a k r k' ref b] assms by (simp add: located_none outstanding_def)
  next
    case 3
    then show ?thesis using compensation.at_most_once [of a k r k' ref b] assms by (simp add: located_compensate_none outstanding_def)
  qed
qed

lemma quiet_recs: "quiet k \<Longrightarrow> krecs k = map row_to_receipt (krows k)"
  by (simp add: all_receipts_def quiet_def quiescent_def)

definition pending_prepare :: phase_args where
  "pending_prepare = lost_commit\<lparr>ph_phase := ''prepare'', ph_prepare_ref := None, ph_gate_admit_ref := Some ''ref''\<rparr>"

definition operator_says :: "string \<Rightarrow> string \<Rightarrow> reconcile_args" where
  "operator_says ref found = \<lparr>ra_ref = PStr ref, ra_determination = PStr found, ra_evidence_ref = PStr ''ticket'', ra_authority = PStr ''operator'',
     ra_jurisdiction = ''session'', ra_intent_ref = [], ra_warrant_id = [], ra_verified = False\<rparr>"

lemma view_row [simp]:
  "v_class (row_to_receipt row) = v_class row" "v_phase (row_to_receipt row) = v_phase row" "v_key (row_to_receipt row) = v_key row"
  "v_prepare_ref (row_to_receipt row) = v_prepare_ref row" "v_compensate_ref (row_to_receipt row) = v_compensate_ref row"
  "v_compensation_key (row_to_receipt row) = v_compensation_key row" "is_phase cls ph (row_to_receipt row) = is_phase cls ph row"
proof -
  have "r_parameters (row_to_receipt row) = r_parameters row" by (simp add: row_to_receipt_def)
  then have "effect_view col marker (row_to_receipt row) = effect_view col marker row" for col marker
    by (simp add: effect_view_def cong: option.case_cong)
  then show "v_class (row_to_receipt row) = v_class row" "v_phase (row_to_receipt row) = v_phase row" "v_key (row_to_receipt row) = v_key row"
    "v_prepare_ref (row_to_receipt row) = v_prepare_ref row" "v_compensate_ref (row_to_receipt row) = v_compensate_ref row"
    "v_compensation_key (row_to_receipt row) = v_compensation_key row" "is_phase cls ph (row_to_receipt row) = is_phase cls ph row"
    by (simp_all add: v_class_def v_phase_def v_key_def v_prepare_ref_def v_compensate_ref_def v_compensation_key_def is_phase_def)
qed

lemma reconciled_example:
  "\<exists>k ref r k'. reconcile_external_irreversible (operator_says ref ''performed'') k = (Inr r, k') \<and>
     unambiguous_prepare EXTERNAL_IRREVERSIBLE (krecs k) ref \<and> unambiguous_prepare EXTERNAL_REVERSIBLE (krecs k) ref \<and> unambiguous_compensate (krecs k) ref"
proof -
  have dom: "''prepare'' \<in> set EFFECT_PHASE_DOMAIN" "''commit'' \<in> set EFFECT_PHASE_DOMAIN" by (simp_all add: EFFECT_PHASE_DOMAIN_def)
  have free: "free_of_markers (ph_params pending_prepare)" by (simp add: pending_prepare_def lost_commit_def free_of_markers_def)
  have ph: "ph_phase pending_prepare = ''prepare''" by (simp add: pending_prepare_def)
  obtain r s row where e: "emit_irreversible pending_prepare (founded []) = (Inr r, (founded [])\<lparr>k_store := s\<rparr>)" "quiet ((founded [])\<lparr>k_store := s\<rparr>)"
    "writable ((founded [])\<lparr>k_store := s\<rparr>)" "krows ((founded [])\<lparr>k_store := s\<rparr>) = krows (founded []) @ [row]"
    "phase_row EXTERNAL_IRREVERSIBLE pending_prepare row"
    using emit_irreversible_emits [unfolded emits_def, rule_format, of "founded []" pending_prepare] free dom ph by auto
  define k where "k = (founded [])\<lparr>k_store := s\<rparr>"
  have "krows (founded []) = []" using fresh_store_ok(2,6) [of "[]"] by (simp add: quiescent_def)
  then have recs: "krecs k = [row_to_receipt row]" using quiet_recs [OF e(2)] e(4) by (simp add: k_def)
  have row: "is_phase EXTERNAL_IRREVERSIBLE ''prepare'' row" "v_key row = JStr ''key''" "r_h_r row \<noteq> []"
    using e(5) ph by (auto simp: phase_row_def pending_prepare_def lost_commit_def)
  have orphan: "orphan_prepares EXTERNAL_IRREVERSIBLE (krecs k) = [row_to_receipt row]"
    using row(1) prepare_not_terminal [OF row(1)] by (simp add: recs orphan_prepares_def is_terminal_def FORWARD_TERMINAL_PHASES_def is_phase_def)
  let ?ref = "r_h_r row"
  obtain x where x: "find (\<lambda>x. or_prepare_ref x = ?ref) (detect_orphan_prepares_irreversible (krecs k)) = Some x" "or_key x = JStr ''key''"
    using located_none(1) [of ?ref "krecs k"] located_some(1) [of ?ref "krecs k"] orphan row(2) by auto
  define pt where "pt = forward_terminal True (or_key x) ?ref (reconcile_phase (operator_says ?ref ''performed'') (or_op x) ''operator''
     (reconcile_markers ''operator'' ''ticket'' True None None))"
  have "free_of_markers (ph_params pt)" "ph_phase pt = ''commit''"
    by (simp_all add: pt_def forward_terminal_def reconcile_phase_def reconcile_markers_def free_of_markers_def EFFECT_MARKER_KEYS_def EFFECT_MARKER_MAP_def RECONCILIATION_KEYS_def)
  then obtain q t where w: "emit_terminal_durable pt k = (Inr q, k\<lparr>k_store := t\<rparr>)"
    using irreversible_class.terminal_ok [unfolded emits_def, rule_format, of k pt] e(2,3) dom by (auto simp: k_def)
  have "reconcile_inputs ''prepare_ref-required'' (operator_says ?ref ''performed'') = Inr (''operator'', ''ticket'', True, ?ref)"
    using row(3) by (cases ?ref) (auto simp: reconcile_inputs_def operator_says_def stripped_arg_def text_arg_def strip_def py_space_def)
  then have "reconcile_external_irreversible (operator_says ?ref ''performed'') k = (Inr q, k\<lparr>k_store := t\<rparr>)"
    using x(1) w by (simp add: reconcile_external_irreversible_def sbind_def sres_def sget_def graded_warrant_def operator_says_def sret_def pt_def)
  moreover have "unambiguous_prepare EXTERNAL_IRREVERSIBLE (krecs k) ?ref" "unambiguous_prepare EXTERNAL_REVERSIBLE (krecs k) ?ref" "unambiguous_compensate (krecs k) ?ref"
    using row by (auto simp: recs unambiguous_prepare_def unambiguous_compensate_def is_phase_def EXTERNAL_IRREVERSIBLE_def EXTERNAL_REVERSIBLE_def)
  ultimately show ?thesis by blast
qed

theorem reconcile_at_most_once_witness:
  "\<exists>k ref r k' why. reconcile_external_irreversible (operator_says ref ''performed'') k = (Inr r, k') \<and> outstanding (krecs k) ref \<and>
     reconcile_external_irreversible (operator_says ref ''not_performed'') k' = (Inl (ReconciliationRefused why), k')"
proof -
  obtain k ref r k' where r: "reconcile_external_irreversible (operator_says ref ''performed'') k = (Inr r, k')"
    "unambiguous_prepare EXTERNAL_IRREVERSIBLE (krecs k) ref" "unambiguous_prepare EXTERNAL_REVERSIBLE (krecs k) ref" "unambiguous_compensate (krecs k) ref"
    using reconciled_example by blast
  have "outstanding (krecs k) ref \<and> (\<exists>why. reconcile_external_irreversible (operator_says ref ''not_performed'') k' = (Inl (ReconciliationRefused why), k'))"
    by (rule reconcile_at_most_once [of reconcile_external_irreversible, OF _ r(1) _ _ r(2-4)]) (simp_all add: operator_says_def)
  with r(1) show ?thesis by blast
qed

subsection \<open>Compensation runs at most once\<close>

lemma compensated_blocks:
  assumes "t \<in> set rs" "is_phase EXTERNAL_REVERSIBLE ''compensate'' t" "v_compensate_ref t = JStr ref"
  shows "find_committed_forward rs ref = None"
  using assms by (auto simp: find_committed_forward_def Let_def filter_empty_conv)

lemma blocked_refused:
  assumes "find_committed_forward (krecs k) ref = None" "ca_prepare_ref b = PStr ref"
  shows "\<exists>why. compensate_external_reversible b k = (Inl (CompensationRefused why), k)"
proof (cases "compensate_inputs b")
  case (Inl e)
  then have "\<exists>why. e = CompensationRefused why" by (auto simp: compensate_inputs_def split: option.splits)
  then show ?thesis using Inl by (auto simp: compensate_external_reversible_def sres_def sbind_def sraise_def)
next
  case (Inr i)
  then have "fst (snd (snd i)) = ref" using assms(2)
    by (auto simp: compensate_inputs_def text_arg_def split: option.splits list.splits)
  then show ?thesis using Inr assms(1)
    by (cases i) (simp add: compensate_external_reversible_def sres_def sbind_def sget_def sraise_def)
qed

definition appends :: "kernel \<Rightarrow> kernel \<Rightarrow> bool" where
  "appends k k' \<longleftrightarrow> (\<exists>new. krecs k' = krecs k @ new)"

lemma appends_trans: "appends k k1 \<Longrightarrow> appends k1 k2 \<Longrightarrow> appends k k2"
  by (auto simp: appends_def)

lemma grows_appends: "grows ec b k k' \<Longrightarrow> appends k k'"
  by (auto simp: grows_def appends_def)

lemma run_compensation_appends:
  assumes "emit_reversible p k = (Inr r, k1)" "\<forall>k. appends k (snd (eff k))" "run_compensation p eff k = (res, k')"
  shows "appends k1 k'"
proof -
  obtain r2 k2 where e: "eff k1 = (r2, k2)" by force
  then have a: "appends k1 k2" using assms(2) by (metis snd_conv)
  have t: "appends k2 k3" if "emit_reversible_terminal_durable pt k2 = (q, k3)" for pt q k3
    using grows_appends [OF terminal_grows(2) [OF that]] .
  show ?thesis using assms(1,3) e a
    by (cases r2) (auto simp: run_compensation_def sthen_def sbind_def scatch_def sret_def sraise_def split: prod.splits sum.splits
        dest!: t intro: appends_trans)
qed

text \<open>C8. The compensation arc, for every fault script and every action that only appends to the store.
  A call either is refused with \<open>CompensationRefused\<close> and changes nothing; or fails to write its COMPENSATE intent,
  in which case the action never runs; or its intent stands, no receipt that was there before is lost (the forward COMMIT
  stays historically true), and every further compensation of the same forward effect, by whatever action and key,
  is refused without a trace.\<close>

theorem compensation_once:
  assumes "compensate_external_reversible a k = (res, k')" "ca_effect a = Some eff" "\<forall>k. appends k (snd (eff k))"
    "ca_prepare_ref a = PStr ref" "ca_prepare_ref b = PStr ref"
  shows "(\<exists>why. res = Inl (CompensationRefused why)) \<and> k' = k \<or> (\<exists>p e. emit_reversible p k = (Inl e, k') \<and> res = Inl e) \<or>
    appends k k' \<and> (\<exists>why. compensate_external_reversible b k' = (Inl (CompensationRefused why), k'))"
proof (cases "find_committed_forward (krecs k) ref")
  case None
  from blocked_refused [OF None assms(4)] assms(1) show ?thesis by auto
next
  case (Some f)
  show ?thesis
  proof (cases "compensate_inputs a")
    case (Inl e)
    then have "\<exists>why. e = CompensationRefused why" by (auto simp: compensate_inputs_def split: option.splits)
    then show ?thesis using Inl assms(1) by (auto simp: compensate_external_reversible_def sres_def sbind_def sraise_def)
  next
    case (Inr i)
    obtain authority key where i: "i = (authority, key, ref, eff)" using Inr assms(2,4)
      by (auto simp: compensate_inputs_def text_arg_def split: option.splits list.splits)
    obtain opn fwd_key where f: "f = (opn, fwd_key)" by (cases f)
    let ?p = "compensate_phase a opn fwd_key authority key ref"
    have run: "(if fwd_key = JStr key then sraise (CompensationRefused ''ambiguous-compensation-key-reuses-forward-key'') else run_compensation ?p eff) k = (res, k')"
      using assms(1) Inr i Some f by (simp add: compensate_external_reversible_def sres_def sbind_def sget_def sret_def)
    show ?thesis
    proof (cases "fwd_key = JStr key")
      case True
      then show ?thesis using run by (auto simp: sraise_def)
    next
      case False
      then have run': "run_compensation ?p eff k = (res, k')" using run by simp
      obtain r1 k1 where e: "emit_reversible ?p k = (r1, k1)" by force
      show ?thesis
      proof (cases r1)
        case (Inl err)
        then show ?thesis using run' e by (auto simp: run_compensation_def sthen_Inl)
      next
        case ok: (Inr q)
        have "grows (phase_cols EXTERNAL_REVERSIBLE ?p) True k k1"
          using kwrite_grows [OF e [unfolded emit_reversible_def]] ok by (simp add: phase_cols_def)
        then obtain new where new: "krecs k1 = krecs k @ new" "new \<noteq> []" "\<forall>t\<in>set new. typed (phase_cols EXTERNAL_REVERSIBLE ?p) t" "appends k k1"
          using grows_appends by (auto simp: grows_def)
        obtain t where t: "t \<in> set new" using new(2) by (cases new) auto
        have a: "appends k1 k'" by (rule run_compensation_appends [OF e [unfolded ok] assms(3) run'])
        have "is_phase EXTERNAL_REVERSIBLE ''compensate'' t" "v_compensate_ref t = JStr ref"
          using new(3) t typed_views by (auto simp: is_phase_def phase_cols_def compensate_phase_def)
        moreover have "t \<in> set (krecs k')" using a new(1) t by (auto simp: appends_def)
        ultimately have "find_committed_forward (krecs k') ref = None" by (intro compensated_blocks)
        from blocked_refused [OF this assms(5)] appends_trans [OF new(4) a] show ?thesis by blast
      qed
    qed
  qed
qed

definition refund :: "unit compensate_args" where
  "refund = \<lparr>ca_prepare_ref = PStr ''ref'', ca_effect = Some (sret ()), ca_key = PStr ''refund'', ca_authority = PStr ''operator'',
     ca_jurisdiction = ''session'', ca_intent_ref = [], ca_warrant_id = []\<rparr>"

lemma expanded_op: "r_op (row_to_receipt row) = expand (r_op row)"
  by (simp add: row_to_receipt_def)

lemma committed_example:
  obtains k where "quiet k" "writable k" "find_committed_forward (krecs k) ''ref'' = Some (''transfer'', JStr ''key'')"
proof -
  have free: "free_of_markers (ph_params lost_commit)" and ph: "ph_phase lost_commit = ''commit''" by (simp_all add: lost_commit_def free_of_markers_def)
  obtain r s row where e: "quiet ((founded [])\<lparr>k_store := s\<rparr>)" "writable ((founded [])\<lparr>k_store := s\<rparr>)"
    "krows ((founded [])\<lparr>k_store := s\<rparr>) = krows (founded []) @ [row]" "phase_row EXTERNAL_REVERSIBLE lost_commit row"
    using emit_reversible_emits [unfolded emits_def, rule_format, of "founded []" lost_commit] free ph by (auto simp: EFFECT_PHASE_DOMAIN_def)
  have "krows (founded []) = []" using fresh_store_ok(2,6) [of "[]"] by (simp add: quiescent_def)
  then have recs: "krecs ((founded [])\<lparr>k_store := s\<rparr>) = [row_to_receipt row]" using quiet_recs [OF e(1)] e(3) by simp
  have "expand ''transfer'' = ''transfer''" by code_simp
  then have "find_committed_forward (krecs ((founded [])\<lparr>k_store := s\<rparr>)) ''ref'' = Some (''transfer'', JStr ''key'')"
    unfolding recs using e(4) by (auto simp: find_committed_forward_def Let_def phase_row_def is_phase_def lost_commit_def expanded_op)
  then show thesis using that e(1,2) by blast
qed

theorem compensation_once_witness:
  "\<exists>k k'. compensate_external_reversible refund k = (Inr (), k') \<and> appends k k' \<and>
     (\<exists>why. compensate_external_reversible refund k' = (Inl (CompensationRefused why), k'))"
proof (rule committed_example)
  fix k assume k: "quiet k" "writable k" "find_committed_forward (krecs k) ''ref'' = Some (''transfer'', JStr ''key'')"
  let ?p = "compensate_phase refund ''transfer'' (JStr ''key'') ''operator'' ''refund'' ''ref''"
  have free: "free_of_markers (ph_params (?p\<lparr>ph_phase := ph\<rparr>))" for ph
    by (simp add: compensate_phase_def free_of_markers_def EFFECT_MARKER_KEYS_def EFFECT_MARKER_MAP_def RECONCILIATION_KEYS_def)
  have ph: "?p\<lparr>ph_phase := ''compensate''\<rparr> = ?p" by (simp add: compensate_phase_def)
  have dom: "''compensate'' \<in> set EFFECT_PHASE_DOMAIN" "''compensated'' \<in> set EFFECT_PHASE_DOMAIN" by (simp_all add: EFFECT_PHASE_DOMAIN_def)
  obtain r s where e: "emit_reversible ?p k = (Inr r, k\<lparr>k_store := s\<rparr>)" "quiet (k\<lparr>k_store := s\<rparr>)" "writable (k\<lparr>k_store := s\<rparr>)"
    using emit_reversible_emits [unfolded emits_def, rule_format, of k "?p\<lparr>ph_phase := ''compensate''\<rparr>"] k(1,2) free dom unfolding ph by (auto simp: compensate_phase_def)
  obtain q t where c: "emit_reversible_terminal_durable (?p\<lparr>ph_phase := ''compensated''\<rparr>) (k\<lparr>k_store := s\<rparr>) = (Inr q, k\<lparr>k_store := t\<rparr>)"
    using reversible_class.terminal_ok [unfolded emits_def, rule_format, of "k\<lparr>k_store := s\<rparr>" "?p\<lparr>ph_phase := ''compensated''\<rparr>"] e free dom by auto
  have "compensate_inputs refund = Inr (''operator'', ''refund'', ''ref'', sret ())"
    by (simp add: compensate_inputs_def refund_def stripped_arg_def text_arg_def strip_def py_space_def)
  then have run: "compensate_external_reversible refund k = (Inr (), k\<lparr>k_store := t\<rparr>)"
    using k(3) e(1) c by (simp add: compensate_external_reversible_def run_compensation_def sres_def sbind_def sget_def sthen_def sret_def)
  have "appends k (snd (sret () k))" for k by (simp add: sret_def appends_def)
  with compensation_once [OF run, of "sret ()" "''ref''" refund] run show ?thesis by (auto simp: refund_def)
qed

end
