(* ===== verification/Continuations.thy ===== *)
theory Continuations
  imports Outcomes
begin

text \<open>
  Deferred operations (\<^verbatim>\<open>ugk/kernel.py\<close>: \<open>defer_operation\<close>, \<open>emit_bridge\<close>, \<open>_continuation_marker\<close>,
  \<open>resume_continuation\<close>). A continuation is the newest receipt that carries its identifier. The record of a
  continuation always names its operation; a record without authority or jurisdiction, which only a direct write
  to the store can leave, is resumed with the kernel's authority and an empty jurisdiction.

  Main results: a deferred operation is found again as it was captured; resuming goes through \<open>execute\<close>, and of all
  attempts to resume one continuation at most one returns.
\<close>

subsection \<open>Deferring\<close>

definition deferral_args :: "string \<Rightarrow> string \<Rightarrow> json \<Rightarrow> string \<Rightarrow> kernel \<Rightarrow> write_args" where
  \<comment> \<open>operation, authority, parameters, jurisdiction; the receipt commits its terminal outcome\<close>
  "deferral_args opn authority params jurisdiction k =
     (default_write opn authority params)\<lparr>wa_jurisdiction := jurisdiction, wa_session_dkn := k_session_dkn k,
        wa_law_hash := k_law_hash k, wa_legend_hash := k_legend_hash k, wa_commit_terminal_outcome := True\<rparr>"

definition continuation_record :: "string \<Rightarrow> json \<Rightarrow> json \<Rightarrow> json \<Rightarrow> json \<Rightarrow> json option \<Rightarrow> json \<Rightarrow> string \<Rightarrow> json" where
  \<comment> \<open>identifier, operation, authority, parameters, jurisdiction, anchor if any, expiry basis, state\<close>
  "continuation_record cid opn authority params jurisdiction anchor eb st = JObj
     ([(''id'', JStr cid), (''op'', opn), (''authority'', authority), (''parameters'', params), (''jurisdiction'', jurisdiction)] @
      (case anchor of None \<Rightarrow> [] | Some a \<Rightarrow> [(''anchor'', a)]) @
      [(''expiry_basis'', eb), (''state'', JStr st), (''model_id'', JStr CONTINUATION_RECORD_MODEL_ID)])"

record defer_args =
  df_op :: string
  df_authority :: string                  \<comment> \<open>empty for \<^verbatim>\<open>None\<close>\<close>
  df_parameters :: "(string \<times> json) list"
  df_jurisdiction :: string
  df_expiry_basis :: "json option"
  df_anchor :: "string option"

definition df_by :: "defer_args \<Rightarrow> kernel \<Rightarrow> string" where
  "df_by d k = (if df_authority d = [] then k_authority k else df_authority d)"

definition df_anchored :: "defer_args \<Rightarrow> kernel \<Rightarrow> string" where
  "df_anchored d k = (case df_anchor d of None \<Rightarrow> stream_hash (k_store k) | Some a \<Rightarrow> a)"

definition df_id :: "defer_args \<Rightarrow> kernel \<Rightarrow> string" where
  "df_id d k = compute_continuation_id (JStr (df_op d)) (JStr (df_by d k)) (JObj (df_parameters d)) (JStr (df_jurisdiction d)) (JStr (df_anchored d k))"

definition df_basis :: "defer_args \<Rightarrow> kernel \<Rightarrow> json" where
  "df_basis d k = (case df_expiry_basis d of
     None \<Rightarrow> JObj [(''kind'', JStr ''receipt_height''), (''value'', JInt (int (committed_height (k_store k)) + 1000000))]
   | Some eb \<Rightarrow> eb)"

definition df_record :: "defer_args \<Rightarrow> kernel \<Rightarrow> json" where
  "df_record d k = continuation_record (df_id d k) (JStr (df_op d)) (JStr (df_by d k)) (JObj (df_parameters d)) (JStr (df_jurisdiction d))
     (Some (JStr (df_anchored d k))) (df_basis d k) ''HELD''"

definition defer_operation :: "defer_args \<Rightarrow> (kernel, string) prog" where
  "defer_operation d =
     sbind (sget (df_id d)) (\<lambda>cid.
     sthen (kwrite (\<lambda>k. (deferral_args (df_op d) (df_by d k) (JObj (df_parameters d)) (df_jurisdiction d) k)
        \<lparr>wa_terminal_outcome_override := Some ''DEFER'', wa_continuation := df_record d k\<rparr>))
     (sret cid))"

definition emit_bridge :: "string \<Rightarrow> string \<Rightarrow> (string \<times> json) list \<Rightarrow> string \<Rightarrow> bool \<Rightarrow> string \<Rightarrow> json \<Rightarrow> bridge_verifier option \<Rightarrow> (kernel, receipt) prog" where
  \<comment> \<open>operation, authority, parameters, jurisdiction, failed, intent, bridge surface and its verifier\<close>
  "emit_bridge opn authority params jurisdiction failed intent bridge verifier =
     kwrite (\<lambda>k. (deferral_args opn (if authority = [] then k_authority k else authority) (JObj params) jurisdiction k)
        \<lparr>wa_failed := failed, wa_intent := Some intent, wa_terminal_outcome_override := Some ''BRIDGE'', wa_bridge := bridge,
         wa_bridge_verifier := verifier\<rparr>)"

subsection \<open>Resuming\<close>

definition marker_record :: "string \<Rightarrow> continuation_cols \<Rightarrow> string \<Rightarrow> json" where
  "marker_record cid cc st = continuation_record cid (jopt (cc_op cc)) (jopt (cc_authority cc))
     (case cc_parameters cc of None \<Rightarrow> JObj [] | Some p \<Rightarrow> p) (jopt (cc_jurisdiction cc)) None
     (case cc_expiry_basis cc of None \<Rightarrow> JNull | Some eb \<Rightarrow> eb) st"

definition continuation_marker :: "string \<Rightarrow> continuation_cols \<Rightarrow> string \<Rightarrow> bool \<Rightarrow> string \<Rightarrow> (kernel, unit) prog" where
  "continuation_marker cid cc st refused reason =
     sthen (kwrite (\<lambda>k. (deferral_args (if refused then ''gate_refuse'' else ''continuation_resolved'')
         (case cc_authority cc of Some (x # xs) \<Rightarrow> x # xs | _ \<Rightarrow> k_authority k)
         (JObj [(''continuation_id'', JStr cid), (''reason'', JStr reason)])
         (case cc_jurisdiction cc of Some (x # xs) \<Rightarrow> x # xs | _ \<Rightarrow> ''session'') k)
        \<lparr>wa_intent := Some reason, wa_continuation := marker_record cid cc st\<rparr>))
     (sret ())"

definition resume_args ::
    "string \<Rightarrow> continuation_cols \<Rightarrow> (kernel, bool) prog option \<Rightarrow> (kernel, 'a) prog option \<Rightarrow> effect_atomicity option \<Rightarrow> 'a exec_args" where
  \<comment> \<open>the call of \<open>execute\<close>: the captured operation, the other arguments at their defaults\<close>
  "resume_args cid cc gate eff c =
     \<lparr>xa_op = (case cc_op cc of None \<Rightarrow> [] | Some x \<Rightarrow> x), xa_authority = map_option PStr (cc_authority cc),
      xa_parameters = Some (of_json (case cc_parameters cc of None \<Rightarrow> JObj [] | Some p \<Rightarrow> p)), xa_gate = gate, xa_effect = eff,
      xa_atomicity = c, xa_idempotency_key = None, xa_gate_margin = None, xa_layer = ''I'',
      xa_jurisdiction = (case cc_jurisdiction cc of None \<Rightarrow> [] | Some x \<Rightarrow> x), xa_governor_sig = None, xa_warrant_basis = None,
      xa_intent_ref = cid, xa_authority_set = None, xa_capability_verdicts = [], xa_required_locality = None\<rparr>"

definition resume_continuation ::
    "string \<Rightarrow> (kernel, bool) prog option \<Rightarrow> (kernel, 'a) prog option \<Rightarrow> effect_atomicity option \<Rightarrow> (kernel, 'a option) prog" where
  "resume_continuation cid gate eff c =
     sbind (sget (\<lambda>k. find_continuation (k_store k) cid)) (\<lambda>found.
     case found of
       None \<Rightarrow> sraise (GateRefusal ''resume_continuation'' ''continuation-not-resumable'')
     | Some rec \<Rightarrow>
         let cc = r_continuation rec in
         if cc_state cc \<noteq> Some ''HELD'' then
           sthen (continuation_marker cid cc ''REFUSED'' True ''continuation-not-resumable'')
             (sraise (GateRefusal ''resume_continuation'' ''continuation-not-resumable''))
         else
           sbind (sget (\<lambda>k. continuation_expired (cc_expiry_basis cc) (committed_height (k_store k)) [])) (\<lambda>x.
           sbind (sres x) (\<lambda>expired.
           if expired then
             sthen (continuation_marker cid cc ''EXPIRED'' True ''continuation-expired'')
               (sraise (GateRefusal ''resume_continuation'' ''continuation-expired''))
           else
             sbind (execute (resume_args cid cc gate eff c)) (\<lambda>result.
             sthen (continuation_marker cid cc ''RESOLVED'' False ''continuation-resolved'') (sret result)))))"

subsection \<open>The newest record\<close>

definition state_of :: "kernel \<Rightarrow> string \<Rightarrow> string option" where
  \<comment> \<open>the state of a continuation as \<open>resume_continuation\<close> sees it\<close>
  "state_of k cid = Option.bind (find_continuation (k_store k) cid) (\<lambda>r. cc_state (r_continuation r))"

lemma row_to_receipt_continuation [simp]: "r_continuation (row_to_receipt row) = r_continuation row"
  by (simp add: row_to_receipt_def)

lemma find_continuation_append:
  assumes "db_rows (visible t) = db_rows (visible s) @ [row]"
  shows "find_continuation t cid =
    (if cid \<noteq> [] \<and> cc_id (r_continuation row) = Some cid then Some (row_to_receipt row) else find_continuation s cid)"
  using assms by (simp add: find_continuation_def all_receipts_def)

lemma prepared_continuation:
  assumes "prepared a s r"
  obtains sf where "write_surfaces a = Inr sf" "r_continuation r = sf_continuation sf"
  using assms unfolding prepared_def by (elim exE conjE) (simp add: sealed_def build_receipt_def that)

lemma write_surfaces_continuation:
  "write_surfaces a = Inr sf \<Longrightarrow> (if wa_continuation a = JNull then Inr no_continuation else validate_continuation (wa_continuation a)) = Inr (sf_continuation sf)"
  by (auto simp: write_surfaces_def Let_def rbind_eq_Inr split: prod.splits)

lemma row_of_continuation [simp]:
  "cc_id (r_continuation (row_of a r d)) = cc_id (r_continuation r)" "cc_state (r_continuation (row_of a r d)) = cc_state (r_continuation r)"
  "cc_op (r_continuation (row_of a r d)) = cc_op (r_continuation r)" "cc_authority (r_continuation (row_of a r d)) = cc_authority (r_continuation r)"
  "cc_jurisdiction (r_continuation (row_of a r d)) = cc_jurisdiction (r_continuation r)"
  "cc_parameters (r_continuation (row_of a r d)) = map_option norm_json (cc_parameters (r_continuation r))"
  "cc_expiry_basis (r_continuation (row_of a r d)) = map_option norm_json (cc_expiry_basis (r_continuation r))"
  by (simp_all add: row_of_def stored_row_def)

lemma validate_continuation_record:
  assumes "validate_continuation (continuation_record cid opn authority params jurisdiction anchor eb st) = Inr cc"
  shows "cc_id cc = Some cid \<and> cc_state cc = Some st \<and> cc_op cc = jstr opn \<and> cc_expiry_basis cc = json_column eb \<and>
    cc_parameters cc = json_column params \<and> cc_authority cc = (case authority of JStr a \<Rightarrow> Some a | _ \<Rightarrow> canon_eb (json_column authority)) \<and>
    text_column jurisdiction = Inr (cc_jurisdiction cc)"
proof -
  let ?d = "obj_fields (continuation_record cid opn authority params jurisdiction anchor eb st)"
  have g: "jget ?d ''id'' = JStr cid" "jget ?d ''op'' = opn" "jget ?d ''authority'' = authority" "jget ?d ''parameters'' = params"
    "jget ?d ''jurisdiction'' = jurisdiction" "jget ?d ''expiry_basis'' = eb" "jget ?d ''state'' = JStr st"
    by (cases anchor; simp add: continuation_record_def jget_def)+
  have i: "x = cid" if "continuation_identity ?d = Inr x" for x
    using that unfolding continuation_identity_def by (auto simp: Let_def g split: if_splits)
  show ?thesis using assms i unfolding validate_continuation_def by (auto simp: Let_def rbind_eq_Inr g cong: json.case_cong)
qed

definition settled_at :: "kernel \<Rightarrow> string \<Rightarrow> bool" where
  \<comment> \<open>no longer waiting\<close>
  "settled_at k cid \<longleftrightarrow> (\<exists>st. state_of k cid = Some st \<and> st \<noteq> ''HELD'')"

lemma marker_row:
  assumes "prepared ((deferral_args opn by params jurisdiction k)\<lparr>wa_intent := i, wa_continuation := marker_record cid cc st\<rparr>) s r"
  shows "cc_id (r_continuation r) = Some cid \<and> cc_state (r_continuation r) = Some st"
proof -
  have n: "marker_record cid cc st \<noteq> JNull" by (simp add: marker_record_def continuation_record_def)
  from assms show ?thesis
  proof (rule prepared_continuation)
    fix sf assume "write_surfaces ((deferral_args opn by params jurisdiction k)\<lparr>wa_intent := i, wa_continuation := marker_record cid cc st\<rparr>) = Inr sf"
      and r: "r_continuation r = sf_continuation sf"
    from write_surfaces_continuation [OF this(1)] n have "validate_continuation (marker_record cid cc st) = Inr (sf_continuation sf)" by simp
    from validate_continuation_record [OF this [unfolded marker_record_def]] r show ?thesis by simp
  qed
qed

lemma continuation_marker_outcome:
  assumes "continuation_marker cid cc st refused reason k = (res, k')" "cid \<noteq> []"
  shows "state_of k' cid = Some st \<or> (\<exists>e. res = Inl e) \<and> state_of k' cid = state_of k cid"
proof -
  let ?f = "\<lambda>k. (deferral_args (if refused then ''gate_refuse'' else ''continuation_resolved'')
         (case cc_authority cc of Some (x # xs) \<Rightarrow> x # xs | _ \<Rightarrow> k_authority k)
         (JObj [(''continuation_id'', JStr cid), (''reason'', JStr reason)])
         (case cc_jurisdiction cc of Some (x # xs) \<Rightarrow> x # xs | _ \<Rightarrow> ''session'') k)
        \<lparr>wa_intent := Some reason, wa_continuation := marker_record cid cc st\<rparr>"
  obtain q s where w: "store_write (?f k) (k_store k) = (q, s)" by force
  then have e: "(case q of Inl e \<Rightarrow> res = Inl e | Inr _ \<Rightarrow> res = Inr ()) \<and> k' = k\<lparr>k_store := s\<rparr>"
    using assms(1) by (auto simp: continuation_marker_def sthen_def sbind_def kwrite_def kstore_def sret_def split: sum.splits)
  have new: "state_of (k\<lparr>k_store := s\<rparr>) cid = Some st" if "prepared (?f k) (k_store k) r" "visible s = insert_row (stored_row (?f k) r) (visible (k_store k))" for r
    using marker_row [OF that(1)] that(2) assms(2) by (simp add: state_of_def find_continuation_append)
  show ?thesis
  proof (cases q)
    case (Inl x)
    have "visible s = visible (k_store k) \<or> (\<exists>r. prepared (?f k) (k_store k) r \<and> visible s = insert_row (stored_row (?f k) r) (visible (k_store k)))"
      using store_write_Inl [OF w [unfolded Inl]] same_chain_conn by blast
    then show ?thesis using new e Inl by (auto simp: state_of_def find_continuation_def all_receipts_def)
  next
    case (Inr x)
    from w [unfolded Inr] show ?thesis by (rule store_write_Inr) (use new e in blast)
  qed
qed

subsection \<open>Deferring and finding again\<close>

lemma deferral_found:
  assumes "defer_operation d k = (Inr cid, k')"
  shows "cid = df_id d k \<and> (\<exists>rec. find_continuation (k_store k') cid = Some rec \<and> cc_state (r_continuation rec) = Some ''HELD'' \<and>
    cc_op (r_continuation rec) = Some (df_op d) \<and> cc_authority (r_continuation rec) = Some (df_by d k) \<and>
    cc_parameters (r_continuation rec) = Some (norm_json (JObj (df_parameters d))) \<and>
    cc_jurisdiction (r_continuation rec) = Some (df_jurisdiction d) \<and> cc_expiry_basis (r_continuation rec) = Some (norm_json (df_basis d k)))"
proof -
  let ?a = "(deferral_args (df_op d) (df_by d k) (JObj (df_parameters d)) (df_jurisdiction d) k)
        \<lparr>wa_terminal_outcome_override := Some ''DEFER'', wa_continuation := df_record d k\<rparr>"
  obtain r s where cid: "cid = df_id d k" and w: "store_write ?a (k_store k) = (Inr r, s)" and k': "k' = k\<lparr>k_store := s\<rparr>"
    using assms by (auto simp: defer_operation_def prog_eqs kwrite_eq)
  have n: "df_record d k \<noteq> JNull" by (simp add: df_record_def continuation_record_def)
  have cid0: "df_id d k \<noteq> []" by (simp add: df_id_def compute_continuation_id_def)
  from w show ?thesis
  proof (rule store_write_Inr)
    fix q assume q: "prepared ?a (k_store k) q" and v: "visible s = insert_row (stored_row ?a q) (visible (k_store k))"
    from q show ?thesis
    proof (rule prepared_continuation)
      fix sf assume sf: "write_surfaces ?a = Inr sf" and r: "r_continuation q = sf_continuation sf"
      have val: "validate_continuation (df_record d k) = Inr (sf_continuation sf)" using write_surfaces_continuation [OF sf] n by simp
      note c = validate_continuation_record [OF val [unfolded df_record_def], folded r]
      have "df_basis d k \<noteq> JNull" using validated_expiry_basis [OF val] c [unfolded r] by (auto simp: json_column_def)
      then show ?thesis using c v cid k' cid0 by (simp add: find_continuation_append json_column_def)
    qed
  qed
qed

text \<open>C21. A deferral that returns leaves a durable-path receipt by which the continuation is found under the returned
  identifier, waiting, with the operation, authority, parameters, jurisdiction and expiry that were captured, whatever the store
  held before, also under the same identifier; the identifier is the hash of these and of the anchor.\<close>

theorem deferred_is_held:
  assumes "defer_operation d k = (Inr cid, k')"
  shows "cid = df_id d k \<and> (\<exists>rec. find_continuation (k_store k') cid = Some rec \<and> cc_state (r_continuation rec) = Some ''HELD'' \<and>
    cc_op (r_continuation rec) = Some (df_op d) \<and> cc_authority (r_continuation rec) = Some (df_by d k) \<and>
    cc_parameters (r_continuation rec) = Some (norm_json (JObj (df_parameters d))) \<and>
    cc_jurisdiction (r_continuation rec) = Some (df_jurisdiction d) \<and> cc_expiry_basis (r_continuation rec) = Some (norm_json (df_basis d k)))"
  by (rule deferral_found [OF assms])

subsection \<open>Resuming at most once\<close>

lemma state_of_Some: "state_of k cid = Some st \<longleftrightarrow> (\<exists>rec. find_continuation (k_store k) cid = Some rec \<and> cc_state (r_continuation rec) = Some st)"
  by (simp add: state_of_def bind_eq_Some_conv)

lemma find_continuation_id: "find_continuation s cid = Some rec \<Longrightarrow> cid \<noteq> []"
  by (simp add: find_continuation_def split: if_splits)

definition waiting :: "kernel \<Rightarrow> string \<Rightarrow> continuation_cols \<Rightarrow> bool" where
  \<comment> \<open>held and not expired: the only case in which \<open>execute\<close> is entered\<close>
  "waiting k cid cc \<longleftrightarrow> (\<exists>rec. find_continuation (k_store k) cid = Some rec \<and> r_continuation rec = cc) \<and> cc_state cc = Some ''HELD'' \<and>
     continuation_expired (cc_expiry_basis cc) (committed_height (k_store k)) [] = Inr False"

lemma resume_found:
  assumes "find_continuation (k_store k) cid = Some rec" "r_continuation rec = cc"
  shows "resume_continuation cid gate eff c k =
    (if cc_state cc \<noteq> Some ''HELD'' then sthen (continuation_marker cid cc ''REFUSED'' True ''continuation-not-resumable'')
         (sraise (GateRefusal ''resume_continuation'' ''continuation-not-resumable'')) k
     else case continuation_expired (cc_expiry_basis cc) (committed_height (k_store k)) [] of
         Inl e \<Rightarrow> (Inl e, k)
       | Inr expired \<Rightarrow>
           if expired then sthen (continuation_marker cid cc ''EXPIRED'' True ''continuation-expired'')
             (sraise (GateRefusal ''resume_continuation'' ''continuation-expired'')) k
           else sbind (execute (resume_args cid cc gate eff c))
             (\<lambda>y. sthen (continuation_marker cid cc ''RESOLVED'' False ''continuation-resolved'') (sret y)) k)"
proof -
  have g: "sbind (sget f) h k = h (f k) k" for f :: "kernel \<Rightarrow> 'b" and h :: "'b \<Rightarrow> (kernel, 'a option) prog" by (simp add: sbind_def sget_def)
  have g': "sbind (sget f) h k = h (f k) k" for f :: "kernel \<Rightarrow> (exc, bool) result" and h :: "(exc, bool) result \<Rightarrow> (kernel, 'a option) prog"
    by (simp add: sbind_def sget_def)
  show ?thesis using assms(1) assms(2) [symmetric]
    by (cases "continuation_expired (cc_expiry_basis cc) (committed_height (k_store k)) []")
      (simp_all add: resume_continuation_def g g' Let_def sraise_def)
qed

lemma resume_waiting:
  assumes "waiting k cid cc"
  shows "resume_continuation cid gate eff c k =
    sbind (execute (resume_args cid cc gate eff c)) (\<lambda>y. sthen (continuation_marker cid cc ''RESOLVED'' False ''continuation-resolved'') (sret y)) k"
proof -
  obtain rec where "find_continuation (k_store k) cid = Some rec" "r_continuation rec = cc" using assms by (auto simp: waiting_def)
  from resume_found [OF this] assms show ?thesis by (simp add: waiting_def)
qed

lemma resume_not_waiting:
  assumes "\<not> (\<exists>cc. waiting k cid cc)"
  shows "\<exists>e k'. (\<forall>gate (eff :: (kernel, 'a) prog option) c. resume_continuation cid gate eff c k = (Inl e, k')) \<and> (settled_at k cid \<longrightarrow> settled_at k' cid)"
proof (cases "find_continuation (k_store k) cid")
  case None
  then show ?thesis by (simp add: resume_continuation_def sbind_def sget_def sraise_def settled_at_def state_of_def)
next
  case (Some rec)
  let ?cc = "r_continuation rec"
  have m: "\<exists>e k'. sthen (continuation_marker cid ?cc st True reason) (sraise x :: (kernel, 'a option) prog) k = (Inl e, k') \<and> (settled_at k cid \<longrightarrow> settled_at k' cid)"
    if "st \<noteq> ''HELD''" for st reason x
  proof (cases "continuation_marker cid ?cc st True reason k")
    case (Pair q k')
    from continuation_marker_outcome [OF Pair find_continuation_id [OF Some]] that have "settled_at k cid \<longrightarrow> settled_at k' cid"
      by (auto simp: settled_at_def)
    then show ?thesis using Pair by (cases q) (auto simp: sthen_def sbind_def sraise_def)
  qed
  consider (other) "cc_state ?cc \<noteq> Some ''HELD''" | (undecided) x where "cc_state ?cc = Some ''HELD''"
      "continuation_expired (cc_expiry_basis ?cc) (committed_height (k_store k)) [] = Inl x"
    | (expired) "cc_state ?cc = Some ''HELD''" "continuation_expired (cc_expiry_basis ?cc) (committed_height (k_store k)) [] = Inr True"
    using assms Some unfolding waiting_def by (metis (full_types) old.sum.exhaust)
  then show ?thesis
  proof cases
    case other
    from m [of "''REFUSED''"] obtain e k' where
      "sthen (continuation_marker cid ?cc ''REFUSED'' True ''continuation-not-resumable'')
         (sraise (GateRefusal ''resume_continuation'' ''continuation-not-resumable'') :: (kernel, 'a option) prog) k = (Inl e, k')" "settled_at k cid \<longrightarrow> settled_at k' cid" by blast
    with other show ?thesis by (auto simp: resume_found [OF Some refl])
  next
    case undecided
    then show ?thesis by (simp add: resume_found [OF Some refl])
  next
    case expired
    from m [of "''EXPIRED''"] obtain e k' where
      "sthen (continuation_marker cid ?cc ''EXPIRED'' True ''continuation-expired'')
         (sraise (GateRefusal ''resume_continuation'' ''continuation-expired'') :: (kernel, 'a option) prog) k = (Inl e, k')" "settled_at k cid \<longrightarrow> settled_at k' cid" by blast
    with expired show ?thesis by (auto simp: resume_found [OF Some refl])
  qed
qed

lemma resume_returns:
  assumes "resume_continuation cid gate eff c k = (Inr y, k')"
  shows "\<exists>cc k1. waiting k cid cc \<and> execute (resume_args cid cc gate eff c) k = (Inr y, k1) \<and> state_of k' cid = Some ''RESOLVED''"
proof (cases "\<exists>cc. waiting k cid cc")
  case True
  then obtain cc where w: "waiting k cid cc" by blast
  then have "cid \<noteq> []" unfolding waiting_def by (auto dest: find_continuation_id)
  obtain k1 where e: "execute (resume_args cid cc gate eff c) k = (Inr y, k1)"
    and m: "continuation_marker cid cc ''RESOLVED'' False ''continuation-resolved'' k1 = (Inr (), k')"
    using assms unfolding resume_waiting [OF w] by (auto simp: sbind_eq_Inr sthen_eq_Inr sret_def)
  from continuation_marker_outcome [OF m \<open>cid \<noteq> []\<close>] show ?thesis using w e by auto
next
  case False
  from resume_not_waiting [OF this, where 'a = 'a] assms show ?thesis by (metis Inl_Inr_False fst_conv)
qed


fun attempts :: "string \<Rightarrow> ((kernel, bool) prog option \<times> (kernel, 'a) prog option \<times> effect_atomicity option) list \<Rightarrow> kernel \<Rightarrow>
    (exc, 'a option) result list" where
  \<comment> \<open>the results of resuming one continuation again and again, each time with the given gate and effect\<close>
  "attempts cid [] k = []"
| "attempts cid ((gate, eff, c) # xs) k = (case resume_continuation cid gate eff c k of (r, k') \<Rightarrow> r # attempts cid xs k')"

lemma attempts_settled: "settled_at k cid \<Longrightarrow> list_all isl (attempts cid xs k)"
proof (induction xs arbitrary: k)
  case (Cons x xs)
  obtain gate eff c where x: "x = (gate, eff, c)" by (cases x)
  have "\<not> (\<exists>cc. waiting k cid cc)" using Cons.prems by (auto simp: settled_at_def waiting_def state_of_Some)
  from resume_not_waiting [OF this, where 'a = 'a] Cons.prems obtain e k' where
    "resume_continuation cid gate eff c k = (Inl e, k')" "settled_at k' cid" by blast
  with Cons.IH [of k'] x show ?case by simp
qed simp

text \<open>C11. However often one continuation is resumed, with whatever gates and effects, from whatever state and under
  every fault script, at most one of the attempts returns: all later ones are refused.\<close>

theorem resume_at_most_once: "length (filter (\<lambda>r. \<not> isl r) (attempts cid xs k)) \<le> 1"
proof (induction xs arbitrary: k)
  case (Cons x xs)
  obtain gate eff c where x: "x = (gate, eff, c)" by (cases x)
  obtain r k' where r: "resume_continuation cid gate eff c k = (r, k')" by force
  show ?case
  proof (cases r)
    case (Inl e)
    then show ?thesis using Cons.IH x r by simp
  next
    case (Inr y)
    have "settled_at k' cid" using resume_returns [OF r [unfolded Inr]] by (auto simp: settled_at_def)
    then have "filter (\<lambda>r. \<not> isl r) (attempts cid xs k') = []" using attempts_settled by (auto simp: filter_empty_conv list_all_iff)
    then show ?thesis using x r Inr by simp
  qed
qed simp

subsection \<open>A deferred claim is resumed\<close>

definition sample_deferral :: defer_args where
  "sample_deferral = \<lparr>df_op = ''namespace_claim'', df_authority = ''governor'', df_parameters = [], df_jurisdiction = ''session'',
     df_expiry_basis = None, df_anchor = Some ''anchor''\<rparr>"

lemma admissible_marked:
  \<comment> \<open>a receipt with a continuation record, plain otherwise\<close>
  assumes "free_of_markers (wa_parameters a)" "wa_effect_columns a = None" "\<exists>sf. write_surfaces a = Inr sf"
  shows "admissible_args a"
  using unmarked_resolves [OF free_unmarked [OF assms(1)]] unmarked_promotes [OF free_unmarked [OF assms(1)]] assms
  by (simp add: admissible_args_def free_of_markers_def)

lemma free_empty: "free_of_markers (JObj [])" by (simp add: free_of_markers_def)

lemma sample_record_valid: "\<exists>cc. validate_continuation (df_record sample_deferral (founded [])) = Inr cc"
  by (simp add: df_record_def continuation_record_def validate_continuation_def validate_expiry_basis_def continuation_identity_def df_id_def
      df_by_def df_anchored_def df_basis_def sample_deferral_def Let_def jget_def in_domain_def CONTINUATION_STATE_DOMAIN_def
      CONTINUATION_EXPIRY_KIND_DOMAIN_def insert_commute non_empty_str_def)

lemma sample_deferred:
  obtains cid s where "defer_operation sample_deferral (founded []) = (Inr cid, (founded [])\<lparr>k_store := s\<rparr>)"
    "quiet ((founded [])\<lparr>k_store := s\<rparr>)" "writable ((founded [])\<lparr>k_store := s\<rparr>)"
    "length (krows ((founded [])\<lparr>k_store := s\<rparr>)) = 1"
proof -
  let ?k = "founded []"
  let ?f = "\<lambda>k. (deferral_args (df_op sample_deferral) (df_by sample_deferral k) (JObj (df_parameters sample_deferral)) (df_jurisdiction sample_deferral) k)
        \<lparr>wa_terminal_outcome_override := Some ''DEFER'', wa_continuation := df_record sample_deferral k\<rparr>"
  obtain cc where cc: "validate_continuation (df_record sample_deferral ?k) = Inr cc" using sample_record_valid by blast
  have "assert_emittable ''DEFER'' (df_record sample_deferral ?k) JNull None = Inr ()"
    using cc by (simp add: assert_emittable_def df_record_def continuation_record_def jget_def TERMINAL_OUTCOME_DOMAIN_def)
  then have "\<exists>sf. write_surfaces (?f ?k) = Inr sf"
    using cc by (simp add: write_surfaces_def deferral_args_def default_write_def derive_committed_outcome_def Let_def)
  then have "admissible_args (?f ?k)" by (intro admissible_marked) (simp_all add: deferral_args_def default_write_def sample_deferral_def free_empty)
  then obtain r s where w: "store_write (?f ?k) (k_store ?k) = (Inr r, s)"
    using store_write_live [of "k_store ?k" "?f ?k"] founded_ok(2) by (auto simp: writable_def)
  then have kw: "kwrite ?f ?k = (Inr r, ?k\<lparr>k_store := s\<rparr>)" by (simp add: kwrite_eq)
  show thesis
  proof (rule kwrite_quiet [OF founded_ok(1) kw])
    fix row assume "quiet (?k\<lparr>k_store := s\<rparr>)" "krows (?k\<lparr>k_store := s\<rparr>) = krows ?k @ [row]"
    moreover have "krows ?k = []" using fresh_store_ok(2,6) [of "[]"] by (simp add: quiescent_def)
    ultimately show thesis using that [of _ s] kw kwrite_writable [OF founded_ok(2) kw]
      by (simp add: defer_operation_def sbind_def sthen_def sget_def sret_def)
  qed
qed

theorem deferred_is_held_witness:
  "\<exists>cid k' rec. defer_operation sample_deferral (founded []) = (Inr cid, k') \<and> find_continuation (k_store k') cid = Some rec \<and>
     cc_state (r_continuation rec) = Some ''HELD'' \<and> cc_op (r_continuation rec) = Some ''namespace_claim''"
proof (rule sample_deferred)
  fix cid s assume d: "defer_operation sample_deferral (founded []) = (Inr cid, (founded [])\<lparr>k_store := s\<rparr>)"
  from deferred_is_held [OF d] d show ?thesis by (auto simp: sample_deferral_def)
qed

lemma sample_waiting:
  assumes "defer_operation sample_deferral (founded []) = (Inr cid, k)" "length (db_rows (visible (k_store k))) = 1"
  shows "\<exists>cc. waiting k cid cc \<and> cc_op cc = Some ''namespace_claim'' \<and> cc_authority cc = Some ''governor'' \<and> cc_parameters cc = Some (JObj []) \<and>
    cc_jurisdiction cc = Some ''session'' \<and> cc_expiry_basis cc = Some (JObj [(''kind'', JStr ''receipt_height''), (''value'', JInt 1000000)])"
proof -
  have n: "norm_json (JObj []) = JObj []"
    "norm_json (JObj [(''kind'', JStr ''receipt_height''), (''value'', JInt 1000000)]) = JObj [(''kind'', JStr ''receipt_height''), (''value'', JInt 1000000)]"
    by code_simp+
  have h: "df_basis sample_deferral (founded []) = JObj [(''kind'', JStr ''receipt_height''), (''value'', JInt 1000000)]"
    by (simp add: df_basis_def sample_deferral_def committed_height_def fresh_store_ok)
  have b: "df_by sample_deferral (founded []) = ''governor''" by (simp add: df_by_def sample_deferral_def)
  show ?thesis using deferral_found [OF assms(1)] assms(2) unfolding h b n
    by (auto simp: waiting_def sample_deferral_def n continuation_expired_def committed_height_def jget_def)
qed

lemma resume_plain_claim:
  assumes "k = (founded [])\<lparr>k_store := s\<rparr>" "quiet k" "writable k" "cc_op cc = Some ''namespace_claim''" "cc_authority cc = Some ''governor''"
    "cc_parameters cc = Some (JObj [])"
  shows "plain_call (resume_args cid cc None None None :: unit exec_args)
    \<lparr>rq_authority = ''governor'', rq_parameters = JObj [], rq_basis = None, rq_authority_set = None\<rparr> cid k"
proof -
  let ?x = "resume_args cid cc None None None :: unit exec_args"
  let ?q = "\<lparr>rq_authority = ''governor'', rq_parameters = JObj [], rq_basis = None, rq_authority_set = None\<rparr>"
  note f = assms(1,4-6) resume_args_def
  have pre: "preflight k ?x = Inr ?q"
    by (simp add: f preflight_def founded_def Let_def rguard_def text_arg_def)
  have "jurisdiction_check ?x ?q k = (Inr (), k)"
    by (simp add: f jurisdiction_check_def governor_check_def posture_check_def model_of_def kernel_op_def universal_op_def founded_def
        KERNEL_OPS_def UNIVERSAL_OPS_def GOVERNANCE_OPS_def APPLICATION_OPS_def sbind_def sthen_def sget_def sret_def)
  moreover have "gate_check ?x ?q k = (Inr (), k)" "locality_check ?x ?q k = (Inr (), k)"
    by (simp_all add: gate_check_def locality_check_def f sret_def)
  moreover have "capability_check ?x ?q k = (Inr (), k)"
    by (simp add: capability_check_def sbind_def sget_def f founded_def find_enforced_entry_def sret_def)
  moreover have "will_check ?x k = (Inr cid, k)" by (simp add: will_check_def sbind_def sget_def f founded_def sret_def)
  ultimately have "refusal_horizon ?x ?q k = (Inr cid, k)" by (simp add: refusal_horizon_def sthen_def sbind_def)
  then show ?thesis using pre assms(2,3) free_empty by (simp add: plain_call_def)
qed

lemma execute_plain_returns:
  \<comment> \<open>without an effect an admitted call leaves its receipt and returns\<close>
  assumes "plain_call x q iref k" "xa_effect x = None"
  obtains s where "execute x k = (Inr None, k\<lparr>k_store := s\<rparr>)" "quiet (k\<lparr>k_store := s\<rparr>)" "writable (k\<lparr>k_store := s\<rparr>)"
proof (rule admit_plain [OF assms(1)])
  fix r s adm
  let ?k = "k\<lparr>k_store := s\<rparr>"
  assume a: "quiet ?k" "writable ?k" "execute x k = outcome x q iref (r_h_r adm) [] ?k"
  let ?p = "outcome_phase x q (outcome_params x q ?k) iref []"
  have c: "class_cols x = None" using assms(2) by (simp add: class_cols_def)
  have "free_of_markers (ph_params ?p)" using outcome_params_free [of q x ?k] assms(1) by (simp add: outcome_phase_def plain_call_def)
  then have o: "sound_args (outcome_args ?p None ?k)" by (simp add: outcome_args_sound sound_cols_def)
  show thesis
  proof (rule kwrite_sound [OF a(1,2), of "outcome_args ?p None", OF o])
    fix r' s' row assume "kwrite (outcome_args ?p None) ?k = (Inr r', ?k\<lparr>k_store := s'\<rparr>)" "quiet (?k\<lparr>k_store := s'\<rparr>)" "writable (?k\<lparr>k_store := s'\<rparr>)"
    then show thesis using that [of s'] a(3) assms(2) c
      by (simp add: outcome_def execute_legacy_def sbind_def sthen_def sget_def sret_def Let_def)
  qed simp
qed

lemma sample_marker_valid:
  assumes "cc_op cc = Some ''namespace_claim''" "cc_authority cc = Some ''governor''" "cc_parameters cc = Some (JObj [])"
    "cc_jurisdiction cc = Some ''session''" "cc_expiry_basis cc = Some (JObj [(''kind'', JStr ''receipt_height''), (''value'', JInt 1000000)])" "cid \<noteq> []"
  shows "\<exists>c. validate_continuation (marker_record cid cc ''RESOLVED'') = Inr c"
  using assms
  by (simp add: marker_record_def jopt_def continuation_record_def validate_continuation_def validate_expiry_basis_def continuation_identity_def
      Let_def jget_def in_domain_def CONTINUATION_STATE_DOMAIN_def CONTINUATION_EXPIRY_KIND_DOMAIN_def insert_commute non_empty_str_def)

lemma sample_resumed:
  "\<exists>cid k k'. resume_continuation cid None None None k = (Inr (None :: unit option), k')"
proof (rule sample_deferred)
  fix cid s
  let ?k = "(founded [])\<lparr>k_store := s\<rparr>"
  assume d: "defer_operation sample_deferral (founded []) = (Inr cid, ?k)" "quiet ?k" "writable ?k" "length (krows ?k) = 1"
  have "length (db_rows (visible (k_store ?k))) = 1" using d(2,4) by (simp add: quiet_def quiescent_def)
  from sample_waiting [OF d(1) this] obtain cc where w: "waiting ?k cid cc" and f: "cc_op cc = Some ''namespace_claim''" "cc_authority cc = Some ''governor''"
    "cc_parameters cc = Some (JObj [])" "cc_jurisdiction cc = Some ''session''"
    "cc_expiry_basis cc = Some (JObj [(''kind'', JStr ''receipt_height''), (''value'', JInt 1000000)])" by blast
  have cid: "cid \<noteq> []" using w by (auto simp: waiting_def dest: find_continuation_id)
  let ?x = "resume_args cid cc None None None :: unit exec_args"
  have x: "xa_effect ?x = None" by (simp add: resume_args_def)
  from resume_plain_claim [OF refl d(2,3) f(1-3)] show ?thesis
  proof (rule execute_plain_returns [OF _ x])
    fix t assume e: "execute ?x ?k = (Inr None, ?k\<lparr>k_store := t\<rparr>)" "writable (?k\<lparr>k_store := t\<rparr>)"
    let ?a = "(deferral_args ''continuation_resolved'' ''governor'' (JObj [(''continuation_id'', JStr cid), (''reason'', JStr ''continuation-resolved'')])
        ''session'' (?k\<lparr>k_store := t\<rparr>))\<lparr>wa_intent := Some ''continuation-resolved'', wa_continuation := marker_record cid cc ''RESOLVED''\<rparr>"
    have "marker_record cid cc ''RESOLVED'' \<noteq> JNull" by (simp add: marker_record_def continuation_record_def)
    then have "\<exists>sf. write_surfaces ?a = Inr sf"
      using sample_marker_valid [OF f cid]
      by (auto simp: write_surfaces_def deferral_args_def default_write_def derive_committed_outcome_def write_intent_def assert_emittable_def
          TERMINAL_OUTCOME_DOMAIN_def EMITTABLE_OUTCOMES_def)
    then have "admissible_args ?a"
      by (intro admissible_marked)
        (simp_all add: deferral_args_def default_write_def free_of_markers_def EFFECT_MARKER_KEYS_def EFFECT_MARKER_MAP_def RECONCILIATION_KEYS_def)
    then obtain r u where "store_write ?a t = (Inr r, u)" using store_write_live [of t ?a] e(2) by (auto simp: writable_def)
    then have "continuation_marker cid cc ''RESOLVED'' False ''continuation-resolved'' (?k\<lparr>k_store := t\<rparr>) = (Inr (), ?k\<lparr>k_store := u\<rparr>)"
      by (simp add: continuation_marker_def f sthen_def sbind_def kwrite_def kstore_def sret_def)
    then have "resume_continuation cid None None None ?k = (Inr (None :: unit option), ?k\<lparr>k_store := u\<rparr>)"
      using resume_waiting [OF w, of None "None :: (kernel, unit) prog option" None] e by (simp add: sbind_def sthen_def sret_def)
    then show ?thesis by blast
  qed
qed


end
