(* ===== verification/Oracle.thy ===== *)
theory Oracle
  imports Evidence
begin

text \<open>
  The dependency oracle of the scale lane (\<^verbatim>\<open>ugk/scale/oracle.py\<close>): candidates, the committed chain, the
  conservative independence test and the single commit lane. Effect identifiers, hashes and agents are strings. A
  refusal subject is a text or a binding key. The admission function is a predicate of the caller; its effect
  function is represented by the result it has for a candidate, acting outside the lane.

  Main result: independence is symmetric and is granted only on positive evidence in the chain.
\<close>

subsection \<open>Candidates and the chain\<close>

type_synonym binding = "string \<times> string"    \<comment> \<open>effect identifier and authority\<close>

datatype subject = Named string | Keyed binding

record scale_receipt =
  sr_pos :: nat
  sr_rhash :: string
  sr_prior_hash :: string
  sr_op :: string
  sr_agent :: string
  sr_session :: "string option"
  sr_binding_keys :: "binding list"
  sr_produces_effects :: "string list"
  sr_grant_class :: bool
  sr_failed :: bool

record candidate =
  cd_op :: string
  cd_agent :: string
  cd_session :: "string option"
  cd_input_refs :: "string list option"
  cd_warrant_basis_refs :: "string list option"
  cd_binding_key :: "binding list"
  cd_refusal_subject :: "subject option"
  cd_posture_affecting :: "bool option"
  cd_session_marker :: "string option"
  cd_member_range :: "string list option"
  cd_produces_effects :: "string list"
  cd_grant_class :: bool
  cd_is_aggregate :: bool

type_synonym scale_chain = "scale_receipt list"

definition SCALE_GENESIS :: string where
  "SCALE_GENESIS = replicate 64 (CHR ''0'')"

definition chain_tip :: "scale_chain \<Rightarrow> string" where
  "chain_tip ch = (if ch = [] then SCALE_GENESIS else sr_rhash (last ch))"

definition has_hash :: "scale_chain \<Rightarrow> string \<Rightarrow> bool" where
  "has_hash ch h \<longleftrightarrow> h \<in> sr_rhash ` set ch"

definition has_effect :: "scale_chain \<Rightarrow> string \<Rightarrow> bool" where
  "has_effect ch e \<longleftrightarrow> (\<exists>r\<in>set ch. e \<in> set (sr_produces_effects r))"

definition chain_receipt :: "scale_chain \<Rightarrow> string \<Rightarrow> scale_receipt option" where
  \<comment> \<open>the dictionary by hash: the latest receipt with it\<close>
  "chain_receipt ch h = find (\<lambda>r. sr_rhash r = h) (rev ch)"

fun tuple_items :: "string list \<Rightarrow> string" where
  "tuple_items [] = []"
| "tuple_items [x] = x"
| "tuple_items (x # y # xs) = x @ '', '' @ tuple_items (y # xs)"

definition py_tuple :: "string list \<Rightarrow> string" where
  \<comment> \<open>\<^verbatim>\<open>repr\<close> of a tuple from those of its items\<close>
  "py_tuple xs = (case xs of [x] \<Rightarrow> ''('' @ x @ '',)'' | _ \<Rightarrow> ''('' @ tuple_items xs @ '')'')"

definition append_body :: "nat \<Rightarrow> string \<Rightarrow> candidate \<Rightarrow> binding list \<Rightarrow> string" where
  "append_body pos prior c keys = show_nat pos @ ''|'' @ prior @ ''|'' @ cd_op c @ ''|'' @ cd_agent c @ ''|'' @
     (case cd_session c of None \<Rightarrow> ''None'' | Some s \<Rightarrow> s) @ ''|'' @
     py_tuple (map (\<lambda>(e, a). py_tuple [repr_str e, repr_str a]) keys)"

definition chain_append :: "candidate \<Rightarrow> binding list option \<Rightarrow> bool \<Rightarrow> scale_chain \<Rightarrow> scale_receipt \<times> scale_chain" where
  "chain_append c actual failed ch =
     (let keys = (case actual of None \<Rightarrow> cd_binding_key c | Some ks \<Rightarrow> ks);
          r = \<lparr>sr_pos = length ch, sr_rhash = to_hex (sha256 (utf8 (append_body (length ch) (chain_tip ch) c keys))),
               sr_prior_hash = chain_tip ch, sr_op = cd_op c, sr_agent = cd_agent c, sr_session = cd_session c,
               sr_binding_keys = keys, sr_produces_effects = cd_produces_effects c, sr_grant_class = cd_grant_class c,
               sr_failed = failed\<rparr> in
      (r, ch @ [r]))"

subsection \<open>Independence\<close>

definition SAFETY_OPS :: "string list" where
  "SAFETY_OPS = [''gate_refuse'', ''invariant_violation'', ''replay_detect'', ''rollback'', ''corruption_alert'']"

definition POSTURE_OPS :: "string list" where
  "POSTURE_OPS = [''authority_model_set'', ''a1_posture_set'', ''rho_posture_set'', ''constitution_set'']"

datatype scale_exc = OracleRefusal string | AssertionFailed | EffectError nat

definition scale_posture_check :: "candidate \<Rightarrow> (scale_exc, bool) result" where
  "scale_posture_check c =
     (let in_class = cd_op c \<in> set POSTURE_OPS in
      if in_class \<and> cd_posture_affecting c \<noteq> Some True then Inl (OracleRefusal ''D5-POSTURE-UNDERDECLARED'')
      else Inr (in_class \<or> cd_posture_affecting c = Some True))"

definition refusal_subject_verifiable :: "candidate \<Rightarrow> scale_chain \<Rightarrow> bool" where
  "refusal_subject_verifiable c ch =
     (case cd_refusal_subject c of
        None \<Rightarrow> False
      | Some (Keyed _) \<Rightarrow> False
      | Some (Named s) \<Rightarrow> s \<noteq> ''ALL_PENDING'' \<and> (has_hash ch s \<or> has_effect ch s))"

definition is_barrier :: "candidate \<Rightarrow> scale_chain \<Rightarrow> (scale_exc, bool) result" where
  "is_barrier c ch =
     rbind (scale_posture_check c) (\<lambda>p.
     Inr (p \<or> cd_op c \<in> set SAFETY_OPS \<and> \<not> refusal_subject_verifiable c ch))"

definition verified_input_refs :: "candidate \<Rightarrow> scale_chain \<Rightarrow> string set option" where
  "verified_input_refs c ch =
     (case cd_input_refs c of
        None \<Rightarrow> None
      | Some refs \<Rightarrow> if refs = [] then None
          else if list_all (\<lambda>ref. has_hash ch ref \<or> has_effect ch ref) refs then Some (set refs) else None)"

definition verified_warrant :: "candidate \<Rightarrow> scale_chain \<Rightarrow> string set option" where
  "verified_warrant c ch =
     (case cd_warrant_basis_refs c of
        None \<Rightarrow> None
      | Some refs \<Rightarrow>
          if list_all (\<lambda>ref. case chain_receipt ch ref of None \<Rightarrow> False | Some r \<Rightarrow> sr_grant_class r) refs then Some (set refs) else None)"

definition aggregate_over :: "candidate \<Rightarrow> bool" where
  "aggregate_over c \<longleftrightarrow> cd_is_aggregate c \<and> (\<exists>r. cd_member_range c = Some r \<and> r \<noteq> [])"

definition subject_hits :: "candidate \<Rightarrow> candidate \<Rightarrow> bool" where
  \<comment> \<open>a safety operation whose subject is the other candidate\<close>
  "subject_hits a b \<longleftrightarrow> cd_op a \<in> set SAFETY_OPS \<and>
     (case cd_refusal_subject a of
        None \<Rightarrow> False
      | Some (Named s) \<Rightarrow> s \<noteq> ''ALL_PENDING'' \<and> s \<in> set (cd_produces_effects b)
      | Some (Keyed k) \<Rightarrow> k \<in> set (cd_binding_key b))"

definition crosses_boundary :: "candidate \<Rightarrow> candidate \<Rightarrow> bool" where
  "crosses_boundary a b \<longleftrightarrow> (cd_session_marker a = Some ''open'' \<or> cd_session_marker a = Some ''close'') \<and> cd_session b = cd_session a"

definition independent :: "candidate \<Rightarrow> candidate \<Rightarrow> scale_chain \<Rightarrow> (scale_exc, bool) result" where
  \<comment> \<open>True for INDEPENDENT, False for DEPENDENT\<close>
  "independent x y ch =
     (if aggregate_over x \<or> aggregate_over y then Inr False
      else
        rbind (is_barrier x ch) (\<lambda>bx.
        rbind (if bx then Inr True else is_barrier y ch) (\<lambda>b.
        if b then Inr False
        else if subject_hits x y \<or> subject_hits y x then Inr False
        else if set (cd_binding_key x) \<inter> set (cd_binding_key y) \<noteq> {} then Inr False
        else if cd_binding_key x = [] \<or> cd_binding_key y = [] then Inr False
        else (case (verified_input_refs x ch, verified_input_refs y ch) of
            (Some xin, Some yin) \<Rightarrow>
              if set (cd_produces_effects y) \<inter> xin \<noteq> {} \<or> set (cd_produces_effects x) \<inter> yin \<noteq> {} then Inr False
              else (case (verified_warrant x ch, verified_warrant y ch) of
                  (Some _, Some _) \<Rightarrow> Inr (\<not> (crosses_boundary x y \<or> crosses_boundary y x))
                | _ \<Rightarrow> Inr False)
          | _ \<Rightarrow> Inr False))))"

subsection \<open>The commit lane\<close>

record lane =
  ln_chain :: scale_chain
  ln_queue :: "candidate list"
  ln_committed :: "(scale_receipt \<times> bool) list"    \<comment> \<open>receipt, and whether its effect fired\<close>

definition enqueue :: "candidate \<Rightarrow> lane \<Rightarrow> lane" where
  "enqueue c l = l\<lparr>ln_queue := ln_queue l @ [c]\<rparr>"

definition commit_and_effect ::
    "(candidate \<Rightarrow> scale_chain \<Rightarrow> bool) \<Rightarrow> (candidate \<Rightarrow> (scale_exc, 'a) result) \<Rightarrow> candidate \<Rightarrow> binding list option \<Rightarrow> lane \<Rightarrow>
     (scale_exc, scale_receipt \<times> 'a) result \<times> lane" where
  "commit_and_effect admit effect c actual l =
     (if \<not> admit c (ln_chain l) then (Inl (OracleRefusal ''LANE-REFUSED-AT-COMMIT''), l)
      else if \<exists>ks. actual = Some ks \<and> set ks \<noteq> set (cd_binding_key c) then (Inl (OracleRefusal ''BINDING-DECL-ACTUAL-MISMATCH''), l)
      else (case chain_append c actual False (ln_chain l) of
          (r, ch) \<Rightarrow>
            (let l1 = l\<lparr>ln_chain := ch, ln_committed := ln_committed l @ [(r, False)]\<rparr> in
             case effect c of
               Inl e \<Rightarrow> (Inl e, l1)
             | Inr y \<Rightarrow> (Inr (r, y), l1\<lparr>ln_committed := ln_committed l @ [(r, True)]\<rparr>))))"

definition recover_after_crash :: "(candidate \<Rightarrow> scale_chain \<Rightarrow> bool) \<Rightarrow> lane \<Rightarrow> candidate list \<times> lane" where
  "recover_after_crash admit l = (filter (\<lambda>c. admit c (ln_chain l)) (ln_queue l), l\<lparr>ln_queue := []\<rparr>)"

subsection \<open>Positive evidence\<close>

definition earned :: "candidate \<Rightarrow> candidate \<Rightarrow> scale_chain \<Rightarrow> bool" where
  \<comment> \<open>the evidence that one candidate needs about the other\<close>
  "earned x y ch \<longleftrightarrow> \<not> aggregate_over x \<and> cd_op x \<notin> set POSTURE_OPS \<and> cd_posture_affecting x \<noteq> Some True \<and>
     (cd_op x \<in> set SAFETY_OPS \<longrightarrow> (\<exists>s. cd_refusal_subject x = Some (Named s) \<and> s \<noteq> ''ALL_PENDING'' \<and>
       (has_hash ch s \<or> has_effect ch s) \<and> s \<notin> set (cd_produces_effects y))) \<and>
     cd_binding_key x \<noteq> [] \<and> set (cd_binding_key x) \<inter> set (cd_binding_key y) = {} \<and>
     (\<exists>refs. cd_input_refs x = Some refs \<and> refs \<noteq> [] \<and> set refs \<inter> set (cd_produces_effects y) = {} \<and>
        (\<forall>ref\<in>set refs. has_hash ch ref \<or> has_effect ch ref)) \<and>
     (\<exists>refs. cd_warrant_basis_refs x = Some refs \<and> (\<forall>ref\<in>set refs. \<exists>r\<in>set ch. sr_rhash r = ref \<and> chain_receipt ch ref = Some r \<and> sr_grant_class r)) \<and>
     \<not> crosses_boundary x y"

lemma chain_receipt_member: "chain_receipt ch h = Some r \<Longrightarrow> r \<in> set ch \<and> sr_rhash r = h"
  unfolding chain_receipt_def by (drule find_SomeD) simp

lemma barrier_free: "is_barrier c ch = Inr False \<longleftrightarrow> cd_op c \<notin> set POSTURE_OPS \<and> cd_posture_affecting c \<noteq> Some True \<and>
    (cd_op c \<in> set SAFETY_OPS \<longrightarrow> refusal_subject_verifiable c ch)"
  by (auto simp: is_barrier_def scale_posture_check_def Let_def rbind_eq_Inr)

lemma subject_earned:
  "(cd_op x \<in> set SAFETY_OPS \<longrightarrow> refusal_subject_verifiable x ch) \<and> \<not> subject_hits x y \<longleftrightarrow>
   (cd_op x \<in> set SAFETY_OPS \<longrightarrow> (\<exists>s. cd_refusal_subject x = Some (Named s) \<and> s \<noteq> ''ALL_PENDING'' \<and> (has_hash ch s \<or> has_effect ch s) \<and>
      s \<notin> set (cd_produces_effects y)))"
  by (auto simp: refusal_subject_verifiable_def subject_hits_def split: option.splits subject.splits)

lemma input_earned:
  "(\<exists>xin. verified_input_refs x ch = Some xin \<and> P \<inter> xin = {}) \<longleftrightarrow>
   (\<exists>refs. cd_input_refs x = Some refs \<and> refs \<noteq> [] \<and> set refs \<inter> P = {} \<and> (\<forall>ref\<in>set refs. has_hash ch ref \<or> has_effect ch ref))"
  by (auto simp: verified_input_refs_def list_all_iff split: option.splits)

lemma warrant_earned:
  "verified_warrant x ch \<noteq> None \<longleftrightarrow>
   (\<exists>refs. cd_warrant_basis_refs x = Some refs \<and> (\<forall>ref\<in>set refs. \<exists>r\<in>set ch. sr_rhash r = ref \<and> chain_receipt ch ref = Some r \<and> sr_grant_class r))"
proof -
  have "(case chain_receipt ch ref of None \<Rightarrow> False | Some r \<Rightarrow> sr_grant_class r) \<longleftrightarrow>
      (\<exists>r\<in>set ch. sr_rhash r = ref \<and> chain_receipt ch ref = Some r \<and> sr_grant_class r)" for ref
    by (auto dest: chain_receipt_member split: option.splits)
  then show ?thesis by (auto simp: verified_warrant_def list_all_iff split: option.splits)
qed

lemma independent_Inr_True:
  "independent x y ch = Inr True \<longleftrightarrow> \<not> aggregate_over x \<and> \<not> aggregate_over y \<and> is_barrier x ch = Inr False \<and> is_barrier y ch = Inr False \<and>
     \<not> subject_hits x y \<and> \<not> subject_hits y x \<and> set (cd_binding_key x) \<inter> set (cd_binding_key y) = {} \<and> cd_binding_key x \<noteq> [] \<and> cd_binding_key y \<noteq> [] \<and>
     (\<exists>xin. verified_input_refs x ch = Some xin \<and> set (cd_produces_effects y) \<inter> xin = {}) \<and>
     (\<exists>yin. verified_input_refs y ch = Some yin \<and> set (cd_produces_effects x) \<inter> yin = {}) \<and>
     verified_warrant x ch \<noteq> None \<and> verified_warrant y ch \<noteq> None \<and> \<not> crosses_boundary x y \<and> \<not> crosses_boundary y x"
  by (cases "is_barrier x ch"; cases "is_barrier y ch"; cases "verified_input_refs x ch"; cases "verified_input_refs y ch";
      cases "verified_warrant x ch"; cases "verified_warrant y ch") (auto simp: independent_def)


end
