(* ===== verification/Scheduler.thy ===== *)
theory Scheduler
  imports Oracle
begin

text \<open>
  The governed scheduler of the scale lane (\<^verbatim>\<open>ugk/scale/scheduler.py\<close>): its own receipt log, the independence set,
  the dependency-respecting priority order and the batch. The batch is a list of candidates with their identifiers,
  the two lists of the source that are indexed together. One pass of the inner loop over adjacent positions is the
  recursion that carries the element at the current position.

  Main results: the order is a permutation that never inverts a dependent pair and, although the number of passes is
  bounded by the size of the batch, always ends with no promotable pair left; what a batch commits is exactly what
  the chain gains.
\<close>

subsection \<open>The scheduler's own receipts\<close>

definition SCALE_OPS :: "string list" where
  "SCALE_OPS = [''scheduler_policy_set'', ''independence_set_computed'', ''priority_class_assigned'', ''backpressure_engaged'',
     ''backpressure_released'', ''queue_overflow_refused'', ''batch_envelope_created'', ''worker_pool_scaled'', ''lane_paused'', ''lane_resumed'']"

record i5_receipt =
  ir_seq :: nat
  ir_op :: string
  ir_detail :: "(string \<times> json) list"
  ir_prior_hash :: string

definition i5_rhash :: "i5_receipt \<Rightarrow> string" where
  "i5_rhash r = to_hex (sha256 (utf8 (show_nat (ir_seq r) @ ''|'' @ ir_prior_hash r @ ''|'' @ ir_op r @ ''|'' @
     ''['' @ tuple_items (map (\<lambda>(k, v). py_tuple [repr_str k, py_repr v]) (sort_key fst (ir_detail r))) @ '']'')))"

type_synonym i5_log = "i5_receipt list"

definition i5_emit :: "string \<Rightarrow> (string \<times> json) list \<Rightarrow> i5_log \<Rightarrow> (scale_exc, i5_log) result" where
  "i5_emit opn detail log =
     (if opn \<notin> set SCALE_OPS then Inl AssertionFailed
      else Inr (log @ [\<lparr>ir_seq = length log, ir_op = opn, ir_detail = detail,
        ir_prior_hash = (if log = [] then SCALE_GENESIS else i5_rhash (last log))\<rparr>]))"

definition i5_why :: "string \<Rightarrow> i5_log \<Rightarrow> (string \<times> (string \<times> json) list) list" where
  "i5_why cand log = map (\<lambda>r. (ir_op r, ir_detail r)) (filter (\<lambda>r. map_of (ir_detail r) ''cand'' = Some (JStr cand)) log)"

subsection \<open>Priorities\<close>

definition PRIORITY :: "(string \<times> nat) list" where
  "PRIORITY = [(''gate_refuse'', 0), (''invariant_violation'', 0), (''replay_detect'', 0), (''authority_model_set'', 1),
     (''a1_posture_set'', 1), (''session_open'', 1), (''app_write'', 2), (''bulk'', 3)]"

definition prio :: "candidate \<Rightarrow> nat" where
  "prio c = (case map_of PRIORITY (cd_op c) of None \<Rightarrow> 2 | Some p \<Rightarrow> p)"

subsection \<open>The scheduler\<close>

record scheduler =
  sc_lane :: lane
  sc_i5 :: i5_log
  sc_capacity :: nat

definition sc_emit :: "string \<Rightarrow> (string \<times> json) list \<Rightarrow> scheduler \<Rightarrow> (scale_exc, unit) result \<times> scheduler" where
  "sc_emit opn detail s = (case i5_emit opn detail (sc_i5 s) of Inl e \<Rightarrow> (Inl e, s) | Inr log \<Rightarrow> (Inr (), s\<lparr>sc_i5 := log\<rparr>))"

definition new_scheduler :: "lane \<Rightarrow> nat \<Rightarrow> (scale_exc, unit) result \<times> scheduler" where
  "new_scheduler l capacity = sc_emit ''scheduler_policy_set''
     [(''policy'', JStr ''independence-set + priority-within-set + aging''), (''capacity'', JInt (int capacity)),
      (''profile'', JStr ''microservice-only'')] \<lparr>sc_lane = l, sc_i5 = [], sc_capacity = capacity\<rparr>"

type_synonym batch = "(string \<times> candidate) list"

fun independent_members :: "scale_chain \<Rightarrow> batch \<Rightarrow> nat list \<Rightarrow> nat list \<Rightarrow> nat list" where
  \<comment> \<open>members so far and indices left\<close>
  "independent_members ch cs members [] = members"
| "independent_members ch cs members (i # is) =
     (if list_all (\<lambda>m. independent (snd (cs ! i)) (snd (cs ! m)) ch = Inr True) members
      then independent_members ch cs (members @ [i]) is else independent_members ch cs members is)"

definition independence_set :: "batch \<Rightarrow> scheduler \<Rightarrow> (scale_exc, nat list) result \<times> scheduler" where
  "independence_set cs s =
     (let members = independent_members (ln_chain (sc_lane s)) cs [] [0..<length cs] in
      case sc_emit ''independence_set_computed''
          [(''members'', JList (map (\<lambda>i. JStr (fst (cs ! i))) members)),
           (''basis'', JStr ''positive input_refs + grant warrant + disjoint binding + cross-agent'')] s of
        (Inl e, s1) \<Rightarrow> (Inl e, s1)
      | (Inr _, s1) \<Rightarrow> (Inr members, s1))"

definition promotes :: "scale_chain \<Rightarrow> batch \<Rightarrow> nat \<Rightarrow> nat \<Rightarrow> bool" where
  \<comment> \<open>the later of two neighbours may move ahead of the earlier one\<close>
  "promotes ch cs a b \<longleftrightarrow> prio (snd (cs ! b)) < prio (snd (cs ! a)) \<and> independent (snd (cs ! a)) (snd (cs ! b)) ch = Inr True"

fun priority_pass :: "('a \<Rightarrow> 'a \<Rightarrow> bool) \<Rightarrow> 'a list \<Rightarrow> 'a list \<times> bool" where
  \<comment> \<open>the list after one pass, and whether anything was swapped\<close>
  "priority_pass sw (a # b # xs) =
     (if sw a b then (case priority_pass sw (a # xs) of (ys, _) \<Rightarrow> (b # ys, True))
      else (case priority_pass sw (b # xs) of (ys, changed) \<Rightarrow> (a # ys, changed)))"
| "priority_pass sw xs = (xs, False)"

fun priority_passes :: "('a \<Rightarrow> 'a \<Rightarrow> bool) \<Rightarrow> nat \<Rightarrow> 'a list \<Rightarrow> 'a list" where
  \<comment> \<open>the number of passes left\<close>
  "priority_passes sw 0 xs = xs"
| "priority_passes sw (Suc n) xs =
     (case priority_pass sw xs of (ys, changed) \<Rightarrow> if changed then priority_passes sw n ys else ys)"

definition safe_priority_order :: "scale_chain \<Rightarrow> batch \<Rightarrow> nat list" where
  "safe_priority_order ch cs = priority_passes (promotes ch cs) (length cs) [0..<length cs]"

fun refuse_overflow :: "string list \<Rightarrow> scheduler \<Rightarrow> (scale_exc, unit) result \<times> scheduler" where
  "refuse_overflow [] s = (Inr (), s)"
| "refuse_overflow (i # is) s =
     (case sc_emit ''queue_overflow_refused'' [(''cand'', JStr i), (''reason'', JStr ''capacity-exceeded'')] s of
        (Inl e, s1) \<Rightarrow> (Inl e, s1)
      | (Inr _, s1) \<Rightarrow> refuse_overflow is s1)"

definition backpressure :: "batch \<Rightarrow> scheduler \<Rightarrow> (scale_exc, batch) result \<times> scheduler" where
  "backpressure cs s =
     (if length cs > sc_capacity s then
        (case sc_emit ''backpressure_engaged'' [(''pending'', JInt (int (length cs))), (''capacity'', JInt (int (sc_capacity s)))] s of
           (Inl e, s1) \<Rightarrow> (Inl e, s1)
         | (Inr _, s1) \<Rightarrow>
             (case refuse_overflow (map fst (drop (sc_capacity s) cs)) s1 of
                (Inl e, s2) \<Rightarrow> (Inl e, s2)
              | (Inr _, s2) \<Rightarrow>
                  (case sc_emit ''backpressure_released'' [(''admitted'', JInt (int (length (take (sc_capacity s) cs))))] s2 of
                     (Inl e, s3) \<Rightarrow> (Inl e, s3)
                   | (Inr _, s3) \<Rightarrow> (Inr (take (sc_capacity s) cs), s3))))
      else (Inr cs, s))"

fun commit_order ::
    "(candidate \<Rightarrow> scale_chain \<Rightarrow> bool) \<Rightarrow> (candidate \<Rightarrow> (scale_exc, 'a) result) \<Rightarrow> batch \<Rightarrow> nat list \<Rightarrow> nat list \<Rightarrow> scheduler \<Rightarrow>
     (scale_exc, (string \<times> string) list) result \<times> scheduler" where
  \<comment> \<open>identifiers and receipt hashes of what was committed\<close>
  "commit_order admit effect cs members [] s = (Inr [], s)"
| "commit_order admit effect cs members (i # is) s =
     (let (cid, c) = cs ! i; in_set = i \<in> set members in
      case sc_emit ''priority_class_assigned''
          [(''cand'', JStr cid), (''prio'', JInt (int (prio c))), (''in_independent_set'', JBool in_set),
           (''note'', JStr (if in_set then ''ordered within independent set'' else ''serialized (dependent)''))] s of
        (Inl e, s1) \<Rightarrow> (Inl e, s1)
      | (Inr _, s1) \<Rightarrow>
          (case commit_and_effect admit effect c (Some (cd_binding_key c)) (sc_lane s1) of
             (Inr (r, _), l) \<Rightarrow>
               (case commit_order admit effect cs members is (s1\<lparr>sc_lane := l\<rparr>) of
                  (Inl e, s2) \<Rightarrow> (Inl e, s2)
                | (Inr done, s2) \<Rightarrow> (Inr ((cid, sr_rhash r) # done), s2))
           | (Inl (OracleRefusal code), l) \<Rightarrow>
               (case sc_emit ''queue_overflow_refused'' [(''cand'', JStr cid), (''reason'', JStr (''lane-refused:'' @ code))] (s1\<lparr>sc_lane := l\<rparr>) of
                  (Inl e, s2) \<Rightarrow> (Inl e, s2)
                | (Inr _, s2) \<Rightarrow> commit_order admit effect cs members is s2)
           | (Inl e, l) \<Rightarrow> (Inl e, s1\<lparr>sc_lane := l\<rparr>)))"

definition schedule ::
    "(candidate \<Rightarrow> scale_chain \<Rightarrow> bool) \<Rightarrow> (candidate \<Rightarrow> (scale_exc, 'a) result) \<Rightarrow> batch \<Rightarrow> scheduler \<Rightarrow>
     (scale_exc, (string \<times> string) list) result \<times> scheduler" where
  "schedule admit effect cs s =
     (case backpressure cs s of
        (Inl e, s1) \<Rightarrow> (Inl e, s1)
      | (Inr kept, s1) \<Rightarrow>
          (case independence_set kept s1 of
             (Inl e, s2) \<Rightarrow> (Inl e, s2)
           | (Inr members, s2) \<Rightarrow>
               commit_order admit effect kept members (safe_priority_order (ln_chain (sc_lane s2)) kept) s2))"

definition reconstruct_why :: "string \<Rightarrow> scheduler \<Rightarrow> (string \<times> (string \<times> json) list) list" where
  "reconstruct_why cand s = i5_why cand (sc_i5 s)"

subsection \<open>One pass\<close>

definition pass :: "('a \<Rightarrow> 'a \<Rightarrow> bool) \<Rightarrow> 'a list \<Rightarrow> 'a list" where "pass sw xs = fst (priority_pass sw xs)"

lemma pass_simps [simp]:
  "pass sw [] = []" "pass sw [a] = [a]" "pass sw (a # b # xs) = (if sw a b then b # pass sw (a # xs) else a # pass sw (b # xs))"
  by (simp_all add: pass_def split: prod.splits)

fun moved :: "('a \<Rightarrow> 'a \<Rightarrow> bool) \<Rightarrow> 'a list \<Rightarrow> 'a set" where
  \<comment> \<open>what moves to the left in a pass\<close>
  "moved sw (a # b # xs) = (if sw a b then insert b (moved sw (a # xs)) else moved sw (b # xs))"
| "moved sw xs = {}"

lemma changed_moved: "snd (priority_pass sw xs) \<longleftrightarrow> moved sw xs \<noteq> {}"
  by (induction sw xs rule: priority_pass.induct) (auto split: prod.splits)

lemma pass_mset [simp]: "mset (pass sw xs) = mset xs"
  by (induction sw xs rule: moved.induct) auto

lemma unmoved_pass: "moved sw xs = {} \<Longrightarrow> pass sw xs = xs"
  by (induction sw xs rule: moved.induct) (auto split: if_splits)

lemma unmoved_settled: "moved sw xs = {} \<Longrightarrow> successively (\<lambda>a b. \<not> sw a b) xs"
  by (induction sw xs rule: moved.induct) (auto split: if_splits)

lemma pass_carry:
  "pass sw (a # xs) = takeWhile (sw a) xs @ a # pass sw (dropWhile (sw a) xs) \<and>
   moved sw (a # xs) = set (takeWhile (sw a) xs) \<union> moved sw (dropWhile (sw a) xs)"
  by (induction xs) auto

lemma moved_sub: "moved sw (a # xs) \<subseteq> set xs"
proof (induction xs arbitrary: a)
  case (Cons b xs)
  then show ?case using Cons.IH [of a] Cons.IH [of b] by auto
qed simp

lemma moved_before:
  "\<not> sw y b \<Longrightarrow> \<forall>c\<in>set cs. \<not> sw c b \<Longrightarrow> moved sw (y # cs @ b # zs) \<subseteq> set cs \<union> moved sw (b # zs)"
proof (induction cs arbitrary: y)
  case (Cons c cs)
  then show ?case using Cons.IH [of y] Cons.IH [of c] by auto
qed simp

subsection \<open>Repeated passes\<close>

definition pos :: "'a list \<Rightarrow> 'a \<Rightarrow> nat" where "pos xs x = length (takeWhile (\<lambda>y. y \<noteq> x) xs)"

lemma pos_simps [simp]: "pos (y # xs) x = (if y = x then 0 else Suc (pos xs x))"
  by (simp add: pos_def)

lemma moved_pos: "distinct xs \<Longrightarrow> x \<in> moved sw xs \<Longrightarrow> Suc (pos (pass sw xs) x) = pos xs x"
proof (induction sw xs rule: moved.induct)
  case (1 sw a b xs)
  have "x \<noteq> a" if "x \<in> moved sw (a # xs)" using that moved_sub [of sw a xs] 1(3) by auto
  moreover have "x \<noteq> b" if "x \<in> moved sw (a # xs)" using that moved_sub [of sw a xs] 1(3) by auto
  moreover have "x \<noteq> a" if "x \<in> moved sw (b # xs)" using that moved_sub [of sw b xs] 1(3) by auto
  moreover have "x \<noteq> b" if "x \<in> moved sw (b # xs)" using that moved_sub [of sw b xs] 1(3) by auto
  ultimately show ?case using 1 by (auto split: if_splits)
qed simp_all

lemma moved_in: "moved sw xs \<subseteq> set xs"
proof (cases xs)
  case (Cons a ys)
  then show ?thesis using moved_sub [of sw a ys] by auto
qed simp

lemma pos_less: "x \<in> set xs \<Longrightarrow> pos xs x < length xs"
  by (induction xs) auto

lemma passes_mset [simp]: "mset ((pass sw ^^ n) xs) = mset xs"
  by (induction n) simp_all

lemma passes_result: "\<exists>m\<le>n. priority_passes sw n xs = (pass sw ^^ m) xs \<and> (m = n \<or> moved sw ((pass sw ^^ m) xs) = {})"
proof (induction sw n xs rule: priority_passes.induct)
  case (2 sw n xs)
  show ?case
  proof (cases "moved sw xs = {}")
    case True
    then have "priority_passes sw (Suc n) xs = xs"
      using unmoved_pass [of sw xs] changed_moved [of sw xs] by (auto simp: pass_def split: prod.splits)
    then show ?thesis using True by (intro exI [of _ 0]) simp
  next
    case False
    then have c: "priority_pass sw xs = (pass sw xs, True)" using changed_moved [of sw xs] by (simp add: pass_def prod_eq_iff)
    then have e: "priority_passes sw (Suc n) xs = priority_passes sw n (pass sw xs)" by simp
    from 2 [of "pass sw xs" True] c obtain m where "m \<le> n" "priority_passes sw n (pass sw xs) = (pass sw ^^ m) (pass sw xs)"
      "m = n \<or> moved sw ((pass sw ^^ m) (pass sw xs)) = {}" by auto
    then show ?thesis unfolding e by (intro exI [of _ "Suc m"]) (auto simp: funpow_swap1)
  qed
qed simp

locale promotion =
  fixes sw :: "'a \<Rightarrow> 'a \<Rightarrow> bool"
  assumes asym: "sw a b \<Longrightarrow> \<not> sw b a"
begin

lemma moved_again: "\<not> sw a b \<Longrightarrow> moved sw (a # pass sw (b # xs)) \<subseteq> moved sw (b # xs)"
proof (induction xs arbitrary: a b rule: length_induct)
  case (1 xs)
  let ?cs = "takeWhile (sw b) xs" and ?rest = "dropWhile (sw b) xs"
  have "\<forall>c\<in>set ?cs. \<not> sw c b" using asym by (auto dest: set_takeWhileD)
  then have m: "moved sw (a # pass sw (b # xs)) \<subseteq> set ?cs \<union> moved sw (b # pass sw ?rest)"
    using moved_before 1(2) by (simp add: pass_carry)
  have "moved sw (b # pass sw ?rest) \<subseteq> moved sw ?rest"
  proof (cases ?rest)
    case Nil
    show ?thesis unfolding Nil by simp
  next
    case (Cons d ds)
    then have "\<not> sw b d" "length ds < length xs"
      using hd_dropWhile [of "sw b" xs] length_dropWhile_le [of "sw b" xs] by auto
    with 1(1) Cons show ?thesis by simp
  qed
  with m show ?case by (auto simp: pass_carry [of sw b xs])
qed

lemma moved_pass: "moved sw (pass sw xs) \<subseteq> moved sw xs"
proof (cases xs)
  case xs: (Cons a ys)
  let ?cs = "takeWhile (sw a) ys" and ?rest = "dropWhile (sw a) ys"
  have r: "moved sw (a # pass sw ?rest) \<subseteq> moved sw ?rest"
  proof (cases ?rest)
    case Nil
    show ?thesis unfolding Nil by simp
  next
    case (Cons d ds)
    then have "\<not> sw a d" using hd_dropWhile [of "sw a" ys] by auto
    with Cons moved_again show ?thesis by simp
  qed
  have e: "pass sw xs = ?cs @ a # pass sw ?rest" "moved sw xs = set ?cs \<union> moved sw ?rest" using pass_carry [of sw a ys] xs by auto
  show ?thesis
  proof (cases ?cs)
    case Nil
    show ?thesis using r unfolding e by (simp only: Nil) simp
  next
    case (Cons c cs)
    have n: "\<forall>x\<in>set ?cs. \<not> sw x a" using asym by (auto dest: set_takeWhileD)
    have "moved sw (c # cs @ a # pass sw ?rest) \<subseteq> set cs \<union> moved sw (a # pass sw ?rest)" using moved_before [of sw c a cs] n unfolding Cons by simp
    then show ?thesis using r unfolding e by (simp only: Cons) auto
  qed
qed simp

lemma moved_late: "distinct xs \<Longrightarrow> x \<in> moved sw ((pass sw ^^ n) xs) \<Longrightarrow> n < pos xs x"
proof (induction n arbitrary: xs)
  case 0
  then show ?case using moved_pos [of xs x sw] by simp
next
  case (Suc n)
  have d: "distinct (pass sw xs)" using Suc.prems(1) pass_mset mset_eq_imp_distinct_iff by blast
  have "x \<in> moved sw xs"
  proof -
    have "moved sw ((pass sw ^^ m) xs) \<subseteq> moved sw xs" for m by (induction m) (use moved_pass in auto)
    with Suc.prems(2) show ?thesis by blast
  qed
  then show ?case using Suc.IH [OF d] Suc.prems moved_pos [of xs x sw] by (simp add: funpow_swap1)
qed

lemma settles: "distinct xs \<Longrightarrow> successively (\<lambda>a b. \<not> sw a b) (priority_passes sw (length xs) xs)"
proof -
  assume d: "distinct xs"
  have "moved sw ((pass sw ^^ length xs) xs) = {}"
  proof (rule ccontr)
    assume "moved sw ((pass sw ^^ length xs) xs) \<noteq> {}"
    then obtain x where x: "x \<in> moved sw ((pass sw ^^ length xs) xs)" by blast
    then have "x \<in> set xs" using moved_in passes_mset mset_eq_setD by (metis subsetD)
    then show False using moved_late [OF d x] pos_less [of x xs] by simp
  qed
  with passes_result [of "length xs" sw xs] show ?thesis using unmoved_settled by metis
qed

end

subsection \<open>Dependencies keep their order\<close>

fun before :: "'a list \<Rightarrow> 'a \<Rightarrow> 'a \<Rightarrow> bool" where
  "before [] i j = False"
| "before (x # xs) i j = (x = i \<and> j \<in> set xs \<or> before xs i j)"

lemma before_pass: "\<not> sw i j \<Longrightarrow> before xs i j \<Longrightarrow> before (pass sw xs) i j"
proof (induction sw xs rule: moved.induct)
  case (1 sw a b xs)
  have "set (pass sw (a # xs)) = insert a (set xs)" "set (pass sw (b # xs)) = insert b (set xs)"
    using pass_mset [of sw "a # xs"] pass_mset [of sw "b # xs"] by (metis list.simps(15) mset_eq_setD)+
  with 1 show ?case by auto
qed simp_all

lemma before_passes: "\<not> sw i j \<Longrightarrow> before xs i j \<Longrightarrow> before ((pass sw ^^ n) xs) i j"
  by (induction n) (simp_all add: before_pass)

lemma before_upt: "i < j \<Longrightarrow> j < n \<Longrightarrow> before [m..<n] i j \<longleftrightarrow> m \<le> i"
proof (induction "n - m" arbitrary: m)
  case (Suc d)
  then show ?case using Suc.hyps(1) [of "Suc m"] by (subst upt_conv_Cons) auto
qed simp

interpretation po: promotion "promotes ch cs" for ch cs
  by unfold_locales (auto simp: promotes_def)

text \<open>C28. The commit order of a batch is a permutation of the submission order that inverts no pair the oracle
  does not call independent and no pair in which the later candidate has no strictly higher priority; and although the loop stops
  after as many passes as the batch has members, it always stops settled: no neighbour left in it could still be promoted.\<close>

theorem priority_order_sound:
  "let order = safe_priority_order ch cs in
     mset order = mset [0..<length cs] \<and> successively (\<lambda>a b. \<not> promotes ch cs a b) order \<and>
     {(i, j). i < j \<and> j < length cs \<and> \<not> before order i j}
       \<subseteq> {(i, j). prio (snd (cs ! j)) < prio (snd (cs ! i)) \<and> independent (snd (cs ! i)) (snd (cs ! j)) ch = Inr True}"
proof -
  let ?sw = "promotes ch cs" and ?xs = "[0..<length cs]"
  obtain m where m: "safe_priority_order ch cs = (pass ?sw ^^ m) ?xs"
    using passes_result [of "length cs" ?sw ?xs] by (auto simp: safe_priority_order_def)
  have "promotes ch cs i j" if "i < j" "j < length cs" "\<not> before (safe_priority_order ch cs) i j" for i j
    using that before_passes [of ?sw i j ?xs m] by (auto simp: m before_upt)
  moreover have "successively (\<lambda>a b. \<not> ?sw a b) (safe_priority_order ch cs)"
    using po.settles [of ?xs ch cs] by (simp add: safe_priority_order_def)
  ultimately show ?thesis by (auto simp: Let_def m promotes_def simp del: mset_upt)
qed

subsection \<open>What a batch commits\<close>

definition i5_next :: "string \<Rightarrow> (string \<times> json) list \<Rightarrow> i5_log \<Rightarrow> i5_receipt" where
  "i5_next opn detail log = \<lparr>ir_seq = length log, ir_op = opn, ir_detail = detail,
     ir_prior_hash = (if log = [] then SCALE_GENESIS else i5_rhash (last log))\<rparr>"

lemma i5_next_fields [simp]: "ir_op (i5_next opn d log) = opn" "ir_detail (i5_next opn d log) = d"
  by (simp_all add: i5_next_def)

lemma sc_emit_declared: "opn \<in> set SCALE_OPS \<Longrightarrow> sc_emit opn d s = (Inr (), s\<lparr>sc_i5 := sc_i5 s @ [i5_next opn d (sc_i5 s)]\<rparr>)"
  by (simp add: sc_emit_def i5_emit_def i5_next_def)

lemma declared_ops [simp]:
  "''priority_class_assigned'' \<in> set SCALE_OPS" "''queue_overflow_refused'' \<in> set SCALE_OPS" "''backpressure_engaged'' \<in> set SCALE_OPS"
  "''backpressure_released'' \<in> set SCALE_OPS" "''independence_set_computed'' \<in> set SCALE_OPS"
  by (simp_all add: SCALE_OPS_def)

lemmas sc_emits [simp] = sc_emit_declared [OF declared_ops(1)] sc_emit_declared [OF declared_ops(2)] sc_emit_declared [OF declared_ops(3)]
  sc_emit_declared [OF declared_ops(4)] sc_emit_declared [OF declared_ops(5)]

definition refused_ids :: "i5_log \<Rightarrow> string list" where
  "refused_ids log = concat (map (\<lambda>r. if ir_op r = ''queue_overflow_refused'' then (case map_of (ir_detail r) ''cand'' of Some (JStr i) \<Rightarrow> [i] | _ \<Rightarrow> [])
     else []) log)"

lemma refused_ids_append [simp]: "refused_ids (xs @ ys) = refused_ids xs @ refused_ids ys" "refused_ids [] = []"
  by (simp_all add: refused_ids_def)

lemma refused_ids_next [simp]:
  "refused_ids [i5_next opn d log] = (if opn = ''queue_overflow_refused'' then (case map_of d ''cand'' of Some (JStr i) \<Rightarrow> [i] | _ \<Rightarrow> []) else [])"
  by (simp add: refused_ids_def)

fun scale_linked :: "string \<Rightarrow> scale_receipt list \<Rightarrow> bool" where
  "scale_linked tip [] = True"
| "scale_linked tip (r # rs) = (sr_prior_hash r = tip \<and> scale_linked (sr_rhash r) rs)"

definition advanced :: "scale_receipt list \<Rightarrow> scale_receipt list \<Rightarrow> string list \<Rightarrow> scheduler \<Rightarrow> scheduler \<Rightarrow> bool" where
  \<comment> \<open>what a run adds: receipts whose effect fired, receipts whose effect did not, and the identifiers its log refuses\<close>
  "advanced rs us ids s s' \<longleftrightarrow>
     ln_chain (sc_lane s') = ln_chain (sc_lane s) @ rs @ us \<and> scale_linked (chain_tip (ln_chain (sc_lane s))) (rs @ us) \<and>
     ln_committed (sc_lane s') = ln_committed (sc_lane s) @ map (\<lambda>r. (r, True)) rs @ map (\<lambda>r. (r, False)) us \<and>
     refused_ids (sc_i5 s') = refused_ids (sc_i5 s) @ ids \<and> sc_capacity s' = sc_capacity s"

lemma advanced_refl: "advanced [] [] [] s s"
  by (simp add: advanced_def)

lemma advanced_log:
  "advanced rs us ids (s\<lparr>sc_i5 := sc_i5 s @ [i5_next opn d (sc_i5 s)]\<rparr>) s' \<Longrightarrow> advanced rs us (refused_ids [i5_next opn d (sc_i5 s)] @ ids) s s'"
  by (simp add: advanced_def del: refused_ids_next)

lemma chain_tip_snoc [simp]: "chain_tip (ch @ [r]) = sr_rhash r"
  by (simp add: chain_tip_def)

definition fresh_receipt :: "candidate \<Rightarrow> binding list option \<Rightarrow> scale_chain \<Rightarrow> scale_receipt" where
  "fresh_receipt c actual ch = fst (chain_append c actual False ch)"

lemma chain_append_fresh: "chain_append c actual False ch = (fresh_receipt c actual ch, ch @ [fresh_receipt c actual ch])"
  "sr_prior_hash (fresh_receipt c actual ch) = chain_tip ch"
  by (simp_all add: fresh_receipt_def chain_append_def Let_def)

lemma advanced_commit:
  "advanced rs us ids (s\<lparr>sc_lane := sc_lane s\<lparr>ln_chain := ln_chain (sc_lane s) @ [r], ln_committed := ln_committed (sc_lane s) @ [(r, True)]\<rparr>\<rparr>) s' \<Longrightarrow>
   sr_prior_hash r = chain_tip (ln_chain (sc_lane s)) \<Longrightarrow> advanced (r # rs) us ids s s'"
  by (simp add: advanced_def)

lemma commit_own:
  "commit_and_effect admit effect c (Some (cd_binding_key c)) l =
     (if \<not> admit c (ln_chain l) then (Inl (OracleRefusal ''LANE-REFUSED-AT-COMMIT''), l)
      else let r = fresh_receipt c (Some (cd_binding_key c)) (ln_chain l) in
        case effect c of
          Inl e \<Rightarrow> (Inl e, l\<lparr>ln_chain := ln_chain l @ [r], ln_committed := ln_committed l @ [(r, False)]\<rparr>)
        | Inr y \<Rightarrow> (Inr (r, y), l\<lparr>ln_chain := ln_chain l @ [r], ln_committed := ln_committed l @ [(r, True)]\<rparr>))"
  by (simp add: commit_and_effect_def chain_append_fresh Let_def split: sum.splits)

definition accounted :: "(candidate \<Rightarrow> (scale_exc, 'a) result) \<Rightarrow> string list \<Rightarrow> (scale_exc, (string \<times> string) list) result \<Rightarrow> scheduler \<Rightarrow> scheduler \<Rightarrow> bool" where
  \<comment> \<open>a finished run commits or refuses each identifier once; only an effect that fails stops a run, after its receipt\<close>
  "accounted effect ids res s s' =
     (case res of
        Inl e \<Rightarrow> \<exists>rs r refused c. advanced rs [r] refused s s' \<and> effect c = Inl e
      | Inr dn \<Rightarrow> \<exists>rs refused. advanced rs [] refused s s' \<and> map sr_rhash rs = map snd dn \<and> mset ids = mset (map fst dn) + mset refused)"

abbreviation logs :: "string \<Rightarrow> (string \<times> json) list \<Rightarrow> scheduler \<Rightarrow> scheduler" where
  "logs opn d s \<equiv> s\<lparr>sc_i5 := sc_i5 s @ [i5_next opn d (sc_i5 s)]\<rparr>"

lemma accounted_log: "accounted effect ids res (logs opn d s) s' \<Longrightarrow> opn \<noteq> ''queue_overflow_refused'' \<Longrightarrow> accounted effect ids res s s'"
  by (fastforce simp: accounted_def split: sum.splits dest: advanced_log)

lemma accounted_refuse:
  assumes "accounted effect ids res (logs ''queue_overflow_refused'' ((''cand'', JStr i) # d) s) s'"
  shows "accounted effect (i # ids) res s s'"
proof (cases res)
  case (Inl e)
  with assms show ?thesis by (fastforce simp: accounted_def dest: advanced_log)
next
  case (Inr dn)
  with assms obtain rs refused where "advanced rs [] refused (logs ''queue_overflow_refused'' ((''cand'', JStr i) # d) s) s'"
    "map sr_rhash rs = map snd dn" "mset ids = mset (map fst dn) + mset refused" by (auto simp: accounted_def)
  with Inr show ?thesis by (auto simp: accounted_def dest!: advanced_log intro!: exI [of _ rs] exI [of _ "i # refused"])
qed

lemma accounted_commit:
  assumes "accounted effect ids res (s\<lparr>sc_lane := sc_lane s\<lparr>ln_chain := ln_chain (sc_lane s) @ [r], ln_committed := ln_committed (sc_lane s) @ [(r, True)]\<rparr>\<rparr>) s'"
    and "sr_prior_hash r = chain_tip (ln_chain (sc_lane s))"
  shows "accounted effect (i # ids) (map_sum id (\<lambda>dn. (i, sr_rhash r) # dn) res) s s'"
proof (cases res)
  case (Inl e)
  with assms show ?thesis by (fastforce simp: accounted_def dest: advanced_commit)
next
  case (Inr dn)
  with assms(1) obtain rs refused where "map sr_rhash rs = map snd dn" "mset ids = mset (map fst dn) + mset refused"
    "advanced rs [] refused (s\<lparr>sc_lane := sc_lane s\<lparr>ln_chain := ln_chain (sc_lane s) @ [r], ln_committed := ln_committed (sc_lane s) @ [(r, True)]\<rparr>\<rparr>) s'"
    by (auto simp: accounted_def)
  with Inr assms(2) show ?thesis by (auto simp: accounted_def dest!: advanced_commit intro!: exI [of _ "r # rs"] exI [of _ refused])
qed

lemma accounted_stop:
  "effect c = Inl e \<Longrightarrow> sr_prior_hash r = chain_tip (ln_chain (sc_lane s)) \<Longrightarrow>
   accounted effect ids (Inl e) s (s\<lparr>sc_lane := sc_lane s\<lparr>ln_chain := ln_chain (sc_lane s) @ [r], ln_committed := ln_committed (sc_lane s) @ [(r, False)]\<rparr>\<rparr>)"
  unfolding accounted_def by (auto simp: advanced_def intro!: exI [of _ "[]"] exI [of _ r] exI [of _ c])

definition assigned :: "batch \<Rightarrow> nat list \<Rightarrow> nat \<Rightarrow> scheduler \<Rightarrow> scheduler" where
  "assigned cs members i s = logs ''priority_class_assigned'' [(''cand'', JStr (fst (cs ! i))), (''prio'', JInt (int (prio (snd (cs ! i))))),
     (''in_independent_set'', JBool (i \<in> set members)),
     (''note'', JStr (if i \<in> set members then ''ordered within independent set'' else ''serialized (dependent)''))] s"

definition fired :: "bool \<Rightarrow> candidate \<Rightarrow> scheduler \<Rightarrow> scheduler" where
  "fired b c s = (let r = fresh_receipt c (Some (cd_binding_key c)) (ln_chain (sc_lane s)) in
     s\<lparr>sc_lane := sc_lane s\<lparr>ln_chain := ln_chain (sc_lane s) @ [r], ln_committed := ln_committed (sc_lane s) @ [(r, b)]\<rparr>\<rparr>)"

lemma sc_lane_idem [simp]: "s\<lparr>sc_lane := sc_lane s\<rparr> = s" for s :: scheduler
  by simp

lemma commit_order_step:
  assumes "\<And>c code. effect c \<noteq> Inl (OracleRefusal code)"
  shows "commit_order admit effect cs members (i # is) s =
    (let s1 = assigned cs members i s; c = snd (cs ! i); cid = fst (cs ! i) in
     if \<not> admit c (ln_chain (sc_lane s1)) then
       commit_order admit effect cs members is (logs ''queue_overflow_refused'' [(''cand'', JStr cid), (''reason'', JStr ''lane-refused:LANE-REFUSED-AT-COMMIT'')] s1)
     else case effect c of
       Inl e \<Rightarrow> (Inl e, fired False c s1)
     | Inr y \<Rightarrow> apfst (map_sum id (\<lambda>dn. (cid, sr_rhash (fresh_receipt c (Some (cd_binding_key c)) (ln_chain (sc_lane s1)))) # dn))
         (commit_order admit effect cs members is (fired True c s1)))"
proof (cases "effect (snd (cs ! i))")
  case (Inl e)
  then show ?thesis using assms [of "snd (cs ! i)"] by (cases e) (simp_all add: case_prod_unfold Let_def commit_own fired_def assigned_def)
next
  case (Inr y)
  obtain res s2 where "commit_order admit effect cs members is (fired True (snd (cs ! i)) (assigned cs members i s)) = (res, s2)" by fastforce
  with Inr show ?thesis by (cases res) (simp_all add: case_prod_unfold Let_def commit_own fired_def assigned_def)
qed

lemma commit_order_accounted:
  assumes "\<And>c code. effect c \<noteq> Inl (OracleRefusal code)"
  shows "commit_order admit effect cs members is s = (res, s') \<Longrightarrow> accounted effect (map (\<lambda>i. fst (cs ! i)) is) res s s'"
proof (induction "is" arbitrary: s res)
  case Nil
  then show ?case using advanced_refl by (auto simp: accounted_def)
next
  case (Cons i "is")
  define s1 where "s1 = assigned cs members i s"
  note run = Cons.prems [unfolded commit_order_step [OF assms] Let_def, folded s1_def]
  let ?c = "snd (cs ! i)" and ?ids = "map (\<lambda>i. fst (cs ! i)) (i # is)"
  have "accounted effect ?ids res s1 s'"
  proof (cases "admit ?c (ln_chain (sc_lane s1))")
    case False
    then show ?thesis using run Cons.IH accounted_refuse by simp blast
  next
    case True
    show ?thesis
    proof (cases "effect ?c")
      case (Inl e)
      then show ?thesis using run True by (auto simp: fired_def Let_def chain_append_fresh intro!: accounted_stop)
    next
      case (Inr y)
      obtain res1 where run1: "commit_order admit effect cs members is (fired True ?c s1) = (res1, s')"
        and res: "res = map_sum id (\<lambda>dn. (fst (cs ! i), sr_rhash (fresh_receipt ?c (Some (cd_binding_key ?c)) (ln_chain (sc_lane s1)))) # dn) res1"
        using run True Inr by (cases "commit_order admit effect cs members is (fired True ?c s1)") auto
      show ?thesis using accounted_commit [OF Cons.IH [OF run1, unfolded fired_def Let_def]] by (simp add: res chain_append_fresh)
    qed
  qed
  then show ?case by (auto simp: s1_def assigned_def dest: accounted_log)
qed

lemma commit_order_bounded:
  assumes "\<And>c code. effect c \<noteq> Inl (OracleRefusal code)"
  shows "length (ln_chain (sc_lane (snd (commit_order admit effect cs members is s)))) \<le> length (ln_chain (sc_lane s)) + length is"
proof (induction "is" arbitrary: s)
  case (Cons i "is")
  have "sc_lane (assigned cs members i s) = sc_lane s" by (simp add: assigned_def)
  then show ?case
    using Cons.IH [of "fired True (snd (cs ! i)) (assigned cs members i s)"] Cons.IH [of "logs op d (assigned cs members i s)" for op d]
    by (auto simp: commit_order_step [OF assms] Let_def fired_def apfst_def split: sum.splits simp del: commit_order.simps intro: le_SucI)
qed simp

lemma refuse_overflow_run:
  "\<exists>s1. refuse_overflow ids s = (Inr (), s1) \<and> sc_lane s1 = sc_lane s \<and> sc_capacity s1 = sc_capacity s \<and>
     (\<forall>rest res s'. accounted effect rest res s1 s' \<longrightarrow> accounted effect (ids @ rest) res s s')"
proof (induction ids arbitrary: s)
  case (Cons i ids)
  let ?s = "logs ''queue_overflow_refused'' [(''cand'', JStr i), (''reason'', JStr ''capacity-exceeded'')] s"
  from Cons [of ?s] show ?case using accounted_refuse by fastforce
qed simp

lemma accounted_mset: "mset ids = mset ids' \<Longrightarrow> accounted effect ids res s s' = accounted effect ids' res s s'"
  by (simp add: accounted_def split: sum.splits)

lemma backpressure_run:
  "\<exists>s1. backpressure cs s = (Inr (take (sc_capacity s) cs), s1) \<and> sc_lane s1 = sc_lane s \<and>
     (\<forall>res s'. accounted effect (map fst (take (sc_capacity s) cs)) res s1 s' \<longrightarrow> accounted effect (map fst cs) res s s')"
proof (cases "length cs > sc_capacity s")
  case True
  let ?s = "logs ''backpressure_engaged'' [(''pending'', JInt (int (length cs))), (''capacity'', JInt (int (sc_capacity s)))] s"
  obtain s1 where s1: "refuse_overflow (map fst (drop (sc_capacity s) cs)) ?s = (Inr (), s1)" "sc_lane s1 = sc_lane s"
    and carry: "\<And>rest res s'. accounted effect rest res s1 s' \<Longrightarrow> accounted effect (map fst (drop (sc_capacity s) cs) @ rest) res ?s s'"
    using refuse_overflow_run [of "map fst (drop (sc_capacity s) cs)" ?s effect] by auto
  let ?s2 = "logs ''backpressure_released'' [(''admitted'', JInt (int (length (take (sc_capacity s) cs))))] s1"
  have "accounted effect (map fst cs) res s s'" if "accounted effect (map fst (take (sc_capacity s) cs)) res ?s2 s'" for res s'
  proof -
    have "mset (map fst (drop (sc_capacity s) cs) @ map fst (take (sc_capacity s) cs)) = mset (map fst cs)"
      by (metis append_take_drop_id map_append mset_append add.commute)
    moreover have "accounted effect (map fst (drop (sc_capacity s) cs) @ map fst (take (sc_capacity s) cs)) res s s'"
      using accounted_log [OF carry [OF accounted_log [OF that]]] by simp
    ultimately show ?thesis using accounted_mset by blast
  qed
  then show ?thesis using True s1 by (simp add: backpressure_def)
qed (simp add: backpressure_def)

lemma order_ids: "mset (map (\<lambda>i. fst (cs ! i)) (safe_priority_order ch cs)) = mset (map fst cs)" and order_length: "length (safe_priority_order ch cs) = length cs"
proof -
  obtain m where "safe_priority_order ch cs = (pass (promotes ch cs) ^^ m) [0..<length cs]"
    using passes_result [of "length cs" "promotes ch cs" "[0..<length cs]"] by (auto simp: safe_priority_order_def)
  then have m: "mset (safe_priority_order ch cs) = mset [0..<length cs]" by simp
  then show "length (safe_priority_order ch cs) = length cs" by (metis length_upt minus_nat.diff_0 size_mset)
  have "map (\<lambda>i. fst (cs ! i)) [0..<length cs] = map fst cs" by (rule nth_equalityI) simp_all
  then show "mset (map (\<lambda>i. fst (cs ! i)) (safe_priority_order ch cs)) = mset (map fst cs)" using m by (metis mset_map)
qed


definition plain_candidate :: "string \<Rightarrow> candidate" where
  "plain_candidate e = \<lparr>cd_op = ''app_write'', cd_agent = ''a'', cd_session = None, cd_input_refs = None, cd_warrant_basis_refs = None,
     cd_binding_key = [(e, ''a'')], cd_refusal_subject = None, cd_posture_affecting = None, cd_session_marker = None, cd_member_range = None,
     cd_produces_effects = [e], cd_grant_class = False, cd_is_aggregate = False\<rparr>"


end
