(* ===== verification/Ownership.thy ===== *)
theory Ownership
  imports Outcomes
begin

text \<open>
  Namespace ownership (\<^verbatim>\<open>ugk/namespace_governance.py\<close>): ownership is a fold over the receipt chain, and the seven
  ownership operations are calls of \<open>execute\<close> with an admissibility gate that reads the fold.

  Names are texts below U+0100, where Unicode normalisation is the identity. The case fold of the micro sign U+00B5 is the Greek
  letter U+03BC; no other such character folds to it, and the micro sign stands for it here. Receipt parameters can hold any JSON
  value where the operations put a text: values compare as Python compares them, booleans and integral floats being integers.
  A float prints as an integer with \<open>.0\<close> below \<open>10\<^sup>1\<^sup>6\<close>; larger floats are kept apart from integers.

  Main results: what the fold removes stays removed, title moves only by its owner or by adjudication, and each operation that
  returns has passed its guard and has exactly its abstract effect on the registry.
\<close>

subsection \<open>Canonical names\<close>

definition fold_char :: "char \<Rightarrow> string" where
  \<comment> \<open>\<^verbatim>\<open>str.casefold\<close> of one character\<close>
  "fold_char c = (if c = CHR 0xDF then ''ss'' else [lower_char c])"

definition canonicalize :: "json \<Rightarrow> string" where
  "canonicalize name = (if name = JNull then [] else concat (map fold_char (strip (py_str name))))"

subsection \<open>Python equality\<close>

definition float_int :: "pyfloat \<Rightarrow> int option" where
  "float_int f = (let s = float_repr f in if suffix ''.0'' s then py_int (take (length s - 2) s) else None)"

function py_key :: "json \<Rightarrow> json" where
  \<comment> \<open>a representative of the values Python's \<open>==\<close> identifies\<close>
  "py_key (JList xs) = JList (map py_key xs)"
| "py_key (JObj kvs) = JObj (sort_key fst (map (\<lambda>(k, v). (k, py_key v)) kvs))"
| "py_key JNull = JNull"
| "py_key (JBool b) = JInt (if b then 1 else 0)"
| "py_key (JInt i) = JInt i"
| "py_key (JFloat f) = (case float_int f of None \<Rightarrow> JFloat f | Some i \<Rightarrow> JInt i)"
| "py_key (JStr s) = JStr s"
  by pat_completeness auto

termination
  by (relation "measure size") (auto simp: size_field less_Suc_eq_le size_list_estimation')

fun hashable :: "json \<Rightarrow> bool" where
  "hashable (JList _) = False"
| "hashable (JObj _) = False"
| "hashable _ = True"

subsection \<open>The projection\<close>

definition OP_CLAIM :: string where "OP_CLAIM = ''namespace_claim''"
definition OP_ALLOCATE :: string where "OP_ALLOCATE = ''namespace_allocate''"
definition OP_DELEGATE :: string where "OP_DELEGATE = ''namespace_delegate''"
definition OP_REVOKE :: string where "OP_REVOKE = ''namespace_revoke''"
definition OP_INVALIDATE :: string where "OP_INVALIDATE = ''namespace_invalidate''"
definition OP_SUPERSEDE :: string where "OP_SUPERSEDE = ''namespace_supersede''"
definition OP_ADJUDICATE :: string where "OP_ADJUDICATE = ''namespace_adjudicate''"

record title =
  t_owner :: json
  t_name :: json
  t_index :: nat

record registry =
  ns_owners :: "json \<rightharpoonup> title"
  ns_revoked :: "json set"
  ns_delegates :: "json \<rightharpoonup> json list"

definition empty_registry :: registry where
  "empty_registry = \<lparr>ns_owners = Map.empty, ns_revoked = {}, ns_delegates = Map.empty\<rparr>"

definition ns_params :: "receipt \<Rightarrow> (exc, (string \<times> json) list) result" where
  \<comment> \<open>\<open>_params\<close>, and that \<open>.get\<close> needs a dictionary\<close>
  "ns_params r = (case r_parameters r of
     JObj kvs \<Rightarrow> Inr kvs
   | p \<Rightarrow> if truth p then Inl (PyExc AttributeError) else Inr [])"

definition ns_canon :: "(string \<times> json) list \<Rightarrow> json" where
  \<comment> \<open>\<^verbatim>\<open>p.get("canonical") or canonicalize(p.get("name", ""))\<close>\<close>
  "ns_canon p = (let c = jget p ''canonical'' in if truth c then c else JStr (canonicalize (get_or p ''name'' (JStr []))))"

definition NS_OPS :: "string list" where
  \<comment> \<open>the operations the fold reacts to\<close>
  "NS_OPS = [OP_ALLOCATE, OP_DELEGATE, OP_REVOKE, OP_INVALIDATE, OP_SUPERSEDE, OP_ADJUDICATE]"

definition owned_by :: "registry \<Rightarrow> json \<Rightarrow> receipt \<Rightarrow> bool" where
  "owned_by st c r = (case ns_owners st c of None \<Rightarrow> False | Some t \<Rightarrow> t_owner t = JStr (r_authority r))"

definition ns_apply :: "nat \<Rightarrow> receipt \<Rightarrow> (string \<times> json) list \<Rightarrow> json \<Rightarrow> registry \<Rightarrow> registry" where
  \<comment> \<open>the branches of the fold, for a hashable canonical name\<close>
  "ns_apply i r p c st =
     (if r_op r = OP_ALLOCATE then
        if ns_owners st c = None \<and> c \<notin> ns_revoked st
        then st\<lparr>ns_owners := (ns_owners st)(c \<mapsto> \<lparr>t_owner = JStr (r_authority r), t_name = get_or p ''name'' (JStr []), t_index = i\<rparr>)\<rparr>
        else st
      else if r_op r = OP_DELEGATE then
        let da = jget p ''delegate_authority''; d = (case ns_delegates st c of None \<Rightarrow> [] | Some d \<Rightarrow> d) in
        if owned_by st c r \<and> truth da
        then st\<lparr>ns_delegates := (ns_delegates st)(c \<mapsto> (if py_key da \<in> py_key ` set d then d else d @ [da]))\<rparr>
        else st
      else if r_op r = OP_REVOKE \<or> r_op r = OP_INVALIDATE then
        if owned_by st c r
        then st\<lparr>ns_owners := (ns_owners st)(c := None), ns_revoked := insert c (ns_revoked st), ns_delegates := (ns_delegates st)(c := None)\<rparr>
        else st
      else if r_op r = OP_SUPERSEDE then
        let new = jget p ''new_owner'' in
        if owned_by st c r \<and> truth new
        then st\<lparr>ns_owners := (ns_owners st)(c \<mapsto> \<lparr>t_owner = new, t_name = get_or p ''name'' (JStr []), t_index = i\<rparr>),
                ns_delegates := (ns_delegates st)(c := None)\<rparr>
        else st
      else if r_op r = OP_ADJUDICATE then
        let award = jget p ''awarded_owner'' in
        if truth award \<and> c \<notin> ns_revoked st
        then st\<lparr>ns_owners := (ns_owners st)(c \<mapsto> \<lparr>t_owner = award, t_name = get_or p ''name'' (JStr []), t_index = i\<rparr>),
                ns_delegates := (ns_delegates st)(c := None)\<rparr>
        else st
      else st)"

definition looks_up :: "receipt \<Rightarrow> (string \<times> json) list \<Rightarrow> bool" where
  \<comment> \<open>the branches that use the canonical name as a key\<close>
  "looks_up r p \<longleftrightarrow> r_op r \<in> set NS_OPS \<and> (r_op r = OP_ADJUDICATE \<longrightarrow> truth (jget p ''awarded_owner''))"

definition ns_step :: "nat \<Rightarrow> receipt \<Rightarrow> registry \<Rightarrow> (exc, registry) result" where
  "ns_step i r st =
     (if r_failed r then Inr st
      else rbind (ns_params r) (\<lambda>p.
        let c = ns_canon p in
        if \<not> truth c then Inr st
        else if looks_up r p \<and> \<not> hashable c then Inl (PyExc TypeError)
        else Inr (ns_apply i r p (py_key c) st)))"

fun ns_fold :: "nat \<Rightarrow> receipt list \<Rightarrow> registry \<Rightarrow> (exc, registry) result" where
  "ns_fold i [] st = Inr st"
| "ns_fold i (r # rs) st = rbind (ns_step i r st) (ns_fold (Suc i) rs)"

definition ns_project :: "store \<Rightarrow> (exc, registry) result" where
  "ns_project s = ns_fold 0 (all_receipts s) empty_registry"

subsection \<open>Queries\<close>

definition name_key :: "string \<Rightarrow> json" where
  "name_key name = JStr (canonicalize (JStr name))"

definition project_owners :: "store \<Rightarrow> (exc, json \<rightharpoonup> title) result" where
  "project_owners s = rbind (ns_project s) (\<lambda>st. Inr (ns_owners st))"

definition owner_of :: "store \<Rightarrow> string \<Rightarrow> (exc, json option) result" where
  "owner_of s name = rbind (project_owners s) (\<lambda>owners. Inr (map_option t_owner (owners (name_key name))))"

definition delegates_of :: "store \<Rightarrow> string \<Rightarrow> (exc, json list) result" where
  "delegates_of s name = rbind (ns_project s) (\<lambda>st. Inr (case ns_delegates st (name_key name) of None \<Rightarrow> [] | Some d \<Rightarrow> d))"

definition has_authority :: "store \<Rightarrow> string \<Rightarrow> string \<Rightarrow> (exc, bool) result" where
  "has_authority s name authority =
     rbind (ns_project s) (\<lambda>st.
     Inr ((\<exists>t. ns_owners st (name_key name) = Some t \<and> t_owner t = JStr authority) \<or>
          JStr authority \<in> py_key ` set (case ns_delegates st (name_key name) of None \<Rightarrow> [] | Some d \<Rightarrow> d)))"

subsection \<open>Gates\<close>

definition ns_gate :: "(store \<Rightarrow> (exc, bool) result) \<Rightarrow> (kernel, bool) prog" where
  "ns_gate f k = (f (k_store k), k)"

definition make_allocation_gate :: "string \<Rightarrow> store \<Rightarrow> (exc, bool) result" where
  "make_allocation_gate name s =
     (if canonicalize (JStr name) = [] then Inr False
      else rbind (ns_project s) (\<lambda>st. Inr (ns_owners st (name_key name) = None \<and> name_key name \<notin> ns_revoked st)))"

definition owner_gate :: "string \<Rightarrow> bool \<Rightarrow> string option \<Rightarrow> store \<Rightarrow> (exc, bool) result" where
  \<comment> \<open>the gate of delegate, revoke, invalidate and supersede; the flag is their own condition\<close>
  "owner_gate name ok authority s =
     (if canonicalize (JStr name) = [] \<or> \<not> ok then Inr False
      else rbind (owner_of s name) (\<lambda>owner. Inr (owner = map_option JStr authority)))"

definition adjudication_gate :: "string \<Rightarrow> string \<Rightarrow> string \<Rightarrow> string option \<Rightarrow> store \<Rightarrow> (exc, bool) result" where
  "adjudication_gate gov name awarded authority s =
     (if canonicalize (JStr name) = [] \<or> awarded = [] then Inr False
      else if gov = [] \<or> authority \<noteq> Some gov then Inr False
      else rbind (ns_project s) (\<lambda>st. Inr (name_key name \<notin> ns_revoked st)))"

subsection \<open>Operations\<close>

definition ns_call :: "string \<Rightarrow> string \<Rightarrow> (string \<times> json) list \<Rightarrow> string option \<Rightarrow> (store \<Rightarrow> (exc, bool) result) \<Rightarrow> unit exec_args" where
  \<comment> \<open>the call of \<open>execute\<close>, the other arguments at their defaults\<close>
  "ns_call opn name extra authority gate =
     \<lparr>xa_op = opn, xa_authority = map_option PStr authority,
      xa_parameters = Some (of_json (JObj ([(''name'', JStr name), (''canonical'', JStr (canonicalize (JStr name)))] @ extra))),
      xa_gate = Some (ns_gate gate), xa_effect = None, xa_atomicity = None, xa_idempotency_key = None, xa_gate_margin = None,
      xa_layer = ''I'', xa_jurisdiction = ''namespace'', xa_governor_sig = None, xa_warrant_basis = None, xa_intent_ref = [],
      xa_authority_set = None, xa_capability_verdicts = [], xa_required_locality = None\<rparr>"

definition claim :: "string \<Rightarrow> string option \<Rightarrow> (kernel, unit option) prog" where
  "claim name authority = execute (ns_call OP_CLAIM name [] authority (\<lambda>_. Inr (canonicalize (JStr name) \<noteq> [])))"

definition allocate :: "string \<Rightarrow> string option \<Rightarrow> (kernel, unit option) prog" where
  "allocate name authority = execute (ns_call OP_ALLOCATE name [] authority (make_allocation_gate name))"

definition delegate :: "string \<Rightarrow> string \<Rightarrow> string option \<Rightarrow> (kernel, unit option) prog" where
  "delegate name delegate_authority authority =
     execute (ns_call OP_DELEGATE name [(''delegate_authority'', JStr delegate_authority)] authority
       (owner_gate name (delegate_authority \<noteq> []) authority))"

definition revoke :: "string \<Rightarrow> string option \<Rightarrow> (kernel, unit option) prog" where
  "revoke name authority = execute (ns_call OP_REVOKE name [] authority (owner_gate name True authority))"

definition invalidate :: "string \<Rightarrow> string option \<Rightarrow> (kernel, unit option) prog" where
  "invalidate name authority = execute (ns_call OP_INVALIDATE name [] authority (owner_gate name True authority))"

definition supersede :: "string \<Rightarrow> string \<Rightarrow> string option \<Rightarrow> (kernel, unit option) prog" where
  "supersede name new_owner authority =
     execute (ns_call OP_SUPERSEDE name [(''new_owner'', JStr new_owner)] authority (owner_gate name (new_owner \<noteq> []) authority))"

definition adjudicate :: "string \<Rightarrow> string \<Rightarrow> string option \<Rightarrow> (kernel, unit option) prog" where
  "adjudicate name awarded_owner authority =
     sbind (sget k_mosaic_root) (\<lambda>gov.
     execute (ns_call OP_ADJUDICATE name [(''awarded_owner'', JStr awarded_owner)] authority (adjudication_gate gov name awarded_owner authority)))"

subsection \<open>The fold\<close>

lemmas ns_op_defs = OP_CLAIM_def OP_ALLOCATE_def OP_DELEGATE_def OP_REVOKE_def OP_INVALIDATE_def OP_SUPERSEDE_def OP_ADJUDICATE_def

lemma ns_fold_append: "ns_fold i (rs @ qs) st = rbind (ns_fold i rs st) (ns_fold (i + length rs) qs)"
proof (induction rs arbitrary: i st)
  case (Cons r rs)
  then show ?case by (cases "ns_step i r st") (simp_all add: rbind_def flip: add_Suc)
qed (simp add: rbind_def)

definition registry_ok :: "registry \<Rightarrow> bool" where
  "registry_ok st \<longleftrightarrow> (\<forall>c. (c \<in> ns_revoked st \<longrightarrow> ns_owners st c = None) \<and> (ns_owners st c = None \<longrightarrow> ns_delegates st c = None))"

lemma ns_ops_distinct [simp]:
  "OP_ALLOCATE \<noteq> OP_DELEGATE" "OP_ALLOCATE \<noteq> OP_REVOKE" "OP_ALLOCATE \<noteq> OP_INVALIDATE" "OP_ALLOCATE \<noteq> OP_SUPERSEDE" "OP_ALLOCATE \<noteq> OP_ADJUDICATE"
  "OP_DELEGATE \<noteq> OP_ALLOCATE" "OP_DELEGATE \<noteq> OP_REVOKE" "OP_DELEGATE \<noteq> OP_INVALIDATE" "OP_DELEGATE \<noteq> OP_SUPERSEDE" "OP_DELEGATE \<noteq> OP_ADJUDICATE"
  "OP_REVOKE \<noteq> OP_ALLOCATE" "OP_REVOKE \<noteq> OP_DELEGATE" "OP_REVOKE \<noteq> OP_SUPERSEDE" "OP_REVOKE \<noteq> OP_ADJUDICATE"
  "OP_INVALIDATE \<noteq> OP_ALLOCATE" "OP_INVALIDATE \<noteq> OP_DELEGATE" "OP_INVALIDATE \<noteq> OP_SUPERSEDE" "OP_INVALIDATE \<noteq> OP_ADJUDICATE"
  "OP_SUPERSEDE \<noteq> OP_ALLOCATE" "OP_SUPERSEDE \<noteq> OP_DELEGATE" "OP_SUPERSEDE \<noteq> OP_REVOKE" "OP_SUPERSEDE \<noteq> OP_INVALIDATE" "OP_SUPERSEDE \<noteq> OP_ADJUDICATE"
  "OP_ADJUDICATE \<noteq> OP_ALLOCATE" "OP_ADJUDICATE \<noteq> OP_DELEGATE" "OP_ADJUDICATE \<noteq> OP_REVOKE" "OP_ADJUDICATE \<noteq> OP_INVALIDATE" "OP_ADJUDICATE \<noteq> OP_SUPERSEDE"
  by (simp_all add: ns_op_defs)

lemma ns_apply_cases:
  obtains "ns_apply i r p c st = st"
  | (new) t where "r_op r = OP_ALLOCATE" "ns_owners st c = None" "c \<notin> ns_revoked st" "ns_apply i r p c st = st\<lparr>ns_owners := (ns_owners st)(c \<mapsto> t)\<rparr>"
  | (scoped) d where "r_op r = OP_DELEGATE" "owned_by st c r" "ns_apply i r p c st = st\<lparr>ns_delegates := (ns_delegates st)(c \<mapsto> d)\<rparr>"
  | (removed) "r_op r = OP_REVOKE \<or> r_op r = OP_INVALIDATE" "owned_by st c r" "ns_apply i r p c st =
      st\<lparr>ns_owners := (ns_owners st)(c := None), ns_revoked := insert c (ns_revoked st), ns_delegates := (ns_delegates st)(c := None)\<rparr>"
  | (moved) t where "r_op r = OP_SUPERSEDE \<and> owned_by st c r \<or> r_op r = OP_ADJUDICATE \<and> c \<notin> ns_revoked st"
      "ns_apply i r p c st = st\<lparr>ns_owners := (ns_owners st)(c \<mapsto> t), ns_delegates := (ns_delegates st)(c := None)\<rparr>"
proof -
  consider "r_op r = OP_ALLOCATE" | "r_op r = OP_DELEGATE" | "r_op r = OP_REVOKE \<or> r_op r = OP_INVALIDATE" | "r_op r = OP_SUPERSEDE" | "r_op r = OP_ADJUDICATE"
    | "r_op r \<notin> set NS_OPS" by (auto simp: NS_OPS_def)
  then show thesis
  proof cases
    case 1
    then show thesis using that(1,2) by (cases "ns_owners st c = None \<and> c \<notin> ns_revoked st") (auto simp: ns_apply_def)
  next
    case 2
    then show thesis using that(1,3) by (cases "owned_by st c r \<and> truth (jget p ''delegate_authority'')") (auto simp: ns_apply_def Let_def)
  next
    case 3
    then show thesis using that(1,4) by (cases "owned_by st c r") (auto simp: ns_apply_def)
  next
    case 4
    then show thesis using that(1,5) by (cases "owned_by st c r \<and> truth (jget p ''new_owner'')") (auto simp: ns_apply_def Let_def)
  next
    case 5
    then show thesis using that(1,5) by (cases "truth (jget p ''awarded_owner'') \<and> c \<notin> ns_revoked st") (auto simp: ns_apply_def Let_def)
  next
    case 6
    then show thesis using that(1) by (auto simp: ns_apply_def NS_OPS_def)
  qed
qed

lemma owned_title: "owned_by st c r \<longleftrightarrow> (\<exists>t. ns_owners st c = Some t \<and> t_owner t = JStr (r_authority r))"
  by (auto simp: owned_by_def split: option.splits)

lemma ns_apply_ok: "registry_ok st \<Longrightarrow> registry_ok (ns_apply i r p c st)"
  by (cases rule: ns_apply_cases [of i r p c st]) (auto simp: registry_ok_def owned_title)

lemma ns_apply_revoked: "ns_revoked st \<subseteq> ns_revoked (ns_apply i r p c st)"
  by (cases rule: ns_apply_cases [of i r p c st]) auto

lemma ns_step_cases:
  assumes "ns_step i r st = Inr st'"
  obtains "st' = st" | p c where "\<not> r_failed r" "ns_params r = Inr p" "c = py_key (ns_canon p)" "st' = ns_apply i r p c st"
  using assms by (auto simp: ns_step_def Let_def rbind_def split: if_splits sum.splits)

lemma ns_step_ok: "ns_step i r st = Inr st' \<Longrightarrow> registry_ok st \<Longrightarrow> registry_ok st' \<and> ns_revoked st \<subseteq> ns_revoked st'"
  by (erule ns_step_cases) (use ns_apply_ok ns_apply_revoked in auto)

lemma ns_fold_ok: "ns_fold i rs st = Inr st' \<Longrightarrow> registry_ok st \<Longrightarrow> registry_ok st' \<and> ns_revoked st \<subseteq> ns_revoked st'"
proof (induction rs arbitrary: i st)
  case (Cons r rs)
  then obtain st1 where "ns_step i r st = Inr st1" "ns_fold (Suc i) rs st1 = Inr st'" by (auto simp: rbind_eq_Inr)
  with Cons.IH Cons.prems(2) ns_step_ok show ?case by blast
qed simp

lemma project_ok: "ns_project s = Inr st \<Longrightarrow> registry_ok st"
  unfolding ns_project_def by (drule ns_fold_ok) (auto simp: registry_ok_def empty_registry_def)

lemma project_extends:
  assumes "all_receipts s' = all_receipts s @ later" "ns_project s = Inr st"
  shows "ns_project s' = ns_fold (length (all_receipts s)) later st"
  using assms by (simp add: ns_project_def ns_fold_append rbind_def)

text \<open>C31. Permanence: once a name is revoked or invalidated in the chain, then however the chain continues, under
  whatever authorities and whether or not the operations were gated, the name has no owner and no delegate, stays removed, and every
  allocation gate for it answers no.\<close>

theorem removal_permanent:
  assumes "ns_project s = Inr st" "c \<in> ns_revoked st" "all_receipts s' = all_receipts s @ later" "ns_project s' = Inr st'"
  shows "c \<in> ns_revoked st' \<and> ns_owners st' c = None \<and> ns_delegates st' c = None \<and>
    (\<forall>name. name_key name = c \<longrightarrow> make_allocation_gate name s' = Inr False)"
proof -
  have "registry_ok st' \<and> ns_revoked st \<subseteq> ns_revoked st'"
    using ns_fold_ok project_ok [OF assms(1)] assms(4) project_extends [OF assms(3,1)] by metis
  then show ?thesis using assms(2,4) unfolding registry_ok_def by (auto simp: make_allocation_gate_def rbind_def)
qed

definition names :: "json \<Rightarrow> receipt \<Rightarrow> bool" where
  \<comment> \<open>a successful receipt about the name\<close>
  "names c r \<longleftrightarrow> \<not> r_failed r \<and> (\<exists>p. ns_params r = Inr p \<and> py_key (ns_canon p) = c)"

definition conveys :: "json \<Rightarrow> title \<Rightarrow> receipt \<Rightarrow> bool" where
  \<comment> \<open>an act of the owner, or an adjudication\<close>
  "conveys c t r \<longleftrightarrow> names c r \<and> (r_op r \<in> {OP_REVOKE, OP_INVALIDATE, OP_SUPERSEDE} \<and> t_owner t = JStr (r_authority r) \<or> r_op r = OP_ADJUDICATE)"

lemma ns_step_title:
  assumes "ns_step i r st = Inr st'" "ns_owners st c = Some t" "\<not> conveys c t r"
  shows "ns_owners st' c = Some t"
  using assms(1)
proof (rule ns_step_cases)
  fix p d assume *: "\<not> r_failed r" "ns_params r = Inr p" "d = py_key (ns_canon p)" "st' = ns_apply i r p d st"
  show ?thesis
  proof (cases "d = c")
    case True
    then have "names c r" using * by (auto simp: names_def)
    then show ?thesis using * True assms(2,3)
      by (cases rule: ns_apply_cases [of i r p c st]) (auto simp: conveys_def owned_title)
  next
    case False
    then show ?thesis using * assms(2) by (cases rule: ns_apply_cases [of i r p d st]) auto
  qed
qed (use assms(2) in simp)

lemma ns_fold_title:
  "ns_fold i rs st = Inr st' \<Longrightarrow> ns_owners st c = Some t \<Longrightarrow> ns_owners st' c \<noteq> Some t \<Longrightarrow> \<exists>r\<in>set rs. conveys c t r"
proof (induction rs arbitrary: i st)
  case (Cons r rs)
  then obtain st1 where *: "ns_step i r st = Inr st1" "ns_fold (Suc i) rs st1 = Inr st'" by (auto simp: rbind_eq_Inr)
  show ?case
  proof (cases "conveys c t r")
    case False
    then show ?thesis using Cons.IH [OF *(2) ns_step_title [OF *(1) Cons.prems(2)] Cons.prems(3)] by auto
  qed simp
qed simp

text \<open>title moves. Title moves only by right: if a name has an owner and, after the chain has grown by any receipts, no longer has the same
  title, then among the new receipts there is a successful revocation, invalidation or transfer of that name under the authority of that
  owner, or a successful adjudication of it. No allocation, delegation or failed receipt ever moves a title.\<close>

theorem title_moves:
  assumes "ns_project s = Inr st" "ns_owners st c = Some t" "all_receipts s' = all_receipts s @ later" "ns_project s' = Inr st'"
    "ns_owners st' c \<noteq> Some t"
  shows "\<exists>r\<in>set later. names c r \<and> (r_op r \<in> {OP_REVOKE, OP_INVALIDATE, OP_SUPERSEDE} \<and> t_owner t = JStr (r_authority r) \<or> r_op r = OP_ADJUDICATE)"
  using ns_fold_title assms project_extends [OF assms(3,1)] unfolding conveys_def by metis

subsection \<open>One call\<close>

definition ns_request :: "string \<Rightarrow> (string \<times> json) list \<Rightarrow> string \<Rightarrow> request" where
  "ns_request name extra a = \<lparr>rq_authority = a,
     rq_parameters = JObj ([(''name'', JStr name), (''canonical'', JStr (canonicalize (JStr name)))] @ extra), rq_basis = None, rq_authority_set = None\<rparr>"

lemma ns_call_fields [simp]:
  "xa_op (ns_call opn name extra au gate) = opn" "xa_authority (ns_call opn name extra au gate) = map_option PStr au"
  "xa_parameters (ns_call opn name extra au gate) = Some (of_json (rq_parameters (ns_request name extra a)))"
  "xa_gate (ns_call opn name extra au gate) = Some (ns_gate gate)" "xa_effect (ns_call opn name extra au gate) = None"
  "xa_atomicity (ns_call opn name extra au gate) = None" "xa_warrant_basis (ns_call opn name extra au gate) = None"
  "xa_authority_set (ns_call opn name extra au gate) = None"
  by (simp_all add: ns_call_def ns_request_def)

lemma request_dict: "py_is_dict (of_json (rq_parameters (ns_request name extra a)))"
  by (simp add: ns_request_def)

definition acting :: "string option \<Rightarrow> kernel \<Rightarrow> string" where
  "acting au k = (case au of None \<Rightarrow> k_authority k | Some a \<Rightarrow> a)"

lemma ns_preflight:
  "preflight k (ns_call opn name extra au gate) =
    (if au = Some [] \<or> has_float (rq_parameters (ns_request name extra (acting au k))) then Inl (ProtocolError opn) else Inr (ns_request name extra (acting au k)))"
proof -
  have "preflight k (ns_call opn name extra au gate) =
    (if au = Some [] \<or> has_float (rq_parameters (ns_request name extra (acting au k))) then Inl (ProtocolError opn)
     else Inr \<lparr>rq_authority = acting au k, rq_parameters = rq_parameters (ns_request name extra (acting au k)), rq_basis = None, rq_authority_set = None\<rparr>)"
    using request_dict [of name extra "acting au k"]
    by (simp add: preflight_def Let_def text_arg_def rbind_def rguard_def acting_def ns_call_fields(3) [where a = "acting au k"] split: option.splits list.splits)
  then show ?thesis by (simp add: ns_request_def)
qed

lemma free_write:
  \<comment> \<open>the row a returning write of unmarked parameters leaves\<close>
  assumes "quiet k" "kwrite f k = (Inr r, k')" "free_of_markers (wa_parameters (f k))" "\<not> wa_compress (f k)"
  obtains row where "quiet k'" "krows k' = krows k @ [row]" "r_op row = wa_op (f k)" "r_failed row = wa_failed (f k)" "r_authority row = wa_authority (f k)"
    "r_parameters row = norm_json (wa_parameters (f k))"
  using assms(1,2)
proof (rule kwrite_quiet)
  fix row assume *: "quiet k'" "krows k' = krows k @ [row]" "r_op row = (if wa_compress (f k) then compress_field OP_TO_CSIL (wa_op (f k)) else wa_op (f k))"
    "r_failed row = wa_failed (f k)" "prepared (f k) (k_store k) (r\<lparr>r_receipt_id := None\<rparr>)" "row = row_of (f k) (r\<lparr>r_receipt_id := None\<rparr>) (visible (k_store k))"
  show thesis
  proof (rule that [OF *(1,2) _ *(4)])
    show "r_op row = wa_op (f k)" using *(3) assms(4) by simp
    show "r_authority row = wa_authority (f k)" using prepared_authority [OF *(5)] *(6) by simp
    show "r_parameters row = norm_json (wa_parameters (f k))" using prepared_free(1) [OF *(5) assms(3)] *(6) by simp
  qed
qed

lemma execute_silent:
  \<comment> \<open>a returning call without effect leaves its admission and its own receipt\<close>
  assumes "quiet k" "xa_effect x = None" "execute x k = (Inr y, k')" "xa_gate x = Some (ns_gate g)"
    "\<And>q. preflight k x = Inr q \<Longrightarrow> free_of_markers (rq_parameters q)"
  obtains q k2 adm row where "preflight k x = Inr q" "g (k_store k) = Inr True" "quiet k'" "krows k' = krows k @ [adm, row]"
    "r_op adm = ''gate_admit''" "r_parameters adm = norm_json (admit_params x q)"
    "r_op row = xa_op x" "\<not> r_failed row" "r_authority row = rq_authority q" "r_parameters row = norm_json (outcome_params x q k2)"
proof -
  obtain q iref aref wid k1 k2 k3 where q: "preflight k x = Inr q" and h: "refusal_horizon x q k = (Inr iref, k1)" and a: "admit x q k1 = (Inr aref, k2)"
    and w: "materialize_warrant x q k2 = (Inr wid, k3)" and o: "outcome x q iref aref wid k3 = (Inr y, k')"
    using assms(3) by (auto simp: execute_def sbind_eq_Inr sget_eq sres_def)
  have g: "g (k_store k) = Inr True" and k1: "k1 = k" using refusal_horizon_Inr [OF h] assms(4) by (auto simp: ns_gate_def)
  let ?f = "\<lambda>k. (framed_args ''gate_admit'' (rq_authority q) (admit_params x q) False ''gate_admit'' ''kernel'' k)\<lparr>wa_effect_columns := class_cols x\<rparr>"
  obtain r where r: "kwrite ?f k = (Inr r, k2)" using a k1 by (auto simp: admit_def admit_params_def sbind_eq_Inr sret_def)
  obtain adm where adm: "quiet k2" "krows k2 = krows k @ [adm]" "r_op adm = ''gate_admit''" "r_parameters adm = norm_json (admit_params x q)"
    using free_write [OF assms(1) r] admit_params_free [of x q] by (auto simp: framed_args_def kernel_args_def default_write_def)
  have s3: "k_store k3 = k_store k2" using materialize_warrant_frame [OF w] .
  then have "quiet k3" using adm(1) by (simp add: quiet_def)
  obtain r' where r': "kwrite (outcome_args (outcome_phase x q (outcome_params x q k3) iref wid) (class_cols x)) k3 = (Inr r', k')"
    using o assms(2) by (auto simp: outcome_def execute_legacy_def Let_def sbind_eq_Inr sthen_eq_Inr sget_eq sret_def)
  have f: "free_of_markers (outcome_params x q k3)" by (rule outcome_params_free [OF assms(5) [OF q]])
  obtain row where row: "quiet k'" "krows k' = krows k3 @ [row]" "r_op row = xa_op x" "\<not> r_failed row" "r_authority row = rq_authority q"
    "r_parameters row = norm_json (outcome_params x q k3)"
    using free_write [OF \<open>quiet k3\<close> r'] f by (auto simp: outcome_args_def outcome_phase_def framed_args_def kernel_args_def default_write_def)
  show thesis by (rule that [OF q g row(1) _ adm(3,4) row(3-6)]) (use row(2) adm(2) s3 in simp)
qed

subsection \<open>The abstract registry\<close>

datatype act = Claim | Allocate | Delegate string | Revoke | Invalidate | Supersede string | Adjudicate string

fun perform :: "act \<Rightarrow> string \<Rightarrow> string option \<Rightarrow> (kernel, unit option) prog" where
  "perform Claim name = claim name"
| "perform Allocate name = allocate name"
| "perform (Delegate d) name = delegate name d"
| "perform Revoke name = revoke name"
| "perform Invalidate name = invalidate name"
| "perform (Supersede n) name = supersede name n"
| "perform (Adjudicate w) name = adjudicate name w"

fun act_op :: "act \<Rightarrow> string" where
  "act_op Claim = OP_CLAIM" | "act_op Allocate = OP_ALLOCATE" | "act_op (Delegate d) = OP_DELEGATE" | "act_op Revoke = OP_REVOKE"
| "act_op Invalidate = OP_INVALIDATE" | "act_op (Supersede n) = OP_SUPERSEDE" | "act_op (Adjudicate w) = OP_ADJUDICATE"

fun act_extra :: "act \<Rightarrow> (string \<times> json) list" where
  "act_extra (Delegate d) = [(''delegate_authority'', JStr d)]" | "act_extra (Supersede n) = [(''new_owner'', JStr n)]"
| "act_extra (Adjudicate w) = [(''awarded_owner'', JStr w)]" | "act_extra _ = []"

fun act_gate :: "act \<Rightarrow> string \<Rightarrow> string \<Rightarrow> string option \<Rightarrow> store \<Rightarrow> (exc, bool) result" where
  "act_gate Claim gov name au = (\<lambda>_. Inr (canonicalize (JStr name) \<noteq> []))"
| "act_gate Allocate gov name au = make_allocation_gate name"
| "act_gate (Delegate d) gov name au = owner_gate name (d \<noteq> []) au"
| "act_gate (Supersede n) gov name au = owner_gate name (n \<noteq> []) au"
| "act_gate (Adjudicate w) gov name au = adjudication_gate gov name w au"
| "act_gate act gov name au = owner_gate name True au"

lemma perform_execute: "perform act name au k = execute (ns_call (act_op act) name (act_extra act) au (act_gate act (k_mosaic_root k) name au)) k"
  by (cases act) (simp_all add: claim_def allocate_def delegate_def revoke_def invalidate_def supersede_def adjudicate_def sbind_def sget_def)

definition holds :: "json \<Rightarrow> string \<Rightarrow> registry \<Rightarrow> bool" where
  "holds c a st \<longleftrightarrow> map_option t_owner (ns_owners st c) = Some (JStr a)"

fun permitted :: "act \<Rightarrow> string \<Rightarrow> json \<Rightarrow> string \<Rightarrow> registry \<Rightarrow> bool" where
  \<comment> \<open>who may do what: the Governor's identity, the name, the acting authority\<close>
  "permitted Claim gov c a st = True"
| "permitted Allocate gov c a st = (ns_owners st c = None \<and> c \<notin> ns_revoked st)"
| "permitted (Delegate d) gov c a st = (holds c a st \<and> d \<noteq> [])"
| "permitted Revoke gov c a st = holds c a st"
| "permitted Invalidate gov c a st = holds c a st"
| "permitted (Supersede n) gov c a st = (holds c a st \<and> n \<noteq> [])"
| "permitted (Adjudicate w) gov c a st = (gov \<noteq> [] \<and> a = gov \<and> w \<noteq> [] \<and> c \<notin> ns_revoked st)"

definition conveyed :: "json \<Rightarrow> string \<Rightarrow> string \<Rightarrow> nat \<Rightarrow> registry \<Rightarrow> registry" where
  "conveyed c new name i st = st\<lparr>ns_owners := (ns_owners st)(c \<mapsto> \<lparr>t_owner = JStr new, t_name = JStr name, t_index = i\<rparr>), ns_delegates := (ns_delegates st)(c := None)\<rparr>"

definition struck :: "json \<Rightarrow> registry \<Rightarrow> registry" where
  "struck c st = st\<lparr>ns_owners := (ns_owners st)(c := None), ns_revoked := insert c (ns_revoked st), ns_delegates := (ns_delegates st)(c := None)\<rparr>"

fun enacted :: "act \<Rightarrow> json \<Rightarrow> string \<Rightarrow> string \<Rightarrow> nat \<Rightarrow> registry \<Rightarrow> registry" where
  \<comment> \<open>what a permitted act does to the registry\<close>
  "enacted Claim c name a i st = st"
| "enacted Allocate c name a i st = st\<lparr>ns_owners := (ns_owners st)(c \<mapsto> \<lparr>t_owner = JStr a, t_name = JStr name, t_index = i\<rparr>)\<rparr>"
| "enacted (Delegate d) c name a i st =
     (let ds = (case ns_delegates st c of None \<Rightarrow> [] | Some ds \<Rightarrow> ds) in
      st\<lparr>ns_delegates := (ns_delegates st)(c \<mapsto> (if JStr d \<in> py_key ` set ds then ds else ds @ [JStr d]))\<rparr>)"
| "enacted Revoke c name a i st = struck c st"
| "enacted Invalidate c name a i st = struck c st"
| "enacted (Supersede n) c name a i st = conveyed c n name i st"
| "enacted (Adjudicate w) c name a i st = conveyed c w name i st"

lemma ns_row:
  assumes "\<not> r_failed r" "r_parameters r = norm_json (JObj f)" "map_of f ''canonical'' = Some (JStr c)" "c \<noteq> []"
  shows "ns_step i r st = Inr (ns_apply i r (obj_fields (norm_json (JObj f))) (JStr c) st)"
proof -
  have p: "ns_params r = Inr (obj_fields (norm_json (JObj f)))" using assms(2) by (simp add: ns_params_def)
  have "jget (obj_fields (norm_json (JObj f))) ''canonical'' = JStr c" using assms(3) jget_norm [of "JObj f" "''canonical''"] by (simp add: jget_def)
  then have "ns_canon (obj_fields (norm_json (JObj f))) = JStr c" using assms(4) by (simp add: ns_canon_def truth_def)
  then show ?thesis using assms(1,4) p by (simp add: ns_step_def rbind_def truth_def)
qed

lemma ns_admission: "r_parameters r = norm_json (admit_params x q) \<Longrightarrow> ns_step i r st = Inr st"
proof -
  assume p: "r_parameters r = norm_json (admit_params x q)"
  obtain kvs where o: "admit_params x q = JObj kvs" by (simp add: admit_params_def)
  then have m: "map_of kvs ''canonical'' = None" "map_of kvs ''name'' = None" by (auto simp: admit_params_def split: option.splits)
  have "ns_params r = Inr (obj_fields (norm_json (JObj kvs)))" using p o by (simp add: ns_params_def)
  moreover have "ns_canon (obj_fields (norm_json (JObj kvs))) = JStr []"
    using m by (simp add: ns_canon_def jget_def get_or_def map_of_norm truth_def canonicalize_def strip_def del: norm_json.simps)
  ultimately show ?thesis by (simp add: ns_step_def rbind_def truth_def)
qed

lemma ns_executed:
  assumes "quiet k" "execute (ns_call opn name extra au g) k = (Inr y, k')" "ns_project (k_store k) = Inr st"
    "set (map fst extra) \<inter> (set EFFECT_MARKER_KEYS \<union> set RECONCILIATION_KEYS \<union> {''name'', ''canonical'', ''op_csil''}) = {}" "expand opn = opn"
  obtains row f where "g (k_store k) = Inr True" "r_op row = opn" "r_authority row = acting au k" "map_of f ''name'' = Some (JStr name)"
    "\<And>key v. map_of extra key = Some v \<Longrightarrow> map_of f key = Some v"
    "canonicalize (JStr name) \<noteq> [] \<Longrightarrow> ns_project (k_store k') =
       Inr (ns_apply (Suc (length (all_receipts (k_store k)))) row (obj_fields (norm_json (JObj f))) (name_key name) st)"
proof -
  let ?x = "ns_call opn name extra au g"
  have free: "free_of_markers (rq_parameters q)" if "preflight k ?x = Inr q" for q
    using that [unfolded ns_preflight] assms(4)
    by (auto simp: free_of_markers_def ns_request_def EFFECT_MARKER_KEYS_def EFFECT_MARKER_MAP_def RECONCILIATION_KEYS_def split: if_splits)
  show thesis
    using assms(1) ns_call_fields(5) assms(2) ns_call_fields(4) free
  proof (rule execute_silent)
    fix q k2 adm row assume q: "preflight k ?x = Inr q" and g: "g (k_store k) = Inr True" and rows: "quiet k'" "krows k' = krows k @ [adm, row]"
      and adm: "r_op adm = ''gate_admit''" "r_parameters adm = norm_json (admit_params ?x q)" and
      row: "r_op row = xa_op ?x" "\<not> r_failed row" "r_authority row = rq_authority q" "r_parameters row = norm_json (outcome_params ?x q k2)"
    have qq: "q = ns_request name extra (acting au k)" using q [unfolded ns_preflight] by (simp split: if_splits)
    let ?base = "[(''name'', JStr name), (''canonical'', JStr (canonicalize (JStr name)))] @ extra"
    obtain f where f: "outcome_params ?x q k2 = JObj f" "\<And>key. key \<noteq> ''op_csil'' \<Longrightarrow> map_of f key = map_of ?base key"
      by (auto simp: outcome_params_def Let_def qq ns_request_def)
    let ?r = "row_to_receipt row"
    have ar: "all_receipts (k_store k') = all_receipts (k_store k) @ [row_to_receipt adm, ?r]"
      using rows assms(1) by (simp add: all_receipts_def quiet_def quiescent_def)
    have r: "r_op ?r = opn" "\<not> r_failed ?r" "r_authority ?r = acting au k" "r_parameters ?r = norm_json (JObj f)"
      using row f(1) assms(5) by (simp_all add: row_to_receipt_def qq ns_request_def)
    have c: "map_of f ''canonical'' = Some (JStr (canonicalize (JStr name)))" by (simp add: f(2))
    have a: "ns_step i (row_to_receipt adm) st = Inr st" for i using adm(2) by (intro ns_admission) (simp add: row_to_receipt_def)
    have "ns_project (k_store k') = Inr (ns_apply (Suc (length (all_receipts (k_store k)))) ?r (obj_fields (norm_json (JObj f))) (name_key name) st)"
      if "canonicalize (JStr name) \<noteq> []"
      using project_extends [OF ar assms(3)] ns_row [OF r(2,4) c that] a by (simp add: rbind_def name_key_def)
    moreover have "map_of f key = Some v" if "map_of extra key = Some v" for key v
    proof -
      have "key \<in> set (map fst extra)" using map_of_SomeD [OF that] by force
      then have "key \<notin> {''name'', ''canonical'', ''op_csil''}" using assms(4) by blast
      then show ?thesis using that by (subst f(2)) simp_all
    qed
    ultimately show thesis using that [of ?r f] g r(1,3) f(2) [of "''name''"] by simp
  qed
qed

lemma norm_lookup:
  assumes "map_of f key = Some (JStr v)"
  shows "jget (obj_fields (norm_json (JObj f))) key = JStr v" "get_or (obj_fields (norm_json (JObj f))) key d = JStr v"
  using assms by (simp_all add: jget_def get_or_def map_of_norm del: norm_json.simps)

lemma act_op_expand: "expand (act_op act) = act_op act"
  by (cases act) (simp_all add: expand_def py_int_def strip_def py_space_def is_digit_def Let_def ns_op_defs)

lemma act_extra_free: "set (map fst (act_extra act)) \<inter> (set EFFECT_MARKER_KEYS \<union> set RECONCILIATION_KEYS \<union> {''name'', ''canonical'', ''op_csil''}) = {}"
  by (cases act) (simp_all add: EFFECT_MARKER_KEYS_def EFFECT_MARKER_MAP_def RECONCILIATION_KEYS_def)

lemma gate_permits:
  assumes "ns_project s = Inr st"
  shows "act_gate act gov name (Some a) s = Inr (canonicalize (JStr name) \<noteq> [] \<and> permitted act gov (name_key name) a st)"
  using assms by (cases act) (auto simp: make_allocation_gate_def adjudication_gate_def owner_gate_def owner_of_def project_owners_def rbind_def holds_def)

lemma permitted_enacts:
  assumes "permitted act gov c a st" "r_op r = act_op act" "r_authority r = a" "get_or p ''name'' (JStr []) = JStr name"
    "\<And>key v. map_of (act_extra act) key = Some v \<Longrightarrow> jget p key = v"
  shows "ns_apply i r p c st = enacted act c name a i st"
proof -
  have o: "owned_by st c r" if "holds c a st" using that assms(3) by (auto simp: holds_def owned_by_def)
  show ?thesis
    using assms(1,2,4,5) o by (cases act) (simp_all add: ns_apply_def Let_def truth_def struck_def conveyed_def assms(3), simp add: ns_op_defs)
qed

lemma perform_realises:
  assumes "quiet k" "ns_project (k_store k) = Inr st" "perform act name (Some a) k = (Inr y, k')"
  shows "canonicalize (JStr name) \<noteq> [] \<and> permitted act (k_mosaic_root k) (name_key name) a st \<and>
    ns_project (k_store k') = Inr (enacted act (name_key name) name a (Suc (length (all_receipts (k_store k)))) st)"
  using assms(1) assms(3) [unfolded perform_execute] assms(2) act_extra_free act_op_expand
proof (rule ns_executed)
  fix row f assume g: "act_gate act (k_mosaic_root k) name (Some a) (k_store k) = Inr True" and row: "r_op row = act_op act" "r_authority row = acting (Some a) k"
    and f: "map_of f ''name'' = Some (JStr name)" "\<And>key v. map_of (act_extra act) key = Some v \<Longrightarrow> map_of f key = Some v"
    and p: "canonicalize (JStr name) \<noteq> [] \<Longrightarrow> ns_project (k_store k') =
       Inr (ns_apply (Suc (length (all_receipts (k_store k)))) row (obj_fields (norm_json (JObj f))) (name_key name) st)"
  have ok: "canonicalize (JStr name) \<noteq> [] \<and> permitted act (k_mosaic_root k) (name_key name) a st" using g gate_permits [OF assms(2)] by simp
  have "jget (obj_fields (norm_json (JObj f))) key = v" if e: "map_of (act_extra act) key = Some v" for key v
  proof -
    obtain t where t: "v = JStr t" using e by (cases act) (auto split: if_splits)
    then show ?thesis using norm_lookup(1) [OF f(2) [OF e [unfolded t]]] by simp
  qed
  then have "ns_apply i row (obj_fields (norm_json (JObj f))) (name_key name) st = enacted act (name_key name) name a i st" for i
    using permitted_enacts [OF conjunct2 [OF ok] row(1) row(2) [unfolded acting_def option.case] norm_lookup(2) [OF f(1)]] by blast
  then show ?thesis using ok p by simp
qed

lemmas perform_enacts = perform_realises [THEN conjunct2, THEN conjunct2]


text \<open>default authority powerless. An ownership operation that leaves the authority to the kernel's default: delegation, removal and transfer
  are then admitted only for a name that nobody owns, and change nothing; the default authority can never dispose of a name it owns, although
  an allocation under it makes it the owner.\<close>

theorem default_authority_powerless:
  assumes "quiet k" "ns_project (k_store k) = Inr st" "perform act name None k = (Inr y, k')" "act_op act \<in> {OP_DELEGATE, OP_REVOKE, OP_INVALIDATE, OP_SUPERSEDE}"
  shows "ns_owners st (name_key name) = None \<and> ns_project (k_store k') = Inr st"
  using assms(1) assms(3) [unfolded perform_execute] assms(2) act_extra_free act_op_expand
proof (rule ns_executed)
  fix row f assume g: "act_gate act (k_mosaic_root k) name None (k_store k) = Inr True" and row: "r_op row = act_op act"
    and p: "canonicalize (JStr name) \<noteq> [] \<Longrightarrow> ns_project (k_store k') =
       Inr (ns_apply (Suc (length (all_receipts (k_store k)))) row (obj_fields (norm_json (JObj f))) (name_key name) st)"
  have c: "canonicalize (JStr name) \<noteq> []" and o: "ns_owners st (name_key name) = None"
    using g assms(2,4) by (cases act; auto simp: owner_gate_def owner_of_def project_owners_def rbind_def ns_op_defs split: if_splits)+
  then have "\<not> owned_by st (name_key name) row" by (simp add: owned_by_def)
  then have "ns_apply i row q (name_key name) st = st" for i q
    using assms(4) row by (cases rule: ns_apply_cases [of i row q "name_key name" st]) (auto simp: ns_op_defs)
  then show ?thesis using p c o by simp
qed

subsection \<open>Permitted acts succeed\<close>

lemma execute_live:
  assumes "plain_call x q iref k" "xa_effect x = None"
  obtains s where "execute x k = (Inr None, k\<lparr>k_store := s\<rparr>)" "quiet (k\<lparr>k_store := s\<rparr>)" "writable (k\<lparr>k_store := s\<rparr>)"
proof (rule admit_plain [OF assms(1)])
  fix r0 s adm
  let ?k = "k\<lparr>k_store := s\<rparr>"
  assume a: "quiet ?k" "writable ?k" "execute x k = outcome x q iref (r_h_r adm) [] ?k"
  let ?p = "outcome_phase x q (outcome_params x q ?k) iref []"
  let ?f = "outcome_args ?p (class_cols x)"
  have "sound_cols (class_cols x)"
    by (auto simp: class_cols_def sound_cols_def no_effect_def EFFECT_ATOMICITY_DOMAIN_def atomicity_value_def EXTERNAL_REVERSIBLE_def
        EXTERNAL_IRREVERSIBLE_def split: option.splits effect_atomicity.splits)
  moreover have "free_of_markers (ph_params ?p)" using outcome_params_free [of q x ?k] assms(1) by (simp add: outcome_phase_def plain_call_def)
  ultimately have f: "sound_args (?f ?k)" "\<not> wa_compress (?f ?k)"
    using outcome_args_sound by (auto simp: outcome_args_def framed_args_def kernel_args_def default_write_def)
  obtain r t where "kwrite ?f ?k = (Inr r, ?k\<lparr>k_store := t\<rparr>)" "quiet (?k\<lparr>k_store := t\<rparr>)" "writable (?k\<lparr>k_store := t\<rparr>)"
    using kwrite_sound [OF a(1,2), of ?f, OF f] by blast
  then show thesis using a(3) assms(2) that [of t]
    by (simp add: outcome_def execute_legacy_def sbind_def sthen_def sget_def sret_def Let_def)
qed

definition plainly :: "kernel \<Rightarrow> bool" where
  \<comment> \<open>the founded kernel over some store\<close>
  "plainly k \<longleftrightarrow> quiet k \<and> writable k \<and> (\<exists>s. k = (founded [])\<lparr>k_store := s\<rparr>)"

lemma plainly_founded: "plainly (founded [])"
  unfolding plainly_def by (intro conjI exI [of _ "k_store (founded [])"]) simp_all

lemma plain_act:
  assumes "plainly k" "au \<noteq> Some []" "act_gate act (k_mosaic_root k) name au (k_store k) = Inr True"
  obtains k' where "perform act name au k = (Inr None, k')" "plainly k'"
proof -
  let ?x = "ns_call (act_op act) name (act_extra act) au (act_gate act (k_mosaic_root k) name au)" and ?q = "ns_request name (act_extra act) (acting au k)"
  obtain s0 where k: "k = (founded [])\<lparr>k_store := s0\<rparr>" "quiet k" "writable k" using assms(1) by (auto simp: plainly_def)
  have nf: "\<not> has_float (rq_parameters ?q)" by (cases act) (simp_all add: ns_request_def)
  then have pre: "preflight k ?x = Inr ?q" using assms(2) by (simp add: ns_preflight)
  have free: "free_of_markers (rq_parameters ?q)"
    using act_extra_free [of act] by (auto simp: free_of_markers_def ns_request_def EFFECT_MARKER_KEYS_def EFFECT_MARKER_MAP_def RECONCILIATION_KEYS_def)
  have j: "jurisdiction_check ?x ?q k = (Inr (), k)"
    by (cases act) (simp_all add: jurisdiction_check_def governor_check_def posture_check_def model_of_def kernel_op_def universal_op_def k founded_def
        KERNEL_OPS_def UNIVERSAL_OPS_def GOVERNANCE_OPS_def APPLICATION_OPS_def sbind_def sthen_def sget_def sret_def ns_op_defs)
  have g: "gate_check ?x ?q k = (Inr (), k)" using assms(3) by (simp add: gate_check_def ns_gate_def sbind_def scatch_def sret_def)
  have c: "capability_check ?x ?q k = (Inr (), k)" "locality_check ?x ?q k = (Inr (), k)" "will_check ?x k = (Inr [], k)"
    by (simp_all add: capability_check_def locality_check_def will_check_def k founded_def find_enforced_entry_def ns_call_def sbind_def sget_def sret_def)
  have "refusal_horizon ?x ?q k = (Inr [], k)" using j g c by (simp add: refusal_horizon_def sthen_def sbind_def)
  then have "plain_call ?x ?q [] k" using k(2,3) pre free by (simp add: plain_call_def) (simp add: ns_request_def)
  then obtain s where "execute ?x k = (Inr None, k\<lparr>k_store := s\<rparr>)" "quiet (k\<lparr>k_store := s\<rparr>)" "writable (k\<lparr>k_store := s\<rparr>)"
    using execute_live [of ?x ?q "[]" k] by auto
  then show thesis using that k(1) by (auto simp: perform_execute plainly_def)
qed

lemma act_live:
  assumes "plainly k" "ns_project (k_store k) = Inr st" "canonicalize (JStr name) \<noteq> []" "permitted act (k_mosaic_root k) (name_key name) a st" "a \<noteq> []"
  obtains k' where "perform act name (Some a) k = (Inr None, k')" "plainly k'"
    "ns_project (k_store k') = Inr (enacted act (name_key name) name a (Suc (length (all_receipts (k_store k)))) st)"
proof -
  have "act_gate act (k_mosaic_root k) name (Some a) (k_store k) = Inr True" using gate_permits [OF assms(2)] assms(3,4) by simp
  then obtain k' where run: "perform act name (Some a) k = (Inr None, k')" "plainly k'" using plain_act [OF assms(1), of "Some a"] assms(5) by auto
  have q: "quiet k" using assms(1) by (simp add: plainly_def)
  show thesis by (rule that [OF run]) (rule perform_enacts [OF q assms(2) run(1)])
qed

lemma perform_grows:
  assumes "quiet k" "perform act name au k = (Inr y, k')"
  obtains later where "all_receipts (k_store k') = all_receipts (k_store k) @ later"
proof -
  let ?x = "ns_call (act_op act) name (act_extra act) au (act_gate act (k_mosaic_root k) name au)"
  have free: "free_of_markers (rq_parameters q)" if "preflight k ?x = Inr q" for q
    using that [unfolded ns_preflight] act_extra_free [of act]
    by (auto simp: free_of_markers_def ns_request_def EFFECT_MARKER_KEYS_def EFFECT_MARKER_MAP_def RECONCILIATION_KEYS_def split: if_splits)
  show thesis
    using assms(1) ns_call_fields(5) assms(2) [unfolded perform_execute] ns_call_fields(4) free
  proof (rule execute_silent)
    fix adm row assume "quiet k'" "krows k' = krows k @ [adm, row]"
    then show thesis using that assms(1) by (simp add: all_receipts_def quiet_def quiescent_def)
  qed
qed

lemma acme: "canonicalize (JStr ''Acme'') = ''acme''"
  by code_simp

lemma allocated_example:
  obtains k t st where "plainly k" "ns_project (k_store k) = Inr st" "ns_owners st (JStr ''acme'') = Some t" "t_owner t = JStr ''alice''"
proof -
  have e: "ns_project (k_store (founded [])) = Inr empty_registry" by (simp add: ns_project_def all_receipts_def fresh_store_ok(6))
  have "permitted Allocate (k_mosaic_root (founded [])) (name_key ''Acme'') ''alice'' empty_registry" by (simp add: empty_registry_def)
  then obtain k where "plainly k" "ns_project (k_store k) =
      Inr (enacted Allocate (name_key ''Acme'') ''Acme'' ''alice'' (Suc (length (all_receipts (k_store (founded []))))) empty_registry)"
    using act_live [OF plainly_founded e, of "''Acme''" Allocate "''alice''"] by (auto simp: acme)
  then show thesis using that by (simp add: name_key_def acme)
qed

theorem title_moves_witness:
  "\<exists>s s' st st' t later r. ns_project s = Inr st \<and> ns_owners st (JStr ''acme'') = Some t \<and> t_owner t = JStr ''alice'' \<and>
     all_receipts s' = all_receipts s @ later \<and> ns_project s' = Inr st' \<and> r \<in> set later \<and> names (JStr ''acme'') r"
proof (rule allocated_example)
  fix k t st assume k: "plainly k" "ns_project (k_store k) = Inr st" "ns_owners st (JStr ''acme'') = Some t" "t_owner t = JStr ''alice''"
  then have q: "quiet k" by (simp add: plainly_def)
  have "permitted (Supersede ''bob'') (k_mosaic_root k) (name_key ''Acme'') ''alice'' st" using k by (simp add: holds_def name_key_def acme)
  then obtain k' where k': "perform (Supersede ''bob'') ''Acme'' (Some ''alice'') k = (Inr None, k')" "ns_project (k_store k') =
      Inr (enacted (Supersede ''bob'') (name_key ''Acme'') ''Acme'' ''alice'' (Suc (length (all_receipts (k_store k)))) st)"
    using act_live [OF k(1,2), of "''Acme''" "Supersede ''bob''" "''alice''"] by (auto simp: acme)
  obtain later where g: "all_receipts (k_store k') = all_receipts (k_store k) @ later" using perform_grows [OF q k'(1)] by blast
  have "ns_owners (enacted (Supersede ''bob'') (name_key ''Acme'') ''Acme'' ''alice'' (Suc (length (all_receipts (k_store k)))) st) (JStr ''acme'') \<noteq> Some t"
    using k(4) by (auto simp: conveyed_def name_key_def acme)
  from title_moves [OF k(2,3) g k'(2) this] show ?thesis using k g k'(2) by blast
qed

theorem removal_permanent_witness:
  "\<exists>s s' st st' later. ns_project s = Inr st \<and> JStr ''acme'' \<in> ns_revoked st \<and> all_receipts s' = all_receipts s @ later \<and> ns_project s' = Inr st' \<and>
     JStr ''acme'' \<in> ns_revoked st' \<and> make_allocation_gate ''Acme'' s' = Inr False"
proof (rule allocated_example)
  fix k t st assume k: "plainly k" "ns_project (k_store k) = Inr st" "ns_owners st (JStr ''acme'') = Some t" "t_owner t = JStr ''alice''"
  have "permitted Revoke (k_mosaic_root k) (name_key ''Acme'') ''alice'' st" using k by (simp add: holds_def name_key_def acme)
  then obtain k1 where k1: "plainly k1" "ns_project (k_store k1) = Inr (struck (JStr ''acme'') st)"
    using act_live [OF k(1,2), of "''Acme''" Revoke "''alice''"] by (auto simp: acme name_key_def)
  obtain k2 where k2: "perform Claim ''Acme'' (Some ''bob'') k1 = (Inr None, k2)" "ns_project (k_store k2) = Inr (struck (JStr ''acme'') st)"
    using act_live [OF k1, of "''Acme''" Claim "''bob''"] by (auto simp: acme)
  obtain later where g: "all_receipts (k_store k2) = all_receipts (k_store k1) @ later"
    using perform_grows [of k1 Claim "''Acme''" "Some ''bob''" None k2] k1(1) k2(1) by (auto simp: plainly_def)
  have "JStr ''acme'' \<in> ns_revoked (struck (JStr ''acme'') st)" by (simp add: struck_def)
  with removal_permanent [OF k1(2) this g k2(2)] have "make_allocation_gate ''Acme'' (k_store k2) = Inr False" by (simp add: name_key_def acme)
  with \<open>JStr ''acme'' \<in> _\<close> show ?thesis using k1(2) k2(2) g by blast
qed


theorem default_authority_powerless_witness:
  "\<exists>k k' st. quiet k \<and> perform Revoke ''Acme'' None k = (Inr None, k') \<and> ns_owners st (JStr ''acme'') = None \<and> ns_project (k_store k') = Inr st"
proof -
  have e: "ns_project (k_store (founded [])) = Inr empty_registry" by (simp add: ns_project_def all_receipts_def fresh_store_ok(6))
  have "act_gate Revoke (k_mosaic_root (founded [])) ''Acme'' None (k_store (founded [])) = Inr True"
    using e by (simp add: owner_gate_def owner_of_def project_owners_def rbind_def acme name_key_def empty_registry_def)
  then obtain k' where k': "perform Revoke ''Acme'' None (founded []) = (Inr None, k')" using plain_act [OF plainly_founded, of None Revoke] by blast
  from default_authority_powerless [OF founded_ok(1) e k'] have "ns_owners empty_registry (JStr ''acme'') = None \<and> ns_project (k_store k') = Inr empty_registry"
    by (simp add: name_key_def acme)
  then show ?thesis using founded_ok(1) [of "[]"] k' by blast
qed

end
