(* ===== verification/Sessions.thy ===== *)
theory Sessions
  imports Outcomes
begin

text \<open>
  Founding and sessions (\<^verbatim>\<open>ugk/kernel.py\<close>): the ceremony, activation of constitutional finality, read-only
  hydration, opening and closing a session, the setters and the snapshots.

  The genesis directory and what the process reads beside it are the record \<open>genesis\<close> of the kernel: its files are
  held parsed, so a file that does not parse is outside the model. \<open>classified_remainders\<close> and the constant
  \<open>crypto_profile\<close> of the snapshots are left out.

  Main results: an activation has a real Governor key and a seal that verifies wherever one was required, and leaves
  the sealed legend in the chain; the summary of a closed session agrees with the stores.
\<close>

subsection \<open>Configuration\<close>

definition set_warrant_store :: "warrant_db conn option \<Rightarrow> (kernel, unit) prog" where
  "set_warrant_store c = smodify (\<lambda>k. k\<lparr>k_warrants := c\<rparr>)"

definition register_op_csil :: "string \<Rightarrow> int \<Rightarrow> (kernel, unit) prog" where
  "register_op_csil opn cid =
     sbind (sget k_op_csil) (\<lambda>reg.
     sthen (sguard (\<not> (cid \<in> csil_id ` set LEGEND_ENTRIES \<and> map_of reg opn \<noteq> Some cid)) (PyExc ValueError)) (
     sthen (sguard (\<not> (\<exists>c. map_of reg opn = Some c \<and> c \<noteq> cid)) (PyExc ValueError))
       (smodify (\<lambda>k. k\<lparr>k_op_csil := dict_set opn cid reg\<rparr>))))"

definition set_will_store :: "intent_db conn option \<Rightarrow> bool \<Rightarrow> bool \<Rightarrow> (kernel, unit) prog" where
  "set_will_store c required scoped =
     smodify (\<lambda>k. k\<lparr>k_will := c, k_require_intent := required, k_require_scoped_intent := scoped\<rparr>)"

definition set_authority_model :: "authority_model \<Rightarrow> (kernel, unit) prog" where
  "set_authority_model m = sthen (smodify (\<lambda>k. k\<lparr>k_model := Some m\<rparr>)) (kstore (seal_authority_model m))"

subsection \<open>Finality at founding\<close>

definition CEREMONY_TS :: string where
  "CEREMONY_TS = ''2026-06-09T08:30:00Z''"

definition load_validator_set :: "string \<Rightarrow> string \<Rightarrow> (kernel, validator_set) prog" where
  \<comment> \<open>from the genesis directory, else sealed now and written there\<close>
  "load_validator_set priv pub =
     sbind (sget id) (\<lambda>k.
     sbind (case gn_validator_set (k_genesis k) of
         Some v \<Rightarrow> sret v
       | None \<Rightarrow>
           sbind (slift (seal_validator_set priv pub [k_mosaic_root k])) (\<lambda>v.
           sthen (smodify (\<lambda>k. k\<lparr>k_genesis := (k_genesis k)\<lparr>gn_validator_set := Some v\<rparr>\<rparr>)) (sret v))) (\<lambda>v.
     sthen (smodify (\<lambda>k. k\<lparr>k_validator_set := Some v\<rparr>)) (sret v)))"

definition load_launch_ic :: "string \<Rightarrow> string \<Rightarrow> validator_set \<Rightarrow> (kernel, certificate) prog" where
  "load_launch_ic priv pub v =
     sbind (sget id) (\<lambda>k.
     sbind (case gn_launch_ic (k_genesis k) of
         Some c \<Rightarrow> sret c
       | None \<Rightarrow>
           sbind (slift (create_launch_ic priv pub
             \<lparr>la_constitutional_hash = k_law_hash k, la_dimension_id = k_dimension_id k, la_phase_code = k_phase_code k,
              la_validator_set_hash = vs_sealed_hash v, la_n_validators = 1, la_timestamp = CEREMONY_TS\<rparr>)) (\<lambda>c.
           sthen (smodify (\<lambda>k. k\<lparr>k_genesis := (k_genesis k)\<lparr>gn_launch_ic := Some c\<rparr>\<rparr>)) (sret c))) (\<lambda>c.
     sthen (smodify (\<lambda>k. k\<lparr>k_launch_ic := Some c\<rparr>)) (sret c)))"

definition activate_csh :: "bool \<Rightarrow> (kernel, unit) prog" where
  "activate_csh read_only =
     sbind (sget id) (\<lambda>k.
     case (gn_privkey (k_genesis k), gn_pubkey (k_genesis k)) of
       (Some priv, Some pub) \<Rightarrow>
         if read_only \<and> (gn_validator_set (k_genesis k) = None \<or> gn_launch_ic (k_genesis k) = None)
         then smodify (\<lambda>k. k\<lparr>k_quorum_achieved := False\<rparr>)
         else
           sbind (load_validator_set (strip priv) (strip pub)) (\<lambda>v.
           sbind (load_launch_ic (strip priv) (strip pub) v) (\<lambda>c.
           sbind (slift (create_attestation (strip priv) (strip pub) (k_law_hash k) (k_phase_code k) 0 CEREMONY_TS)) (\<lambda>a.
           let m = achieve_finality [a] v (k_law_hash k) in
           smodify (\<lambda>k. k\<lparr>k_quorum_achieved := mc_quorum_achieved m, k_finality_hash := mc_finality_hash m,
             k_rotation_rule := Some (declare_rotation_rule (k_mosaic_root k) [k_mosaic_root k] (ic_hash c) CEREMONY_TS)\<rparr>))))
     | _ \<Rightarrow> smodify (\<lambda>k. k\<lparr>k_quorum_achieved := False\<rparr>))"

subsection \<open>The ceremony\<close>

definition seal_check :: "json option \<Rightarrow> string option \<Rightarrow> kernel \<Rightarrow> bool" where
  \<comment> \<open>whether the ceremony may go on: the seal that is validated, if any, verifies\<close>
  "seal_check seal sig k =
     (case (seal, sig) of
        (None, None) \<Rightarrow> (case gn_seal (k_genesis k) of
            None \<Rightarrow> True | Some d \<Rightarrow> validate_genesis_seal (k_phase_code k) d (k_pubkey k))
      | (Some body, Some x) \<Rightarrow> validate_genesis_seal (k_phase_code k) (JObj [(''seal'', body), (''signature'', JStr x)]) (k_pubkey k)
      | _ \<Rightarrow> True)"

definition frame_identity :: "(kernel, unit) prog" where
  \<comment> \<open>law, mosaic root, dimension, manifest and legend hashes\<close>
  "frame_identity =
     sthen (smodify (\<lambda>k. k\<lparr>k_law_hash := to_hex (sha256 (gn_law_text (k_genesis k)))\<rparr>)) (
     sbind (sget id) (\<lambda>k.
     sbind (slift (mosaic_id (k_pubkey k) ''sha256'')) (\<lambda>root.
     sthen (smodify (\<lambda>k. k\<lparr>k_mosaic_root := root\<rparr>)) (
     sbind (slift (canonical_dkn (k_phase_code k) (k_pubkey k) ''sha256'')) (\<lambda>dim.
     smodify (\<lambda>k. k\<lparr>k_dimension_id := dim, k_manifest_hash := gn_manifest_hash (k_genesis k), k_legend_hash := LEGEND_HASH\<rparr>))))))"

definition sealed_legend :: "kernel \<Rightarrow> legend_row" where
  "sealed_legend k = \<lparr>lr_legend_hash = LEGEND_HASH, lr_entries = norm_json (JList (map legend_entry_json (sort_key csil_id LEGEND_ENTRIES))),
     lr_phase_code = k_phase_code k, lr_entry_count = int (length LEGEND_ENTRIES), lr_sealed_at = k_now k\<rparr>"

definition legend_seal_args :: "kernel \<Rightarrow> write_args" where
  "legend_seal_args k = framed_args ''legend_seal'' (k_authority k)
     (JObj [(''legend_hash'', JStr (k_legend_hash k)), (''entry_count'', JInt (int (length LEGEND_ENTRIES))),
            (''phase_code'', JStr (k_phase_code k))]) False ''legend_seal'' ''kernel'' k"

definition ceremony :: "json option \<Rightarrow> string option \<Rightarrow> (kernel, unit) prog" where
  "ceremony seal sig =
     sbind (sget id) (\<lambda>k.
     sthen (sguard (\<not> unset_key (k_pubkey k)) (GovernanceNotFounded ''ceremony[governor-key-unset-sentinel]'')) (
     sthen (sguard (seal_check seal sig k) (PyExc ValueError)) (
     sthen frame_identity (
     sbind (sget sealed_legend) (\<lambda>row.
     sthen (kstore (seal_legend row)) (
     sthen (kwrite legend_seal_args) (
     sthen (activate_csh False)
       (smodify (\<lambda>k. k\<lparr>k_active := True\<rparr>)))))))))"

definition hydrate_readonly :: "(kernel, unit) prog" where
  "hydrate_readonly =
     sbind (sget k_pubkey) (\<lambda>pub.
     sthen (sguard (\<not> unset_key pub) (GovernanceNotFounded ''hydrate_readonly[governor-key-unset-sentinel]'')) (
     sthen frame_identity (
     sthen (activate_csh True)
       (smodify (\<lambda>k. k\<lparr>k_active := True\<rparr>)))))"

subsection \<open>Sessions\<close>

definition session_open_args :: "session_identity \<Rightarrow> kernel \<Rightarrow> write_args" where
  "session_open_args i k = framed_args ''session_open'' (k_authority k)
     (JObj [(''session_id'', JStr (si_session_id i)), (''session_dkn'', JStr (si_session_dkn i)), (''phase_code'', JStr (si_phase_code i)),
            (''authority_model_hash'', JStr (case k_model k of None \<Rightarrow> [] | Some m \<Rightarrow> am_model_hash m)),
            (''manifest_hash'', JStr (k_manifest_hash k))]) False ''session_open'' ''kernel'' k"

definition session_scope :: "kernel \<Rightarrow> provenance_scope" where
  "session_scope k = scope_create (k_now k)
     \<lparr>ps_scope_id = [], ps_scope_type = ''session'', ps_authority_surface = k_mosaic_root k, ps_session_dkn = k_session_dkn k,
      ps_law_hash = k_law_hash k, ps_legend_hash = k_legend_hash k,
      ps_prior_scope_id = latest_scope_id (k_store k) (k_mosaic_root k), ps_timestamp = []\<rparr>"

definition open_session :: "string \<Rightarrow> string option \<Rightarrow> (kernel, string) prog" where
  \<comment> \<open>\<open>fresh\<close>: the text of the UUID that \<^verbatim>\<open>uuid.uuid4()\<close> would return\<close>
  "open_session fresh session_id =
     sbind (sget id) (\<lambda>k.
     sbind (slift (spawn_session_identity (k_pubkey k) (k_phase_code k) session_id ''sha256'' fresh)) (\<lambda>i.
     sthen (smodify (\<lambda>k. k\<lparr>k_session := Some i, k_session_dkn := si_session_dkn i,
        k_session_open_count := receipt_count (k_store k)\<rparr>)) (
     sthen (kwrite (session_open_args i)) (
     sthen (smodify (\<lambda>k. k\<lparr>k_scope_id := []\<rparr>)) (
     sbind (sget session_scope) (\<lambda>p.
     sthen (kstore (seal_scope p)) (
     sthen (smodify (\<lambda>k. k\<lparr>k_scope_id := ps_scope_id p\<rparr>)) (sret (si_session_id i)))))))))"

definition session_close_args :: "kernel \<Rightarrow> write_args" where
  "session_close_args k = framed_args ''session_close'' (k_authority k)
     (JObj [(''session_id'', case k_session k of None \<Rightarrow> JNull | Some i \<Rightarrow> JStr (si_session_id i))]) False ''session_close'' ''kernel'' k"

definition warrant_total :: "kernel \<Rightarrow> nat" where
  "warrant_total k = (case k_warrants k of None \<Rightarrow> 0 | Some c \<Rightarrow> warrant_count c)"

definition close_session :: "(kernel, unit) prog" where
  "close_session =
     sbind (sget (\<lambda>k. (receipt_count (k_store k) + 1, refusal_count (k_store k), warrant_total k))) (\<lambda>(receipts, refusals, warrants).
     sthen (kwrite session_close_args) (
     smodify (\<lambda>k. k\<lparr>k_last_summary := Some (summary_create (k_now k)
       \<lparr>sm_hash = [], sm_session_dkn = k_session_dkn k, sm_receipt_count = receipt_count (k_store k), sm_warrant_count = warrants,
        sm_refusal_count = refusals, sm_admitted_count = int receipts - int refusals, sm_final_stream_hash = stream_hash (k_store k),
        sm_law_hash = k_law_hash k, sm_legend_hash = k_legend_hash k, sm_phase_code = k_phase_code k, sm_timestamp = []\<rparr>)\<rparr>)))"

subsection \<open>Snapshots\<close>

record snapshot =
  sn_session_id :: "string option"
  sn_session_dkn :: string
  sn_active :: bool
  sn_law_hash :: string
  sn_schema_hash :: string
  sn_schema_frame_intact :: bool
  sn_receipt_count :: nat
  sn_refusal_count :: nat
  sn_admitted :: nat
  sn_stream_hash :: string
  sn_hash_verified :: "bool option"
  sn_refusal_rate_by_op :: "(json \<times> nat \<times> nat) list"
  sn_session_delta :: int
  sn_refused_by_layer :: "(string \<times> nat) list"
  sn_mosaic_root :: string
  sn_dimension_id :: string
  sn_require_governor_sig :: bool
  sn_legend_hash :: string
  sn_finality_hash :: string
  sn_quorum_achieved :: bool
  sn_launch_ic_hash :: string

definition snapshot_fast :: "kernel \<Rightarrow> snapshot" where
  "snapshot_fast k =
     \<lparr>sn_session_id = map_option si_session_id (k_session k), sn_session_dkn = k_session_dkn k, sn_active = k_active k,
      sn_law_hash = k_law_hash k, sn_schema_hash = st_schema_hash (k_store k), sn_schema_frame_intact = schema_frame_intact (k_store k),
      sn_receipt_count = receipt_count (k_store k), sn_refusal_count = refusal_count (k_store k),
      sn_admitted = length (receipts_by_op (k_store k) ''gate_admit''), sn_stream_hash = stream_hash (k_store k),
      sn_hash_verified = None, sn_refusal_rate_by_op = refusal_rate_by_op (k_store k),
      sn_session_delta = int (receipt_count (k_store k)) - int (k_session_open_count k), sn_refused_by_layer = k_refused k,
      sn_mosaic_root = k_mosaic_root k, sn_dimension_id = k_dimension_id k, sn_require_governor_sig = k_require_governor_sig k,
      sn_legend_hash = k_legend_hash k, sn_finality_hash = k_finality_hash k, sn_quorum_achieved = k_quorum_achieved k,
      sn_launch_ic_hash = (case k_launch_ic k of None \<Rightarrow> [] | Some c \<Rightarrow> ic_hash c)\<rparr>"

definition kernel_snapshot :: "kernel \<Rightarrow> snapshot" where
  "kernel_snapshot k = (snapshot_fast k)\<lparr>sn_hash_verified := Some (verify_stream_hash (k_store k) None)\<rparr>"

subsection \<open>Founding\<close>

definition framed :: "kernel \<Rightarrow> kernel" where
  \<comment> \<open>what \<open>frame_identity\<close> makes of the state\<close>
  "framed k = k\<lparr>k_law_hash := to_hex (sha256 (gn_law_text (k_genesis k))), k_mosaic_root := sha_id (k_pubkey k),
     k_dimension_id := to_hex (sha256 (utf8 (k_phase_code k) @ SEP @ utf8 (k_pubkey k))),
     k_manifest_hash := gn_manifest_hash (k_genesis k), k_legend_hash := LEGEND_HASH\<rparr>"

lemma frame_identity_eq: "frame_identity k = (Inr (), framed k)"
  by (simp add: frame_identity_def framed_def canonical_dkn_def digest_def mosaic_id_sha256 sbind_def sthen_def sget_def smodify_def)

lemma framed_store [simp]: "framed (k\<lparr>k_store := s\<rparr>) = (framed k)\<lparr>k_store := s\<rparr>" "k_store (framed k) = k_store k"
  "k_genesis (framed k) = k_genesis k" "k_active (framed k) = k_active k" "k_pubkey (framed k) = k_pubkey k" "k_phase_code (framed k) = k_phase_code k"
  "k_authority (framed k) = k_authority k" "k_legend_hash (framed k) = LEGEND_HASH"
  by (simp_all add: framed_def)

lemma genesis_same [simp]:
  "gn_validator_set g = Some v \<Longrightarrow> g\<lparr>gn_validator_set := Some v\<rparr> = g" "gn_launch_ic g = Some c \<Longrightarrow> g\<lparr>gn_launch_ic := Some c\<rparr> = g"
  "k\<lparr>k_genesis := k_genesis k\<rparr> = k" "k\<lparr>k_store := k_store k\<rparr> = k"
  by (cases g; cases k; simp)+

lemma load_validator_set_Inr:
  "load_validator_set priv pub k = (Inr v, k1) \<longleftrightarrow>
     k1 = k\<lparr>k_genesis := (k_genesis k)\<lparr>gn_validator_set := Some v\<rparr>, k_validator_set := Some v\<rparr> \<and>
     (case gn_validator_set (k_genesis k) of Some w \<Rightarrow> w = v | None \<Rightarrow> seal_validator_set priv pub [k_mosaic_root k] = Inr v)"
  by (cases "gn_validator_set (k_genesis k)") (auto simp: load_validator_set_def prog_eqs)

lemma load_launch_ic_Inr:
  "load_launch_ic priv pub v k = (Inr c, k1) \<longleftrightarrow>
     k1 = k\<lparr>k_genesis := (k_genesis k)\<lparr>gn_launch_ic := Some c\<rparr>, k_launch_ic := Some c\<rparr> \<and>
     (case gn_launch_ic (k_genesis k) of Some d \<Rightarrow> d = c | None \<Rightarrow> create_launch_ic priv pub
       \<lparr>la_constitutional_hash = k_law_hash k, la_dimension_id = k_dimension_id k, la_phase_code = k_phase_code k,
        la_validator_set_hash = vs_sealed_hash v, la_n_validators = 1, la_timestamp = CEREMONY_TS\<rparr> = Inr c)"
  by (cases "gn_launch_ic (k_genesis k)") (auto simp: load_launch_ic_def prog_eqs)

definition finish :: "attestation \<Rightarrow> validator_set \<Rightarrow> certificate \<Rightarrow> kernel \<Rightarrow> kernel" where
  \<comment> \<open>the fields that the quorum sets\<close>
  "finish a v c k = k\<lparr>k_genesis := (k_genesis k)\<lparr>gn_validator_set := Some v, gn_launch_ic := Some c\<rparr>,
     k_validator_set := Some v, k_launch_ic := Some c,
     k_quorum_achieved := mc_quorum_achieved (achieve_finality [a] v (k_law_hash k)),
     k_finality_hash := mc_finality_hash (achieve_finality [a] v (k_law_hash k)),
     k_rotation_rule := Some (declare_rotation_rule (k_mosaic_root k) [k_mosaic_root k] (ic_hash c) CEREMONY_TS)\<rparr>"

lemma activate_csh_cases:
  assumes "activate_csh b k = (Inr u, k')"
  obtains (no_keys) "k' = k\<lparr>k_quorum_achieved := False\<rparr>" "gn_privkey (k_genesis k) = None \<or> gn_pubkey (k_genesis k) = None"
  | (no_files) "k' = k\<lparr>k_quorum_achieved := False\<rparr>" "b" "gn_validator_set (k_genesis k) = None \<or> gn_launch_ic (k_genesis k) = None"
  | (attested) priv pub v c a where "gn_privkey (k_genesis k) = Some priv" "gn_pubkey (k_genesis k) = Some pub"
      "k' = finish a v c k" "create_attestation (strip priv) (strip pub) (k_law_hash k) (k_phase_code k) 0 CEREMONY_TS = Inr a"
      "gn_validator_set (k_genesis k) = Some v \<or> \<not> b \<and> gn_validator_set (k_genesis k) = None \<and>
         seal_validator_set (strip priv) (strip pub) [k_mosaic_root k] = Inr v"
proof (cases "gn_privkey (k_genesis k) = None \<or> gn_pubkey (k_genesis k) = None \<or>
    b \<and> (gn_validator_set (k_genesis k) = None \<or> gn_launch_ic (k_genesis k) = None)")
  case True
  then have "k' = k\<lparr>k_quorum_achieved := False\<rparr>"
    using assms by (cases "gn_privkey (k_genesis k)"; cases "gn_pubkey (k_genesis k)") (auto simp: activate_csh_def prog_eqs)
  with True no_keys no_files show thesis by blast
next
  case False
  then obtain priv pub where kp: "gn_privkey (k_genesis k) = Some priv" "gn_pubkey (k_genesis k) = Some pub"
    by (metis not_None_eq)
  have g: "\<not> (b \<and> (gn_validator_set (k_genesis k) = None \<or> gn_launch_ic (k_genesis k) = None))" using False by blast
  obtain v k1 c k2 a where "load_validator_set (strip priv) (strip pub) k = (Inr v, k1)" "load_launch_ic (strip priv) (strip pub) v k1 = (Inr c, k2)"
    and a: "create_attestation (strip priv) (strip pub) (k_law_hash k) (k_phase_code k) 0 CEREMONY_TS = Inr a"
    and k': "k' = k2\<lparr>k_quorum_achieved := mc_quorum_achieved (achieve_finality [a] v (k_law_hash k)),
      k_finality_hash := mc_finality_hash (achieve_finality [a] v (k_law_hash k)),
      k_rotation_rule := Some (declare_rotation_rule (k_mosaic_root k2) [k_mosaic_root k2] (ic_hash c) CEREMONY_TS)\<rparr>"
    using assms by (simp add: activate_csh_def kp g prog_eqs Let_def cong: if_cong) blast
  then have "k' = finish a v c k" and "gn_validator_set (k_genesis k) = Some v \<or> gn_validator_set (k_genesis k) = None \<and>
      seal_validator_set (strip priv) (strip pub) [k_mosaic_root k] = Inr v"
    unfolding load_validator_set_Inr load_launch_ic_Inr by (simp_all add: finish_def split: option.splits)
  with kp a g attested show thesis by blast
qed

lemma activate_again:
  assumes "activate_csh False k = (Inr u, k')"
  shows "activate_csh True (k\<lparr>k_store := s, k_genesis := k_genesis k'\<rparr>) = (Inr (), k'\<lparr>k_store := s\<rparr>)"
  using assms
proof (cases rule: activate_csh_cases)
  case no_keys
  then show ?thesis by (auto simp: activate_csh_def sbind_def sget_def smodify_def split: option.splits)
next
  case (attested priv pub v c a)
  let ?k = "k\<lparr>k_store := s, k_genesis := k_genesis k'\<rparr>"
  have "load_validator_set (strip priv) (strip pub) ?k = (Inr v, ?k\<lparr>k_validator_set := Some v\<rparr>)"
    "load_launch_ic (strip priv) (strip pub) v (?k\<lparr>k_validator_set := Some v\<rparr>) = (Inr c, ?k\<lparr>k_validator_set := Some v, k_launch_ic := Some c\<rparr>)"
    using attested by (simp_all add: load_validator_set_Inr load_launch_ic_Inr finish_def)
  then show ?thesis using attested
    by (simp add: activate_csh_def sbind_def sget_def smodify_def finish_def slift_def Let_def)
qed simp

lemma seal_swallowed: "\<exists>c. kstore (sswallow (sthen (on_conn m) (on_conn n))) k = (Inr (), k\<lparr>k_store := (k_store k)\<lparr>st_conn := c\<rparr>\<rparr>)"
  by (auto simp: kstore_def sswallow_def scatch_def sthen_def sbind_def on_conn_def sret_def split: prod.splits sum.splits)

lemma ceremony_steps:
  assumes "ceremony seal sig k = (res, k')"
  obtains (refused) e where "res = Inl e" "k' = k" "unset_key (k_pubkey k) \<or> \<not> seal_check seal sig k"
  | (unwritten) e c s where "res = Inl e" "\<not> unset_key (k_pubkey k)" "seal_check seal sig k"
      "kstore (seal_legend (sealed_legend (framed k))) (framed k) = (Inr (), (framed k)\<lparr>k_store := (k_store k)\<lparr>st_conn := c\<rparr>\<rparr>)"
      "store_write (legend_seal_args (framed k)) ((k_store k)\<lparr>st_conn := c\<rparr>) = (Inl e, s)" "k' = (framed k)\<lparr>k_store := s\<rparr>"
  | (written) c r s where "\<not> unset_key (k_pubkey k)" "seal_check seal sig k"
      "kstore (seal_legend (sealed_legend (framed k))) (framed k) = (Inr (), (framed k)\<lparr>k_store := (k_store k)\<lparr>st_conn := c\<rparr>\<rparr>)"
      "store_write (legend_seal_args (framed k)) ((k_store k)\<lparr>st_conn := c\<rparr>) = (Inr r, s)"
      "(res, k') = sthen (activate_csh False) (smodify (\<lambda>k. k\<lparr>k_active := True\<rparr>)) ((framed k)\<lparr>k_store := s\<rparr>)"
proof (cases "unset_key (k_pubkey k) \<or> \<not> seal_check seal sig k")
  case True
  then show thesis using assms refused by (auto simp: ceremony_def sbind_def sthen_def sget_def sguard_def sraise_def sret_def split: if_splits)
next
  case False
  let ?K = "\<lambda>s. (framed k)\<lparr>k_store := s\<rparr>"
  obtain c where c: "kstore (seal_legend (sealed_legend (framed k))) (framed k) = (Inr (), ?K ((k_store k)\<lparr>st_conn := c\<rparr>))"
    using seal_swallowed [of _ _ "framed k"] unfolding seal_legend_def by auto
  have a: "legend_seal_args (?K s) = legend_seal_args (framed k)" for s by (simp add: legend_seal_args_def framed_args_def kernel_args_def)
  have e: "(res, k') = sthen (kwrite legend_seal_args) (sthen (activate_csh False) (smodify (\<lambda>k. k\<lparr>k_active := True\<rparr>)))
      (?K ((k_store k)\<lparr>st_conn := c\<rparr>))"
    using assms False c by (simp add: ceremony_def sbind_def sthen_def sget_def frame_identity_eq sret_def)
  obtain r s where w: "store_write (legend_seal_args (framed k)) ((k_store k)\<lparr>st_conn := c\<rparr>) = (r, s)" by force
  then have k: "kwrite legend_seal_args (?K ((k_store k)\<lparr>st_conn := c\<rparr>)) = (r, ?K s)"
    using a by (simp add: kwrite_eq)
  show thesis
  proof (cases r)
    case (Inl x)
    then show thesis using unwritten [OF _ _ _ c] False w k e by (auto simp: sthen_Inl)
  next
    case (Inr x)
    then show thesis using written [OF _ _ c] False w k e by (auto simp: sthen_Inr)
  qed
qed

text \<open>C24. Restart. After a ceremony has returned, a process that starts from the same
  configuration, finds the genesis directory as the ceremony left it and hydrates read-only over any store, arrives
  in exactly the state the ceremony left, finality included, except that its store is the one it was given: hydration
  writes neither to the store nor to the genesis directory.\<close>

theorem hydration_restores:
  assumes "ceremony seal sig k = (Inr (), k')"
  shows "hydrate_readonly (k\<lparr>k_store := s, k_genesis := k_genesis k'\<rparr>) = (Inr (), k'\<lparr>k_store := s\<rparr>)"
  using assms
proof (cases rule: ceremony_steps)
  case (written c r t)
  from written(5) [symmetric] obtain u k1 where a: "activate_csh False ((framed k)\<lparr>k_store := t\<rparr>) = (Inr u, k1)" and k': "k' = k1\<lparr>k_active := True\<rparr>"
    by (auto simp: sthen_eq_Inr smodify_eq)
  let ?k = "k\<lparr>k_store := s, k_genesis := k_genesis k'\<rparr>"
  have "gn_law_text (k_genesis k1) = gn_law_text (k_genesis k)" "gn_manifest_hash (k_genesis k1) = gn_manifest_hash (k_genesis k)"
    using a by (cases rule: activate_csh_cases; simp add: finish_def)+
  then have "framed ?k = (framed k)\<lparr>k_store := s, k_genesis := k_genesis k1\<rparr>"
    using k' by (simp add: framed_def)
  then have "activate_csh True (framed ?k) = (Inr (), k1\<lparr>k_store := s\<rparr>)"
    using activate_again [OF a, of s] by simp
  then show ?thesis using written(1) k'
    by (simp add: hydrate_readonly_def sbind_def sget_def sthen_def frame_identity_eq smodify_def sret_def)
qed simp_all

lemma seal_legend_rows:
  assumes "kstore (seal_legend row) k = (Inr (), k\<lparr>k_store := (k_store k)\<lparr>st_conn := c\<rparr>\<rparr>)"
  shows "db_rows (cn_visible c) = db_rows (visible (k_store k))" "db_seq (cn_visible c) = db_seq (visible (k_store k))"
    "db_rows (cn_durable c) = db_rows (durable (k_store k)) \<or> db_rows (cn_durable c) = db_rows (visible (k_store k))"
    "cn_faults (st_conn (k_store k)) = [] \<Longrightarrow> cn_faults c = []"
proof -
  let ?f = "\<lambda>d. d\<lparr>db_legends := insert_or_ignore lr_legend_hash row (db_legends d)\<rparr>"
  obtain r1 c1 where d: "dml ?f (st_conn (k_store k)) = (r1, c1)" by force
  obtain r2 c2 where e: "commit c1 = (r2, c2)" by force
  have c: "c = (case r1 of Inl _ \<Rightarrow> c1 | Inr _ \<Rightarrow> c2)"
    using assms d e by (cases r1; cases r2) (auto simp: kstore_def seal_legend_def sswallow_def scatch_def sthen_def sbind_def on_conn_def sret_def
        dest: arg_cong [where f = "\<lambda>k. st_conn (k_store k)"])
  note x = dml_cases [OF d] commit_cases [OF e]
  show "db_rows (cn_visible c) = db_rows (visible (k_store k))" "db_seq (cn_visible c) = db_seq (visible (k_store k))"
    using x c by (auto simp: visible_def split: sum.splits)
  show "db_rows (cn_durable c) = db_rows (durable (k_store k)) \<or> db_rows (cn_durable c) = db_rows (visible (k_store k))"
    using x c by (auto simp: visible_def durable_def split: sum.splits if_splits)
  show "cn_faults c = []" if "cn_faults (st_conn (k_store k)) = []"
    using x c that by (auto split: sum.splits)
qed

lemma free_simple:
  \<comment> \<open>parameters whose keys are no markers\<close>
  "set (map fst kvs) \<inter> (set EFFECT_MARKER_KEYS \<union> set RECONCILIATION_KEYS) = {} \<Longrightarrow> free_of_markers (JObj kvs)"
  by (force simp: free_of_markers_def)

lemma legend_seal_free: "free_of_markers (wa_parameters (legend_seal_args k))"
  unfolding legend_seal_args_def framed_args_def kernel_args_def default_write_def
  by (simp add: free_simple EFFECT_MARKER_KEYS_def EFFECT_MARKER_MAP_def RECONCILIATION_KEYS_def)

lemma prepared_law: "prepared a s r \<Longrightarrow> r_law_hash r = wa_law_hash a \<and> r_legend_hash r = wa_legend_hash a \<and> r_failed r = wa_failed a"
  unfolding prepared_def by (elim exE conjE) (simp add: sealed_def build_receipt_def)

lemma keeps_active_csh: "keeps (\<lambda>k. k_active k = a) (activate_csh b)"
  unfolding activate_csh_def load_validator_set_def load_launch_ic_def
  by (intro keeps_intros keeps_smodify | simp split: option.split | rule conjI impI allI)+

lemma one_attestation_quorum:
  assumes "mc_quorum_achieved (achieve_finality [a] v h)"
  shows "at_mosaic_root a \<in> set (vs_validators v)" "at_verify a" "vs_n v \<le> 1"
proof -
  have t: "quorum_threshold (vs_n v) \<le> int (card (attested [a] v h))" using assms by (simp add: quorum_iff)
  have sub: "attested [a] v h \<subseteq> {at_mosaic_root a}" by (auto simp: attested_def)
  then have "card (attested [a] v h) \<le> 1" using card_mono [OF _ sub] by simp
  with t have "(2 * vs_n v + 1 + 2) div 3 \<le> 1" by (simp add: quorum_threshold_def)
  then show "vs_n v \<le> 1" by linarith
  have "attested [a] v h \<noteq> {}" using t by (auto simp: quorum_threshold_def)
  then show "at_mosaic_root a \<in> set (vs_validators v)" "at_verify a" by (auto simp: attested_def)
qed

definition legend_sealed :: "kernel \<Rightarrow> kernel \<Rightarrow> bool" where
  \<comment> \<open>exactly one durable row was added, the receipt of the sealed legend under the law of the new state\<close>
  "legend_sealed k k' \<longleftrightarrow> (\<exists>row. krows k' = krows k @ [row] \<and> r_op row = ''legend_seal'' \<and> \<not> r_failed row \<and>
     r_law_hash row = k_law_hash k' \<and> r_legend_hash row = LEGEND_HASH \<and> r_parameters row = norm_json (wa_parameters (legend_seal_args k')))"

lemma legend_write_durable:
  assumes "quiet k" "kstore (seal_legend row) k = (Inr (), k\<lparr>k_store := (k_store k)\<lparr>st_conn := c\<rparr>\<rparr>)"
    "store_write (legend_seal_args k) ((k_store k)\<lparr>st_conn := c\<rparr>) = (Inr r, s)" "k_legend_hash k = LEGEND_HASH"
  shows "legend_sealed k (k\<lparr>k_store := s\<rparr>)"
  using assms(3)
proof (rule store_write_Inr)
  let ?a = "legend_seal_args k"
  fix q assume q: "prepared ?a ((k_store k)\<lparr>st_conn := c\<rparr>) q" and v: "visible s = insert_row (stored_row ?a q) (visible ((k_store k)\<lparr>st_conn := c\<rparr>))"
    and d: "st_txn_depth ((k_store k)\<lparr>st_conn := c\<rparr>) = 0 \<Longrightarrow> durable s = visible s \<and> \<not> in_transaction (st_conn s)"
  have k: "st_txn_depth (k_store k) = 0" "visible (k_store k) = durable (k_store k)" using assms(1) by (auto simp: quiet_def quiescent_def)
  have a: "wa_op ?a = ''legend_seal''" "\<not> wa_failed ?a" "wa_law_hash ?a = k_law_hash k" "wa_legend_hash ?a = LEGEND_HASH" "\<not> wa_compress ?a"
    using assms(4) by (simp_all add: legend_seal_args_def framed_args_def kernel_args_def default_write_def)
  note f = prepared_free(1) [OF q legend_seal_free] prepared_law [OF q] prepared_receipt(7) [OF q]
  have "legend_seal_args (k\<lparr>k_store := s\<rparr>) = ?a" by (simp add: legend_seal_args_def framed_args_def kernel_args_def)
  moreover have "krows (k\<lparr>k_store := s\<rparr>) = krows k @ [row_of ?a q (cn_visible c)]"
    using d k v seal_legend_rows(1) [OF assms(2)] by (simp add: visible_def)
  moreover have "r_law_hash (row_of ?a q (cn_visible c)) = r_law_hash q" "r_legend_hash (row_of ?a q (cn_visible c)) = r_legend_hash q"
    by (simp_all add: row_of_def stored_row_def)
  ultimately show ?thesis using a f unfolding legend_sealed_def by (intro exI [of _ "row_of ?a q (cn_visible c)"]) simp
qed

text \<open>C23. Founding, for every fault script: an unset Governor key or a seal that fails its validation stops the
  ceremony before anything is changed, and no failing ceremony ever activates the kernel. One that returns did so with a
  real key and, where a seal was given in full or found on disk, a seal that verifies; the kernel is then active under
  the hash of the law, its identity is the hash of the Governor key, and exactly one receipt, that of the sealed legend,
  is durable. If it claims finality, the genesis key's own attestation verifies, that key is a sealed validator, and no
  more than one validator is sealed.\<close>

theorem ceremony_founds:
  assumes "quiet k" "ceremony seal sig k = (res, k')"
  shows "case res of
      Inl e \<Rightarrow> k_active k' = k_active k \<and> (unset_key (k_pubkey k) \<or> \<not> seal_check seal sig k \<longrightarrow> k' = k)
    | Inr _ \<Rightarrow> \<not> unset_key (k_pubkey k) \<and> seal_check seal sig k \<and> k_active k' \<and> legend_sealed k k' \<and>
        k_law_hash k' = to_hex (sha256 (gn_law_text (k_genesis k))) \<and> k_mosaic_root k' = sha_id (k_pubkey k) \<and>
        (k_quorum_achieved k' \<longrightarrow> (\<exists>pub v a. gn_pubkey (k_genesis k) = Some pub \<and> k_validator_set k' = Some v \<and> at_verify a \<and>
           at_hash a = k_law_hash k' \<and> at_mosaic_root a = sha_id (strip pub) \<and> sha_id (strip pub) \<in> set (vs_validators v) \<and> vs_n v \<le> 1))"
  using assms(2)
proof (cases rule: ceremony_steps)
  case (written c r s)
  let ?k = "(framed k)\<lparr>k_store := s\<rparr>"
  have "quiet (framed k)" using assms(1) by (simp add: quiet_def)
  then have l: "legend_sealed (framed k) ?k" by (rule legend_write_durable) (use written in simp_all)
  show ?thesis
  proof (cases "activate_csh False ?k")
    case (Pair q k1)
    show ?thesis
    proof (cases q)
      case (Inl e)
      then have "res = Inl e" "k' = k1" using written(5) Pair by (simp_all add: sthen_Inl)
      then show ?thesis using keepsD [OF keeps_active_csh, of "?k" "k_active k"] Pair written(1,2) by simp
    next
      case (Inr u)
      then have r: "res = Inr ()" "k' = k1\<lparr>k_active := True\<rparr>" using written(5) Pair by (simp_all add: sthen_Inr smodify_def)
      note a = Pair [unfolded Inr]
      have same: "k_store k1 = s" "k_law_hash k1 = k_law_hash ?k" "k_mosaic_root k1 = k_mosaic_root ?k" "k_legend_hash k1 = k_legend_hash ?k"
        "k_phase_code k1 = k_phase_code ?k" "k_authority k1 = k_authority ?k" "k_session_dkn k1 = k_session_dkn ?k"
        using a by (cases rule: activate_csh_cases; simp add: finish_def)+
      have p: "wa_parameters (legend_seal_args k') = wa_parameters (legend_seal_args ?k)"
        using r same by (simp add: legend_seal_args_def framed_args_def kernel_args_def default_write_def)
      then have "legend_sealed k k'" using l r same by (simp add: legend_sealed_def)
      moreover have "\<exists>pub v a. gn_pubkey (k_genesis k) = Some pub \<and> k_validator_set k' = Some v \<and> at_verify a \<and> at_hash a = k_law_hash k' \<and>
          at_mosaic_root a = sha_id (strip pub) \<and> sha_id (strip pub) \<in> set (vs_validators v) \<and> vs_n v \<le> 1" if "k_quorum_achieved k'"
        using a
      proof (cases rule: activate_csh_cases)
        case (attested priv pub v c b)
        have m: "at_mosaic_root b = sha_id (strip pub)" "at_hash b = k_law_hash ?k"
          using attested(4) by (auto simp: create_attestation_def Let_def rbind_eq_Inr)
        have "mc_quorum_achieved (achieve_finality [b] v (k_law_hash ?k))" using that r attested by (simp add: finish_def)
        from one_attestation_quorum [OF this] show ?thesis using m attested r same by (auto simp: finish_def)
      qed (use that r in simp_all)
      ultimately show ?thesis using r same written(1,2) by (simp add: framed_def)
    qed
  qed
qed (use assms in simp_all)

lemma sample_founding: "\<exists>k'. ceremony None None (founded []) = (Inr (), k')"
proof -
  let ?k = "founded []"
  have a: "unset_key (k_pubkey ?k) = False" "seal_check None None ?k" by (simp_all add: founded_def seal_check_def unset_key_def)
  obtain res k' where c: "ceremony None None ?k = (res, k')" by force
  then show ?thesis
  proof (cases rule: ceremony_steps)
    case (unwritten e c s)
    have "plain_args (legend_seal_args (framed ?k))"
      using legend_seal_free [of "framed ?k"] by (simp add: plain_args_def legend_seal_args_def framed_args_def kernel_args_def default_write_def)
    moreover have "cn_faults c = []" 
      using seal_legend_rows(4) [of "sealed_legend (framed ?k)" "framed ?k" c] unwritten(4) fresh_store_ok by simp
    ultimately have "\<exists>r s. store_write (legend_seal_args (framed ?k)) ((k_store ?k)\<lparr>st_conn := c\<rparr>) = (Inr r, s)"
      using store_write_live [OF _ _ plain_admissible] founded_ok(2) by (simp add: writable_def)
    with unwritten(5) show ?thesis by simp
  next
    case (written c r s)
    then show ?thesis using c
      by (auto simp: activate_csh_def founded_def framed_def sthen_def sbind_def sget_def smodify_def)
  qed (use a in simp)
qed

theorem hydration_restores_witness:
  "\<exists>k'. hydrate_readonly ((founded [])\<lparr>k_store := fresh_store [Some Locked], k_genesis := k_genesis k'\<rparr>) =
     (Inr (), k'\<lparr>k_store := fresh_store [Some Locked]\<rparr>)"
  using sample_founding hydration_restores by blast

theorem ceremony_founds_witness: "\<exists>k'. ceremony None None (founded []) = (Inr (), k') \<and> k_active k' \<and> legend_sealed (founded []) k'"
proof -
  obtain k' where c: "ceremony None None (founded []) = (Inr (), k')" using sample_founding by blast
  from ceremony_founds [OF founded_ok(1) c] c show ?thesis by auto
qed

subsection \<open>The summary of a session\<close>

lemma session_close_not_refusal: "wa_op (session_close_args k) = ''session_close''" "\<not> wa_compress (session_close_args k)"
  by (simp_all add: session_close_args_def framed_args_def kernel_args_def default_write_def)

text \<open>session summary consistent. Closing a session: whenever it returns, the summary it leaves carries its own hash and agrees with the
  receipt store and the warrant store as they are now, the \<open>session_close\<close> receipt included, and its admitted count is the number of
  receipts that are no refusals.\<close>

theorem session_summary_consistent:
  assumes "close_session k = (Inr (), k')"
  shows "\<exists>m. k_last_summary k' = Some m \<and> summary_verify_hash m \<and> is_consistent_with m (k_store k') (k_warrants k') \<and>
    sm_session_dkn m = k_session_dkn k' \<and> receipt_count (k_store k') = Suc (receipt_count (k_store k)) \<and>
    sm_admitted_count m = int (length (filter (\<lambda>r. r_op r \<noteq> ''gate_refuse'') (db_rows (visible (k_store k')))))"
proof -
  obtain r s where w: "store_write (session_close_args k) (k_store k) = (Inr r, s)"
    and k': "k' = (k\<lparr>k_store := s\<rparr>)\<lparr>k_last_summary := Some (summary_create (k_now k)
       \<lparr>sm_hash = [], sm_session_dkn = k_session_dkn k, sm_receipt_count = receipt_count s, sm_warrant_count = warrant_total k,
        sm_refusal_count = refusal_count (k_store k), sm_admitted_count = int (receipt_count (k_store k) + 1) - int (refusal_count (k_store k)),
        sm_final_stream_hash = stream_hash s, sm_law_hash = k_law_hash k, sm_legend_hash = k_legend_hash k, sm_phase_code = k_phase_code k,
        sm_timestamp = []\<rparr>)\<rparr>"
    using assms by (auto simp: close_session_def prog_eqs kwrite_eq)
  from w show ?thesis
  proof (rule store_write_Inr)
    fix q assume q: "prepared (session_close_args k) (k_store k) q"
      and v: "visible s = insert_row (stored_row (session_close_args k) q) (visible (k_store k))"
    have o: "r_op (row_of (session_close_args k) q d) = ''session_close''" for d
      using prepared_receipt(7) [OF q] session_close_not_refusal [of k] by simp
    then have f: "refusal_count s = refusal_count (k_store k)" "receipt_count s = Suc (receipt_count (k_store k))"
      using v by (simp_all add: refusal_count_def receipt_count_def)
    have c: "int (receipt_count s) - int (refusal_count s) = int (length (filter (\<lambda>r. r_op r \<noteq> ''gate_refuse'') (db_rows (visible s))))"
      using sum_length_filter_compl [of "\<lambda>r. r_op r = ''gate_refuse''" "db_rows (visible s)"] by (simp add: refusal_count_def receipt_count_def)
    show ?thesis using f c
      by (simp add: k' summary_create_def summary_verify_hash_def summary_digest_def summary_body_def is_consistent_with_def warrant_total_def
          Let_def split: option.splits)
  qed
qed

theorem session_summary_consistent_witness:
  "\<exists>m k'. close_session (founded []) = (Inr (), k') \<and> k_last_summary k' = Some m \<and> is_consistent_with m (k_store k') None"
proof -
  have "plain_args (session_close_args (founded []))"
    by (simp add: plain_args_def session_close_args_def framed_args_def kernel_args_def default_write_def free_simple
        EFFECT_MARKER_KEYS_def EFFECT_MARKER_MAP_def RECONCILIATION_KEYS_def)
  then obtain r s where "store_write (session_close_args (founded [])) (fresh_store []) = (Inr r, s)"
    using store_write_live [OF _ _ plain_admissible, of "fresh_store []"] fresh_store_ok by blast
  then obtain k' where c: "close_session (founded []) = (Inr (), k')" and w: "k_warrants k' = None"
    by (force simp: close_session_def sbind_def sthen_def sget_def kwrite_def kstore_def smodify_def founded_def)
  from session_summary_consistent [OF c] c w show ?thesis by auto
qed

end
