(* ===== verification/Transport.thy ===== *)
theory Transport
  imports Ownership Sessions
begin

text \<open>
  The transport surfaces: the broker (\<^verbatim>\<open>ugk/transport/broker.py\<close>), the JSON-RPC handler (\<^verbatim>\<open>ugk/transport/rpc.py\<close>) and the agent
  surface (\<^verbatim>\<open>ugk/transport/agent.py\<close>). They add no governance of their own: each hands a request to \<open>execute\<close> and types the answer.
  Where the source renders an exception as a text, the answer holds the exception itself. A JSON-RPC request is taken after
  parsing, with its parameters read into a record; the operation of a request is a text.

  Main results: a broker answers every request whose effect is declared, an undeclared effect is refused with a receipt and never
  runs, a refusal is answered with the root of its own receipt, and one nonce reaches the kernel at most once.
\<close>

subsection \<open>The broker\<close>

record 'a governed_request =
  gq_op :: string
  gq_authority :: string
  gq_parameters :: "(string \<times> json) list"
  gq_jurisdiction :: string
  gq_gate :: "(kernel, bool) prog option"
  gq_effect :: "(kernel, 'a) prog option"
  gq_effect_atomicity :: "effect_atomicity option"
  gq_idempotency_key :: "string option"

datatype reply_reason = MissingDeclaration | FromExc exc

record 'a reply =
  rp_admitted :: bool
  rp_receipt_hash :: string
  rp_reason :: "reply_reason option"
  rp_payload :: "'a option"

definition request_args :: "'a governed_request \<Rightarrow> 'a exec_args" where
  "request_args q =
     \<lparr>xa_op = gq_op q, xa_authority = Some (PStr (gq_authority q)), xa_parameters = Some (of_json (JObj (gq_parameters q))), xa_gate = gq_gate q,
      xa_effect = gq_effect q, xa_atomicity = gq_effect_atomicity q, xa_idempotency_key = map_option PStr (gq_idempotency_key q),
      xa_gate_margin = None, xa_layer = ''I'', xa_jurisdiction = gq_jurisdiction q, xa_governor_sig = None, xa_warrant_basis = None,
      xa_intent_ref = [], xa_authority_set = None, xa_capability_verdicts = [], xa_required_locality = None\<rparr>"

definition undeclared_args :: "'a governed_request \<Rightarrow> write_args" where
  "undeclared_args q = (default_write (gq_op q) (gq_authority q)
     (JObj (dict_set ''refuse_reason'' (JStr ''missing_effect_atomicity_declaration'')
       (dict_set ''broker_refused'' (JBool True) (gq_parameters q)))))\<lparr>wa_failed := True, wa_jurisdiction := gq_jurisdiction q\<rparr>"

definition refused_reply :: "string \<Rightarrow> reply_reason \<Rightarrow> 'a reply" where
  "refused_reply hash why = \<lparr>rp_admitted = False, rp_receipt_hash = hash, rp_reason = Some why, rp_payload = None\<rparr>"

definition submit :: "'a governed_request \<Rightarrow> (kernel, 'a option reply) prog" where
  "submit q =
     (if gq_effect q \<noteq> None \<and> gq_effect_atomicity q = None then
        sbind (kwrite (\<lambda>_. undeclared_args q)) (\<lambda>rec. sret (refused_reply (r_h_r rec) MissingDeclaration))
      else
        scatch (sbind (execute (request_args q)) (\<lambda>result.
            sbind (sget (\<lambda>k. stream_hash (k_store k))) (\<lambda>tip.
            sret \<lparr>rp_admitted = True, rp_receipt_hash = tip, rp_reason = None, rp_payload = Some result\<rparr>)))
          (\<lambda>e. sbind (sget (\<lambda>k. stream_hash (k_store k))) (\<lambda>tip.
            case e of
              GateRefusal opn reason \<Rightarrow> sret (refused_reply tip (FromExc e))
            | KernelInternalOp opn \<Rightarrow> sret (refused_reply [] (FromExc e))
            | GovernanceNotFounded opn \<Rightarrow> sret (refused_reply [] (FromExc e))
            | UndeclaredOp opn \<Rightarrow> sret (refused_reply [] (FromExc e))
            | ProtocolError opn \<Rightarrow> sret (refused_reply [] (FromExc e))
            | _ \<Rightarrow> sret (refused_reply tip (FromExc e)))))"

definition broker_is_isolated :: bool where
  "broker_is_isolated = False"

subsection \<open>The agent surface\<close>

definition enveloped :: "string \<Rightarrow> kernel \<Rightarrow> string" where
  \<comment> \<open>the DKN envelope\<close>
  "enveloped authority k = (let dim = sn_dimension_id (snapshot_fast k) in if dim = [] then authority else authority @ ''@'' @ take 16 dim)"

record governd_result =
  gr_admitted :: bool
  gr_op :: string
  gr_authority :: string
  gr_receipt_hash :: string
  gr_stream_hash :: string
  gr_dimension_id :: string
  gr_reason :: "reply_reason option"

definition agent_request :: "string \<Rightarrow> string \<Rightarrow> string \<Rightarrow> string \<Rightarrow> unit governed_request" where
  "agent_request intent subject authority opn =
     \<lparr>gq_op = opn, gq_authority = authority, gq_parameters = [(''intent'', JStr intent), (''subject'', JStr subject)],
      gq_jurisdiction = ''session'', gq_gate = None, gq_effect = None, gq_effect_atomicity = None, gq_idempotency_key = None\<rparr>"

definition ugk_govern :: "string \<Rightarrow> string \<Rightarrow> string \<Rightarrow> string \<Rightarrow> (kernel, governd_result) prog" where
  "ugk_govern intent subject authority opn =
     sbind (sget (enveloped authority)) (\<lambda>full.
     sbind (sget (\<lambda>k. sn_dimension_id (snapshot_fast k))) (\<lambda>dim.
     sbind (submit (agent_request intent subject full opn)) (\<lambda>r.
     sbind (sget (\<lambda>k. stream_hash (k_store k))) (\<lambda>tip.
     sret \<lparr>gr_admitted = rp_admitted r, gr_op = opn, gr_authority = full, gr_receipt_hash = rp_receipt_hash r, gr_stream_hash = tip,
           gr_dimension_id = dim, gr_reason = rp_reason r\<rparr>))))"

record attestation_result =
  ar_stream_hash :: string
  ar_hash_verified :: bool
  ar_law_hash :: string
  ar_finality_hash :: string
  ar_quorum_achieved :: bool
  ar_mosaic_root :: string
  ar_dimension_id :: string
  ar_active :: bool

definition ugk_attest :: "kernel \<Rightarrow> attestation_result" where
  "ugk_attest k = (let s = kernel_snapshot k in
     \<lparr>ar_stream_hash = sn_stream_hash s, ar_hash_verified = (sn_hash_verified s = Some True), ar_law_hash = sn_law_hash s,
      ar_finality_hash = sn_finality_hash s, ar_quorum_achieved = sn_quorum_achieved s, ar_mosaic_root = sn_mosaic_root s,
      ar_dimension_id = sn_dimension_id s, ar_active = sn_active s\<rparr>)"

definition sound :: "attestation_result \<Rightarrow> bool" where
  "sound a \<longleftrightarrow> ar_hash_verified a \<and> ar_quorum_achieved a"

definition ugk_status :: "kernel \<Rightarrow> snapshot" where
  "ugk_status = snapshot_fast"

definition ugk_session :: "string \<Rightarrow> string option \<Rightarrow> (kernel, 'a) prog \<Rightarrow> (kernel, 'a) prog" where
  \<comment> \<open>\<^verbatim>\<open>with ugk_session(k) as k: body\<close>; the first argument is a fresh UUID\<close>
  "ugk_session fresh sid body =
     sbind (sget k_active) (\<lambda>active.
     sthen (swhen (\<not> active) (ceremony None None)) (
     sthen (open_session fresh sid) (
     sbind (scatch body (\<lambda>e. sthen close_session (sraise e))) (\<lambda>y.
     sthen close_session (sret y)))))"

subsection \<open>The JSON-RPC handler\<close>

record govern_args =
  gv_intent :: json
  gv_subject :: json
  gv_authority :: "json option"
  gv_op :: string
  gv_nonce :: json

record rpc_server =
  rv_kernel :: kernel
  rv_authority :: string
  rv_seen :: "json set"     \<comment> \<open>nonces up to Python's equality\<close>

datatype verdict =
    Replayed json
  | Admitted string string string     \<comment> \<open>operation, stream hash, dimension\<close>
  | Refused exc
  | Rejected string exc               \<comment> \<open>error code\<close>

definition govern_parameters :: "govern_args \<Rightarrow> json" where
  "govern_parameters g = JObj [(''intent'', gv_intent g), (''subject'', gv_subject g), (''nonce'', gv_nonce g)]"

definition govern_call :: "govern_args \<Rightarrow> pyval \<Rightarrow> unit exec_args" where
  "govern_call g authority =
     \<lparr>xa_op = gv_op g, xa_authority = (if authority = PNone then None else Some authority), xa_parameters = Some (of_json (govern_parameters g)),
      xa_gate = None, xa_effect = None, xa_atomicity = None, xa_idempotency_key = None, xa_gate_margin = None, xa_layer = ''I'',
      xa_jurisdiction = ''session'', xa_governor_sig = None, xa_warrant_basis = None, xa_intent_ref = [], xa_authority_set = None,
      xa_capability_verdicts = [], xa_required_locality = None\<rparr>"

definition rpc_authority :: "govern_args \<Rightarrow> rpc_server \<Rightarrow> pyval" where
  "rpc_authority g v =
     (let a = (case gv_authority g of None \<Rightarrow> JStr (rv_authority v) | Some a \<Rightarrow> a); dim = sn_dimension_id (snapshot_fast (rv_kernel v)) in
      if dim = [] then of_json a else PStr (py_str a @ ''@'' @ take 16 dim))"

definition handle_govern :: "govern_args \<Rightarrow> (rpc_server, verdict) prog" where
  "handle_govern g v =
     (if \<not> hashable (gv_nonce g) then (Inl (PyExc TypeError), v)
      else if py_key (gv_nonce g) \<in> rv_seen v then (Inr (Replayed (gv_nonce g)), v)
      else
        let v1 = v\<lparr>rv_seen := insert (py_key (gv_nonce g)) (rv_seen v)\<rparr>; dim = sn_dimension_id (snapshot_fast (rv_kernel v)) in
        case execute (govern_call g (rpc_authority g v)) (rv_kernel v1) of
          (Inr _, k) \<Rightarrow> (Inr (Admitted (gv_op g) (sn_stream_hash (snapshot_fast k)) dim), v1\<lparr>rv_kernel := k\<rparr>)
        | (Inl e, k) \<Rightarrow>
            (case e of
               GateRefusal opn reason \<Rightarrow> Inr (Refused e)
             | GovernanceNotFounded opn \<Rightarrow> Inr (Rejected ''governance_not_founded'' e)
             | UndeclaredOp opn \<Rightarrow> Inr (Rejected ''undeclared_op'' e)
             | KernelInternalOp opn \<Rightarrow> Inr (Rejected ''kernel_internal_op'' e)
             | _ \<Rightarrow> Inl e, v1\<lparr>rv_kernel := k\<rparr>))"

datatype rpc_request =
    Unparsable
  | NotAnObject
  | Call json rpc_method
and rpc_method = Govern govern_args | Status | Verify | Attest | BadParams | Unknown string | NotText json

datatype rpc_result = Governed verdict | StatusOf snapshot | Verified bool nat string
  | Attested string bool string string bool string string    \<comment> \<open>stream, verified, law, finality, quorum, mosaic, dimension\<close>

datatype rpc_response = Ok json rpc_result | Err json int string "exc option"

definition handle_request :: "rpc_request \<Rightarrow> (rpc_server, rpc_response) prog" where
  \<comment> \<open>\<open>BadParams\<close>: parameters of \<^verbatim>\<open>ugk.govern\<close> that are no object\<close>
  "handle_request r =
     (case r of
        Unparsable \<Rightarrow> sret (Err JNull (- 32700) ''Parse error'' None)
      | NotAnObject \<Rightarrow> sraise (PyExc AttributeError)
      | Call i (NotText _) \<Rightarrow> sret (Err i (- 32600) ''Invalid method'' None)
      | Call i (Unknown m) \<Rightarrow> sret (Err i (- 32601) (''Method not found: '' @ repr_str m) None)
      | Call i (Govern g) \<Rightarrow> scatch (sbind (handle_govern g) (\<lambda>y. sret (Ok i (Governed y)))) (\<lambda>e. sret (Err i (- 32603) ''Internal error'' (Some e)))
      | Call i BadParams \<Rightarrow> sret (Err i (- 32603) ''Internal error'' (Some (PyExc AttributeError)))
      | Call i Status \<Rightarrow> sbind (sget (\<lambda>v. snapshot_fast (rv_kernel v))) (\<lambda>s. sret (Ok i (StatusOf s)))
      | Call i Verify \<Rightarrow> sbind (sget (\<lambda>v. k_store (rv_kernel v))) (\<lambda>s.
          sret (Ok i (Verified (verify_stream_hash s None) (receipt_count s) (stream_hash s))))
      | Call i Attest \<Rightarrow> sbind (sget (\<lambda>v. kernel_snapshot (rv_kernel v))) (\<lambda>s.
          sret (Ok i (Attested (sn_stream_hash s) (sn_hash_verified s = Some True) (sn_law_hash s) (sn_finality_hash s) (sn_quorum_achieved s)
            (sn_mosaic_root s) (sn_dimension_id s)))))"

fun serve :: "rpc_request list \<Rightarrow> rpc_server \<Rightarrow> rpc_server" where
  \<comment> \<open>the state after a sequence of requests\<close>
  "serve [] v = v"
| "serve (r # rs) v = serve rs (snd (handle_request r v))"

subsection \<open>Broker answers\<close>

lemma submit_declared:
  assumes "gq_effect q = None \<or> gq_effect_atomicity q \<noteq> None" "execute (request_args q) k = (res, k')"
  shows "submit q k = (Inr (case res of
      Inr y \<Rightarrow> \<lparr>rp_admitted = True, rp_receipt_hash = stream_hash (k_store k'), rp_reason = None, rp_payload = Some y\<rparr>
    | Inl e \<Rightarrow> refused_reply (if \<exists>opn. e \<in> {KernelInternalOp opn, GovernanceNotFounded opn, UndeclaredOp opn, ProtocolError opn} then [] else stream_hash (k_store k'))
        (FromExc e)), k')"
  using assms by (cases res) (auto simp: submit_def sbind_def sget_def sret_def scatch_def split: exc.splits)

definition answered :: "'a governed_request \<Rightarrow> kernel \<Rightarrow> bool" where
  "answered q k = (case submit q k of
     (Inl e, k') \<Rightarrow> gq_effect q \<noteq> None \<and> gq_effect_atomicity q = None \<and> kwrite (\<lambda>_. undeclared_args q) k = (Inl e, k')
   | (Inr r, k') \<Rightarrow> if rp_admitted r
       then \<exists>y. execute (request_args q) k = (Inr y, k') \<and> rp_payload r = Some y \<and> rp_receipt_hash r = stream_hash (k_store k')
       else rp_payload r = None \<and> rp_reason r \<noteq> None \<and>
         ((\<exists>e. execute (request_args q) k = (Inl e, k')) \<or> (\<exists>rec. kwrite (\<lambda>_. undeclared_args q) k = (Inr rec, k') \<and> rp_receipt_hash r = r_h_r rec)))"

text \<open>C32. The broker answers truthfully, whatever the kernel, the request and the faults: it says admitted exactly when \<open>execute\<close> returned, with the
  result of the effect and the tip of the chain; otherwise its answer carries a reason and no payload. It raises in one case only: the effect
  has no declared class and the receipt of that refusal cannot be written.\<close>

theorem broker_answers: "answered q k"
proof (cases "gq_effect q \<noteq> None \<and> gq_effect_atomicity q = None")
  case True
  obtain res k' where w: "kwrite (\<lambda>_. undeclared_args q) k = (res, k')" by fastforce
  then show ?thesis using True by (cases res) (simp_all add: answered_def submit_def sbind_def sret_def refused_reply_def)
next
  case False
  obtain res k' where x: "execute (request_args q) k = (res, k')" by fastforce
  have d: "gq_effect q = None \<or> gq_effect_atomicity q \<noteq> None" using False by simp
  show ?thesis using submit_declared [OF d x] x by (cases res) (auto simp: answered_def refused_reply_def)
qed

definition tip_row :: "kernel \<Rightarrow> receipt \<Rightarrow> kernel \<Rightarrow> bool" where
  \<comment> \<open>exactly one durable row was added, and it is the tip\<close>
  "tip_row k row k' \<longleftrightarrow> quiet k' \<and> krows k' = krows k @ [row] \<and> stream_hash (k_store k') = r_h_r row"

lemma tip_rowI: "quiet k' \<Longrightarrow> krows k' = krows k @ [row] \<Longrightarrow> r_h_r row \<noteq> [] \<Longrightarrow> tip_row k row k'"
  by (simp add: tip_row_def stream_hash_def tip_of_def quiet_def quiescent_def)

lemma undeclared_free: "free_of_markers (JObj (gq_parameters q)) \<Longrightarrow> free_of_markers (wa_parameters (undeclared_args q))"
proof -
  assume f: "free_of_markers (JObj (gq_parameters q))"
  have k: "''broker_refused'' \<notin> set EFFECT_MARKER_KEYS \<union> set RECONCILIATION_KEYS" "''refuse_reason'' \<notin> set EFFECT_MARKER_KEYS \<union> set RECONCILIATION_KEYS"
    by (simp_all add: EFFECT_MARKER_KEYS_def EFFECT_MARKER_MAP_def RECONCILIATION_KEYS_def)
  have "fst ` set (obj_fields (wa_parameters (undeclared_args q))) = insert ''refuse_reason'' (insert ''broker_refused'' (fst ` set (gq_parameters q)))"
    by (simp add: undeclared_args_def default_write_def dict_set_keys [unfolded set_map])
  then show ?thesis using f k by (auto simp: free_of_markers_def undeclared_args_def default_write_def)
qed

text \<open>undeclared effect refused. Fail closed: on a writable kernel an effect without a declared class is refused; one new durable row, marked failed, under the
  operation of the request records it, the answer names that row, and the effect plays no part in the outcome.\<close>

theorem undeclared_effect_refused:
  assumes "quiet k" "writable k" "gq_effect q = Some eff" "gq_effect_atomicity q = None" "free_of_markers (JObj (gq_parameters q))"
  shows "\<exists>k' row. tip_row k row k' \<and> r_failed row \<and> r_op row = gq_op q \<and>
    (\<forall>eff'. submit (q\<lparr>gq_effect := Some eff'\<rparr>) k = (Inr (refused_reply (r_h_r row) MissingDeclaration), k'))"
proof -
  let ?f = "\<lambda>_ :: kernel. undeclared_args q"
  have plain: "plain_args (?f k)" using undeclared_free [OF assms(5)] by (simp add: plain_args_def undeclared_args_def default_write_def)
  obtain r k' where w: "kwrite ?f k = (Inr r, k')" using kwrite_live [of k ?f, OF assms(2) plain] by blast
  have same: "undeclared_args (q\<lparr>gq_effect := Some e\<rparr>) = undeclared_args q" for e by (simp add: undeclared_args_def)
  show ?thesis
  proof (rule kwrite_quiet [OF assms(1) w])
    fix row assume row: "quiet k'" "krows k' = krows k @ [row]" "r_op row = (if wa_compress (?f k) then compress_field OP_TO_CSIL (wa_op (?f k)) else wa_op (?f k))"
      "r_h_r row = r_h_r r" "r_failed row = wa_failed (?f k)" "prepared (?f k) (k_store k) (r\<lparr>r_receipt_id := None\<rparr>)"
    then have "r_failed row" "r_op row = gq_op q" by (simp_all add: undeclared_args_def default_write_def)
    moreover have "submit (q\<lparr>gq_effect := Some e\<rparr>) k = (Inr (refused_reply (r_h_r row) MissingDeclaration), k')" for e
      using w row(4) assms(4) by (simp add: submit_def same sbind_def sret_def)
    ultimately show ?thesis using tip_rowI [OF row(1,2)] prepared_receipt(2) [OF row(6)] row(4) by auto
  qed
qed

lemma refusal_tip: "receipted k (GateRefusal opn reason) k' \<Longrightarrow> \<exists>row. tip_row k row k' \<and> r_failed row \<and> r_op row = ''gate_refuse''"
  using tip_rowI by (fastforce simp: receipted_def)

text \<open>refusal answered. A constitutional refusal is answered by its receipt: on a writable kernel with a gate that only decides, when a check of the kernel
  refuses the request, the broker's answer is not admitted and names the one new durable row, which is a failed \<open>gate_refuse\<close>.\<close>

theorem refusal_answered:
  assumes "quiet k" "writable k" "\<forall>gate. gq_gate q = Some gate \<longrightarrow> (\<forall>k. snd (gate k) = k)" "gq_effect q = None \<or> gq_effect_atomicity q \<noteq> None"
    "preflight k (request_args q) = Inr rq" "fst (refusal_horizon (request_args q) rq k) = Inl (GateRefusal opn reason)"
  shows "\<exists>k' row. submit q k = (Inr (refused_reply (r_h_r row) (FromExc (GateRefusal opn reason))), k') \<and>
    tip_row k row k' \<and> r_failed row \<and> r_op row = ''gate_refuse''"
proof -
  have g: "\<forall>gate. xa_gate (request_args q) = Some gate \<longrightarrow> (\<forall>k. snd (gate k) = k)" using assms(3) by (simp add: request_args_def)
  obtain k' where h: "refusal_horizon (request_args q) rq k = (Inl (GateRefusal opn reason), k')" using assms(6) by (cases "refusal_horizon (request_args q) rq k") auto
  have x: "execute (request_args q) k = (Inl (GateRefusal opn reason), k')" using assms(5) h by (simp add: execute_def sbind_def sget_def sres_def)
  have "receipted k (GateRefusal opn reason) k'" using refusal_horizon_refused [OF assms(1,2) g, of rq] h by (simp add: refused_ok_def)
  then obtain row where "tip_row k row k'" "r_failed row" "r_op row = ''gate_refuse''" using refusal_tip by blast
  then show ?thesis using submit_declared [OF assms(4) x] by (auto simp: tip_row_def)
qed

subsection \<open>Replay protection\<close>

lemma govern_seen: "rv_seen v \<subseteq> rv_seen (snd (handle_govern g v))"
  by (auto simp: handle_govern_def Let_def split: prod.splits sum.splits)

lemma request_seen: "rv_seen v \<subseteq> rv_seen (snd (handle_request r v))"
proof (cases r)
  case (Call i m)
  show ?thesis
  proof (cases m)
    case (Govern g)
    then show ?thesis using govern_seen [of v g] Call
      by (cases "handle_govern g v"; cases "fst (handle_govern g v)") (simp_all add: handle_request_def sret_def sbind_def scatch_def)
  qed (simp_all add: Call handle_request_def sret_def sbind_def sget_def)
qed (simp_all add: handle_request_def sret_def sraise_def)

lemma serve_seen: "rv_seen v \<subseteq> rv_seen (serve rs v)"
proof (induction rs arbitrary: v)
  case (Cons r rs)
  then show ?case using request_seen [of v r] by force
qed simp

lemma govern_marks: "hashable (gv_nonce g) \<Longrightarrow> py_key (gv_nonce g) \<in> rv_seen (snd (handle_govern g v))"
  by (auto simp: handle_govern_def Let_def split: prod.splits sum.splits)

text \<open>C33. Replay protection: after a request to govern with some nonce, whatever came of it, and any further requests, a request to govern with an equal
  nonce is answered as a replay and changes nothing, neither the chain nor any other state of the server.\<close>

theorem nonce_at_most_once:
  assumes "hashable (gv_nonce g)" "py_key (gv_nonce g') = py_key (gv_nonce g)" "hashable (gv_nonce g')"
  shows "let v' = serve rs (snd (handle_request (Call i (Govern g)) v)) in
    handle_request (Call j (Govern g')) v' = (Inr (Ok j (Governed (Replayed (gv_nonce g')))), v')"
proof -
  have "snd (handle_request (Call i (Govern g)) v) = snd (handle_govern g v)"
    by (cases "handle_govern g v"; cases "fst (handle_govern g v)") (simp_all add: handle_request_def sbind_def sret_def scatch_def)
  then have "py_key (gv_nonce g) \<in> rv_seen (serve rs (snd (handle_request (Call i (Govern g)) v)))"
    using govern_marks [OF assms(1), of v] serve_seen by force
  then show ?thesis using assms by (simp add: Let_def handle_request_def handle_govern_def sbind_def sret_def scatch_def)
qed

subsection \<open>Examples\<close>

definition sample_request :: "unit governed_request" where
  "sample_request = \<lparr>gq_op = ''namespace_claim'', gq_authority = ''alice'', gq_parameters = [], gq_jurisdiction = ''session'',
     gq_gate = Some (sret False), gq_effect = Some (sret ()), gq_effect_atomicity = Some PURE, gq_idempotency_key = None\<rparr>"

theorem undeclared_effect_refused_witness:
  "\<exists>k' row. tip_row (founded []) row k' \<and> r_failed row \<and> r_op row = ''namespace_claim'' \<and>
    submit (sample_request\<lparr>gq_effect_atomicity := None\<rparr>) (founded []) = (Inr (refused_reply (r_h_r row) MissingDeclaration), k')"
proof -
  let ?q = "sample_request\<lparr>gq_effect_atomicity := None\<rparr>"
  have "?q\<lparr>gq_effect := Some (sret ())\<rparr> = ?q" by (simp add: sample_request_def)
  moreover from undeclared_effect_refused [OF founded_ok(1,2), of ?q "sret ()"] obtain k' row where
    "tip_row (founded []) row k'" "r_failed row" "r_op row = gq_op ?q"
    "submit (?q\<lparr>gq_effect := Some (sret ())\<rparr>) (founded []) = (Inr (refused_reply (r_h_r row) MissingDeclaration), k')"
    by (auto simp: sample_request_def free_of_markers_def)
  ultimately show ?thesis by (auto simp: sample_request_def)
qed

theorem refusal_answered_witness:
  "\<exists>k' row. submit sample_request (founded []) =
      (Inr (refused_reply (r_h_r row) (FromExc (GateRefusal ''namespace_claim'' ''gate returned False''))), k') \<and>
    tip_row (founded []) row k' \<and> r_failed row \<and> r_op row = ''gate_refuse''"
proof -
  let ?x = "request_args sample_request"
  let ?q = "\<lparr>rq_authority = ''alice'', rq_parameters = JObj [], rq_basis = None, rq_authority_set = None\<rparr>"
  have pre: "preflight (founded []) ?x = Inr ?q"
    by (simp add: preflight_def request_args_def sample_request_def founded_def Let_def rguard_def text_arg_def)
  have jur: "jurisdiction_check ?x ?q (founded []) = (Inr (), founded [])"
    by (simp add: jurisdiction_check_def governor_check_def posture_check_def model_of_def kernel_op_def universal_op_def request_args_def sample_request_def
        founded_def KERNEL_OPS_def UNIVERSAL_OPS_def GOVERNANCE_OPS_def APPLICATION_OPS_def sbind_def sthen_def sget_def sret_def)
  have extra: "refusal_extra []" by (simp add: refusal_extra_def)
  obtain k' where "gate_check ?x ?q (founded []) = (Inl (GateRefusal ''namespace_claim'' ''gate returned False''), k')"
    using refuse_receipted [OF founded_ok(1,2) extra, of ?x ?q "''gate returned False''" True]
    by (auto simp: gate_check_def request_args_def sample_request_def sbind_def scatch_def sret_def)
  then have h: "fst (refusal_horizon ?x ?q (founded [])) = Inl (GateRefusal ''namespace_claim'' ''gate returned False'')"
    using jur by (simp add: refusal_horizon_def sthen_def sbind_def)
  show ?thesis by (rule refusal_answered [OF founded_ok(1,2) _ _ pre h]) (simp_all add: sample_request_def sret_def)
qed

definition sample_call :: govern_args where
  "sample_call = \<lparr>gv_intent = JStr ''observe'', gv_subject = JStr [], gv_authority = None, gv_op = ''crp_evidence'', gv_nonce = JInt 1\<rparr>"

theorem nonce_at_most_once_witness:
  "let v = \<lparr>rv_kernel = founded [], rv_authority = ''rpc'', rv_seen = {}\<rparr>; v' = serve [Call (JInt 2) Verify] (snd (handle_request (Call (JInt 1) (Govern sample_call)) v)) in
    handle_request (Call (JInt 3) (Govern (sample_call\<lparr>gv_nonce := JBool True\<rparr>))) v' = (Inr (Ok (JInt 3) (Governed (Replayed (JBool True)))), v')"
  using nonce_at_most_once [of sample_call "sample_call\<lparr>gv_nonce := JBool True\<rparr>" "[Call (JInt 2) Verify]" "JInt 1"
      "\<lparr>rv_kernel = founded [], rv_authority = ''rpc'', rv_seen = {}\<rparr>" "JInt 3"]
  by (simp add: sample_call_def Let_def)

end
