(* ===== verification/Amendments.thy ===== *)
theory Amendments
  imports Governance Reactor
begin

text \<open>
  Constitutional amendments (\<^verbatim>\<open>ugk/amendment.py\<close>) and the succession of Governor keys (\<^verbatim>\<open>ugk/successor.py\<close>): the
  content-addressed record, its archive file, the keys a succession lineage authorises, and the admissibility test. The detail text of
  a refusal is a constructor. The archive file is its list of entries; an entry that is no record is \<^const>\<open>None\<close>.

  Main results: the authorised keys are the longest prefix of the lineage in which each key was signed in by its predecessor; an amendment is
  admitted exactly when its hash, frame, signature, era and lineage conditions hold; the hash of a record binds all its fields; a reopened archive has every record appended.
\<close>

subsection \<open>Records\<close>

record amendment =
  ad_hash :: string
  ad_prior_law :: string
  ad_successor_law :: string
  ad_added :: "string list"
  ad_removed :: "string list"
  ad_authority :: string
  ad_signature :: string
  ad_phase_code :: string
  ad_timestamp :: string
  ad_kind :: string
  ad_prior_legend :: string
  ad_successor_legend :: string
  ad_prior_schema :: string
  ad_successor_schema :: string
  ad_prior_amendment :: string

definition committed_legs :: "amendment \<Rightarrow> (string \<times> json) list" where
  \<comment> \<open>the fields that are part of the body only when they are not empty\<close>
  "committed_legs r = map (\<lambda>(k, v). (k, JStr v)) (filter (\<lambda>(k, v). v \<noteq> [])
     [(''prior_legend_hash'', ad_prior_legend r), (''successor_legend_hash'', ad_successor_legend r), (''prior_schema_hash'', ad_prior_schema r),
      (''successor_schema_hash'', ad_successor_schema r), (''prior_amendment_hash'', ad_prior_amendment r)])"

definition amendment_body :: "amendment \<Rightarrow> json" where
  "amendment_body r = JObj ([(''amendment_kind'', JStr (ad_kind r)), (''authority'', JStr (ad_authority r)),
     (''invariants_added'', JList (map JStr (ad_added r))), (''invariants_removed'', JList (map JStr (ad_removed r))),
     (''phase_code'', JStr (ad_phase_code r)), (''prior_law_hash'', JStr (ad_prior_law r)), (''signature'', JStr (ad_signature r)),
     (''successor_law_hash'', JStr (ad_successor_law r)), (''timestamp'', JStr (ad_timestamp r))] @ committed_legs r)"

definition amendment_digest :: "amendment \<Rightarrow> string" where
  "amendment_digest r = to_hex (sha256 (canonical_json (amendment_body r)))"

definition amendment_create :: "string \<Rightarrow> amendment \<Rightarrow> amendment" where
  \<comment> \<open>the first argument is the clock; the second holds the arguments, an empty timestamp standing for none\<close>
  "amendment_create now r =
     (let r1 = r\<lparr>ad_timestamp := (if ad_timestamp r = [] then now else ad_timestamp r), ad_added := sort (ad_added r), ad_removed := sort (ad_removed r)\<rparr> in
      r1\<lparr>ad_hash := amendment_digest r1\<rparr>)"

definition amendment_verify_hash :: "amendment \<Rightarrow> bool" where
  "amendment_verify_hash r \<longleftrightarrow> amendment_digest r = ad_hash r"

definition signed_payload :: "amendment \<Rightarrow> bytes" where
  "signed_payload r = canonical_json (JObj ([(''amendment_kind'', JStr (ad_kind r)), (''authority'', JStr (ad_authority r)),
     (''invariants_added'', JList (map JStr (sort (ad_added r)))), (''invariants_removed'', JList (map JStr (sort (ad_removed r)))),
     (''phase_code'', JStr (ad_phase_code r)), (''prior_law_hash'', JStr (ad_prior_law r)),
     (''successor_law_hash'', JStr (ad_successor_law r)), (''timestamp'', JStr (ad_timestamp r))] @ committed_legs r))"

subsection \<open>The archive\<close>

datatype archive_file = Absent | Garbled | Entries "amendment option list"

record archive =
  av_file :: archive_file
  av_records :: "amendment list"

fun load_entries :: "amendment option list \<Rightarrow> amendment list" where
  \<comment> \<open>the loop stops at the first entry that is no record\<close>
  "load_entries (Some r # es) = r # load_entries es"
| "load_entries _ = []"

definition archive_open :: "archive_file \<Rightarrow> archive" where
  "archive_open f = \<lparr>av_file = f, av_records = (case f of Entries es \<Rightarrow> load_entries es | _ \<Rightarrow> [])\<rparr>"

definition archive_append :: "amendment \<Rightarrow> archive \<Rightarrow> archive" where
  "archive_append r a = \<lparr>av_file = Entries (map Some (av_records a @ [r])), av_records = av_records a @ [r]\<rparr>"

definition record_for_transition :: "string \<Rightarrow> string \<Rightarrow> archive \<Rightarrow> amendment option" where
  "record_for_transition prior succ a = find (\<lambda>r. ad_prior_law r = prior \<and> ad_successor_law r = succ) (av_records a)"

subsection \<open>Succession\<close>

record succession =
  su_lineage_hash :: string
  su_predecessor_mosaic :: string
  su_successor_mosaic :: string
  su_successor_pubkey :: string
  su_proof :: string
  su_authority :: string
  su_amendment_hash :: string
  su_timestamp :: string

definition succession_fields :: "succession \<Rightarrow> (string \<times> json) list" where
  "succession_fields l = [(''amendment_hash'', JStr (su_amendment_hash l)), (''authority'', JStr (su_authority l)),
     (''predecessor_mosaic'', JStr (su_predecessor_mosaic l)), (''successor_mosaic'', JStr (su_successor_mosaic l)),
     (''successor_pubkey'', JStr (su_successor_pubkey l)), (''timestamp'', JStr (su_timestamp l))]"

definition verify_succession :: "succession \<Rightarrow> string \<Rightarrow> bool" where
  "verify_succession l predecessor = verify_governor predecessor (canonical_json (JObj (succession_fields l))) (su_proof l)"

definition succession_verify_hash :: "succession \<Rightarrow> bool" where
  "succession_verify_hash l \<longleftrightarrow>
     to_hex (sha256 (canonical_json (JObj (dict_set ''succession_proof'' (JStr (su_proof l)) (succession_fields l))))) = su_lineage_hash l"

definition key_mosaic :: "string \<Rightarrow> (pyexc, string) result" where
  \<comment> \<open>\<open>_mosaic\<close>; \<^verbatim>\<open>bytes.fromhex\<close> raises on a text that is no hexadecimal\<close>
  "key_mosaic pubkey = (case fromhex pubkey of None \<Rightarrow> Inl ValueError | Some bs \<Rightarrow> Inr (to_hex (sha256 bs)))"

fun authorized_from :: "string \<Rightarrow> succession list \<Rightarrow> (pyexc, string list) result" where
  \<comment> \<open>the keys from the current one on\<close>
  "authorized_from current [] = Inr [current]"
| "authorized_from current (l # ls) =
     rbind (key_mosaic current) (\<lambda>m.
     if su_predecessor_mosaic l \<noteq> m \<or> \<not> verify_succession l current then Inr [current]
     else rbind (authorized_from (su_successor_pubkey l) ls) (\<lambda>ks. Inr (current # ks)))"

definition authorized_keys :: "string \<Rightarrow> succession list \<Rightarrow> (pyexc, string list) result" where
  "authorized_keys governor_pubkey lineage = authorized_from governor_pubkey lineage"

subsection \<open>Admissibility\<close>

record frame =
  fr_law :: string
  fr_legend :: string
  fr_schema :: string

datatype lineage_key = LawKey string | FrameKey frame

datatype inadmissible =
    BadKind | BadHash | WrongPriorLaw | WrongSuccessorLaw | LegPrior string | LegSuccessor string | LegUncommitted string | Unsigned
  | Unauthorized | RetiredKey | BadSignature | LineageBroken | SuccessorPresent | NoPredecessorRecord | RecordLineageBroken

definition leg_check :: "string \<Rightarrow> string \<Rightarrow> string \<Rightarrow> string \<Rightarrow> string \<Rightarrow> inadmissible option" where
  \<comment> \<open>leg, committed prior and successor, the leg of the two frames\<close>
  "leg_check leg cp cs p s =
     (if cs \<noteq> [] then if cp \<noteq> p then Some (LegPrior leg) else if cs \<noteq> s then Some (LegSuccessor leg) else None
      else if p \<noteq> s then Some (LegUncommitted leg) else None)"

fun mosaics :: "string list \<Rightarrow> (pyexc, (string \<times> string) list) result" where
  "mosaics [] = Inr []"
| "mosaics (k # ks) = rbind (key_mosaic k) (\<lambda>m. rbind (mosaics ks) (\<lambda>ms. Inr ((m, k) # ms)))"

definition authority_check :: "amendment \<Rightarrow> string \<Rightarrow> succession list \<Rightarrow> bool \<Rightarrow> (pyexc, inadmissible option) result" where
  \<comment> \<open>condition (3)\<close>
  "authority_check r governor_pubkey lineage historical =
     (if ad_signature r = [] then Inr (Some Unsigned)
      else rbind (authorized_keys governor_pubkey lineage) (\<lambda>keys.
        rbind (mosaics keys) (\<lambda>ms.
        case map_of ms (ad_authority r) of
          None \<Rightarrow> Inr (Some Unauthorized)
        | Some signing_key \<Rightarrow>
            if signing_key \<noteq> last keys \<and> \<not> historical then Inr (Some RetiredKey)
            else if \<not> verify_governor signing_key (signed_payload r) (ad_signature r) then Inr (Some BadSignature)
            else Inr None)))"

definition lineage_check :: "amendment \<Rightarrow> frame \<Rightarrow> frame \<Rightarrow> lineage_key option \<Rightarrow> lineage_key list \<Rightarrow> inadmissible option" where
  \<comment> \<open>condition (4)\<close>
  "lineage_check r prior succ prior_successor existing =
     (if \<exists>k. prior_successor = Some k \<and> (case k of FrameKey f \<Rightarrow> f \<noteq> prior | LawKey h \<Rightarrow> ad_prior_law r \<noteq> h) then Some LineageBroken
      else if list_ex (\<lambda>e. case e of FrameKey _ \<Rightarrow> True | LawKey _ \<Rightarrow> False) existing
        then if FrameKey succ \<in> set existing then Some SuccessorPresent else None
      else if LawKey (ad_successor_law r) \<in> set existing then Some SuccessorPresent else None)"

definition record_check :: "amendment \<Rightarrow> string option \<Rightarrow> inadmissible option" where
  \<comment> \<open>condition (4b)\<close>
  "record_check r predecessor =
     (if ad_prior_amendment r = [] then None
      else case predecessor of None \<Rightarrow> Some NoPredecessorRecord
        | Some h \<Rightarrow> if ad_prior_amendment r \<noteq> h then Some RecordLineageBroken else None)"

fun first_problem :: "inadmissible option list \<Rightarrow> inadmissible option" where
  "first_problem [] = None"
| "first_problem (None # ps) = first_problem ps"
| "first_problem (Some p # ps) = Some p"

record admission_context =
  ac_prior :: frame
  ac_successor :: frame
  ac_governor :: string
  ac_prior_successor :: "lineage_key option"
  ac_existing :: "lineage_key list"
  ac_succession :: "succession list"
  ac_historical :: bool
  ac_predecessor_hash :: "string option"

definition is_admissible :: "amendment \<Rightarrow> admission_context \<Rightarrow> (pyexc, inadmissible option) result" where
  \<comment> \<open>the reason against, or \<^const>\<open>None\<close> when admitted\<close>
  "is_admissible r c =
     (case first_problem
        [if ad_kind r \<in> {''genesis'', ''ordinary''} then None else Some BadKind,
         if amendment_verify_hash r then None else Some BadHash,
         if ad_prior_law r = fr_law (ac_prior c) then None else Some WrongPriorLaw,
         if ad_successor_law r = fr_law (ac_successor c) then None else Some WrongSuccessorLaw,
         leg_check ''legend_hash'' (ad_prior_legend r) (ad_successor_legend r) (fr_legend (ac_prior c)) (fr_legend (ac_successor c)),
         leg_check ''schema_hash'' (ad_prior_schema r) (ad_successor_schema r) (fr_schema (ac_prior c)) (fr_schema (ac_successor c))] of
        Some p \<Rightarrow> Inr (Some p)
      | None \<Rightarrow>
          rbind (authority_check r (ac_governor c) (ac_succession c) (ac_historical c)) (\<lambda>problem.
          Inr (first_problem [problem, lineage_check r (ac_prior c) (ac_successor c) (ac_prior_successor c) (ac_existing c),
            record_check r (ac_predecessor_hash c)])))"

subsection \<open>Authorised keys\<close>

definition linked_by :: "string \<Rightarrow> succession \<Rightarrow> bool" where
  \<comment> \<open>a succession the key has signed for itself\<close>
  "linked_by key l \<longleftrightarrow> key_mosaic key = Inr (su_predecessor_mosaic l) \<and> verify_succession l key"

text \<open>authorized keys exact. The authorised signing keys: whenever the walk returns, it returns the installed key followed by the successor keys of the longest prefix
  of the lineage in which every link names the identity of the key before it and carries a proof that verifies under that key. Nothing after
  the first discontinuous or unproven link is ever authorised.\<close>

theorem authorized_keys_exact:
  assumes "authorized_keys k0 ls = Inr keys"
  shows "\<exists>n\<le>length ls. keys = k0 # map su_successor_pubkey (take n ls) \<and> (\<forall>i<n. linked_by (keys ! i) (ls ! i)) \<and>
    (n < length ls \<longrightarrow> \<not> linked_by (keys ! n) (ls ! n))"
  using assms unfolding authorized_keys_def
proof (induction k0 ls arbitrary: keys rule: authorized_from.induct)
  case (2 current l ls)
  then obtain m where m: "key_mosaic current = Inr m" by (auto simp: rbind_eq_Inr)
  show ?case
  proof (cases "linked_by current l")
    case True
    then have ok: "\<not> (su_predecessor_mosaic l \<noteq> m \<or> \<not> verify_succession l current)" using m by (simp add: linked_by_def)
    then obtain ks where ks: "authorized_from (su_successor_pubkey l) ls = Inr ks" "keys = current # ks" using 2(2) m by (auto simp: rbind_eq_Inr)
    from 2(1) [OF ok ks(1)] obtain n where n: "n \<le> length ls" "ks = su_successor_pubkey l # map su_successor_pubkey (take n ls)"
      "\<forall>i<n. linked_by (ks ! i) (ls ! i)" "n < length ls \<longrightarrow> \<not> linked_by (ks ! n) (ls ! n)" by blast
    have "\<forall>i<Suc n. linked_by (keys ! i) ((l # ls) ! i)" using n(3) True ks(2) by (auto simp: less_Suc_eq_0_disj)
    then show ?thesis using n ks(2) by (intro exI [of _ "Suc n"]) auto
  next
    case False
    then have "keys = [current]" using 2(2) m by (auto simp: linked_by_def rbind_def split: if_splits)
    then show ?thesis using False by (intro exI [of _ 0]) auto
  qed
qed auto

definition stray_link :: succession where
  \<comment> \<open>a link that names no predecessor\<close>
  "stray_link = \<lparr>su_lineage_hash = [], su_predecessor_mosaic = [], su_successor_mosaic = [], su_successor_pubkey = ''cd'', su_proof = [], su_authority = [],
     su_amendment_hash = [], su_timestamp = []\<rparr>"

lemma to_hex_sha256_neq_Nil: "[] \<noteq> to_hex (sha256 m)"
  by (metis fromhex.simps(1) fromhex_to_hex option.inject sha256_neq_Nil(1))

theorem authorized_keys_exact_witness:
  "authorized_keys ''ab'' [stray_link] = Inr [''ab''] \<and> \<not> linked_by ''ab'' stray_link"
proof -
  have "fromhex ''ab'' = Some [0xab]" by code_simp
  then have keys: "authorized_keys ''ab'' [stray_link] = Inr [''ab'']"
    by (simp add: authorized_keys_def stray_link_def key_mosaic_def rbind_def to_hex_sha256_neq_Nil)
  from authorized_keys_exact [OF keys] show ?thesis using keys by (auto simp: less_Suc_eq)
qed

subsection \<open>Admission\<close>

lemma first_problem_None: "first_problem ps = None \<longleftrightarrow> (\<forall>p\<in>set ps. p = None)"
  by (induction ps rule: first_problem.induct) auto

definition leg_moves :: "string \<Rightarrow> string \<Rightarrow> string \<Rightarrow> string \<Rightarrow> bool" where
  \<comment> \<open>a leg of the frame stands still, or moves as the record commits it\<close>
  "leg_moves cp cs p s \<longleftrightarrow> (if cs = [] then p = s else cp = p \<and> cs = s)"

lemma leg_check_None: "leg_check leg cp cs p s = None \<longleftrightarrow> leg_moves cp cs p s"
  by (simp add: leg_check_def leg_moves_def)

definition key_for :: "amendment \<Rightarrow> string list \<Rightarrow> string option" where
  \<comment> \<open>the first key with the identity the record names\<close>
  "key_for r keys = find (\<lambda>k. key_mosaic k = Inr (ad_authority r)) keys"

lemma mosaics_total: "mosaics keys = (if \<forall>k\<in>set keys. fromhex k \<noteq> None then Inr (map (\<lambda>k. (to_hex (sha256 (the (fromhex k))), k)) keys) else Inl ValueError)"
  by (induction keys) (auto simp: key_mosaic_def rbind_def split: option.splits)

lemma map_of_mosaics: "\<forall>k\<in>set keys. fromhex k \<noteq> None \<Longrightarrow>
    map_of (map (\<lambda>k. (to_hex (sha256 (the (fromhex k))), k)) keys) (ad_authority r) = key_for r keys"
  by (induction keys) (auto simp: key_for_def key_mosaic_def)

definition authorised :: "amendment \<Rightarrow> admission_context \<Rightarrow> bool" where
  \<comment> \<open>signed by the key the record names, which the lineage authorises; the active key unless the record is historical\<close>
  "authorised r c \<longleftrightarrow> ad_signature r \<noteq> [] \<and> (\<exists>keys key. authorized_keys (ac_governor c) (ac_succession c) = Inr keys \<and>
     (\<forall>k\<in>set keys. fromhex k \<noteq> None) \<and> key_for r keys = Some key \<and> (key = last keys \<or> ac_historical c) \<and>
     verify_governor key (signed_payload r) (ad_signature r))"

lemma authority_check_None:
  "authority_check r (ac_governor c) (ac_succession c) (ac_historical c) = (Inr None :: (pyexc, inadmissible option) result) \<longleftrightarrow> authorised r c"
proof (cases "authorized_keys (ac_governor c) (ac_succession c)")
  case (Inr keys)
  then show ?thesis
    by (cases "\<forall>k\<in>set keys. fromhex k \<noteq> None")
      (auto simp: authority_check_def authorised_def mosaics_total map_of_mosaics rbind_def split: option.splits if_splits)
qed (auto simp: authority_check_def authorised_def rbind_def)

definition well_framed :: "amendment \<Rightarrow> admission_context \<Rightarrow> bool" where
  "well_framed r c \<longleftrightarrow> ad_prior_law r = fr_law (ac_prior c) \<and> ad_successor_law r = fr_law (ac_successor c) \<and>
     leg_moves (ad_prior_legend r) (ad_successor_legend r) (fr_legend (ac_prior c)) (fr_legend (ac_successor c)) \<and>
     leg_moves (ad_prior_schema r) (ad_successor_schema r) (fr_schema (ac_prior c)) (fr_schema (ac_successor c))"

definition continues :: "amendment \<Rightarrow> admission_context \<Rightarrow> bool" where
  \<comment> \<open>the lineage goes on from the expected predecessor to a successor that is new\<close>
  "continues r c \<longleftrightarrow> ac_prior_successor c \<in> {None, Some (FrameKey (ac_prior c)), Some (LawKey (ad_prior_law r))} \<and>
     FrameKey (ac_successor c) \<notin> set (ac_existing c) \<and> (LawKey (ad_successor_law r) \<notin> set (ac_existing c) \<or> \<not> set (ac_existing c) \<subseteq> range LawKey) \<and>
     (ad_prior_amendment r = [] \<or> ac_predecessor_hash c = Some (ad_prior_amendment r))"

lemma framed_existing: "list_ex (\<lambda>e. case e of FrameKey _ \<Rightarrow> True | LawKey _ \<Rightarrow> False) es \<longleftrightarrow> \<not> set es \<subseteq> range LawKey"
  by (induction es) (auto split: lineage_key.splits)

lemma lineage_check_None:
  "lineage_check r (ac_prior c) (ac_successor c) (ac_prior_successor c) (ac_existing c) = None \<and> record_check r (ac_predecessor_hash c) = None \<longleftrightarrow> continues r c"
proof -
  have "(\<exists>k. ac_prior_successor c = Some k \<and> (case k of FrameKey f \<Rightarrow> f \<noteq> ac_prior c | LawKey h \<Rightarrow> ad_prior_law r \<noteq> h)) \<longleftrightarrow>
      ac_prior_successor c \<notin> {None, Some (FrameKey (ac_prior c)), Some (LawKey (ad_prior_law r))}"
    by (cases "ac_prior_successor c") (auto split: lineage_key.splits)
  then show ?thesis
    by (auto simp: lineage_check_def record_check_def continues_def framed_existing split: option.splits)
qed

text \<open>C34. No amendment without right, and every rightful one is admitted: a record is admitted exactly when its kind is known, its hash is the digest of its body,
  it describes the change between the two frames leg by leg, it is signed over that very description by the key it names, which the succession lineage authorises
  and which is the active one unless the record is attested as historical, and it continues the lineage: the prior frame or law is the expected one, the successor
  is new, and a committed predecessor hash matches.\<close>

theorem amendment_admitted:
  "is_admissible r c = Inr None \<longleftrightarrow>
    ad_kind r \<in> {''genesis'', ''ordinary''} \<and> ad_hash r = amendment_digest r \<and> well_framed r c \<and> authorised r c \<and> continues r c"
proof -
  let ?frame = "ad_kind r \<in> {''genesis'', ''ordinary''} \<and> ad_hash r = amendment_digest r \<and> well_framed r c"
  show ?thesis
  proof (cases ?frame)
    case True
    then have "is_admissible r c = rbind (authority_check r (ac_governor c) (ac_succession c) (ac_historical c)) (\<lambda>problem.
        Inr (first_problem [problem, lineage_check r (ac_prior c) (ac_successor c) (ac_prior_successor c) (ac_existing c),
          record_check r (ac_predecessor_hash c)]))"
      by (auto simp: is_admissible_def well_framed_def leg_check_None [THEN iffD2] amendment_verify_hash_def)
    moreover have "\<dots> = Inr None \<longleftrightarrow> authorised r c \<and> continues r c"
      unfolding authority_check_None [symmetric] lineage_check_None [symmetric] by (auto simp: rbind_eq_Inr first_problem_None)
    ultimately show ?thesis using True by simp
  next
    case False
    then have "is_admissible r c \<noteq> Inr None"
      by (auto simp: is_admissible_def well_framed_def amendment_verify_hash_def first_problem_None leg_check_None split: option.splits if_splits)
    then show ?thesis using False by blast
  qed
qed

subsection \<open>Integrity of a record\<close>

definition amendment_field :: "string \<Rightarrow> amendment \<Rightarrow> json option" where
  "amendment_field k r = map_option norm_json (map_of (obj_fields (amendment_body r)) k)"

lemma amendment_field_cong: "canonical_json (amendment_body r) = canonical_json (amendment_body q) \<Longrightarrow> amendment_field k r = amendment_field k q"
  unfolding amendment_field_def canonical_json_eq_iff amendment_body_def by (metis map_of_norm obj_fields.simps(1))

lemma amendment_field_simps:
  "amendment_field ''amendment_kind'' r = Some (JStr (ad_kind r))"
  "amendment_field ''authority'' r = Some (JStr (ad_authority r))"
  "amendment_field ''invariants_added'' r = Some (JList (map JStr (ad_added r)))"
  "amendment_field ''invariants_removed'' r = Some (JList (map JStr (ad_removed r)))"
  "amendment_field ''phase_code'' r = Some (JStr (ad_phase_code r))"
  "amendment_field ''prior_law_hash'' r = Some (JStr (ad_prior_law r))"
  "amendment_field ''signature'' r = Some (JStr (ad_signature r))"
  "amendment_field ''successor_law_hash'' r = Some (JStr (ad_successor_law r))"
  "amendment_field ''timestamp'' r = Some (JStr (ad_timestamp r))"
  "amendment_field ''prior_legend_hash'' r = (if ad_prior_legend r = [] then None else Some (JStr (ad_prior_legend r)))"
  "amendment_field ''successor_legend_hash'' r = (if ad_successor_legend r = [] then None else Some (JStr (ad_successor_legend r)))"
  "amendment_field ''prior_schema_hash'' r = (if ad_prior_schema r = [] then None else Some (JStr (ad_prior_schema r)))"
  "amendment_field ''successor_schema_hash'' r = (if ad_successor_schema r = [] then None else Some (JStr (ad_successor_schema r)))"
  "amendment_field ''prior_amendment_hash'' r = (if ad_prior_amendment r = [] then None else Some (JStr (ad_prior_amendment r)))"
  by (simp_all add: amendment_field_def amendment_body_def committed_legs_def comp_def)

lemma leg_inject: "(if a = [] then None else Some (JStr a)) = (if b = [] then None else Some (JStr b)) \<Longrightarrow> a = b"
  by (auto split: if_splits)

lemma map_JStr_inject: "map JStr xs = map JStr ys \<Longrightarrow> xs = ys"
  by (rule map_injective) (auto intro: injI)

lemma amendment_body_inject:
  assumes "canonical_json (amendment_body r) = canonical_json (amendment_body q)"
  shows "r\<lparr>ad_hash := x\<rparr> = q\<lparr>ad_hash := x\<rparr>"
proof -
  note f = amendment_field_cong [OF assms]
  note l = f [of "''prior_legend_hash''"] f [of "''successor_legend_hash''"] f [of "''prior_schema_hash''"] f [of "''successor_schema_hash''"]
    f [of "''prior_amendment_hash''"]
  note legs = l [unfolded amendment_field_simps, THEN leg_inject]
  show ?thesis
    using f [of "''amendment_kind''"] f [of "''authority''"] f [of "''invariants_added''"] f [of "''invariants_removed''"] f [of "''phase_code''"]
      f [of "''prior_law_hash''"] f [of "''signature''"] f [of "''successor_law_hash''"] f [of "''timestamp''"] legs
    by (cases r; cases q) (auto simp: amendment_field_simps dest: map_JStr_inject)
qed

lemma amendment_create_verifies: "amendment_verify_hash (amendment_create now r)"
  by (simp add: amendment_verify_hash_def amendment_create_def Let_def amendment_digest_def amendment_body_def committed_legs_def)

text \<open>amendment hash binds. Integrity of amendments: two records that pass the hash check under the same hash agree in every field, the signature included, unless their bodies
  are a collision of SHA-256; no field of a record can be altered under its hash.\<close>

theorem amendment_hash_binds:
  assumes "amendment_verify_hash r" "amendment_verify_hash q" "ad_hash r = ad_hash q"
  shows "r = q \<or> collide (canonical_json (amendment_body r)) (canonical_json (amendment_body q))"
proof (cases "canonical_json (amendment_body r) = canonical_json (amendment_body q)")
  case True
  then show ?thesis using amendment_body_inject [OF True, of "[]"] assms(3) by (cases r; cases q) simp
next
  case False
  have "sha256 (canonical_json (amendment_body r)) = sha256 (canonical_json (amendment_body q))"
    using assms by (metis amendment_digest_def amendment_verify_hash_def fromhex_to_hex option.inject)
  then show ?thesis using False by (metis sha256_eq_cases)
qed

definition first_amendment :: amendment where
  "first_amendment = amendment_create ''2026-01-01T00:00:00+00:00'' \<lparr>ad_hash = [], ad_prior_law = ''law-1'', ad_successor_law = ''law-2'', ad_added = [''B'', ''A''],
     ad_removed = [], ad_authority = ''governor'', ad_signature = ''ff'', ad_phase_code = ''P'', ad_timestamp = [], ad_kind = ''ordinary'', ad_prior_legend = [],
     ad_successor_legend = [], ad_prior_schema = [], ad_successor_schema = [], ad_prior_amendment = []\<rparr>"

theorem amendment_hash_binds_witness:
  "first_amendment = amendment_create ''later'' first_amendment \<or>
     collide (canonical_json (amendment_body first_amendment)) (canonical_json (amendment_body (amendment_create ''later'' first_amendment)))"
proof -
  have v: "amendment_verify_hash first_amendment" by (simp add: first_amendment_def amendment_create_verifies)
  have "ad_hash first_amendment = ad_hash (amendment_create ''later'' first_amendment)"
    by (simp add: first_amendment_def amendment_create_def Let_def amendment_digest_def amendment_body_def committed_legs_def)
  then show ?thesis by (rule amendment_hash_binds [OF v amendment_create_verifies])
qed

subsection \<open>The archive file\<close>

lemma load_entries_Some [simp]: "load_entries (map Some rs) = rs"
  by (induction rs) auto

lemma appended_records: "av_records (fold archive_append rs a) = av_records a @ rs"
  by (induction rs arbitrary: a) (auto simp: archive_append_def)

text \<open>archive reopens. The archive is append-only and durable: reopening the file after any run of appends to an opened archive gives back the records it was opened with
  followed by the appended ones, in order.\<close>

theorem archive_reopens: "av_records (archive_open (av_file (fold archive_append (r # rs) (archive_open f)))) = av_records (archive_open f) @ r # rs"
proof -
  obtain qs q where q: "r # rs = qs @ [q]" by (metis append_butlast_last_id list.discI)
  have "av_file (fold archive_append (qs @ [q]) a) = Entries (map Some (av_records a @ qs @ [q]))" for a
    by (simp add: archive_append_def appended_records)
  then show ?thesis unfolding q by (simp add: archive_open_def del: map_append)
qed

end
