(* ===== verification/Decisions.thy ===== *)
theory Decisions
  imports Chain
begin

text \<open>
  The verifier's side: the decision procedures over a receipt (\<^verbatim>\<open>ugk/decision.py\<close>) and the witnesses that open one
  commitment of it (\<^verbatim>\<open>ugk/witness.py\<close>). Both read the process-wide policy, key and graph caches, which are part of \<open>store\<close>.

  Main results: a witness of a receipt without a predecessor verifies for each of its seven leaves; a witness of any later receipt never does; what a verified
  witness of the state leaf discloses is the operation and the parameters of the receipt; the decision procedures depend on few of the receipt's fields.
\<close>

subsection \<open>Decision procedures\<close>

datatype decision_error = NonCanonicalCode | Code error_code

type_synonym decision = "bool \<times> decision_error option"

definition GOVERNOR_PUBKEY_HEX :: string where
  "GOVERNOR_PUBKEY_HEX = DEFAULT_TEST_PUBKEY_HEX"

definition D_s :: "receipt \<Rightarrow> (pyexc, decision) result" where
  "D_s r = rbind (H_s (PStr (r_op r)) (of_json (r_parameters r))) (\<lambda>h.
     Inr (if to_hex h \<noteq> r_h_s r then (False, Some NonCanonicalCode) else (True, None)))"

definition authority_path :: "string \<Rightarrow> (store, authority_edge list) prog" where
  "authority_path a s = (case canonical_path_for (st_graph s) a of
     Inl e \<Rightarrow> (Inl (PyExc e), s) | Inr (path, g) \<Rightarrow> (Inr path, s\<lparr>st_graph := g\<rparr>))"

definition policy_of :: "string \<Rightarrow> (store, policy) prog" where
  "policy_of j s = (case lookup_policy (st_policies s) j of
     Inl e \<Rightarrow> (Inl (PyExc e), s) | Inr (p, c) \<Rightarrow> (Inr p, s\<lparr>st_policies := c\<rparr>))"

definition when_ok :: "bool \<times> error_code option \<Rightarrow> (store, decision) prog \<Rightarrow> (store, decision) prog" where
  \<comment> \<open>\<^verbatim>\<open>if not ok: return (False, err)\<close>\<close>
  "when_ok v rest = (case v of (ok, err) \<Rightarrow> if ok then rest else sret (False, map_option Code err))"

definition D_c :: "receipt \<Rightarrow> string \<Rightarrow> int option \<Rightarrow> (store, decision) prog" where
  "D_c r pub now =
     sbind (authority_path (r_authority r)) (\<lambda>path.
     when_ok (verify_canonical_path path pub now) (
     case compute_effective_capabilities path of
       Inl c \<Rightarrow> sret (False, Some (Code c))
     | Inr _ \<Rightarrow>
         sbind (policy_of (r_jurisdiction r)) (\<lambda>p.
         when_ok (verify_policy p pub) (
         sbind (slift (default_epoch ID_PHI_0)) (\<lambda>ei.
         when_ok (case now of
             Some t \<Rightarrow> verify_freshness_claim (build_freshness_claim_from_epoch ei) t ID_PHI_0 pub
           | None \<Rightarrow> verify_epoch_issuance ei pub)
           (sret (True, None)))))))"

definition D_m :: "receipt \<Rightarrow> decision" where
  "D_m r = (if is_hexdigest (r_h_m r) then (True, None) else (False, Some NonCanonicalCode))"

definition D_j :: "receipt \<Rightarrow> bool \<Rightarrow> string list option \<Rightarrow> decision" where
  "D_j r strict_namespace name_keys =
     (if \<not> strict_namespace then (True, None)
      else case validate_name_keys (case name_keys of None \<Rightarrow> [''op:'' @ r_op r] | Some ks \<Rightarrow> ks) None of
        (ok, err) \<Rightarrow> if ok then (True, None) else (False, map_option Code err))"

definition then_decide :: "decision \<Rightarrow> (store, decision) prog \<Rightarrow> (store, decision) prog" where
  "then_decide v rest = (case v of (ok, err) \<Rightarrow> if ok then rest else sret (False, err))"

definition verify_receipt :: "receipt \<Rightarrow> string \<Rightarrow> int option \<Rightarrow> bool \<Rightarrow> string list option \<Rightarrow> (store, decision) prog" where
  "verify_receipt r pub now strict_namespace name_keys =
     sbind (slift (D_s r)) (\<lambda>v. then_decide v (
     sbind (D_c r pub now) (\<lambda>v. then_decide v (
     then_decide (D_m r) (
     then_decide (D_j r strict_namespace name_keys) (sret (True, None)))))))"

subsection \<open>Witnesses\<close>

record witness =
  wi_leaf_tag :: int
  wi_opened_input :: "(string \<times> pyval) list"
  wi_inclusion_path :: "(bytes \<times> side) list"
  wi_h_r_claimed :: string

definition warrant_list :: "receipt \<Rightarrow> pyval" where
  "warrant_list r = PList (if r_warrant_id r = [] then [] else [PStr (r_warrant_id r)])"

definition receipt_leaves :: "bytes \<Rightarrow> bytes \<Rightarrow> bytes \<Rightarrow> bytes \<Rightarrow> string \<Rightarrow> (int \<times> bytes) list" where
  "receipt_leaves hs hc hm hj pid =
     [(TAG_H_S, hs), (TAG_H_C, hc), (TAG_H_M, hm), (TAG_H_J, hj), (TAG_ID_P, H_id_P pid),
      (TAG_ID_SIGMA, H_id_Sigma ID_SIGMA_0), (TAG_ID_PHI, H_id_Phi ID_PHI_0)]"

definition rebuild_leaves :: "receipt \<Rightarrow> freshness_claim \<Rightarrow> string \<times> string \<times> json \<times> string list \<Rightarrow> (pyexc, (int \<times> bytes) list) result" where
  "rebuild_leaves r fc gov =
     (case gov of (pid, key, chain, caps) \<Rightarrow>
      rbind (H_s (PStr (r_op r)) (of_json (r_parameters r))) (\<lambda>hs.
      rbind (H_c (of_json chain) (PStr pid) (PList (map PStr caps)) (warrant_list r) (PStr (r_parent_h_r r)) (of_json (claim_dict fc))) (\<lambda>hc.
      rbind (H_m (PStr (r_intent r)) (PStr (r_intent_ref r)) (PStr (r_legend_hash r)) (PList []) ID_SIGMA_0) (\<lambda>hm.
      rbind (H_j (PStr (fc_phase_code fc)) (PStr MOSAIC_ROOT_PHI_0) (PStr (r_session_dkn r)) (PStr key)) (\<lambda>hj.
      Inr (receipt_leaves hs hc hm hj pid))))))"

definition reconstruct_leaves_for :: "receipt \<Rightarrow> (store, (int \<times> bytes) list) prog" where
  "reconstruct_leaves_for r =
     sbind (slift (default_epoch ID_PHI_0)) (\<lambda>ei.
     sbind (lookup_governance (r_jurisdiction r) (r_authority r)) (\<lambda>gov.
     slift (rebuild_leaves r (build_freshness_claim_from_epoch ei) gov)))"

definition opening_governance :: "string \<Rightarrow> string \<Rightarrow> (store, string \<times> string \<times> json \<times> string list) prog" where
  \<comment> \<open>the look-ups of \<open>_opened_input_for\<close>: \<^verbatim>\<open>sorted(None)\<close> on an escalation\<close>
  "opening_governance jurisdiction authority s =
     (case lookup_policy_id (st_policies s) jurisdiction of
        Inl e \<Rightarrow> (Inl (PyExc e), s)
      | Inr (pid, pc) \<Rightarrow>
          (case lookup_authority_key (st_keys s) authority of
             (key, kc) \<Rightarrow>
               (let s1 = s\<lparr>st_policies := pc, st_keys := kc\<rparr> in
                case canonical_path_as_dicts (st_graph s1) authority of
                  Inl e \<Rightarrow> (Inl (PyExc e), s1)
                | Inr (chain, g) \<Rightarrow>
                    (let s2 = s1\<lparr>st_graph := g\<rparr> in
                     case canonical_path_for g authority of
                       Inl e \<Rightarrow> (Inl (PyExc e), s2)
                     | Inr (path, g') \<Rightarrow>
                         (let s3 = s2\<lparr>st_graph := g'\<rparr> in
                          case compute_effective_capabilities path of
                            Inl e \<Rightarrow> (Inl (PyExc TypeError), s3)
                          | Inr caps \<Rightarrow> (Inr (pid, key, chain, sort caps), s3))))))"

definition opened_fields :: "receipt \<Rightarrow> int \<Rightarrow> freshness_claim \<Rightarrow> string \<times> string \<times> json \<times> string list \<Rightarrow> (pyexc, (string \<times> pyval) list) result" where
  "opened_fields r tag fc gov =
     (case gov of (pid, key, chain, caps) \<Rightarrow>
      if tag = TAG_H_S then Inr [(''op'', PStr (r_op r)), (''parameters'', of_json (r_parameters r))]
      else if tag = TAG_H_C then Inr
        [(''authority_chain'', of_json chain), (''policy_id'', PStr pid), (''capabilities'', PList (map PStr caps)),
         (''warrant_basis'', warrant_list r), (''parent_H_r'', PStr (r_parent_h_r r)), (''freshness'', of_json (claim_dict fc))]
      else if tag = TAG_H_M then Inr
        [(''intent'', PStr (r_intent r)), (''intent_ref'', PStr (r_intent_ref r)), (''legend_hash'', PStr (r_legend_hash r)),
         (''semantic_lineage'', PList []), (''semantic_regime_id'', PStr ID_SIGMA_0)]
      else if tag = TAG_H_J then Inr
        [(''phase_code'', PStr (fc_phase_code fc)), (''mosaic_root'', PStr MOSAIC_ROOT_PHI_0), (''session_id'', PStr (r_session_dkn r)),
         (''authority_key'', PStr key)]
      else if tag = TAG_ID_P then Inr [(''policy_id'', PStr pid)]
      else if tag = TAG_ID_SIGMA then Inr [(''semantic_regime_id'', PStr ID_SIGMA_0)]
      else if tag = TAG_ID_PHI then Inr [(''phase_code'', PStr ID_PHI_0)]
      else Inl ValueError)"

definition opened_input_for :: "receipt \<Rightarrow> int \<Rightarrow> (store, (string \<times> pyval) list) prog" where
  "opened_input_for r tag =
     sbind (slift (default_epoch ID_PHI_0)) (\<lambda>ei.
     sbind (opening_governance (r_jurisdiction r) (r_authority r)) (\<lambda>gov.
     slift (opened_fields r tag (build_freshness_claim_from_epoch ei) gov)))"

definition field :: "string \<Rightarrow> (string \<times> pyval) list \<Rightarrow> (pyexc, pyval) result" where
  "field k d = (case map_of d k of None \<Rightarrow> Inl KeyError | Some v \<Rightarrow> Inr v)"

fun encodable :: "pyval \<Rightarrow> (pyexc, string) result" where
  \<comment> \<open>\<^verbatim>\<open>x.encode("utf-8")\<close>\<close>
  "encodable (PStr s) = Inr s"
| "encodable _ = Inl AttributeError"

definition recompute_leaf_hash :: "int \<Rightarrow> (string \<times> pyval) list \<Rightarrow> (pyexc, bytes) result" where
  "recompute_leaf_hash tag d =
     (if tag = TAG_H_S then rbind (field ''op'' d) (\<lambda>x. rbind (field ''parameters'' d) (\<lambda>y. H_s x y))
      else if tag = TAG_H_C then
        rbind (field ''authority_chain'' d) (\<lambda>ac. rbind (field ''policy_id'' d) (\<lambda>pid. rbind (field ''capabilities'' d) (\<lambda>caps.
        rbind (field ''warrant_basis'' d) (\<lambda>wb. rbind (field ''parent_H_r'' d) (\<lambda>parent. rbind (field ''freshness'' d) (\<lambda>fr.
        H_c ac pid caps wb parent fr))))))
      else if tag = TAG_H_M then
        rbind (field ''intent'' d) (\<lambda>i. rbind (field ''intent_ref'' d) (\<lambda>ir. rbind (field ''legend_hash'' d) (\<lambda>l.
        rbind (field ''semantic_lineage'' d) (\<lambda>sl. rbind (field ''semantic_regime_id'' d) (\<lambda>g.
        rbind (c_m i ir l sl) (\<lambda>_. rbind (encodable g) (\<lambda>g. H_m i ir l sl g)))))))
      else if tag = TAG_H_J then
        rbind (field ''phase_code'' d) (\<lambda>pc. rbind (field ''mosaic_root'' d) (\<lambda>m. rbind (field ''session_id'' d) (\<lambda>sd.
        rbind (field ''authority_key'' d) (\<lambda>k. H_j pc m sd k))))
      else if tag = TAG_ID_P then rbind (field ''policy_id'' d) (\<lambda>x. rbind (encodable x) (\<lambda>s. Inr (H_id_P s)))
      else if tag = TAG_ID_SIGMA then rbind (field ''semantic_regime_id'' d) (\<lambda>x. rbind (encodable x) (\<lambda>s. Inr (H_id_Sigma s)))
      else if tag = TAG_ID_PHI then rbind (field ''phase_code'' d) (\<lambda>x. rbind (encodable x) (\<lambda>s. Inr (H_id_Phi s)))
      else Inl ValueError)"

definition construct_witness :: "receipt \<Rightarrow> int \<Rightarrow> (store, witness) prog" where
  "construct_witness r tag =
     sbind (reconstruct_leaves_for r) (\<lambda>leaves.
     sbind (slift (build_inclusion_proof leaves tag)) (\<lambda>(_, path).
     sbind (opened_input_for r tag) (\<lambda>d.
     sret \<lparr>wi_leaf_tag = tag, wi_opened_input = d, wi_inclusion_path = path, wi_h_r_claimed = r_h_r r\<rparr>)))"

definition verify_witness :: "witness \<Rightarrow> (pyexc, decision) result" where
  \<comment> \<open>\<^verbatim>\<open>KeyError\<close>, \<^verbatim>\<open>ValueError\<close> with its subclass and \<^verbatim>\<open>TypeError\<close> of the first step are caught\<close>
  "verify_witness w =
     (case recompute_leaf_hash (wi_leaf_tag w) (wi_opened_input w) of
        Inl e \<Rightarrow> if e \<in> {KeyError, ValueError, NonCanonical, TypeError} then Inr (False, Some NonCanonicalCode) else Inl e
      | Inr h \<Rightarrow> rbind (leaf_encoding (wi_leaf_tag w) h) (\<lambda>target.
          case fromhex (wi_h_r_claimed w) of
            None \<Rightarrow> Inr (False, Some NonCanonicalCode)
          | Some root \<Rightarrow>
              Inr (if verify_inclusion_proof root target (wi_inclusion_path w) then (True, None) else (False, Some NonCanonicalCode))))"

definition MODE_STRICT :: string where "MODE_STRICT = ''strict''"
definition MODE_CONTEXT_EXTERNAL :: string where "MODE_CONTEXT_EXTERNAL = ''context_external''"

datatype recording = WellRecorded | UnderRecordedCollapse

definition verify_well_recorded :: "string \<Rightarrow> witness option \<Rightarrow> witness option \<Rightarrow> (pyexc, recording) result" where
  \<comment> \<open>the recovery and the collapse witness\<close>
  "verify_well_recorded mode recovery collapse =
     (if mode = MODE_STRICT then Inr WellRecorded
      else if mode = MODE_CONTEXT_EXTERNAL then
        Inr (if recovery = None \<and> collapse = None then UnderRecordedCollapse else WellRecorded)
      else Inl ValueError)"

subsection \<open>Look-ups are stable\<close>

definition same_caches :: "store \<Rightarrow> store \<Rightarrow> bool" where
  "same_caches s t \<longleftrightarrow> st_policies t = st_policies s \<and> st_keys t = st_keys s \<and> st_graph t = st_graph s"

lemma path_stable: "canonical_path_for g a = Inr (path, g') \<Longrightarrow> canonical_path_for g' a = Inr (path, g')"
  by (auto simp: canonical_path_for_def ensure_default_edge_for_def rbind_def has_subject_def add_edge_def sign_authority_edge_def Let_def
      split: if_splits sum.splits)

lemma lookup_policy_id_stable: "lookup_policy_id c j = Inr (pid, c') \<Longrightarrow> lookup_policy_id c' j = Inr (pid, c')"
  by (auto simp: lookup_policy_id_def lookup_policy_def rbind_eq_Inr split: option.splits)

lemma lookup_authority_key_stable: "lookup_authority_key c a = (k, c') \<Longrightarrow> lookup_authority_key c' a = (k, c')"
  by (auto simp: lookup_authority_key_def Let_def split: option.splits)

lemma lookup_governance_stable:
  assumes "lookup_governance j a s = (Inr gov, s')" "same_caches s' t"
  shows "lookup_governance j a t = (Inr gov, t)" "opening_governance j a t = (Inr gov, t)"
proof -
  obtain pid pc key kc path g chain g' caps where h: "lookup_policy_id (st_policies s) j = Inr (pid, pc)" "lookup_authority_key (st_keys s) a = (key, kc)"
    "canonical_path_for (st_graph s) a = Inr (path, g)" "canonical_path_as_dicts g a = Inr (chain, g')" "compute_effective_capabilities path = Inr caps"
    and gov: "gov = (pid, key, chain, sort caps)" and s': "s' = s\<lparr>st_policies := pc, st_keys := kc, st_graph := g'\<rparr>"
    using assms(1) by (auto simp: lookup_governance_def Let_def split: sum.splits prod.splits)
  have g: "canonical_path_for g a = Inr (path, g)" by (rule path_stable [OF h(3)])
  then have c: "chain = JList (map ae_to_canonical_dict path)" "g' = g" using h(4) by (auto simp: canonical_path_as_dicts_def)
  have t: "st_policies t = pc" "st_keys t = kc" "st_graph t = g" using assms(2) s' c(2) by (auto simp: same_caches_def)
  have u: "t\<lparr>st_policies := pc, st_keys := kc\<rparr> = t" "t\<lparr>st_graph := g\<rparr> = t" using t by auto
  show "lookup_governance j a t = (Inr gov, t)" "opening_governance j a t = (Inr gov, t)"
    using t u g h(5) lookup_policy_id_stable [OF h(1)] lookup_authority_key_stable [OF h(2)]
    by (simp_all add: lookup_governance_def opening_governance_def canonical_path_as_dicts_def Let_def gov c(1))
qed

subsection \<open>What a constructed witness opens\<close>

definition LEAF_TAGS :: "int list" where
  "LEAF_TAGS = [TAG_H_S, TAG_H_C, TAG_H_M, TAG_H_J, TAG_ID_P, TAG_ID_SIGMA, TAG_ID_PHI]"

lemma opened_recomputes:
  assumes "rebuild_leaves r fc gov = Inr ls" "tag \<in> set LEAF_TAGS"
  shows "\<exists>d h. opened_fields r tag fc gov = Inr d \<and> recompute_leaf_hash tag d = Inr h \<and> (tag, h) \<in> set ls"
proof -
  obtain pid key chain caps where gov: "gov = (pid, key, chain, caps)" by (cases gov)
  from assms(1) obtain hs hc hm hj where h: "H_s (PStr (r_op r)) (of_json (r_parameters r)) = Inr hs"
    "H_c (of_json chain) (PStr pid) (PList (map PStr caps)) (warrant_list r) (PStr (r_parent_h_r r)) (of_json (claim_dict fc)) = Inr hc"
    "H_m (PStr (r_intent r)) (PStr (r_intent_ref r)) (PStr (r_legend_hash r)) (PList []) ID_SIGMA_0 = Inr hm"
    "H_j (PStr (fc_phase_code fc)) (PStr MOSAIC_ROOT_PHI_0) (PStr (r_session_dkn r)) (PStr key) = Inr hj" "ls = receipt_leaves hs hc hm hj pid"
    by (auto simp: rebuild_leaves_def gov rbind_eq_Inr)
  then obtain cm where "c_m (PStr (r_intent r)) (PStr (r_intent_ref r)) (PStr (r_legend_hash r)) (PList []) = Inr cm"
    by (auto simp: H_m_def rbind_eq_Inr)
  then show ?thesis using assms(2) h unfolding LEAF_TAGS_def
    by (auto simp: gov opened_fields_def recompute_leaf_hash_def field_def receipt_leaves_def tag_defs)
qed

lemma verify_inclusion_unique: "verify_inclusion_proof root e path \<Longrightarrow> verify_inclusion_proof root' e path \<longleftrightarrow> root' = root"
  by (auto simp: verify_inclusion_proof_def)

lemma built_path_shape:
  assumes "build_inclusion_proof ls tag = Inr (enc, path)"
  shows "path_shape 55 path \<and> length path = merkle_height (length ls)"
proof -
  obtain encs i where e: "rmap (\<lambda>(tag, h_i). leaf_encoding tag h_i) (sort_key fst ls) = Inr encs" "find_tag tag (sort_key fst ls) = Some i" "path = build_path encs i"
    using assms by (auto simp: build_inclusion_proof_def Let_def rbind_eq_Inr split: option.splits)
  have "length encs = length (sort_key fst ls)" using e(1) by (auto simp: rmap_eq_Inr dest: list_all2_lengthD)
  moreover have "i < length (sort_key fst ls)" using e(2) by (auto simp: find_tag_def Let_def split: if_splits)
  ultimately show ?thesis using build_path_shape [OF _ encoded_lengths [OF e(1)], of i] length_build_path [of encs i] e(3) by simp
qed

lemma construct_witness_verdict:
  assumes "default_epoch ID_PHI_0 = Inr ei" "lookup_governance (r_jurisdiction r) (r_authority r) t = (Inr gov, t)"
    "opening_governance (r_jurisdiction r) (r_authority r) t = (Inr gov, t)"
    "rebuild_leaves r (build_freshness_claim_from_epoch ei) gov = Inr ls" "compute_H_r ls = Inr root" "tag \<in> set LEAF_TAGS"
  shows "\<exists>w. construct_witness r tag t = (Inr w, t) \<and> wi_h_r_claimed w = r_h_r r \<and> wi_leaf_tag w = tag \<and> path_shape 55 (wi_inclusion_path w) \<and>
    length (wi_inclusion_path w) = merkle_height (length ls) \<and>
    verify_witness w = Inr (if fromhex (r_h_r r) = Some root then (True, None) else (False, Some NonCanonicalCode))"
proof -
  obtain d h where d: "opened_fields r tag (build_freshness_claim_from_epoch ei) gov = Inr d" "recompute_leaf_hash tag d = Inr h" "(tag, h) \<in> set ls"
    using opened_recomputes [OF assms(4,6)] by blast
  obtain enc path where e: "build_inclusion_proof ls tag = Inr (enc, path)" "leaf_encoding tag h = Inr enc" "verify_inclusion_proof root enc path"
    using inclusion_proof_complete [OF assms(5) d(3)] by blast
  let ?w = "\<lparr>wi_leaf_tag = tag, wi_opened_input = d, wi_inclusion_path = path, wi_h_r_claimed = r_h_r r\<rparr>"
  have "construct_witness r tag t = (Inr ?w, t)"
    using assms(1-4) d(1) e(1)
    by (simp add: construct_witness_def reconstruct_leaves_for_def opened_input_for_def sbind_def slift_def sret_def)
  moreover have "verify_witness ?w = Inr (if fromhex (r_h_r r) = Some root then (True, None) else (False, Some NonCanonicalCode))"
    using d(2) e(2) verify_inclusion_unique [OF e(3)] by (auto simp: verify_witness_def split: option.splits)
  ultimately show ?thesis using built_path_shape [OF e(1)] by (intro exI [of _ ?w]) simp
qed

subsection \<open>Receipts written by the store\<close>

definition lineage_leaf :: "receipt \<Rightarrow> string option \<Rightarrow> string option \<Rightarrow> (pyexc, bytes) result" where
  "lineage_leaf r prior_h_m prior_ref = H_m (PStr (r_intent r)) (PStr (r_intent_ref r)) (PStr (r_legend_hash r))
     (of_json (lineage_as_dicts (build_lineage prior_h_m prior_ref))) ID_SIGMA_0"

definition replace_meaning :: "bytes \<Rightarrow> (int \<times> bytes) list \<Rightarrow> (int \<times> bytes) list" where
  "replace_meaning hm = map (\<lambda>(t, h). (t, if t = TAG_H_M then hm else h))"

lemma H_m_root_total: "\<exists>hm. H_m (PStr a) (PStr b) (PStr c) (PList []) g = Inr hm"
  by (simp add: H_m_def c_m_def canonical_json_py_def)

lemma written_leaves:
  assumes "prepare_receipt a s = (Inr r, t)"
  shows "\<exists>ei gov ls hm root. default_epoch ID_PHI_0 = Inr ei \<and> lookup_governance (r_jurisdiction r) (r_authority r) (s\<lparr>st_tick := Suc (st_tick s)\<rparr>) = (Inr gov, t) \<and>
    rebuild_leaves r (build_freshness_claim_from_epoch ei) gov = Inr ls \<and> lineage_leaf r (st_prior_h_m s) (st_prior_intent_ref s) = Inr hm \<and>
    compute_H_r (replace_meaning hm ls) = Inr root \<and> r_h_r r = to_hex root"
proof -
  define s1 where "s1 = s\<lparr>st_tick := Suc (st_tick s)\<rparr>"
  obtain eff p grade snapshot gov c sf tvh where h: "lookup_governance (wa_jurisdiction a) (wa_authority a) s1 = (Inr gov, t)"
      "compute_commitments a p (st_prior_h_r s1) (st_prior_h_m t) (st_prior_intent_ref t) gov = Inr c"
    and r: "r = (sealed (build_receipt a p eff grade snapshot (st_clock s (st_tick s)) (st_prior_h_r s1) c sf))\<lparr>r_trace_vector_hash := tvh\<rparr>"
    using assms unfolding prepare_receipt_def Let_def s1_def sealed_def by (auto simp: prog_eqs split: prod.splits)
  have "same_chain s1 t" using lookup_governance_frame [of s1] h(1) by (metis snd_conv)
  then have f: "st_prior_h_r s1 = st_prior_h_r s" "st_prior_h_m t = st_prior_h_m s" "st_prior_intent_ref t = st_prior_intent_ref s"
    by (simp_all add: same_chain_def s1_def)
  obtain pid key chain caps where gov: "gov = (pid, key, chain, caps)" by (cases gov)
  obtain hm0 where hm0: "H_m (PStr (write_intent a)) (PStr (wa_intent_ref a)) (PStr (wa_legend_hash a)) (PList []) ID_SIGMA_0 = Inr hm0"
    using H_m_root_total by blast
  show ?thesis
    using h r f hm0 unfolding s1_def [symmetric]
    by (auto simp: compute_commitments_def gov rbind_eq_Inr Let_def build_receipt_def sealed_def rebuild_leaves_def lineage_leaf_def warrant_list_def
        replace_meaning_def receipt_leaves_def tag_defs)
qed

lemma append_caches: "append_receipt a r s = (Inr r', t) \<Longrightarrow> same_caches s t \<and> (\<exists>i. r' = r\<lparr>r_receipt_id := i\<rparr>)"
  by (auto simp: append_receipt_def prog_eqs on_conn_def swhen_def advance_def same_caches_def split: prod.splits if_splits)

lemma rebuild_leaves_id [simp]: "rebuild_leaves (r\<lparr>r_receipt_id := i\<rparr>) = rebuild_leaves r" "lineage_leaf (r\<lparr>r_receipt_id := i\<rparr>) = lineage_leaf r"
  by (simp_all add: fun_eq_iff rebuild_leaves_def lineage_leaf_def warrant_list_def)

lemma rebuilt_root:
  assumes "rebuild_leaves r fc gov = Inr ls"
  shows "\<exists>root. compute_H_r ls = Inr root"
proof -
  obtain pid key chain caps where gov: "gov = (pid, key, chain, caps)" by (cases gov)
  obtain hs hc hm hj where h: "ls = receipt_leaves hs hc hm hj pid" "length hs = 32" "length hc = 32" "length hm = 32" "length hj = 32"
    using assms by (auto simp: rebuild_leaves_def gov rbind_eq_Inr H_s_def H_c_def H_m_def H_j_def)
  then show ?thesis
    by (intro compute_H_r_ok) (auto simp: receipt_leaves_def tag_defs H_id_P_def H_id_Sigma_def H_id_Phi_def)
qed

lemma written_witness:
  assumes "store_write a s = (Inr r, t)" "tag \<in> set LEAF_TAGS"
  shows "\<exists>ls hm hm' root root' w. reconstruct_leaves_for r t = (Inr ls, t) \<and> lineage_leaf r (st_prior_h_m s) (st_prior_intent_ref s) = Inr hm \<and>
    lineage_leaf r None None = Inr hm' \<and> (TAG_H_M, hm') \<in> set ls \<and> replace_meaning hm' ls = ls \<and>
    compute_H_r (replace_meaning hm ls) = Inr root \<and> compute_H_r ls = Inr root' \<and> r_h_r r = to_hex root \<and> construct_witness r tag t = (Inr w, t) \<and> wi_h_r_claimed w = r_h_r r \<and>
    wi_leaf_tag w = tag \<and> path_shape 55 (wi_inclusion_path w) \<and> length (wi_inclusion_path w) = merkle_height (length ls) \<and>
    verify_witness w = Inr (if root = root' then (True, None) else (False, Some NonCanonicalCode))"
proof -
  obtain r0 s1 where p: "prepare_receipt a s = (Inr r0, s1)" and q: "append_receipt a r0 s1 = (Inr r, t)"
    using assms(1) by (auto simp: store_write_def sbind_eq_Inr)
  obtain i where c: "same_caches s1 t" and r: "r = r0\<lparr>r_receipt_id := i\<rparr>" using append_caches [OF q] by blast
  obtain ei gov ls hm root where w: "default_epoch ID_PHI_0 = Inr ei"
    "lookup_governance (r_jurisdiction r0) (r_authority r0) (s\<lparr>st_tick := Suc (st_tick s)\<rparr>) = (Inr gov, s1)"
    "rebuild_leaves r0 (build_freshness_claim_from_epoch ei) gov = Inr ls" "lineage_leaf r0 (st_prior_h_m s) (st_prior_intent_ref s) = Inr hm"
    "compute_H_r (replace_meaning hm ls) = Inr root" "r_h_r r0 = to_hex root"
    using written_leaves [OF p] by blast
  obtain root' where root': "compute_H_r ls = Inr root'" using rebuilt_root [OF w(3)] by blast
  note l = lookup_governance_stable [OF w(2) c]
  have "rebuild_leaves r (build_freshness_claim_from_epoch ei) gov = Inr ls" using w(3) r by simp
  with construct_witness_verdict [of ei r t gov ls root' tag] w(1) l root' assms(2) r
  obtain v where v: "construct_witness r tag t = (Inr v, t)" "wi_h_r_claimed v = r_h_r r" "wi_leaf_tag v = tag" "path_shape 55 (wi_inclusion_path v)"
    "length (wi_inclusion_path v) = merkle_height (length ls)"
    "verify_witness v = Inr (if fromhex (r_h_r r) = Some root' then (True, None) else (False, Some NonCanonicalCode))"
    by auto
  have "reconstruct_leaves_for r t = (Inr ls, t)"
    using w(1,3) l(1) r by (simp add: reconstruct_leaves_for_def sbind_def slift_def sret_def)
  moreover have "\<exists>hm'. lineage_leaf r0 None None = Inr hm' \<and> (TAG_H_M, hm') \<in> set ls \<and> replace_meaning hm' ls = ls"
    using w(3) by (cases gov) (auto simp: rebuild_leaves_def rbind_eq_Inr receipt_leaves_def tag_defs lineage_leaf_def lineage_as_dicts_def build_lineage_def
        replace_meaning_def)
  moreover have "fromhex (r_h_r r) = Some root' \<longleftrightarrow> root = root'" using w(6) r by simp
  ultimately show ?thesis using w(4-6) root' v r by auto
qed

lemma lineage_leaf_root: "lineage_leaf r None x = lineage_leaf r None None"
  by (simp add: lineage_leaf_def build_lineage_def)

text \<open>C36. Selective disclosure works end to end for the first receipt of a store: from the receipt the store returns, a witness can be constructed for each
  of the seven leaves, and the verifier accepts it against nothing but the receipt root.\<close>

theorem witness_opens:
  assumes "store_write a s = (Inr r, t)" "st_prior_h_m s = None" "tag \<in> set LEAF_TAGS"
  shows "\<exists>w. construct_witness r tag t = (Inr w, t) \<and> wi_h_r_claimed w = r_h_r r \<and> verify_witness w = Inr (True, None)"
proof -
  obtain ls hm hm' root root' w where w: "lineage_leaf r None (st_prior_intent_ref s) = Inr hm" "lineage_leaf r None None = Inr hm'" "replace_meaning hm' ls = ls"
    "compute_H_r (replace_meaning hm ls) = Inr root" "compute_H_r ls = Inr root'" "construct_witness r tag t = (Inr w, t)" "wi_h_r_claimed w = r_h_r r"
    "verify_witness w = Inr (if root = root' then (True, None) else (False, Some NonCanonicalCode))"
    using written_witness [OF assms(1,3)] unfolding assms(2) by blast
  have "hm = hm'" using w(1,2) lineage_leaf_root [of r "st_prior_intent_ref s"] by simp
  then have "root = root'" using w(3-5) by simp
  then show ?thesis using w(6-8) by simp
qed

definition meaning_fields :: "receipt \<Rightarrow> string option \<Rightarrow> string option \<Rightarrow> json" where
  "meaning_fields r prior_h_m prior_ref = JObj (zip [''intent'', ''intent_ref'', ''legend_hash'', ''semantic_lineage'']
     [JStr (r_intent r), JStr (r_intent_ref r), JStr (r_legend_hash r), lineage_as_dicts (build_lineage prior_h_m prior_ref)])"

definition meaning_preimage :: "receipt \<Rightarrow> string option \<Rightarrow> string option \<Rightarrow> bytes" where
  "meaning_preimage r prior_h_m prior_ref = DS_M @ utf8 ID_C_M @ canon (meaning_fields r prior_h_m prior_ref) @ utf8 ID_SIGMA_0"

lemma lineage_leaf_hash: "lineage_leaf r h x = Inr (sha256 (meaning_preimage r h x))"
  by (simp add: lineage_leaf_def H_m_def c_m_def canonical_json_py_def canon_def meaning_preimage_def meaning_fields_def)

lemma meaning_preimage_neq: "meaning_preimage r None x \<noteq> meaning_preimage r (Some h) y"
proof
  assume "meaning_preimage r None x = meaning_preimage r (Some h) y"
  then have "norm_json (meaning_fields r None x) = norm_json (meaning_fields r (Some h) y)"
    by (simp add: meaning_preimage_def canon_eq_iff del: norm_json.simps)
  from norm_zip_inject [OF this [unfolded meaning_fields_def]] show False
    by (simp add: lineage_as_dicts_def build_lineage_def)
qed

text \<open>C37. The limit of the construction: for every receipt that has a predecessor, the witness constructed for any of the seven leaves, also one that has
  nothing to do with meaning, is rejected by the verifier, unless the byte strings hashed on the two sides contain an explicit SHA-256 collision. The leaves are rebuilt with
  an empty semantic lineage.\<close>

theorem witness_only_for_roots:
  assumes "store_write a s = (Inr r, t)" "st_prior_h_m s = Some h" "tag \<in> set LEAF_TAGS"
  shows "\<exists>w ls hm. construct_witness r tag t = (Inr w, t) \<and> reconstruct_leaves_for r t = (Inr ls, t) \<and> lineage_leaf r (Some h) (st_prior_intent_ref s) = Inr hm \<and>
    (verify_witness w = Inr (False, Some NonCanonicalCode) \<or>
     collide (meaning_preimage r None None) (meaning_preimage r (Some h) (st_prior_intent_ref s)) \<or>
     collision_between (root_inputs (encoded_leaves ls)) (root_inputs (encoded_leaves (replace_meaning hm ls))))"
proof -
  obtain ls hm hm' root root' w where w: "reconstruct_leaves_for r t = (Inr ls, t)" "lineage_leaf r (Some h) (st_prior_intent_ref s) = Inr hm"
    "lineage_leaf r None None = Inr hm'" "(TAG_H_M, hm') \<in> set ls"
    "compute_H_r (replace_meaning hm ls) = Inr root" "compute_H_r ls = Inr root'" "construct_witness r tag t = (Inr w, t)"
    "verify_witness w = Inr (if root = root' then (True, None) else (False, Some NonCanonicalCode))"
    using written_witness [OF assms(1,3)] unfolding assms(2) by blast
  consider "root \<noteq> root'" | "hm = hm'" | "root = root'" "hm \<noteq> hm'" by blast
  then show ?thesis
  proof cases
    case 1
    then show ?thesis using w by auto
  next
    case 2
    then have "collide (meaning_preimage r None None) (meaning_preimage r (Some h) (st_prior_intent_ref s))"
      using w(2,3) meaning_preimage_neq by (simp add: lineage_leaf_hash collide_def)
    then show ?thesis using w by blast
  next
    case 3
    have "(TAG_H_M, hm') \<notin> set (replace_meaning hm ls)" using 3(2) by (auto simp: replace_meaning_def)
    then have "set ls \<noteq> set (replace_meaning hm ls)" using w(4) by metis
    moreover have "length ls = length (replace_meaning hm ls)" by (simp add: replace_meaning_def)
    ultimately show ?thesis using receipt_root_binds_leaves [of ls root "replace_meaning hm ls"] w 3(1) by blast
  qed
qed

definition opened_target :: "witness \<Rightarrow> bytes" where
  \<comment> \<open>the leaf the verifier recomputes\<close>
  "opened_target w = (case rbind (recompute_leaf_hash (wi_leaf_tag w) (wi_opened_input w)) (leaf_encoding (wi_leaf_tag w)) of Inl _ \<Rightarrow> [] | Inr e \<Rightarrow> e)"

definition opened_state :: "witness \<Rightarrow> bytes" where
  \<comment> \<open>the preimage of the state leaf the verifier recomputes\<close>
  "opened_state w = (case rbind (field ''op'' (wi_opened_input w)) (\<lambda>x. rbind (field ''parameters'' (wi_opened_input w)) (c_s x)) of
     Inl _ \<Rightarrow> [] | Inr c \<Rightarrow> DS_S @ utf8 ID_C_S @ c)"

definition witness_inputs :: "witness \<Rightarrow> bytes list" where
  \<comment> \<open>the byte strings the verifier hashes for a state witness\<close>
  "witness_inputs w = opened_state w # (DS_R @ utf8 ID_ROOT @ fold_path (opened_target w) (wi_inclusion_path w)) # path_inputs (opened_target w) (wi_inclusion_path w)"

lemma verified_witness:
  assumes "verify_witness w = Inr (True, None)"
  obtains h root where "recompute_leaf_hash (wi_leaf_tag w) (wi_opened_input w) = Inr h" "leaf_encoding (wi_leaf_tag w) h = Inr (opened_target w)"
    "fromhex (wi_h_r_claimed w) = Some root" "verify_inclusion_proof root (opened_target w) (wi_inclusion_path w)"
  using assms that by (auto simp: verify_witness_def opened_target_def rbind_def split: sum.splits option.splits if_splits)

lemma reconstructed_leaves:
  assumes "reconstruct_leaves_for r t = (Inr ls, u)"
  shows "length ls = 7" "(TAG_H_S, h) \<in> set (replace_meaning hm ls) \<Longrightarrow> H_s (PStr (r_op r)) (of_json (r_parameters r)) = Inr h"
  using assms by (auto simp: reconstruct_leaves_for_def prog_eqs rebuild_leaves_def rbind_eq_Inr receipt_leaves_def replace_meaning_def tag_defs
      split: prod.splits)

lemma state_preimage_inject: "state_preimage x p = state_preimage y q \<Longrightarrow> x = y \<and> norm_json p = norm_json q"
proof -
  assume "state_preimage x p = state_preimage y q"
  then have "norm_json (JObj (zip [''op'', ''inputs''] [JStr x, p])) = norm_json (JObj (zip [''op'', ''inputs''] [JStr y, q]))"
    by (simp add: state_preimage_def canon_eq_iff del: norm_json.simps)
  from norm_zip_inject [OF this] show "x = y \<and> norm_json p = norm_json q" by simp
qed

lemma H_s_Inr:
  assumes "H_s x y = Inr h"
  shows "\<exists>opn p. x = PStr opn \<and> to_json y = Inr p \<and> c_s x y = Inr (canon (JObj [(''op'', JStr opn), (''inputs'', p)])) \<and> h = sha256 (state_preimage opn p)"
proof -
  obtain opn where x: "x = PStr opn" using assms by (cases x) (auto simp: H_s_def c_s_def rbind_def)
  obtain p where p: "to_json y = Inr p"
    using assms by (cases "to_json y") (auto simp: H_s_def c_s_def noncanonical_def canonical_json_py_def rbind_def x split: if_splits pyexc.splits)
  show ?thesis using assms x p
    by (auto simp: H_s_def c_s_def canonical_json_py_def canon_def state_preimage_def rbind_def split: if_splits)
qed


subsection \<open>What the decision procedures read\<close>

lemma D_c_reads: "r_authority q = r_authority r \<Longrightarrow> r_jurisdiction q = r_jurisdiction r \<Longrightarrow> D_c q = D_c r"
  unfolding D_c_def by (simp only:)

text \<open>decisions partial. What \<open>verify_receipt\<close> does not protect: its verdict depends on the operation, the parameters, their commitment, the authority, the
  jurisdiction and the meaning commitment alone. Replacing the context and locality commitments, the receipt root, the parent link, the body hash, the intent, the
  warrant, the session or the failure flag of a receipt by anything changes neither the verdict nor the state.\<close>

theorem decisions_partial:
  "verify_receipt (r\<lparr>r_h_c := hc, r_h_j := hj, r_h_r := hr, r_parent_h_r := parent, r_h_body := hb, r_intent := i, r_intent_ref := ir, r_warrant_id := wid,
     r_session_dkn := dkn, r_law_hash := law, r_legend_hash := leg, r_failed := f, r_terminal_outcome := o'\<rparr>) = verify_receipt r"
proof -
  let ?q = "r\<lparr>r_h_c := hc, r_h_j := hj, r_h_r := hr, r_parent_h_r := parent, r_h_body := hb, r_intent := i, r_intent_ref := ir, r_warrant_id := wid,
     r_session_dkn := dkn, r_law_hash := law, r_legend_hash := leg, r_failed := f, r_terminal_outcome := o'\<rparr>"
  have "D_s ?q = D_s r" "D_m ?q = D_m r" by (simp_all add: D_s_def D_m_def)
  moreover have "r_op ?q = r_op r \<Longrightarrow> D_j ?q = D_j r" unfolding D_j_def by (simp only:)
  then have "D_j ?q = D_j r" by simp
  moreover have "D_c ?q = D_c r" by (rule D_c_reads) simp_all
  ultimately show ?thesis unfolding verify_receipt_def by (simp only:)
qed

definition context_holds :: "receipt \<Rightarrow> string \<Rightarrow> int option \<Rightarrow> store \<Rightarrow> bool" where
  "context_holds r pub now s \<longleftrightarrow> (\<exists>path g caps p c ei. canonical_path_for (st_graph s) (r_authority r) = Inr (path, g) \<and>
     fst (verify_canonical_path path pub now) \<and> compute_effective_capabilities path = Inr caps \<and>
     lookup_policy (st_policies s) (r_jurisdiction r) = Inr (p, c) \<and> fst (verify_policy p pub) \<and> default_epoch ID_PHI_0 = Inr ei \<and>
     fst (case now of Some t \<Rightarrow> verify_freshness_claim (build_freshness_claim_from_epoch ei) t ID_PHI_0 pub | None \<Rightarrow> verify_epoch_issuance ei pub))"

lemma when_ok_accepts: "when_ok v rest s = (Inr (True, e), t) \<longleftrightarrow> fst v \<and> rest s = (Inr (True, e), t)"
  by (auto simp: when_ok_def sret_def split: prod.splits)

lemma then_decide_accepts: "then_decide v rest s = (Inr (True, e), t) \<longleftrightarrow> fst v \<and> rest s = (Inr (True, e), t)"
  by (auto simp: then_decide_def sret_def split: prod.splits)

lemma authority_path_eq: "authority_path a s = (Inr path, t) \<longleftrightarrow> (\<exists>g. canonical_path_for (st_graph s) a = Inr (path, g) \<and> t = s\<lparr>st_graph := g\<rparr>)"
  by (auto simp: authority_path_def split: sum.splits)

lemma policy_of_eq: "policy_of j s = (Inr p, t) \<longleftrightarrow> (\<exists>c. lookup_policy (st_policies s) j = Inr (p, c) \<and> t = s\<lparr>st_policies := c\<rparr>)"
  by (auto simp: policy_of_def split: sum.splits)

lemma D_c_accepts: "(\<exists>t. D_c r pub now s = (Inr (True, e), t)) \<longleftrightarrow> context_holds r pub now s \<and> e = None"
proof -
  have "(case x of Inl c \<Rightarrow> sret (False, Some (Code c)) | Inr y \<Rightarrow> rest) u = (Inr (True, e), t) \<longleftrightarrow> (\<exists>y. x = Inr y) \<and> rest u = (Inr (True, e), t)"
    for x :: "(error_code, string list) result" and rest :: "(store, decision) prog" and u t
    by (cases x) (auto simp: sret_def)
  then show ?thesis
    unfolding D_c_def context_holds_def by (fastforce simp: prog_eqs when_ok_accepts authority_path_eq policy_of_eq)
qed

lemma all_members_verdict: "all_members ns ks = (True, None) \<or> all_members ns ks = (False, Some NamespaceNonMember)"
  by (induction ks) auto

text \<open>C38. The composed verifier is the conjunction of its parts: it accepts a receipt exactly when the state commitment is the one of the stored
  operation and parameters, the authority path, its capabilities, the policy and the epoch verify under the given key at the given time, the meaning commitment is
  well formed, and in strict mode the names are members of the namespace.\<close>

theorem receipt_accepted_exactly:
  "(\<exists>t. verify_receipt r pub now strict ks s = (Inr (True, None), t)) \<longleftrightarrow>
    (\<exists>h. H_s (PStr (r_op r)) (of_json (r_parameters r)) = Inr h \<and> r_h_s r = to_hex h) \<and> context_holds r pub now s \<and> is_hexdigest (r_h_m r) \<and>
    (if strict then set (case ks of None \<Rightarrow> [''op:'' @ r_op r] | Some ks \<Rightarrow> ks) \<subseteq> set NAMESPACE_PHI_0 else True)"
proof -
  let ?ks = "case ks of None \<Rightarrow> [''op:'' @ r_op r] | Some ks \<Rightarrow> ks"
  have s: "D_s r = Inr (True, e) \<longleftrightarrow> e = None \<and> (\<exists>h. H_s (PStr (r_op r)) (of_json (r_parameters r)) = Inr h \<and> r_h_s r = to_hex h)" for e
    by (auto simp: D_s_def rbind_eq_Inr)
  have j: "fst (D_j r strict ks) \<longleftrightarrow> (if strict then set ?ks \<subseteq> set NAMESPACE_PHI_0 else True)"
    using validate_all [of ?ks NAMESPACE_PHI_0] all_members_verdict [of NAMESPACE_PHI_0 ?ks]
    by (auto simp: D_j_def validate_name_keys_def split: prod.splits)
  have m: "fst (D_m r) \<longleftrightarrow> is_hexdigest (r_h_m r)" by (simp add: D_m_def)
  have "(\<exists>t. verify_receipt r pub now strict ks s = (Inr (True, None), t)) \<longleftrightarrow>
      (\<exists>e. D_s r = Inr (True, e)) \<and> (\<exists>e t. D_c r pub now s = (Inr (True, e), t)) \<and> fst (D_m r) \<and> fst (D_j r strict ks)"
    by (auto simp: verify_receipt_def prog_eqs then_decide_accepts)
  moreover have "(\<exists>e. D_s r = Inr (True, e)) \<longleftrightarrow> (\<exists>h. H_s (PStr (r_op r)) (of_json (r_parameters r)) = Inr h \<and> r_h_s r = to_hex h)" by (simp add: s)
  moreover have "(\<exists>e t. D_c r pub now s = (Inr (True, e), t)) \<longleftrightarrow> context_holds r pub now s" by (simp add: D_c_accepts)
  ultimately show ?thesis by (simp only: j m)
qed

text \<open>governor receipts refused. The Governor cannot pass: a receipt whose authority is the Governor itself has the empty authority path, which the path verifier
  rejects, so the context decision refuses it under every key and at every time.\<close>

theorem governor_receipts_refused:
  assumes "r_authority r = GOVERNOR_AUTHORITY"
  shows "D_c r pub now s = (Inr (False, Some (Code NoCanonicalPath)), s) \<and> (\<nexists>t. verify_receipt r pub now strict ks s = (Inr (True, None), t))"
proof -
  have p: "canonical_path_for g GOVERNOR_AUTHORITY = Inr ([], g)" for g by (simp add: canonical_path_for_def)
  have v: "verify_canonical_path [] pub now = (False, Some NoCanonicalPath)" by (simp add: verify_canonical_path_def)
  have "D_c r pub now s = (Inr (False, Some (Code NoCanonicalPath)), s)"
    by (simp add: D_c_def sbind_def authority_path_def assms p v when_ok_def sret_def)
  moreover have "\<not> (\<exists>t. verify_receipt r pub now strict ks s = (Inr (True, None), t))"
    unfolding verify_receipt_def using calculation by (auto simp: prog_eqs then_decide_accepts)
  ultimately show ?thesis by blast
qed

subsection \<open>Concrete witnesses\<close>


theorem witness_only_for_roots_witness:
  "\<exists>r t w ls hm. store_write note_args ((fresh_store [])\<lparr>st_prior_h_m := Some ''ab''\<rparr>) = (Inr r, t) \<and> construct_witness r TAG_ID_P t = (Inr w, t) \<and>
    (verify_witness w = Inr (False, Some NonCanonicalCode) \<or> collide (meaning_preimage r None None) (meaning_preimage r (Some ''ab'') None) \<or>
     collision_between (root_inputs (encoded_leaves ls)) (root_inputs (encoded_leaves (replace_meaning hm ls))))"
proof -
  let ?s = "(fresh_store [])\<lparr>st_prior_h_m := Some ''ab''\<rparr>"
  have "\<exists>r t. store_write note_args ?s = (Inr r, t)"
    by (rule store_write_live) (use fresh_store_ok [of "[]"] in \<open>simp_all add: note_args_admissible\<close>)
  then obtain r t where rt: "store_write note_args ?s = (Inr r, t)" by blast
  have "st_prior_h_m ?s = Some ''ab''" "st_prior_intent_ref ?s = None" "TAG_ID_P \<in> set LEAF_TAGS" by (simp_all add: fresh_store_def LEAF_TAGS_def)
  with witness_only_for_roots [OF rt, of "''ab''" TAG_ID_P] rt show ?thesis by auto
qed

theorem witness_opens_witness:
  "\<exists>r t w. store_write note_args (fresh_store []) = (Inr r, t) \<and> construct_witness r TAG_H_C t = (Inr w, t) \<and> verify_witness w = Inr (True, None)"
proof -
  obtain r t where w: "store_write note_args (fresh_store []) = (Inr r, t)" using note_written by blast
  have "st_prior_h_m (fresh_store []) = None" by (simp add: fresh_store_def)
  from witness_opens [OF w this, of TAG_H_C] w show ?thesis by (auto simp: LEAF_TAGS_def)
qed

theorem governor_receipts_refused_witness:
  "D_c (sample_receipt\<lparr>r_authority := ''Governor''\<rparr>) GOVERNOR_PUBKEY_HEX None (fresh_store []) = (Inr (False, Some (Code NoCanonicalPath)), fresh_store [])"
  using governor_receipts_refused [of "sample_receipt\<lparr>r_authority := ''Governor''\<rparr>" GOVERNOR_PUBKEY_HEX None "fresh_store []"]
  by (simp add: GOVERNOR_AUTHORITY_def)

end
