(* ===== verification/Verdicts.thy ===== *)
theory Verdicts
  imports Trace_Vector Surfaces
begin

text \<open>
  Verifiers over evidence that is handed in: the classifier of terminal outcomes (\<^verbatim>\<open>ugk/fga/terminal_outcome.py\<close>), the binding of a committed bridge surface
  (\<^verbatim>\<open>ugk/storage/bridge_binding.py\<close>), the set-valued authority verifier (\<^verbatim>\<open>ugk/authority/a1_verifier.py\<close>) and the check of a reuse boundary
  (\<^verbatim>\<open>ugk/rho_hardened.py\<close>). Resolvers and the admissibility test are arguments; a resolver that raises is \<^const>\<open>None\<close>.

  Main results: each verifier accepts exactly under the conjunction of its conditions, and the classifier never turns an incomplete evaluation into an admission or a refusal.
\<close>

subsection \<open>Terminal outcomes\<close>

definition TERMINAL_OUTCOMES :: "string list" where
  "TERMINAL_OUTCOMES = [''ADMIT'', ''REFUSE'', ''DEFER'', ''STRUCTURAL_ERROR'', ''CRISIS'']"

record partial_trace =
  pe_resolved :: "json list"
  pe_pending :: "json list"
  pe_reason :: string

record root_conflict =
  rc_roots :: "json list"
  rc_detail :: string

record defer_policy =
  dp_reason :: string
  dp_authority_boundary :: string
  dp_continuation_condition :: string
  dp_applies_to :: "string list"

definition authorizes :: "defer_policy \<Rightarrow> string \<Rightarrow> bool" where
  "authorizes p condition_reason \<longleftrightarrow> condition_reason \<in> set (dp_applies_to p)"

record terminal_result =
  to_outcome :: string
  to_model_id :: string
  to_reason :: string
  to_carried_kind :: string
  to_carried_identity :: string
  to_basis :: json
  to_identity :: string

datatype carried = CTrace trace_vector | CPartial partial_trace | CRoots root_conflict | CNone

definition carried_identity :: "carried \<Rightarrow> string" where
  "carried_identity c = (case c of
     CTrace t \<Rightarrow> tv_trace_vector_hash t
   | CPartial p \<Rightarrow> to_hex (sha256 (utf8 ''LM2-PARTIAL-v1'' @ canonical_json (JObj
       [(''resolved'', JList (pe_resolved p)), (''pending'', JList (pe_pending p)), (''reason'', JStr (pe_reason p))])))
   | CRoots r \<Rightarrow> to_hex (sha256 (utf8 ''LM2-ROOT-v1'' @ canonical_json (JObj [(''roots'', JList (rc_roots r)), (''detail'', JStr (rc_detail r))])))
   | CNone \<Rightarrow> [])"

definition mk_outcome :: "string \<Rightarrow> string \<Rightarrow> string \<Rightarrow> carried \<Rightarrow> json \<Rightarrow> terminal_result" where
  "mk_outcome outcome reason kind c basis =
     \<lparr>to_outcome = outcome, to_model_id = TERMINAL_OUTCOME_MODEL_ID, to_reason = reason, to_carried_kind = kind, to_carried_identity = carried_identity c,
      to_basis = basis,
      to_identity = to_hex (sha256 (utf8 ''LM2-OUTCOME-v1'' @ canonical_json (JObj
        [(''model_id'', JStr TERMINAL_OUTCOME_MODEL_ID), (''outcome'', JStr outcome), (''reason'', JStr reason), (''carried_kind'', JStr kind),
         (''carried_identity'', JStr (carried_identity c)), (''basis'', basis)])))\<rparr>"

datatype trace_arg = NoTrace | Complete trace_vector | PartialAsTrace partial_trace | OtherTrace
datatype policy_arg = NoPolicy | Policy defer_policy | NotAPolicy

definition condition_reason :: "partial_trace option \<Rightarrow> string option \<Rightarrow> string" where
  "condition_reason part why = (case why of Some r \<Rightarrow> r | None \<Rightarrow> (case part of Some p \<Rightarrow> pe_reason p | None \<Rightarrow> ''non-evaluable''))"

definition classify_outcome :: "root_conflict option \<Rightarrow> trace_arg \<Rightarrow> partial_trace option \<Rightarrow> string option \<Rightarrow> policy_arg \<Rightarrow> (pyexc, terminal_result) result" where
  "classify_outcome root_conflict trace part structural_reason policy =
     (if policy = NotAPolicy then Inl TypeError
      else if \<exists>p. trace = PartialAsTrace p then Inl TypeError
      else if trace \<noteq> NoTrace \<and> structural_reason \<noteq> None then Inl ValueError
      else case root_conflict of
        Some rc \<Rightarrow> Inr (mk_outcome ''CRISIS'' ''root-frame-jurisdiction-conflict'' ''root_conflict'' (CRoots rc) (JObj [(''root_conflict'', JBool True)]))
      | None \<Rightarrow>
          (case trace of
             NoTrace \<Rightarrow>
               let why = condition_reason part structural_reason; c = (case part of Some p \<Rightarrow> CPartial p | None \<Rightarrow> CNone) in
               (case policy of
                  Policy dp \<Rightarrow>
                    if authorizes dp why then
                      Inr (mk_outcome ''DEFER'' why ''partial'' c (JObj [(''root_conflict'', JBool False), (''complete_trace'', JBool False),
                        (''defer_policy'', JBool True), (''authorizes'', JStr why), (''authority_boundary'', JStr (dp_authority_boundary dp)),
                        (''continuation_condition'', JStr (dp_continuation_condition dp))]))
                    else Inr (mk_outcome ''STRUCTURAL_ERROR'' why (if part = None then ''none'' else ''partial'') c
                      (JObj [(''root_conflict'', JBool False), (''complete_trace'', JBool False), (''defer_policy'', JBool False)]))
                | _ \<Rightarrow> Inr (mk_outcome ''STRUCTURAL_ERROR'' why (if part = None then ''none'' else ''partial'') c
                      (JObj [(''root_conflict'', JBool False), (''complete_trace'', JBool False), (''defer_policy'', JBool False)])))
           | Complete t \<Rightarrow>
               (case aggregate t of (verdict, agg_reason) \<Rightarrow>
                  if verdict = ADMIT then Inr (mk_outcome ''ADMIT'' ''ok'' ''trace_vector'' (CTrace t)
                    (JObj [(''root_conflict'', JBool False), (''complete_trace'', JBool True), (''aggregate'', JStr ''ADMIT'')]))
                  else Inr (mk_outcome ''REFUSE'' agg_reason ''trace_vector'' (CTrace t)
                    (JObj [(''root_conflict'', JBool False), (''complete_trace'', JBool True), (''aggregate'', JStr ''REFUSE'')])))
           | _ \<Rightarrow> Inl TypeError))"

subsection \<open>The bridge surface\<close>

definition BRIDGE_KEYS :: "string list" where
  "BRIDGE_KEYS = [''bridge_record_id'', ''bridge_source_regime_ref'', ''bridge_target_regime_ref'', ''bridge_transformation_ref'', ''bridge_downgrade_reason'',
     ''bridge_preserved_evidence_ref'']"

definition has_bridge_surface :: "(string \<times> json) list \<Rightarrow> bool" where
  "has_bridge_surface d \<longleftrightarrow> list_ex (\<lambda>k. jget d k \<noteq> JNull) BRIDGE_KEYS"

definition bridge_text :: "(string \<times> json) list \<Rightarrow> string \<Rightarrow> string option" where
  "bridge_text d k = (case jget d k of JStr s \<Rightarrow> if s = [] then None else Some s | _ \<Rightarrow> None)"

record resolvers =
  rs_identity :: "string \<Rightarrow> string \<Rightarrow> string \<Rightarrow> string \<Rightarrow> string \<Rightarrow> pyval option"
  rs_divergence :: "string \<Rightarrow> string \<Rightarrow> bool option"
  rs_transformation :: "string \<Rightarrow> bool option"
  rs_evidence :: "string \<Rightarrow> bool option"

datatype bridge_reason =
    NoSurface | Malformed string | OutsideTaxonomy | EmptyRef | NotACrossing | IdentityFailed | IdentityMismatch | NoDivergence | BadTransformation | NoEvidence | Bound

definition safe :: "bool option \<Rightarrow> bool" where
  \<comment> \<open>an exception or a falsey result refutes\<close>
  "safe x \<longleftrightarrow> x = Some True"

definition verify_bridge_binding :: "resolvers \<Rightarrow> (string \<times> json) list \<Rightarrow> bool \<times> bridge_reason" where
  "verify_bridge_binding rs d =
     (if \<not> has_bridge_surface d then (True, NoSurface)
      else case find (\<lambda>k. bridge_text d k = None) BRIDGE_KEYS of
        Some k \<Rightarrow> (False, Malformed k)
      | None \<Rightarrow>
          let t = (\<lambda>k. the (bridge_text d k)); src = t ''bridge_source_regime_ref''; tgt = t ''bridge_target_regime_ref'';
              xform = t ''bridge_transformation_ref''; reason = t ''bridge_downgrade_reason''; ev = t ''bridge_preserved_evidence_ref'' in
          if reason \<notin> set BRIDGE_DOWNGRADE_TAXONOMY then (False, OutsideTaxonomy)
          else if src = [] \<or> tgt = [] \<or> xform = [] \<or> ev = [] then (False, EmptyRef)
          else if src = tgt then (False, NotACrossing)
          else case rs_identity rs src tgt xform reason ev of
            None \<Rightarrow> (False, IdentityFailed)
          | Some expected \<Rightarrow>
              if \<not> (expected \<noteq> PStr [] \<and> expected = PStr (t ''bridge_record_id'')) then (False, IdentityMismatch)
              else if \<not> safe (rs_divergence rs src tgt) then (False, NoDivergence)
              else if \<not> safe (rs_transformation rs xform) then (False, BadTransformation)
              else if \<not> safe (rs_evidence rs ev) then (False, NoEvidence)
              else (True, Bound))"

subsection \<open>Set-valued authority\<close>

record effect_claim =
  cl_claimed_authorities :: "string list"
  cl_cc_version :: string

datatype route = V1_Rule | V2_Rule | Fail_Closed

definition route_version :: "string \<Rightarrow> route" where
  "route_version v = (if v = ''c_c.v1'' then V1_Rule else if v = ''c_c.v2'' then V2_Rule else Fail_Closed)"

definition reconstruct_auth :: "string list \<Rightarrow> (string list \<Rightarrow> bool) \<Rightarrow> string set" where
  "reconstruct_auth chain admissible = fold (\<lambda>a acc. if \<not> admissible (filter (\<lambda>x. x \<noteq> a) chain) then insert a acc else acc) chain {}"

definition verify_a1 :: "string \<Rightarrow> string list \<Rightarrow> effect_claim \<Rightarrow> (string list \<Rightarrow> bool) \<Rightarrow> bool \<Rightarrow> (exc, string) result" where
  "verify_a1 opn chain claim admissible enabled =
     (if \<not> enabled then Inr ''a1-disabled''
      else
        let actual = reconstruct_auth chain admissible; claimed = set (cl_claimed_authorities claim) in
        case route_version (cl_cc_version claim) of
          Fail_Closed \<Rightarrow> Inl (GateRefusal opn ''A1-UNKNOWN-CANON-VERSION'')
        | V1_Rule \<Rightarrow>
            if length chain = 1 then
              if chain ! 0 \<notin> actual then Inl (GateRefusal opn ''A1-NONCUTSET-CLAIM'') else Inr ''legit''
            else Inl (GateRefusal opn ''A1-VERSION-MISMATCH'')
        | V2_Rule \<Rightarrow>
            if actual - claimed \<noteq> {} then Inl (GateRefusal opn ''A1-OMITTED-AUTHORITY'')
            else if claimed - actual \<noteq> {} then Inl (GateRefusal opn ''A1-NONCUTSET-CLAIM'')
            else Inr ''legit'')"

subsection \<open>Reuse boundaries\<close>

record canonical_authority =
  ca_canonical_id :: string
  ca_canonical :: bool
  ca_aliases :: "string list"

record admissibility_stamp =
  as_reachable_without :: bool
  as_evaluated_at :: int
  as_attested_honest :: bool

record reuse_boundary =
  rb_effect_id :: string
  rb_authority :: canonical_authority
  rb_t0 :: int
  rb_t1 :: int
  rb_binding_at_t0 :: bool
  rb_t1_references_t0 :: bool

definition check_E1 :: "reuse_boundary \<Rightarrow> (exc, unit) result" where
  "check_E1 b =
     (if \<not> rb_t1 b > rb_t0 b then Inl (GateRefusal ''rho:E1'' ''E1-BOUNDARY-NONMONOTONIC'')
      else if \<not> rb_binding_at_t0 b then Inl (GateRefusal ''rho:E1'' ''E1-NO-BINDING-AT-T0'')
      else if \<not> rb_t1_references_t0 b then Inl (GateRefusal ''rho:E1'' ''E1-T1-DOES-NOT-REFERENCE-T0'')
      else Inr ())"

definition check_E2 :: "reuse_boundary \<Rightarrow> admissibility_stamp option \<Rightarrow> (exc, admissibility_stamp) result" where
  "check_E2 b stamp = (case stamp of
     None \<Rightarrow> Inl (GateRefusal ''rho:E2'' ''E2-NO-ADMISSIBILITY-STAMP'')
   | Some st \<Rightarrow>
       if as_evaluated_at st \<noteq> rb_t1 b then Inl (GateRefusal ''rho:E2'' ''E2-STALE-STAMP'')
       else if \<not> as_attested_honest st then Inl (GateRefusal ''rho:E2'' ''E2-STAMP-UNATTESTED'')
       else Inr st)"

definition check_E3 :: "reuse_boundary \<Rightarrow> (exc, unit) result" where
  "check_E3 b = (if \<not> ca_canonical (rb_authority b) then Inl (GateRefusal ''rho:E3'' ''E3-RAW-AUTHORITY-HANDLE'') else Inr ())"

definition rho_hardened :: "reuse_boundary \<Rightarrow> admissibility_stamp option \<Rightarrow> bool \<Rightarrow> (exc, string) result" where
  "rho_hardened b stamp enabled =
     (if \<not> enabled then Inr ''rho-disabled''
      else rbind (check_E1 b) (\<lambda>_. rbind (check_E2 b stamp) (\<lambda>st. rbind (check_E3 b) (\<lambda>_.
        if as_reachable_without st then Inl (GateRefusal (''reuse:'' @ rb_effect_id b) ''TEMPORAL-STALE-REUSE'') else Inr ''admit''))))"

subsection \<open>The outcome discipline\<close>

definition well_posed :: "trace_arg \<Rightarrow> string option \<Rightarrow> policy_arg \<Rightarrow> bool" where
  "well_posed trace why policy \<longleftrightarrow> policy \<noteq> NotAPolicy \<and> (\<forall>p. trace \<noteq> PartialAsTrace p) \<and> (trace = NoTrace \<or> why = None)"

definition outcome_of :: "root_conflict option \<Rightarrow> trace_arg \<Rightarrow> partial_trace option \<Rightarrow> string option \<Rightarrow> policy_arg \<Rightarrow> string option" where
  "outcome_of rc trace part why policy = (case classify_outcome rc trace part why policy of Inl _ \<Rightarrow> None | Inr r \<Rightarrow> Some (to_outcome r))"

definition deferrable :: "partial_trace option \<Rightarrow> string option \<Rightarrow> policy_arg \<Rightarrow> bool" where
  "deferrable part why policy \<longleftrightarrow> (\<exists>dp. policy = Policy dp \<and> condition_reason part why \<in> set (dp_applies_to dp))"

text \<open>outcome discipline. Exactly one terminal outcome: an admission or a refusal comes from a complete trace vector and from the aggregation alone; a deferral needs an explicit
  policy that authorises the very reason; an evaluation without a complete trace is otherwise a structural error; a root conflict takes precedence; and ill-posed
  calls raise. A partial evaluation can never be admitted or refused.\<close>

theorem outcome_discipline:
  "(outcome_of rc trace part why policy = Some ''ADMIT'' \<longleftrightarrow> well_posed trace why policy \<and> rc = None \<and> (\<exists>t. trace = Complete t \<and> fst (aggregate t) = ADMIT)) \<and>
   (outcome_of rc trace part why policy = Some ''REFUSE'' \<longleftrightarrow> well_posed trace why policy \<and> rc = None \<and> (\<exists>t. trace = Complete t \<and> fst (aggregate t) \<noteq> ADMIT)) \<and>
   (outcome_of rc trace part why policy = Some ''DEFER'' \<longleftrightarrow> well_posed trace why policy \<and> rc = None \<and> trace = NoTrace \<and> deferrable part why policy) \<and>
   (outcome_of rc trace part why policy = Some ''STRUCTURAL_ERROR'' \<longleftrightarrow> well_posed trace why policy \<and> rc = None \<and> trace = NoTrace \<and> \<not> deferrable part why policy) \<and>
   (outcome_of rc trace part why policy = Some ''CRISIS'' \<longleftrightarrow> well_posed trace why policy \<and> rc \<noteq> None) \<and>
   (outcome_of rc trace part why policy = None \<longleftrightarrow> (if well_posed trace why policy then rc = None \<and> trace = OtherTrace else True))"
proof (cases "well_posed trace why policy")
  case False
  then have "outcome_of rc trace part why policy = None"
    by (auto simp: outcome_of_def classify_outcome_def well_posed_def split: option.splits)
  then show ?thesis using False by simp
next
  case wp: True
  show ?thesis
  proof (cases rc)
    case (Some c)
    then have "outcome_of rc trace part why policy = Some ''CRISIS''"
      using wp by (auto simp: outcome_of_def classify_outcome_def well_posed_def mk_outcome_def)
    then show ?thesis using wp Some by simp
  next
    case None
    then show ?thesis using wp
      by (cases trace; cases policy)
        (auto simp: outcome_of_def classify_outcome_def well_posed_def mk_outcome_def deferrable_def authorizes_def Let_def split: prod.splits)
  qed
qed

subsection \<open>Exact verdicts\<close>

text \<open>bridge bound exactly. A bridge surface is valid exactly when it is absent, or all six fields are non-empty texts, the downgrade reason is in the closed taxonomy, the two
  regimes differ, the committed identifier is the one the resolver derives from the other five, and every resolver confirms; a resolver that raises refutes.\<close>

theorem bridge_bound_exactly:
  "fst (verify_bridge_binding rs d) \<longleftrightarrow> (if has_bridge_surface d then
    \<exists>i src tgt xform reason ev. map (bridge_text d) BRIDGE_KEYS = [Some i, Some src, Some tgt, Some xform, Some reason, Some ev] \<and>
       reason \<in> set BRIDGE_DOWNGRADE_TAXONOMY \<and> src \<noteq> tgt \<and> rs_identity rs src tgt xform reason ev = Some (PStr i) \<and>
       rs_divergence rs src tgt = Some True \<and> rs_transformation rs xform = Some True \<and> rs_evidence rs ev = Some True else True)"
proof -
  have ne: "bridge_text d k = Some s \<Longrightarrow> s \<noteq> []" for k s by (auto simp: bridge_text_def split: json.splits if_splits)
  show ?thesis
  proof (cases "find (\<lambda>k. bridge_text d k = None) BRIDGE_KEYS")
    case (Some k)
    then have "\<exists>k\<in>set BRIDGE_KEYS. bridge_text d k = None" by (auto simp: find_Some_iff)
    then show ?thesis using Some by (auto simp: verify_bridge_binding_def BRIDGE_KEYS_def)
  next
    case None
    then have "\<forall>k\<in>set BRIDGE_KEYS. \<exists>s. bridge_text d k = Some s" by (auto simp: find_None_iff)
    then obtain i src tgt xform reason ev where b: "bridge_text d ''bridge_record_id'' = Some i" "bridge_text d ''bridge_source_regime_ref'' = Some src"
      "bridge_text d ''bridge_target_regime_ref'' = Some tgt" "bridge_text d ''bridge_transformation_ref'' = Some xform"
      "bridge_text d ''bridge_downgrade_reason'' = Some reason" "bridge_text d ''bridge_preserved_evidence_ref'' = Some ev"
      by (auto simp: BRIDGE_KEYS_def)
    then show ?thesis using None ne [OF b(1)] ne [OF b(2)] ne [OF b(3)] ne [OF b(4)] ne [OF b(6)]
      by (auto simp: verify_bridge_binding_def BRIDGE_KEYS_def safe_def Let_def split: option.splits)
  qed
qed

lemma reconstruct_auth_eq: "reconstruct_auth chain admissible = {a \<in> set chain. \<not> admissible (filter (\<lambda>x. x \<noteq> a) chain)}"
proof -
  have "fold (\<lambda>a acc. if P a then insert a acc else acc) xs acc = acc \<union> {a \<in> set xs. P a}" for P and xs :: "string list" and acc
    by (induction xs arbitrary: acc) auto
  then show ?thesis by (simp add: reconstruct_auth_def)
qed

lemma meets: "(if A - B \<noteq> {} then Inl x else if B - A \<noteq> {} then Inl y else Inr z) = Inr z \<longleftrightarrow> B = A"
  by auto

text \<open>a1 legit exactly. The set-valued authority verifier accepts a claim exactly when the verifier is on and either the version is the first one, the chain is a single authority
  and the effect does not survive its removal, or the version is the second one and the claimed authorities are precisely those whose removal ablates the effect: none is
  omitted, none is padded.\<close>

theorem a1_legit_exactly:
  "verify_a1 opn chain claim admissible enabled = Inr ''legit'' \<longleftrightarrow> enabled \<and>
    ((cl_cc_version claim = ''c_c.v1'' \<and> (\<exists>a. chain = [a]) \<and> \<not> admissible []) \<or>
     (cl_cc_version claim = ''c_c.v2'' \<and> set (cl_claimed_authorities claim) = {a \<in> set chain. \<not> admissible (filter (\<lambda>x. x \<noteq> a) chain)}))"
proof -
  let ?cut = "{a \<in> set chain. \<not> admissible (filter (\<lambda>x. x \<noteq> a) chain)}"
  consider "\<not> enabled" | "enabled" "cl_cc_version claim = ''c_c.v1''" | "enabled" "cl_cc_version claim = ''c_c.v2''"
    | "enabled" "cl_cc_version claim \<noteq> ''c_c.v1''" "cl_cc_version claim \<noteq> ''c_c.v2''" by blast
  then show ?thesis
  proof cases
    case 2
    show ?thesis
    proof (cases "\<exists>a. chain = [a]")
      case True
      then show ?thesis using 2 by (auto simp: verify_a1_def Let_def reconstruct_auth_eq route_version_def)
    next
      case False
      then have "length chain \<noteq> 1" by (auto simp: length_Suc_conv)
      then show ?thesis using 2 False by (simp add: verify_a1_def Let_def route_version_def)
    qed
  next
    case 3
    have v: "verify_a1 opn chain claim admissible enabled =
        (if ?cut - set (cl_claimed_authorities claim) \<noteq> {} then Inl (GateRefusal opn ''A1-OMITTED-AUTHORITY'')
         else if set (cl_claimed_authorities claim) - ?cut \<noteq> {} then Inl (GateRefusal opn ''A1-NONCUTSET-CLAIM'') else Inr ''legit'')"
      using 3 by (simp add: verify_a1_def Let_def reconstruct_auth_eq route_version_def)
    have "verify_a1 opn chain claim admissible enabled = Inr ''legit'' \<longleftrightarrow> set (cl_claimed_authorities claim) = ?cut"
      unfolding v by (rule meets)
    then show ?thesis using 3 by simp
  qed (simp_all add: verify_a1_def Let_def route_version_def)
qed

text \<open>rho admits exactly. A reuse is admitted exactly when the check is on, the boundary is ordered, bound at its start and referenced at its end, the stamp was taken at the end of
  the boundary and attested, the authority is canonical, and the effect is not reachable without it.\<close>

theorem rho_admits_exactly:
  "rho_hardened b stamp enabled = Inr ''admit'' \<longleftrightarrow> enabled \<and> rb_t0 b < rb_t1 b \<and> rb_binding_at_t0 b \<and> rb_t1_references_t0 b \<and> ca_canonical (rb_authority b) \<and>
    (\<exists>st. stamp = Some st \<and> as_evaluated_at st = rb_t1 b \<and> as_attested_honest st \<and> \<not> as_reachable_without st)"
  by (cases stamp) (auto simp: rho_hardened_def check_E1_def check_E2_def check_E3_def)

end
