(* ===== verification/Oversight.thy ===== *)
theory Oversight
  imports Complex_Main Kernel
begin

text \<open>
  Oversight of a deployment: the governance posture with its probes (\<^verbatim>\<open>ugk/governance/posture.py\<close>, \<^verbatim>\<open>ugk/cgp/posture.py\<close>, \<^verbatim>\<open>ugk/gate_probe.py\<close>), the evidence map a
  consumer declares (\<^verbatim>\<open>ugk/authority/capability_evidence.py\<close>), the deployment manifest (\<^verbatim>\<open>ugk/charter.py\<close>) and the audit session
  (\<^verbatim>\<open>ugk/storage/audit.py\<close>). The presence of a gate file is a predicate; a database file is the store it opens to; the textual report of a posture is left out.
  The ceremonial share is the exact quotient; a posture only ever holds 0.0 or 1.0.

  Main results: what each disjunct of a posture means; an accepted evidence map accounts for every claim; a written manifest is loaded back; an audit session opens exactly
  on resolvable legends.
\<close>

subsection \<open>Gate probes\<close>

datatype probe_status = CONSTITUTIVE | CEREMONIAL | UNPROBED

definition status_name :: "probe_status \<Rightarrow> string" where
  "status_name s = (case s of CONSTITUTIVE \<Rightarrow> ''CONSTITUTIVE'' | CEREMONIAL \<Rightarrow> ''CEREMONIAL'' | UNPROBED \<Rightarrow> ''UNPROBED'')"

record probe_result =
  pb_result_hash :: string
  pb_op :: string
  pb_status :: probe_status
  pb_refusing_inputs_tested :: nat
  pb_all_refused :: bool
  pb_timestamp :: string

definition probe_digest :: "probe_result \<Rightarrow> string" where
  "probe_digest p = to_hex (sha256 (canonical_json (JObj [(''all_refused'', JBool (pb_all_refused p)), (''op'', JStr (pb_op p)),
     (''refusing_inputs_tested'', JInt (int (pb_refusing_inputs_tested p))), (''status'', JStr (status_name (pb_status p))), (''timestamp'', JStr (pb_timestamp p))])))"

definition probe_verify_hash :: "probe_result \<Rightarrow> bool" where
  "probe_verify_hash p \<longleftrightarrow> probe_digest p = pb_result_hash p"

fun count_refused :: "(exc, bool) result option list \<Rightarrow> (exc, nat) result" where
  \<comment> \<open>an input without a gate is not counted; a gate that raises propagates\<close>
  "count_refused [] = Inr 0"
| "count_refused (None # gs) = count_refused gs"
| "count_refused (Some g # gs) = rbind g (\<lambda>b. rbind (count_refused gs) (\<lambda>n. Inr (if b then n else Suc n)))"

definition probe_constitutive :: "string \<Rightarrow> string \<Rightarrow> (exc, bool) result option list \<Rightarrow> (exc, probe_result) result" where
  \<comment> \<open>operation, time, outcome of the gate of each input\<close>
  "probe_constitutive opn ts gates =
     (let sealed = (\<lambda>p. p\<lparr>pb_result_hash := probe_digest p\<rparr>);
          p = (\<lambda>st n allr. \<lparr>pb_result_hash = [], pb_op = opn, pb_status = st, pb_refusing_inputs_tested = n, pb_all_refused = allr, pb_timestamp = ts\<rparr>) in
      if gates = [] then Inr (sealed (p UNPROBED 0 False))
      else rbind (count_refused gates) (\<lambda>refused.
        Inr (sealed (p (if refused > 0 then CONSTITUTIVE else CEREMONIAL) (length gates) (refused = length gates)))))"

definition is_app_op :: "string \<Rightarrow> bool" where
  "is_app_op opn \<longleftrightarrow> opn \<notin> set KERNEL_OPS \<and> opn \<notin> set UNIVERSAL_OPS"

definition phi_score :: "string list \<Rightarrow> (string \<rightharpoonup> probe_result) \<Rightarrow> rat" where
  "phi_score ops probes =
     (let app = filter is_app_op ops;
          ceremonial = length (filter (\<lambda>opn. case probes opn of Some p \<Rightarrow> pb_status p = CEREMONIAL | None \<Rightarrow> True) app) in
      if app = [] then 0 else of_nat ceremonial / of_nat (length app))"

subsection \<open>Posture\<close>

record posture =
  po_posture_hash :: string
  po_authority_model :: string
  po_phi :: pyfloat
  po_disjunct_a :: string
  po_disjunct_b :: string
  po_disjunct_c :: string
  po_require_gate :: bool
  po_require_warrant :: bool
  po_require_intent :: bool
  po_require_scoped_intent :: bool
  po_matrix_cells :: string
  po_chain_intact :: bool
  po_receipt_count :: nat
  po_session_dkn :: string
  po_law_hash :: string
  po_computed_at :: string

definition posture_digest :: "posture \<Rightarrow> string" where
  "posture_digest p = to_hex (sha256 (canonical_json (JObj
     [(''authority_model'', JStr (po_authority_model p)), (''chain_intact'', JBool (po_chain_intact p)), (''computed_at'', JStr (po_computed_at p)),
      (''disjunct_a'', JStr (po_disjunct_a p)), (''disjunct_b'', JStr (po_disjunct_b p)), (''disjunct_c'', JStr (po_disjunct_c p)),
      (''law_hash'', JStr (po_law_hash p)), (''matrix_cells'', JStr (po_matrix_cells p)), (''phi'', JFloat (po_phi p)),
      (''receipt_count'', JInt (int (po_receipt_count p))), (''require_gate'', JBool (po_require_gate p)), (''require_intent'', JBool (po_require_intent p)),
      (''require_scoped_intent'', JBool (po_require_scoped_intent p)), (''require_warrant'', JBool (po_require_warrant p)),
      (''session_dkn'', JStr (po_session_dkn p))])))"

definition posture_verify_hash :: "posture \<Rightarrow> bool" where
  "posture_verify_hash p \<longleftrightarrow> posture_digest p = po_posture_hash p"

lift_definition float_one :: pyfloat is "''1.0''"
  by (simp add: float_lit_def num_char_def is_digit_def)

definition float_of :: "rat \<Rightarrow> pyfloat" where
  \<comment> \<open>the two values that occur\<close>
  "float_of r = (if r = 0 then float_zero else float_one)"

definition app_ops :: "kernel \<Rightarrow> string list" where
  "app_ops k = filter is_app_op (k_ops k)"

definition matrix_cells :: "kernel \<Rightarrow> bool \<Rightarrow> bool \<Rightarrow> rat \<Rightarrow> json" where
  \<comment> \<open>kernel, gate required, chain intact, ceremonial share\<close>
  "matrix_cells k rg intact phi =
     (let ct = JStr ''constitutive-and-traced'' in JObj
       [(''Identity_actor'', ct), (''Identity_constitution'', ct), (''Identity_infra_ops'', ct),
        (''Identity_app_ops'', JStr (if app_ops k = [] then ''L-layer''
           else if list_ex (\<lambda>opn. map_of (k_op_csil k) opn \<notin> {None, Some 0}) (app_ops k) then ''partial'' else ''unguarded'')),
        (''Projection'', ct), (''Binding'', JStr ''unguarded (honest-absent: kernel governs ops not bindings)''),
        (''Admission'', if rg \<and> intact then ct else if intact then JStr ''traced-only'' else JStr ''unguarded''),
        (''Continuity_artifact'', ct), (''Continuity_actor'', ct), (''Continuity_memory'', JStr ''unguarded (honest-absent)''),
        (''Procedure'', ct), (''Execution'', ct),
        (''Coverage'', if rg \<and> phi = 0 then ct else if rg then JStr ''partial'' else JStr ''unguarded'')])"

definition posture_compute :: "kernel \<Rightarrow> posture" where
  "posture_compute k =
     (let am = k_model k; rg = (case am of Some m \<Rightarrow> am_require_gate m | None \<Rightarrow> False); rw = (case am of Some m \<Rightarrow> am_require_warrant m | None \<Rightarrow> False);
          ri = (case am of Some m \<Rightarrow> am_require_intent m | None \<Rightarrow> False);
          intact = (if k_session_dkn k \<noteq> [] then verify_stream_hash (k_store k) None else True);
          n = (if k_session_dkn k \<noteq> [] then receipt_count (k_store k) else 0);
          phi = phi_score (app_ops k) Map.empty;
          p = \<lparr>po_posture_hash = [], po_authority_model = (case am of Some m \<Rightarrow> am_model_id m | None \<Rightarrow> ''undeclared''), po_phi = float_of phi,
            po_disjunct_a = (if intact then ''covered'' else ''absent''),
            po_disjunct_b = (if rg \<and> phi = 0 then ''covered'' else if rg then ''partial'' else ''absent''),
            po_disjunct_c = (if ri then ''covered'' else if k_will k \<noteq> None then ''partial'' else ''absent''),
            po_require_gate = rg, po_require_warrant = rw, po_require_intent = ri, po_require_scoped_intent = k_require_scoped_intent k,
            po_matrix_cells = dumps spaced_ascii (matrix_cells k rg intact phi), po_chain_intact = intact, po_receipt_count = n,
            po_session_dkn = k_session_dkn k, po_law_hash = k_law_hash k, po_computed_at = k_now k\<rparr> in
      p\<lparr>po_posture_hash := posture_digest p\<rparr>)"

definition compute_from_store :: "store \<Rightarrow> string \<Rightarrow> string \<Rightarrow> authority_model option \<Rightarrow> kernel \<Rightarrow> posture" where
  \<comment> \<open>the shim: what the consumer does not manage is absent; the last argument supplies the registry of operations and the clock\<close>
  "compute_from_store s session_dkn law_hash model env =
     posture_compute (env\<lparr>k_store := s, k_session_dkn := session_dkn, k_law_hash := law_hash, k_model := model, k_require_scoped_intent := False, k_will := None\<rparr>)"

subsection \<open>Evidence maps\<close>

definition STATUS_VOCAB :: "string list" where
  "STATUS_VOCAB = [''DONE'', ''PARTIAL'', ''FUTURE'', ''OUT_OF_SCOPE'', ''ASPIRATIONAL'', ''UNDECLARED'']"

definition GATE_REQUIRED_STATUSES :: "string list" where
  "GATE_REQUIRED_STATUSES = [''DONE'', ''PARTIAL'']"

record capability_claim =
  cc_cap_id :: string
  cc_name :: string
  cc_status :: string
  cc_gate :: pyval
  cc_deterministic :: "bool option"
  cc_scope_notes :: string

definition load_entry :: "(pyval \<Rightarrow> string) \<Rightarrow> string \<Rightarrow> pyval \<Rightarrow> (pyexc, capability_claim) result" where
  \<comment> \<open>the first argument is \<^verbatim>\<open>str()\<close>\<close>
  "load_entry str_of cap_id entry = (case entry of
     PDict e \<Rightarrow>
       (case (map_of e ''name'', map_of e ''status'') of
          (Some nm, Some (PStr st)) \<Rightarrow>
            if st \<notin> set STATUS_VOCAB then Inl ValueError
            else rbind (case map_of e ''deterministic'' of None \<Rightarrow> Inr None | Some PNone \<Rightarrow> Inr None | Some (PBool b) \<Rightarrow> Inr (Some b) | _ \<Rightarrow> Inl ValueError) (\<lambda>det.
              Inr \<lparr>cc_cap_id = cap_id, cc_name = str_of nm, cc_status = st, cc_gate = (case map_of e ''gate'' of None \<Rightarrow> PNone | Some g \<Rightarrow> g),
                cc_deterministic = det, cc_scope_notes = (case map_of e ''scope_notes'' of None \<Rightarrow> [] | Some v \<Rightarrow> str_of v)\<rparr>)
        | _ \<Rightarrow> Inl ValueError)
   | _ \<Rightarrow> Inl ValueError)"

definition load_scope :: "(pyval \<Rightarrow> string) \<Rightarrow> pyval \<Rightarrow> (pyexc, capability_claim list) result" where
  "load_scope str_of scope = (case scope of PDict d \<Rightarrow> rmap (\<lambda>(k, e). load_entry str_of k e) d | _ \<Rightarrow> Inl ValueError)"

definition asserted :: "capability_claim \<Rightarrow> bool" where
  "asserted c \<longleftrightarrow> cc_status c \<in> set GATE_REQUIRED_STATUSES"

definition evidence_problems :: "(pyval \<Rightarrow> bool) \<Rightarrow> capability_claim list \<Rightarrow> string list \<times> string list" where
  \<comment> \<open>the capabilities whose gate file is absent and those that name no gate\<close>
  "evidence_problems exists_gate claims =
     (map cc_cap_id (filter (\<lambda>c. asserted c \<and> cc_gate c \<noteq> PNone \<and> \<not> exists_gate (cc_gate c)) claims),
      map cc_cap_id (filter (\<lambda>c. asserted c \<and> cc_gate c = PNone) claims))"

definition verify_evidence_map :: "(pyval \<Rightarrow> bool) \<Rightarrow> capability_claim list \<Rightarrow> bool" where
  "verify_evidence_map exists_gate claims = (case evidence_problems exists_gate claims of (missing, no_gate) \<Rightarrow> missing = [] \<and> no_gate = [])"

record registry_diff =
  df_registry_only :: "string list"
  df_scope_only :: "string list"
  df_both :: "string list"

definition diff_against_registry :: "capability_claim list \<Rightarrow> string list \<Rightarrow> registry_diff" where
  "diff_against_registry claims caps =
     (let scope_ids = set (map cc_cap_id claims); registry_ids = set caps in
      \<lparr>df_registry_only = sorted_list_of_set (registry_ids - scope_ids), df_scope_only = sorted_list_of_set (scope_ids - registry_ids),
       df_both = sorted_list_of_set (scope_ids \<inter> registry_ids)\<rparr>)"

record evidence_summary =
  es_total :: nat
  es_by_status :: "(string \<times> nat) list"
  es_by_deterministic :: "nat \<times> nat \<times> nat"
  es_evidenced :: nat
  es_unevidenced :: nat

definition summarize :: "capability_claim list \<Rightarrow> evidence_summary" where
  "summarize claims =
     (let count = (\<lambda>P. length (filter P claims)); ev = count (\<lambda>c. asserted c \<and> cc_gate c \<noteq> PNone) in
      \<lparr>es_total = length claims, es_by_status = map (\<lambda>st. (st, count (\<lambda>c. cc_status c = st))) STATUS_VOCAB,
       es_by_deterministic = (count (\<lambda>c. cc_deterministic c = Some True), count (\<lambda>c. cc_deterministic c = Some False), count (\<lambda>c. cc_deterministic c = None)),
       es_evidenced = ev, es_unevidenced = length claims - ev\<rparr>)"

subsection \<open>The deployment manifest\<close>

record manifest =
  mf_manifest_hash :: string
  mf_governor_pubkey :: string
  mf_phase_code :: string
  mf_jurisdiction :: string
  mf_authority_model :: string
  mf_amendment_model :: string
  mf_mosaic_root :: string
  mf_dimension_id :: string
  mf_timestamp :: string

definition MANIFEST_KEYS :: "string list" where
  "MANIFEST_KEYS = [''amendment_model'', ''authority_model'', ''dimension_id'', ''governor_pubkey'', ''jurisdiction'', ''mosaic_root'', ''phase_code'', ''timestamp'']"

definition manifest_values :: "manifest \<Rightarrow> string list" where
  "manifest_values m = [mf_amendment_model m, mf_authority_model m, mf_dimension_id m, mf_governor_pubkey m, mf_jurisdiction m, mf_mosaic_root m, mf_phase_code m,
     mf_timestamp m]"

definition manifest_body :: "manifest \<Rightarrow> json" where
  "manifest_body m = JObj (zip MANIFEST_KEYS (map JStr (manifest_values m)))"

definition manifest_digest :: "manifest \<Rightarrow> string" where
  "manifest_digest m = to_hex (sha256 (canonical_json (manifest_body m)))"

definition manifest_create :: "string \<Rightarrow> string \<Rightarrow> string \<Rightarrow> string \<Rightarrow> string \<Rightarrow> string option \<Rightarrow> string \<Rightarrow> (pyexc, manifest) result" where
  \<comment> \<open>governor key, phase, jurisdiction, authority model, amendment model, time stamp, clock\<close>
  "manifest_create pubkey phase jur am amd ts now =
     rbind (mosaic_id pubkey ''sha256'') (\<lambda>root. rbind (canonical_dkn phase pubkey ''sha256'') (\<lambda>dim.
     let m = \<lparr>mf_manifest_hash = [], mf_governor_pubkey = pubkey, mf_phase_code = phase, mf_jurisdiction = jur, mf_authority_model = am, mf_amendment_model = amd,
            mf_mosaic_root = root, mf_dimension_id = dim, mf_timestamp = (if ts = None \<or> ts = Some [] then now else the ts)\<rparr> in
     Inr (m\<lparr>mf_manifest_hash := manifest_digest m\<rparr>)))"

definition manifest_verify_hash :: "manifest \<Rightarrow> bool" where
  "manifest_verify_hash m \<longleftrightarrow> manifest_digest m = mf_manifest_hash m"

definition verify_derived_fields :: "manifest \<Rightarrow> bool" where
  "verify_derived_fields m \<longleftrightarrow> mosaic_id (mf_governor_pubkey m) ''sha256'' = Inr (mf_mosaic_root m) \<and>
     canonical_dkn (mf_phase_code m) (mf_governor_pubkey m) ''sha256'' = Inr (mf_dimension_id m)"

definition manifest_to_dict :: "manifest \<Rightarrow> (string \<times> string) list" where
  "manifest_to_dict m = (''manifest_hash'', mf_manifest_hash m) # zip MANIFEST_KEYS (manifest_values m)"

record charter_files =
  cf_key :: "string option"
  cf_manifest :: "(string \<times> string) list option"   \<comment> \<open>the parsed file, when it is an object of texts\<close>

definition manifest_of_dict :: "(string \<times> string) list \<Rightarrow> manifest option" where
  \<comment> \<open>the call with the fields as keyword arguments: exactly the nine fields\<close>
  "manifest_of_dict d =
     (let f = (\<lambda>k. the (map_of d k)) in
      if set (map fst d) = insert ''manifest_hash'' (set MANIFEST_KEYS) then
        Some \<lparr>mf_manifest_hash = f ''manifest_hash'', mf_governor_pubkey = f ''governor_pubkey'', mf_phase_code = f ''phase_code'', mf_jurisdiction = f ''jurisdiction'',
          mf_authority_model = f ''authority_model'', mf_amendment_model = f ''amendment_model'', mf_mosaic_root = f ''mosaic_root'',
          mf_dimension_id = f ''dimension_id'', mf_timestamp = f ''timestamp''\<rparr>
      else None)"

definition manifest_load :: "charter_files \<Rightarrow> manifest option" where
  "manifest_load fs = (case cf_manifest fs of None \<Rightarrow> None | Some d \<Rightarrow> manifest_of_dict d)"

datatype charter_error = FileExistsError

definition write_charter_artifacts :: "manifest \<Rightarrow> bool \<Rightarrow> charter_files \<Rightarrow> (charter_error, unit) result \<times> charter_files" where
  "write_charter_artifacts m force fs =
     (if \<not> force \<and> (cf_key fs \<noteq> None \<or> cf_manifest fs \<noteq> None) then (Inl FileExistsError, fs)
      else (Inr (), \<lparr>cf_key = Some (mf_governor_pubkey m @ [CHR 0x0A]), cf_manifest = Some (sort_key fst (manifest_to_dict m))\<rparr>))"

subsection \<open>Audit sessions\<close>

record audit_session =
  au_receipts :: store
  au_warrants :: "warrant_db conn option"

datatype audit_error = FileNotFoundError | LegendNotResolvable string

definition unique_legend_hashes :: "store \<Rightarrow> string list" where
  "unique_legend_hashes s = remdups (filter (\<lambda>h. h \<noteq> []) (map r_legend_hash (db_rows (visible s))))"

definition audit_open :: "store option \<Rightarrow> warrant_db conn option \<Rightarrow> (audit_error, audit_session) result" where
  "audit_open receipt_db warrant_db = (case receipt_db of
     None \<Rightarrow> Inl FileNotFoundError
   | Some rs \<Rightarrow>
       (case find (\<lambda>h. resolve_legend rs h = None) (unique_legend_hashes rs) of
          Some h \<Rightarrow> Inl (LegendNotResolvable h)
        | None \<Rightarrow> Inr \<lparr>au_receipts = rs, au_warrants = warrant_db\<rparr>))"

definition verify_full_chain :: "audit_session \<Rightarrow> bool" where
  "verify_full_chain a = verify_stream_hash (au_receipts a) None"

record attestation_report =
  ar_stream_hash :: string
  ar_hash_verified :: bool
  ar_receipt_count :: nat
  ar_law_hashes :: "string list"
  ar_legend_hashes :: "string list"
  ar_current_legend :: string

definition audit_attest :: "audit_session \<Rightarrow> attestation_report" where
  "audit_attest a =
     (let rs = au_receipts a; texts = (\<lambda>f. sort (remdups (filter (\<lambda>h. h \<noteq> []) (map f (all_receipts rs))))) in
      \<lparr>ar_stream_hash = stream_hash rs, ar_hash_verified = verify_stream_hash rs None, ar_receipt_count = receipt_count rs,
       ar_law_hashes = texts r_law_hash, ar_legend_hashes = texts r_legend_hash, ar_current_legend = LEGEND_HASH\<rparr>)"

definition receipts_in_session :: "audit_session \<Rightarrow> string \<Rightarrow> receipt list" where
  "receipts_in_session a dkn = filter (\<lambda>r. r_session_dkn r = dkn) (all_receipts (au_receipts a))"

definition receipts_for_warrant :: "audit_session \<Rightarrow> string \<Rightarrow> receipt list" where
  "receipts_for_warrant a h = filter (\<lambda>r. r_warrant_id r = h) (all_receipts (au_receipts a))"

definition receipts_by_law_hash :: "audit_session \<Rightarrow> string \<Rightarrow> receipt list" where
  "receipts_by_law_hash a h = filter (\<lambda>r. r_law_hash r = h) (all_receipts (au_receipts a))"

definition warrants_for_invariant :: "audit_session \<Rightarrow> int \<Rightarrow> decision_warrant list" where
  "warrants_for_invariant a i = (case au_warrants a of None \<Rightarrow> [] | Some w \<Rightarrow> basis_query w i)"

definition warrants_for_invariant_and_law :: "audit_session \<Rightarrow> int \<Rightarrow> string \<Rightarrow> decision_warrant list" where
  "warrants_for_invariant_and_law a i h = (case au_warrants a of None \<Rightarrow> [] | Some w \<Rightarrow> basis_query_for_law w i h)"

definition audit_resolve_legend :: "audit_session \<Rightarrow> string \<Rightarrow> (audit_error, json) result" where
  "audit_resolve_legend a h = (case resolve_legend (au_receipts a) h of None \<Rightarrow> Inl (LegendNotResolvable h) | Some e \<Rightarrow> Inr e)"

subsection \<open>What a posture says\<close>

lemma phi_unprobed: "phi_score (app_ops k) Map.empty = (if app_ops k = [] then 0 else 1)"
proof -
  have "filter is_app_op (app_ops k) = app_ops k" by (simp add: app_ops_def)
  then show ?thesis by (simp add: phi_score_def)
qed

lemma posture_digest_hash: "posture_digest (p\<lparr>po_posture_hash := h\<rparr>) = posture_digest p"
  by (simp add: posture_digest_def)

lemma sealed_posture: "posture_verify_hash (p\<lparr>po_posture_hash := posture_digest p\<rparr>)"
  by (simp add: posture_verify_hash_def posture_digest_hash)

text \<open>posture disjuncts. A posture is honest about what it counts: its hash verifies; the trace disjunct is covered exactly when no session is open or the chain verifies; the will
  disjunct exactly when the authority model requires an intent; and the causal disjunct exactly when the model requires a gate and not a single application operation is
  declared, because no probe result reaches the score. Under the operations the package ships it is never covered, whatever the gates do.\<close>

theorem posture_disjuncts:
  "posture_verify_hash (posture_compute k) \<and>
   (po_disjunct_a (posture_compute k) = ''covered'' \<longleftrightarrow> k_session_dkn k = [] \<or> verify_stream_hash (k_store k) None) \<and>
   (po_disjunct_b (posture_compute k) = ''covered'' \<longleftrightarrow> (\<exists>m. k_model k = Some m \<and> am_require_gate m) \<and> app_ops k = []) \<and>
   (po_disjunct_c (posture_compute k) = ''covered'' \<longleftrightarrow> (\<exists>m. k_model k = Some m \<and> am_require_intent m)) \<and>
   po_disjunct_b (posture_compute (k\<lparr>k_ops := GOVERNANCE_OPS\<rparr>)) \<noteq> ''covered''"
proof -
  have h: "posture_verify_hash (posture_compute k)"
    unfolding posture_compute_def Let_def by (rule sealed_posture)
  have a: "po_disjunct_a (posture_compute k) = ''covered'' \<longleftrightarrow> k_session_dkn k = [] \<or> verify_stream_hash (k_store k) None"
    by (auto simp: posture_compute_def Let_def)
  have b: "po_disjunct_b (posture_compute k) = ''covered'' \<longleftrightarrow> (\<exists>m. k_model k = Some m \<and> am_require_gate m) \<and> app_ops k = []" for k
    by (auto simp: posture_compute_def Let_def phi_unprobed split: option.splits)
  have c: "po_disjunct_c (posture_compute k) = ''covered'' \<longleftrightarrow> (\<exists>m. k_model k = Some m \<and> am_require_intent m)"
    by (auto simp: posture_compute_def Let_def split: option.splits)
  have "app_ops (k\<lparr>k_ops := GOVERNANCE_OPS\<rparr>) \<noteq> []"
    by (simp add: app_ops_def is_app_op_def GOVERNANCE_OPS_def UNIVERSAL_OPS_def APPLICATION_OPS_def KERNEL_OPS_def)
  then show ?thesis using h a b c by blast
qed

subsection \<open>What an evidence map accounts for\<close>

lemma load_scope_status: "load_scope str_of scope = Inr claims \<Longrightarrow> c \<in> set claims \<Longrightarrow> cc_status c \<in> set STATUS_VOCAB"
proof -
  assume "load_scope str_of scope = Inr claims" "c \<in> set claims"
  then obtain d where "list_all2 (\<lambda>x y. (case x of (k, e) \<Rightarrow> load_entry str_of k e) = Inr y) d claims"
    by (auto simp: load_scope_def rmap_eq_Inr split: pyval.splits)
  from list_all2_member [OF this \<open>c \<in> set claims\<close>] obtain k e where "load_entry str_of k e = Inr c" by auto
  then show ?thesis by (auto simp: load_entry_def rbind_eq_Inr split: pyval.splits option.splits if_splits)
qed

lemma count_partition:
  assumes "distinct vs" "\<forall>x\<in>set xs. f x \<in> set vs"
  shows "sum_list (map (\<lambda>v. length (filter (\<lambda>x. f x = v) xs)) vs) = length xs"
  using assms(2)
proof (induction xs)
  case (Cons x xs)
  have "sum_list (map (\<lambda>v. if f x = v then 1 else (0 :: nat)) vs) = 1"
    using assms(1) Cons.prems by (simp add: sum_list_distinct_conv_sum_set)
  moreover have "(\<lambda>v. length (filter (\<lambda>y. f y = v) (x # xs))) = (\<lambda>v. (if f x = v then 1 else 0) + length (filter (\<lambda>y. f y = v) xs))" by auto
  ultimately show ?case using Cons by (simp add: sum_list_addf)
qed simp

text \<open>evidence map complete. An accepted evidence map leaves nothing unaccounted: every claim of a loaded scope has one of the six statuses and is counted once by status and once by
  determinism, the evidenced claims are exactly those declared done or partial, and each of these names a gate that is present.\<close>

theorem evidence_map_complete:
  assumes "load_scope str_of scope = Inr claims" "verify_evidence_map exists_gate claims"
  shows "sum_list (map snd (es_by_status (summarize claims))) = es_total (summarize claims) \<and>
    (case es_by_deterministic (summarize claims) of (t, f, n) \<Rightarrow> t + f + n = es_total (summarize claims)) \<and>
    es_evidenced (summarize claims) = length (filter asserted claims) \<and> es_evidenced (summarize claims) + es_unevidenced (summarize claims) = es_total (summarize claims) \<and>
    (\<forall>c\<in>set claims. asserted c \<longrightarrow> cc_gate c \<noteq> PNone \<and> exists_gate (cc_gate c))"
proof -
  have g: "\<forall>c\<in>set claims. asserted c \<longrightarrow> cc_gate c \<noteq> PNone \<and> exists_gate (cc_gate c)"
    using assms(2) by (auto simp: verify_evidence_map_def evidence_problems_def filter_empty_conv)
  then have "filter (\<lambda>c. asserted c \<and> cc_gate c \<noteq> PNone) claims = filter asserted claims" by (intro filter_cong) auto
  then have e: "es_evidenced (summarize claims) = length (filter asserted claims)" by (simp add: summarize_def Let_def)
  have "sum_list (map (\<lambda>v. length (filter (\<lambda>c. cc_status c = v) claims)) STATUS_VOCAB) = length claims"
    by (rule count_partition) (use load_scope_status [OF assms(1)] in \<open>auto simp: STATUS_VOCAB_def\<close>)
  then have "sum_list (map snd (es_by_status (summarize claims))) = es_total (summarize claims)" by (simp add: summarize_def Let_def comp_def)
  moreover have "length (filter (\<lambda>c. cc_deterministic c = Some True) claims) + length (filter (\<lambda>c. cc_deterministic c = Some False) claims) +
      length (filter (\<lambda>c. cc_deterministic c = None) claims) = length claims"
  proof -
    have "x \<in> set [Some True, Some False, None]" for x :: "bool option" by (cases x) auto
    then show ?thesis using count_partition [of "[Some True, Some False, None]" claims cc_deterministic] by simp
  qed
  ultimately show ?thesis using e g by (simp add: summarize_def Let_def)
qed

definition sample_scope :: pyval where
  "sample_scope = PDict [(''Cap-1'', PDict [(''name'', PStr ''chain''), (''status'', PStr ''DONE''), (''gate'', PStr ''chain_gate''), (''deterministic'', PBool True)]),
     (''Cap-2'', PDict [(''name'', PStr ''will''), (''status'', PStr ''FUTURE'')])]"

theorem evidence_map_complete_witness:
  "\<exists>claims. load_scope (\<lambda>_. []) sample_scope = Inr claims \<and> es_evidenced (summarize claims) = 1 \<and> es_total (summarize claims) = 2"
proof -
  obtain claims where l: "load_scope (\<lambda>_. []) sample_scope = Inr claims" and n: "length claims = 2" "length (filter asserted claims) = 1"
    and v: "verify_evidence_map (\<lambda>g. g = PStr ''chain_gate'') claims"
    by (simp add: load_scope_def sample_scope_def load_entry_def STATUS_VOCAB_def asserted_def GATE_REQUIRED_STATUSES_def verify_evidence_map_def evidence_problems_def)
  from evidence_map_complete [OF l v] show ?thesis using l n by (auto simp: summarize_def Let_def)
qed

subsection \<open>Manifests and audits\<close>

lemma manifest_dict_keys: "map fst (manifest_to_dict m) = ''manifest_hash'' # MANIFEST_KEYS"
  by (simp add: manifest_to_dict_def MANIFEST_KEYS_def manifest_values_def)

text \<open>charter round trip. The founding artifacts: without force an existing deployment is never overwritten; otherwise the key file holds the governor key and loading the manifest
  file gives back the very manifest that was written.\<close>

theorem charter_round_trip:
  "(case write_charter_artifacts m force fs of
      (Inl _, fs') \<Rightarrow> fs' = fs \<and> \<not> force
    | (Inr _, fs') \<Rightarrow> (force \<or> cf_key fs = None \<and> cf_manifest fs = None) \<and> cf_key fs' = Some (mf_governor_pubkey m @ [CHR 0x0A]) \<and> manifest_load fs' = Some m)"
proof -
  have d: "distinct (map fst (manifest_to_dict m))" by (simp add: manifest_dict_keys MANIFEST_KEYS_def)
  have "map_of (sort_key fst (manifest_to_dict m)) = map_of (manifest_to_dict m)" by (rule map_of_sort_key) (rule d)
  moreover have "set (map fst (sort_key fst (manifest_to_dict m))) = insert ''manifest_hash'' (set MANIFEST_KEYS)"
    using manifest_dict_keys [of m] by (metis list.set(2) list.set_map set_sort)
  ultimately have "manifest_of_dict (sort_key fst (manifest_to_dict m)) = Some m"
    by (cases m) (simp add: manifest_of_dict_def Let_def, simp add: manifest_to_dict_def MANIFEST_KEYS_def manifest_values_def)
  then show ?thesis by (auto simp: write_charter_artifacts_def manifest_load_def)
qed

lemma manifest_create_sound: "manifest_create pubkey phase jur am amd ts now = Inr m \<Longrightarrow> manifest_verify_hash m \<and> verify_derived_fields m"
  by (auto simp: manifest_create_def rbind_eq_Inr Let_def manifest_verify_hash_def manifest_digest_def manifest_body_def manifest_values_def verify_derived_fields_def)

definition legends_resolvable :: "store \<Rightarrow> bool" where
  "legends_resolvable s \<longleftrightarrow> (\<forall>row\<in>set (db_rows (visible s)). r_legend_hash row \<noteq> [] \<longrightarrow> resolve_legend s (r_legend_hash row) \<noteq> None)"

text \<open>audit opens exactly. An audit session opens exactly on an existing receipt database in which the legend of every receipt that names one can be resolved, and it opens on
  the databases it was given.\<close>

theorem audit_opens_exactly:
  "audit_open rdb wdb = Inr a \<longleftrightarrow> (\<exists>s. rdb = Some s \<and> legends_resolvable s \<and> a = \<lparr>au_receipts = s, au_warrants = wdb\<rparr>)"
proof (cases rdb)
  case (Some s)
  have "find (\<lambda>h. resolve_legend s h = None) (unique_legend_hashes s) = None \<longleftrightarrow> legends_resolvable s"
    by (auto simp: find_None_iff unique_legend_hashes_def legends_resolvable_def)
  then show ?thesis using Some by (auto simp: audit_open_def split: option.splits)
qed (simp add: audit_open_def)

end
