(* ===== verification/Continuity.thy ===== *)
theory Continuity
  imports Amendments
begin

text \<open>
  The continuity proof of the release lineage: \<^verbatim>\<open>tools/grbsa/proof_model_b.py\<close> decides for a pair of release archives whether the
  candidate continues the baseline (byte identity, or frame stability with the behavioural basis and change confinement) and composes the
  links, and \<^verbatim>\<open>tools/grbsa/g6_proof_cache.py\<close> verifies the links not yet attested, with a cache of per-link verdicts.

  The archives directory is the list of its files in listing order. What runs outside these two files is a field of \<open>bench\<close>: the tar reader and
  the outcome of each child process on the extracted candidate (exit code and output). An entry of \<^verbatim>\<open>continuity_surfaces.json\<close> is its JSON
  object, in which the names and hashes are strings or null. Report lines are not kept.

  Main results: an extracted archive stays in its directory, and the last test of the extractor never fires; a link that holds is byte identical or has its frame
  kept or amended, all gates passed and every changed file declared; a cache hit is an entry stored for exactly this identity, or a hash collision; the frontier
  holds only if every unattested link has such an entry or was recomputed on clean archives; a composed attestation is accepted by the verifier exactly when its hashes chain.
\<close>

subsection \<open>Paths and archives\<close>

fun split_on :: "char \<Rightarrow> string \<Rightarrow> string list" where
  \<comment> \<open>\<^verbatim>\<open>s.split(c)\<close>\<close>
  "split_on c [] = [[]]"
| "split_on c (x # xs) = (if x = c then [] # split_on c xs else case split_on c xs of [] \<Rightarrow> [[x]] | w # ws \<Rightarrow> (x # w) # ws)"

definition posix :: "string \<Rightarrow> string" where
  \<comment> \<open>\<^verbatim>\<open>s.replace("\\", "/")\<close>\<close>
  "posix s = map (\<lambda>c. if c = CHR 0x5C then CHR ''/'' else c) s"

datatype member_kind = Regular | Directory | Symlink | Hardlink | Special

record member =
  m_name :: string
  m_kind :: member_kind
  m_data :: bytes

type_synonym tree = "(string \<times> bytes) list"
type_synonym directory = "(string \<times> bytes) list"
type_synonym fields = "(string \<times> json) list"

datatype link_exc = TarUnreadable | UnsafeMember | LawFileMissing | FieldMissing | AttestationGarbled

type_synonym column = "int \<times> string \<times> string \<times> int \<times> string option \<times> int"

record bench =
  bn_untar :: "bytes \<Rightarrow> member list option"
  bn_names :: "bytes \<Rightarrow> string list option"
  bn_legend :: "tree \<Rightarrow> int \<times> string list"
  bn_shape :: "tree \<Rightarrow> int \<times> (string \<times> column list) list option"
  bn_gate :: "tree \<Rightarrow> string \<Rightarrow> int"
  bn_batch :: "tree \<Rightarrow> int \<times> string"
  bn_scale :: "tree \<Rightarrow> int \<times> string"
  bn_al :: "tree \<Rightarrow> int \<times> string"
  bn_amend :: "tree \<Rightarrow> frame \<Rightarrow> frame \<Rightarrow> string list"

definition spec_text :: "string \<Rightarrow> fields \<Rightarrow> string option" where
  "spec_text k spec = (case map_of spec k of Some (JStr s) \<Rightarrow> Some s | _ \<Rightarrow> None)"

definition spec_texts :: "string \<Rightarrow> fields \<Rightarrow> string list" where
  "spec_texts k spec = (case map_of spec k of Some (JList xs) \<Rightarrow> concat (map (\<lambda>x. case x of JStr s \<Rightarrow> [s] | _ \<Rightarrow> []) xs) | _ \<Rightarrow> [])"

definition hex_digest :: "bytes \<Rightarrow> string" where
  "hex_digest d = to_hex (sha256 d)"

definition content_index :: "directory \<Rightarrow> (string \<times> string) list" where
  \<comment> \<open>content hash to file name; the last file listed wins\<close>
  "content_index dir = fold (\<lambda>(f, d) idx. if suffix ''.tar.gz'' f then dict_set (hex_digest d) f idx else idx) dir []"

definition resolve_arch :: "directory \<Rightarrow> string option \<Rightarrow> string option \<Rightarrow> (string \<times> string) list \<Rightarrow> string option" where
  "resolve_arch dir sha fname index =
     (case (case sha of None \<Rightarrow> None | Some s \<Rightarrow> if s = [] then None else map_of index s) of
        Some p \<Rightarrow> Some p
      | None \<Rightarrow> (case fname of None \<Rightarrow> None | Some f \<Rightarrow> if f \<noteq> [] \<and> f \<in> set (map fst dir) then Some f else None))"

definition archive_of :: "string \<Rightarrow> directory \<Rightarrow> (string \<times> string) list \<Rightarrow> fields \<Rightarrow> bytes option" where
  \<comment> \<open>the bytes of the archive a role (baseline or candidate) of a link resolves to, if that file exists\<close>
  "archive_of role dir index spec =
     (case resolve_arch dir (spec_text (role @ ''_sha256'') spec) (spec_text role spec) index of None \<Rightarrow> None | Some p \<Rightarrow> map_of dir p)"

subsection \<open>Extraction\<close>

fun walk_path :: "string list \<Rightarrow> string list \<Rightarrow> string list" where
  \<comment> \<open>\<^verbatim>\<open>os.path.realpath\<close> below a directory that has no links, on path components\<close>
  "walk_path here [] = here"
| "walk_path here (c # cs) =
     (if c = [] \<or> c = ''.'' then walk_path here cs else if c = ''..'' then walk_path (butlast here) cs else walk_path (here @ [c]) cs)"

definition target_of :: "string list \<Rightarrow> member \<Rightarrow> string list" where
  "target_of dest m = walk_path dest (split_on (CHR ''/'') (m_name m))"

definition unsafe_member :: "string list \<Rightarrow> member \<Rightarrow> bool" where
  "unsafe_member dest m \<longleftrightarrow>
     prefix ''/'' (m_name m) \<or> ''..'' \<in> set (split_on (CHR ''/'') (posix (m_name m))) \<or> m_kind m = Symlink \<or> m_kind m = Hardlink \<or>
     \<not> (m_kind m = Regular \<or> m_kind m = Directory) \<or> \<not> prefix dest (target_of dest m)"

definition place_member :: "string list \<Rightarrow> member \<Rightarrow> tree \<Rightarrow> tree" where
  \<comment> \<open>the path is kept relative to the destination\<close>
  "place_member dest m t = (if m_kind m = Regular then dict_set (join_with ''/'' (drop (length dest) (target_of dest m))) (m_data m) t else t)"

definition safe_extract :: "bench \<Rightarrow> string list \<Rightarrow> bytes \<Rightarrow> (link_exc, tree) result" where
  "safe_extract b dest d =
     (case bn_untar b d of
        None \<Rightarrow> Inl TarUnreadable
      | Some ms \<Rightarrow> if list_ex (unsafe_member dest) ms then Inl UnsafeMember else Inr (fold (place_member dest) ms []))"

subsection \<open>The frame and the fingerprints of a tree\<close>

definition law_hash :: "tree \<Rightarrow> (link_exc, string) result" where
  "law_hash t = (case map_of t ''ugk/invariants.py'' of None \<Rightarrow> Inl LawFileMissing | Some d \<Rightarrow> Inr (hex_digest d))"

definition err_text :: "int \<Rightarrow> string" where
  "err_text rc = ''ERR('' @ show_int rc @ '')''"

definition legend_hash :: "bench \<Rightarrow> tree \<Rightarrow> string" where
  "legend_hash b t = (case bn_legend b t of (rc, ls) \<Rightarrow> if rc = 0 \<and> ls \<noteq> [] then last ls else err_text rc)"

definition column_json :: "column \<Rightarrow> json" where
  "column_json c = (case c of (_, name, ty, nn, dflt, pk) \<Rightarrow>
     JList [JStr name, JStr ty, JInt nn, (case dflt of None \<Rightarrow> JNull | Some s \<Rightarrow> JStr s), JInt pk])"

definition schema_hash :: "bench \<Rightarrow> tree \<Rightarrow> string" where
  "schema_hash b t = (case bn_shape b t of
       (rc, Some shape) \<Rightarrow> if rc \<noteq> 0 then err_text rc
         else hex_digest (utf8 (dumps compact_ascii (JObj (map (\<lambda>(t, cols). (t, JList (map column_json (sort_key fst cols)))) shape))))
     | (rc, None) \<Rightarrow> err_text rc)"

definition frame_triad :: "bench \<Rightarrow> tree \<Rightarrow> (link_exc, frame) result" where
  "frame_triad b t = rbind (law_hash t) (\<lambda>l. Inr \<lparr>fr_law = l, fr_legend = legend_hash b t, fr_schema = schema_hash b t\<rparr>)"

definition substrate_file :: "string \<Rightarrow> bool" where
  \<comment> \<open>the files \<^verbatim>\<open>os.walk\<close> of \<^verbatim>\<open>ugk/\<close> gives, less the byte code\<close>
  "substrate_file p \<longleftrightarrow> (let cs = split_on (CHR ''/'') p in
     length cs > 1 \<and> hd cs = ''ugk'' \<and> \<not> sublist ''__pycache__'' (join_with ''/'' (butlast cs)) \<and> \<not> suffix ''.pyc'' (last cs))"

definition add_file :: "string \<times> bytes \<Rightarrow> (string \<times> string) list \<Rightarrow> (string \<times> string) list" where
  "add_file a fp = (if substrate_file (fst a) then dict_set (posix (fst a)) (hex_digest (snd a)) fp else fp)"

definition ugk_files :: "tree \<Rightarrow> (string \<times> string) list" where
  "ugk_files t = fold add_file t []"

definition same_files :: "(string \<times> string) list \<Rightarrow> (string \<times> string) list \<Rightarrow> bool" where
  "same_files bu cu \<longleftrightarrow> list_all (\<lambda>f. map_of bu f = map_of cu f) (map fst bu @ map fst cu)"

subsection \<open>A link\<close>

definition GRBSA_GATES :: "string list" where
  "GRBSA_GATES = [''g1_core_shape_gate'', ''g1_separation_symmetry_gate'', ''g2_substrate_naming_gate'', ''g3_adapter_equivalence_gate'',
     ''g4a_adapter_generality_gate'', ''g4b_projection_adapter_gate'', ''g4c_explain_adapter_gate'', ''category_separation_gate'', ''g5_execution_adapter_gate'']"

definition run_behavioral_gates :: "bench \<Rightarrow> tree \<Rightarrow> (string \<times> bool) list" where
  "run_behavioral_gates b cand = map (\<lambda>g. (g, bn_gate b cand g = 0)) GRBSA_GATES"

definition run_conformance :: "bench \<Rightarrow> tree \<Rightarrow> (string \<times> bool) list" where
  "run_conformance b cand =
     [(''conformance batch (78)'', case bn_batch b cand of (rc, out) \<Rightarrow> rc = 0 \<and> (sublist ''ALL PASS'' out \<or> sublist ''passed'' out)),
      (''scale'', case bn_scale b cand of (rc, out) \<Rightarrow> rc = 0 \<and> sublist ''ALL PASS'' out),
      (''AL'', case bn_al b cand of (rc, out) \<Rightarrow> rc = 0 \<and> sublist ''AL CLEAN'' out)]"

definition amendment_link :: "bench \<Rightarrow> tree \<Rightarrow> frame \<Rightarrow> frame \<Rightarrow> bool" where
  \<comment> \<open>the last line the child prints; \<open>amendment_snippet\<close> below is the program it runs\<close>
  "amendment_link b cand bt ct \<longleftrightarrow>
     (''ugk/amendment_ledger.json'' \<in> set (map fst cand) \<or> ''ugk/genesis_amendment.json'' \<in> set (map fst cand)) \<and>
     (let ls = bn_amend b cand bt ct in prefix ''AMEND_OK'' (if ls = [] then ''no output'' else last ls))"

definition changed_files :: "(string \<times> string) list \<Rightarrow> (string \<times> string) list \<Rightarrow> string list" where
  "changed_files bu cu =
     sort (remdups (map posix (filter (\<lambda>f. map_of bu f \<noteq> map_of cu f) (map fst cu)) @ map posix (filter (\<lambda>f. map_of cu f = None) (map fst bu))))"

definition is_ver :: "string \<Rightarrow> bool" where "is_ver f \<longleftrightarrow> prefix ''ugk/conformance/'' f"
definition is_cdx :: "string \<Rightarrow> bool" where "is_cdx f \<longleftrightarrow> prefix ''ugk/codex/'' f"

definition declared :: "string \<Rightarrow> fields \<Rightarrow> string list" where
  "declared surface spec = map posix (spec_texts surface spec)"

definition confined :: "fields \<Rightarrow> (string \<times> string) list \<Rightarrow> (string \<times> string) list \<Rightarrow> bool" where
  \<comment> \<open>B4\<close>
  "confined spec bu cu =
     (let changed = changed_files bu cu;
          undeclared_sub = filter (\<lambda>f. f \<notin> set (declared ''substrate_surface'' spec)) (filter (\<lambda>f. \<not> is_ver f \<and> \<not> is_cdx f) changed);
          undeclared_ver = filter (\<lambda>f. f \<notin> set (declared ''verification_surface'' spec)) (filter is_ver changed);
          undeclared_cdx = filter (\<lambda>f. f \<notin> set (declared ''codex_surface'' spec)) (filter is_cdx changed)
      in undeclared_sub = [] \<and> undeclared_ver = [] \<and> undeclared_cdx = [])"

record link_result =
  lr_ok :: bool
  lr_path :: string
  lr_legs :: json

definition evaluate_link :: "bench \<Rightarrow> directory \<Rightarrow> (string \<times> string) list \<Rightarrow> string list \<Rightarrow> fields \<Rightarrow> (link_exc, link_result) result" where
  \<comment> \<open>the fourth argument is the path of the temporary directory\<close>
  "evaluate_link b dir index tmp spec =
     (case (archive_of ''baseline'' dir index spec, archive_of ''candidate'' dir index spec) of
        (Some base, Some cand) \<Rightarrow>
          rbind (safe_extract b tmp base) (\<lambda>bdir. rbind (safe_extract b tmp cand) (\<lambda>cdir.
          let bu = ugk_files bdir; cu = ugk_files cdir in
          if same_files bu cu then Inr \<lparr>lr_ok = True, lr_path = ''shortcut(S)'', lr_legs = JObj [(''shortcut'', JBool True)]\<rparr>
          else rbind (frame_triad b bdir) (\<lambda>bt. rbind (frame_triad b cdir) (\<lambda>ct.
          let stable = bt = ct;
              amended = \<not> stable \<and> amendment_link b cdir bt ct;
              b1 = stable \<or> amended;
              b2 = list_all snd (run_behavioral_gates b cdir);
              b3 = list_all snd (run_conformance b cdir);
              b4 = confined spec bu cu
          in Inr \<lparr>lr_ok = b1 \<and> b2 \<and> b3 \<and> b4, lr_path = (if amended then ''amendment(A)'' else ''behavioral(B)''),
               lr_legs = JObj [(''B1'', JBool b1), (''B2'', JBool b2), (''B3'', JBool b3), (''B4'', JBool b4)]\<rparr>))))
      | _ \<Rightarrow> Inr \<lparr>lr_ok = False, lr_path = ''missing'', lr_legs = JNull\<rparr>)"

subsection \<open>The attestation and the anchor\<close>

record attested_link =
  al_label :: string
  al_baseline :: string
  al_candidate :: string
  al_baseline_sha :: string
  al_candidate_sha :: string
  al_path :: string
  al_verdict :: string

record attestation =
  at_composed :: string
  at_links :: "attested_link list"

datatype attest_file = AttAbsent | AttGarbled | Att attestation

type_synonym links = "(string \<times> fields) list"

fun chained :: "attested_link list \<Rightarrow> bool" where
  \<comment> \<open>check (b)\<close>
  "chained (a # c # as) \<longleftrightarrow> al_candidate_sha a = al_baseline_sha c \<and> chained (c # as)"
| "chained _ \<longleftrightarrow> True"

definition unattested :: "attestation \<Rightarrow> links \<Rightarrow> links" where
  "unattested att links = filter (\<lambda>(label, spec). label \<notin> set (map al_label (at_links att))) links"

definition verify_attestation :: "links \<Rightarrow> attest_file \<Rightarrow> (link_exc, bool) result" where
  "verify_attestation links file =
     (case file of
        AttAbsent \<Rightarrow> Inr False
      | AttGarbled \<Rightarrow> Inl AttestationGarbled
      | Att att \<Rightarrow>
          (let as = at_links att; head_sha = (if as = [] then None else Some (al_candidate_sha (last as))) in
           Inr (as \<noteq> [] \<and> list_all (\<lambda>a. al_verdict a = ''HOLD'') as \<and> chained as \<and>
             list_all (\<lambda>(label, spec). spec_text ''baseline_sha256'' spec = head_sha) (unattested att links))))"

definition verify_anchor :: "string option \<Rightarrow> (string \<times> string) list option \<Rightarrow> bool" where
  \<comment> \<open>the declared genesis hash, and kind and hash of the ledger records, if it can be read\<close>
  "verify_anchor anchor ledger =
     (case anchor of None \<Rightarrow> True | Some gh \<Rightarrow>
        (case ledger of None \<Rightarrow> True | Some [] \<Rightarrow> True
         | Some (e # es) \<Rightarrow> (case find (\<lambda>(kind, h). kind = ''genesis'') (e # es) of Some (_, h) \<Rightarrow> h | None \<Rightarrow> snd e) = gh))"

subsection \<open>The composed claim\<close>

definition need :: "string option \<Rightarrow> (link_exc, string) result" where
  "need x = (case x of None \<Rightarrow> Inl FieldMissing | Some s \<Rightarrow> Inr s)"

definition attest_one :: "bench \<Rightarrow> directory \<Rightarrow> (string \<times> string) list \<Rightarrow> string list \<Rightarrow> string \<times> fields \<Rightarrow> (link_exc, attested_link option) result" where
  "attest_one b dir index tmp l =
     (case l of (label, spec) \<Rightarrow>
        (case (archive_of ''baseline'' dir index spec, archive_of ''candidate'' dir index spec) of
           (Some base, Some cand) \<Rightarrow>
             rbind (evaluate_link b dir index tmp spec) (\<lambda>r. rbind (need (spec_text ''baseline'' spec)) (\<lambda>bn. rbind (need (spec_text ''candidate'' spec)) (\<lambda>cn.
             Inr (Some \<lparr>al_label = label, al_baseline = bn, al_candidate = cn, al_baseline_sha = hex_digest base, al_candidate_sha = hex_digest cand,
               al_path = lr_path r, al_verdict = (if lr_ok r then ''HOLD'' else ''FAIL'')\<rparr>))))
         | _ \<Rightarrow> Inr None))"

definition attest :: "bench \<Rightarrow> directory \<Rightarrow> string list \<Rightarrow> links \<Rightarrow> (link_exc, attestation \<times> nat) result" where
  \<comment> \<open>the file \<^verbatim>\<open>--attest\<close> writes and the exit code\<close>
  "attest b dir tmp links =
     rbind (rmap (attest_one b dir (content_index dir) tmp) links) (\<lambda>rs.
     let as = List.map_filter id rs; composed = as \<noteq> [] \<and> list_all (\<lambda>a. al_verdict a = ''HOLD'') as in
     Inr (\<lparr>at_composed = (if composed then ''HOLD'' else ''FAIL''), at_links = as\<rparr>, if composed then 0 else 1))"

definition missing_archives :: "directory \<Rightarrow> (string \<times> string) list \<Rightarrow> links \<Rightarrow> bool" where
  "missing_archives dir index links = list_ex (\<lambda>(label, spec). list_ex (\<lambda>role.
     resolve_arch dir (spec_text (role @ ''_sha256'') spec) (spec_text role spec) index = None) [''baseline'', ''candidate'']) links"

definition link_verdict :: "bench \<Rightarrow> directory \<Rightarrow> (string \<times> string) list \<Rightarrow> string list \<Rightarrow> links \<Rightarrow> string \<Rightarrow> (link_exc, bool) result" where
  "link_verdict b dir index tmp links label =
     (case map_of links label of
        None \<Rightarrow> Inr False
      | Some spec \<Rightarrow> rbind (need (spec_text ''baseline'' spec)) (\<lambda>_. rbind (need (spec_text ''candidate'' spec)) (\<lambda>_.
          rbind (evaluate_link b dir index tmp spec) (\<lambda>r. Inr (lr_ok r)))))"

datatype run_mode = Compose | Single string | Usage

record claim =
  cl_anchor :: "bool option"
  cl_exit :: nat

definition prove_links :: "bench \<Rightarrow> directory \<Rightarrow> string list \<Rightarrow> links \<Rightarrow> bool \<Rightarrow> string list \<Rightarrow> (link_exc, claim) result" where
  \<comment> \<open>the anchor verdict is printed\<close>
  "prove_links b dir tmp links anchor_ok targets =
     rbind (rmap (link_verdict b dir (content_index dir) tmp links) targets) (\<lambda>vs.
     Inr \<lparr>cl_anchor = Some anchor_ok, cl_exit = (if list_all (\<lambda>v. v) vs \<and> vs \<noteq> [] then 0 else 1)\<rparr>)"

definition proof_model_main :: "bench \<Rightarrow> directory \<Rightarrow> string list \<Rightarrow> links \<Rightarrow> string option \<Rightarrow> (string \<times> string) list option \<Rightarrow> attest_file \<Rightarrow> run_mode \<Rightarrow> (link_exc, claim) result" where
  "proof_model_main b dir tmp links anchor ledger file mode =
     (case mode of
        Compose \<Rightarrow>
          if missing_archives dir (content_index dir) links
          then rbind (verify_attestation links file) (\<lambda>ok. Inr \<lparr>cl_anchor = None, cl_exit = (if ok then 0 else 1)\<rparr>)
          else prove_links b dir tmp links (verify_anchor anchor ledger) (map fst links)
      | Single label \<Rightarrow> prove_links b dir tmp links (verify_anchor anchor ledger) [label]
      | Usage \<Rightarrow> Inr \<lparr>cl_anchor = None, cl_exit = 2\<rparr>)"

subsection \<open>The amendment program of the child\<close>

datatype amend_outcome = NoRecord | BrokenChain | Crashed | Judged "inadmissible option"

definition frame_match :: "frame \<Rightarrow> frame \<Rightarrow> amendment \<Rightarrow> bool" where
  "frame_match bt ct r \<longleftrightarrow>
     (if fr_schema bt \<noteq> fr_schema ct then ad_prior_schema r = fr_schema bt \<and> ad_successor_schema r = fr_schema ct else True) \<and>
     (if fr_legend bt \<noteq> fr_legend ct then ad_prior_legend r = fr_legend bt \<and> ad_successor_legend r = fr_legend ct else True)"

definition select_record :: "frame \<Rightarrow> frame \<Rightarrow> amendment list \<Rightarrow> nat option" where
  \<comment> \<open>records are compared by identity in the source, here by position\<close>
  "select_record bt ct recs =
     (let cands = filter (\<lambda>i. ad_prior_law (recs ! i) = fr_law bt \<and> ad_successor_law (recs ! i) = fr_law ct) [0..<length recs];
          matching = filter (\<lambda>i. frame_match bt ct (recs ! i)) cands;
          first = (\<lambda>is. case is of [] \<Rightarrow> None | i # _ \<Rightarrow> Some i)
      in if length cands > 1 \<and> matching \<noteq> [] then first matching else first cands)"

fun frames_along :: "frame \<Rightarrow> amendment list \<Rightarrow> (frame \<times> frame) list" where
  \<comment> \<open>the frame before and after each record, uncommitted legs carried\<close>
  "frames_along f [] = []"
| "frames_along f (r # rs) =
     (let g = \<lparr>fr_law = ad_successor_law r, fr_legend = (if ad_successor_legend r = [] then fr_legend f else ad_successor_legend r),
               fr_schema = (if ad_successor_schema r = [] then fr_schema f else ad_successor_schema r)\<rparr> in (f, g) # frames_along g rs)"

definition genesis_of :: "amendment list \<Rightarrow> nat option" where
  "genesis_of recs = find (\<lambda>i. ad_kind (recs ! i) = ''genesis'') [0..<length recs]"

definition start_frame :: "frame \<Rightarrow> amendment list \<Rightarrow> frame" where
  "start_frame bt recs =
     \<lparr>fr_law = ad_prior_law (recs ! (case genesis_of recs of None \<Rightarrow> 0 | Some i \<Rightarrow> i)),
      fr_legend = (case find (\<lambda>r. ad_prior_legend r \<noteq> []) recs of None \<Rightarrow> fr_legend bt | Some r \<Rightarrow> ad_prior_legend r),
      fr_schema = (case find (\<lambda>r. ad_prior_schema r \<noteq> []) recs of None \<Rightarrow> fr_schema bt | Some r \<Rightarrow> ad_prior_schema r)\<rparr>"

definition by_prior :: "amendment list \<Rightarrow> string \<Rightarrow> nat option" where
  \<comment> \<open>the dict keyed by the prior law; the last record of a law stays\<close>
  "by_prior recs law = find (\<lambda>i. ad_prior_law (recs ! i) = law) (rev [0..<length recs])"

definition rotation_at :: "succession list \<Rightarrow> string \<Rightarrow> nat option" where
  "rotation_at succ h = map_option Suc (find (\<lambda>i. su_amendment_hash (succ ! i) = h) (rev [0..<length succ]))"

definition advance_era :: "succession list \<Rightarrow> amendment \<Rightarrow> nat \<Rightarrow> nat" where
  "advance_era succ r active = (case rotation_at succ (ad_hash r) of None \<Rightarrow> active | Some n \<Rightarrow> max active n)"

partial_function (option) era_walk :: "amendment list \<Rightarrow> succession list \<Rightarrow> nat \<Rightarrow> nat option \<Rightarrow> nat \<Rightarrow> nat option" where
  "era_walk recs succ R cur active =
     (case cur of
        None \<Rightarrow> Some 0
      | Some i \<Rightarrow> if i = R then Some active else era_walk recs succ R (by_prior recs (ad_successor_law (recs ! i))) (advance_era succ (recs ! i) active))"

definition is_historical :: "string \<Rightarrow> succession list \<Rightarrow> amendment \<Rightarrow> nat \<Rightarrow> (pyexc, bool) result" where
  \<comment> \<open>\<^const>\<open>KeyError\<close> stands for the index out of the list of authorised keys\<close>
  "is_historical governor succ r era =
     rbind (authorized_keys governor succ) (\<lambda>keys.
     if era \<ge> length keys then Inl KeyError
     else rbind (key_mosaic (keys ! era)) (\<lambda>m. Inr (ad_authority r = m \<and> keys ! era \<noteq> last keys)))"

definition admission_of :: "frame \<Rightarrow> frame \<Rightarrow> string \<Rightarrow> amendment list \<Rightarrow> succession list \<Rightarrow> nat \<Rightarrow> bool \<Rightarrow> admission_context" where
  "admission_of bt ct governor recs succ R historical =
     (let fs = frames_along (start_frame bt recs) recs in
      \<lparr>ac_prior = bt, ac_successor = ct, ac_governor = governor,
       ac_prior_successor = (if list_ex (\<lambda>r. ad_successor_law r = ad_prior_law (recs ! R)) recs then Some (FrameKey bt) else None),
       ac_existing = map (\<lambda>i. FrameKey (snd (fs ! i))) (filter (\<lambda>i. i \<noteq> R) [0..<length recs]),
       ac_succession = succ, ac_historical = historical,
       ac_predecessor_hash = map_option (\<lambda>i. ad_hash (recs ! i)) (find (\<lambda>i. i \<noteq> R \<and> snd (fs ! i) = fst (fs ! R)) [0..<length recs])\<rparr>)"

definition judge :: "frame \<Rightarrow> frame \<Rightarrow> string \<Rightarrow> amendment list \<Rightarrow> succession list \<Rightarrow> nat \<Rightarrow> bool \<Rightarrow> amend_outcome" where
  "judge bt ct governor recs succ R historical =
     (case is_admissible (recs ! R) (admission_of bt ct governor recs succ R historical) of Inl _ \<Rightarrow> Crashed | Inr p \<Rightarrow> Judged p)"

definition amendment_snippet :: "frame \<Rightarrow> frame \<Rightarrow> string \<Rightarrow> amendment list \<Rightarrow> succession option \<Rightarrow> amend_outcome option" where
  \<comment> \<open>on a candidate with era and frame keyed lineage; \<^const>\<open>None\<close> when the era walk does not end\<close>
  "amendment_snippet bt ct governor recs lineage =
     (case select_record bt ct recs of
        None \<Rightarrow> Some NoRecord
      | Some R \<Rightarrow>
          if ad_kind (recs ! R) \<noteq> ''genesis'' \<and> \<not> list_ex (\<lambda>r. ad_successor_law r = ad_prior_law (recs ! R)) recs then Some BrokenChain
          else (case lineage of
              None \<Rightarrow> Some (judge bt ct governor recs [] R False)
            | Some l \<Rightarrow> (case authorized_keys governor [l] of
                Inl _ \<Rightarrow> Some Crashed
              | Inr _ \<Rightarrow> (case era_walk recs [l] R (genesis_of recs) 0 of
                  None \<Rightarrow> None
                | Some era \<Rightarrow> Some (case is_historical governor [l] (recs ! R) era of Inl _ \<Rightarrow> Crashed | Inr h \<Rightarrow> judge bt ct governor recs [l] R h)))))"

subsection \<open>The verdict cache\<close>

definition PROOF_MODEL_VERSION :: string where "PROOF_MODEL_VERSION = ''ContinuityB/proof_model_b/v2''"
definition CACHE_SCHEMA :: string where "CACHE_SCHEMA = ''ugk-g6-proof-cache/1''"

definition compact :: "json \<Rightarrow> string" where
  \<comment> \<open>\<open>_canon\<close>\<close>
  "compact x = dumps compact_ascii x"

definition link_body_hash :: "fields \<Rightarrow> string" where
  "link_body_hash spec = hex_digest (utf8 (compact (JObj spec)))"

definition opt_text :: "string option \<Rightarrow> json" where
  "opt_text x = (case x of None \<Rightarrow> JNull | Some s \<Rightarrow> JStr s)"

definition identity :: "string \<Rightarrow> string option \<Rightarrow> string option \<Rightarrow> string \<Rightarrow> fields" where
  "identity label base_sha cand_sha lbh =
     [(''label'', JStr label), (''baseline_sha256'', opt_text base_sha), (''candidate_sha256'', opt_text cand_sha),
      (''link_body_hash'', JStr lbh), (''proof_model_version'', JStr PROOF_MODEL_VERSION)]"

definition field_get :: "fields \<Rightarrow> string \<Rightarrow> json" where
  \<comment> \<open>\<^verbatim>\<open>d.get(k)\<close>\<close>
  "field_get d k = (case map_of d k of None \<Rightarrow> JNull | Some v \<Rightarrow> v)"

definition IDENTITY_KEYS :: "string list" where
  "IDENTITY_KEYS = [''label'', ''baseline_sha256'', ''candidate_sha256'', ''link_body_hash'', ''proof_model_version'']"

definition identity_key :: "fields \<Rightarrow> string" where
  "identity_key ident = compact (JList (map (field_get ident) IDENTITY_KEYS))"

definition entry_input :: "fields \<Rightarrow> json \<Rightarrow> json \<Rightarrow> json \<Rightarrow> bytes" where
  "entry_input ident verdict path legs =
     utf8 (compact (JObj [(''identity'', JObj ident), (''verdict'', verdict), (''path'', path), (''legs'', legs)]))"

definition entry_hash :: "fields \<Rightarrow> json \<Rightarrow> json \<Rightarrow> json \<Rightarrow> string" where
  "entry_hash ident verdict path legs = hex_digest (entry_input ident verdict path legs)"

definition make_entry :: "string \<Rightarrow> string option \<Rightarrow> string option \<Rightarrow> string \<Rightarrow> json \<Rightarrow> json \<Rightarrow> json \<Rightarrow> fields" where
  "make_entry label base_sha cand_sha lbh verdict path legs =
     (let ident = identity label base_sha cand_sha lbh in
      ident @ [(''verdict'', verdict), (''path'', path), (''legs'', legs), (''entry_hash'', JStr (entry_hash ident verdict path legs))])"

type_synonym cache = "(string \<times> fields) list"

datatype cache_file = NoCache | CorruptCache | CacheFile json json "cache option"
  \<comment> \<open>schema, version, and the entries when they are an object\<close>

definition load_cache :: "cache_file \<Rightarrow> cache" where
  "load_cache f = (case f of
       CacheFile schema version (Some es) \<Rightarrow> if schema = JStr CACHE_SCHEMA \<and> version = JStr PROOF_MODEL_VERSION then es else []
     | _ \<Rightarrow> [])"

definition save_cache :: "cache \<Rightarrow> cache_file" where
  "save_cache c = CacheFile (JStr CACHE_SCHEMA) (JStr PROOF_MODEL_VERSION) (Some c)"

definition cache_get :: "cache \<Rightarrow> string \<Rightarrow> string option \<Rightarrow> string option \<Rightarrow> string \<Rightarrow> fields option" where
  "cache_get c label base_sha cand_sha lbh =
     (let ident = identity label base_sha cand_sha lbh in
      case map_of c (identity_key ident) of
        None \<Rightarrow> None
      | Some e \<Rightarrow>
          if e = [] then None
          else if list_ex (\<lambda>(k, v). field_get e k \<noteq> v) ident then None
          else if field_get e ''entry_hash'' \<noteq> JStr (entry_hash ident (field_get e ''verdict'') (field_get e ''path'') (field_get e ''legs'')) then None
          else Some e)"

definition cache_put :: "cache \<Rightarrow> fields \<Rightarrow> cache" where
  "cache_put c e = dict_set (identity_key (map (\<lambda>k. (k, field_get e k)) IDENTITY_KEYS)) e c"

subsection \<open>The frontier\<close>

definition GENESIS_RUNTIME :: "string list" where
  "GENESIS_RUNTIME = [''GENESIS_PRIVKEY.hex'', ''GENESIS_KEY.pub'', ''DEPLOYMENT_MANIFEST.json'', ''LAUNCH_IC.json'', ''VALIDATOR_SET.json'']"

definition founding_name :: "string \<Rightarrow> bool" where
  "founding_name name =
     (let parts = split_on (CHR ''/'') (posix name); base = last parts in
      if ''genesis'' \<in> set parts then base \<in> set GENESIS_RUNTIME \<or> suffix ''.hex'' base
      else prefix ''GENESIS_PRIVKEY'' base \<or> suffix ''.hex'' base)"

definition archive_genesis_contamination :: "bench \<Rightarrow> bytes \<Rightarrow> string list" where
  "archive_genesis_contamination b d =
     (case bn_names b d of None \<Rightarrow> [''<unreadable>''] | Some ns \<Rightarrow> sort (remdups (filter founding_name ns)))"

record frontier_item =
  fi_label :: string
  fi_verdict :: json
  fi_source :: string

record frontier_state =
  fs_cache :: cache
  fs_items :: "frontier_item list"
  fs_unfinished :: bool
  fs_fail :: bool

definition note_item :: "frontier_item \<Rightarrow> frontier_state \<Rightarrow> frontier_state" where
  \<comment> \<open>the receipt entry and the flag of its branch\<close>
  "note_item it st = st\<lparr>fs_items := fs_items st @ [it],
     fs_unfinished := (fs_unfinished st \<or> fi_source it \<in> {''budget_exhausted'', ''archives_absent''}),
     fs_fail := (fs_fail st \<or> fi_source it \<notin> {''budget_exhausted'', ''archives_absent''} \<and> fi_verdict it \<noteq> JStr ''HOLD'')\<rparr>"

definition effective_sha :: "string \<Rightarrow> directory \<Rightarrow> (string \<times> string) list \<Rightarrow> fields \<Rightarrow> string option" where
  "effective_sha role dir index spec =
     (case archive_of role dir index spec of Some d \<Rightarrow> Some (hex_digest d) | None \<Rightarrow> spec_text (role @ ''_sha256'') spec)"

definition frontier_item_of :: "bench \<Rightarrow> directory \<Rightarrow> (string \<times> string) list \<Rightarrow> string list \<Rightarrow> bool \<Rightarrow> string \<Rightarrow> fields \<Rightarrow> cache \<Rightarrow> (link_exc, frontier_item \<times> cache) result" where
  \<comment> \<open>one pass of the loop, past the budget test\<close>
  "frontier_item_of b dir index tmp recompute label spec c =
     (let eff_base = effective_sha ''baseline'' dir index spec; eff_cand = effective_sha ''candidate'' dir index spec; lbh = link_body_hash spec in
      case cache_get c label eff_base eff_cand lbh of
        Some e \<Rightarrow> (case map_of e ''verdict'' of None \<Rightarrow> Inl FieldMissing
            | Some v \<Rightarrow> Inr (\<lparr>fi_label = label, fi_verdict = v, fi_source = ''cache''\<rparr>, c))
      | None \<Rightarrow>
          (case (archive_of ''baseline'' dir index spec, archive_of ''candidate'' dir index spec) of
             (Some base, Some cand) \<Rightarrow>
               if \<not> recompute then Inr (\<lparr>fi_label = label, fi_verdict = JStr ''UNFINISHED'', fi_source = ''archives_absent''\<rparr>, c)
               else if archive_genesis_contamination b cand @ archive_genesis_contamination b base \<noteq> []
                 then Inr (\<lparr>fi_label = label, fi_verdict = JStr ''FAIL'', fi_source = ''genesis_contamination''\<rparr>, c)
               else rbind (evaluate_link b dir index tmp spec) (\<lambda>r.
                 let v = JStr (if lr_ok r then ''HOLD'' else ''FAIL'') in
                 Inr (\<lparr>fi_label = label, fi_verdict = v, fi_source = ''recompute''\<rparr>, cache_put c (make_entry label eff_base eff_cand lbh v (JStr (lr_path r)) (lr_legs r))))
           | _ \<Rightarrow> Inr (\<lparr>fi_label = label, fi_verdict = JStr ''UNFINISHED'', fi_source = ''archives_absent''\<rparr>, c)))"

fun frontier_loop :: "bench \<Rightarrow> directory \<Rightarrow> (string \<times> string) list \<Rightarrow> string list \<Rightarrow> bool \<Rightarrow> (nat \<Rightarrow> bool) \<Rightarrow> nat \<Rightarrow> links \<Rightarrow> frontier_state \<Rightarrow> (link_exc, frontier_state) result" where
  \<comment> \<open>\<open>late n\<close>: the clock is past the budget at the start of the \<open>n\<close>-th pass\<close>
  "frontier_loop b dir index tmp recompute late n [] st = Inr st"
| "frontier_loop b dir index tmp recompute late n ((label, spec) # ls) st =
     (if late n then Inr (note_item \<lparr>fi_label = label, fi_verdict = JStr ''UNFINISHED'', fi_source = ''budget_exhausted''\<rparr> st)
      else rbind (frontier_item_of b dir index tmp recompute label spec (fs_cache st)) (\<lambda>(it, c).
        frontier_loop b dir index tmp recompute late (Suc n) ls ((note_item it st)\<lparr>fs_cache := c\<rparr>)))"

record frontier_receipt =
  fc_verdict :: string
  fc_frontier :: "frontier_item list"

definition verify_frontier :: "bench \<Rightarrow> directory \<Rightarrow> string list \<Rightarrow> bool \<Rightarrow> (nat \<Rightarrow> bool) \<Rightarrow> attest_file \<Rightarrow> links option \<Rightarrow> cache_file \<Rightarrow> (link_exc, frontier_receipt \<times> cache_file) result" where
  \<comment> \<open>with a cache path; the file is written back only after the loop\<close>
  "verify_frontier b dir tmp recompute late file surfaces cf =
     (let fail = Inr (\<lparr>fc_verdict = ''FAIL'', fc_frontier = []\<rparr>, cf) in
      case (surfaces, file) of
        (Some links, Att att) \<Rightarrow>
          if \<not> sublist ''HOLD'' (at_composed att) then fail
          else rbind (verify_attestation links file) (\<lambda>ok.
            if \<not> ok then fail
            else if unattested att links = [] then Inr (\<lparr>fc_verdict = ''HOLD'', fc_frontier = []\<rparr>, cf)
            else rbind (frontier_loop b dir (content_index dir) tmp recompute late 0 (unattested att links)
                \<lparr>fs_cache = load_cache cf, fs_items = [], fs_unfinished = False, fs_fail = False\<rparr>) (\<lambda>st.
              Inr (\<lparr>fc_verdict = (if fs_fail st then ''FAIL'' else if fs_unfinished st then ''UNFINISHED'' else ''HOLD''), fc_frontier = fs_items st\<rparr>,
                save_cache (fs_cache st))))
      | _ \<Rightarrow> fail)"

definition full_audit_verdict :: "int \<Rightarrow> string \<Rightarrow> string" where
  \<comment> \<open>exit code and output of \<^verbatim>\<open>proof_model_b.py --full-audit\<close>; 124 is the timeout of the runner\<close>
  "full_audit_verdict rc out =
     (if rc = 124 then ''RESOURCE_TIMEOUT'' else if rc = 0 \<and> sublist ''CONTINUITY HOLDS'' out then ''HOLD'' else ''FAIL'')"

definition exit_code :: "string \<Rightarrow> nat" where
  "exit_code v = (case map_of [(''HOLD'', 0), (''FAIL'', 1), (''UNFINISHED'', 3), (''RESOURCE_TIMEOUT'', 4)] v of None \<Rightarrow> 1 | Some n \<Rightarrow> n)"

lemma declared_hash_not_enforced:
  \<comment> \<open>an archive of the declared name stands in for a declared hash that no archive has\<close>
  "map_of index s = None \<Longrightarrow> f \<noteq> [] \<Longrightarrow> f \<in> set (map fst dir) \<Longrightarrow> resolve_arch dir (Some s) (Some f) index = Some f"
  by (simp add: resolve_arch_def)

subsection \<open>Extraction stays in its directory\<close>

lemma split_on_nonempty [simp]: "split_on c s \<noteq> []"
  by (cases s) (auto split: list.splits)

lemma split_posix: "split_on (CHR ''/'') (posix s) = concat (map (\<lambda>w. split_on (CHR ''/'') (posix w)) (split_on (CHR ''/'') s))"
proof (induction s)
  case Nil
  then show ?case by (simp add: posix_def)
next
  case (Cons x s)
  obtain w ws where w: "split_on (CHR ''/'') s = w # ws" by (cases "split_on (CHR ''/'') s") auto
  obtain v vs where v: "split_on (CHR ''/'') (posix w) = v # vs" by (cases "split_on (CHR ''/'') (posix w)") auto
  show ?case using Cons w v by (auto simp: posix_def)
qed

lemma no_dotdot: "''..'' \<notin> set (split_on (CHR ''/'') (posix s)) \<Longrightarrow> ''..'' \<notin> set (split_on (CHR ''/'') s)"
proof
  assume a: "''..'' \<notin> set (split_on (CHR ''/'') (posix s))" and "''..'' \<in> set (split_on (CHR ''/'') s)"
  moreover have "''..'' \<in> set (split_on (CHR ''/'') (posix ''..''))" by (simp add: posix_def)
  ultimately show False unfolding split_posix [of s] by auto
qed

lemma walk_path_down: "''..'' \<notin> set cs \<Longrightarrow> walk_path here cs = here @ filter (\<lambda>c. c \<noteq> [] \<and> c \<noteq> ''.'') cs"
  by (induction here cs rule: walk_path.induct) auto

definition local_path :: "member \<Rightarrow> string list" where
  "local_path m = filter (\<lambda>c. c \<noteq> [] \<and> c \<noteq> ''.'') (split_on (CHR ''/'') (m_name m))"

lemma target_of_safe:
  "''..'' \<notin> set (split_on (CHR ''/'') (posix (m_name m))) \<Longrightarrow> target_of dest m = dest @ local_path m"
  by (simp add: target_of_def local_path_def walk_path_down no_dotdot)

lemma escape_check_redundant:
  "unsafe_member dest m \<longleftrightarrow>
     prefix ''/'' (m_name m) \<or> ''..'' \<in> set (split_on (CHR ''/'') (posix (m_name m))) \<or> m_kind m \<notin> {Regular, Directory}"
  by (cases "m_kind m") (auto simp: unsafe_member_def target_of_safe)

lemma split_on_clean: "w \<in> set (split_on c s) \<Longrightarrow> c \<notin> set w"
  by (induction s arbitrary: w) (auto split: list.splits if_splits)

lemma split_on_id: "c \<notin> set w \<Longrightarrow> split_on c w = [w]"
  by (induction w) auto

lemma split_on_append: "c \<notin> set w \<Longrightarrow> split_on c (w @ c # s) = w # split_on c s"
  by (induction w) auto

lemma split_on_join: "ws \<noteq> [] \<Longrightarrow> (\<And>w. w \<in> set ws \<Longrightarrow> CHR ''/'' \<notin> set w) \<Longrightarrow> split_on (CHR ''/'') (join_with ''/'' ws) = ws"
proof (induction "''/''" ws rule: join_with.induct)
  case (3 w v vs)
  then show ?case by (simp add: split_on_append)
qed (auto simp: split_on_id)

lemma place_member_paths:
  "set (map fst (place_member dest m t)) \<subseteq> insert (join_with ''/'' (drop (length dest) (target_of dest m))) (set (map fst t))"
  by (simp only: place_member_def dict_set_keys split: if_splits) blast

lemma fold_place_paths:
  "set (map fst (fold (place_member dest) ms t)) \<subseteq> set (map fst t) \<union> (\<lambda>m. join_with ''/'' (drop (length dest) (target_of dest m))) ` set ms"
proof (induction ms arbitrary: t)
  case (Cons m ms)
  show ?case using Cons [of "place_member dest m t"] place_member_paths [of dest m t] by (simp only: fold_simps list.set(2) image_insert) blast
qed simp

lemma hd_join: "ws \<noteq> [] \<Longrightarrow> hd ws \<noteq> [] \<Longrightarrow> hd (join_with sep ws) = hd (hd ws)"
  by (cases ws rule: list.exhaust; cases "tl ws") auto

text \<open>extraction contained. Archives cannot write outside their directory: a path that extraction creates has no parent component and is not absolute, and the archive has
  only regular files and directories; any other archive is rejected before anything is written.\<close>

theorem extraction_contained:
  assumes "safe_extract b dest d = Inr t" "p \<in> set (map fst t)"
  shows "''..'' \<notin> set (split_on (CHR ''/'') p) \<and> \<not> prefix ''/'' p \<and>
    (\<exists>ms. bn_untar b d = Some ms \<and> (\<forall>m\<in>set ms. m_kind m \<in> {Regular, Directory} \<and> prefix dest (target_of dest m)))"
proof -
  obtain ms where ms: "bn_untar b d = Some ms" "t = fold (place_member dest) ms []" and safe: "\<And>m. m \<in> set ms \<Longrightarrow> \<not> unsafe_member dest m"
    using assms(1) by (auto simp: safe_extract_def list_ex_iff split: option.splits if_splits)
  have tgt: "target_of dest m = dest @ local_path m" if "m \<in> set ms" for m
    using safe [OF that] by (auto simp: escape_check_redundant intro: target_of_safe)
  have "p \<in> (\<lambda>m. join_with ''/'' (drop (length dest) (target_of dest m))) ` set ms"
    using subsetD [OF fold_place_paths assms(2) [unfolded ms(2)]] by simp
  then obtain m where m0: "m \<in> set ms" "p = join_with ''/'' (drop (length dest) (target_of dest m))" by blast
  have m: "m \<in> set ms" "p = join_with ''/'' (local_path m)" using m0 tgt [OF m0(1)] by simp_all
  have up: "''..'' \<notin> set (split_on (CHR ''/'') (m_name m))"
    using safe [OF m(1)] no_dotdot [of "m_name m"] by (simp only: escape_check_redundant) blast
  have "''..'' \<notin> set (split_on (CHR ''/'') p) \<and> \<not> prefix ''/'' p"
  proof (cases "local_path m")
    case Nil
    then show ?thesis by (simp add: m(2))
  next
    case (Cons w ws)
    have clean: "CHR ''/'' \<notin> set v" "v \<noteq> []" if "v \<in> set (local_path m)" for v
      using that split_on_clean [of v "CHR ''/''" "m_name m"] by (auto simp: local_path_def)
    have "split_on (CHR ''/'') p = local_path m" unfolding m(2) by (rule split_on_join) (use clean Cons in auto)
    moreover have "hd p \<noteq> CHR ''/''" unfolding m(2) using hd_join [of "local_path m"] clean [of w] Cons by (metis hd_in_set list.distinct(1) list.sel(1) list.set_intros(1))
    ultimately show ?thesis using up by (auto simp: local_path_def prefix_def)
  qed
  then show ?thesis using ms(1) safe tgt by (auto simp: escape_check_redundant)
qed

subsection \<open>What a link that holds means\<close>

lemma posix_posix [simp]: "posix (posix s) = posix s"
  by (simp add: posix_def)

lemma add_file_keys: "set (map fst (add_file a fp)) \<subseteq> insert (posix (fst a)) (set (map fst fp))"
  by (simp only: add_file_def dict_set_keys split: if_splits) blast

lemma fold_add_file_keys: "set (map fst (fold add_file t fp)) \<subseteq> range posix \<union> set (map fst fp)"
proof (induction t arbitrary: fp)
  case (Cons a t)
  show ?case using Cons [of "add_file a fp"] add_file_keys [of a fp] by (simp only: fold_simps) blast
qed simp

lemma ugk_files_posix: "f \<in> set (map fst (ugk_files t)) \<Longrightarrow> posix f = f"
  using subsetD [OF fold_add_file_keys, of f t "[]"] by (auto simp: ugk_files_def simp del: set_map)

lemma same_files_iff: "same_files bu cu \<longleftrightarrow> map_of bu = map_of cu"
proof
  assume "same_files bu cu"
  then have "map_of bu f = map_of cu f" if "f \<in> set (map fst bu) \<union> set (map fst cu)" for f
    using that by (simp only: same_files_def list_all_iff set_append)
  moreover have "map_of bu f = map_of cu f" if "f \<notin> set (map fst bu) \<union> set (map fst cu)" for f
    using that by (metis UnCI list.set_map map_of_eq_None_iff)
  ultimately show "map_of bu = map_of cu" by blast
qed (simp add: same_files_def list_all_iff)

lemma key_iff: "f \<in> set (map fst kvs) \<longleftrightarrow> map_of kvs f \<noteq> None"
  by (simp add: map_of_eq_None_iff)

lemma changed_files_iff:
  assumes "\<And>f. f \<in> set (map fst bu) \<Longrightarrow> posix f = f" "\<And>f. f \<in> set (map fst cu) \<Longrightarrow> posix f = f"
  shows "set (changed_files bu cu) = {f. map_of bu f \<noteq> map_of cu f}"
proof -
  have "set (changed_files bu cu) = posix ` {f \<in> set (map fst cu). map_of bu f \<noteq> map_of cu f} \<union> posix ` {f \<in> set (map fst bu). map_of cu f = None}"
    by (simp add: changed_files_def)
  also have "\<dots> = {f \<in> set (map fst cu). map_of bu f \<noteq> map_of cu f} \<union> {f \<in> set (map fst bu). map_of cu f = None}"
    using assms by (force simp: image_iff)
  also have "\<dots> = {f. map_of bu f \<noteq> map_of cu f}"
    unfolding key_iff by (intro set_eqI) (case_tac "map_of cu x"; simp; metis)
  finally show ?thesis .
qed

definition surface_of :: "string \<Rightarrow> string" where
  "surface_of f = (if is_ver f then ''verification_surface'' else if is_cdx f then ''codex_surface'' else ''substrate_surface'')"

lemma ver_not_cdx: "is_ver f \<Longrightarrow> \<not> is_cdx f"
  by (auto simp: is_ver_def is_cdx_def prefix_def)

lemma confined_iff:
  assumes "\<And>f. f \<in> set (map fst bu) \<Longrightarrow> posix f = f" "\<And>f. f \<in> set (map fst cu) \<Longrightarrow> posix f = f"
  shows "confined spec bu cu \<longleftrightarrow> {f. map_of bu f \<noteq> map_of cu f} \<subseteq> {f. f \<in> set (declared (surface_of f) spec)}"
proof -
  have "confined spec bu cu \<longleftrightarrow> (\<forall>f \<in> set (changed_files bu cu). f \<in> set (declared (surface_of f) spec))"
    by (auto simp: confined_def Let_def filter_empty_conv surface_of_def dest: ver_not_cdx)
  then show ?thesis by (simp only: changed_files_iff [OF assms]) blast
qed

definition keeps_behaviour :: "bench \<Rightarrow> fields \<Rightarrow> tree \<Rightarrow> tree \<Rightarrow> bool" where
  \<comment> \<open>the behavioural basis B1 to B4\<close>
  "keeps_behaviour b spec bdir cdir \<longleftrightarrow>
     (\<exists>bt ct. frame_triad b bdir = Inr bt \<and> frame_triad b cdir = Inr ct \<and> (bt = ct \<or> amendment_link b cdir bt ct)) \<and>
     (\<forall>g \<in> set GRBSA_GATES. bn_gate b cdir g = 0) \<and> list_all snd (run_conformance b cdir) \<and>
     {f. map_of (ugk_files bdir) f \<noteq> map_of (ugk_files cdir) f} \<subseteq> {f. f \<in> set (declared (surface_of f) spec)}"

text \<open>C40. Continuity of a link: an evaluated link holds exactly when both archives are found and extract safely and either the \<^verbatim>\<open>ugk/\<close> files are the same, name by name and
  hash by hash, or the frame is equal or moved by an admitted amendment, all nine gates and the three conformance runs pass on the candidate, and every file that was added, removed or changed is declared
  in the surface of its class.\<close>

theorem link_holds_exactly:
  assumes "evaluate_link b dir index tmp spec = Inr r"
  shows "lr_ok r \<longleftrightarrow> (\<exists>base cand bdir cdir. archive_of ''baseline'' dir index spec = Some base \<and> archive_of ''candidate'' dir index spec = Some cand \<and>
    safe_extract b tmp base = Inr bdir \<and> safe_extract b tmp cand = Inr cdir \<and>
    (map_of (ugk_files bdir) = map_of (ugk_files cdir) \<or> keeps_behaviour b spec bdir cdir))"
proof (cases "archive_of ''baseline'' dir index spec"; cases "archive_of ''candidate'' dir index spec")
  fix base cand assume a: "archive_of ''baseline'' dir index spec = Some base" "archive_of ''candidate'' dir index spec = Some cand"
  obtain bdir cdir where x: "safe_extract b tmp base = Inr bdir" "safe_extract b tmp cand = Inr cdir"
    using assms a by (auto simp: evaluate_link_def rbind_eq_Inr)
  show ?thesis
  proof (cases "same_files (ugk_files bdir) (ugk_files cdir)")
    case True
    then show ?thesis using assms a x by (auto simp: evaluate_link_def Let_def same_files_iff)
  next
    case False
    then obtain bt ct where t: "frame_triad b bdir = Inr bt" "frame_triad b cdir = Inr ct"
      using assms a x by (auto simp: evaluate_link_def rbind_eq_Inr Let_def)
    have "lr_ok r \<longleftrightarrow> (bt = ct \<or> amendment_link b cdir bt ct) \<and> list_all snd (run_behavioral_gates b cdir) \<and> list_all snd (run_conformance b cdir) \<and>
        confined spec (ugk_files bdir) (ugk_files cdir)"
      using assms a x False t by (auto simp: evaluate_link_def Let_def)
    moreover have c: "confined spec (ugk_files bdir) (ugk_files cdir) \<longleftrightarrow>
        {f. map_of (ugk_files bdir) f \<noteq> map_of (ugk_files cdir) f} \<subseteq> {f. f \<in> set (declared (surface_of f) spec)}"
      by (rule confined_iff) (rule ugk_files_posix, assumption)+
    ultimately have "lr_ok r \<longleftrightarrow> keeps_behaviour b spec bdir cdir"
      unfolding keeps_behaviour_def c using t
      by (simp add: run_behavioral_gates_def list_all_iff)
    then show ?thesis using a x False by (simp add: same_files_iff)
  qed
qed (use assms in \<open>auto simp: evaluate_link_def\<close>)

subsection \<open>The cache\<close>

lemma opt_text_inject [simp]: "opt_text x = opt_text y \<longleftrightarrow> x = y"
  by (auto simp: opt_text_def split: option.splits)

lemma norm_opt_text [simp]: "norm_json (opt_text x) = opt_text x"
  by (simp add: opt_text_def split: option.splits)

lemma identity_get:
  "map (field_get (identity l b k h)) IDENTITY_KEYS = [JStr l, opt_text b, opt_text k, JStr h, JStr PROOF_MODEL_VERSION]"
  by (simp add: IDENTITY_KEYS_def field_get_def identity_def)

lemma identity_key_inject: "identity_key (identity l b k h) = identity_key (identity l' b' k' h') \<longleftrightarrow> l = l' \<and> b = b' \<and> k = k' \<and> h = h'"
  by (auto simp: identity_key_def compact_def dumps_eq_iff identity_get)

lemma make_entry_get:
  "field_get (make_entry l b k h v p g) ''verdict'' = v" "field_get (make_entry l b k h v p g) ''path'' = p" "field_get (make_entry l b k h v p g) ''legs'' = g"
  "field_get (make_entry l b k h v p g) ''entry_hash'' = JStr (entry_hash (identity l b k h) v p g)"
  "x \<in> set IDENTITY_KEYS \<Longrightarrow> field_get (make_entry l b k h v p g) x = field_get (identity l b k h) x"
  by (auto simp: make_entry_def Let_def field_get_def identity_def IDENTITY_KEYS_def)

lemma cache_put_entry: "cache_put c (make_entry l b k h v p g) = dict_set (identity_key (identity l b k h)) (make_entry l b k h v p g) c"
proof -
  have "map (\<lambda>x. (x, field_get (make_entry l b k h v p g) x)) IDENTITY_KEYS = identity l b k h"
    by (simp add: IDENTITY_KEYS_def make_entry_def Let_def identity_def field_get_def)
  then show ?thesis by (simp add: cache_put_def)
qed

lemma own_identity: "\<not> list_ex (\<lambda>(x, w). field_get (make_entry l b k h v p g) x \<noteq> w) (identity l b k h)"
  by (simp add: identity_def make_entry_def Let_def field_get_def)

lemma make_entry_nonempty: "make_entry l b k h v p g \<noteq> []"
  by (simp add: make_entry_def Let_def)

lemma cache_put_get:
  "cache_get (cache_put c (make_entry l b k h v p g)) l' b' k' h' =
     (if (l', b', k', h') = (l, b, k, h) then Some (make_entry l b k h v p g) else cache_get c l' b' k' h')"
proof (cases "(l', b', k', h') = (l, b, k, h)")
  case True
  then show ?thesis using own_identity [of l b k h v p g]
    by (simp add: cache_get_def cache_put_entry Let_def make_entry_nonempty make_entry_get)
next
  case False
  then have "identity_key (identity l' b' k' h') \<noteq> identity_key (identity l b k h)" by (simp add: identity_key_inject)
  then show ?thesis using False by (auto simp: cache_get_def cache_put_entry)
qed

lemma cache_reload: "load_cache (save_cache c) = c"
  by (simp add: load_cache_def save_cache_def)

text \<open>cache round trip. Round trip of the verdict cache through its file: after a verdict is stored and the cache written and read back, a lookup under the same label, archive hashes, link body hash
  and proof model version gives the stored entry, and every other lookup is what it was before.\<close>

theorem cache_round_trip:
  "cache_get (load_cache (save_cache (cache_put c (make_entry l b k h v p g)))) l' b' k' h' =
     (if (l', b', k', h') = (l, b, k, h) then Some (make_entry l b k h v p g) else cache_get c l' b' k' h')"
  by (simp add: cache_reload cache_put_get)

lemma cache_hit:
  assumes "cache_get c l b k h = Some e"
  shows "field_get e ''entry_hash'' = JStr (entry_hash (identity l b k h) (field_get e ''verdict'') (field_get e ''path'') (field_get e ''legs''))"
  using assms by (auto simp: cache_get_def Let_def split: option.splits if_splits)

lemma identity_zip: "identity l b k h = zip IDENTITY_KEYS [JStr l, opt_text b, opt_text k, JStr h, JStr PROOF_MODEL_VERSION]"
  by (simp add: identity_def IDENTITY_KEYS_def)

lemma entry_input_inject:
  assumes "entry_input (identity l b k h) v p g = entry_input (identity l' b' k' h') v' p' g'"
  shows "(l, b, k, h) = (l', b', k', h') \<and> norm_json v = norm_json v' \<and> norm_json p = norm_json p' \<and> norm_json g = norm_json g'"
proof -
  let ?ks = "[''identity'', ''verdict'', ''path'', ''legs'']"
  have z: "entry_input i v p g = utf8 (compact (JObj (zip ?ks [JObj i, v, p, g])))" for i v p g by (simp add: entry_input_def)
  have "norm_json (JObj (zip ?ks [JObj (identity l b k h), v, p, g])) = norm_json (JObj (zip ?ks [JObj (identity l' b' k' h'), v', p', g']))"
    using assms unfolding z utf8_eq_iff compact_def dumps_eq_iff .
  then have m: "map norm_json [JObj (identity l b k h), v, p, g] = map norm_json [JObj (identity l' b' k' h'), v', p', g']"
    by (rule norm_zip_inject) simp_all
  then have "norm_json (JObj (identity l b k h)) = norm_json (JObj (identity l' b' k' h'))" by (simp only: list.map list.inject)
  then have "map norm_json [JStr l, opt_text b, opt_text k, JStr h, JStr PROOF_MODEL_VERSION] =
      map norm_json [JStr l', opt_text b', opt_text k', JStr h', JStr PROOF_MODEL_VERSION]"
    unfolding identity_zip by (rule norm_zip_inject) (simp_all add: IDENTITY_KEYS_def)
  then show ?thesis using m by (simp only: list.map list.inject) simp
qed

lemma cache_hit_binds:
  assumes "cache_get c l b k h = Some e" "cache_get c' l' b' k' h' = Some e'" "field_get e ''entry_hash'' = field_get e' ''entry_hash''"
  shows "((l, b, k, h) = (l', b', k', h') \<and> norm_json (field_get e ''verdict'') = norm_json (field_get e' ''verdict'') \<and>
      norm_json (field_get e ''path'') = norm_json (field_get e' ''path'') \<and> norm_json (field_get e ''legs'') = norm_json (field_get e' ''legs'')) \<or>
    collide (entry_input (identity l b k h) (field_get e ''verdict'') (field_get e ''path'') (field_get e ''legs''))
      (entry_input (identity l' b' k' h') (field_get e' ''verdict'') (field_get e' ''path'') (field_get e' ''legs''))"
  (is "?same \<or> collide ?x ?y")
proof -
  have "hex_digest ?x = hex_digest ?y" using cache_hit [OF assms(1)] cache_hit [OF assms(2)] assms(3) by (simp add: entry_hash_def)
  then have "sha256 ?x = sha256 ?y" by (metis hex_digest_def fromhex_to_hex option.inject)
  from sha256_eq_cases [OF this] entry_input_inject [of l b k h _ _ _ l' b' k' h'] show ?thesis by blast
qed

subsection \<open>The frontier\<close>

definition trusted :: "bench \<Rightarrow> directory \<Rightarrow> string list \<Rightarrow> bool \<Rightarrow> cache \<Rightarrow> string \<times> fields \<Rightarrow> bool" where
  \<comment> \<open>a stored verdict that holds or, without one, a recomputation that holds on clean archives\<close>
  "trusted b dir tmp recompute c l = (case l of (label, spec) \<Rightarrow>
     (case cache_get c label (effective_sha ''baseline'' dir (content_index dir) spec) (effective_sha ''candidate'' dir (content_index dir) spec) (link_body_hash spec) of
        Some e \<Rightarrow> map_of e ''verdict'' = Some (JStr ''HOLD'')
      | None \<Rightarrow> recompute \<and> (\<exists>base cand r. archive_of ''baseline'' dir (content_index dir) spec = Some base \<and>
          archive_of ''candidate'' dir (content_index dir) spec = Some cand \<and>
          archive_genesis_contamination b base = [] \<and> archive_genesis_contamination b cand = [] \<and>
          evaluate_link b dir (content_index dir) tmp spec = Inr r \<and> lr_ok r)))"

definition good_item :: "frontier_item \<Rightarrow> bool" where
  "good_item it \<longleftrightarrow> fi_source it \<notin> {''budget_exhausted'', ''archives_absent''} \<and> fi_verdict it = JStr ''HOLD''"

lemma item_trusted:
  assumes "frontier_item_of b dir (content_index dir) tmp recompute label spec c = Inr (it, c')"
  shows "good_item it \<longleftrightarrow> trusted b dir tmp recompute c (label, spec)"
  using assms
  by (auto simp: frontier_item_of_def trusted_def good_item_def Let_def rbind_eq_Inr split: option.splits if_splits)

lemma item_cache:
  assumes "frontier_item_of b dir index tmp recompute label spec c = Inr (it, c')" "l \<noteq> label"
  shows "cache_get c' l x y z = cache_get c l x y z"
  using assms
  by (auto simp: frontier_item_of_def Let_def rbind_eq_Inr cache_put_get split: option.splits if_splits)

lemma trusted_cong:
  "(\<And>x y z. cache_get c label x y z = cache_get c' label x y z) \<Longrightarrow> trusted b dir tmp recompute c (label, spec) = trusted b dir tmp recompute c' (label, spec)"
  by (simp add: trusted_def)

lemma note_item_flags:
  "\<not> fs_fail (note_item it st) \<and> \<not> fs_unfinished (note_item it st) \<longleftrightarrow> \<not> fs_fail st \<and> \<not> fs_unfinished st \<and> good_item it"
  by (auto simp: note_item_def good_item_def)

lemma loop_holds:
  assumes "frontier_loop b dir (content_index dir) tmp recompute late n ls st = Inr st'" "distinct (map fst ls)"
    and "\<And>l x y z. l \<in> fst ` set ls \<Longrightarrow> cache_get (fs_cache st) l x y z = cache_get c l x y z"
  shows "\<not> fs_fail st' \<and> \<not> fs_unfinished st' \<longleftrightarrow>
    (\<not> fs_fail st \<and> \<not> fs_unfinished st) \<and> (\<forall>i<length ls. \<not> late (n + i)) \<and> list_all (trusted b dir tmp recompute c) ls"
  using assms
proof (induction ls arbitrary: n st)
  case Nil
  then show ?case by simp
next
  case (Cons a ls)
  obtain label spec where a: "a = (label, spec)" by (cases a)
  show ?case
  proof (cases "late n")
    case True
    have "\<not> (\<forall>i<length (a # ls). \<not> late (n + i))" using True by force
    moreover have "fs_unfinished st'" using Cons.prems(1) True a by (auto simp: note_item_def)
    ultimately show ?thesis by blast
  next
    case False
    obtain it c' where it: "frontier_item_of b dir (content_index dir) tmp recompute label spec (fs_cache st) = Inr (it, c')"
      "frontier_loop b dir (content_index dir) tmp recompute late (Suc n) ls ((note_item it st)\<lparr>fs_cache := c'\<rparr>) = Inr st'"
      using Cons.prems(1) False a by (auto simp: rbind_eq_Inr)
    have new: "cache_get c' l x y z = cache_get c l x y z" if "l \<in> fst ` set ls" for l x y z
      using that item_cache [OF it(1), of l] Cons.prems(2) Cons.prems(3) [of l] a by (auto simp: image_iff)
    have t: "good_item it \<longleftrightarrow> trusted b dir tmp recompute c a"
      unfolding item_trusted [OF it(1)] a by (rule trusted_cong) (use Cons.prems(3) a in simp)
    have late: "(\<forall>i<length (a # ls). \<not> late (n + i)) \<longleftrightarrow> (\<forall>i<length ls. \<not> late (Suc n + i))"
      using False by (auto simp: less_Suc_eq_0_disj)
    have "\<not> fs_fail st' \<and> \<not> fs_unfinished st' \<longleftrightarrow> (\<not> fs_fail (note_item it st) \<and> \<not> fs_unfinished (note_item it st)) \<and>
        (\<forall>i<length ls. \<not> late (Suc n + i)) \<and> list_all (trusted b dir tmp recompute c) ls"
      using Cons.IH [OF it(2)] Cons.prems(2) new by simp
    then show ?thesis unfolding note_item_flags t late by auto
  qed
qed

text \<open>C39. The incremental verifier never claims more than it checked: it answers HOLD exactly when the attestation is composed, consistent and anchors every unattested link, the time budget
  was met at every link, and each of these links has a stored verdict that holds under its current archive hashes, body hash and model version or, without a stored one, was recomputed and holds
  on two archives free of founding material.\<close>

theorem frontier_holds_exactly:
  assumes "verify_frontier b dir tmp recompute late (Att att) (Some links) cf = Inr (rc, cf')" "distinct (map fst links)"
  shows "fc_verdict rc = ''HOLD'' \<longleftrightarrow> sublist ''HOLD'' (at_composed att) \<and> verify_attestation links (Att att) = Inr True \<and>
    (\<forall>i<length (unattested att links). \<not> late i) \<and> list_all (trusted b dir tmp recompute (load_cache cf)) (unattested att links)"
proof -
  obtain ok where ok: "verify_attestation links (Att att) = Inr ok" by (simp add: verify_attestation_def Let_def)
  show ?thesis
  proof (cases "sublist ''HOLD'' (at_composed att) \<and> ok \<and> unattested att links \<noteq> []")
    case False
    then show ?thesis using assms(1) ok by (auto simp: verify_frontier_def Let_def split: if_splits)
  next
    case True
    then obtain st where st: "frontier_loop b dir (content_index dir) tmp recompute late 0 (unattested att links)
        \<lparr>fs_cache = load_cache cf, fs_items = [], fs_unfinished = False, fs_fail = False\<rparr> = Inr st"
      "fc_verdict rc = (if fs_fail st then ''FAIL'' else if fs_unfinished st then ''UNFINISHED'' else ''HOLD'')"
      using assms(1) ok by (auto simp: verify_frontier_def Let_def rbind_eq_Inr)
    have d: "distinct (map fst (unattested att links))" using assms(2) by (simp add: unattested_def distinct_map_filter)
    have "fc_verdict rc = ''HOLD'' \<longleftrightarrow> \<not> fs_fail st \<and> \<not> fs_unfinished st" using st(2) by simp
    then show ?thesis using loop_holds [OF st(1) d, of "load_cache cf"] True ok by simp
  qed
qed

subsection \<open>Minting and verifying an attestation\<close>

lemma attest_one_Some:
  assumes "attest_one b dir index tmp (label, spec) = Inr (Some a)"
  shows "\<exists>base cand r. al_label a = label \<and> archive_of ''baseline'' dir index spec = Some base \<and> archive_of ''candidate'' dir index spec = Some cand \<and>
    al_baseline_sha a = hex_digest base \<and> al_candidate_sha a = hex_digest cand \<and> evaluate_link b dir index tmp spec = Inr r \<and>
    al_verdict a = (if lr_ok r then ''HOLD'' else ''FAIL'')"
  using assms by (cases "archive_of ''baseline'' dir index spec"; cases "archive_of ''candidate'' dir index spec") (auto simp: attest_one_def rbind_eq_Inr)

lemma attested_from:
  assumes "attest b dir tmp links = Inr (att, n)" "a \<in> set (at_links att)"
  obtains label spec base cand r where "(label, spec) \<in> set links" "al_label a = label" "archive_of ''baseline'' dir (content_index dir) spec = Some base"
    "archive_of ''candidate'' dir (content_index dir) spec = Some cand" "al_baseline_sha a = hex_digest base" "al_candidate_sha a = hex_digest cand"
    "evaluate_link b dir (content_index dir) tmp spec = Inr r" "al_verdict a = (if lr_ok r then ''HOLD'' else ''FAIL'')"
proof -
  obtain rs where rs: "list_all2 (\<lambda>l x. attest_one b dir (content_index dir) tmp l = Inr x) links rs" "at_links att = List.map_filter id rs"
    using assms(1) by (auto simp: attest_def rbind_eq_Inr rmap_eq_Inr Let_def)
  have "Some a \<in> set rs" using assms(2) by (auto simp: rs(2) map_filter_def)
  then obtain l where l: "l \<in> set links" "attest_one b dir (content_index dir) tmp l = Inr (Some a)"
    using list_all2_member [OF rs(1)] by blast
  obtain label spec where ls: "l = (label, spec)" by (cases l)
  show thesis using attest_one_Some [OF l(2) [unfolded ls]] that [of label spec] l(1) [unfolded ls] by blast
qed

lemma attest_exit:
  assumes "attest b dir tmp links = Inr (att, n)"
  shows "n = 0 \<longleftrightarrow> at_links att \<noteq> [] \<and> list_all (\<lambda>a. al_verdict a = ''HOLD'') (at_links att)"
    "at_composed att = (if n = 0 then ''HOLD'' else ''FAIL'')"
  using assms by (auto simp: attest_def rbind_eq_Inr Let_def split: if_splits)

text \<open>fresh attestation verifies. Minting and verifying agree: an attestation minted with exit code 0 is composed as HOLD and lists only links whose continuity held on the bytes whose hashes it records, and the
  verifier accepts it, against any set of declared links, exactly when its hashes form a chain and every link it does not list starts at its head.\<close>

theorem fresh_attestation_verifies:
  assumes "attest b dir tmp links = Inr (att, 0)"
  shows "at_composed att = ''HOLD'' \<and>
    (\<forall>a\<in>set (at_links att). \<exists>spec base cand r. (al_label a, spec) \<in> set links \<and> archive_of ''baseline'' dir (content_index dir) spec = Some base \<and>
       archive_of ''candidate'' dir (content_index dir) spec = Some cand \<and> al_baseline_sha a = hex_digest base \<and> al_candidate_sha a = hex_digest cand \<and>
       evaluate_link b dir (content_index dir) tmp spec = Inr r \<and> lr_ok r) \<and>
    verify_attestation links' (Att att) = Inr (chained (at_links att) \<and>
       list_all (\<lambda>(label, spec). spec_text ''baseline_sha256'' spec = Some (al_candidate_sha (last (at_links att)))) (unattested att links'))"
proof -
  have ok: "at_links att \<noteq> []" "list_all (\<lambda>a. al_verdict a = ''HOLD'') (at_links att)" "at_composed att = ''HOLD''"
    using attest_exit [OF assms] by auto
  have "\<exists>spec base cand r. (al_label a, spec) \<in> set links \<and> archive_of ''baseline'' dir (content_index dir) spec = Some base \<and>
       archive_of ''candidate'' dir (content_index dir) spec = Some cand \<and> al_baseline_sha a = hex_digest base \<and> al_candidate_sha a = hex_digest cand \<and>
       evaluate_link b dir (content_index dir) tmp spec = Inr r \<and> lr_ok r" if a: "a \<in> set (at_links att)" for a
  proof -
    have "al_verdict a = ''HOLD''" using ok(2) a by (simp add: list_all_iff)
    moreover obtain label spec base cand r where r: "(label, spec) \<in> set links" "al_label a = label" "archive_of ''baseline'' dir (content_index dir) spec = Some base"
      "archive_of ''candidate'' dir (content_index dir) spec = Some cand" "al_baseline_sha a = hex_digest base" "al_candidate_sha a = hex_digest cand"
      "evaluate_link b dir (content_index dir) tmp spec = Inr r" "al_verdict a = (if lr_ok r then ''HOLD'' else ''FAIL'')"
      using attested_from [OF assms a] by blast
    ultimately have "lr_ok r" by (simp split: if_splits)
    then show ?thesis using r by blast
  qed
  then show ?thesis using ok by (simp add: verify_attestation_def Let_def)
qed

subsection \<open>The anchor\<close>

definition exit_of :: "(link_exc, claim) result \<Rightarrow> nat option" where
  "exit_of r = (case r of Inl _ \<Rightarrow> None | Inr c \<Rightarrow> Some (cl_exit c))"

text \<open>anchor not enforced. The genesis anchor is reported, not enforced: the exit code of the proof is the same whatever anchor is declared and whatever the ledger of the running constitution
  says, in every mode and also when the two disagree.\<close>

theorem anchor_not_enforced:
  "exit_of (proof_model_main b dir tmp links anchor ledger file mode) = exit_of (proof_model_main b dir tmp links anchor' ledger' file mode)"
  by (cases mode) (auto simp: proof_model_main_def prove_links_def exit_of_def rbind_def split: sum.splits)

subsection \<open>The era walk\<close>

lemma era_walk_misses:
  "era_walk recs succ R cur active = Some e \<Longrightarrow> \<forall>i. cur = Some i \<longrightarrow> i \<noteq> R \<longrightarrow> by_prior recs (ad_successor_law (recs ! i)) \<noteq> Some i"
  by (erule era_walk.raw_induct [where P = "\<lambda>recs succ R cur active e. \<forall>i. cur = Some i \<longrightarrow> i \<noteq> R \<longrightarrow> by_prior recs (ad_successor_law (recs ! i)) \<noteq> Some i", rotated])
    (auto split: option.splits if_splits)

text \<open>era walk hangs. The era walk follows the law leg only: once it stands on a record that its own successor law leads back to, other than the record looked for, it never returns. Such a record is
  the last of its law and moves another leg of the frame with the law stationary.\<close>

theorem era_walk_hangs:
  assumes "i \<noteq> R" "by_prior recs (ad_successor_law (recs ! i)) = Some i"
  shows "era_walk recs succ R (Some i) active = None"
  using era_walk_misses [of recs succ R "Some i" active] assms by (cases "era_walk recs succ R (Some i) active") auto

lemma by_prior_less: "by_prior recs law = Some j \<Longrightarrow> j < length recs"
  by (auto simp: by_prior_def dest!: find_SomeD)

lemma era_walk_ends:
  assumes "\<And>i j. by_prior recs (ad_successor_law (recs ! i)) = Some j \<Longrightarrow> i < length recs \<Longrightarrow> i < j" "\<And>i. cur = Some i \<Longrightarrow> i < length recs"
  shows "\<exists>e. era_walk recs succ R cur active = Some e"
proof (cases cur)
  case None
  then show ?thesis by (simp add: era_walk.simps)
next
  case (Some i)
  have "i < length recs \<Longrightarrow> \<exists>e. era_walk recs succ R (Some i) active = Some e" for i active
  proof (induction "length recs - i" arbitrary: i active rule: less_induct)
    case less
    show ?case
    proof (cases "i = R")
      case False
      show ?thesis
      proof (cases "by_prior recs (ad_successor_law (recs ! i))")
        case None
        then show ?thesis using False by (simp add: era_walk.simps [of recs succ R "Some i"] era_walk.simps [of recs succ R None])
      next
        case (Some j)
        then have "i < j" "j < length recs" using assms(1) less.prems by_prior_less by auto
        then show ?thesis using less.hyps [of j] False Some by (simp add: era_walk.simps [of recs succ R "Some i"])
      qed
    qed (simp add: era_walk.simps)
  qed
  then show ?thesis using Some assms(2) by blast
qed

subsection \<open>What the amendment program admits\<close>

lemma select_record_sound:
  "select_record bt ct recs = Some R \<Longrightarrow> R < length recs \<and> ad_prior_law (recs ! R) = fr_law bt \<and> ad_successor_law (recs ! R) = fr_law ct"
proof -
  assume R: "select_record bt ct recs = Some R"
  let ?c = "filter (\<lambda>i. ad_prior_law (recs ! i) = fr_law bt \<and> ad_successor_law (recs ! i) = fr_law ct) [0..<length recs]"
  have first: "(case is of [] \<Rightarrow> None | i # _ \<Rightarrow> Some i) = Some R \<Longrightarrow> R \<in> set is" for "is" :: "nat list" by (cases "is") auto
  have "R \<in> set ?c \<or> R \<in> set (filter (\<lambda>i. frame_match bt ct (recs ! i)) ?c)"
    using R unfolding select_record_def Let_def by (metis (no_types, lifting) first)
  then show ?thesis by auto
qed

lemma snippet_admits:
  assumes "amendment_snippet bt ct governor recs lineage = Some (Judged None)"
  shows "\<exists>R h. select_record bt ct recs = Some R \<and>
    is_admissible (recs ! R) (admission_of bt ct governor recs (case lineage of None \<Rightarrow> [] | Some l \<Rightarrow> [l]) R h) = Inr None"
  using assms by (auto simp: amendment_snippet_def judge_def split: option.splits if_splits sum.splits)

subsection \<open>Examples\<close>

definition demo_bench :: bench where
  \<comment> \<open>archives with one file outside \<^verbatim>\<open>ugk/\<close>\<close>
  "demo_bench = \<lparr>bn_untar = (\<lambda>_. Some [\<lparr>m_name = ''docs/a'', m_kind = Regular, m_data = []\<rparr>]), bn_names = (\<lambda>_. Some [''docs/a'']), bn_legend = (\<lambda>_. (0, [''l''])),
     bn_shape = (\<lambda>_. (0, Some [])), bn_gate = (\<lambda>_ _. 1), bn_batch = (\<lambda>_. (0, ''ALL PASS'')), bn_scale = (\<lambda>_. (0, ''ALL PASS'')), bn_al = (\<lambda>_. (0, ''AL CLEAN'')),
     bn_amend = (\<lambda>_ _ _. [])\<rparr>"

definition demo_dir :: directory where
  "demo_dir = [(''a.tar.gz'', []), (''b.tar.gz'', [1]), (''c.tar.gz'', [2])]"

definition demo_link :: fields where
  "demo_link = [(''baseline'', JStr ''a.tar.gz''), (''candidate'', JStr ''b.tar.gz'')]"

definition demo_next :: fields where
  "demo_next = [(''baseline'', JStr ''b.tar.gz''), (''candidate'', JStr ''c.tar.gz''), (''baseline_sha256'', JStr (hex_digest [1]))]"

definition demo_attestation :: attestation where
  "demo_attestation = \<lparr>at_composed = ''HOLD'', at_links = [\<lparr>al_label = ''a->b'', al_baseline = ''a.tar.gz'', al_candidate = ''b.tar.gz'',
     al_baseline_sha = hex_digest [], al_candidate_sha = hex_digest [1], al_path = ''shortcut(S)'', al_verdict = ''HOLD''\<rparr>]\<rparr>"

lemma demo_extract: "safe_extract demo_bench [''tmp''] d = Inr [(''docs/a'', [])]"
  by (simp add: safe_extract_def demo_bench_def unsafe_member_def target_of_def posix_def place_member_def)

theorem extraction_contained_witness: "''..'' \<notin> set (split_on (CHR ''/'') ''docs/a'')"
  using extraction_contained [OF demo_extract, of "''docs/a''"] by simp

lemma demo_archive:
  "archive_of ''baseline'' demo_dir index demo_link = Some []" "archive_of ''candidate'' demo_dir index demo_link = Some [1]"
  by (simp_all add: archive_of_def resolve_arch_def demo_link_def demo_dir_def spec_text_def)

lemma demo_shortcut:
  "archive_of ''baseline'' dir index spec = Some x \<Longrightarrow> archive_of ''candidate'' dir index spec = Some y \<Longrightarrow>
     evaluate_link demo_bench dir index [''tmp''] spec = Inr \<lparr>lr_ok = True, lr_path = ''shortcut(S)'', lr_legs = JObj [(''shortcut'', JBool True)]\<rparr>"
  by (simp add: evaluate_link_def demo_extract Let_def same_files_iff)

theorem link_holds_exactly_witness:
  "\<exists>bdir cdir. safe_extract demo_bench [''tmp''] [] = Inr bdir \<and> safe_extract demo_bench [''tmp''] [1] = Inr cdir \<and>
     (map_of (ugk_files bdir) = map_of (ugk_files cdir) \<or> keeps_behaviour demo_bench demo_link bdir cdir)"
  using link_holds_exactly [OF demo_shortcut [OF demo_archive, of "[]"]] by (simp add: demo_archive)

lemma demo_attest: "attest demo_bench demo_dir [''tmp''] [(''a->b'', demo_link)] = Inr (demo_attestation, 0)"
proof -
  have "attest_one demo_bench demo_dir index [''tmp''] (''a->b'', demo_link) = Inr (Some (hd (at_links demo_attestation)))" for index
    by (simp add: attest_one_def demo_archive demo_shortcut [OF demo_archive] demo_attestation_def) (simp add: need_def spec_text_def demo_link_def)
  then show ?thesis by (simp add: attest_def map_filter_def demo_attestation_def)
qed

theorem fresh_attestation_verifies_witness:
  "at_composed demo_attestation = ''HOLD'' \<and> verify_attestation [(''a->b'', demo_link), (''b->c'', demo_next)] (Att demo_attestation) = Inr True"
  using fresh_attestation_verifies [OF demo_attest, of "[(''a->b'', demo_link), (''b->c'', demo_next)]"]
  by (simp add: demo_attestation_def unattested_def demo_next_def spec_text_def)

lemma demo_frontier:
  "\<exists>rc cf'. verify_frontier demo_bench demo_dir [''tmp''] True (\<lambda>_. False) (Att demo_attestation) (Some [(''a->b'', demo_link), (''b->c'', demo_next)]) NoCache = Inr (rc, cf') \<and>
     fc_verdict rc = ''HOLD''"
proof -
  have f: "unattested demo_attestation [(''a->b'', demo_link), (''b->c'', demo_next)] = [(''b->c'', demo_next)]"
    by (simp add: unattested_def demo_attestation_def)
  have v: "verify_attestation [(''a->b'', demo_link), (''b->c'', demo_next)] (Att demo_attestation) = Inr True"
    by (simp add: verify_attestation_def f) (simp add: demo_attestation_def demo_next_def spec_text_def)
  have h: "sublist ''HOLD'' (at_composed demo_attestation)" by (simp add: demo_attestation_def)
  have "hex_digest x \<noteq> []" for x by (simp add: hex_digest_def)
  then have a: "\<exists>x. archive_of ''baseline'' demo_dir (content_index demo_dir) demo_next = Some x" "\<exists>x. archive_of ''candidate'' demo_dir (content_index demo_dir) demo_next = Some x"
    by (simp_all add: archive_of_def resolve_arch_def demo_next_def demo_dir_def content_index_def spec_text_def suffix_def)
  then obtain x y where xy: "archive_of ''baseline'' demo_dir (content_index demo_dir) demo_next = Some x" "archive_of ''candidate'' demo_dir (content_index demo_dir) demo_next = Some y" by blast
  have g: "archive_genesis_contamination demo_bench z = []" for z
    by (simp add: archive_genesis_contamination_def demo_bench_def founding_name_def posix_def Let_def suffix_def)
  show ?thesis using xy by (simp add: verify_frontier_def f v h frontier_item_of_def Let_def cache_get_def load_cache_def g demo_shortcut [OF xy] note_item_def)
qed

theorem frontier_holds_exactly_witness:
  "trusted demo_bench demo_dir [''tmp''] True [] (''b->c'', demo_next)"
proof -
  obtain rc cf' where r: "verify_frontier demo_bench demo_dir [''tmp''] True (\<lambda>_. False) (Att demo_attestation) (Some [(''a->b'', demo_link), (''b->c'', demo_next)]) NoCache = Inr (rc, cf')"
    "fc_verdict rc = ''HOLD''" using demo_frontier by blast
  have "list_all (trusted demo_bench demo_dir [''tmp''] True (load_cache NoCache)) (unattested demo_attestation [(''a->b'', demo_link), (''b->c'', demo_next)])"
    using frontier_holds_exactly [OF r(1)] r(2) by simp
  then show ?thesis by (simp add: unattested_def demo_attestation_def load_cache_def)
qed

definition plain_record :: "string \<Rightarrow> string \<Rightarrow> string \<Rightarrow> amendment" where
  "plain_record kind prior succ = \<lparr>ad_hash = prior @ succ, ad_prior_law = prior, ad_successor_law = succ, ad_added = [], ad_removed = [], ad_authority = [], ad_signature = [],
     ad_phase_code = [], ad_timestamp = [], ad_kind = kind, ad_prior_legend = [], ad_successor_legend = [], ad_prior_schema = [], ad_successor_schema = [], ad_prior_amendment = []\<rparr>"

definition demo_ledger :: "amendment list" where
  \<comment> \<open>genesis, then two records that keep the law\<close>
  "demo_ledger = [plain_record ''genesis'' ''A'' ''B'', plain_record ''ordinary'' ''B'' ''B'', plain_record ''ordinary'' ''B'' ''B'']"

theorem era_walk_hangs_witness: "era_walk demo_ledger [] 1 (genesis_of demo_ledger) 0 = None"
proof -
  have "genesis_of demo_ledger = Some 0" by (simp add: genesis_of_def demo_ledger_def plain_record_def upt_rec)
  moreover have "by_prior demo_ledger (ad_successor_law (demo_ledger ! 0)) = Some 2" "by_prior demo_ledger (ad_successor_law (demo_ledger ! 2)) = Some 2"
    by (simp_all add: by_prior_def demo_ledger_def plain_record_def upt_rec numeral_2_eq_2)
  moreover have "era_walk demo_ledger [] 1 (Some 2) a = None" for a by (rule era_walk_hangs) (use calculation in simp_all)
  ultimately show ?thesis by (simp add: era_walk.simps [of demo_ledger "[]" "Suc 0" "Some 0"])
qed

end
