(* ===== verification/Runner.thy ===== *)
theory Runner
  imports Sessions Complex_Main
begin

text \<open>
  Governed test execution: the headless runner (\<^verbatim>\<open>ugk/testing/headless_runner.py\<close>), the coverage analysis of the test corpus
  (\<^verbatim>\<open>ugk/ctr/__init__.py\<close>), the self-check of a kernel (\<^verbatim>\<open>ugk/core/esa.py\<close>, \<^verbatim>\<open>ugk/core/srsa.py\<close>) and the look-ups of the capability registry
  (\<^verbatim>\<open>ugk/cgp/esa/__init__.py\<close>).

  A scenario is a program over the kernel; the runner goes through the modelled \<^const>\<open>execute\<close>. Wall-clock measurements are arguments, and
  rational; timings that are only reported are left out. A Python set whose order matters is a list.

  Main results: a batch reports exactly what its scenarios did and keeps what they and a checkpoint keep; its total of receipts is the growth of the store exactly when every
  checkpoint wrote two; when the fingerprint test accepts; which invariants are reported as gaps.
\<close>

subsection \<open>Coverage\<close>

record gate_mark =
  gm_invariant :: string
  gm_class :: string
  gm_family :: string

record 'b test_fn =
  tf_name :: string
  tf_mark :: "gate_mark option"
  tf_body :: 'b

definition PROOF_REQUIREMENTS :: "(string \<times> string list) list" where
  "PROOF_REQUIREMENTS =
     [(''UL-S-'', [''behavioral'', ''governance'']), (''S-'', [''behavioral'', ''governance'']), (''DM-S-'', [''behavioral'', ''governance'']),
      (''EH-S-'', [''behavioral'', ''governance'', ''negative'']), (''ST-S-'', [''behavioral'', ''governance'', ''negative'']),
      (''PC-S-'', [''behavioral'', ''performance'']), (''TV-S-'', [''structural'', ''behavioral'']), (''GK-S-'', [''behavioral'', ''governance'']),
      (''GK-THIN-'', [''behavioral'', ''governance''])]"

definition prefix_for :: "string \<Rightarrow> string option" where
  "prefix_for iv = find (\<lambda>p. prefix p iv) (sort_key (\<lambda>p. - int (length p)) (map fst PROOF_REQUIREMENTS))"

definition required_for :: "string \<Rightarrow> string list" where
  "required_for p = (case map_of PROOF_REQUIREMENTS p of None \<Rightarrow> [] | Some cs \<Rightarrow> cs)"

record gap =
  gp_invariant :: string
  gp_present :: "string list"
  gp_missing :: "string list"
  gp_required :: "string list"

record coverage_report =
  cv_source :: string
  cv_total :: nat
  cv_tagged :: nat
  cv_untagged :: nat
  cv_ratio :: rat
  cv_covered :: "string list"
  cv_missing :: "string list"
  cv_classes :: "string list"
  cv_gaps :: "gap list"
  cv_families :: "(string \<times> string list) list"
  cv_warnings :: "string list"

definition classes_of :: "(string \<times> string list) list \<Rightarrow> string \<Rightarrow> string list" where
  "classes_of d i = (case map_of d i of None \<Rightarrow> [] | Some cs \<Rightarrow> cs)"

definition note_evidence :: "gate_mark \<Rightarrow> (string \<times> string list) list \<Rightarrow> (string \<times> string list) list" where
  \<comment> \<open>\<^verbatim>\<open>setdefault(inv, set()).add(ec)\<close>\<close>
  "note_evidence m d = dict_set (gm_invariant m) (List.insert (gm_class m) (classes_of d (gm_invariant m))) d"

definition inv_evidence :: "gate_mark list \<Rightarrow> (string \<times> string list) list" where
  "inv_evidence ms = fold note_evidence ms []"

definition sorted_set :: "string list \<Rightarrow> string list" where
  "sorted_set xs = sort (remdups xs)"

definition covered_gap :: "string \<times> string list \<Rightarrow> gap list" where
  "covered_gap e = (case prefix_for (fst e) of
       None \<Rightarrow> []
     | Some p \<Rightarrow> (let required = required_for p; missing = filter (\<lambda>c. c \<notin> set (snd e)) required in
         if missing = [] then [] else [\<lparr>gp_invariant = fst e, gp_present = sorted_set (snd e), gp_missing = sorted_set missing, gp_required = sorted_set required\<rparr>]))"

definition uncovered_gap :: "string list \<Rightarrow> string \<Rightarrow> gap list" where
  "uncovered_gap seen iv =
     (if iv \<in> set seen then []
      else let required = (case prefix_for iv of None \<Rightarrow> [] | Some p \<Rightarrow> required_for p); shown = (if required = [] then [''any''] else sorted_set required) in
        [\<lparr>gp_invariant = iv, gp_present = [], gp_missing = shown, gp_required = shown\<rparr>])"

definition SUPER_FAMILIES :: "string list" where
  "SUPER_FAMILIES = [''realization'', ''reconstruction'', ''representativeness'', ''counterfactual'']"

definition analyse :: "string list \<Rightarrow> 'b test_fn list \<Rightarrow> string option \<Rightarrow> 'b test_fn list option \<Rightarrow> (pyexc, coverage_report) result" where
  \<comment> \<open>required invariants, test functions, evidence source, all callables of the module\<close>
  "analyse required fns source callables =
     (case source of
        None \<Rightarrow> Inl ValueError
      | Some src \<Rightarrow>
          (let marks = List.map_filter tf_mark fns;
               all_fns = (case callables of None \<Rightarrow> fns | Some [] \<Rightarrow> fns | Some cs \<Rightarrow> cs);
               tests = filter (\<lambda>f. prefix ''test_'' (tf_name f)) all_fns;
               untagged = filter (\<lambda>f. tf_mark f = None) tests;
               evidence = inv_evidence marks
           in Inr \<lparr>cv_source = src, cv_total = length tests, cv_tagged = length marks, cv_untagged = length untagged,
                cv_ratio = (if length tests > 0 then of_nat (length marks) / of_nat (length tests) else 0),
                cv_covered = map fst evidence, cv_missing = filter (\<lambda>i. i \<notin> set (map fst evidence)) required,
                cv_classes = remdups (map gm_class marks),
                cv_gaps = concat (map covered_gap evidence) @ concat (map (uncovered_gap (map fst evidence)) required),
                cv_families = map (\<lambda>sf. (sf, map gm_invariant (filter (\<lambda>m. gm_family m = sf) marks))) SUPER_FAMILIES,
                cv_warnings = map tf_name untagged\<rparr>))"

subsection \<open>Scenarios and batches\<close>

record profile =
  pf_expected :: "string list"
  pf_invert :: bool

definition DEFAULT_PROFILE :: profile where "DEFAULT_PROFILE = \<lparr>pf_expected = GOVERNANCE_OPS, pf_invert = False\<rparr>"
definition INVERTED_PROFILE :: profile where "INVERTED_PROFILE = \<lparr>pf_expected = [], pf_invert = True\<rparr>"

definition make_epistemic_profile :: "string list \<Rightarrow> profile" where
  "make_epistemic_profile expected = \<lparr>pf_expected = expected, pf_invert = False\<rparr>"

record scenario =
  sc_name :: string
  sc_body :: "(kernel, unit) prog"

record scenario_result =
  rs_name :: string
  rs_passed :: bool
  rs_delta :: int
  rs_stream :: string
  rs_anomaly :: nat
  rs_checkpoint :: "string option"
  rs_error :: "exc option"

definition compute_anomaly_score :: "store \<Rightarrow> profile \<Rightarrow> nat \<Rightarrow> nat" where
  "compute_anomaly_score s p before =
     (let since = drop before (all_receipts s) in
      if pf_invert p then (if pf_expected p = [] then length since else 0)
      else if pf_expected p = [] then 0
      else length (filter (\<lambda>r. r_op r \<notin> set (pf_expected p)) since))"

definition run_scenario :: "scenario \<Rightarrow> profile \<Rightarrow> (kernel, scenario_result) prog" where
  "run_scenario sc p k =
     (let before = receipt_count (k_store k); (r, k') = sc_body sc k; s = k_store k' in
      (Inr \<lparr>rs_name = sc_name sc, rs_passed = (case r of Inl _ \<Rightarrow> False | Inr _ \<Rightarrow> True),
         rs_delta = int (receipt_count s) - int before, rs_stream = stream_hash s, rs_anomaly = compute_anomaly_score s p before,
         rs_checkpoint = None, rs_error = (case r of Inl e \<Rightarrow> Some e | Inr _ \<Rightarrow> None)\<rparr>, k'))"

definition runner_call :: "string \<Rightarrow> string \<Rightarrow> json \<Rightarrow> unit exec_args" where
  "runner_call opn authority params =
     \<lparr>xa_op = opn, xa_authority = Some (PStr authority), xa_parameters = Some (of_json params), xa_gate = None, xa_effect = None,
      xa_atomicity = None, xa_idempotency_key = None, xa_gate_margin = None, xa_layer = ''I'', xa_jurisdiction = ''session'',
      xa_governor_sig = None, xa_warrant_basis = None, xa_intent_ref = [], xa_authority_set = None, xa_capability_verdicts = [],
      xa_required_locality = None\<rparr>"

definition attempt :: "string \<Rightarrow> string \<Rightarrow> (kernel \<Rightarrow> json) \<Rightarrow> (kernel, unit) prog" where
  \<comment> \<open>a call whose exceptions are swallowed\<close>
  "attempt opn authority params = sswallow (sbind (sget params) (\<lambda>j. sthen (execute (runner_call opn authority j)) (sret ())))"

definition checkpoint :: "string \<Rightarrow> scenario_result \<Rightarrow> (kernel, unit) prog" where
  "checkpoint authority r = attempt ''test_checkpoint'' authority (\<lambda>k. JObj
     [(''scenario'', JStr (rs_name r)), (''passed'', JBool (rs_passed r)), (''stream_hash'', JStr (rs_stream r)),
      (''receipt_count'', JInt (int (receipt_count (k_store k))))])"

definition checked_scenario :: "string \<Rightarrow> profile \<Rightarrow> scenario \<times> profile option \<Rightarrow> (kernel, scenario_result) prog" where
  \<comment> \<open>a scenario and its checkpoint\<close>
  "checked_scenario authority dflt x =
     sbind (run_scenario (fst x) (case snd x of None \<Rightarrow> dflt | Some p \<Rightarrow> p)) (\<lambda>r.
     sthen (checkpoint authority r) (
     sbind (sget (\<lambda>k. stream_hash (k_store k))) (\<lambda>h. sret (r\<lparr>rs_checkpoint := Some h\<rparr>))))"

fun batch_loop :: "string \<Rightarrow> profile \<Rightarrow> (scenario \<times> profile option) list \<Rightarrow> (kernel, scenario_result list) prog" where
  "batch_loop authority dflt [] = sret []"
| "batch_loop authority dflt (x # xs) = sbind (checked_scenario authority dflt x) (\<lambda>r. sbind (batch_loop authority dflt xs) (\<lambda>rs. sret (r # rs)))"

record batch_result =
  br_results :: "scenario_result list"
  br_checkpoints :: "string list"
  br_total :: int
  br_final :: string

definition run_batch :: "string \<Rightarrow> profile \<Rightarrow> (scenario \<times> profile option) list \<Rightarrow> (kernel, batch_result) prog" where
  "run_batch authority dflt xs =
     sbind (batch_loop authority dflt xs) (\<lambda>rs. sbind (sget (\<lambda>k. stream_hash (k_store k))) (\<lambda>h.
     sret \<lparr>br_results = rs, br_checkpoints = map (\<lambda>r. the (rs_checkpoint r)) rs, br_total = (\<Sum>r\<leftarrow>rs. rs_delta r + 2), br_final = h\<rparr>))"

subsection \<open>Sweeps\<close>

record sweep_result =
  sw_name :: string
  sw_passed :: bool
  sw_delta :: int
  sw_stream :: string
  sw_anomaly :: nat
  sw_results :: "scenario_result list"
  sw_checkpoints :: "string list"
  sw_coverage :: "coverage_report option"
  sw_anomalies :: "string list"
  sw_latencies :: "(string \<times> rat list) list"

datatype clean_error = ScenariosFailed "string list" | AnomaliesFound "string list"

definition assert_clean :: "sweep_result \<Rightarrow> bool \<Rightarrow> (clean_error, unit) result" where
  "assert_clean w allow =
     (if \<not> sw_passed w then Inl (ScenariosFailed (map rs_name (filter (\<lambda>r. \<not> rs_passed r) (sw_results w))))
      else if \<not> allow \<and> sw_anomalies w \<noteq> [] then Inl (AnomaliesFound (sw_anomalies w)) else Inr ())"

definition median :: "rat list \<Rightarrow> rat" where
  "median xs = (let ss = sort xs; n = length ss; m = n div 2 in if n mod 2 = 0 then (ss ! (m - 1) + ss ! m) / 2 else ss ! m)"

definition median_latency :: "sweep_result \<Rightarrow> string \<Rightarrow> (pyexc, rat) result" where
  "median_latency w opn = (case map_of (sw_latencies w) opn of None \<Rightarrow> Inl KeyError | Some [] \<Rightarrow> Inl KeyError | Some xs \<Rightarrow> Inr (median xs))"

definition sweep_of :: "string \<Rightarrow> bool \<Rightarrow> string list \<Rightarrow> nat \<Rightarrow> kernel \<Rightarrow> sweep_result" where
  \<comment> \<open>the result of a sweep without scenarios, given the receipt count at its start\<close>
  "sweep_of name passed anomalies before k =
     \<lparr>sw_name = name, sw_passed = passed, sw_delta = int (receipt_count (k_store k)) - int before, sw_stream = stream_hash (k_store k),
      sw_anomaly = length anomalies, sw_results = [], sw_checkpoints = [], sw_coverage = None, sw_anomalies = anomalies, sw_latencies = []\<rparr>"

definition evidence_sweep :: "string \<Rightarrow> string \<Rightarrow> bool \<Rightarrow> string list \<Rightarrow> json \<Rightarrow> (kernel, sweep_result) prog" where
  \<comment> \<open>the common end of the sweeps: one attempted \<open>crp_evidence\<close> and the result\<close>
  "evidence_sweep authority name passed anomalies params =
     sbind (sget (\<lambda>k. receipt_count (k_store k))) (\<lambda>before.
     sthen (attempt ''crp_evidence'' authority (\<lambda>_. params)) (sget (sweep_of name passed anomalies before)))"

definition py_space :: "char \<Rightarrow> bool" where
  "py_space c \<longleftrightarrow> (let n = of_char c :: nat in 9 \<le> n \<and> n \<le> 13 \<or> 28 \<le> n \<and> n \<le> 32 \<or> n = 133 \<or> n = 160)"

definition is_stub :: "string \<Rightarrow> bool" where
  \<comment> \<open>\<^verbatim>\<open>src.strip().endswith("pass") or "raise NotImplementedError" in src\<close>\<close>
  "is_stub src \<longleftrightarrow> suffix ''pass'' (rev (dropWhile py_space (rev (dropWhile py_space src)))) \<or> sublist ''raise NotImplementedError'' src"

definition structural_sweep :: "string \<Rightarrow> (string \<times> string option) list \<Rightarrow> (kernel, sweep_result) prog" where
  \<comment> \<open>the callable attributes of the target with their source text, if it can be read\<close>
  "structural_sweep authority attrs =
     (let anomalies = map (\<lambda>a. ''Stub detected: '' @ fst a)
            (filter (\<lambda>a. \<not> prefix ''_'' (fst a) \<and> (case snd a of None \<Rightarrow> False | Some src \<Rightarrow> is_stub src)) attrs) in
      evidence_sweep authority ''structural_sweep'' (anomalies = []) anomalies
        (JObj [(''sweep'', JStr ''structural''), (''anomalies'', JInt (int (length anomalies)))]))"

definition slow_average :: "rat list \<Rightarrow> bool" where
  "slow_average ls \<longleftrightarrow> sum_list ls / of_nat (length ls) > 10"

definition cap52_sweep :: "string \<Rightarrow> rat list option \<Rightarrow> (kernel, sweep_result) prog" where
  \<comment> \<open>the ten measured latencies, if the target has \<open>snapshot_fast\<close>; the average in the message is left out\<close>
  "cap52_sweep authority fast =
     (let anomalies = (case fast of None \<Rightarrow> [] | Some ls \<Rightarrow> if slow_average ls then [''snapshot_fast() avg > 10ms (D-PC-01)''] else []) in
      sbind (evidence_sweep authority ''cap52_sweep'' (anomalies = []) anomalies
        (JObj [(''sweep'', JStr ''cap52''), (''anomalies'', JInt (int (length anomalies)))])) (\<lambda>w.
      sret (w\<lparr>sw_latencies := (case fast of None \<Rightarrow> [] | Some ls \<Rightarrow> [(''snapshot_fast'', ls)])\<rparr>)))"

definition filesystem_sweep :: "string \<Rightarrow> (kernel, sweep_result) prog" where
  "filesystem_sweep authority =
     evidence_sweep authority ''filesystem_sweep'' True [] (JObj [(''sweep'', JStr ''filesystem''), (''profile'', JStr ''inverted'')])"

fun warm :: "string \<Rightarrow> nat \<Rightarrow> nat \<Rightarrow> (kernel, unit) prog" where
  "warm authority i 0 = sret ()"
| "warm authority i (Suc n) =
     sthen (attempt ''crp_evidence'' authority (\<lambda>_. JObj [(''corpus_entry'', JInt (int i)), (''warm'', JBool True)])) (warm authority (Suc i) n)"

definition with_warm_corpus :: "string \<Rightarrow> string \<Rightarrow> nat \<Rightarrow> (kernel, sweep_result) prog" where
  \<comment> \<open>the UUID a new session would get comes first\<close>
  "with_warm_corpus fresh authority n =
     sbind (sget (\<lambda>k. receipt_count (k_store k))) (\<lambda>before.
     sbind (sget (\<lambda>k. k_session k = None)) (\<lambda>closed.
     sthen (swhen closed (sthen (open_session fresh None) (sret ()))) (
     sthen (warm authority 0 n)
       (sget (\<lambda>k. sweep_of (''with_warm_corpus(n='' @ show_int (int n) @ '')'') (receipt_count (k_store k) > before) [] before k)))))"

subsection \<open>Checkpoints and fingerprints\<close>

definition snapshot_at :: "string \<Rightarrow> store \<Rightarrow> receipt option" where
  "snapshot_at h s = find (\<lambda>r. r_h_r r = h) (all_receipts s)"

record fingerprint =
  fp_required :: "string list"
  fp_checkpoints :: nat
  fp_prohibited :: "string list"
  fp_rate_gate :: bool
  fp_sequence :: bool
  fp_ceilings :: "(string \<times> rat) list option"
  fp_samples :: "(string \<times> rat list) list option"

definition count_op :: "receipt \<Rightarrow> (string \<times> nat) list \<Rightarrow> (string \<times> nat) list" where
  "count_op r d = dict_set (r_op r) ((case map_of d (r_op r) of None \<Rightarrow> 0 | Some n \<Rightarrow> n) + 1) d"

definition op_counts :: "receipt list \<Rightarrow> (string \<times> nat) list" where
  "op_counts rs = fold count_op rs []"

definition samples_of :: "fingerprint \<Rightarrow> string \<Rightarrow> rat list" where
  \<comment> \<open>the empty list also for an operation without samples\<close>
  "samples_of fp opn = (case fp_samples fp of None \<Rightarrow> [] | Some d \<Rightarrow> (case map_of d opn of None \<Rightarrow> [] | Some xs \<Rightarrow> xs))"

definition verify_convergence_fingerprint :: "store \<Rightarrow> fingerprint \<Rightarrow> fingerprint option \<Rightarrow> bool" where
  "verify_convergence_fingerprint s fp baseline =
     (let rs = all_receipts s; counts = op_counts rs; ceilings = (case fp_ceilings fp of None \<Rightarrow> [] | Some cs \<Rightarrow> cs) in
      if rs = [] then fp_checkpoints fp = 0
      else if \<not> list_all (\<lambda>x. x \<in> set (map r_op rs)) (fp_required fp) then False
      else if (case map_of counts ''test_checkpoint'' of None \<Rightarrow> 0 | Some n \<Rightarrow> n) \<noteq> fp_checkpoints fp then False
      else if list_ex (\<lambda>x. x \<in> set (map r_op rs)) (fp_prohibited fp) then False
      else if fp_rate_gate fp \<and> list_ex (\<lambda>(_, n). 5 * n > 4 * length rs) counts then False
      else if fp_sequence fp \<and> (r_op (hd rs) \<noteq> ''session_open'' \<or> r_op (last rs) \<noteq> ''session_close'') then False
      else if list_ex (\<lambda>(x, c). samples_of fp x = [] \<or> median (samples_of fp x) > c) ceilings then False
      else (case baseline of
          None \<Rightarrow> True
        | Some old \<Rightarrow> list_all (\<lambda>(x, _). samples_of fp x \<noteq> [] \<and> samples_of old x \<noteq> [] \<and> median (samples_of fp x) < median (samples_of old x)) ceilings))"

definition epistemic_sweep :: "string \<Rightarrow> (string list \<times> string list) option \<Rightarrow> rat list option \<Rightarrow> (kernel, sweep_result) prog" where
  \<comment> \<open>observation surfaces and classified remainders of the target's snapshot, and its ten latencies\<close>
  "epistemic_sweep authority snap fast =
     sbind (sget (\<lambda>k. receipt_count (k_store k))) (\<lambda>before.
     let missing = (case snap of None \<Rightarrow> [] | Some (surfaces, remainders) \<Rightarrow>
           map (\<lambda>c. ''ESA minimum missing: '' @ c) (filter (\<lambda>c. c \<notin> set surfaces) [''Cap-1'', ''Cap-2'', ''Cap-4'']) @
           (if remainders = [] then [''Axis 7: classified_remainders absent''] else [])) in
     sbind (case fast of
         None \<Rightarrow> sret []
       | Some ls \<Rightarrow> sbind (cap52_sweep authority (Some ls)) (\<lambda>w. sget (\<lambda>k.
           let fp = \<lparr>fp_required = [], fp_checkpoints = length (receipts_by_op (k_store k) ''test_checkpoint''), fp_prohibited = [], fp_rate_gate = False,
                 fp_sequence = False, fp_ceilings = Some [(''snapshot_fast'', 10)], fp_samples = Some (sw_latencies w)\<rparr> in
           if verify_convergence_fingerprint (k_store k) fp None then [] else [''Latency fingerprint failed: snapshot_fast()'']))) (\<lambda>slow.
     let anomalies = missing @ slow in
     sthen (attempt ''crp_evidence'' authority (\<lambda>_. JObj [(''sweep'', JStr ''epistemic''), (''anomalies'', JInt (int (length anomalies))),
         (''checks'', JList [JStr ''cap124_present'', JStr ''classified_remainders'', JStr ''latency_fingerprint''])]))
       (sget (sweep_of ''epistemic_sweep'' (anomalies = []) anomalies before))))"

definition run_gate_tests :: "string \<Rightarrow> string \<Rightarrow> (kernel, unit) prog test_fn list \<Rightarrow> (kernel, sweep_result) prog" where
  \<comment> \<open>the callables of the module in \<^verbatim>\<open>dir\<close> order\<close>
  "run_gate_tests authority modname callables =
     (let discovered = filter (\<lambda>f. tf_mark f \<noteq> None) callables in
      sbind (sget (\<lambda>k. receipt_count (k_store k))) (\<lambda>before.
      sbind (if discovered = [] then sget (\<lambda>k. \<lparr>br_results = [], br_checkpoints = [], br_total = 0, br_final = stream_hash (k_store k)\<rparr>)
             else run_batch authority DEFAULT_PROFILE (map (\<lambda>f. (\<lparr>sc_name = tf_name f, sc_body = tf_body f\<rparr>, None)) discovered)) (\<lambda>b.
      sbind (slift (analyse [] discovered (Some ''governed_receipt_chain'') (Some (filter (\<lambda>f. prefix ''test_'' (tf_name f)) callables)))) (\<lambda>cv.
      sget (\<lambda>k. \<lparr>sw_name = ''run_gate_tests:'' @ modname, sw_passed = list_all rs_passed (br_results b),
         sw_delta = int (receipt_count (k_store k)) - int before, sw_stream = stream_hash (k_store k),
         sw_anomaly = (\<Sum>r\<leftarrow>br_results b. rs_anomaly r), sw_results = br_results b, sw_checkpoints = br_checkpoints b, sw_coverage = Some cv,
         sw_anomalies = map (\<lambda>r. ''FAIL: '' @ rs_name r) (filter (\<lambda>r. \<not> rs_passed r) (br_results b)), sw_latencies = []\<rparr>)))))"

subsection \<open>Self-check of a kernel\<close>

definition INTENT_TYPES :: "string list" where
  "INTENT_TYPES = [''orient'', ''synthesize'', ''verify'', ''claim'', ''transform'', ''conform'', ''annotate'', ''observe'', ''resolve'', ''propose'', ''evaluate'',
     ''classify'', ''derive'', ''compare'', ''define'', ''infer'', ''enumerate'']"

definition CLASSIFIED_REMAINDERS :: "string list" where
  \<comment> \<open>by their identifiers\<close>
  "CLASSIFIED_REMAINDERS = [''CR-01'', ''CR-02'', ''CR-03'', ''CR-04'']"

definition ssa_lit :: bool where
  "ssa_lit \<longleftrightarrow> length INTENT_TYPES = 17 \<and>
     length (remdups (map render (filter (\<lambda>e. tier e = ''vocab'' \<and> prefix ''intent-'' (slug e)) LEGEND_ENTRIES))) = 17"

definition srsa_vector :: "kernel \<Rightarrow> (string \<times> nat \<times> bool) list" where
  \<comment> \<open>axis, score and \<open>lit\<close>; the descriptions are left out\<close>
  "srsa_vector k = map (\<lambda>(axis, lit). (axis, if lit then 1 else 0, lit))
     [(''AdSA'', True), (''ASA'', True), (''CSA'', sn_receipt_count (snapshot_fast k) \<ge> 0), (''PSA'', True), (''ESA'', True), (''FSA'', True),
      (''RSA'', False), (''SSA'', ssa_lit), (''ISA'', False), (''LSA'', False)]"

definition is_readonly :: "nat \<Rightarrow> bool" where
  \<comment> \<open>\<^verbatim>\<open>S_IWUSR\<close>, \<^verbatim>\<open>S_IWGRP\<close> and \<^verbatim>\<open>S_IWOTH\<close> are bits 7, 4 and 1 of the mode\<close>
  "is_readonly mode \<longleftrightarrow> \<not> bit mode 7 \<and> \<not> bit mode 4 \<and> \<not> bit mode 1"

definition status_text :: "kernel \<Rightarrow> string" where
  "status_text k = (if k_active k then ''ACTIVE'' else ''UNINITIALIZED'')"

record self_report =
  sr_checked :: nat
  sr_passed :: nat
  sr_failed :: nat
  sr_results :: "(string \<times> bool) list"
  sr_failures :: "string list"
  sr_overall :: string

definition run_selfcheck :: "(string \<times> nat) list option \<Rightarrow> kernel \<Rightarrow> self_report" where
  \<comment> \<open>paths and modes of the grundnorm files, unless reading them raises\<close>
  "run_selfcheck modes k =
     (let results = [(''KCap-1'', status_text k \<in> {''UNINITIALIZED'', ''ACTIVE''}),
            (''KCap-2'', case modes of None \<Rightarrow> False | Some ms \<Rightarrow> list_all (\<lambda>(_, m). is_readonly m) ms),
            (''KCap-3'', verify_stream_hash (k_store k) None),
            (''KCap-4'', length CLASSIFIED_REMAINDERS \<ge> 4),
            (''KCap-5'', length (srsa_vector k) = 10)];
          passed = length (filter snd results); total = length results
      in \<lparr>sr_checked = total, sr_passed = passed, sr_failed = total - passed, sr_results = results,
           sr_failures = map fst (filter (\<lambda>r. \<not> snd r) results), sr_overall = (if passed = total then ''PASS'' else ''FAIL'')\<rparr>)"

lemma selfcheck_exact:
  "sr_overall (run_selfcheck modes k) = ''PASS'' \<longleftrightarrow>
     (\<exists>ms. modes = Some ms \<and> list_all (\<lambda>(_, m). is_readonly m) ms) \<and> verify_stream_hash (k_store k) None"
  by (cases modes) (auto simp: run_selfcheck_def Let_def status_text_def CLASSIFIED_REMAINDERS_def srsa_vector_def)

subsection \<open>The capability registry\<close>

record cap_entry =
  ce_fields :: "string list"
  ce_legacy :: string
  ce_class :: string
  ce_template :: "string list option"
  ce_realizations :: "string list"

definition REQUIRED_FIELDS :: "string list" where
  "REQUIRED_FIELDS = [''legacy_esa_id'', ''name'', ''class'', ''abstract'', ''realizations'', ''evidence'', ''deterministic_layer'', ''interpretive_layer'',
     ''interpretive_evidence_template'', ''related_invariants'', ''notes'']"

definition TEMPLATE_KEYS :: "string list" where
  "TEMPLATE_KEYS = [''reviewer_question'', ''input_artifacts'', ''output_format'', ''review_authority'']"

definition entry_ok :: "string \<times> cap_entry \<Rightarrow> bool" where
  "entry_ok e = (case e of (cid, c) \<Rightarrow>
     prefix ''CGP-ESA-'' cid \<and> set REQUIRED_FIELDS \<subseteq> set (ce_fields c) \<and> ce_class c \<in> {''I'', ''II'', ''III''} \<and>
     (if ce_class c = ''III'' then (case ce_template c of None \<Rightarrow> False | Some ks \<Rightarrow> set TEMPLATE_KEYS \<subseteq> set ks) else ce_template c = None) \<and>
     ce_realizations c \<noteq> [])"

fun validate_registry :: "string list \<Rightarrow> (string \<times> cap_entry) list \<Rightarrow> (pyexc, unit) result" where
  \<comment> \<open>the legacy identifiers seen come first\<close>
  "validate_registry seen [] = Inr ()"
| "validate_registry seen (e # es) =
     (if \<not> entry_ok e \<or> ce_legacy (snd e) \<in> set seen then Inl ValueError else validate_registry (ce_legacy (snd e) # seen) es)"

definition registry_cap_ids :: "(string \<times> cap_entry) list \<Rightarrow> string list" where
  "registry_cap_ids reg = sort (map fst reg)"

definition legacy_map :: "(string \<times> cap_entry) list \<Rightarrow> (string \<times> string) list" where
  "legacy_map reg = fold (\<lambda>e. dict_set (ce_legacy (snd e)) (fst e)) reg []"

definition get_cap :: "(string \<times> cap_entry) list \<Rightarrow> string \<Rightarrow> (pyexc, cap_entry) result" where
  "get_cap reg cid =
     (case map_of reg cid of
        Some e \<Rightarrow> Inr e
      | None \<Rightarrow> (case map_of (legacy_map reg) cid of
          None \<Rightarrow> Inl KeyError
        | Some canonical \<Rightarrow> (case map_of reg canonical of None \<Rightarrow> Inl KeyError | Some e \<Rightarrow> Inr e)))"

definition cap_class :: "(string \<times> cap_entry) list \<Rightarrow> string \<Rightarrow> (pyexc, string) result" where
  "cap_class reg cid = rbind (get_cap reg cid) (\<lambda>e. Inr (ce_class e))"

definition by_class :: "(string \<times> cap_entry) list \<Rightarrow> string \<Rightarrow> (pyexc, string list) result" where
  "by_class reg c =
     (if c \<notin> {''I'', ''II'', ''III''} then Inl ValueError else Inr (sort (map fst (filter (\<lambda>e. ce_class (snd e) = c) reg))))"

lemma validated:
  "validate_registry seen reg = Inr () \<Longrightarrow>
     list_all entry_ok reg \<and> distinct (map (\<lambda>e. ce_legacy (snd e)) reg) \<and> set seen \<inter> (\<lambda>e. ce_legacy (snd e)) ` set reg = {}"
proof (induction reg arbitrary: seen)
  case (Cons a reg)
  have a: "entry_ok a" "ce_legacy (snd a) \<notin> set seen" "validate_registry (ce_legacy (snd a) # seen) reg = Inr ()"
    using Cons.prems by (simp_all split: if_splits)
  show ?case using Cons.IH [OF a(3)] a(1,2) by auto
qed simp

lemma legacy_map_fold:
  fixes reg :: "(string \<times> cap_entry) list"
  shows "distinct (map (\<lambda>e. ce_legacy (snd e)) reg) \<Longrightarrow> e \<in> set reg \<Longrightarrow>
     map_of (fold (\<lambda>e. dict_set (ce_legacy (snd e)) (fst e)) reg d) (ce_legacy (snd e)) = Some (fst e)"
proof (induction reg arbitrary: d)
  case (Cons a reg)
  have keep: "x \<notin> (\<lambda>e. ce_legacy (snd e)) ` set es \<Longrightarrow> map_of (fold (\<lambda>e. dict_set (ce_legacy (snd e)) (fst e)) es d) x = map_of d x"
    for x and es :: "(string \<times> cap_entry) list" and d :: "(string \<times> string) list"
    by (induction es arbitrary: d) auto
  show ?case
  proof (cases "e = a")
    case True
    then show ?thesis using Cons.prems(1) keep [of "ce_legacy (snd a)" reg] by simp
  next
    case False
    then show ?thesis using Cons by simp
  qed
qed simp

text \<open>registry lookup. Look-ups in a validated registry: the canonical identifier of an entry finds it, its legacy identifier finds the same entry (unless it is itself the canonical identifier of another), and
  the entry is listed under its class and under no other.\<close>

theorem registry_lookup:
  assumes "validate_registry [] reg = Inr ()" "distinct (map fst reg)" "(cid, e) \<in> set reg"
  shows "get_cap reg cid = Inr e \<and> (map_of reg (ce_legacy e) = None \<longrightarrow> get_cap reg (ce_legacy e) = Inr e) \<and>
    (\<forall>c ids. by_class reg c = Inr ids \<longrightarrow> (cid \<in> set ids \<longleftrightarrow> c = ce_class e)) \<and> (\<exists>ids. by_class reg (ce_class e) = Inr ids)"
proof -
  have m: "map_of reg cid = Some e" using assms(2,3) by simp
  have v: "list_all entry_ok reg" "distinct (map (\<lambda>e. ce_legacy (snd e)) reg)" using validated [OF assms(1)] by auto
  have l: "map_of (legacy_map reg) (ce_legacy e) = Some cid"
    using legacy_map_fold [OF v(2) assms(3), of "[]"] by (simp add: legacy_map_def)
  have c: "ce_class e \<in> {''I'', ''II'', ''III''}" using v(1) assms(3) by (auto simp: list_all_iff entry_ok_def)
  have u: "(cid, e') \<in> set reg \<longleftrightarrow> e' = e" for e' using assms(2,3) by (metis map_of_eq_Some_iff option.inject)
  have "cid \<in> fst ` {x \<in> set reg. ce_class (snd x) = c} \<longleftrightarrow> c = ce_class e" for c
    using u by (force simp: image_iff)
  then show ?thesis using m l c by (auto simp: get_cap_def by_class_def split: if_splits)
qed

subsection \<open>Gaps\<close>

lemma note_evidence_get:
  "distinct (map fst d) \<Longrightarrow> distinct (map fst (note_evidence m d))"
  "map_of (note_evidence m d) i = None \<longleftrightarrow> map_of d i = None \<and> i \<noteq> gm_invariant m"
  "set (classes_of (note_evidence m d) i) = set (classes_of d i) \<union> gm_class ` {n \<in> {m}. gm_invariant n = i}"
  by (auto simp: note_evidence_def dict_set_distinct classes_of_def)

lemma fold_evidence:
  "distinct (map fst d) \<Longrightarrow> distinct (map fst (fold note_evidence ms d))"
  "map_of (fold note_evidence ms d) i = None \<longleftrightarrow> map_of d i = None \<and> i \<notin> gm_invariant ` set ms"
  "set (classes_of (fold note_evidence ms d) i) = set (classes_of d i) \<union> gm_class ` {m \<in> set ms. gm_invariant m = i}"
proof (induction ms arbitrary: d)
  case (Cons m ms)
  { case 1 then show ?case using Cons.IH(1) note_evidence_get(1) by simp }
  { case 2 show ?case using Cons.IH(2) by (auto simp: note_evidence_get(2)) }
  { case 3 show ?case using Cons.IH(3) by (auto simp: note_evidence_get(3)) }
qed simp_all

lemma inv_evidence_get:
  "distinct (map fst (inv_evidence ms))" "map_of (inv_evidence ms) i = None \<longleftrightarrow> i \<notin> gm_invariant ` set ms"
  "map_of (inv_evidence ms) i = Some cs \<Longrightarrow> set cs = gm_class ` {m \<in> set ms. gm_invariant m = i}"
  using fold_evidence(1) [of "[]" ms] fold_evidence(2,3) [of ms "[]" i] by (simp_all add: inv_evidence_def classes_of_def)

lemma evidence_member:
  "(i, cs) \<in> set (inv_evidence ms) \<longleftrightarrow> map_of (inv_evidence ms) i = Some cs"
  using inv_evidence_get(1) [of ms] by (simp add: map_of_eq_Some_iff)

definition evidenced :: "'b test_fn list \<Rightarrow> string \<Rightarrow> string \<Rightarrow> bool" where
  \<comment> \<open>a tagged function carries this invariant and evidence class\<close>
  "evidenced fns i c \<longleftrightarrow> (\<exists>f m. f \<in> set fns \<and> tf_mark f = Some m \<and> gm_invariant m = i \<and> gm_class m = c)"

lemma marks_of: "m \<in> set (List.map_filter tf_mark fns) \<longleftrightarrow> (\<exists>f. f \<in> set fns \<and> tf_mark f = Some m)"
  by (auto simp: map_filter_def image_iff)

text \<open>gaps exact. The coverage report names exactly the right gaps: an invariant is reported as a gap when a tagged test covers it but a class of evidence its prefix demands has no test, or when it is required and no
  tagged test covers it; nothing else is reported.\<close>

theorem gaps_exact:
  "\<exists>cv. analyse required fns (Some src) callables = Inr cv \<and>
    (\<forall>i. i \<in> gp_invariant ` set (cv_gaps cv) \<longleftrightarrow>
      ((\<exists>c. evidenced fns i c) \<and> (\<exists>p c. prefix_for i = Some p \<and> c \<in> set (required_for p) \<and> \<not> evidenced fns i c)) \<or>
      (i \<in> set required \<and> (\<nexists>c. evidenced fns i c)))"
proof -
  let ?ms = "List.map_filter tf_mark fns"
  let ?ev = "inv_evidence ?ms"
  have cls: "evidenced fns i c \<longleftrightarrow> c \<in> gm_class ` {m \<in> set ?ms. gm_invariant m = i}" for i c
    unfolding evidenced_def using marks_of [of _ fns] by (auto simp: image_iff)
  have cov: "(\<exists>c. evidenced fns i c) \<longleftrightarrow> i \<in> fst ` set ?ev" for i
  proof -
    have "i \<in> fst ` set ?ev \<longleftrightarrow> map_of ?ev i \<noteq> None" by (metis list.set_map map_of_eq_None_iff)
    then show ?thesis using inv_evidence_get(2) [of ?ms i] by (auto simp: cls)
  qed
  have one: "i \<in> gp_invariant ` set (concat (map covered_gap ?ev)) \<longleftrightarrow>
      i \<in> fst ` set ?ev \<and> (\<exists>p c. prefix_for i = Some p \<and> c \<in> set (required_for p) \<and> \<not> evidenced fns i c)" for i
  proof -
    have g: "i \<in> gp_invariant ` set (covered_gap (j, cs)) \<longleftrightarrow> j = i \<and> (\<exists>p c. prefix_for i = Some p \<and> c \<in> set (required_for p) \<and> c \<notin> set cs)" for j cs
    proof (cases "prefix_for j")
      case None
      then show ?thesis by (auto simp: covered_gap_def)
    next
      case (Some p)
      then show ?thesis by (cases "filter (\<lambda>c. c \<notin> set cs) (required_for p) = []") (auto simp: covered_gap_def Let_def filter_empty_conv)
    qed
    have "i \<in> gp_invariant ` set (concat (map covered_gap ?ev)) \<longleftrightarrow> (\<exists>j cs. (j, cs) \<in> set ?ev \<and> i \<in> gp_invariant ` set (covered_gap (j, cs)))" by force
    also have "\<dots> \<longleftrightarrow> (\<exists>cs. map_of ?ev i = Some cs \<and> (\<exists>p c. prefix_for i = Some p \<and> c \<in> set (required_for p) \<and> c \<notin> set cs))"
      unfolding g evidence_member by blast
    also have "\<dots> \<longleftrightarrow> (\<exists>cs. map_of ?ev i = Some cs) \<and> (\<exists>p c. prefix_for i = Some p \<and> c \<in> set (required_for p) \<and> \<not> evidenced fns i c)"
      unfolding cls using inv_evidence_get(3) [of ?ms i] by blast
    also have "(\<exists>cs. map_of ?ev i = Some cs) \<longleftrightarrow> i \<in> fst ` set ?ev" by (metis list.set_map map_of_eq_None_iff not_None_eq)
    finally show ?thesis .
  qed
  have two: "i \<in> gp_invariant ` set (concat (map (uncovered_gap (map fst ?ev)) required)) \<longleftrightarrow> i \<in> set required \<and> i \<notin> fst ` set ?ev" for i
    by (force simp: uncovered_gap_def Let_def split: if_splits)
  show ?thesis
    by (rule exI, rule conjI, simp only: analyse_def option.case Let_def, intro allI)
      (simp only: coverage_report.simps set_append image_Un Un_iff one two cov)
qed

lemma coverage_ratio_above_one:
  \<comment> \<open>tagged functions are counted whatever their name, the total only counts names that start with \<open>test_\<close>\<close>
  "map_option cv_ratio (case analyse [] [\<lparr>tf_name = ''check_a'', tf_mark = Some m, tf_body = ()\<rparr>, \<lparr>tf_name = ''test_b'', tf_mark = Some m, tf_body = ()\<rparr>]
      (Some src) None of Inl _ \<Rightarrow> None | Inr cv \<Rightarrow> Some cv) = Some 2"
  by (simp add: analyse_def map_filter_def Let_def)

subsection \<open>Batches\<close>

lemma attempt_returns: "\<exists>k'. attempt opn au f k = (Inr (), k')"
  by (cases "sbind (sget f) (\<lambda>j. sthen (execute (runner_call opn au j)) (sret ())) k")
    (auto simp: attempt_def sswallow_def scatch_def sret_def split: sum.splits)

definition run_body :: "scenario \<Rightarrow> kernel \<Rightarrow> kernel" where
  "run_body sc k = snd (sc_body sc k)"

definition result_of :: "profile \<Rightarrow> scenario \<times> profile option \<Rightarrow> kernel \<Rightarrow> scenario_result" where
  "result_of dflt x k = projr (fst (run_scenario (fst x) (case snd x of None \<Rightarrow> dflt | Some p \<Rightarrow> p) k))"

definition after_checkpoint_of :: "string \<Rightarrow> profile \<Rightarrow> scenario \<times> profile option \<Rightarrow> kernel \<Rightarrow> kernel" where
  "after_checkpoint_of au dflt x k = snd (checkpoint au (result_of dflt x k) (run_body (fst x) k))"

lemma checked_scenario_eq:
  "checked_scenario au dflt x k =
     (Inr ((result_of dflt x k)\<lparr>rs_checkpoint := Some (stream_hash (k_store (after_checkpoint_of au dflt x k)))\<rparr>), after_checkpoint_of au dflt x k)"
proof -
  have r: "run_scenario (fst x) p k = (Inr (projr (fst (run_scenario (fst x) p k))), run_body (fst x) k)" for p
    by (simp add: run_scenario_def run_body_def Let_def split: prod.splits)
  obtain k' where c: "checkpoint au (result_of dflt x k) (run_body (fst x) k) = (Inr (), k')"
    unfolding checkpoint_def using attempt_returns by blast
  show ?thesis
    unfolding checked_scenario_def sbind_def using r [of "case snd x of None \<Rightarrow> dflt | Some p \<Rightarrow> p"] c
    by (auto simp: result_of_def [symmetric] sthen_def sbind_def sget_def sret_def after_checkpoint_of_def)
qed

lemma result_of_fields [simp]:
  "rs_name (result_of dflt x k) = sc_name (fst x)"
  "rs_delta (result_of dflt x k) = int (receipt_count (k_store (run_body (fst x) k))) - int (receipt_count (k_store k))"
  by (simp_all add: result_of_def run_scenario_def run_body_def Let_def split: prod.splits)

fun checkpoint_growth :: "string \<Rightarrow> profile \<Rightarrow> (scenario \<times> profile option) list \<Rightarrow> kernel \<Rightarrow> int list" where
  \<comment> \<open>how many receipts each checkpoint of a batch adds to the store\<close>
  "checkpoint_growth au dflt [] k = []"
| "checkpoint_growth au dflt (x # xs) k =
     (int (receipt_count (k_store (after_checkpoint_of au dflt x k))) - int (receipt_count (k_store (run_body (fst x) k)))) #
     checkpoint_growth au dflt xs (after_checkpoint_of au dflt x k)"

definition final_kernel :: "string \<Rightarrow> profile \<Rightarrow> (scenario \<times> profile option) list \<Rightarrow> kernel \<Rightarrow> kernel" where
  "final_kernel au dflt xs k = fold (after_checkpoint_of au dflt) xs k"

lemma batch_loop_returns:
  "\<exists>rs. batch_loop au dflt xs k = (Inr rs, final_kernel au dflt xs k) \<and> map rs_name rs = map (\<lambda>x. sc_name (fst x)) xs \<and>
     (rs \<noteq> [] \<longrightarrow> rs_checkpoint (last rs) = Some (stream_hash (k_store (final_kernel au dflt xs k)))) \<and>
     (\<Sum>r\<leftarrow>rs. rs_delta r) + sum_list (checkpoint_growth au dflt xs k) =
       int (receipt_count (k_store (final_kernel au dflt xs k))) - int (receipt_count (k_store k))"
proof (induction xs arbitrary: k)
  case Nil
  then show ?case by (simp add: sret_def final_kernel_def)
next
  case (Cons x xs)
  let ?k = "after_checkpoint_of au dflt x k"
  obtain rs where rs: "batch_loop au dflt xs ?k = (Inr rs, final_kernel au dflt xs ?k)" "map rs_name rs = map (\<lambda>x. sc_name (fst x)) xs"
    "rs \<noteq> [] \<longrightarrow> rs_checkpoint (last rs) = Some (stream_hash (k_store (final_kernel au dflt xs ?k)))"
    "(\<Sum>r\<leftarrow>rs. rs_delta r) + sum_list (checkpoint_growth au dflt xs ?k) = int (receipt_count (k_store (final_kernel au dflt xs ?k))) - int (receipt_count (k_store ?k))"
    using Cons.IH [of ?k] by blast
  have f: "final_kernel au dflt (x # xs) k = final_kernel au dflt xs ?k" by (simp add: final_kernel_def)
  have e: "rs = [] \<Longrightarrow> xs = []" using rs(2) by auto
  show ?case using rs e by (simp add: sbind_def checked_scenario_eq sret_def f) (auto simp: final_kernel_def)
qed

text \<open>batch reports. A batch always returns, whatever its scenarios raise: one result per scenario in order, one checkpoint hash each, the last being the head of the chain the batch leaves; and the reported total of receipts
  differs from the growth of the store by exactly what the checkpoints wrote more or less than the two receipts each is taken to write.\<close>

theorem batch_reports:
  "\<exists>b. run_batch au dflt xs k = (Inr b, final_kernel au dflt xs k) \<and> map rs_name (br_results b) = map (\<lambda>x. sc_name (fst x)) xs \<and>
     length (br_checkpoints b) = length xs \<and> br_final b = stream_hash (k_store (final_kernel au dflt xs k)) \<and>
     (if xs = [] then True else last (br_checkpoints b) = br_final b) \<and>
     br_total b - (int (receipt_count (k_store (final_kernel au dflt xs k))) - int (receipt_count (k_store k))) =
       2 * int (length xs) - sum_list (checkpoint_growth au dflt xs k)"
proof -
  obtain rs where rs: "batch_loop au dflt xs k = (Inr rs, final_kernel au dflt xs k)" "map rs_name rs = map (\<lambda>x. sc_name (fst x)) xs"
    "rs \<noteq> [] \<longrightarrow> rs_checkpoint (last rs) = Some (stream_hash (k_store (final_kernel au dflt xs k)))"
    "(\<Sum>r\<leftarrow>rs. rs_delta r) + sum_list (checkpoint_growth au dflt xs k) =
       int (receipt_count (k_store (final_kernel au dflt xs k))) - int (receipt_count (k_store k))"
    using batch_loop_returns [of au dflt xs k] by blast
  have l: "length rs = length xs" using rs(2) by (metis length_map)
  have "(\<Sum>r\<leftarrow>rs. rs_delta r + 2) = (\<Sum>r\<leftarrow>rs. rs_delta r) + 2 * int (length rs)" by (induction rs) auto
  moreover have "xs \<noteq> [] \<Longrightarrow> rs \<noteq> []" using l by auto
  ultimately show ?thesis using rs l by (auto simp: run_batch_def sbind_def sget_def sret_def last_map)
qed

lemma keeps_attempt: "(\<And>j. keeps I (execute (runner_call opn au j))) \<Longrightarrow> keeps I (attempt opn au f)"
  unfolding attempt_def sswallow_def by (intro keeps_intros keeps_basic)

lemma keeps_batch:
  assumes "\<And>x. x \<in> set xs \<Longrightarrow> keeps I (sc_body (fst x))" "\<And>j. keeps I (execute (runner_call ''test_checkpoint'' au j))"
  shows "keeps I (run_batch au dflt xs)"
proof -
  have r: "keeps I (sc_body sc) \<Longrightarrow> keeps I (run_scenario sc p)" for sc p
    by (auto simp: keeps_def run_scenario_def Let_def split: prod.splits)
  have c: "keeps I (checked_scenario au dflt x)" if "x \<in> set xs" for x
    unfolding checked_scenario_def checkpoint_def using r [OF assms(1) [OF that]]
    by (intro keeps_intros keeps_basic keeps_attempt assms(2)) auto
  have "set ys \<subseteq> set xs \<Longrightarrow> keeps I (batch_loop au dflt ys)" for ys
    by (induction ys) (auto intro!: keeps_intros c)
  then have "keeps I (batch_loop au dflt xs)" by simp
  then show ?thesis unfolding run_batch_def by (intro keeps_intros keeps_basic)
qed

lemma admissions_are_anomalies:
  \<comment> \<open>the default profile expects no \<open>gate_admit\<close>, so each admission of a clean scenario counts as an anomaly\<close>
  "length (filter (\<lambda>r. r_op r = ''gate_admit'') (drop n (all_receipts s))) \<le> compute_anomaly_score s DEFAULT_PROFILE n"
proof -
  let ?since = "drop n (all_receipts s)"
  have "filter (\<lambda>r. r_op r = ''gate_admit'') ?since = filter (\<lambda>r. r_op r = ''gate_admit'') (filter (\<lambda>r. r_op r \<notin> set GOVERNANCE_OPS) ?since)"
    by (rule sym, simp only: filter_filter) (rule filter_cong [OF refl], auto simp: GOVERNANCE_OPS_def UNIVERSAL_OPS_def APPLICATION_OPS_def)
  then show ?thesis
    by (simp add: compute_anomaly_score_def DEFAULT_PROFILE_def GOVERNANCE_OPS_def UNIVERSAL_OPS_def del: filter_filter)
qed

subsection \<open>Fingerprints\<close>

lemma fold_counts:
  "map_of (fold count_op rs d) x =
     (if count_list (map r_op rs) x = 0 then map_of d x else Some ((case map_of d x of None \<Rightarrow> 0 | Some n \<Rightarrow> n) + count_list (map r_op rs) x))"
  by (induction rs arbitrary: d) (auto simp: count_op_def)

lemma op_counts_get: "map_of (op_counts rs) x = (if count_list (map r_op rs) x = 0 then None else Some (count_list (map r_op rs) x))"
  unfolding op_counts_def fold_counts by simp

lemma op_counts_distinct: "distinct (map fst (op_counts rs))"
proof -
  have "distinct (map fst d) \<Longrightarrow> distinct (map fst (fold count_op rs d))" for d
    by (induction rs arbitrary: d) (simp_all add: count_op_def dict_set_distinct)
  then show ?thesis by (simp add: op_counts_def)
qed

lemma rate_gate: "list_ex (\<lambda>(_, n). 5 * n > 4 * m) (op_counts rs) \<longleftrightarrow> (\<exists>x. 5 * count_list (map r_op rs) x > 4 * m)"
proof -
  have "list_ex (\<lambda>(_, n). 5 * n > 4 * m) (op_counts rs) \<longleftrightarrow> (\<exists>x n. map_of (op_counts rs) x = Some n \<and> 5 * n > 4 * m)"
    using op_counts_distinct [of rs] by (auto simp: list_ex_iff map_of_eq_Some_iff)
  also have "\<dots> \<longleftrightarrow> (\<exists>x. 5 * count_list (map r_op rs) x > 4 * m)"
    unfolding op_counts_get by (auto split: if_splits intro: gr0I) (metis gr0I mult_0_right not_less0)
  finally show ?thesis .
qed

text \<open>fingerprint exact. When a store passes the anti-fabrication test against a fingerprint without a baseline: an empty store exactly when no checkpoint is demanded, whatever operations are; any other store exactly when it has every
  required operation, no prohibited one, the demanded number of checkpoints, no operation above four fifths of the receipts, a session open first and close last, and every median latency is within its ceiling.\<close>

theorem fingerprint_exact:
  "verify_convergence_fingerprint s fp None \<longleftrightarrow>
    (let opns = map r_op (all_receipts s) in
     if opns = [] then fp_checkpoints fp = 0
     else set (fp_required fp) \<subseteq> set opns \<and> set (fp_prohibited fp) \<inter> set opns = {} \<and> count_list opns ''test_checkpoint'' = fp_checkpoints fp \<and>
       (if fp_rate_gate fp then \<forall>x. 5 * count_list opns x \<le> 4 * length opns else True) \<and>
       (if fp_sequence fp then hd opns = ''session_open'' \<and> last opns = ''session_close'' else True) \<and>
       (case fp_ceilings fp of None \<Rightarrow> True | Some cs \<Rightarrow> list_all (\<lambda>(x, c). samples_of fp x \<noteq> [] \<and> median (samples_of fp x) \<le> c) cs))"
proof -
  let ?rs = "all_receipts s"
  have c: "(case map_of (op_counts ?rs) x of None \<Rightarrow> 0 | Some n \<Rightarrow> n) = count_list (map r_op ?rs) x" for x by (simp add: op_counts_get)
  have n: "\<not> list_ex (\<lambda>(x, c). samples_of fp x = [] \<or> median (samples_of fp x) > c) cs \<longleftrightarrow>
      list_all (\<lambda>(x, c). samples_of fp x \<noteq> [] \<and> median (samples_of fp x) \<le> c) cs" for cs
    by (induction cs) auto
  show ?thesis
  proof (cases "?rs = []")
    case False
    then have h: "hd (map r_op ?rs) = r_op (hd ?rs)" "last (map r_op ?rs) = r_op (last ?rs)" by (simp_all add: hd_map last_map)
    have r: "\<not> list_ex (\<lambda>(_, n). 5 * n > 4 * length ?rs) (op_counts ?rs) \<longleftrightarrow> (\<forall>x. 5 * count_list (map r_op ?rs) x \<le> 4 * length ?rs)"
      unfolding rate_gate by (simp add: not_less)
    have q: "list_all (\<lambda>x. x \<in> set (map r_op ?rs)) (fp_required fp) \<longleftrightarrow> set (fp_required fp) \<subseteq> set (map r_op ?rs)"
      "list_ex (\<lambda>x. x \<in> set (map r_op ?rs)) (fp_prohibited fp) \<longleftrightarrow> set (fp_prohibited fp) \<inter> set (map r_op ?rs) \<noteq> {}"
      by (auto simp: list_all_iff list_ex_iff)
    have "verify_convergence_fingerprint s fp None \<longleftrightarrow>
        list_all (\<lambda>x. x \<in> set (map r_op ?rs)) (fp_required fp) \<and> count_list (map r_op ?rs) ''test_checkpoint'' = fp_checkpoints fp \<and>
        \<not> list_ex (\<lambda>x. x \<in> set (map r_op ?rs)) (fp_prohibited fp) \<and>
        \<not> (fp_rate_gate fp \<and> list_ex (\<lambda>(_, n). 5 * n > 4 * length ?rs) (op_counts ?rs)) \<and>
        \<not> (fp_sequence fp \<and> (r_op (hd ?rs) \<noteq> ''session_open'' \<or> r_op (last ?rs) \<noteq> ''session_close'')) \<and>
        \<not> list_ex (\<lambda>(x, c). samples_of fp x = [] \<or> median (samples_of fp x) > c) (case fp_ceilings fp of None \<Rightarrow> [] | Some cs \<Rightarrow> cs)"
      using False unfolding verify_convergence_fingerprint_def Let_def c by (simp only: if_False if_split option.case) argo
    then show ?thesis unfolding Let_def q n using False h r by (auto split: option.splits)
  qed (simp add: verify_convergence_fingerprint_def)
qed

end
