(* ===== verification/Strata.thy ===== *)
theory Strata
  imports Evidence
begin

text \<open>
  The storage-strata layer beside the kernel: the portable canonical form (\<^verbatim>\<open>tools/smh/ck_canon.py\<close>), the external ledger of tier transitions
  (\<^verbatim>\<open>tools/smh/smh_tier_ledger.py\<close>), the projection registry (\<^verbatim>\<open>tools/smh/smh_projection_registry.py\<close>) and the hooks at real movements
  (\<^verbatim>\<open>tools/smh/smh_emission_hooks.py\<close>).

  Receipt bodies, descriptors and references are JSON objects; a persisted file is its parsed content. On Latin-1 text the NFC form is the text
  and the UTF-16 order of keys is the order of their characters.

  Main results: the portable canonical form is the kernel's own on every value it accepts, and it rejects exactly floats and large integers; a ledger grown by recorded movements verifies; two
  verified ledgers with the same head agree in every receipt or exhibit a collision; a projection is called stale or fresh exactly when all its sources are intact.
\<close>

subsection \<open>The portable canonical form\<close>

datatype canon_reason = FloatPresent | OversizedInteger | UnsupportedType | BadDomainTag

definition MAX_SAFE :: int where "MAX_SAFE = 2 ^ 53 - 1"

definition SHORT_ESCAPES :: "(nat \<times> string) list" where
  "SHORT_ESCAPES = [(8, [CHR 0x5C, CHR ''b'']), (9, [CHR 0x5C, CHR ''t'']), (10, [CHR 0x5C, CHR ''n'']), (12, [CHR 0x5C, CHR ''f'']), (13, [CHR 0x5C, CHR ''r''])]"

definition escape_one :: "char \<Rightarrow> string" where
  "escape_one c =
     (if c = CHR 0x22 then [CHR 0x5C, CHR 0x22]
      else if c = CHR 0x5C then [CHR 0x5C, CHR 0x5C]
      else case map_of SHORT_ESCAPES (of_char c) of
        Some e \<Rightarrow> e
      | None \<Rightarrow> if (of_char c :: nat) \<le> 31 then [CHR 0x5C, CHR ''u'', CHR ''0'', CHR ''0'', hex_digit (of_char c div 16), hex_digit (of_char c mod 16)] else [c])"

definition escape_string :: "string \<Rightarrow> string" where
  "escape_string s = CHR 0x22 # concat (map escape_one s) @ [CHR 0x22]"

definition encode_integer :: "int \<Rightarrow> (canon_reason, string) result" where
  "encode_integer n = (if \<bar>n\<bar> > MAX_SAFE then Inl OversizedInteger else Inr (show_int n))"

fun serialize :: "pyval \<Rightarrow> (canon_reason, string) result"
  and serialize_all :: "pyval list \<Rightarrow> (canon_reason, string) result list"
  and serialize_members :: "(string \<times> pyval) list \<Rightarrow> (string \<times> (canon_reason, string) result) list" where
  \<comment> \<open>the members are serialised in the order of their keys, so the first of them that fails gives the reason\<close>
  "serialize (PBool b) = Inr (if b then ''true'' else ''false'')"
| "serialize PNone = Inr ''null''"
| "serialize (PStr s) = Inr (escape_string s)"
| "serialize (PFloat f) = Inl FloatPresent"
| "serialize PNonFinite = Inl FloatPresent"
| "serialize (PInt i) = encode_integer i"
| "serialize (PDict kvs) = rbind (rmap snd (sort_key fst (serialize_members kvs))) (\<lambda>ms. Inr (''{'' @ join_with '','' ms @ ''}''))"
| "serialize (PList vs) = rbind (rmap id (serialize_all vs)) (\<lambda>ss. Inr (''['' @ join_with '','' ss @ '']''))"
| "serialize (PTuple vs) = rbind (rmap id (serialize_all vs)) (\<lambda>ss. Inr (''['' @ join_with '','' ss @ '']''))"
| "serialize PObject = Inl UnsupportedType"
| "serialize_all [] = []"
| "serialize_all (v # vs) = serialize v # serialize_all vs"
| "serialize_members [] = []"
| "serialize_members ((k, v) # kvs) = (k, rbind (serialize v) (\<lambda>s. Inr (escape_string k @ '':'' @ s))) # serialize_members kvs"

definition without_ext :: "(string \<times> 'v) list \<Rightarrow> (string \<times> 'v) list" where
  "without_ext kvs = filter (\<lambda>kv. fst kv \<noteq> ''ext'') kvs"

definition canonical_bytes :: "pyval \<Rightarrow> (canon_reason, bytes) result" where
  "canonical_bytes v = rbind (serialize (case v of PDict kvs \<Rightarrow> PDict (without_ext kvs) | _ \<Rightarrow> v)) (\<lambda>s. Inr (utf8 s))"

definition tagged :: "string \<Rightarrow> bytes \<Rightarrow> bytes" where
  "tagged tag cb = utf8 tag @ 0 # cb"

definition domain_hash :: "string \<Rightarrow> pyval \<Rightarrow> (canon_reason, string) result" where
  "domain_hash tag v =
     (if list_ex (\<lambda>c. (of_char c :: nat) \<ge> 128) tag then Inl BadDomainTag
      else rbind (canonical_bytes v) (\<lambda>cb. Inr (to_hex (sha256 (tagged tag cb)))))"

definition ref_form :: "string \<Rightarrow> pyval \<Rightarrow> (canon_reason, string) result" where
  "ref_form tag v = rbind (domain_hash tag v) (\<lambda>h. Inr (tag @ '':'' @ h))"

subsection \<open>The two canonical forms agree\<close>

function portable :: "json \<Rightarrow> bool" where
  \<comment> \<open>no float, and no integer a double cannot hold\<close>
  "portable (JFloat f) = False"
| "portable (JInt i) \<longleftrightarrow> \<bar>i\<bar> \<le> MAX_SAFE"
| "portable (JList xs) \<longleftrightarrow> (\<forall>x \<in> set xs. portable x)"
| "portable (JObj kvs) \<longleftrightarrow> (\<forall>kv \<in> set kvs. portable (snd kv))"
| "portable JNull = True"
| "portable (JBool b) = True"
| "portable (JStr s) = True"
  by pat_completeness auto

termination
  by (relation "measure size") (auto simp: size_field less_Suc_eq_le size_list_estimation')

lemma escape_one_esc: "escape_one c = esc_char False c"
proof -
  have e: "(of_char c :: nat) = n \<longleftrightarrow> c = char_of n" if "n < 256" for n using that by (auto simp: char_of_mod_256)
  have o: "char_of (8 :: nat) = CHR 0x08" "char_of (9 :: nat) = CHR 0x09" "char_of (10 :: nat) = CHR 0x0A" "char_of (12 :: nat) = CHR 0x0C" "char_of (13 :: nat) = CHR 0x0D"
    by (simp_all add: char_of_def bit_iff_odd)
  show ?thesis by (simp add: escape_one_def esc_char_def SHORT_ESCAPES_def needs_u_def e o)
qed

lemma escape_string_quote: "escape_string s = quote_string False s"
  by (simp add: escape_string_def quote_string_def esc_string_def escape_one_esc [abs_def])

lemma print_list: "print_json compact_utf8 (JList xs) = ''['' @ join_with '','' (map (print_json compact_utf8) xs) @ '']''"
proof -
  have f: "print_items compact_utf8 xs = (if xs = [] then '']'' else '','' @ join_with '','' (map (print_json compact_utf8) xs) @ '']'')" for xs
  proof (induction xs)
    case (Cons x xs)
    then show ?case by (cases xs) (simp_all add: comma_def compact_utf8_def)
  qed simp
  show ?thesis
  proof (cases xs)
    case (Cons x rest)
    then show ?thesis using f [of rest] by (cases rest) (simp_all add: comma_def)
  qed simp
qed

definition print_member :: "string \<times> json \<Rightarrow> string" where
  "print_member kv = escape_string (fst kv) @ '':'' @ print_json compact_utf8 (snd kv)"

lemma print_object: "print_json compact_utf8 (JObj kvs) = ''{'' @ join_with '','' (map print_member kvs) @ ''}''"
proof -
  have f: "print_fields compact_utf8 kvs = (if kvs = [] then ''}'' else '','' @ join_with '','' (map print_member kvs) @ ''}'')" for kvs
  proof (induction kvs)
    case (Cons kv kvs)
    then show ?case
      by (cases kv; cases kvs) (simp_all add: comma_def colon_def print_member_def escape_string_quote compact_utf8_def)
  qed simp
  show ?thesis
  proof (cases kvs)
    case (Cons kv rest)
    then show ?thesis using f [of rest]
      by (cases kv; cases rest) (simp_all add: comma_def colon_def print_member_def escape_string_quote compact_utf8_def)
  qed simp
qed

lemma insort_map: "(\<And>x. fst (g x) = fst x) \<Longrightarrow> insort_key fst (g x) (map g xs) = map g (insort_key fst x xs)"
  by (induction xs) auto

lemma sort_map: "(\<And>x. fst (g x) = fst x) \<Longrightarrow> sort_key fst (map g xs) = map g (sort_key fst xs)"
  by (induction xs) (simp_all add: insort_map)

lemma serialize_all_json: "serialize_all (of_json_list xs) = map (\<lambda>x. serialize (of_json x)) xs"
  by (induction xs) simp_all

definition member_of :: "string \<times> json \<Rightarrow> string \<times> (canon_reason, string) result" where
  "member_of kv = (fst kv, rbind (serialize (of_json (snd kv))) (\<lambda>s. Inr (escape_string (fst kv) @ '':'' @ s)))"

lemma serialize_members_json: "serialize_members (of_json_fields kvs) = map member_of kvs"
  by (induction kvs) (auto simp: member_of_def)

lemma rmap_fails: "x \<in> set xs \<Longrightarrow> f x = Inl e \<Longrightarrow> \<exists>e. rmap f xs = Inl e"
  by (induction xs) (auto simp: rbind_def split: sum.splits)

lemma norm_object: "norm_json (JObj kvs) = JObj (map (\<lambda>kv. (fst kv, norm_json (snd kv))) (sort_key fst kvs))"
  by (simp add: sort_map split_beta)

lemma rmap_id_map: "rmap id (map f xs) = rmap f xs" "rmap snd (map h ys) = rmap (\<lambda>x. snd (h x)) ys"
  by (induction xs; simp) (induction ys; simp)

text \<open>canonical forms agree. The portable canonical form is the kernel's own: on every JSON value without floats and with integers a double holds, the independent serialiser of the strata layer writes byte
  for byte what the kernel's canonicaliser writes, and on every other JSON value it fails.\<close>

theorem canonical_forms_agree:
  "(if portable j then serialize (of_json j) = Inr (dumps compact_utf8 j) else \<exists>r. serialize (of_json j) = Inl r)"
proof (induction j rule: norm_json.induct)
  case (1 xs)
  show ?case
  proof (cases "portable (JList xs)")
    case True
    then have "rmap id (map (\<lambda>x. serialize (of_json x)) xs) = Inr (map (dumps compact_utf8) xs)"
      using 1 by (auto simp: rmap_id_map intro!: rmap_Inr)
    then show ?thesis using True by (simp add: serialize_all_json dumps_def [abs_def] print_list comp_def)
  next
    case False
    then obtain x where x: "x \<in> set xs" "\<not> portable x" by auto
    then obtain r where "serialize (of_json x) = Inl r" using 1 [of x] by auto
    then have "\<exists>e. rmap id (map (\<lambda>x. serialize (of_json x)) xs) = Inl e" unfolding rmap_id_map using x(1) by (intro rmap_fails [of x]) simp_all
    then show ?thesis using False by (auto simp: serialize_all_json)
  qed
next
  case (2 kvs)
  have s: "serialize (of_json (JObj kvs)) = rbind (rmap snd (map member_of (sort_key fst kvs))) (\<lambda>ms. Inr (''{'' @ join_with '','' ms @ ''}''))"
    by (simp add: serialize_members_json sort_map member_of_def)
  show ?case
  proof (cases "portable (JObj kvs)")
    case True
    have "snd (member_of kv) = Inr (print_member (fst kv, norm_json (snd kv)))" if "kv \<in> set kvs" for kv
      using 2 [of kv "fst kv" "snd kv"] True that by (simp add: member_of_def print_member_def dumps_def)
    then have "rmap snd (map member_of (sort_key fst kvs)) = Inr (map (\<lambda>kv. print_member (fst kv, norm_json (snd kv))) (sort_key fst kvs))"
      unfolding rmap_id_map by (intro rmap_Inr) simp
    then show ?thesis using True unfolding s dumps_def norm_object print_object by (simp add: comp_def)
  next
    case False
    then obtain kv where kv: "kv \<in> set kvs" "\<not> portable (snd kv)" by auto
    then obtain r where "serialize (of_json (snd kv)) = Inl r" using 2 [of kv "fst kv" "snd kv"] by auto
    then have "\<exists>e. rmap snd (map member_of (sort_key fst kvs)) = Inl e"
      unfolding rmap_id_map using kv(1) by (intro rmap_fails [of kv]) (simp_all add: member_of_def)
    then show ?thesis using False unfolding s by auto
  qed
qed (auto simp: dumps_def escape_string_quote compact_utf8_def encode_integer_def)


lemma canonical_bytes_json:
  "canonical_bytes (of_json (JObj kvs)) = Inr b \<longleftrightarrow> portable (JObj (without_ext kvs)) \<and> b = utf8 (dumps compact_utf8 (JObj (without_ext kvs)))"
proof -
  have w: "without_ext (of_json_fields kvs) = of_json_fields (without_ext kvs)" by (induction kvs) (auto simp: without_ext_def)
  show ?thesis using canonical_forms_agree [of "JObj (without_ext kvs)"] by (auto simp: canonical_bytes_def w split: if_splits)
qed

subsection \<open>The ledger of tier transitions\<close>

type_synonym obj = "(string \<times> json) list"

datatype smh_exc =
    UnknownMovement
  | EvictionTarget
  | BadMovementKind
  | NoSuchTier
  | SubjectRequired
  | BadRefType
  | SelfHash
  | Canonical canon_reason
  | NoSuchKey string
  | NotAllowed string
  | Raised string

definition TIER_TRANSITION_TAG :: string where "TIER_TRANSITION_TAG = ''smh.tier.transition.receipt.v1''"

definition MOVEMENT_KINDS :: "string list" where
  "MOVEMENT_KINDS = [''hydration'', ''eviction'', ''tier_transition'', ''projection_rebuild'', ''deep_export'', ''restore'']"

definition TIERS :: "string list" where "TIERS = [''HOT'', ''WARM'', ''COLD'', ''DEEP'']"

definition REF_TYPES :: "string list" where "REF_TYPES = [''ck_ref'', ''smh_archive_ref'', ''external_hash_ref'']"

datatype receipt_class = ReceiptRequired | ReceiptOptional | ReceiptFree

definition classify_movement :: "string \<Rightarrow> string option \<Rightarrow> (smh_exc, receipt_class) result" where
  "classify_movement movement eviction_target =
     (if movement \<in> set [''hot_frontier_update'', ''readonly_cold_access''] then Inr ReceiptFree
      else if movement = ''hydration'' then Inr ReceiptRequired
      else if movement = ''deep_export'' then Inr ReceiptRequired
      else if movement = ''restore'' then Inr ReceiptRequired
      else if movement = ''eviction'' then
        (if eviction_target = Some ''canonical'' then Inr ReceiptRequired
         else if eviction_target = Some ''rebuildable_projection'' then Inr ReceiptOptional
         else Inl EvictionTarget)
      else if movement = ''tier_transition'' then Inr ReceiptOptional
      else if movement = ''projection_rebuild'' then Inr ReceiptOptional
      else Inl UnknownMovement)"

definition get_member :: "string \<Rightarrow> obj \<Rightarrow> json" where
  \<comment> \<open>\<^verbatim>\<open>d.get(k)\<close>\<close>
  "get_member k d = (case map_of d k of None \<Rightarrow> JNull | Some v \<Rightarrow> v)"

definition known_ref :: "obj \<Rightarrow> bool" where
  "known_ref r = (case get_member ''ref_type'' r of JStr t \<Rightarrow> t \<in> set REF_TYPES | _ \<Rightarrow> False)"

definition make_receipt_body :: "string \<Rightarrow> string option \<Rightarrow> string option \<Rightarrow> obj list \<Rightarrow> json \<Rightarrow> (smh_exc, obj) result" where
  \<comment> \<open>\<open>JNull\<close> is the absent \<open>prior_ref\<close>\<close>
  "make_receipt_body kind from_tier to_tier subject_refs prior_ref =
     (if kind \<notin> set MOVEMENT_KINDS then Inl BadMovementKind
      else case (from_tier, to_tier) of
        (Some f, Some t) \<Rightarrow>
          (if f \<notin> set TIERS \<or> t \<notin> set TIERS then Inl NoSuchTier
           else if subject_refs = [] then Inl SubjectRequired
           else if \<not> list_all known_ref subject_refs then Inl BadRefType
           else Inr ([(''movement_kind'', JStr kind), (''from_tier'', JStr f), (''to_tier'', JStr t), (''subject_refs'', JList (map JObj subject_refs))]
             @ (if prior_ref = JNull then [] else [(''prior_ref'', prior_ref)])))
      | _ \<Rightarrow> Inl NoSuchTier)"

definition compute_receipt_id :: "obj \<Rightarrow> (smh_exc, string) result" where
  "compute_receipt_id body =
     (if ''receipt_id'' \<in> set (map fst body) then Inl SelfHash
      else case domain_hash TIER_TRANSITION_TAG (of_json (JObj body)) of Inl r \<Rightarrow> Inl (Canonical r) | Inr h \<Rightarrow> Inr h)"

definition make_envelope :: "obj \<Rightarrow> (smh_exc, obj) result" where
  "make_envelope body = rbind (compute_receipt_id body) (\<lambda>h. Inr [(''receipt_id'', JStr h), (''receipt_body'', JObj body)])"

datatype envelope_verdict = IntactReceipt string | MalformedEnvelope | SelfHashed | WrongId string string

definition verify_envelope :: "obj \<Rightarrow> (smh_exc, envelope_verdict) result" where
  \<comment> \<open>an \<open>SMHError\<close> is a finding; a \<open>CanonError\<close> is raised\<close>
  "verify_envelope envelope =
     (case (get_member ''receipt_body'' envelope, get_member ''receipt_id'' envelope) of
        (JObj body, JStr rid) \<Rightarrow>
          (case compute_receipt_id body of
             Inl SelfHash \<Rightarrow> Inr SelfHashed
           | Inl e \<Rightarrow> Inl e
           | Inr recomputed \<Rightarrow> Inr (if recomputed \<noteq> rid then WrongId rid recomputed else IntactReceipt rid))
      | _ \<Rightarrow> Inr MalformedEnvelope)"

record ledger =
  lg_path :: bool
  lg_chain :: "obj list"
  lg_file :: "obj list option"

definition ledger_open :: "bool \<Rightarrow> obj list option \<Rightarrow> ledger" where
  "ledger_open path file = \<lparr>lg_path = path, lg_chain = (if path then (case file of Some c \<Rightarrow> c | None \<Rightarrow> []) else []), lg_file = file\<rparr>"

definition flush_ledger :: "ledger \<Rightarrow> ledger" where
  \<comment> \<open>the file is written with sorted keys\<close>
  "flush_ledger l = (if lg_path l then l\<lparr>lg_file := Some (map (\<lambda>env. obj_fields (norm_json (JObj env))) (lg_chain l))\<rparr> else l)"

datatype movement_outcome = NotEmitted receipt_class | ReceiptEmitted receipt_class json

definition head_id :: "obj list \<Rightarrow> (smh_exc, json) result" where
  "head_id chain =
     (if chain = [] then Inr JNull else case map_of (last chain) ''receipt_id'' of None \<Rightarrow> Inl (NoSuchKey ''receipt_id'') | Some v \<Rightarrow> Inr v)"

definition record_movement ::
  "string \<Rightarrow> string option \<Rightarrow> string option \<Rightarrow> obj list \<Rightarrow> string option \<Rightarrow> bool \<Rightarrow> ledger \<Rightarrow> (smh_exc, movement_outcome) result \<times> ledger" where
  "record_movement movement from_tier to_tier subject_refs eviction_target emit_optional l =
     (case classify_movement movement eviction_target of
        Inl e \<Rightarrow> (Inl e, l)
      | Inr cls \<Rightarrow>
          if cls = ReceiptFree then (Inr (NotEmitted ReceiptFree), l)
          else if cls = ReceiptOptional \<and> \<not> emit_optional then (Inr (NotEmitted ReceiptOptional), l)
          else case rbind (head_id (lg_chain l)) (\<lambda>prior. rbind (make_receipt_body movement from_tier to_tier subject_refs prior) make_envelope) of
            Inl e \<Rightarrow> (Inl e, l)
          | Inr env \<Rightarrow> (Inr (ReceiptEmitted cls (get_member ''receipt_id'' env)), flush_ledger (l\<lparr>lg_chain := lg_chain l @ [env]\<rparr>)))"

datatype chain_verdict = ChainValid nat | CorruptAt nat | BrokenLineage nat json json

fun verify_chain_from :: "nat \<Rightarrow> json \<Rightarrow> obj list \<Rightarrow> (smh_exc, chain_verdict) result" where
  "verify_chain_from i prev [] = Inr (ChainValid i)"
| "verify_chain_from i prev (env # envs) =
     rbind (verify_envelope env) (\<lambda>v.
       case v of
         IntactReceipt rid \<Rightarrow>
           (case get_member ''receipt_body'' env of
              JObj body \<Rightarrow>
                if get_member ''prior_ref'' body \<noteq> prev then Inr (BrokenLineage i prev (get_member ''prior_ref'' body))
                else verify_chain_from (Suc i) (get_member ''receipt_id'' env) envs
            | _ \<Rightarrow> Inr (CorruptAt i))
       | _ \<Rightarrow> Inr (CorruptAt i))"

definition verify_chain :: "ledger \<Rightarrow> (smh_exc, chain_verdict) result" where
  "verify_chain l = verify_chain_from 0 JNull (lg_chain l)"


subsection \<open>Linked receipts\<close>

definition receipt_input :: "obj \<Rightarrow> bytes" where
  "receipt_input body = tagged TIER_TRANSITION_TAG (utf8 (dumps compact_utf8 (JObj (without_ext body))))"

lemma compute_receipt_id_Inr:
  "compute_receipt_id body = Inr h \<longleftrightarrow>
     ''receipt_id'' \<notin> set (map fst body) \<and> portable (JObj (without_ext body)) \<and> h = to_hex (sha256 (receipt_input body))"
proof -
  have a: "\<not> list_ex (\<lambda>c. (of_char c :: nat) \<ge> 128) TIER_TRANSITION_TAG" by (simp add: TIER_TRANSITION_TAG_def)
  show ?thesis
  proof (cases "portable (JObj (without_ext body))")
    case True
    then have "canonical_bytes (of_json (JObj body)) = Inr (utf8 (dumps compact_utf8 (JObj (without_ext body))))" by (subst canonical_bytes_json) simp
    then show ?thesis using True by (auto simp del: of_json.simps portable.simps simp: compute_receipt_id_def domain_hash_def a receipt_input_def)
  next
    case False
    then have "\<exists>r. canonical_bytes (of_json (JObj body)) = Inl r"
      using canonical_bytes_json [of body] by (cases "canonical_bytes (of_json (JObj body))") (auto simp del: of_json.simps portable.simps)
    then show ?thesis using False by (auto simp del: of_json.simps portable.simps simp: compute_receipt_id_def domain_hash_def a)
  qed
qed

definition body_of :: "obj \<Rightarrow> obj" where
  "body_of env = obj_fields (get_member ''receipt_body'' env)"

definition good_link :: "json \<Rightarrow> obj \<Rightarrow> bool" where
  "good_link prev env \<longleftrightarrow>
     (\<exists>body h. get_member ''receipt_body'' env = JObj body \<and> get_member ''receipt_id'' env = JStr h \<and> compute_receipt_id body = Inr h \<and> get_member ''prior_ref'' body = prev)"

fun linked :: "json \<Rightarrow> obj list \<Rightarrow> bool" where
  "linked prev [] = True"
| "linked prev (env # envs) \<longleftrightarrow> good_link prev env \<and> linked (get_member ''receipt_id'' env) envs"

definition head_after :: "json \<Rightarrow> obj list \<Rightarrow> json" where
  "head_after prev envs = (if envs = [] then prev else get_member ''receipt_id'' (last envs))"

lemma chain_linked_snoc: "linked prev (envs @ [env]) \<longleftrightarrow> linked prev envs \<and> good_link (head_after prev envs) env"
  by (induction envs arbitrary: prev) (auto simp: head_after_def)

lemma intact_envelope:
  "verify_envelope env = Inr (IntactReceipt h) \<longleftrightarrow>
     (\<exists>body. get_member ''receipt_body'' env = JObj body \<and> get_member ''receipt_id'' env = JStr h \<and> compute_receipt_id body = Inr h)"
  by (auto simp: verify_envelope_def split: json.splits sum.splits smh_exc.splits)

lemma chain_valid_iff: "verify_chain_from i prev envs = Inr (ChainValid n) \<longleftrightarrow> linked prev envs \<and> n = i + length envs"
proof (induction envs arbitrary: i prev)
  case (Cons env envs)
  show ?case
  proof (cases "\<exists>h. verify_envelope env = Inr (IntactReceipt h)")
    case True
    then obtain h where h: "verify_envelope env = Inr (IntactReceipt h)" ..
    then obtain body where "get_member ''receipt_body'' env = JObj body" "get_member ''receipt_id'' env = JStr h" "compute_receipt_id body = Inr h"
      by (auto simp: intact_envelope)
    then show ?thesis using h Cons.IH by (auto simp: good_link_def)
  next
    case False
    then have "\<not> good_link prev env" by (auto simp: intact_envelope good_link_def)
    then show ?thesis using False by (auto simp: rbind_eq_Inr split: envelope_verdict.splits)
  qed
qed auto

lemma verify_chain_iff: "verify_chain l = Inr (ChainValid n) \<longleftrightarrow> linked JNull (lg_chain l) \<and> n = length (lg_chain l)"
  by (simp add: verify_chain_def chain_valid_iff)

lemma linked_head: "linked JNull envs \<Longrightarrow> head_id envs = Inr (head_after JNull envs)"
  by (cases envs rule: rev_cases)
     (auto simp: head_id_def head_after_def chain_linked_snoc good_link_def get_member_def split: option.splits)

lemma head_kind: "linked JNull envs \<Longrightarrow> head_after JNull envs = JNull \<or> (\<exists>h. head_after JNull envs = JStr h)"
  by (cases envs rule: rev_cases) (auto simp: head_after_def chain_linked_snoc good_link_def)


definition tiers_known :: "string option \<Rightarrow> string option \<Rightarrow> bool" where
  "tiers_known from_tier to_tier = (case (from_tier, to_tier) of (Some f, Some t) \<Rightarrow> f \<in> set TIERS \<and> t \<in> set TIERS | _ \<Rightarrow> False)"

definition recordable :: "string option \<Rightarrow> string option \<Rightarrow> obj list \<Rightarrow> bool" where
  "recordable from_tier to_tier refs \<longleftrightarrow> tiers_known from_tier to_tier \<and> refs \<noteq> [] \<and> list_all (\<lambda>r. known_ref r \<and> portable (JObj r)) refs"

definition requested :: "string \<Rightarrow> string option \<Rightarrow> bool \<Rightarrow> bool" where
  "requested movement target emit_optional =
     (case classify_movement movement target of Inr ReceiptRequired \<Rightarrow> True | Inr ReceiptOptional \<Rightarrow> emit_optional | _ \<Rightarrow> False)"

lemma requested_kind: "requested movement target opt \<Longrightarrow> movement \<in> set MOVEMENT_KINDS"
  by (simp add: requested_def classify_movement_def MOVEMENT_KINDS_def split: if_splits)

lemma envelope_made:
  assumes "kind \<in> set MOVEMENT_KINDS" "prior = JNull \<or> prior = JStr p" "recordable f t refs"
  shows "\<exists>env. rbind (make_receipt_body kind f t refs prior) make_envelope = Inr env \<and> good_link prior env \<and>
           get_member ''subject_refs'' (body_of env) = JList (map JObj refs) \<and> get_member ''movement_kind'' (body_of env) = JStr kind"
proof -
  obtain f' t' where ft: "f = Some f'" "t = Some t'" "f' \<in> set TIERS" "t' \<in> set TIERS"
    using assms(3) by (auto simp: recordable_def tiers_known_def split: option.splits)
  let ?b = "[(''movement_kind'', JStr kind), (''from_tier'', JStr f'), (''to_tier'', JStr t'), (''subject_refs'', JList (map JObj refs))]
    @ (if prior = JNull then [] else [(''prior_ref'', prior)])"
  have m: "make_receipt_body kind f t refs prior = Inr ?b"
    using assms ft by (simp add: make_receipt_body_def recordable_def list_all_iff)
  have "portable (JObj (without_ext ?b))" "''receipt_id'' \<notin> set (map fst ?b)"
    using assms(2,3) by (auto simp: without_ext_def recordable_def list_all_iff)
  then have c: "compute_receipt_id ?b = Inr (to_hex (sha256 (receipt_input ?b)))" unfolding compute_receipt_id_Inr by blast
  have p: "get_member ''prior_ref'' ?b = prior" by (simp add: get_member_def)
  have "good_link prior [(''receipt_id'', JStr (to_hex (sha256 (receipt_input ?b)))), (''receipt_body'', JObj ?b)]"
    unfolding good_link_def using c p by (simp add: get_member_def [of "''receipt_id''"] get_member_def [of "''receipt_body''"] del: append.simps)
  then show ?thesis unfolding m make_envelope_def rbind_simps c by (simp add: get_member_def body_of_def)
qed

lemma envelope_refused:
  assumes "prior = JNull \<or> prior = JStr p" "\<not> recordable f t refs"
  shows "\<exists>e. rbind (make_receipt_body kind f t refs prior) make_envelope = Inl e"
proof (cases "make_receipt_body kind f t refs prior")
  case (Inr b)
  then have "tiers_known f t" "refs \<noteq> []" "list_all known_ref refs" "(''subject_refs'', JList (map JObj refs)) \<in> set (without_ext b)"
    by (auto simp: make_receipt_body_def tiers_known_def without_ext_def split: if_splits option.splits)
  then have "\<not> portable (JObj (without_ext b))" using assms(2) by (fastforce simp: recordable_def list_all_iff)
  then have "\<And>h. compute_receipt_id b \<noteq> Inr h" by (simp add: compute_receipt_id_Inr del: portable.simps)
  then show ?thesis using Inr by (cases "compute_receipt_id b") (auto simp: make_envelope_def)
qed simp

text \<open>movement exact. Only authority that moves leaves a receipt: on a ledger that verifies, a movement that must be recorded (or may be, on request) between known tiers, with known and portable
  subject references, appends one receipt that cites exactly these subjects, and the longer ledger verifies; every other call leaves the ledger as it was.\<close>

theorem movement_exact:
  "(if verify_chain l = Inr (ChainValid n)
    then (case record_movement movement f t refs target opt l of (r, l') \<Rightarrow>
      if requested movement target opt \<and> recordable f t refs
      then verify_chain l' = Inr (ChainValid (Suc n)) \<and>
        (\<exists>env cls. lg_chain l' = lg_chain l @ [env] \<and> r = Inr (ReceiptEmitted cls (get_member ''receipt_id'' env)) \<and>
           get_member ''subject_refs'' (body_of env) = JList (map JObj refs) \<and> get_member ''movement_kind'' (body_of env) = JStr movement)
      else l' = l \<and> (case r of Inr (ReceiptEmitted _ _) \<Rightarrow> False | _ \<Rightarrow> True))
    else True)"
proof (cases "verify_chain l = Inr (ChainValid n)")
  case True
  then have k: "linked JNull (lg_chain l)" "n = length (lg_chain l)" by (simp_all add: verify_chain_iff)
  let ?prior = "head_after JNull (lg_chain l)"
  obtain p where p: "?prior = JNull \<or> ?prior = JStr p" using head_kind [OF k(1)] by auto
  have h: "head_id (lg_chain l) = Inr ?prior" by (rule linked_head [OF k(1)])
  show ?thesis
  proof (cases "requested movement target opt")
    case req: True
    then obtain cls where cls: "classify_movement movement target = Inr cls" "cls \<noteq> ReceiptFree" "\<not> (cls = ReceiptOptional \<and> \<not> opt)"
      by (auto simp: requested_def split: sum.splits receipt_class.splits)
    show ?thesis
    proof (cases "recordable f t refs")
      case rec: True
      obtain env where env: "rbind (make_receipt_body movement f t refs ?prior) make_envelope = Inr env" "good_link ?prior env"
          "get_member ''subject_refs'' (body_of env) = JList (map JObj refs)" "get_member ''movement_kind'' (body_of env) = JStr movement"
        using envelope_made [OF requested_kind [OF req] p rec] by auto
      have l': "linked JNull (lg_chain l @ [env])" using k(1) env(2) by (simp add: chain_linked_snoc)
      show ?thesis
        using cls True env req rec h k l' by (simp add: record_movement_def flush_ledger_def verify_chain_iff)
    next
      case False
      then obtain e where "rbind (make_receipt_body movement f t refs ?prior) make_envelope = Inl e" using envelope_refused [OF p] by blast
      then show ?thesis using cls False h by (simp add: record_movement_def)
    qed
  next
    case False
    then show ?thesis by (auto simp: requested_def record_movement_def split: sum.splits receipt_class.splits if_splits)
  qed
qed simp


subsection \<open>One head, one history\<close>

lemma member_sort_stable: "map_of (sort_key fst kvs) = map_of kvs"
proof -
  have i: "map_of (insort_key fst x xs) = (map_of xs)(fst x \<mapsto> snd x)" for x :: "'a \<times> 'b" and xs by (induction xs) auto
  show ?thesis by (induction kvs) (auto simp: i)
qed

lemma norm_member: "get_member k (obj_fields (norm_json (JObj kvs))) = norm_json (get_member k kvs)"
  by (simp add: get_member_def member_sort_stable map_of_map_snd split: option.splits)

lemma without_ext_member: "k \<noteq> ''ext'' \<Longrightarrow> get_member k (without_ext kvs) = get_member k kvs"
  by (induction kvs) (auto simp: without_ext_def get_member_def)

lemma same_id:
  assumes "compute_receipt_id a = Inr h" "compute_receipt_id b = Inr h"
  shows "norm_json (JObj (without_ext a)) = norm_json (JObj (without_ext b)) \<or> collide (receipt_input a) (receipt_input b)"
proof (cases "receipt_input a = receipt_input b")
  case True
  then have "utf8 (dumps compact_utf8 (JObj (without_ext a))) = utf8 (dumps compact_utf8 (JObj (without_ext b)))" by (simp add: receipt_input_def tagged_def)
  then show ?thesis unfolding utf8_eq_iff dumps_eq_iff by blast
next
  case False
  then show ?thesis using assms by (simp add: compute_receipt_id_Inr collide_def del: portable.simps)
qed

definition same_receipt :: "obj \<Rightarrow> obj \<Rightarrow> bool" where
  "same_receipt e d \<longleftrightarrow> get_member ''receipt_id'' e = get_member ''receipt_id'' d \<and>
     norm_json (JObj (without_ext (body_of e))) = norm_json (JObj (without_ext (body_of d)))"

definition receipt_inputs :: "obj list \<Rightarrow> bytes list" where
  "receipt_inputs envs = map (\<lambda>e. receipt_input (body_of e)) envs"

lemma good_link_body: "good_link prev e \<longleftrightarrow> (\<exists>h. is_obj (get_member ''receipt_body'' e) \<and> get_member ''receipt_id'' e = JStr h \<and>
    compute_receipt_id (body_of e) = Inr h \<and> get_member ''prior_ref'' (body_of e) = prev)"
  by (cases "get_member ''receipt_body'' e") (auto simp: good_link_def body_of_def)

lemma heads_agree:
  assumes "linked JNull a" "linked JNull b" "head_after JNull a = head_after JNull b"
  shows "list_all2 same_receipt a b \<or> collision_between (receipt_inputs a) (receipt_inputs b)"
  using assms
proof (induction a arbitrary: b rule: rev_induct)
  case Nil
  then show ?case by (cases b rule: rev_cases) (auto simp: head_after_def chain_linked_snoc good_link_def)
next
  case (snoc e a)
  then obtain d b' where b: "b = b' @ [d]" by (cases b rule: rev_cases) (auto simp: head_after_def chain_linked_snoc good_link_def)
  let ?e = "body_of e" and ?d = "body_of d"
  have i: "get_member ''receipt_id'' e = get_member ''receipt_id'' d" using snoc.prems(3) by (simp add: head_after_def b)
  have l: "linked JNull a" "linked JNull b'" "good_link (head_after JNull a) e" "good_link (head_after JNull b') d" using snoc.prems(1,2) by (simp_all add: chain_linked_snoc b)
  then obtain h where h: "compute_receipt_id ?e = Inr h" "compute_receipt_id ?d = Inr h"
    using i unfolding good_link_body by auto
  from same_id [OF this] show ?case
  proof
    assume n: "norm_json (JObj (without_ext ?e)) = norm_json (JObj (without_ext ?d))"
    have "norm_json (get_member ''prior_ref'' ?e) = norm_json (get_member ''prior_ref'' ?d)"
      using arg_cong [OF n, of "\<lambda>x. get_member ''prior_ref'' (obj_fields x)"] by (simp add: norm_member without_ext_member del: norm_json.simps)
    then have "norm_json (head_after JNull a) = norm_json (head_after JNull b')" using l unfolding good_link_body by auto
    moreover have "atomic (head_after JNull a)" using head_kind [OF l(1)] by auto
    ultimately have "head_after JNull b' = head_after JNull a" by (metis norm_eq_atomic)
    then have "list_all2 same_receipt a b' \<or> collision_between (receipt_inputs a) (receipt_inputs b')" using snoc.IH l by simp
    moreover have "list_all2 same_receipt [e] [d]" using i n by (simp only: same_receipt_def list_all2_Cons list_all2_Nil simp_thms)
    ultimately show ?thesis unfolding b receipt_inputs_def map_append by (metis list_all2_appendI collision_lift(1))
  next
    assume "collide (receipt_input ?e) (receipt_input ?d)"
    then show ?thesis by (auto simp: b receipt_inputs_def collision_between_def)
  qed
qed

text \<open>ledger head binds. The head of a ledger commits to its whole history: two ledgers that verify and end in the same receipt identity have the same receipts in the same order, up to
  the \<^verbatim>\<open>ext\<close> member no identity covers, or the inputs of their hashes contain a collision of SHA-256.\<close>

theorem ledger_head_binds:
  assumes "verify_chain k = Inr (ChainValid m)" "verify_chain l = Inr (ChainValid n)" "head_id (lg_chain k) = head_id (lg_chain l)"
  shows "list_all2 same_receipt (lg_chain k) (lg_chain l) \<or> collision_between (receipt_inputs (lg_chain k)) (receipt_inputs (lg_chain l))"
  using assms by (intro heads_agree) (auto simp: verify_chain_iff linked_head)


subsection \<open>The ledger file\<close>

lemma sort_key_sorted: "sorted (map f xs) \<Longrightarrow> sort_key f xs = xs"
  by (induction xs) (auto simp: insort_is_Cons)

lemma norm_json_idem [simp]: "norm_json (norm_json j) = norm_json j"
proof (induction j rule: norm_json.induct)
  case (2 kvs)
  have "map (\<lambda>kv. (fst kv, norm_json (snd kv))) (map (\<lambda>kv. (fst kv, norm_json (snd kv))) (sort_key fst kvs)) = map (\<lambda>kv. (fst kv, norm_json (snd kv))) (sort_key fst kvs)"
    using 2 by auto
  then show ?case unfolding norm_object sort_map [of "\<lambda>kv. (fst kv, norm_json (snd kv))", simplified] by (simp add: sort_key_sorted)
qed simp_all

lemma portable_norm [simp]: "portable (norm_json j) \<longleftrightarrow> portable j"
proof (induction j rule: norm_json.induct)
  case (2 kvs)
  then show ?case unfolding norm_object by fastforce
qed simp_all

lemma without_ext_norm: "JObj (without_ext (obj_fields (norm_json (JObj kvs)))) = norm_json (JObj (without_ext kvs))"
  by (simp add: norm_object without_ext_def filter_map comp_def filter_sort del: norm_json.simps)

lemma norm_keys: "set (map fst (obj_fields (norm_json (JObj kvs)))) = set (map fst kvs)"
  by (auto simp: norm_object simp del: norm_json.simps)

lemma compute_receipt_id_norm: "compute_receipt_id (obj_fields (norm_json (JObj kvs))) = Inr h \<longleftrightarrow> compute_receipt_id kvs = Inr h"
  unfolding compute_receipt_id_Inr norm_keys receipt_input_def without_ext_norm portable_norm dumps_def norm_json_idem by (rule refl)

definition reread :: "obj \<Rightarrow> obj" where
  "reread env = obj_fields (norm_json (JObj env))"

lemma good_link_reread:
  assumes "good_link prev env" "atomic prev"
  shows "good_link prev (reread env) \<and> get_member ''receipt_id'' (reread env) = get_member ''receipt_id'' env"
proof -
  obtain body h where b: "get_member ''receipt_body'' env = JObj body" "get_member ''receipt_id'' env = JStr h" "compute_receipt_id body = Inr h" "get_member ''prior_ref'' body = prev"
    using assms(1) by (auto simp: good_link_def)
  have j: "norm_json (JObj kvs) = JObj (obj_fields (norm_json (JObj kvs)))" for kvs by simp
  have "get_member ''receipt_body'' (reread env) = JObj (obj_fields (norm_json (JObj body)))"
    unfolding reread_def norm_member b(1) by (rule j)
  moreover have "get_member ''prior_ref'' (obj_fields (norm_json (JObj body))) = prev" unfolding norm_member b(4) using assms(2) by simp
  ultimately show ?thesis
    using b(2,3) compute_receipt_id_norm [of body h] unfolding good_link_def reread_def by (auto simp: norm_member simp del: norm_json.simps(2) obj_fields.simps)
qed

lemma linked_reread:
  "linked prev envs \<Longrightarrow> atomic prev \<Longrightarrow> linked prev (map reread envs) \<and> map (get_member ''receipt_id'') (map reread envs) = map (get_member ''receipt_id'') envs"
proof (induction envs arbitrary: prev)
  case (Cons env envs)
  then have "atomic (get_member ''receipt_id'' env)" by (auto simp: good_link_def)
  then show ?case using Cons good_link_reread [of prev env] by auto
qed simp

lemma record_linked:
  assumes "linked JNull (lg_chain l)"
  shows "linked JNull (lg_chain (snd (record_movement movement f t refs target opt l)))"
  using movement_exact [where l = l and n = "length (lg_chain l)" and movement = movement and f = f and t = t and refs = refs and target = target and opt = opt] assms
  by (auto simp: verify_chain_iff split: prod.splits if_splits)

lemma record_file:
  "fst (record_movement movement f t refs target opt l) = Inr (ReceiptEmitted cls rid) \<Longrightarrow> lg_path l \<Longrightarrow>
    lg_file (snd (record_movement movement f t refs target opt l)) = Some (map reread (lg_chain (snd (record_movement movement f t refs target opt l))))"
  by (auto simp: record_movement_def flush_ledger_def reread_def [abs_def] simp del: norm_json.simps obj_fields.simps split: sum.splits if_splits)

text \<open>ledger reopens. The ledger is durable: after a receipt is emitted into a ledger with a file, opening the file gives a ledger that verifies with the same receipt identities in
  the same order, though the members of its objects come back sorted.\<close>

theorem ledger_reopens:
  "(if lg_path l \<and> verify_chain l = Inr (ChainValid n)
    then (case record_movement movement f t refs target opt l of
        (Inr (ReceiptEmitted cls rid), l') \<Rightarrow>
          (let k = ledger_open True (lg_file l') in
            verify_chain k = Inr (ChainValid (length (lg_chain l'))) \<and> map (get_member ''receipt_id'') (lg_chain k) = map (get_member ''receipt_id'') (lg_chain l'))
      | _ \<Rightarrow> True)
    else True)"
proof (cases "lg_path l \<and> verify_chain l = Inr (ChainValid n)")
  case True
  let ?r = "record_movement movement f t refs target opt l"
  have "linked JNull (lg_chain (snd ?r))" using True by (intro record_linked) (simp add: verify_chain_iff)
  from linked_reread [OF this] have m: "linked JNull (map reread (lg_chain (snd ?r)))"
      "map (get_member ''receipt_id'') (map reread (lg_chain (snd ?r))) = map (get_member ''receipt_id'') (lg_chain (snd ?r))" by simp_all
  show ?thesis
    using True m record_file [of movement f t refs target opt l]
    by (cases ?r) (auto simp: ledger_open_def verify_chain_iff Let_def split: sum.split movement_outcome.split)
qed auto

text \<open>ext unbound. The part of a receipt body named \<^verbatim>\<open>ext\<close> is outside its identity: replacing it leaves the receipt verifying under the same id.\<close>

theorem ext_unbound:
  "map_of body ''ext'' = None \<Longrightarrow> compute_receipt_id body = Inr h \<Longrightarrow>
     verify_envelope [(''receipt_id'', JStr h), (''receipt_body'', JObj (body @ [(''ext'', x)]))] = Inr (IntactReceipt h)"
proof -
  assume a: "map_of body ''ext'' = None" "compute_receipt_id body = Inr h"
  have "without_ext (body @ [(''ext'', x)]) = without_ext body" by (simp add: without_ext_def)
  then have "compute_receipt_id (body @ [(''ext'', x)]) = Inr h" using a(2) by (simp add: compute_receipt_id_Inr receipt_input_def del: portable.simps)
  then show ?thesis by (simp add: intact_envelope get_member_def)
qed

text \<open>float raises. A stored receipt with a float in its body is not a finding: the check of the ledger raises instead of reporting a corrupt receipt.\<close>

theorem float_raises:
  "verify_chain (ledger_open True (Some [[(''receipt_id'', JStr rid), (''receipt_body'', JObj [(''at'', JFloat x)])]])) = Inl (Canonical FloatPresent)"
  by (simp add: verify_chain_def ledger_open_def verify_envelope_def get_member_def compute_receipt_id_def domain_hash_def canonical_bytes_def without_ext_def TIER_TRANSITION_TAG_def)


subsection \<open>The projection registry\<close>

definition SMH_DESCRIPTOR_TAG :: string where "SMH_DESCRIPTOR_TAG = ''smh.projection.descriptor.v1''"
definition SMH_ARCHIVE_TAG :: string where "SMH_ARCHIVE_TAG = ''smh.archive.v1''"

definition PROJECTION_KINDS :: "string list" where
  "PROJECTION_KINDS = [''derived_document'', ''derived_index'', ''lineage_projection'', ''materialized_view'', ''search_index'']"

definition FRESHNESS_BASES :: "string list" where "FRESHNESS_BASES = [''cited_hash_comparison'', ''re_derivation'']"

datatype content = RawBytes bytes | CkValue json

definition smh_archive_hash :: "content \<Rightarrow> (smh_exc, string) result" where
  "smh_archive_hash c = (case c of RawBytes b \<Rightarrow> Inr (to_hex (sha256 (tagged SMH_ARCHIVE_TAG b))) | CkValue _ \<Rightarrow> Inl (NotAllowed ''bytes required''))"

definition value_hash :: "json \<Rightarrow> content \<Rightarrow> (smh_exc, string) result" where
  \<comment> \<open>\<^verbatim>\<open>ck_canon.domain_hash\<close>, whose two arguments need not be a string and a value\<close>
  "value_hash tag c =
     (case tag of
        JStr t \<Rightarrow> (case domain_hash t (case c of RawBytes _ \<Rightarrow> PObject | CkValue v \<Rightarrow> of_json v) of Inl r \<Rightarrow> Inl (Canonical r) | Inr h \<Rightarrow> Inr h)
      | _ \<Rightarrow> Inl (Canonical BadDomainTag))"

definition ck_ref :: "string \<Rightarrow> content \<Rightarrow> (smh_exc, obj) result" where
  "ck_ref tag v = rbind (value_hash (JStr tag) v) (\<lambda>h. Inr [(''ref_type'', JStr ''ck_ref''), (''domain_tag'', JStr tag), (''digest'', JStr h)])"

definition smh_archive_ref :: "content \<Rightarrow> (smh_exc, obj) result" where
  "smh_archive_ref c = rbind (smh_archive_hash c) (\<lambda>h. Inr [(''ref_type'', JStr ''smh_archive_ref''), (''domain_tag'', JStr SMH_ARCHIVE_TAG), (''digest'', JStr h)])"

definition external_hash_ref :: "string \<Rightarrow> string \<Rightarrow> string option \<Rightarrow> (smh_exc, obj) result" where
  "external_hash_ref regime h domain_tag =
     (if regime = [] then Inl (NotAllowed ''explicit regime required'')
      else Inr ([(''ref_type'', JStr ''external_hash_ref''), (''regime'', JStr regime), (''digest'', JStr h)]
        @ (case domain_tag of None \<Rightarrow> [] | Some t \<Rightarrow> [(''domain_tag'', JStr t)])))"

definition index_member :: "string \<Rightarrow> obj \<Rightarrow> (smh_exc, json) result" where
  \<comment> \<open>\<^verbatim>\<open>d[k]\<close>\<close>
  "index_member k d = (case map_of d k of None \<Rightarrow> Inl (NoSuchKey k) | Some v \<Rightarrow> Inr v)"

definition recompute_source_identity :: "obj \<Rightarrow> content \<Rightarrow> (smh_exc, string) result" where
  "recompute_source_identity ref current =
     rbind (index_member ''ref_type'' ref) (\<lambda>t.
       if t = JStr ''ck_ref'' then rbind (index_member ''domain_tag'' ref) (\<lambda>tag. value_hash tag current)
       else if t = JStr ''smh_archive_ref'' then smh_archive_hash current
       else if t = JStr ''external_hash_ref'' then
         (if get_member ''regime'' ref \<noteq> JStr ''sha-256'' then Inl (NotAllowed ''unsupported declared regime'')
          else let b = (case current of RawBytes b \<Rightarrow> b | CkValue v \<Rightarrow> utf8 (py_str v)) in
            (case get_member ''domain_tag'' ref of
               JNull \<Rightarrow> Inr (to_hex (sha256 b))
             | JStr dt \<Rightarrow> if list_ex (\<lambda>c. (of_char c :: nat) \<ge> 128) dt then Inl (Raised ''UnicodeEncodeError'') else Inr (to_hex (sha256 (tagged dt b)))
             | _ \<Rightarrow> Inl (Raised ''AttributeError'')))
       else Inl (NotAllowed ''unknown ref_type''))"

definition make_descriptor_body :: "string \<Rightarrow> obj list \<Rightarrow> string \<Rightarrow> string \<Rightarrow> (smh_exc, obj) result" where
  "make_descriptor_body kind refs rule_ref basis =
     (if kind \<notin> set PROJECTION_KINDS then Inl (NotAllowed ''bad projection_kind'')
      else if basis \<notin> set FRESHNESS_BASES then Inl (NotAllowed ''bad freshness_basis'')
      else if refs = [] then Inl (NotAllowed ''at least one canonical_source_ref required'')
      else if \<not> list_all known_ref refs then Inl BadRefType
      else Inr [(''projection_kind'', JStr kind), (''canonical_source_refs'', JList (map JObj refs)), (''derivation_rule_ref'', JStr rule_ref),
        (''freshness_basis'', JStr basis), (''tier'', JStr ''WARM''), (''authoritative'', JBool False)])"

definition compute_projection_id :: "obj \<Rightarrow> (smh_exc, string) result" where
  "compute_projection_id body =
     (if ''projection_id'' \<in> set (map fst body) then Inl SelfHash
      else case domain_hash SMH_DESCRIPTOR_TAG (of_json (JObj body)) of Inl r \<Rightarrow> Inl (Canonical r) | Inr h \<Rightarrow> Inr h)"

definition make_descriptor :: "obj \<Rightarrow> (smh_exc, obj) result" where
  "make_descriptor body =
     (if get_member ''tier'' body \<noteq> JStr ''WARM'' \<or> get_member ''authoritative'' body \<noteq> JBool False then Inl (NotAllowed ''invariant'')
      else rbind (compute_projection_id body) (\<lambda>h. Inr [(''projection_id'', JStr h), (''descriptor_body'', JObj body)]))"

datatype descriptor_verdict = IntactDescriptor string | MalformedDescriptor | SelfHashedDescriptor | WrongProjection string string

definition verify_descriptor :: "obj \<Rightarrow> (smh_exc, descriptor_verdict) result" where
  "verify_descriptor envelope =
     (case (get_member ''descriptor_body'' envelope, get_member ''projection_id'' envelope) of
        (JObj body, JStr pid) \<Rightarrow>
          (case compute_projection_id body of
             Inl SelfHash \<Rightarrow> Inr SelfHashedDescriptor
           | Inl e \<Rightarrow> Inl e
           | Inr recomputed \<Rightarrow> Inr (if recomputed \<noteq> pid then WrongProjection pid recomputed else IntactDescriptor pid))
      | _ \<Rightarrow> Inr MalformedDescriptor)"

record resolved =
  rv_present :: bool
  rv_current :: content
  rv_declared :: "string option"

datatype source_finding = SourceMissing json | SourceCorrupt string string json | SourceFresh string | SourceStale string json

definition assess_source :: "obj \<Rightarrow> resolved option \<Rightarrow> (smh_exc, source_finding) result" where
  "assess_source ref r =
     (let h_cited = get_member ''digest'' ref; missing = rbind (index_member ''ref_type'' ref) (\<lambda>_. Inr (SourceMissing h_cited)) in
      case r of
        None \<Rightarrow> missing
      | Some v \<Rightarrow>
          if \<not> rv_present v then missing
          else rbind (recompute_source_identity ref (rv_current v)) (\<lambda>h_recomputed.
            let h_self = (case rv_declared v of None \<Rightarrow> h_recomputed | Some h \<Rightarrow> h) in
            Inr (if h_recomputed \<noteq> h_self then SourceCorrupt h_self h_recomputed h_cited
                 else if h_cited = JStr h_self then SourceFresh h_self else SourceStale h_self h_cited)))"

definition as_object :: "json \<Rightarrow> (smh_exc, obj) result" where
  "as_object v = (case v of JObj kvs \<Rightarrow> Inr kvs | _ \<Rightarrow> Inl (Raised ''AttributeError''))"

definition source_refs :: "json \<Rightarrow> (smh_exc, obj list) result" where
  \<comment> \<open>iterating the cited sources; an empty text or object iterates like an empty list\<close>
  "source_refs v =
     (case v of
        JList xs \<Rightarrow> rmap as_object xs
      | JStr s \<Rightarrow> if s = [] then Inr [] else Inl (Raised ''AttributeError'')
      | JObj kvs \<Rightarrow> if kvs = [] then Inr [] else Inl (Raised ''AttributeError'')
      | _ \<Rightarrow> Inl (Raised ''TypeError''))"

datatype projection_finding = DescriptorCorrupt | UndeterminedMissing | UndeterminedCorrupt | ProjectionStale | ProjectionFresh

definition aggregate_findings :: "source_finding list \<Rightarrow> projection_finding" where
  "aggregate_findings fs =
     (if list_ex (\<lambda>f. case f of SourceMissing _ \<Rightarrow> True | _ \<Rightarrow> False) fs then UndeterminedMissing
      else if list_ex (\<lambda>f. case f of SourceCorrupt _ _ _ \<Rightarrow> True | _ \<Rightarrow> False) fs then UndeterminedCorrupt
      else if list_ex (\<lambda>f. case f of SourceStale _ _ \<Rightarrow> True | _ \<Rightarrow> False) fs then ProjectionStale
      else ProjectionFresh)"

definition assess_projection :: "obj \<Rightarrow> (obj \<Rightarrow> resolved option) \<Rightarrow> (smh_exc, projection_finding) result" where
  "assess_projection envelope resolver =
     rbind (verify_descriptor envelope) (\<lambda>v.
       case v of
         IntactDescriptor _ \<Rightarrow>
           rbind (index_member ''canonical_source_refs'' (obj_fields (get_member ''descriptor_body'' envelope))) (\<lambda>rs.
           rbind (source_refs rs) (\<lambda>refs.
           rbind (rmap (\<lambda>r. assess_source r (resolver r)) refs) (\<lambda>fs. Inr (aggregate_findings fs))))
       | _ \<Rightarrow> Inr DescriptorCorrupt)"

record registry =
  rg_path :: bool
  rg_index :: "(string \<times> obj) list"
  rg_file :: "(string \<times> obj) list option"

definition registry_open :: "bool \<Rightarrow> (string \<times> obj) list option \<Rightarrow> registry" where
  "registry_open path file = \<lparr>rg_path = path, rg_index = (if path then (case file of Some i \<Rightarrow> i | None \<Rightarrow> []) else []), rg_file = file\<rparr>"

definition flush_registry :: "registry \<Rightarrow> registry" where
  "flush_registry g = (if rg_path g then g\<lparr>rg_file := Some (sort_key fst (map (\<lambda>(pid, env). (pid, reread env)) (rg_index g)))\<rparr> else g)"

definition register :: "obj \<Rightarrow> registry \<Rightarrow> (smh_exc, json) result \<times> registry" where
  "register envelope g =
     (case verify_descriptor envelope of
        Inl e \<Rightarrow> (Inl e, g)
      | Inr (IntactDescriptor pid) \<Rightarrow> (Inr (JStr pid), flush_registry (g\<lparr>rg_index := dict_set pid envelope (rg_index g)\<rparr>))
      | Inr _ \<Rightarrow> (Inl (NotAllowed ''refusing to register a corrupt descriptor''), g))"

definition registry_get :: "string \<Rightarrow> registry \<Rightarrow> obj option" where
  "registry_get pid g = map_of (rg_index g) pid"

definition list_ids :: "registry \<Rightarrow> string list" where
  "list_ids g = sort (map fst (rg_index g))"


definition intact_source :: "(obj \<Rightarrow> resolved option) \<Rightarrow> obj \<Rightarrow> bool" where
  \<comment> \<open>the source is at hand and has the identity it declares, if it declares one\<close>
  "intact_source resolver ref =
     (case resolver ref of
        None \<Rightarrow> False
      | Some v \<Rightarrow> rv_present v \<and> (case recompute_source_identity ref (rv_current v) of Inl _ \<Rightarrow> False | Inr h \<Rightarrow> rv_declared v = None \<or> rv_declared v = Some h))"

definition cited_source :: "(obj \<Rightarrow> resolved option) \<Rightarrow> obj \<Rightarrow> bool" where
  \<comment> \<open>the source at hand has the identity the projection cites\<close>
  "cited_source resolver ref =
     (case resolver ref of None \<Rightarrow> False | Some v \<Rightarrow> (case recompute_source_identity ref (rv_current v) of Inl _ \<Rightarrow> False | Inr h \<Rightarrow> get_member ''digest'' ref = JStr h))"

lemma assess_source_fresh: "(\<exists>h. assess_source ref (resolver ref) = Inr (SourceFresh h)) \<longleftrightarrow> intact_source resolver ref \<and> cited_source resolver ref"
  by (auto simp: assess_source_def intact_source_def cited_source_def Let_def rbind_def split: option.splits sum.splits)

lemma assess_source_stale: "(\<exists>h c. assess_source ref (resolver ref) = Inr (SourceStale h c)) \<longleftrightarrow> intact_source resolver ref \<and> \<not> cited_source resolver ref"
  by (auto simp: assess_source_def intact_source_def cited_source_def Let_def rbind_def split: option.splits sum.splits)

definition cited_refs :: "obj \<Rightarrow> obj list option" where
  \<comment> \<open>the sources of an envelope whose identity verifies\<close>
  "cited_refs envelope =
     (case verify_descriptor envelope of
        Inr (IntactDescriptor _) \<Rightarrow>
          (case rbind (index_member ''canonical_source_refs'' (obj_fields (get_member ''descriptor_body'' envelope))) source_refs of Inr refs \<Rightarrow> Some refs | Inl _ \<Rightarrow> None)
      | _ \<Rightarrow> None)"

lemma assess_projection_cases:
  assumes "f \<noteq> DescriptorCorrupt"
  shows "assess_projection envelope resolver = Inr f \<longleftrightarrow>
     (\<exists>refs fs. cited_refs envelope = Some refs \<and> list_all2 (\<lambda>r x. assess_source r (resolver r) = Inr x) refs fs \<and> aggregate_findings fs = f)"
  using assms
  by (auto simp: assess_projection_def cited_refs_def rbind_eq_Inr rmap_eq_Inr split: sum.splits descriptor_verdict.splits)

lemma finding_kinds:
  "(case f of SourceMissing _ \<Rightarrow> True | _ \<Rightarrow> False) \<longleftrightarrow> (\<exists>c. f = SourceMissing c)"
  "(case f of SourceCorrupt _ _ _ \<Rightarrow> True | _ \<Rightarrow> False) \<longleftrightarrow> (\<exists>a b c. f = SourceCorrupt a b c)"
  "(case f of SourceStale _ _ \<Rightarrow> True | _ \<Rightarrow> False) \<longleftrightarrow> (\<exists>h c. f = SourceStale h c)"
  by (cases f; simp)+

lemma findings_stale: "aggregate_findings fs = ProjectionStale \<longleftrightarrow>
    (\<forall>f \<in> set fs. (\<exists>h. f = SourceFresh h) \<or> (\<exists>h c. f = SourceStale h c)) \<and> (\<exists>f \<in> set fs. \<exists>h c. f = SourceStale h c)"
  unfolding aggregate_findings_def finding_kinds list_ex_iff
  by (cases "\<exists>f \<in> set fs. \<exists>c. f = SourceMissing c"; cases "\<exists>f \<in> set fs. \<exists>a b c. f = SourceCorrupt a b c"; simp)
     (metis source_finding.distinct source_finding.exhaust)+

lemma findings_fresh: "aggregate_findings fs = ProjectionFresh \<longleftrightarrow> (\<forall>f \<in> set fs. \<exists>h. f = SourceFresh h)"
  unfolding aggregate_findings_def finding_kinds list_ex_iff
  by (cases "\<exists>f \<in> set fs. \<exists>c. f = SourceMissing c"; cases "\<exists>f \<in> set fs. \<exists>a b c. f = SourceCorrupt a b c"; simp)
     (metis source_finding.distinct source_finding.exhaust)+

lemma findings_exist:
  "(\<exists>fs. list_all2 (\<lambda>r x. g r = Inr x) rs fs \<and> (\<forall>f \<in> set fs. P f)) \<longleftrightarrow> (\<forall>r \<in> set rs. \<exists>x. g r = Inr x \<and> P x)"
proof (induction rs)
  case (Cons r rs)
  have "(\<exists>fs. list_all2 (\<lambda>r x. g r = Inr x) (r # rs) fs \<and> (\<forall>f \<in> set fs. P f)) \<longleftrightarrow>
      (\<exists>x. g r = Inr x \<and> P x) \<and> (\<exists>fs. list_all2 (\<lambda>r x. g r = Inr x) rs fs \<and> (\<forall>f \<in> set fs. P f))" (is "?l \<longleftrightarrow> ?r")
  proof
    assume ?l
    then show ?r by (fastforce simp: list_all2_Cons1)
  next
    assume ?r
    then obtain x fs where "g r = Inr x" "P x" "list_all2 (\<lambda>r x. g r = Inr x) rs fs" "\<forall>f \<in> set fs. P f" by blast
    then show ?l by (intro exI [of _ "x # fs"]) simp
  qed
  then show ?case using Cons.IH by simp
qed simp

lemma found: "list_all2 (\<lambda>r x. g r = Inr x) rs fs \<Longrightarrow> (\<exists>f \<in> set fs. P f) \<longleftrightarrow> (\<exists>r \<in> set rs. \<exists>x. g r = Inr x \<and> P x)"
  by (induction rule: list_all2_induct) auto

text \<open>projection currency. Staleness is never confused with damage: a projection is reported fresh exactly when its descriptor verifies and every source it cites is at hand, intact and has the cited
  identity, and stale exactly when all are at hand and intact and one of them is no longer the cited one.\<close>

theorem projection_currency:
  "(assess_projection envelope resolver = Inr ProjectionFresh) =
     (case cited_refs envelope of None \<Rightarrow> False | Some refs \<Rightarrow> list_all (\<lambda>r. intact_source resolver r \<and> cited_source resolver r) refs)"
  "(assess_projection envelope resolver = Inr ProjectionStale) =
     (case cited_refs envelope of None \<Rightarrow> False
      | Some refs \<Rightarrow> list_all (intact_source resolver) refs \<and> list_ex (\<lambda>r. \<not> cited_source resolver r) refs)"
proof -
  show "(assess_projection envelope resolver = Inr ProjectionFresh) =
     (case cited_refs envelope of None \<Rightarrow> False | Some refs \<Rightarrow> list_all (\<lambda>r. intact_source resolver r \<and> cited_source resolver r) refs)"
  proof -
    have "(\<exists>x. assess_source r (resolver r) = Inr x \<and> (\<exists>h. x = SourceFresh h)) \<longleftrightarrow> intact_source resolver r \<and> cited_source resolver r" for r
      using assess_source_fresh [of r resolver] by auto
    then show ?thesis
      by (simp add: assess_projection_cases findings_fresh findings_exist list_all_iff split: option.split)
  qed
  have i: "intact_source resolver r \<longleftrightarrow> (\<exists>x. assess_source r (resolver r) = Inr x \<and> ((\<exists>h. x = SourceFresh h) \<or> (\<exists>h c. x = SourceStale h c)))" for r
    using assess_source_fresh [of r resolver] assess_source_stale [of r resolver] by auto
  have a: "(\<forall>r \<in> set refs. intact_source resolver r) \<longleftrightarrow>
      (\<exists>fs. list_all2 (\<lambda>r x. assess_source r (resolver r) = Inr x) refs fs \<and> (\<forall>f \<in> set fs. (\<exists>h. f = SourceFresh h) \<or> (\<exists>h c. f = SourceStale h c)))" for refs
    unfolding i by (rule findings_exist [symmetric])
  have s: "(\<exists>f \<in> set fs. \<exists>h c. f = SourceStale h c) \<longleftrightarrow> (\<exists>r \<in> set refs. intact_source resolver r \<and> \<not> cited_source resolver r)"
    if "list_all2 (\<lambda>r x. assess_source r (resolver r) = Inr x) refs fs" for refs fs
  proof -
    have "(\<exists>x. assess_source r (resolver r) = Inr x \<and> (\<exists>h c. x = SourceStale h c)) \<longleftrightarrow> intact_source resolver r \<and> \<not> cited_source resolver r" for r
      using assess_source_stale [of r resolver] by auto
    then show ?thesis using found [OF that, of "\<lambda>f. \<exists>h c. f = SourceStale h c"] by simp
  qed
  show "(assess_projection envelope resolver = Inr ProjectionStale) =
     (case cited_refs envelope of None \<Rightarrow> False
      | Some refs \<Rightarrow> list_all (intact_source resolver) refs \<and> list_ex (\<lambda>r. \<not> cited_source resolver r) refs)"
  proof (cases "cited_refs envelope")
    case None
    then show ?thesis by (simp add: assess_projection_cases)
  next
    case (Some refs)
    let ?L = "list_all2 (\<lambda>r x. assess_source r (resolver r) = Inr x) refs" and ?I = "\<lambda>fs. \<forall>f \<in> set fs. (\<exists>h. f = SourceFresh h) \<or> (\<exists>h c. f = SourceStale h c)"
    have "assess_projection envelope resolver = Inr ProjectionStale \<longleftrightarrow> (\<exists>fs. ?L fs \<and> ?I fs \<and> (\<exists>f \<in> set fs. \<exists>h c. f = SourceStale h c))"
      using Some by (simp add: assess_projection_cases findings_stale)
    also have "\<dots> \<longleftrightarrow> (\<exists>fs. ?L fs \<and> ?I fs \<and> (\<exists>r \<in> set refs. intact_source resolver r \<and> \<not> cited_source resolver r))"
      by (intro ex_cong1 conj_cong refl s)
    also have "\<dots> \<longleftrightarrow> (\<exists>fs. ?L fs \<and> ?I fs) \<and> (\<exists>r \<in> set refs. intact_source resolver r \<and> \<not> cited_source resolver r)" by blast
    also have "\<dots> \<longleftrightarrow> (\<forall>r \<in> set refs. intact_source resolver r) \<and> (\<exists>r \<in> set refs. \<not> cited_source resolver r)" unfolding a [symmetric] by blast
    finally show ?thesis using Some by (simp add: list_all_iff list_ex_iff)
  qed
qed

text \<open>registry sound. The registry holds only what verifies: whatever is registered, in whatever order, every stored envelope has an intact descriptor and is stored under its own identity; a registered
  envelope is the one a later lookup returns.\<close>

definition sound_registry :: "registry \<Rightarrow> bool" where
  "sound_registry g \<longleftrightarrow> list_all (\<lambda>(pid, env). verify_descriptor env = Inr (IntactDescriptor pid)) (rg_index g)"

lemma register_sound: "sound_registry g \<Longrightarrow> sound_registry (snd (register env g))"
  by (auto simp: register_def sound_registry_def flush_registry_def list_all_iff split: sum.splits descriptor_verdict.splits dest!: dict_set_member)

text \<open>registry sound. The registry holds only what verifies: whatever is registered, in whatever order, every stored envelope has an intact descriptor and is stored under its own identity; a registered
  envelope is the one a later lookup returns.\<close>

theorem registry_sound:
  "sound_registry (fold (\<lambda>env g. snd (register env g)) envs (registry_open path None)) \<and>
   (case register env g of (Inr (JStr pid), g') \<Rightarrow> registry_get pid g' = Some env \<and> pid \<in> set (list_ids g') | _ \<Rightarrow> True)"
proof -
  have "sound_registry g \<Longrightarrow> sound_registry (fold (\<lambda>env g. snd (register env g)) envs g)" for g
    by (induction envs arbitrary: g) (simp_all add: register_sound)
  moreover have "sound_registry (registry_open path None)" by (simp add: sound_registry_def registry_open_def)
  moreover have "case register env g of (Inr (JStr pid), g') \<Rightarrow> registry_get pid g' = Some env \<and> pid \<in> set (list_ids g') | _ \<Rightarrow> True"
    by (auto simp: register_def registry_get_def list_ids_def flush_registry_def dict_set_keys simp del: set_map split: sum.splits descriptor_verdict.splits)
  ultimately show ?thesis by blast
qed

text \<open>archive ref binds. A reference to an archive is as good as the archive: the content a reference made for one archive is fresh against is this archive, or a collision of SHA-256.\<close>

theorem archive_ref_binds:
  "smh_archive_ref (RawBytes a) = Inr ref \<Longrightarrow> assess_source ref (Some \<lparr>rv_present = True, rv_current = RawBytes b, rv_declared = None\<rparr>) = Inr (SourceFresh h) \<Longrightarrow>
     b = a \<or> collide (tagged SMH_ARCHIVE_TAG a) (tagged SMH_ARCHIVE_TAG b)"
  by (auto simp: smh_archive_ref_def smh_archive_hash_def assess_source_def recompute_source_identity_def index_member_def get_member_def Let_def tagged_def collide_def split: if_splits)

text \<open>authority registered. The rule that a projection is never authoritative is kept where a descriptor is made but not where it is registered: a body that says it is authoritative
  and cites nothing is registered under its identity and assessed as fresh.\<close>

theorem authority_registered:
  "(let body = [(''tier'', JStr ''COLD''), (''authoritative'', JBool True), (''canonical_source_refs'', JList [])] in
    (case compute_projection_id body of Inl _ \<Rightarrow> False | Inr pid \<Rightarrow>
      let env = [(''projection_id'', JStr pid), (''descriptor_body'', JObj body)] in
      fst (register env (registry_open False None)) = Inr (JStr pid) \<and> assess_projection env (\<lambda>_. None) = Inr ProjectionFresh)
    \<and> make_descriptor body = Inl (NotAllowed ''invariant''))"
  by (simp add: Let_def compute_projection_id_def domain_hash_def canonical_bytes_def without_ext_def SMH_DESCRIPTOR_TAG_def register_def verify_descriptor_def get_member_def
      make_descriptor_def assess_projection_def index_member_def source_refs_def aggregate_findings_def)

subsection \<open>Hooks at real movements\<close>

definition hooked :: "string \<Rightarrow> string \<Rightarrow> string \<Rightarrow> bytes option \<Rightarrow> ledger \<Rightarrow> (smh_exc, movement_outcome) result \<times> ledger" where
  "hooked movement from_tier to_tier archive l =
     (case rbind (case archive of None \<Rightarrow> Inl (NotAllowed ''artifact not present'') | Some b \<Rightarrow> Inr b) (\<lambda>b. smh_archive_ref (RawBytes b)) of
        Inl e \<Rightarrow> (Inl e, l)
      | Inr subject \<Rightarrow> record_movement movement (Some from_tier) (Some to_tier) [subject] None False l)"

definition on_release_minted :: "bytes option \<Rightarrow> ledger \<Rightarrow> (smh_exc, movement_outcome) result \<times> ledger" where
  "on_release_minted = hooked ''deep_export'' ''COLD'' ''DEEP''"

definition on_archive_restored :: "bytes option \<Rightarrow> ledger \<Rightarrow> (smh_exc, movement_outcome) result \<times> ledger" where
  "on_archive_restored = hooked ''restore'' ''DEEP'' ''COLD''"

definition on_archive_hydrated :: "string \<Rightarrow> bytes option \<Rightarrow> ledger \<Rightarrow> (smh_exc, movement_outcome) result \<times> ledger" where
  "on_archive_hydrated to_tier = hooked ''hydration'' ''COLD'' to_tier"

definition on_hot_frontier_tick :: "obj list \<Rightarrow> ledger \<Rightarrow> (smh_exc, movement_outcome) result \<times> ledger" where
  "on_hot_frontier_tick refs = record_movement ''hot_frontier_update'' (Some ''HOT'') (Some ''HOT'') refs None False"

definition mint_and_record :: "('w \<Rightarrow> 'w \<times> 'm) \<Rightarrow> ('w \<Rightarrow> bytes option) \<Rightarrow> 'w \<Rightarrow> ledger \<Rightarrow> 'w \<times> (smh_exc, 'm \<times> movement_outcome) result \<times> ledger" where
  \<comment> \<open>the mint acts on a world from which the archive is then read\<close>
  "mint_and_record mint_fn archive w l =
     (let (w', m) = mint_fn w; (r, l') = on_release_minted (archive w') l in (w', rbind r (\<lambda>x. Inr (m, x)), l'))"

text \<open>mint recorded. Minting leaves a trace that names what was minted: on a ledger that verifies, a mint that leaves an archive appends one receipt citing the SHA-256 identity of exactly the bytes
  then in the archive, and the ledger verifies again; a mint that leaves none changes nothing; a frontier tick never does.\<close>

theorem mint_recorded:
  "(if verify_chain l = Inr (ChainValid n)
    then (case mint_and_record mint_fn archive w l of (w', r, l') \<Rightarrow>
      (case archive w' of
        None \<Rightarrow> r = Inl (NotAllowed ''artifact not present'') \<and> l' = l
      | Some b \<Rightarrow> verify_chain l' = Inr (ChainValid (Suc n)) \<and>
          (\<exists>env ref. lg_chain l' = lg_chain l @ [env] \<and> r = Inr (snd (mint_fn w), ReceiptEmitted ReceiptRequired (get_member ''receipt_id'' env)) \<and>
            smh_archive_ref (RawBytes b) = Inr ref \<and> get_member ''subject_refs'' (body_of env) = JList [JObj ref])))
      \<and> snd (on_hot_frontier_tick refs l) = l
    else True)"
proof (cases "verify_chain l = Inr (ChainValid n)")
  case True
  have hot: "snd (on_hot_frontier_tick refs l) = l" by (simp add: on_hot_frontier_tick_def record_movement_def classify_movement_def)
  show ?thesis
  proof (cases "archive (fst (mint_fn w))")
    case None
    then show ?thesis using hot True by (simp add: mint_and_record_def on_release_minted_def hooked_def split_beta Let_def)
  next
    case (Some b)
    obtain ref where ref: "smh_archive_ref (RawBytes b) = Inr ref" "known_ref ref" "portable (JObj ref)"
      by (simp add: smh_archive_ref_def smh_archive_hash_def known_ref_def get_member_def REF_TYPES_def)
    have "requested ''deep_export'' None False" "recordable (Some ''COLD'') (Some ''DEEP'') [ref]"
      using ref(2,3) by (simp_all add: requested_def classify_movement_def recordable_def tiers_known_def TIERS_def del: portable.simps)
    then obtain env cls where m: "verify_chain (snd (record_movement ''deep_export'' (Some ''COLD'') (Some ''DEEP'') [ref] None False l)) = Inr (ChainValid (Suc n))"
        "lg_chain (snd (record_movement ''deep_export'' (Some ''COLD'') (Some ''DEEP'') [ref] None False l)) = lg_chain l @ [env]"
        "fst (record_movement ''deep_export'' (Some ''COLD'') (Some ''DEEP'') [ref] None False l) = Inr (ReceiptEmitted cls (get_member ''receipt_id'' env))"
        "get_member ''subject_refs'' (body_of env) = JList [JObj ref]"
      using movement_exact [where l = l and n = n and movement = "''deep_export''" and f = "Some ''COLD''" and t = "Some ''DEEP''" and refs = "[ref]" and target = None and opt = False] True
      by (auto split: prod.splits)
    have "cls = ReceiptRequired"
      using m(3) by (auto simp: record_movement_def classify_movement_def split: sum.splits)
    then show ?thesis
      using m hot ref(1) Some True by (simp add: mint_and_record_def on_release_minted_def hooked_def split_beta Let_def)
  qed
qed simp

end
